(* ===== verification/Prelude.thy ===== *)
theory Prelude
  imports Main "HOL-Library.AList" "HOL-Library.Sublist" "HOL-Library.Multiset"
begin

text \<open>
  Shared vocabulary of the development.

  \<^item> A JavaScript \<^verbatim>\<open>Map\<close> is the list of its entries in insertion order; \<^verbatim>\<open>set\<close>
    on a present key keeps the key's position, \<^verbatim>\<open>set\<close> on a new key appends,
    \<^verbatim>\<open>delete\<close> removes the entry. These are the library's \<^const>\<open>AList.update\<close>
    and \<^const>\<open>AList.delete\<close>; \<open>jm_ok\<close> says that no key occurs twice.
  \<^item> A JavaScript string is the list of its UTF-16 code units, here restricted to code units
    below 256 (HOL's \<^typ>\<open>char\<close>). \<open>byteLength\<close> is
    \<^verbatim>\<open>Buffer.byteLength(s, "utf8")\<close>: units from 128 on take two bytes.
    \<^verbatim>\<open>toLowerCase\<close> and \<^verbatim>\<open>toUpperCase\<close> are modelled on the ASCII letters, which is what
    HTTP methods, header names and media types consist of.
  \<^item> Times (\<^verbatim>\<open>Date.now()\<close>, TTLs, deadlines) are integers in milliseconds.
  \<^item> Sockets, HTTP response objects and timers are opaque handles (natural numbers).
\<close>

type_synonym ('k, 'v) jsmap = "('k \<times> 'v) list"
type_synonym socket = nat
type_synonym response_handle = nat
type_synonym timer_handle = nat
type_synonym time = int
type_synonym headers = "(string, string) jsmap"

named_theorems registry_defs "definitions of the registries' operations"
named_theorems effect_simps "what a handler emits"

section \<open>JavaScript maps\<close>

abbreviation jm_get :: "('k, 'v) jsmap \<Rightarrow> 'k \<Rightarrow> 'v option" where
  "jm_get m k \<equiv> map_of m k"

abbreviation jm_set :: "'k \<Rightarrow> 'v \<Rightarrow> ('k, 'v) jsmap \<Rightarrow> ('k, 'v) jsmap" where
  "jm_set k v m \<equiv> AList.update k v m"

abbreviation jm_delete :: "'k \<Rightarrow> ('k, 'v) jsmap \<Rightarrow> ('k, 'v) jsmap" where
  "jm_delete k m \<equiv> AList.delete k m"

abbreviation jm_keys :: "('k, 'v) jsmap \<Rightarrow> 'k list" where
  "jm_keys m \<equiv> map fst m"

abbreviation jm_values :: "('k, 'v) jsmap \<Rightarrow> 'v list" where
  "jm_values m \<equiv> map snd m"

definition jm_ok :: "('k, 'v) jsmap \<Rightarrow> bool" where
  "jm_ok m \<longleftrightarrow> distinct (map fst m)"

declare update_conv' [simp] delete_conv' [simp]

lemma jm_ok_Nil [simp]: "jm_ok []"
  by (simp add: jm_ok_def)

lemma jm_ok_set [simp]: "jm_ok m \<Longrightarrow> jm_ok (jm_set k v m)"
  by (simp add: jm_ok_def distinct_update)

lemma jm_ok_delete [simp]: "jm_ok m \<Longrightarrow> jm_ok (jm_delete k m)"
  by (simp add: jm_ok_def distinct_delete)

lemma jm_ok_filter [simp]: "jm_ok m \<Longrightarrow> jm_ok (filter P m)"
  unfolding jm_ok_def by (induction m) auto

lemma jm_get_iff: "jm_ok m \<Longrightarrow> jm_get m k = Some v \<longleftrightarrow> (k, v) \<in> set m"
  unfolding jm_ok_def by simp

lemma jm_get_filter:
  assumes "jm_ok m"
  shows "jm_get (filter P m) k =
    (case jm_get m k of Some v \<Rightarrow> if P (k, v) then Some v else None | None \<Rightarrow> None)"
  using assms unfolding jm_ok_def
proof (induction m)
  case Nil
  then show ?case by simp
next
  case (Cons p m)
  obtain a b where p: "p = (a, b)" by fastforce
  have "map_of (filter P m) a = None" and "map_of m a = None"
    using Cons.prems p by (auto simp: map_of_eq_None_iff)
  then show ?case using Cons p by (auto split: option.splits)
qed

lemma jm_delete_absent: "jm_get m k = None \<Longrightarrow> jm_delete k m = m"
  by (induction m) (auto split: if_splits)

lemma jm_set_present_keys: "jm_get m k \<noteq> None \<Longrightarrow> jm_keys (jm_set k v m) = jm_keys m"
  by (induction m) auto

lemma jm_set_absent: "jm_get m k = None \<Longrightarrow> jm_set k v m = m @ [(k, v)]"
  by (induction m) (auto split: if_splits)

lemma length_jm_set:
  "length (jm_set k v m) = (if jm_get m k = None then Suc (length m) else length m)"
  by (induction m) auto

lemma length_jm_delete:
  assumes "jm_ok m"
  shows "length (jm_delete k m) = (if jm_get m k = None then length m else length m - 1)"
  using assms
proof (induction m)
  case Nil
  then show ?case by simp
next
  case (Cons p m)
  obtain a b where p: "p = (a, b)" by fastforce
  from Cons.prems p have ok: "jm_ok m" and absent: "map_of m a = None"
    by (auto simp: jm_ok_def map_of_eq_None_iff)
  show ?case
  proof (cases "a = k")
    case True
    with absent have "jm_delete k m = m" by (simp add: jm_delete_absent)
    with True p show ?thesis by simp
  next
    case False
    have "length m \<noteq> 0" if "map_of m k \<noteq> None"
      using that by (cases m) auto
    with False p Cons.IH [OF ok] show ?thesis by auto
  qed
qed

lemma jm_get_last_delete_Nil: "jm_delete k m = [] \<Longrightarrow> k' \<noteq> k \<Longrightarrow> jm_get m k' = None"
  by (metis delete_conv fun_upd_other map_of.simps(1))

lemma jm_delete_set_absent: "jm_get m k = None \<Longrightarrow> jm_delete k (jm_set k v m) = m"
  by (induction m) (auto simp: jm_delete_absent split: if_splits)

text \<open>
  The interface of a registry: abstractly a partial function from keys to the entries that carry
  them. \<open>put\<close> adds an entry under its own key (\<open>fresh\<close> is what the caller owes), \<open>take_out\<close>
  hands an entry out and removes it. The connected agents, the SDK sessions, the pending requests
  and the tunnel WebSockets of the hub are instances.
\<close>

locale keyed_registry =
  fixes view :: "'s \<Rightarrow> 'k \<Rightarrow> 'v option"
    and key :: "'v \<Rightarrow> 'k"
    and fresh :: "'v \<Rightarrow> 's \<Rightarrow> bool"
    and put :: "'v \<Rightarrow> 's \<Rightarrow> 's"
    and take_out :: "'k \<Rightarrow> 's \<Rightarrow> 'v option \<times> 's"
    and inv :: "'s \<Rightarrow> bool"
  assumes inv_key: "inv s \<Longrightarrow> view s k = Some v \<Longrightarrow> key v = k"
    and inv_put: "inv s \<Longrightarrow> fresh v s \<Longrightarrow> inv (put v s)"
    and inv_take: "inv s \<Longrightarrow> inv (snd (take_out k s))"
    and view_put: "inv s \<Longrightarrow> view (put v s) = (view s)(key v \<mapsto> v)"
    and view_take: "inv s \<Longrightarrow> view (snd (take_out k s)) = (view s)(k := None)"
    and take_result: "inv s \<Longrightarrow> fst (take_out k s) = view s k"
begin

text \<open>An entry is handed out at most once: taking the same key again finds nothing.\<close>

lemma take_twice:
  assumes "inv s"
  shows "fst (take_out k (snd (take_out k s))) = None"
  using assms by (simp add: take_result view_take inv_take)

lemma take_after_put:
  assumes "inv s" and "fresh v s"
  shows "fst (take_out (key v) (put v s)) = Some v"
  using assms by (simp add: take_result view_put inv_put)

lemma take_other:
  assumes "inv s" and "k \<noteq> k'"
  shows "fst (take_out k' (snd (take_out k s))) = fst (take_out k' s)"
  using assms by (simp add: take_result view_take inv_take)

lemma taken_entry_has_key:
  assumes "inv s" and "fst (take_out k s) = Some v"
  shows "key v = k"
  using assms by (simp add: take_result inv_key)

text \<open>Entries survive every sequence of removals of other keys.\<close>

lemma take_many:
  assumes "inv s"
  shows "inv (fold (\<lambda>k s. snd (take_out k s)) ks s) \<and>
    view (fold (\<lambda>k s. snd (take_out k s)) ks s) = (\<lambda>k. if k \<in> set ks then None else view s k)"
  using assms
proof (induction ks arbitrary: s)
  case Nil
  then show ?case by simp
next
  case (Cons k ks)
  from Cons.IH [OF inv_take [OF Cons.prems, of k]] Cons.prems show ?case
    by (auto simp: view_take fun_eq_iff)
qed

end

section \<open>Strings\<close>

definition char_upper :: "char \<Rightarrow> char" where
  "char_upper c = (let n = (of_char c :: nat) in if 97 \<le> n \<and> n \<le> 122 then char_of (n - 32) else c)"

definition char_lower :: "char \<Rightarrow> char" where
  "char_lower c = (let n = (of_char c :: nat) in if 65 \<le> n \<and> n \<le> 90 then char_of (n + 32) else c)"

definition toUpperCase :: "string \<Rightarrow> string" where
  "toUpperCase s = map char_upper s"

definition toLowerCase :: "string \<Rightarrow> string" where
  "toLowerCase s = map char_lower s"

definition char_bytes :: "char \<Rightarrow> nat" where
  "char_bytes c = (if (of_char c :: nat) < 128 then 1 else 2)"

definition byteLength :: "string \<Rightarrow> nat" where
  "byteLength s = sum_list (map char_bytes s)"

lemma byteLength_Nil [simp]: "byteLength [] = 0"
  by (simp add: byteLength_def)

lemma byteLength_Cons [simp]: "byteLength (c # s) = char_bytes c + byteLength s"
  by (simp add: byteLength_def)

lemma byteLength_append [simp]: "byteLength (s @ t) = byteLength s + byteLength t"
  by (simp add: byteLength_def)

lemma char_bytes_pos [simp]: "0 < char_bytes c"
  by (simp add: char_bytes_def)

lemma length_le_byteLength: "length s \<le> byteLength s"
  by (induction s) (auto simp: char_bytes_def)

text \<open>Two prefixes of one string with the same byte length are the same prefix.\<close>

lemma byteLength_prefix_unique:
  "s @ r = t @ r' \<Longrightarrow> byteLength s = byteLength t \<Longrightarrow> s = t \<and> r = r'"
proof (induction s arbitrary: t)
  case Nil
  then show ?case by (cases t) (auto simp: char_bytes_def split: if_splits)
next
  case (Cons c s)
  then show ?case by (cases t) (auto simp: char_bytes_def split: if_splits)
qed

text \<open>\<^verbatim>\<open>String.includes\<close>, \<^verbatim>\<open>indexOf\<close>, \<^verbatim>\<open>split\<close> on one character, \<^verbatim>\<open>join\<close>.\<close>

definition str_includes :: "string \<Rightarrow> string \<Rightarrow> bool" where
  "str_includes s p = sublist p s"

fun str_index_of :: "string \<Rightarrow> string \<Rightarrow> nat option" where
  "str_index_of p [] = (if p = [] then Some 0 else None)"
| "str_index_of p (c # s) =
     (if prefix p (c # s) then Some 0 else map_option Suc (str_index_of p s))"

fun str_split :: "char \<Rightarrow> string \<Rightarrow> string list" where
  "str_split sep [] = [[]]"
| "str_split sep (c # s) =
     (if c = sep then [] # str_split sep s
      else (c # hd (str_split sep s)) # tl (str_split sep s))"

fun str_join :: "string \<Rightarrow> string list \<Rightarrow> string" where
  "str_join sep [] = []"
| "str_join sep [s] = s"
| "str_join sep (s # t # ts) = s @ sep @ str_join sep (t # ts)"

lemma str_split_nonempty [simp]: "str_split sep s \<noteq> []"
  by (cases s) auto

lemma str_join_Cons: "ts \<noteq> [] \<Longrightarrow> str_join sep (t # ts) = t @ sep @ str_join sep ts"
  by (cases ts) auto

lemma str_join_concat: "str_join sep (t # ts) = t @ concat (map (\<lambda>u. sep @ u) ts)"
  by (induction ts arbitrary: t) (auto simp: str_join_Cons)

lemma str_join_split: "str_join [sep] (str_split sep s) = s"
proof (induction s)
  case Nil
  then show ?case by simp
next
  case (Cons c s)
  obtain h ts where hs: "str_split sep s = h # ts"
    using str_split_nonempty by (meson neq_Nil_conv)
  show ?case
    using Cons hs by (cases ts) (auto simp: str_join_Cons)
qed

lemma str_split_no_sep: "sep \<notin> set s \<Longrightarrow> str_split sep s = [s]"
  by (induction s) auto

lemma str_split_append_sep: "sep \<notin> set s \<Longrightarrow> str_split sep (s @ sep # t) = s # str_split sep t"
  by (induction s) auto

lemma str_split_join:
  "ts \<noteq> [] \<Longrightarrow> \<forall>t \<in> set ts. sep \<notin> set t \<Longrightarrow> str_split sep (str_join [sep] ts) = ts"
proof (induction ts rule: induct_list012)
  case 1
  then show ?case by simp
next
  case (2 t)
  then show ?case by (simp add: str_split_no_sep)
next
  case (3 t u ts)
  then show ?case by (simp add: str_split_append_sep)
qed

lemma str_index_of_Some:
  "str_index_of p s = Some i \<Longrightarrow> s = take i s @ p @ drop (i + length p) s"
proof (induction s arbitrary: i)
  case Nil
  then show ?case by (auto split: if_splits)
next
  case (Cons c s)
  show ?case
  proof (cases "prefix p (c # s)")
    case True
    with Cons.prems show ?thesis by (auto simp: prefix_def)
  next
    case False
    with Cons.prems obtain j where j: "str_index_of p s = Some j" and i: "i = Suc j"
      by auto
    have "s = take j s @ p @ drop (j + length p) s" by (rule Cons.IH [OF j])
    then show ?thesis using i by simp
  qed
qed

text \<open>Decimal rendering of integers, \<^verbatim>\<open>n.toString()\<close>.\<close>

definition digit_char :: "nat \<Rightarrow> char" where
  "digit_char d = char_of (48 + d)"

fun show_nat :: "nat \<Rightarrow> string" where
  "show_nat n = (if n < 10 then [digit_char n] else show_nat (n div 10) @ [digit_char (n mod 10)])"

declare show_nat.simps [simp del]

definition show_int :: "int \<Rightarrow> string" where
  "show_int i = (if i < 0 then CHR ''-'' # show_nat (nat (- i)) else show_nat (nat i))"

definition digit_val :: "char \<Rightarrow> nat" where
  "digit_val c = of_char c - 48"

definition read_nat :: "string \<Rightarrow> nat" where
  "read_nat s = foldl (\<lambda>a c. a * 10 + digit_val c) 0 s"

lemma digit_val_digit_char [simp]: "d < 10 \<Longrightarrow> digit_val (digit_char d) = d"
  by (simp add: digit_val_def digit_char_def of_char_of)

lemma read_show_nat: "read_nat (show_nat n) = n"
proof (induction n rule: show_nat.induct)
  case (1 n)
  show ?case
  proof (cases "n < 10")
    case True
    then show ?thesis by (simp add: show_nat.simps [of n] read_nat_def)
  next
    case False
    with 1 have IH: "read_nat (show_nat (n div 10)) = n div 10" by simp
    have "read_nat (show_nat n) = read_nat (show_nat (n div 10)) * 10 + n mod 10"
      using False by (simp add: show_nat.simps [of n] read_nat_def)
    with IH show ?thesis by (metis div_mult_mod_eq)
  qed
qed

lemma show_nat_inject [simp]: "show_nat m = show_nat n \<longleftrightarrow> m = n"
  by (metis read_show_nat)

lemma digit_char_digit: "d < 10 \<Longrightarrow> (of_char (digit_char d) :: nat) \<in> {48..57}"
  by (auto simp: digit_char_def of_char_of)

lemma show_nat_digits: "c \<in> set (show_nat n) \<Longrightarrow> (of_char c :: nat) \<in> {48..57}"
proof (induction n rule: show_nat.induct)
  case (1 n)
  show ?case
  proof (cases "n < 10")
    case True
    with 1 show ?thesis by (auto simp: show_nat.simps [of n] dest: digit_char_digit)
  next
    case False
    have "n mod 10 < 10" by simp
    with 1 False show ?thesis
      using digit_char_digit [of "n mod 10"] by (auto simp: show_nat.simps [of n])
  qed
qed

lemma show_nat_not_colon [simp]: "CHR '':'' \<notin> set (show_nat n)"
  using show_nat_digits by fastforce

lemma show_nat_not_minus: "CHR ''-'' \<notin> set (show_nat n)"
  using show_nat_digits by fastforce

lemma show_int_inject [simp]: "show_int i = show_int j \<longleftrightarrow> i = j"
proof
  assume eq: "show_int i = show_int j"
  have minus: "CHR ''-'' \<in> set (show_int k) \<longleftrightarrow> k < 0" for k
    by (simp add: show_int_def show_nat_not_minus)
  from eq minus have "i < 0 \<longleftrightarrow> j < 0" by metis
  with eq show "i = j" by (auto simp: show_int_def split: if_splits)
qed simp

text \<open>
  Prefix-free codes: an encoded value followed by anything can be read back in one way only, so a
  sequence of encoded values of known length is uniquely decodable.
\<close>

locale prefix_code =
  fixes enc :: "'a \<Rightarrow> 'b list"
  assumes prefix_free: "enc x @ r = enc y @ s \<Longrightarrow> x = y \<and> r = s"
begin

lemma seq_prefix_free:
  "length xs = length ys \<Longrightarrow> concat (map enc xs) @ r = concat (map enc ys) @ s \<Longrightarrow> xs = ys \<and> r = s"
proof (induction xs ys rule: list_induct2)
  case Nil
  then show ?case by simp
next
  case (Cons x xs y ys)
  then have "enc x @ (concat (map enc xs) @ r) = enc y @ (concat (map enc ys) @ s)" by simp
  then have "x = y" and "concat (map enc xs) @ r = concat (map enc ys) @ s"
    using prefix_free by blast+
  with Cons.IH show ?case by simp
qed

lemma seq_inject:
  "length xs = length ys \<Longrightarrow> concat (map enc xs) = concat (map enc ys) \<Longrightarrow> xs = ys"
  using seq_prefix_free [of xs ys "[]" "[]"] by simp

end

section \<open>Lists\<close>

lemma distinct_map_filter_mono: "distinct (map f xs) \<Longrightarrow> distinct (map f (filter P xs))"
  by (induction xs) auto

lemma sep_inject:
  "x \<notin> set k \<Longrightarrow> x \<notin> set k' \<Longrightarrow> k @ x # q = k' @ x # q' \<longleftrightarrow> k = k' \<and> q = q'"
proof (induction k arbitrary: k')
  case Nil
  then show ?case by (cases k') auto
next
  case (Cons a k)
  then show ?case by (cases k') auto
qed

lemma find_unique:
  assumes "distinct (map f xs)" and "x \<in> set xs"
  shows "List.find (\<lambda>y. f y = f x) xs = Some x"
  using assms by (induction xs) force+

section \<open>Reading numbers\<close>

definition is_digit :: "char \<Rightarrow> bool" where
  "is_digit c = (let n = (of_char c :: nat) in 48 \<le> n \<and> n \<le> 57)"

definition is_space :: "char \<Rightarrow> bool" where
  "is_space c = (let n = (of_char c :: nat) in n = 32 \<or> (9 \<le> n \<and> n \<le> 13) \<or> n = 160)"

text \<open>\<^verbatim>\<open>parseInt(s, 10)\<close>; \<open>None\<close> is NaN.\<close>

definition parseInt10 :: "string \<Rightarrow> int option" where
  "parseInt10 s =
     (let t = dropWhile is_space s;
          neg = (t \<noteq> [] \<and> hd t = CHR ''-'');
          u = (if t \<noteq> [] \<and> (hd t = CHR ''-'' \<or> hd t = CHR ''+'') then tl t else t);
          ds = takeWhile is_digit u
      in if ds = [] then None else Some ((if neg then - 1 else 1) * int (read_nat ds)))"

end
