(* ===== verification/Protocol.thy ===== *)
theory Protocol
  imports Prelude
begin

text \<open>
  \<^verbatim>\<open>packages/protocol\<close>: the constants, the messages of the wire protocol, the parser's
  validation of an incoming frame, the canonical string of a signed request, the close codes that
  may be sent, and the path and media-type tests.

  Parameters: \<open>sha256\<close> and \<open>hmac\<close> stand for Node's \<^verbatim>\<open>crypto\<close> digests in hexadecimal
  (\<open>hmac key data\<close>). \<^verbatim>\<open>JSON.parse\<close> is represented by its result, \<open>None\<close> when it throws. A
  parsed frame is a JSON value; the routers then cast it to one of the message records, as the
  TypeScript \<^verbatim>\<open>as\<close> casts do.
\<close>

section \<open>Constants\<close>

definition PROTOCOL_VERSION :: string where "PROTOCOL_VERSION = ''1''"

definition REQUEST_TIMEOUT_MS :: int where "REQUEST_TIMEOUT_MS = 120000"
definition PENDING_TTL_MS :: int where "PENDING_TTL_MS = 122000"
definition HEARTBEAT_INTERVAL_MS :: int where "HEARTBEAT_INTERVAL_MS = 15000"
definition MAX_MISSED_PINGS :: nat where "MAX_MISSED_PINGS = 6"
definition AGENT_PRESENCE_TTL_SEC :: int where "AGENT_PRESENCE_TTL_SEC = 25"
definition RECONNECT_INITIAL_MS :: int where "RECONNECT_INITIAL_MS = 1000"
definition RECONNECT_MAX_MS :: int where "RECONNECT_MAX_MS = 300000"
definition SIGNATURE_WINDOW_MS :: int where "SIGNATURE_WINDOW_MS = 30000"
definition REPLAY_WINDOW_MS :: int where "REPLAY_WINDOW_MS = 2 * 30000 + 5000"
definition BATCH_WINDOW_MS :: int where "BATCH_WINDOW_MS = 50"
definition BATCH_MAX_SIZE :: nat where "BATCH_MAX_SIZE = 100"
definition MAX_PAYLOAD_BYTES :: nat where "MAX_PAYLOAD_BYTES = 10 * 1024 * 1024"
definition QUEUE_MAX_ATTEMPTS_INBOUND :: nat where "QUEUE_MAX_ATTEMPTS_INBOUND = 5"

section \<open>JSON values\<close>

text \<open>
  A number is an integer, or a non-integer (a fraction, NaN, an infinity) with the text JavaScript
  renders it as.
\<close>

datatype js_number = JInt int | JNonInt string

datatype json =
  JNull
| JBool bool
| JNum js_number
| JStr string
| JArr "json list"
| JObj "(string \<times> json) list"

text \<open>\<^verbatim>\<open>String(v)\<close>, as a template literal renders a value.\<close>

fun js_String :: "json \<Rightarrow> string" where
  "js_String JNull = ''null''"
| "js_String (JBool b) = (if b then ''true'' else ''false'')"
| "js_String (JNum (JInt i)) = show_int i"
| "js_String (JNum (JNonInt s)) = s"
| "js_String (JStr s) = s"
| "js_String (JArr xs) = str_join '','' (map (\<lambda>x. if x = JNull then [] else js_String x) xs)"
| "js_String (JObj _) = ''[object Object]''"

definition js_render :: "json option \<Rightarrow> string" where
  "js_render v = (case v of None \<Rightarrow> ''undefined'' | Some j \<Rightarrow> js_String j)"

definition json_field :: "json \<Rightarrow> string \<Rightarrow> json option" where
  "json_field j k = (case j of JObj fs \<Rightarrow> map_of fs k | _ \<Rightarrow> None)"

section \<open>Messages\<close>

datatype body_encoding = Utf8 | Base64

record AgentRegisterMsg =
  ar_keyId :: string
  ar_label :: string
  ar_rawSecret :: string
  ar_agentVersion :: string

record AgentPongMsg =
  ap_agentId :: string
  ap_ts :: time

record TunnelResponseMsg =
  tr_requestId :: string
  tr_status :: int
  tr_headers :: headers
  tr_body :: "string option"
  tr_bodyEncoding :: "body_encoding option"
  tr_durationMs :: int

record TunnelAgentErrorMsg =
  te_requestId :: string
  te_code :: string
  te_message :: string

record TunnelWsOpenMsg =
  wo_connectionId :: string
  wo_path :: string
  wo_query :: string
  wo_headers :: headers

record TunnelWsMessageMsg =
  wm_connectionId :: string
  wm_data :: string
  wm_isBinary :: bool

record TunnelWsCloseMsg =
  wc_connectionId :: string
  wc_code :: "js_number option"
  wc_reason :: string

record TunnelWsErrorMsg =
  we_connectionId :: string
  we_message :: string

datatype batch_item =
  BResponse TunnelResponseMsg
| BAgentError TunnelAgentErrorMsg
| BPong AgentPongMsg
| BWsMessage TunnelWsMessageMsg
| BWsClose TunnelWsCloseMsg
| BWsError TunnelWsErrorMsg
| BOther string

record HubRegisteredMsg =
  hr_agentId :: string
  hr_accountId :: string
  hr_replayPending :: bool
  hr_tunnelUrl :: "string option"

record HubPingMsg =
  hp_ts :: time

record TunnelForwardMsg =
  tf_requestId :: string
  tf_meth :: string
  tf_path :: string
  tf_query :: string
  tf_headers :: headers
  tf_body :: "string option"
  tf_bodyEncoding :: "body_encoding option"
  tf_timeoutMs :: int

record HubErrorMsg =
  he_code :: string
  he_message :: string
  he_requestId :: "string option"
  he_fatal :: bool

record SdkRegisterMsg =
  sr_keyId :: string
  sr_requestId :: string
  sr_ts :: time
  sr_signature :: string

record SdkRequestMsg =
  sq_keyId :: string
  sq_requestId :: string
  sq_ts :: time
  sq_signature :: string
  sq_label :: "string option"
  sq_meth :: string
  sq_path :: string
  sq_query :: string
  sq_headers :: headers
  sq_body :: "string option"

record SdkRegisteredMsg =
  sd_sessionId :: string

record SdkResponseMsg =
  sp_requestId :: string
  sp_status :: int
  sp_headers :: headers
  sp_body :: "string option"
  sp_bodyEncoding :: "body_encoding option"
  sp_durationMs :: int

record SdkErrorMsg =
  se_requestId :: string
  se_code :: string
  se_message :: string
  se_retryable :: bool

text \<open>\<open>MOther t\<close> is a frame that parsed but whose \<^verbatim>\<open>type\<close> is none of the protocol's.\<close>

datatype AnyHubMsg =
  MAgentRegister AgentRegisterMsg
| MAgentPong AgentPongMsg
| MTunnelResponse TunnelResponseMsg
| MTunnelAgentError TunnelAgentErrorMsg
| MAgentBatch "batch_item list"
| MTunnelWsMessage TunnelWsMessageMsg
| MTunnelWsClose TunnelWsCloseMsg
| MTunnelWsError TunnelWsErrorMsg
| MTunnelWsOpen TunnelWsOpenMsg
| MHubRegistered HubRegisteredMsg
| MHubPing HubPingMsg
| MTunnelForward TunnelForwardMsg
| MHubError HubErrorMsg
| MSdkRegister SdkRegisterMsg
| MSdkRequest SdkRequestMsg
| MSdkRegistered SdkRegisteredMsg
| MSdkResponse SdkResponseMsg
| MSdkError SdkErrorMsg
| MOther string

section \<open>Frame validation\<close>

record ProtocolError =
  pe_code :: string
  pe_message :: string

definition is_object :: "json \<Rightarrow> bool" where
  "is_object j = (case j of JObj _ \<Rightarrow> True | JArr _ \<Rightarrow> True | _ \<Rightarrow> False)"

definition parseMessage :: "json option \<Rightarrow> ProtocolError + json" where
  "parseMessage parsed =
     (case parsed of
        None \<Rightarrow> Inl \<lparr>pe_code = ''INVALID_MESSAGE'', pe_message = ''Message is not valid JSON''\<rparr>
      | Some msg \<Rightarrow>
          if \<not> is_object msg then
            Inl \<lparr>pe_code = ''INVALID_MESSAGE'', pe_message = ''Message must be a JSON object''\<rparr>
          else if json_field msg ''v'' \<noteq> Some (JStr PROTOCOL_VERSION) then
            Inl \<lparr>pe_code = ''VERSION_UNSUPPORTED'',
                 pe_message = ''Protocol version \"'' @ js_render (json_field msg ''v'') @
                   ''\" is not supported. Expected \"'' @ PROTOCOL_VERSION @ ''\".''\<rparr>
          else (case json_field msg ''type'' of
              Some (JStr t) \<Rightarrow>
                if t = [] then
                  Inl \<lparr>pe_code = ''INVALID_MESSAGE'',
                       pe_message = ''Message missing required \"type\" field''\<rparr>
                else Inr msg
            | _ \<Rightarrow> Inl \<lparr>pe_code = ''INVALID_MESSAGE'',
                       pe_message = ''Message missing required \"type\" field''\<rparr>))"

section \<open>Close codes\<close>

definition toSendableCloseCode :: "js_number option \<Rightarrow> int" where
  "toSendableCloseCode code =
     (case code of
        Some (JInt c) \<Rightarrow>
          (if c = 1005 then 1000
           else if c \<ge> 1000 \<and> c \<le> 1003 then c
           else if c \<ge> 1007 \<and> c \<le> 1014 then c
           else if c \<ge> 3000 \<and> c \<le> 4999 then c
           else 1011)
      | _ \<Rightarrow> 1011)"

section \<open>Paths and media types\<close>

definition isOriginFormPath :: "string option \<Rightarrow> bool" where
  "isOriginFormPath path =
     (case path of
        None \<Rightarrow> False
      | Some [] \<Rightarrow> False
      | Some (c # rest) \<Rightarrow>
          c = CHR ''/'' \<and>
          (case rest of [] \<Rightarrow> True | d # _ \<Rightarrow> d \<noteq> CHR ''/'' \<and> d \<noteq> CHR 0x5C))"

text \<open>A header value as Node gives it: absent, one string, or several.\<close>

datatype header_value = HNone | HOne string | HMany "string list"

definition binaryMediaTypes :: "string list" where
  "binaryMediaTypes = [''image/'', ''application/pdf'', ''application/octet-stream'', ''audio/'',
     ''video/'', ''font/'', ''application/zip'']"

text \<open>\<open>None\<close>: an empty array has no element 0, and \<^verbatim>\<open>undefined.toLowerCase()\<close> throws.\<close>

definition isBinaryContentType :: "header_value \<Rightarrow> bool option" where
  "isBinaryContentType contentType =
     (case (case contentType of HMany [] \<Rightarrow> None | HMany (s # _) \<Rightarrow> Some s | HOne s \<Rightarrow> Some s
              | HNone \<Rightarrow> Some []) of
        None \<Rightarrow> None
      | Some s \<Rightarrow> Some (list_ex (str_includes (toLowerCase s)) binaryMediaTypes))"

section \<open>Canonical string and signatures\<close>

record CanonicalParams =
  cp_meth :: string
  cp_path :: string
  cp_query :: string
  cp_body :: string
  cp_requestId :: string
  cp_ts :: time

definition CANONICAL_VERSION :: string where "CANONICAL_VERSION = ''vv2''"

definition canonical_bodyHash :: "(string \<Rightarrow> string) \<Rightarrow> CanonicalParams \<Rightarrow> string" where
  "canonical_bodyHash sha256 p = (if cp_body p \<noteq> [] then sha256 (cp_body p) else [])"

definition canonical_fields :: "(string \<Rightarrow> string) \<Rightarrow> CanonicalParams \<Rightarrow> string list" where
  "canonical_fields sha256 p =
     [toUpperCase (cp_meth p), cp_path p, cp_query p, canonical_bodyHash sha256 p,
      cp_requestId p, show_int (cp_ts p)]"

definition canonical_field :: "string \<Rightarrow> string" where
  "canonical_field f = show_nat (byteLength f) @ '':'' @ f"

definition buildCanonical :: "(string \<Rightarrow> string) \<Rightarrow> CanonicalParams \<Rightarrow> string" where
  "buildCanonical sha256 p =
     str_join ''|'' (CANONICAL_VERSION # map canonical_field (canonical_fields sha256 p))"

definition signCanonical :: "(string \<Rightarrow> string \<Rightarrow> string) \<Rightarrow> string \<Rightarrow> string \<Rightarrow> string" where
  "signCanonical hmac canonical secretHash = hmac secretHash canonical"

text \<open>
  \<^verbatim>\<open>Buffer.from(s, "hex")\<close> reads pairs of hexadecimal digits and stops at the first pair that
  is not one; a single trailing character is dropped.
\<close>

definition hex_digit :: "char \<Rightarrow> nat option" where
  "hex_digit c =
     (let n = (of_char c :: nat) in
      if 48 \<le> n \<and> n \<le> 57 then Some (n - 48)
      else if 97 \<le> n \<and> n \<le> 102 then Some (n - 87)
      else if 65 \<le> n \<and> n \<le> 70 then Some (n - 55)
      else None)"

fun hex_decode :: "string \<Rightarrow> nat list" where
  "hex_decode (a # b # s) =
     (case (hex_digit a, hex_digit b) of
        (Some h, Some l) \<Rightarrow> (16 * h + l) # hex_decode s
      | _ \<Rightarrow> [])"
| "hex_decode _ = []"

text \<open>
  \<^verbatim>\<open>crypto.timingSafeEqual\<close> compares two buffers of the same length; the length test before it
  is the source's.
\<close>

definition timingSafeEqual :: "nat list \<Rightarrow> nat list \<Rightarrow> bool" where
  "timingSafeEqual a b = list_all2 (=) a b"

definition verifyCanonical :: "(string \<Rightarrow> string \<Rightarrow> string) \<Rightarrow> string \<Rightarrow> string \<Rightarrow> string \<Rightarrow> bool" where
  "verifyCanonical hmac canonical signature secretHash =
     (let expected = signCanonical hmac canonical secretHash;
          a = hex_decode expected;
          b = hex_decode signature
      in if length a \<noteq> length b then False else timingSafeEqual a b)"


section \<open>Correctness of the canonical string\<close>

lemma canonical_field_prefix_free:
  assumes "CHR ''|'' # canonical_field f @ r = CHR ''|'' # canonical_field g @ s"
  shows "f = g \<and> r = s"
proof -
  let ?c = "CHR '':''"
  have len: "takeWhile (\<lambda>x. x \<noteq> ?c) (canonical_field h @ q) = show_nat (byteLength h)" for h q
  proof -
    have "\<And>x. x \<in> set (show_nat (byteLength h)) \<Longrightarrow> x \<noteq> ?c"
      using show_nat_not_colon by metis
    then show ?thesis by (simp add: canonical_field_def takeWhile_append2)
  qed
  have eq: "canonical_field f @ r = canonical_field g @ s" using assms by simp
  with len have "byteLength f = byteLength g" by (metis show_nat_inject)
  moreover from this eq have "f @ r = g @ s" by (simp add: canonical_field_def)
  ultimately show ?thesis by (metis byteLength_prefix_unique)
qed

interpretation canonical_code: prefix_code "\<lambda>f. CHR ''|'' # canonical_field f"
  by unfold_locales (metis append_Cons canonical_field_prefix_free)

lemma buildCanonical_concat:
  "buildCanonical sha256 p =
     CANONICAL_VERSION @ concat (map (\<lambda>f. CHR ''|'' # canonical_field f) (canonical_fields sha256 p))"
  by (simp add: buildCanonical_def str_join_concat comp_def)

lemma canonical_fields_inject:
  assumes "buildCanonical sha256 p = buildCanonical sha256 q"
  shows "canonical_fields sha256 p = canonical_fields sha256 q"
proof (rule canonical_code.seq_inject)
  show "length (canonical_fields sha256 p) = length (canonical_fields sha256 q)"
    by (simp add: canonical_fields_def)
qed (use assms in \<open>simp add: buildCanonical_concat\<close>)

text \<open>
  C33: the canonical string determines every signed field. Two requests have the same canonical
  string exactly when they agree on the upper-cased method, the path, the query, the body hash,
  the request id and the timestamp; no byte of one field can be read as part of another, whatever
  separators the fields contain.
\<close>

theorem buildCanonical_injective:
  "buildCanonical sha256 p = buildCanonical sha256 q \<longleftrightarrow>
     toUpperCase (cp_meth p) = toUpperCase (cp_meth q) \<and> cp_path p = cp_path q \<and>
     cp_query p = cp_query q \<and>
     canonical_bodyHash sha256 p = canonical_bodyHash sha256 q \<and>
     cp_requestId p = cp_requestId q \<and> cp_ts p = cp_ts q"
    (is "?same \<longleftrightarrow> ?fields")
proof
  assume ?same
  then have "canonical_fields sha256 p = canonical_fields sha256 q"
    by (rule canonical_fields_inject)
  then show ?fields by (simp add: canonical_fields_def)
next
  assume ?fields
  then show ?same by (simp add: buildCanonical_def canonical_fields_def)
qed

section \<open>Signatures\<close>

lemma timingSafeEqual_eq [simp]: "timingSafeEqual a b \<longleftrightarrow> a = b"
  by (simp add: timingSafeEqual_def list.rel_eq)

lemma verifyCanonical_iff:
  "verifyCanonical hmac c sig k \<longleftrightarrow> hex_decode (hmac k c) = hex_decode sig"
  by (auto simp: verifyCanonical_def signCanonical_def Let_def)

lemma verify_sign: "verifyCanonical hmac c (signCanonical hmac c k) k"
  by (simp add: verifyCanonical_iff signCanonical_def)

section \<open>Close codes\<close>

text \<open>
  The codes that may be sent, as \<^verbatim>\<open>closeCode.ts\<close> states them: an integer from 1000 to 4999
  that is none of 1004, 1005, 1006 and 1015, and not in the unassigned range 1016 to 2999.
\<close>

definition sendable_close_code :: "int \<Rightarrow> bool" where
  "sendable_close_code c \<longleftrightarrow>
     1000 \<le> c \<and> c \<le> 4999 \<and> c \<notin> {1004, 1005, 1006, 1015} \<and> \<not> (1016 \<le> c \<and> c \<le> 2999)"

lemma toSendableCloseCode_sendable: "sendable_close_code (toSendableCloseCode code)"
  by (auto simp: toSendableCloseCode_def sendable_close_code_def split: option.splits js_number.splits)

lemma toSendableCloseCode_id:
  "sendable_close_code c \<Longrightarrow> toSendableCloseCode (Some (JInt c)) = c"
  by (auto simp: toSendableCloseCode_def sendable_close_code_def)

text \<open>
  Whatever close code a hop received (absent, fractional, reserved or out of range), the code it
  relays is one that may be sent, codes that may be sent are relayed unchanged, and relaying once
  more changes nothing.
\<close>

theorem toSendableCloseCode_correct:
  "sendable_close_code (toSendableCloseCode code) \<and>
   toSendableCloseCode (Some (JInt (toSendableCloseCode code))) = toSendableCloseCode code \<and>
   (sendable_close_code c = (toSendableCloseCode (Some (JInt c)) = c))"
  by (metis toSendableCloseCode_sendable toSendableCloseCode_id)

section \<open>Frame validation\<close>

lemma parseMessage_accepts_iff:
  "parseMessage parsed = Inr msg \<longleftrightarrow>
     parsed = Some msg \<and>
     (\<exists>fs t. msg = JObj fs \<and> map_of fs ''v'' = Some (JStr PROTOCOL_VERSION) \<and>
             map_of fs ''type'' = Some (JStr t) \<and> t \<noteq> [])"
  by (auto simp: parseMessage_def is_object_def json_field_def
      split: option.splits json.splits if_splits)

text \<open>
  A frame is accepted only if it is a JSON object whose version is the protocol's and whose type
  is a non-empty string, and it is then handed on unchanged; every other frame is refused with one
  of the two codes the routers know.
\<close>

theorem parseMessage_correct:
  "case parseMessage parsed of
     Inr msg \<Rightarrow> parsed = Some msg \<and>
       (\<exists>fs t. msg = JObj fs \<and> map_of fs ''v'' = Some (JStr PROTOCOL_VERSION) \<and>
               map_of fs ''type'' = Some (JStr t) \<and> t \<noteq> [])
   | Inl e \<Rightarrow> pe_code e \<in> {''INVALID_MESSAGE'', ''VERSION_UNSUPPORTED''} \<and>
       \<not> (\<exists>fs t. parsed = Some (JObj fs) \<and> map_of fs ''v'' = Some (JStr PROTOCOL_VERSION) \<and>
                map_of fs ''type'' = Some (JStr t) \<and> t \<noteq> [])"
proof (cases "parseMessage parsed")
  case (Inr msg)
  show ?thesis unfolding Inr sum.case using Inr by (simp only: parseMessage_accepts_iff)
next
  case (Inl e)
  then have "\<not> (\<exists>fs t. parsed = Some (JObj fs) \<and> map_of fs ''v'' = Some (JStr PROTOCOL_VERSION) \<and>
                map_of fs ''type'' = Some (JStr t) \<and> t \<noteq> [])"
    by (metis parseMessage_accepts_iff sum.distinct(1))
  moreover from Inl have "pe_code e \<in> {''INVALID_MESSAGE'', ''VERSION_UNSUPPORTED''}"
    by (auto simp: parseMessage_def split: option.splits json.splits if_splits)
  ultimately show ?thesis unfolding Inl sum.case by blast
qed

section \<open>Origin-form paths\<close>

lemma isOriginFormPath_iff:
  "isOriginFormPath (Some p) \<longleftrightarrow>
     prefix ''/'' p \<and> \<not> prefix ''//'' p \<and> \<not> prefix [CHR ''/'', CHR 0x5C] p"
  by (cases p) (auto simp: isOriginFormPath_def split: list.splits)

end
