(* ===== verification/Bytes.thy ===== *)
theory Bytes
  imports Prelude
begin

text \<open>
  Node's \<^verbatim>\<open>Buffer\<close> conversions used to carry bodies over the text protocol: bytes are natural
  numbers below 256. \<open>utf8_encode\<close> is \<^verbatim>\<open>Buffer.from(s, 'utf8')\<close>, \<open>utf8_decode\<close> is
  \<^verbatim>\<open>buf.toString('utf8')\<close>, \<open>base64_encode\<close> and \<open>base64_decode\<close> are the two directions of
  \<^verbatim>\<open>'base64'\<close>. The decoder skips characters outside the alphabet (padding included) and accepts
  the URL-safe variants of the last two digits, as Node's does. Text is limited to the code units
  below 256, so a byte sequence that is not the UTF-8 form of such a text decodes to
  \<open>replacement_char\<close> where Node yields U+FFFD.
\<close>

type_synonym bytes = "nat list"

definition is_bytes :: "bytes \<Rightarrow> bool" where
  "is_bytes bs = (\<forall>b \<in> set bs. b < 256)"

section \<open>UTF-8\<close>

definition utf8_char :: "char \<Rightarrow> bytes" where
  "utf8_char c =
     (let n = (of_char c :: nat) in if n < 128 then [n] else [192 + n div 64, 128 + n mod 64])"

definition utf8_encode :: "string \<Rightarrow> bytes" where
  "utf8_encode s = concat (map utf8_char s)"

definition replacement_char :: char where
  "replacement_char = char_of (191 :: nat)"

fun utf8_decode :: "bytes \<Rightarrow> string" where
  "utf8_decode [] = []"
| "utf8_decode [a] = [if a < 128 then char_of a else replacement_char]"
| "utf8_decode (a # b # r) =
     (if a < 128 then char_of a # utf8_decode (b # r)
      else if (a = 194 \<or> a = 195) \<and> 128 \<le> b \<and> b < 192 then
        char_of ((a - 192) * 64 + (b - 128)) # utf8_decode r
      else replacement_char # utf8_decode (b # r))"

lemma length_utf8_encode: "length (utf8_encode s) = byteLength s"
  by (induction s) (auto simp: utf8_encode_def utf8_char_def char_bytes_def Let_def)

lemma utf8_encode_append [simp]: "utf8_encode (s @ t) = utf8_encode s @ utf8_encode t"
  by (simp add: utf8_encode_def)

lemma utf8_encode_bytes: "is_bytes (utf8_encode s)"
proof -
  have "b < 256" if "b \<in> set (utf8_char c)" for b c
  proof -
    have "(of_char c :: nat) < 256" by (rule nat_of_char_less_256)
    then have "192 + (of_char c :: nat) div 64 < 256" and "128 + (of_char c :: nat) mod 64 < 256"
      by linarith+
    with that \<open>of_char c < 256\<close> show ?thesis
      by (auto simp: utf8_char_def Let_def split: if_splits)
  qed
  then show ?thesis by (auto simp: is_bytes_def utf8_encode_def)
qed

lemma utf8_decode_char: "utf8_decode (utf8_char c @ r) = c # utf8_decode r"
proof (cases "(of_char c :: nat) < 128")
  case True
  then show ?thesis by (cases r) (auto simp: utf8_char_def)
next
  case False
  let ?n = "of_char c :: nat"
  have n: "?n < 256" by (rule nat_of_char_less_256)
  with False have "?n div 64 = 2 \<or> ?n div 64 = 3" by linarith
  moreover have "?n div 64 * 64 + ?n mod 64 = ?n" by simp
  moreover have "?n mod 64 < 64" by simp
  ultimately show ?thesis
    using False by (auto simp: utf8_char_def Let_def)
qed

lemma utf8_roundtrip: "utf8_decode (utf8_encode s) = s"
proof (induction s)
  case Nil
  then show ?case by (simp add: utf8_encode_def)
next
  case (Cons c s)
  have "utf8_encode (c # s) = utf8_char c @ utf8_encode s" by (simp add: utf8_encode_def)
  then show ?case by (simp add: utf8_decode_char Cons)
qed

section \<open>Base64\<close>

definition b64_char :: "nat \<Rightarrow> char" where
  "b64_char i =
     (if i < 26 then char_of (65 + i)
      else if i < 52 then char_of (71 + i)
      else if i < 62 then char_of (i - 4)
      else if i = 62 then CHR ''+'' else CHR ''/'')"

definition b64_val :: "char \<Rightarrow> nat option" where
  "b64_val c =
     (let n = (of_char c :: nat) in
      if 65 \<le> n \<and> n \<le> 90 then Some (n - 65)
      else if 97 \<le> n \<and> n \<le> 122 then Some (n - 71)
      else if 48 \<le> n \<and> n \<le> 57 then Some (n + 4)
      else if n = 43 \<or> n = 45 then Some 62
      else if n = 47 \<or> n = 95 then Some 63
      else None)"

fun base64_encode :: "bytes \<Rightarrow> string" where
  "base64_encode [] = []"
| "base64_encode [a] = [b64_char (a div 4), b64_char (a mod 4 * 16), CHR ''='', CHR ''='']"
| "base64_encode [a, b] =
     [b64_char (a div 4), b64_char (a mod 4 * 16 + b div 16), b64_char (b mod 16 * 4), CHR ''='']"
| "base64_encode (a # b # c # r) =
     b64_char (a div 4) # b64_char (a mod 4 * 16 + b div 16) #
     b64_char (b mod 16 * 4 + c div 64) # b64_char (c mod 64) # base64_encode r"

fun sextet_bytes :: "nat list \<Rightarrow> bytes" where
  "sextet_bytes (w # x # y # z # r) =
     (w * 4 + x div 16) # (x mod 16 * 16 + y div 4) # (y mod 4 * 64 + z) # sextet_bytes r"
| "sextet_bytes [w, x, y] = [w * 4 + x div 16, x mod 16 * 16 + y div 4]"
| "sextet_bytes [w, x] = [w * 4 + x div 16]"
| "sextet_bytes _ = []"

definition base64_decode :: "string \<Rightarrow> bytes" where
  "base64_decode s = sextet_bytes (List.map_filter b64_val s)"

lemma b64_val_char [simp]: "i < 64 \<Longrightarrow> b64_val (b64_char i) = Some i"
  by (auto simp: b64_val_def b64_char_def Let_def of_char_of)

lemma b64_val_pad [simp]: "b64_val CHR ''='' = None"
  by (simp add: b64_val_def)

text \<open>A group of three bytes is read back from its four sextets.\<close>

lemma sextets_of_bytes:
  fixes a b c :: nat
  assumes "a < 256" and "b < 256" and "c < 256"
  shows "a div 4 < 64" and "a mod 4 * 16 + b div 16 < 64" and "b mod 16 * 4 + c div 64 < 64"
    and "a mod 4 * 16 < 64" and "b mod 16 * 4 < 64" and "c mod 64 < 64"
    and "(a mod 4 * 16 + b div 16) div 16 = a mod 4" and "(a mod 4 * 16 + b div 16) mod 16 = b div 16"
    and "(b mod 16 * 4 + c div 64) div 4 = b mod 16" and "(b mod 16 * 4 + c div 64) mod 4 = c div 64"
    and "a div 4 * 4 + a mod 4 = a" and "b div 16 * 16 + b mod 16 = b" and "c div 64 * 64 + c mod 64 = c"
proof -
  have "b div 16 < 16" "c div 64 < 4" "a mod 4 < 4" "b mod 16 < 16" "c mod 64 < 64"
    using assms by simp_all
  then show "(a mod 4 * 16 + b div 16) div 16 = a mod 4" "(a mod 4 * 16 + b div 16) mod 16 = b div 16"
    "(b mod 16 * 4 + c div 64) div 4 = b mod 16" "(b mod 16 * 4 + c div 64) mod 4 = c div 64"
    "a mod 4 * 16 + b div 16 < 64" "b mod 16 * 4 + c div 64 < 64" "a mod 4 * 16 < 64"
    "b mod 16 * 4 < 64" "c mod 64 < 64"
    by simp_all
qed (use assms in simp_all)

lemma base64_roundtrip: "is_bytes bs \<Longrightarrow> base64_decode (base64_encode bs) = bs"
proof (induction bs rule: base64_encode.induct)
  case 1
  then show ?case by (simp add: base64_decode_def map_filter_simps)
next
  case (2 a)
  then show ?case
    using sextets_of_bytes [of a 0 0]
    by (simp add: base64_decode_def map_filter_simps is_bytes_def)
next
  case (3 a b)
  then show ?case
    using sextets_of_bytes [of a b 0]
    by (simp add: base64_decode_def map_filter_simps is_bytes_def)
next
  case (4 a b c r)
  then have "b < 256" by (simp add: is_bytes_def)
  then have "b div 16 < 16" by simp
  then have b: "b div 16 mod 16 = b div 16" "b div 16 div 16 = 0"
    by (simp_all only: mod_less div_less)
  from 4 show ?case
    using sextets_of_bytes [of a b c]
    by (simp add: base64_decode_def map_filter_simps is_bytes_def b)
qed

section \<open>Bodies on the wire\<close>

text \<open>
  \<^verbatim>\<open>buf.toString(enc)\<close> and \<^verbatim>\<open>Buffer.from(s, enc)\<close> for the two encodings of the protocol; the
  Boolean says \<^verbatim>\<open>'base64'\<close>.
\<close>

definition buffer_toString :: "bool \<Rightarrow> bytes \<Rightarrow> string" where
  "buffer_toString isBase64 bs = (if isBase64 then base64_encode bs else utf8_decode bs)"

definition Buffer_from :: "bool \<Rightarrow> string \<Rightarrow> bytes" where
  "Buffer_from isBase64 s = (if isBase64 then base64_decode s else utf8_encode s)"

lemma Buffer_from_Nil [simp]: "Buffer_from isBase64 [] = []"
  by (simp add: Buffer_from_def base64_decode_def utf8_encode_def map_filter_simps)

lemma buffer_roundtrip:
  assumes "is_bytes bs" and "isBase64 \<or> (\<exists>s. bs = utf8_encode s)"
  shows "Buffer_from isBase64 (buffer_toString isBase64 bs) = bs"
  using assms by (auto simp: Buffer_from_def buffer_toString_def base64_roundtrip utf8_roundtrip)

end
