(* ===== verification/HubTypes.thy ===== *)
theory HubTypes
  imports Protocol Bytes
begin

text \<open>
  What the hub's components do to the outside world. A handler returns the new state together with
  the list of the effects it performs, in order. Sends to a socket whose exceptions the code
  swallows are plain effects; where the code reacts to a failing send, the outcome is an argument of
  the handler.
\<close>

text \<open>Records written by the repositories, all of them fire-and-forget.\<close>

datatype db_write =
  DbSessionUpsert string string string string string string
    \<comment> \<open>agentId, accountId, apiKeyId, label, status, hubInstanceId\<close>
| DbSessionDisconnected string string \<comment> \<open>agentId, reason\<close>
| DbSessionTouch string \<comment> \<open>agentId\<close>
| DbRequestCreate string string string string string string
    \<comment> \<open>accountId, apiKeyId, sessionId, requestId, method, path\<close>
| DbRequestResponse string "int option" "int option" "string option"
    \<comment> \<open>requestId, status, durationMs, errorCode\<close>

datatype effect =
  FxSend socket AnyHubMsg \<comment> \<open>\<^verbatim>\<open>ws.send(serialize(msg))\<close>\<close>
| FxSendJson socket json \<comment> \<open>\<^verbatim>\<open>ws.send(JSON.stringify(value))\<close>\<close>
| FxClose socket \<comment> \<open>\<^verbatim>\<open>ws.close()\<close>\<close>
| FxBrowserSend socket bool string \<comment> \<open>a frame to a browser; the flag says base64 of binary data\<close>
| FxBrowserClose socket int string
| FxRawWrite socket string
| FxRawDestroy socket
| FxSetHeader response_handle string "string list"
| FxWriteHead response_handle int headers
| FxEnd response_handle "bytes option"
| FxSetTimer timer_handle int
| FxClearTimer timer_handle
| FxRedisSetPx string json int
| FxRedisSetEx string json int
| FxRedisDel string
| FxRedisIncrBy string nat int \<comment> \<open>key, amount, and the TTL in seconds set when this is the first write\<close>
| FxPublish string json
| FxDb db_write

text \<open>Whether an effect finishes an HTTP response, answers an SDK request, or closes a socket.\<close>

definition ends_response :: "response_handle \<Rightarrow> effect \<Rightarrow> bool" where
  "ends_response res fx = (case fx of FxEnd r _ \<Rightarrow> r = res | _ \<Rightarrow> False)"

definition answers_sdk :: "socket \<Rightarrow> string \<Rightarrow> effect \<Rightarrow> bool" where
  "answers_sdk ws requestId fx =
     (case fx of
        FxSend w (MSdkResponse m) \<Rightarrow> w = ws \<and> sp_requestId m = requestId
      | FxSend w (MSdkError m) \<Rightarrow> w = ws \<and> se_requestId m = requestId
      | _ \<Rightarrow> False)"

end
