(* ===== verification/AgentRegistry.thy ===== *)
theory AgentRegistry
  imports HubTypes
begin

text \<open>
  \<^verbatim>\<open>apps/hub/src/registry/Agent.registry.ts\<close>: the connected agents, by account and label, with two
  reverse indexes. A session object is shared by the three maps; its two mutable fields are
  updated through \<open>AgentRegistry_update\<close>, which changes every alias of the object (objects are
  identified by the agentId the hub generates for each).
\<close>

record AgentSession =
  as_agentId :: string
  as_accountId :: string
  as_keyId :: string
  as_label :: string
  as_ws :: socket
  as_connectedAt :: time
  as_lastSeenAt :: time
  as_missedPings :: nat
  as_agentVersion :: string
  as_ip :: string
  as_secretFingerprint :: "string option"

type_synonym AccountAgents = "(string, AgentSession) jsmap"

record agent_registry =
  ag_accounts :: "(string, AccountAgents) jsmap"
  ag_byAgentId :: "(string, AgentSession) jsmap"
  ag_byWs :: "(socket, AgentSession) jsmap"

definition AgentRegistry_new :: agent_registry where
  "AgentRegistry_new = \<lparr>ag_accounts = [], ag_byAgentId = [], ag_byWs = []\<rparr>"

section \<open>Operations\<close>

definition acct_of :: "string \<Rightarrow> agent_registry \<Rightarrow> AccountAgents" where
  "acct_of accountId reg = (case jm_get (ag_accounts reg) accountId of None \<Rightarrow> [] | Some acct \<Rightarrow> acct)"

definition AgentRegistry_register :: "AgentSession \<Rightarrow> agent_registry \<Rightarrow> agent_registry \<times> effect list" where
  "AgentRegistry_register session reg =
     (let acct = acct_of (as_accountId session) reg;
          (byAgentId, byWs, fx) =
            (case jm_get acct (as_label session) of
               Some existing \<Rightarrow>
                 (jm_delete (as_agentId existing) (ag_byAgentId reg),
                  jm_delete (as_ws existing) (ag_byWs reg),
                  [FxClose (as_ws existing)])
             | None \<Rightarrow> (ag_byAgentId reg, ag_byWs reg, []))
      in (\<lparr>ag_accounts = jm_set (as_accountId session) (jm_set (as_label session) session acct)
             (ag_accounts reg),
           ag_byAgentId = jm_set (as_agentId session) session byAgentId,
           ag_byWs = jm_set (as_ws session) session byWs\<rparr>, fx))"

definition AgentRegistry_evict ::
  "string \<Rightarrow> string \<Rightarrow> agent_registry \<Rightarrow> AgentSession option \<times> agent_registry" where
  "AgentRegistry_evict accountId label reg =
     (case jm_get (ag_accounts reg) accountId of
        None \<Rightarrow> (None, reg)
      | Some acct \<Rightarrow>
          (case jm_get acct label of
             None \<Rightarrow> (None, reg)
           | Some session \<Rightarrow>
               (let acct' = jm_delete label acct in
                (Some session,
                 \<lparr>ag_accounts =
                    (if length acct' = 0 then jm_delete accountId (ag_accounts reg)
                     else jm_set accountId acct' (ag_accounts reg)),
                  ag_byAgentId = jm_delete (as_agentId session) (ag_byAgentId reg),
                  ag_byWs = jm_delete (as_ws session) (ag_byWs reg)\<rparr>))))"

text \<open>An empty label is falsy, so it selects the account's first agent like a missing one.\<close>

definition AgentRegistry_find :: "string \<Rightarrow> string option \<Rightarrow> agent_registry \<Rightarrow> AgentSession option" where
  "AgentRegistry_find accountId label reg =
     (case jm_get (ag_accounts reg) accountId of
        None \<Rightarrow> None
      | Some acct \<Rightarrow>
          if length acct = 0 then None
          else (case label of
              Some (c # l) \<Rightarrow> jm_get acct (c # l)
            | _ \<Rightarrow> (case jm_values acct of [] \<Rightarrow> None | s # _ \<Rightarrow> Some s)))"

definition AgentRegistry_findByAgentId :: "string \<Rightarrow> agent_registry \<Rightarrow> AgentSession option" where
  "AgentRegistry_findByAgentId agentId reg = jm_get (ag_byAgentId reg) agentId"

definition AgentRegistry_findByWs :: "socket \<Rightarrow> agent_registry \<Rightarrow> AgentSession option" where
  "AgentRegistry_findByWs ws reg = jm_get (ag_byWs reg) ws"

definition AgentRegistry_countByAccount :: "string \<Rightarrow> agent_registry \<Rightarrow> nat" where
  "AgentRegistry_countByAccount accountId reg = length (acct_of accountId reg)"

definition AgentRegistry_allSessions :: "agent_registry \<Rightarrow> AgentSession list" where
  "AgentRegistry_allSessions reg = concat (map jm_values (jm_values (ag_accounts reg)))"

definition AgentRegistry_totalCount :: "agent_registry \<Rightarrow> nat" where
  "AgentRegistry_totalCount reg = sum_list (map length (jm_values (ag_accounts reg)))"

definition AgentRegistry_evictAll :: "agent_registry \<Rightarrow> agent_registry \<times> effect list" where
  "AgentRegistry_evictAll reg =
     (AgentRegistry_new, map (\<lambda>s. FxClose (as_ws s)) (jm_values (ag_byAgentId reg)))"

definition upd_session :: "string \<Rightarrow> (AgentSession \<Rightarrow> AgentSession) \<Rightarrow> AgentSession \<Rightarrow> AgentSession" where
  "upd_session agentId f s = (if as_agentId s = agentId then f s else s)"

definition AgentRegistry_update ::
  "string \<Rightarrow> (AgentSession \<Rightarrow> AgentSession) \<Rightarrow> agent_registry \<Rightarrow> agent_registry" where
  "AgentRegistry_update agentId f reg =
     (let g = upd_session agentId f in
      \<lparr>ag_accounts = map (\<lambda>(a, acct). (a, map (\<lambda>(l, s). (l, g s)) acct)) (ag_accounts reg),
       ag_byAgentId = map (\<lambda>(i, s). (i, g s)) (ag_byAgentId reg),
       ag_byWs = map (\<lambda>(w, s). (w, g s)) (ag_byWs reg)\<rparr>)"


section \<open>The abstract directory\<close>

text \<open>
  The registry stands for a partial function from (account, label) to sessions; the invariant ties
  the indexes to it. Every registered session is reachable by its agentId and nothing else is; the
  socket index only ever names registered sessions, under their own socket. (It need not name all of
  them: a socket that registers under two labels is indexed once.)
\<close>

definition agent_view :: "agent_registry \<Rightarrow> string \<times> string \<Rightarrow> AgentSession option" where
  "agent_view reg = (\<lambda>(accountId, label). jm_get (acct_of accountId reg) label)"

definition session_key :: "AgentSession \<Rightarrow> string \<times> string" where
  "session_key s = (as_accountId s, as_label s)"

definition registered :: "agent_registry \<Rightarrow> AgentSession \<Rightarrow> bool" where
  "registered reg s = (agent_view reg (session_key s) = Some s)"

definition accounts_ok :: "agent_registry \<Rightarrow> bool" where
  "accounts_ok reg \<longleftrightarrow> jm_ok (ag_accounts reg) \<and>
     (\<forall>a m. jm_get (ag_accounts reg) a = Some m \<longrightarrow> jm_ok m \<and> m \<noteq> [])"

definition agent_inv :: "agent_registry \<Rightarrow> bool" where
  "agent_inv reg \<longleftrightarrow>
     accounts_ok reg \<and> jm_ok (ag_byAgentId reg) \<and> jm_ok (ag_byWs reg) \<and>
     (\<forall>k s. agent_view reg k = Some s \<longrightarrow> session_key s = k) \<and>
     (\<forall>i s. jm_get (ag_byAgentId reg) i = Some s \<longleftrightarrow> as_agentId s = i \<and> registered reg s) \<and>
     (\<forall>w s. jm_get (ag_byWs reg) w = Some s \<longrightarrow> as_ws s = w \<and> registered reg s)"

lemma agent_invI:
  assumes "accounts_ok reg" and "jm_ok (ag_byAgentId reg)" and "jm_ok (ag_byWs reg)"
    and "\<And>k s. agent_view reg k = Some s \<Longrightarrow> session_key s = k"
    and "\<And>i s. jm_get (ag_byAgentId reg) i = Some s \<Longrightarrow> as_agentId s = i \<and> registered reg s"
    and "\<And>s. registered reg s \<Longrightarrow> jm_get (ag_byAgentId reg) (as_agentId s) = Some s"
    and "\<And>w s. jm_get (ag_byWs reg) w = Some s \<Longrightarrow> as_ws s = w \<and> registered reg s"
  shows "agent_inv reg"
  unfolding agent_inv_def
proof (intro conjI allI impI)
  show "jm_get (ag_byAgentId reg) i = Some s \<longleftrightarrow> as_agentId s = i \<and> registered reg s" for i s
    using assms(5,6) by blast
qed (simp_all add: assms)

lemma agent_invD:
  assumes "agent_inv reg"
  shows "accounts_ok reg" and "jm_ok (ag_byAgentId reg)" and "jm_ok (ag_byWs reg)"
    and "agent_view reg k = Some s \<Longrightarrow> session_key s = k"
    and "jm_get (ag_byAgentId reg) i = Some s \<longleftrightarrow> as_agentId s = i \<and> registered reg s"
    and "jm_get (ag_byWs reg) w = Some s \<Longrightarrow> as_ws s = w \<and> registered reg s"
  using assms unfolding agent_inv_def by blast+

lemma registered_key:
  "registered reg s \<Longrightarrow> registered reg s' \<Longrightarrow> session_key s = session_key s' \<Longrightarrow> s = s'"
  by (simp add: registered_def)

lemma acct_of_set [simp]:
  "acct_of a (reg\<lparr>ag_accounts := jm_set b m (ag_accounts reg)\<rparr>) = (if a = b then m else acct_of a reg)"
  by (simp add: acct_of_def)

lemma registered_inj:
  assumes "agent_inv reg" "registered reg s" "registered reg s'" "as_agentId s = as_agentId s'"
  shows "s = s'"
  using assms unfolding agent_inv_def by (metis option.inject)

lemma acct_of_ok: "accounts_ok reg \<Longrightarrow> jm_ok (acct_of a reg)"
  by (auto simp: accounts_ok_def acct_of_def split: option.split)

lemma jm_set_nonempty [simp]: "jm_set k v m \<noteq> []"
  by (cases m) auto

subsection \<open>register\<close>

lemma view_register:
  "agent_view (fst (AgentRegistry_register s reg)) = (agent_view reg)(session_key s \<mapsto> s)"
  by (auto simp: AgentRegistry_register_def agent_view_def session_key_def acct_of_def Let_def
      fun_eq_iff split: option.splits)

lemma accounts_ok_register:
  "accounts_ok reg \<Longrightarrow> accounts_ok (fst (AgentRegistry_register s reg))"
  by (auto simp: accounts_ok_def AgentRegistry_register_def acct_of_def Let_def
      split: option.splits if_splits)

lemma index_register:
  "ag_byAgentId (fst (AgentRegistry_register s reg)) = jm_set (as_agentId s) s
     (case agent_view reg (session_key s) of
        Some e \<Rightarrow> jm_delete (as_agentId e) (ag_byAgentId reg) | None \<Rightarrow> ag_byAgentId reg)"
  "ag_byWs (fst (AgentRegistry_register s reg)) = jm_set (as_ws s) s
     (case agent_view reg (session_key s) of
        Some e \<Rightarrow> jm_delete (as_ws e) (ag_byWs reg) | None \<Rightarrow> ag_byWs reg)"
  by (auto simp: AgentRegistry_register_def agent_view_def session_key_def Let_def
      split: option.splits)

lemma register_effects [effect_simps]:
  "snd (AgentRegistry_register s reg) =
     (case agent_view reg (session_key s) of Some e \<Rightarrow> [FxClose (as_ws e)] | None \<Rightarrow> [])"
  by (auto simp: AgentRegistry_register_def agent_view_def session_key_def Let_def
      split: option.splits)

lemma registered_register:
  "registered (fst (AgentRegistry_register s reg)) s' \<longleftrightarrow>
     (if session_key s' = session_key s then s' = s else registered reg s')"
  by (auto simp: registered_def view_register)

lemma agent_inv_register:
  assumes inv: "agent_inv reg" and fresh: "jm_get (ag_byAgentId reg) (as_agentId s) = None"
  shows "agent_inv (fst (AgentRegistry_register s reg))"
proof -
  let ?reg = "fst (AgentRegistry_register s reg)"
  note I = agent_invD [OF inv]
  have new: "as_agentId s' \<noteq> as_agentId s" if "registered reg s'" for s'
    using that I(5) fresh by (metis option.distinct(1))
  have old: "registered reg e" "session_key e = session_key s"
    if "agent_view reg (session_key s) = Some e" for e
    using that I(4) by (auto simp: registered_def)
  show ?thesis
  proof (rule agent_invI)
    show "session_key s' = k" if "agent_view ?reg k = Some s'" for k s'
      using that I(4) by (auto simp: view_register split: if_splits)
    show "as_agentId s' = i \<and> registered ?reg s'" if g: "jm_get (ag_byAgentId ?reg) i = Some s'" for i s'
    proof (cases "i = as_agentId s")
      case True
      with g show ?thesis by (simp add: index_register registered_register)
    next
      case False
      with g have "jm_get (ag_byAgentId reg) i = Some s'"
        and ne: "\<And>e. agent_view reg (session_key s) = Some e \<Longrightarrow> i \<noteq> as_agentId e"
        by (auto simp: index_register split: option.splits if_splits)
      then have s': "as_agentId s' = i" "registered reg s'" using I(5) by blast+
      moreover have "session_key s' \<noteq> session_key s"
        using ne s' by (metis registered_def)
      ultimately show ?thesis by (simp add: registered_register)
    qed
    show "jm_get (ag_byAgentId ?reg) (as_agentId s') = Some s'" if r: "registered ?reg s'" for s'
    proof (cases "session_key s' = session_key s")
      case True
      with r show ?thesis by (simp add: index_register registered_register)
    next
      case False
      with r have s': "registered reg s'" by (simp add: registered_register)
      moreover have "as_agentId s' \<noteq> as_agentId e" if "agent_view reg (session_key s) = Some e" for e
        using registered_inj [OF inv s'] old [OF that] False by metis
      ultimately show ?thesis using new I(5)
        by (simp add: index_register split: option.split)
    qed
    show "as_ws s' = w \<and> registered ?reg s'" if "jm_get (ag_byWs ?reg) w = Some s'" for w s'
    proof (cases "w = as_ws s")
      case True
      with that show ?thesis by (simp add: index_register registered_register)
    next
      case False
      with that have "jm_get (ag_byWs reg) w = Some s'"
        and ne: "\<And>e. agent_view reg (session_key s) = Some e \<Longrightarrow> w \<noteq> as_ws e"
        by (auto simp: index_register split: option.splits if_splits)
      then have s': "as_ws s' = w" "registered reg s'" using I(6) by blast+
      moreover have "session_key s' \<noteq> session_key s"
        using ne s' by (metis registered_def)
      ultimately show ?thesis by (simp add: registered_register)
    qed
  qed (simp_all add: I accounts_ok_register index_register split: option.split)
qed

subsection \<open>evict\<close>

lemma evict_result:
  "fst (AgentRegistry_evict a l reg) = agent_view reg (a, l)"
  by (auto simp: AgentRegistry_evict_def agent_view_def acct_of_def Let_def split: option.split)

lemma evict_absent:
  "agent_view reg (a, l) = None \<Longrightarrow> snd (AgentRegistry_evict a l reg) = reg"
  by (auto simp: AgentRegistry_evict_def agent_view_def acct_of_def Let_def split: option.splits)

lemma view_evict:
  "agent_view (snd (AgentRegistry_evict a l reg)) = (agent_view reg)((a, l) := None)"
  by (auto simp: AgentRegistry_evict_def agent_view_def acct_of_def Let_def fun_eq_iff
      dest: jm_get_last_delete_Nil split: option.splits)

lemma accounts_ok_evict:
  "accounts_ok reg \<Longrightarrow> accounts_ok (snd (AgentRegistry_evict a l reg))"
  by (auto simp: accounts_ok_def AgentRegistry_evict_def Let_def split: option.splits if_splits)

lemma index_evict:
  assumes "agent_view reg (a, l) = Some s"
  shows "ag_byAgentId (snd (AgentRegistry_evict a l reg)) = jm_delete (as_agentId s) (ag_byAgentId reg)"
    and "ag_byWs (snd (AgentRegistry_evict a l reg)) = jm_delete (as_ws s) (ag_byWs reg)"
  using assms
  by (auto simp: AgentRegistry_evict_def agent_view_def acct_of_def Let_def split: option.splits)

lemma registered_evict:
  "registered (snd (AgentRegistry_evict a l reg)) s \<longleftrightarrow> session_key s \<noteq> (a, l) \<and> registered reg s"
  by (auto simp: registered_def view_evict)

lemma agent_inv_evict:
  assumes inv: "agent_inv reg"
  shows "agent_inv (snd (AgentRegistry_evict a l reg))"
proof (cases "agent_view reg (a, l)")
  case None
  with inv show ?thesis by (simp add: evict_absent)
next
  case (Some e)
  let ?reg = "snd (AgentRegistry_evict a l reg)"
  note I = agent_invD [OF inv] and ix = index_evict [OF Some]
  have e: "registered reg e" "session_key e = (a, l)"
    using I(4) Some by (auto simp: registered_def)
  show ?thesis
  proof (rule agent_invI)
    show "session_key s = k" if "agent_view ?reg k = Some s" for k s
      using that I(4) by (auto simp: view_evict split: if_splits)
    show "as_agentId s = i \<and> registered ?reg s" if "jm_get (ag_byAgentId ?reg) i = Some s" for i s
      using that I(5) e(2) registered_key [OF e(1)] by (auto simp: ix registered_evict split: if_splits)
    show "jm_get (ag_byAgentId ?reg) (as_agentId s) = Some s" if "registered ?reg s" for s
    proof -
      from that have s: "registered reg s" "s \<noteq> e" using e(2) by (auto simp: registered_evict)
      then have "as_agentId s \<noteq> as_agentId e" using registered_inj [OF inv _ e(1)] by blast
      with s I(5) show ?thesis by (simp add: ix)
    qed
    show "as_ws s = w \<and> registered ?reg s" if "jm_get (ag_byWs ?reg) w = Some s" for w s
    proof -
      from that have s: "jm_get (ag_byWs reg) w = Some s" "w \<noteq> as_ws e" by (auto simp: ix split: if_splits)
      with I(6) have s': "as_ws s = w" "registered reg s" by blast+
      moreover have "session_key s \<noteq> (a, l)" using s s' e registered_key [OF e(1)] by metis
      ultimately show ?thesis by (simp add: registered_evict)
    qed
  qed (simp_all add: I accounts_ok_evict ix)
qed

subsection \<open>Mutation of a session\<close>

text \<open>The hub only changes a session's liveness fields.\<close>

definition liveness_only :: "(AgentSession \<Rightarrow> AgentSession) \<Rightarrow> bool" where
  "liveness_only f \<longleftrightarrow> (\<forall>s. as_agentId (f s) = as_agentId s \<and> as_accountId (f s) = as_accountId s \<and>
     as_label (f s) = as_label s \<and> as_ws (f s) = as_ws s \<and> as_keyId (f s) = as_keyId s)"

lemma map_of_map_values: "map_of (map (\<lambda>(k, v). (k, g v)) m) k = map_option g (map_of m k)"
  by (induction m) auto

lemma jm_ok_map_values [simp]: "jm_ok (map (\<lambda>(k, v). (k, g v)) m) = jm_ok m"
proof -
  have "map fst (map (\<lambda>(k, v). (k, g v)) m) = map fst m" by (induction m) auto
  then show ?thesis by (simp only: jm_ok_def)
qed

lemma upd_session_key:
  assumes "liveness_only f"
  shows "session_key (upd_session i f s) = session_key s" "as_agentId (upd_session i f s) = as_agentId s"
    "as_ws (upd_session i f s) = as_ws s"
  using assms by (auto simp: upd_session_def session_key_def liveness_only_def)

lemma view_update:
  "agent_view (AgentRegistry_update i f reg) k = map_option (upd_session i f) (agent_view reg k)"
  by (cases k) (auto simp: agent_view_def acct_of_def AgentRegistry_update_def Let_def
      map_of_map_values split: option.split)

lemma index_update:
  "jm_get (ag_byAgentId (AgentRegistry_update i f reg)) j =
     map_option (upd_session i f) (jm_get (ag_byAgentId reg) j)"
  "jm_get (ag_byWs (AgentRegistry_update i f reg)) w =
     map_option (upd_session i f) (jm_get (ag_byWs reg) w)"
  by (simp_all add: AgentRegistry_update_def Let_def map_of_map_values)

lemma accounts_ok_update: "accounts_ok reg \<Longrightarrow> accounts_ok (AgentRegistry_update i f reg)"
  by (auto simp: accounts_ok_def AgentRegistry_update_def Let_def map_of_map_values)

lemma agent_inv_update:
  assumes inv: "agent_inv reg" and f: "liveness_only f"
  shows "agent_inv (AgentRegistry_update i f reg)"
proof -
  let ?reg = "AgentRegistry_update i f reg"
  note I = agent_invD [OF inv] and g = upd_session_key [OF f]
  have up: "registered ?reg (upd_session i f s)" if "registered reg s" for s
    using that g by (simp add: registered_def view_update)
  show ?thesis
  proof (rule agent_invI)
    show "session_key s = k" if "agent_view ?reg k = Some s" for k s
      using that I(4) [of k] g by (auto simp: view_update)
    show "as_agentId s = j \<and> registered ?reg s" if "jm_get (ag_byAgentId ?reg) j = Some s" for j s
      using that I(5) up g by (auto simp: index_update)
    show "as_ws s = w \<and> registered ?reg s" if "jm_get (ag_byWs ?reg) w = Some s" for w s
      using that I(6) up g by (auto simp: index_update)
    show "jm_get (ag_byAgentId ?reg) (as_agentId s) = Some s" if "registered ?reg s" for s
    proof -
      from that obtain s0 where s0: "agent_view reg (session_key s) = Some s0" "s = upd_session i f s0"
        by (auto simp: registered_def view_update)
      then have "registered reg s0" using I(4) by (auto simp: registered_def)
      then have "jm_get (ag_byAgentId reg) (as_agentId s0) = Some s0" using I(5) by blast
      then show ?thesis using s0 g by (simp add: index_update)
    qed
    show "jm_ok (ag_byAgentId ?reg)" "jm_ok (ag_byWs ?reg)"
      using I(2,3) by (simp_all add: AgentRegistry_update_def Let_def)
  qed (rule accounts_ok_update [OF I(1)])
qed

subsection \<open>Lookups and counts\<close>

lemma agent_inv_new: "agent_inv AgentRegistry_new"
  by (simp add: agent_inv_def accounts_ok_def AgentRegistry_new_def agent_view_def acct_of_def
      registered_def split_beta)

lemma agent_inv_evictAll: "agent_inv (fst (AgentRegistry_evictAll reg))"
  by (simp add: AgentRegistry_evictAll_def agent_inv_new)

lemma findByAgentId_iff:
  "agent_inv reg \<Longrightarrow> AgentRegistry_findByAgentId i reg = Some s \<longleftrightarrow> as_agentId s = i \<and> registered reg s"
  by (simp add: AgentRegistry_findByAgentId_def agent_inv_def)

lemma findByWs_sound:
  "agent_inv reg \<Longrightarrow> AgentRegistry_findByWs w reg = Some s \<Longrightarrow> as_ws s = w \<and> registered reg s"
  by (auto simp: AgentRegistry_findByWs_def agent_inv_def)

lemma find_label:
  assumes "agent_inv reg" and "l \<noteq> []"
  shows "AgentRegistry_find a (Some l) reg = agent_view reg (a, l)"
proof -
  obtain c l' where "l = c # l'" using assms(2) by (cases l) auto
  then show ?thesis
    by (auto simp: AgentRegistry_find_def agent_view_def acct_of_def split: option.split)
qed

lemma find_registered:
  assumes "agent_inv reg" and "AgentRegistry_find a lo reg = Some s"
  shows "registered reg s \<and> as_accountId s = a"
proof -
  from assms(2) obtain acct where acct: "jm_get (ag_accounts reg) a = Some acct"
    by (auto simp: AgentRegistry_find_def split: option.splits)
  have ok: "jm_ok acct" using assms(1) acct by (auto simp: agent_inv_def accounts_ok_def)
  have "\<exists>l. (l, s) \<in> set acct"
    using assms(2) acct
    by (auto simp: AgentRegistry_find_def split: option.splits list.splits if_splits
        dest: map_of_SomeD)
  then obtain l where "jm_get acct l = Some s" using ok by (auto simp: jm_get_iff)
  then have "agent_view reg (a, l) = Some s" using acct by (simp add: agent_view_def acct_of_def)
  moreover from this have "session_key s = (a, l)" using assms(1) by (simp add: agent_inv_def)
  ultimately show ?thesis by (auto simp: registered_def session_key_def)
qed

lemma allSessions_registered:
  assumes "agent_inv reg"
  shows "set (AgentRegistry_allSessions reg) = {s. registered reg s}"
proof (intro equalityI subsetI)
  fix s assume "s \<in> set (AgentRegistry_allSessions reg)"
  then obtain a m l where am: "(a, m) \<in> set (ag_accounts reg)" and ls: "(l, s) \<in> set m"
    by (auto simp: AgentRegistry_allSessions_def)
  have m: "jm_get (ag_accounts reg) a = Some m"
    using assms am by (simp add: agent_inv_def accounts_ok_def jm_get_iff)
  then have "jm_get m l = Some s"
    using assms ls by (simp add: agent_inv_def accounts_ok_def jm_get_iff)
  with m have view: "agent_view reg (a, l) = Some s" by (simp add: agent_view_def acct_of_def)
  then have "session_key s = (a, l)" using assms by (simp add: agent_inv_def)
  with view show "s \<in> {s. registered reg s}" by (simp add: registered_def)
next
  fix s assume "s \<in> {s. registered reg s}"
  then have "jm_get (acct_of (as_accountId s) reg) (as_label s) = Some s"
    by (simp add: registered_def agent_view_def session_key_def)
  then obtain m where "jm_get (ag_accounts reg) (as_accountId s) = Some m" "jm_get m (as_label s) = Some s"
    by (auto simp: acct_of_def split: option.splits)
  then show "s \<in> set (AgentRegistry_allSessions reg)"
    unfolding AgentRegistry_allSessions_def by (force dest!: map_of_SomeD)
qed

lemma distinct_nested_keys:
  assumes "distinct (map fst m)" and "\<forall>(a, b) \<in> set m. distinct (map fst b)"
  shows "distinct (concat (map (\<lambda>(a, b). map (\<lambda>(l, _). (a, l)) b) m))"
  using assms
proof (induction m)
  case Nil
  then show ?case by simp
next
  case (Cons p m)
  obtain a b where p: "p = (a, b)" by fastforce
  have "distinct (map (\<lambda>(l, v). (a, l)) b)"
  proof -
    have "map (\<lambda>(l, v). (a, l)) b = map (Pair a) (map fst b)" by auto
    moreover have "distinct (map fst b)" using Cons.prems(2) p by auto
    ultimately show ?thesis by (metis distinct_map inj_on_def prod.inject)
  qed
  moreover have "a \<notin> fst ` set m" using Cons.prems(1) p by simp
  ultimately show ?case using Cons p by (fastforce simp: image_iff)
qed

lemma allSessions_distinct:
  assumes inv: "agent_inv reg"
  shows "distinct (map as_agentId (AgentRegistry_allSessions reg))"
proof -
  have key: "session_key s = (a, l)" if "(a, m) \<in> set (ag_accounts reg)" "(l, s) \<in> set m" for a m l s
  proof -
    have m: "jm_get (ag_accounts reg) a = Some m" and ok: "jm_ok m"
      using agent_invD(1) [OF inv] that by (auto simp: accounts_ok_def jm_get_iff)
    then have "agent_view reg (a, l) = Some s"
      using that(2) by (simp add: agent_view_def acct_of_def jm_get_iff)
    then show ?thesis by (rule agent_invD(4) [OF inv])
  qed
  then have "map session_key (AgentRegistry_allSessions reg) =
      concat (map (\<lambda>(a, b). map (\<lambda>(l, _). (a, l)) b) (ag_accounts reg))"
    unfolding AgentRegistry_allSessions_def map_concat map_map
    by (intro arg_cong [where f = concat] map_cong refl) (auto split: prod.split)
  moreover have "distinct (concat (map (\<lambda>(a, b). map (\<lambda>(l, _). (a, l)) b) (ag_accounts reg)))"
    using agent_invD(1) [OF inv]
    by (intro distinct_nested_keys) (auto simp: accounts_ok_def jm_ok_def)
  ultimately have "distinct (map session_key (AgentRegistry_allSessions reg))" by simp
  then have "distinct (AgentRegistry_allSessions reg)" by (simp add: distinct_map)
  moreover have "inj_on as_agentId (set (AgentRegistry_allSessions reg))"
    using registered_inj [OF inv] by (auto simp: inj_on_def allSessions_registered [OF inv])
  ultimately show ?thesis by (simp add: distinct_map)
qed

lemma countByAccount_card:
  assumes "agent_inv reg"
  shows "AgentRegistry_countByAccount a reg = card {l. agent_view reg (a, l) \<noteq> None}"
proof -
  have ok: "jm_ok (acct_of a reg)" using assms by (simp add: agent_inv_def acct_of_ok)
  have "{l. agent_view reg (a, l) \<noteq> None} = set (jm_keys (acct_of a reg))"
    by (auto simp: agent_view_def map_of_eq_None_iff)
  also have "card \<dots> = length (acct_of a reg)"
    using ok by (simp add: jm_ok_def distinct_card [of "jm_keys (acct_of a reg)", simplified])
  finally show ?thesis by (simp add: AgentRegistry_countByAccount_def)
qed

lemma countByAccount_register:
  "AgentRegistry_countByAccount a (fst (AgentRegistry_register s reg)) =
     (if a = as_accountId s \<and> agent_view reg (session_key s) = None
      then Suc (AgentRegistry_countByAccount a reg) else AgentRegistry_countByAccount a reg)"
  by (auto simp: AgentRegistry_countByAccount_def AgentRegistry_register_def acct_of_def
      agent_view_def session_key_def length_jm_set Let_def split: option.splits)

lemma totalCount_allSessions:
  "AgentRegistry_totalCount reg = length (AgentRegistry_allSessions reg)"
  by (simp add: AgentRegistry_totalCount_def AgentRegistry_allSessions_def length_concat comp_def)


subsection \<open>The registry interface\<close>

definition agent_fresh :: "AgentSession \<Rightarrow> agent_registry \<Rightarrow> bool" where
  "agent_fresh s reg = (jm_get (ag_byAgentId reg) (as_agentId s) = None)"

interpretation agents: keyed_registry agent_view session_key agent_fresh
  "\<lambda>s reg. fst (AgentRegistry_register s reg)"
  "\<lambda>(a, l) reg. AgentRegistry_evict a l reg" agent_inv
proof
  show "agent_inv reg \<Longrightarrow> agent_view reg k = Some s \<Longrightarrow> session_key s = k" for reg k s
    by (rule agent_invD(4))
  show "agent_inv reg \<Longrightarrow> agent_fresh s reg \<Longrightarrow> agent_inv (fst (AgentRegistry_register s reg))" for reg s
    by (simp add: agent_inv_register agent_fresh_def)
qed (auto simp: view_register view_evict evict_result agent_inv_evict split: prod.split)

text \<open>
  the agent registry refines a partial function from (account, label) to sessions, and its indexes
  never disagree with it. Registering a session with a fresh agentId replaces whatever held its
  (account, label), closes exactly the replaced session's socket, and makes the new session the
  answer of every lookup; evicting removes exactly that entry, hands out the session once, and leaves
  neither index pointing at it. The per-account count is the number of labels in use, and it grows by
  one exactly when the label was free.
\<close>

theorem agent_registry_correct:
  assumes inv: "agent_inv reg" and fresh: "agent_fresh s reg"
  shows "agent_inv (fst (AgentRegistry_register s reg)) \<and>
    agent_view (fst (AgentRegistry_register s reg)) = (agent_view reg)(session_key s \<mapsto> s) \<and>
    snd (AgentRegistry_register s reg) =
      (case agent_view reg (session_key s) of Some e \<Rightarrow> [FxClose (as_ws e)] | None \<Rightarrow> []) \<and>
    AgentRegistry_findByAgentId (as_agentId s) (fst (AgentRegistry_register s reg)) = Some s \<and>
    AgentRegistry_findByWs (as_ws s) (fst (AgentRegistry_register s reg)) = Some s \<and>
    AgentRegistry_countByAccount (as_accountId s) (fst (AgentRegistry_register s reg)) =
      AgentRegistry_countByAccount (as_accountId s) reg +
        (if agent_view reg (session_key s) = None then 1 else 0) \<and>
    agent_inv (snd (AgentRegistry_evict a l reg)) \<and>
    agent_view (snd (AgentRegistry_evict a l reg)) = (agent_view reg)((a, l) := None) \<and>
    fst (AgentRegistry_evict a l reg) = agent_view reg (a, l) \<and>
    (\<forall>e i w. agent_view reg (a, l) = Some e \<longrightarrow>
       AgentRegistry_findByAgentId i (snd (AgentRegistry_evict a l reg)) \<noteq> Some e \<and>
       AgentRegistry_findByWs w (snd (AgentRegistry_evict a l reg)) \<noteq> Some e)"
proof -
  have gone: "AgentRegistry_findByAgentId i (snd (AgentRegistry_evict a l reg)) \<noteq> Some e \<and>
       AgentRegistry_findByWs w (snd (AgentRegistry_evict a l reg)) \<noteq> Some e"
    if "agent_view reg (a, l) = Some e" for e i w
  proof -
    have "\<not> registered (snd (AgentRegistry_evict a l reg)) e"
      using agent_invD(4) [OF inv that] by (simp add: registered_evict)
    then show ?thesis
      using agent_invD(5,6) [OF agent_inv_evict [OF inv]]
      by (auto simp: AgentRegistry_findByAgentId_def AgentRegistry_findByWs_def)
  qed
  show ?thesis
    using gone agents.inv_put [OF inv fresh] agent_inv_evict [OF inv, of a l]
    by (simp add: view_register view_evict evict_result register_effects countByAccount_register
        AgentRegistry_findByAgentId_def AgentRegistry_findByWs_def index_register)
qed

definition demo_session :: AgentSession where
  "demo_session = \<lparr>as_agentId = ''agt_1'', as_accountId = ''acc'', as_keyId = ''key'', as_label = ''web'',
     as_ws = 1, as_connectedAt = 0, as_lastSeenAt = 0, as_missedPings = 0, as_agentVersion = ''1'',
     as_ip = [], as_secretFingerprint = None\<rparr>"

theorem agent_registry_correct_witness:
  "agent_inv AgentRegistry_new \<and> agent_fresh demo_session AgentRegistry_new \<and>
   AgentRegistry_findByWs 1 (fst (AgentRegistry_register demo_session AgentRegistry_new)) = Some demo_session"
proof -
  have fresh: "agent_fresh demo_session AgentRegistry_new"
    by (simp add: agent_fresh_def AgentRegistry_new_def)
  from agent_registry_correct [OF agent_inv_new fresh] show ?thesis
    using agent_inv_new fresh by (simp add: demo_session_def)
qed

text \<open>
  What a lookup may return. A session found for an account, by label or as its first agent, is
  registered and belongs to that account; the list of all sessions is exactly the registered ones, its
  length is the total, and each account's count is the number of its labels. So a request is never
  handed to another account's agent.
\<close>

theorem agent_lookup_correct:
  assumes "agent_inv reg"
  shows "(AgentRegistry_find a lo reg = Some s \<longrightarrow> registered reg s \<and> as_accountId s = a) \<and>
    (l \<noteq> [] \<longrightarrow> AgentRegistry_find a (Some l) reg = agent_view reg (a, l)) \<and>
    set (AgentRegistry_allSessions reg) = {s. registered reg s} \<and>
    AgentRegistry_totalCount reg = length (AgentRegistry_allSessions reg) \<and>
    AgentRegistry_countByAccount a reg = card {l. agent_view reg (a, l) \<noteq> None}"
  using assms find_registered find_label allSessions_registered totalCount_allSessions
    countByAccount_card by blast

theorem agent_lookup_correct_witness:
  "agent_inv AgentRegistry_new \<and> set (AgentRegistry_allSessions AgentRegistry_new) = {s. registered AgentRegistry_new s}"
  using agent_lookup_correct [OF agent_inv_new] agent_inv_new by blast

end
