(* ===== verification/SdkRegistry.thy ===== *)
theory SdkRegistry
  imports HubTypes
begin

text \<open>
  \<^verbatim>\<open>apps/hub/src/registry/Sdk.registry.ts\<close>: the connected SDK clients, by session and by socket.
  \<open>sdk_inv\<close> says the session index is complete and consistent with the socket index; a socket
  that registers twice keeps its newest session in the socket index only.
\<close>

record SdkSession =
  ss_sessionId :: string
  ss_accountId :: string
  ss_keyId :: string
  ss_ws :: socket
  ss_connectedAt :: time

record sdk_registry =
  sk_sessions :: "(string, SdkSession) jsmap"
  sk_byWs :: "(socket, SdkSession) jsmap"

definition SdkRegistry_new :: sdk_registry where
  "SdkRegistry_new = \<lparr>sk_sessions = [], sk_byWs = []\<rparr>"

definition SdkRegistry_register :: "SdkSession \<Rightarrow> sdk_registry \<Rightarrow> sdk_registry" where
  "SdkRegistry_register session reg = \<lparr>
     sk_sessions = jm_set (ss_sessionId session) session (sk_sessions reg),
     sk_byWs = jm_set (ss_ws session) session (sk_byWs reg)\<rparr>"

definition SdkRegistry_evictByWs :: "socket \<Rightarrow> sdk_registry \<Rightarrow> SdkSession option \<times> sdk_registry" where
  "SdkRegistry_evictByWs ws reg =
     (case jm_get (sk_byWs reg) ws of
        None \<Rightarrow> (None, reg)
      | Some s \<Rightarrow> (Some s, \<lparr>sk_sessions = jm_delete (ss_sessionId s) (sk_sessions reg),
                           sk_byWs = jm_delete ws (sk_byWs reg)\<rparr>))"

definition SdkRegistry_findByWs :: "socket \<Rightarrow> sdk_registry \<Rightarrow> SdkSession option" where
  "SdkRegistry_findByWs ws reg = jm_get (sk_byWs reg) ws"

definition SdkRegistry_totalCount :: "sdk_registry \<Rightarrow> nat" where
  "SdkRegistry_totalCount reg = length (sk_sessions reg)"

definition sdk_inv :: "sdk_registry \<Rightarrow> bool" where
  "sdk_inv reg \<longleftrightarrow> jm_ok (sk_sessions reg) \<and> jm_ok (sk_byWs reg) \<and>
     (\<forall>w s. jm_get (sk_byWs reg) w = Some s \<longrightarrow> ss_ws s = w \<and> jm_get (sk_sessions reg) (ss_sessionId s) = Some s) \<and>
     (\<forall>i s. jm_get (sk_sessions reg) i = Some s \<longrightarrow> ss_sessionId s = i)"

definition sdk_fresh :: "SdkSession \<Rightarrow> sdk_registry \<Rightarrow> bool" where
  "sdk_fresh s reg = (jm_get (sk_sessions reg) (ss_sessionId s) = None)"

definition sdk_view :: "sdk_registry \<Rightarrow> socket \<Rightarrow> SdkSession option" where
  "sdk_view reg = jm_get (sk_byWs reg)"

lemma sdk_inv_new: "sdk_inv SdkRegistry_new"
  by (simp add: sdk_inv_def SdkRegistry_new_def)

lemma sdk_inv_register:
  assumes inv: "sdk_inv reg" and fresh: "sdk_fresh s reg"
  shows "sdk_inv (SdkRegistry_register s reg)"
proof -
  have "ss_sessionId s' \<noteq> ss_sessionId s" if "jm_get (sk_byWs reg) w = Some s'" for w s'
    using inv fresh that unfolding sdk_inv_def sdk_fresh_def by (metis option.distinct(1))
  with inv show ?thesis
    by (auto simp: sdk_inv_def SdkRegistry_register_def)
qed

lemma sdk_inv_evict:
  assumes inv: "sdk_inv reg"
  shows "sdk_inv (snd (SdkRegistry_evictByWs ws reg))"
proof (cases "jm_get (sk_byWs reg) ws")
  case None
  with inv show ?thesis by (simp add: SdkRegistry_evictByWs_def)
next
  case (Some s)
  have "ss_sessionId s' \<noteq> ss_sessionId s" if "jm_get (sk_byWs reg) w = Some s'" "w \<noteq> ws" for w s'
    using inv Some that unfolding sdk_inv_def by (metis option.inject)
  with inv Some show ?thesis
    by (auto simp: sdk_inv_def SdkRegistry_evictByWs_def)
qed

interpretation sdks: keyed_registry sdk_view ss_ws sdk_fresh SdkRegistry_register SdkRegistry_evictByWs sdk_inv
proof
  show "sdk_inv reg \<Longrightarrow> sdk_view reg w = Some s \<Longrightarrow> ss_ws s = w" for reg w s
    by (simp add: sdk_inv_def sdk_view_def)
  show "sdk_view (SdkRegistry_register s reg) = (sdk_view reg)(ss_ws s \<mapsto> s)" for reg s
    by (simp add: sdk_view_def SdkRegistry_register_def fun_eq_iff)
  show "sdk_view (snd (SdkRegistry_evictByWs w reg)) = (sdk_view reg)(w := None)" for reg w
    by (auto simp: sdk_view_def SdkRegistry_evictByWs_def fun_eq_iff split: option.split)
  show "fst (SdkRegistry_evictByWs w reg) = sdk_view reg w" for reg w
    by (simp add: sdk_view_def SdkRegistry_evictByWs_def split: option.split)
qed (simp_all add: sdk_inv_register sdk_inv_evict)

end
