(* ===== verification/Json.thy ===== *)
theory Json
  imports Protocol
begin

text \<open>
  \<^verbatim>\<open>JSON.stringify\<close>, the text of a JSON value, and with it \<^verbatim>\<open>serialize\<close> of
  \<^verbatim>\<open>packages/protocol/src/serializer.ts\<close>: a message is the object its literal builds, with the
  fields in the order they are written and undefined ones left out.
\<close>


definition json_char :: "char \<Rightarrow> string" where
  "json_char c =
     (let n = (of_char c :: nat) in
      if n = 34 then [CHR 0x5C, CHR 0x22]
      else if n = 92 then [CHR 0x5C, CHR 0x5C]
      else if n = 8 then [CHR 0x5C, CHR ''b'']
      else if n = 9 then [CHR 0x5C, CHR ''t'']
      else if n = 10 then [CHR 0x5C, CHR ''n'']
      else if n = 12 then [CHR 0x5C, CHR ''f'']
      else if n = 13 then [CHR 0x5C, CHR ''r'']
      else if n < 32 then
        [CHR 0x5C, CHR ''u'', CHR ''0'', CHR ''0'', (if n < 16 then CHR ''0'' else CHR ''1''),
         ''0123456789abcdef'' ! (n mod 16)]
      else [c])"

definition json_quote :: "string \<Rightarrow> string" where
  "json_quote s = [CHR 0x22] @ concat (map json_char s) @ [CHR 0x22]"

fun json_print :: "json \<Rightarrow> string" where
  "json_print JNull = ''null''"
| "json_print (JBool b) = (if b then ''true'' else ''false'')"
| "json_print (JNum (JInt i)) = show_int i"
| "json_print (JNum (JNonInt s)) = s"
| "json_print (JStr s) = json_quote s"
| "json_print (JArr xs) = ''['' @ str_join '','' (map json_print xs) @ '']''"
| "json_print (JObj fs) =
     ''{'' @ str_join '','' (map (\<lambda>f. json_quote (fst f) @ '':'' @ json_print (snd f)) fs) @ ''}''"

definition headers_json :: "headers \<Rightarrow> json" where
  "headers_json hs = JObj (map (\<lambda>(k, v). (k, JStr v)) hs)"

definition encoding_name :: "body_encoding \<Rightarrow> string" where
  "encoding_name e = (case e of Utf8 \<Rightarrow> ''utf8'' | Base64 \<Rightarrow> ''base64'')"

definition response_json :: "TunnelResponseMsg \<Rightarrow> json" where
  "response_json m = JObj (
     [(''v'', JStr PROTOCOL_VERSION), (''type'', JStr ''tunnel:response''), (''requestId'', JStr (tr_requestId m)),
      (''status'', JNum (JInt (tr_status m))), (''headers'', headers_json (tr_headers m)),
      (''body'', (case tr_body m of None \<Rightarrow> JNull | Some b \<Rightarrow> JStr b))] @
     (case tr_bodyEncoding m of None \<Rightarrow> [] | Some e \<Rightarrow> [(''bodyEncoding'', JStr (encoding_name e))]) @
     [(''durationMs'', JNum (JInt (tr_durationMs m)))])"

definition agent_error_json :: "TunnelAgentErrorMsg \<Rightarrow> json" where
  "agent_error_json m = JObj
     [(''v'', JStr PROTOCOL_VERSION), (''type'', JStr ''tunnel:agent-error''), (''requestId'', JStr (te_requestId m)),
      (''code'', JStr (te_code m)), (''message'', JStr (te_message m))]"

definition pong_json :: "AgentPongMsg \<Rightarrow> json" where
  "pong_json m = JObj
     [(''v'', JStr PROTOCOL_VERSION), (''type'', JStr ''agent:pong''), (''agentId'', JStr (ap_agentId m)),
      (''ts'', JNum (JInt (ap_ts m)))]"

end
