(* ===== verification/HttpResponse.thy ===== *)
theory HttpResponse
  imports HubTypes Json
begin

text \<open>
  Writing HTTP responses (\<^verbatim>\<open>writeResponse\<close>, \<^verbatim>\<open>sendError\<close>) and filtering headers
  (\<^verbatim>\<open>sanitizeHeaders\<close>, \<^verbatim>\<open>isHopByHop\<close>) of \<^verbatim>\<open>apps/hub/src/handlers/HttpTunnel.handler.ts\<close>.

  Node's \<^verbatim>\<open>setHeader\<close> throws on a name that is not a token or a value with a control
  character, \<^verbatim>\<open>writeHead\<close> on a status outside 100 to 999. \<open>writeResponse\<close> returns the calls made
  on the response and whether it threw.
\<close>

section \<open>Headers\<close>

definition hopByHop :: "string list" where
  "hopByHop = [''connection'', ''keep-alive'', ''proxy-authenticate'', ''proxy-authorization'', ''te'',
     ''trailers'', ''transfer-encoding'', ''upgrade'']"

definition isHopByHop :: "string \<Rightarrow> bool" where
  "isHopByHop header = (toLowerCase header \<in> set hopByHop)"

definition sanitizeHeaders :: "headers \<Rightarrow> headers" where
  "sanitizeHeaders headers = filter (\<lambda>(key, _). \<not> isHopByHop key) headers"

definition token_char :: "char \<Rightarrow> bool" where
  "token_char c =
     (let n = (of_char c :: nat) in
      (48 \<le> n \<and> n \<le> 57) \<or> (65 \<le> n \<and> n \<le> 90) \<or> (97 \<le> n \<and> n \<le> 122) \<or>
      c \<in> set ''^_`-!#$%&*+.|~'' \<or> n = 39)"

definition valid_header_name :: "string \<Rightarrow> bool" where
  "valid_header_name name = (name \<noteq> [] \<and> list_all token_char name)"

definition valid_header_value :: "string \<Rightarrow> bool" where
  "valid_header_value v =
     list_all (\<lambda>c. let n = (of_char c :: nat) in n = 9 \<or> (32 \<le> n \<and> n \<noteq> 127)) v"

definition cookie_list :: "string \<Rightarrow> string list" where
  "cookie_list v = filter (\<lambda>s. s \<noteq> []) (str_split (CHR 0x0A) v)"

section \<open>writeResponse\<close>

fun write_headers :: "response_handle \<Rightarrow> bool \<Rightarrow> headers \<Rightarrow> effect list \<times> bool" where
  "write_headers res hasPayload [] = ([], False)"
| "write_headers res hasPayload ((key, v) # hs) =
     (if isHopByHop key then write_headers res hasPayload hs
      else if hasPayload \<and> toLowerCase key = ''content-length'' then write_headers res hasPayload hs
      else if toLowerCase key = ''set-cookie'' then
        (if list_all valid_header_value (cookie_list v) then
           (case write_headers res hasPayload hs of
              (fx, threw) \<Rightarrow> (FxSetHeader res ''set-cookie'' (cookie_list v) # fx, threw))
         else ([], True))
      else if valid_header_name key \<and> valid_header_value v then
        (case write_headers res hasPayload hs of (fx, threw) \<Rightarrow> (FxSetHeader res key [v] # fx, threw))
      else write_headers res hasPayload hs)"

definition response_payload :: "TunnelResponseMsg \<Rightarrow> bytes option" where
  "response_payload response =
     (let isBinary =
        (case tr_bodyEncoding response of
           Some e \<Rightarrow> e = Base64
         | None \<Rightarrow>
             isBinaryContentType
               (case jm_get (tr_headers response) ''content-type'' of Some v \<Rightarrow> HOne v | None \<Rightarrow> HNone)
             = Some True)
      in case tr_body response of
           None \<Rightarrow> None
         | Some [] \<Rightarrow> None
         | Some body \<Rightarrow> Some (Buffer_from isBinary body))"

definition writeResponse :: "response_handle \<Rightarrow> TunnelResponseMsg \<Rightarrow> effect list \<times> bool" where
  "writeResponse res response =
     (let payload = response_payload response in
      case write_headers res (payload \<noteq> None) (tr_headers response) of
        (fx, True) \<Rightarrow> (fx, True)
      | (fx, False) \<Rightarrow>
          (let fx' = fx @ [FxSetHeader res ''X-Tunnel-Duration'' [show_int (tr_durationMs response) @ ''ms'']] @
                 (case payload of
                    Some p \<Rightarrow> [FxSetHeader res ''Content-Length'' [show_nat (length p)]]
                  | None \<Rightarrow> [])
           in if 100 \<le> tr_status response \<and> tr_status response \<le> 999 then
                (fx' @ [FxWriteHead res (tr_status response) [], FxEnd res payload], False)
              else (fx', True)))"

section \<open>sendError\<close>

record error_extra =
  ex_headers :: headers
  ex_retryAfterSeconds :: "int option"

definition no_extra :: error_extra where
  "no_extra = \<lparr>ex_headers = [], ex_retryAfterSeconds = None\<rparr>"

definition error_body :: "int \<Rightarrow> string \<Rightarrow> error_extra \<Rightarrow> string" where
  "error_body status message extra =
     ''{'' @ json_quote ''error'' @ '':'' @ json_quote message @ '','' @ json_quote ''status'' @ '':'' @
     show_int status @ '','' @ json_quote ''tunnel'' @ '':true'' @
     (case ex_retryAfterSeconds extra of
        Some n \<Rightarrow> '','' @ json_quote ''retryAfterSeconds'' @ '':'' @ show_int n | None \<Rightarrow> []) @
     ''}''"

definition sendError :: "response_handle \<Rightarrow> int \<Rightarrow> string \<Rightarrow> error_extra \<Rightarrow> effect list" where
  "sendError res status message extra =
     (let body = error_body status message extra in
      [FxWriteHead res status
         ([(''Content-Type'', ''application/json''), (''Content-Length'', show_nat (byteLength body))] @
          ex_headers extra),
       FxEnd res (Some (utf8_encode body))])"

section \<open>Correctness\<close>

lemma sanitizeHeaders_none: "k \<in> set (jm_keys (sanitizeHeaders hs)) \<Longrightarrow> \<not> isHopByHop k"
  by (auto simp: sanitizeHeaders_def)

lemma sanitizeHeaders_idem: "sanitizeHeaders (sanitizeHeaders hs) = sanitizeHeaders hs"
  by (simp add: sanitizeHeaders_def)

text \<open>A response that can be written: its status is one, and its cookies carry no control character.\<close>

definition writable_response :: "TunnelResponseMsg \<Rightarrow> bool" where
  "writable_response response \<longleftrightarrow>
     100 \<le> tr_status response \<and> tr_status response \<le> 999 \<and>
     list_all (\<lambda>(k, v). toLowerCase k = ''set-cookie'' \<longrightarrow> list_all valid_header_value (cookie_list v))
       (tr_headers response)"

definition header_writes :: "response_handle \<Rightarrow> bool \<Rightarrow> headers \<Rightarrow> effect list" where
  "header_writes res hasPayload hs =
     concat (map (\<lambda>(k, v).
       if toLowerCase k = ''set-cookie'' then [FxSetHeader res ''set-cookie'' (cookie_list v)]
       else if hasPayload \<and> toLowerCase k = ''content-length'' then []
       else if valid_header_name k \<and> valid_header_value v then [FxSetHeader res k [v]] else [])
     (sanitizeHeaders hs))"

lemma write_headers_ok:
  "list_all (\<lambda>(k, v). toLowerCase k = ''set-cookie'' \<longrightarrow> list_all valid_header_value (cookie_list v)) hs \<Longrightarrow>
   write_headers res p hs = (header_writes res p hs, False)"
  by (induction hs) (auto simp: header_writes_def sanitizeHeaders_def split: prod.split)

lemma write_headers_no_end:
  "fx \<in> set (fst (write_headers res p hs)) \<Longrightarrow> \<exists>k v. fx = FxSetHeader res k v"
  by (induction hs) (auto split: prod.splits if_splits)

lemma write_headers_ends: "filter (ends_response r) (fst (write_headers res p hs)) = []"
  by (auto simp: filter_empty_conv ends_response_def dest!: write_headers_no_end)

lemma writeResponse_writable:
  "writable_response response \<Longrightarrow>
   writeResponse res response =
     (header_writes res (response_payload response \<noteq> None) (tr_headers response) @
      [FxSetHeader res ''X-Tunnel-Duration'' [show_int (tr_durationMs response) @ ''ms'']] @
      (case response_payload response of
         Some p \<Rightarrow> [FxSetHeader res ''Content-Length'' [show_nat (length p)]] | None \<Rightarrow> []) @
      [FxWriteHead res (tr_status response) [], FxEnd res (response_payload response)], False)"
  by (simp add: writeResponse_def writable_response_def write_headers_ok Let_def)

lemma writeResponse_ends:
  "length (filter (ends_response r) (fst (writeResponse res response))) =
     (if r = res \<and> \<not> snd (writeResponse res response) then 1 else 0)"
  using write_headers_ends [of r res "response_payload response \<noteq> None" "tr_headers response"]
  by (auto simp: writeResponse_def Let_def ends_response_def split: prod.splits bool.splits option.splits)

lemma sendError_ends:
  "length (filter (ends_response r) (sendError res status message extra)) = (if r = res then 1 else 0)"
  by (simp add: sendError_def Let_def ends_response_def)

lemma sendError_length:
  "sendError res status message extra =
     [FxWriteHead res status h, FxEnd res (Some b)] \<Longrightarrow>
   jm_get h ''Content-Length'' = Some (show_nat (length b))"
  by (auto simp: sendError_def Let_def length_utf8_encode)

text \<open>
  a tunneled response reaches the caller as the backend sent it. For a response with a legal
  status and clean cookies, the handler never throws; it writes exactly the backend's headers that
  are not hop-by-hop (each cookie as its own header, the stale Content-Length of a response with a
  body left out), then a Content-Length equal to the number of bytes that follow, and ends the
  response once with those bytes and the backend's status; and the bytes are the backend's own
  when the agent encoded them with either encoding of the protocol.
\<close>

theorem writeResponse_correct:
  assumes "writable_response response"
    and "is_bytes body" "body \<noteq> []" "tr_bodyEncoding response = Some enc"
    and "enc = Base64 \<or> (\<exists>s. body = utf8_encode s)"
    and "tr_body response = Some (buffer_toString (enc = Base64) body)"
  shows "writeResponse res response =
     (header_writes res True (tr_headers response) @
      [FxSetHeader res ''X-Tunnel-Duration'' [show_int (tr_durationMs response) @ ''ms''],
       FxSetHeader res ''Content-Length'' [show_nat (length body)],
       FxWriteHead res (tr_status response) [], FxEnd res (Some body)], False) \<and>
    (\<forall>k v. FxSetHeader res k v \<in> set (header_writes res True (tr_headers response)) \<longrightarrow>
       \<not> isHopByHop k \<and> toLowerCase k \<noteq> ''content-length'')"
proof -
  have round: "Buffer_from (enc = Base64) (buffer_toString (enc = Base64) body) = body"
    using assms(2,5) by (intro buffer_roundtrip) auto
  then have "buffer_toString (enc = Base64) body \<noteq> []"
    using assms(3) by (metis Buffer_from_Nil)
  then have payload: "response_payload response = Some body"
    using assms(4,6) round by (auto simp: response_payload_def Let_def split: list.split)
  have "isHopByHop ''set-cookie'' = False" "toLowerCase ''set-cookie'' = ''set-cookie''"
    by code_simp+
  then have "\<forall>k v. FxSetHeader res k v \<in> set (header_writes res True (tr_headers response)) \<longrightarrow>
       \<not> isHopByHop k \<and> toLowerCase k \<noteq> ''content-length''"
    by (auto simp: header_writes_def sanitizeHeaders_def split: if_splits)
  then show ?thesis
    using writeResponse_writable [OF assms(1), of res] payload by simp
qed

definition demo_response :: TunnelResponseMsg where
  "demo_response = \<lparr>tr_requestId = ''r'', tr_status = 200,
     tr_headers = [(''content-type'', ''image/png''), (''Connection'', ''close''), (''content-length'', ''9'')],
     tr_body = Some (buffer_toString True [1, 2, 255]), tr_bodyEncoding = Some Base64, tr_durationMs = 3\<rparr>"

theorem writeResponse_correct_witness:
  "snd (writeResponse 7 demo_response) = False \<and>
   FxEnd 7 (Some [1, 2, 255]) \<in> set (fst (writeResponse 7 demo_response))"
proof -
  have "writable_response demo_response" by code_simp
  from writeResponse_correct [OF this, of "[1, 2, 255]" Base64 7]
  show ?thesis by (simp add: demo_response_def is_bytes_def)
qed

text \<open>
  a response the agent sends with an illegal status is never answered: the status check throws
  after the headers were set, nothing ends the response.
\<close>

theorem writeResponse_bad_status:
  assumes "tr_status response < 100 \<or> 999 < tr_status response"
  shows "snd (writeResponse res response) \<and>
    filter (ends_response res) (fst (writeResponse res response)) = []"
  using assms writeResponse_ends [of res res response]
  by (auto simp: writeResponse_def Let_def split: prod.splits bool.splits)

theorem writeResponse_bad_status_witness:
  "snd (writeResponse 7 (demo_response\<lparr>tr_status := 0\<rparr>))"
  using writeResponse_bad_status [of "demo_response\<lparr>tr_status := 0\<rparr>" 7] by simp

end
