(* ===== verification/PendingRegistry.thy ===== *)
theory PendingRegistry
  imports HttpResponse Complex_Main
begin

text \<open>
  \<^verbatim>\<open>apps/hub/src/registry/Pending.registry.ts\<close> with \<^verbatim>\<open>utils/tunnelTimeout.ts\<close>: the requests
  waiting for an agent. The two closures of a \<^verbatim>\<open>PendingRequest\<close> are data here (\<open>reply_to\<close>): the
  SDK path answers on its socket (\<^verbatim>\<open>Message.router.ts\<close>, \<^verbatim>\<open>handleSdkRequest\<close>), the HTTP path
  on its response object (\<^verbatim>\<open>HttpTunnel.handler.ts\<close>, \<^verbatim>\<open>handle\<close>); \<open>run_resolve\<close> and
  \<open>run_reject\<close> run them. The timer a caller arms for a request is an entry of \<open>pd_timers\<close> until it
  is cleared or fires; it carries the requestId and message its callback rejects with.
\<close>

section \<open>Timeouts\<close>

text \<open>
  \<^verbatim>\<open>TUNNEL_REQUEST_TIMEOUT_MS\<close>: unset or empty, set to something that is not a finite number, or
  set to a finite number.
\<close>

datatype env_number = EnvUnset | EnvNotFinite | EnvFinite rat

definition MIN_TIMEOUT_MS :: int where "MIN_TIMEOUT_MS = 5000"
definition MAX_TIMEOUT_MS :: int where "MAX_TIMEOUT_MS = 600000"
definition PENDING_TTL_BUFFER_MS :: int where "PENDING_TTL_BUFFER_MS = 2000"

definition getTunnelRequestTimeoutMs :: "env_number \<Rightarrow> int" where
  "getTunnelRequestTimeoutMs raw =
     (case raw of
        EnvFinite parsed \<Rightarrow>
          if of_int MIN_TIMEOUT_MS \<le> parsed \<and> parsed \<le> of_int MAX_TIMEOUT_MS then \<lfloor>parsed\<rfloor>
          else REQUEST_TIMEOUT_MS
      | _ \<Rightarrow> REQUEST_TIMEOUT_MS)"

definition getPendingTtlMs :: "env_number \<Rightarrow> int" where
  "getPendingTtlMs raw = getTunnelRequestTimeoutMs raw + PENDING_TTL_BUFFER_MS"

lemma timeout_bounds:
  "MIN_TIMEOUT_MS \<le> getTunnelRequestTimeoutMs raw \<and> getTunnelRequestTimeoutMs raw \<le> MAX_TIMEOUT_MS"
  by (auto simp: getTunnelRequestTimeoutMs_def REQUEST_TIMEOUT_MS_def MIN_TIMEOUT_MS_def
      MAX_TIMEOUT_MS_def le_floor_iff floor_le_iff split: env_number.split)

section \<open>Pending requests\<close>

datatype reply_to =
  ReplySdk socket string \<comment> \<open>the SDK's socket and its requestId\<close>
| ReplyHttp response_handle timer_handle

record PendingRequest =
  pr_requestId :: string
  pr_accountId :: string
  pr_agentLabel :: string
  pr_keyId :: string
  pr_enqueuedAt :: time
  pr_reply :: reply_to
  pr_timer :: timer_handle

record pending_registry =
  pd_pending :: "(string, PendingRequest) jsmap"
  pd_timers :: "(timer_handle, string \<times> string) jsmap"

definition PendingRegistry_new :: pending_registry where
  "PendingRegistry_new = \<lparr>pd_pending = [], pd_timers = []\<rparr>"

definition isRetryable :: "string \<Rightarrow> bool" where
  "isRetryable code = (code \<in> set [''AGENT_DISCONNECTED'', ''AGENT_TIMEOUT''])"

definition buildSdkError :: "string \<Rightarrow> string \<Rightarrow> string option \<Rightarrow> bool \<Rightarrow> AnyHubMsg" where
  "buildSdkError code message requestId retryable =
     MSdkError \<lparr>se_requestId = (case requestId of Some r \<Rightarrow> r | None \<Rightarrow> []),
       se_code = code, se_message = message, se_retryable = retryable\<rparr>"

text \<open>The closures: effects, and whether the call threw.\<close>

definition run_resolve :: "PendingRequest \<Rightarrow> TunnelResponseMsg \<Rightarrow> effect list \<times> bool" where
  "run_resolve req response =
     (case pr_reply req of
        ReplySdk ws requestId \<Rightarrow>
          ([FxSend ws (MSdkResponse \<lparr>sp_requestId = requestId, sp_status = tr_status response,
              sp_headers = tr_headers response, sp_body = tr_body response,
              sp_bodyEncoding = tr_bodyEncoding response, sp_durationMs = tr_durationMs response\<rparr>)], False)
      | ReplyHttp res timer \<Rightarrow>
          (case writeResponse res response of (fx, threw) \<Rightarrow> (FxClearTimer timer # fx, threw)))"

definition run_reject :: "PendingRequest \<Rightarrow> string \<Rightarrow> string \<Rightarrow> effect list" where
  "run_reject req code message =
     (case pr_reply req of
        ReplySdk ws requestId \<Rightarrow>
          [FxSend ws (buildSdkError code message (Some requestId) (isRetryable code))]
      | ReplyHttp res timer \<Rightarrow>
          FxClearTimer timer #
          sendError res (if code = ''AGENT_TIMEOUT'' then 504 else 502) message no_extra)"

section \<open>Operations\<close>

definition pending_key :: "string \<Rightarrow> string" where
  "pending_key requestId = ''hub:pending:'' @ requestId"

text \<open>\<^verbatim>\<open>setTimeout\<close>, in the callers: the timer's callback rejects the request.\<close>

definition arm_timer :: "timer_handle \<Rightarrow> string \<Rightarrow> string \<Rightarrow> pending_registry \<Rightarrow> pending_registry" where
  "arm_timer t requestId message reg = reg\<lparr>pd_timers := jm_set t (requestId, message) (pd_timers reg)\<rparr>"

definition clearTimeout :: "timer_handle \<Rightarrow> pending_registry \<Rightarrow> pending_registry" where
  "clearTimeout t reg = reg\<lparr>pd_timers := jm_delete t (pd_timers reg)\<rparr>"

definition PendingRegistry_enqueue ::
  "env_number \<Rightarrow> PendingRequest \<Rightarrow> pending_registry \<Rightarrow> pending_registry \<times> effect list" where
  "PendingRegistry_enqueue env req reg =
     (reg\<lparr>pd_pending := jm_set (pr_requestId req) req (pd_pending reg)\<rparr>,
      [FxRedisSetPx (pending_key (pr_requestId req))
         (JObj [(''accountId'', JStr (pr_accountId req)), (''agentLabel'', JStr (pr_agentLabel req)),
                (''ts'', JNum (JInt (pr_enqueuedAt req)))])
         (getPendingTtlMs env)])"

definition drop_entry :: "PendingRequest \<Rightarrow> string \<Rightarrow> pending_registry \<Rightarrow> pending_registry" where
  "drop_entry req requestId reg =
     \<lparr>pd_pending = jm_delete requestId (pd_pending reg), pd_timers = jm_delete (pr_timer req) (pd_timers reg)\<rparr>"

text \<open>\<open>None\<close>: not found (the call returned false); otherwise whether the closure threw.\<close>

definition PendingRegistry_resolve ::
  "string \<Rightarrow> TunnelResponseMsg \<Rightarrow> pending_registry \<Rightarrow> bool option \<times> pending_registry \<times> effect list" where
  "PendingRegistry_resolve requestId response reg =
     (case jm_get (pd_pending reg) requestId of
        None \<Rightarrow> (None, reg, [])
      | Some req \<Rightarrow>
          (case run_resolve req response of
             (fx, threw) \<Rightarrow>
               (Some threw, drop_entry req requestId reg,
                [FxClearTimer (pr_timer req), FxRedisDel (pending_key requestId)] @ fx)))"

definition PendingRegistry_reject ::
  "string \<Rightarrow> string \<Rightarrow> string \<Rightarrow> pending_registry \<Rightarrow> bool \<times> pending_registry \<times> effect list" where
  "PendingRegistry_reject requestId code message reg =
     (case jm_get (pd_pending reg) requestId of
        None \<Rightarrow> (False, reg, [])
      | Some req \<Rightarrow>
          (True, drop_entry req requestId reg,
           [FxClearTimer (pr_timer req), FxRedisDel (pending_key requestId)] @ run_reject req code message))"

definition for_agent :: "string \<Rightarrow> string \<Rightarrow> PendingRequest \<Rightarrow> bool" where
  "for_agent accountId agentLabel req = (pr_accountId req = accountId \<and> pr_agentLabel req = agentLabel)"

definition PendingRegistry_rejectAllForAgent ::
  "string \<Rightarrow> string \<Rightarrow> pending_registry \<Rightarrow> nat \<times> pending_registry \<times> effect list" where
  "PendingRegistry_rejectAllForAgent accountId agentLabel reg =
     (let hit = filter (\<lambda>(id, req). for_agent accountId agentLabel req) (pd_pending reg) in
      (length hit,
       fold (\<lambda>(id, req). drop_entry req id) hit reg,
       concat (map (\<lambda>(id, req).
         [FxClearTimer (pr_timer req), FxRedisDel (pending_key id)] @
         run_reject req ''AGENT_DISCONNECTED'' ''Agent disconnected while processing your request'') hit)))"

definition PendingRegistry_size :: "pending_registry \<Rightarrow> nat" where
  "PendingRegistry_size reg = length (pd_pending reg)"

text \<open>A timer that is still armed fires: its callback rejects the request it was armed for.\<close>

definition timer_fires :: "timer_handle \<Rightarrow> pending_registry \<Rightarrow> pending_registry \<times> effect list" where
  "timer_fires t reg =
     (case jm_get (pd_timers reg) t of
        None \<Rightarrow> (reg, [])
      | Some (requestId, message) \<Rightarrow>
          snd (PendingRegistry_reject requestId ''AGENT_TIMEOUT'' message (clearTimeout t reg)))"

section \<open>Invariant\<close>

text \<open>
  Entries sit under their own requestId, and every entry's timer is armed and will reject that very
  requestId: no request can be left waiting without a deadline.
\<close>

definition pending_inv :: "pending_registry \<Rightarrow> bool" where
  "pending_inv reg \<longleftrightarrow> jm_ok (pd_pending reg) \<and> jm_ok (pd_timers reg) \<and>
     (\<forall>k req. jm_get (pd_pending reg) k = Some req \<longrightarrow>
        pr_requestId req = k \<and> (\<exists>m. jm_get (pd_timers reg) (pr_timer req) = Some (k, m)))"

lemma pending_invD:
  assumes "pending_inv reg" and "jm_get (pd_pending reg) k = Some req"
  shows "pr_requestId req = k" and "\<exists>m. jm_get (pd_timers reg) (pr_timer req) = Some (k, m)"
  using assms by (auto simp: pending_inv_def)

lemma pending_inv_new: "pending_inv PendingRegistry_new"
  by (simp add: pending_inv_def PendingRegistry_new_def)

lemma pending_timer_inj:
  assumes "pending_inv reg" "jm_get (pd_pending reg) k = Some r" "jm_get (pd_pending reg) k' = Some r'"
    "pr_timer r = pr_timer r'"
  shows "k = k'"
  using pending_invD(2) [OF assms(1,2)] pending_invD(2) [OF assms(1,3)] assms(4) by auto

text \<open>The caller arms a timer of its own for the request and enqueues it.\<close>

definition admit_request ::
  "env_number \<Rightarrow> string \<Rightarrow> PendingRequest \<Rightarrow> pending_registry \<Rightarrow> pending_registry \<times> effect list" where
  "admit_request env message req reg =
     (case PendingRegistry_enqueue env req (arm_timer (pr_timer req) (pr_requestId req) message reg) of
        (reg', fx) \<Rightarrow> (reg', FxSetTimer (pr_timer req) (getTunnelRequestTimeoutMs env) # fx))"

definition timer_fresh :: "PendingRequest \<Rightarrow> pending_registry \<Rightarrow> bool" where
  "timer_fresh req reg = (jm_get (pd_timers reg) (pr_timer req) = None)"

lemma pending_inv_admit:
  assumes "pending_inv reg" and "timer_fresh req reg"
  shows "pending_inv (fst (admit_request env message req reg))"
  using assms
  by (force simp: pending_inv_def admit_request_def PendingRegistry_enqueue_def arm_timer_def timer_fresh_def)

lemma pending_inv_drop:
  assumes inv: "pending_inv reg" and req: "jm_get (pd_pending reg) k = Some req"
  shows "pending_inv (drop_entry req k reg)"
proof -
  have "pr_timer r \<noteq> pr_timer req" if "jm_get (pd_pending reg) k' = Some r" "k' \<noteq> k" for k' r
    using pending_timer_inj [OF inv req that(1)] that(2) by metis
  with inv show ?thesis
    unfolding pending_inv_def drop_entry_def by auto
qed

lemma pending_inv_clear_unused:
  assumes "pending_inv reg" and "\<And>k req. jm_get (pd_pending reg) k = Some req \<Longrightarrow> pr_timer req \<noteq> t"
  shows "pending_inv (clearTimeout t reg)"
  using assms unfolding pending_inv_def clearTimeout_def by auto

lemma pending_inv_resolve:
  "pending_inv reg \<Longrightarrow> pending_inv (fst (snd (PendingRegistry_resolve k response reg)))"
  by (auto simp: PendingRegistry_resolve_def pending_inv_drop split: option.split prod.split)

lemma pending_inv_reject:
  "pending_inv reg \<Longrightarrow> pending_inv (fst (snd (PendingRegistry_reject k code message reg)))"
  by (auto simp: PendingRegistry_reject_def pending_inv_drop split: option.split)

lemma pending_inv_timer:
  assumes inv: "pending_inv reg"
  shows "pending_inv (fst (timer_fires t reg))"
proof (cases "jm_get (pd_timers reg) t")
  case None
  with inv show ?thesis by (simp add: timer_fires_def)
next
  case (Some p)
  obtain rid m where p: "p = (rid, m)" by fastforce
  have owner: "k = rid" if "jm_get (pd_pending reg) k = Some r" "pr_timer r = t" for k r
    using pending_invD(2) [OF inv that(1)] that(2) Some p by simp
  show ?thesis
  proof (cases "jm_get (pd_pending reg) rid")
    case None
    with owner have "pending_inv (clearTimeout t reg)"
      using inv by (intro pending_inv_clear_unused) fastforce+
    with None Some p show ?thesis
      by (simp add: timer_fires_def PendingRegistry_reject_def clearTimeout_def)
  next
    case (Some req)
    have "pending_inv (clearTimeout t (drop_entry req rid reg))"
    proof (rule pending_inv_clear_unused)
      show "pending_inv (drop_entry req rid reg)" by (rule pending_inv_drop [OF inv Some])
      show "pr_timer r \<noteq> t" if "jm_get (pd_pending (drop_entry req rid reg)) k = Some r" for k r
        using that owner by (auto simp: drop_entry_def split: if_splits)
    qed
    moreover have "clearTimeout t (drop_entry req rid reg) = drop_entry req rid (clearTimeout t reg)"
      by (simp add: clearTimeout_def drop_entry_def delete_twist)
    ultimately show ?thesis
      using Some \<open>jm_get (pd_timers reg) t = Some p\<close> p
      by (simp add: timer_fires_def PendingRegistry_reject_def clearTimeout_def)
  qed
qed

lemma fold_drop:
  assumes "pending_inv reg" and "\<forall>(k, r) \<in> set hs. jm_get (pd_pending reg) k = Some r"
    and "distinct (map fst hs)"
  shows "pending_inv (fold (\<lambda>(id, req). drop_entry req id) hs reg) \<and>
    jm_get (pd_pending (fold (\<lambda>(id, req). drop_entry req id) hs reg)) =
      (\<lambda>k. if k \<in> fst ` set hs then None else jm_get (pd_pending reg) k)"
  using assms
proof (induction hs arbitrary: reg)
  case Nil
  then show ?case by simp
next
  case (Cons h hs)
  obtain k r where h: "h = (k, r)" by fastforce
  let ?reg = "drop_entry r k reg"
  have inv: "pending_inv ?reg" using Cons.prems h by (auto intro: pending_inv_drop)
  have get: "jm_get (pd_pending ?reg) = (jm_get (pd_pending reg))(k := None)"
    by (simp add: drop_entry_def fun_eq_iff)
  have rest: "\<forall>(k', r') \<in> set hs. jm_get (pd_pending ?reg) k' = Some r'"
    using Cons.prems(2,3) h unfolding get by (fastforce simp: image_iff)
  from Cons.IH [OF inv rest] Cons.prems(3) show ?case
    by (auto simp: h get fun_eq_iff)
qed

lemma rejectAll_facts:
  assumes "pending_inv reg"
  shows "pending_inv (fst (snd (PendingRegistry_rejectAllForAgent a l reg)))"
    and "jm_get (pd_pending (fst (snd (PendingRegistry_rejectAllForAgent a l reg)))) k =
      (case jm_get (pd_pending reg) k of
         Some req \<Rightarrow> if for_agent a l req then None else Some req | None \<Rightarrow> None)"
proof -
  let ?hs = "filter (\<lambda>(id, req). for_agent a l req) (pd_pending reg)"
  have ok: "jm_ok (pd_pending reg)" using assms by (simp add: pending_inv_def)
  have "\<forall>(k, r) \<in> set ?hs. jm_get (pd_pending reg) k = Some r"
    using ok by (auto simp: jm_get_iff)
  moreover have "distinct (map fst ?hs)" using jm_ok_filter [OF ok] by (simp add: jm_ok_def)
  ultimately have F: "pending_inv (fold (\<lambda>(id, req). drop_entry req id) ?hs reg)"
    "jm_get (pd_pending (fold (\<lambda>(id, req). drop_entry req id) ?hs reg)) =
      (\<lambda>k. if k \<in> fst ` set ?hs then None else jm_get (pd_pending reg) k)"
    using fold_drop [OF assms] by blast+
  show "pending_inv (fst (snd (PendingRegistry_rejectAllForAgent a l reg)))"
    using F(1) by (simp add: PendingRegistry_rejectAllForAgent_def Let_def)
  have "k \<in> fst ` set ?hs \<longleftrightarrow> (\<exists>r. jm_get (pd_pending reg) k = Some r \<and> for_agent a l r)"
    using ok by (force simp: jm_get_iff)
  then show "jm_get (pd_pending (fst (snd (PendingRegistry_rejectAllForAgent a l reg)))) k =
      (case jm_get (pd_pending reg) k of
         Some req \<Rightarrow> if for_agent a l req then None else Some req | None \<Rightarrow> None)"
    using F(2) by (auto simp: PendingRegistry_rejectAllForAgent_def Let_def split: option.split)
qed


section \<open>The registry interface\<close>

definition pending_view :: "pending_registry \<Rightarrow> string \<Rightarrow> PendingRequest option" where
  "pending_view reg = jm_get (pd_pending reg)"

definition pending_take :: "string \<Rightarrow> pending_registry \<Rightarrow> PendingRequest option \<times> pending_registry" where
  "pending_take requestId reg =
     (pending_view reg requestId, fst (snd (PendingRegistry_reject requestId [] [] reg)))"

interpretation pending: keyed_registry pending_view pr_requestId timer_fresh
  "\<lambda>req reg. fst (admit_request EnvUnset [] req reg)" pending_take pending_inv
proof
  show "pending_inv reg \<Longrightarrow> pending_view (fst (admit_request EnvUnset [] req reg)) =
      (pending_view reg)(pr_requestId req \<mapsto> req)" for reg req
    by (simp add: pending_view_def admit_request_def PendingRegistry_enqueue_def arm_timer_def fun_eq_iff)
  show "pending_inv reg \<Longrightarrow> pending_view (snd (pending_take k reg)) = (pending_view reg)(k := None)" for reg k
    by (auto simp: pending_take_def pending_view_def PendingRegistry_reject_def drop_entry_def fun_eq_iff
        split: option.split)
qed (auto simp: pending_view_def pending_take_def pending_invD pending_inv_admit pending_inv_reject)

section \<open>Every request is answered exactly once\<close>

text \<open>Whom a request answers: an HTTP response object, or an SDK socket about one requestId.\<close>

datatype target = TgtHttp response_handle | TgtSdk socket string

definition target_of :: "reply_to \<Rightarrow> target" where
  "target_of r = (case r of ReplySdk ws requestId \<Rightarrow> TgtSdk ws requestId | ReplyHttp res _ \<Rightarrow> TgtHttp res)"

definition answers :: "target \<Rightarrow> effect \<Rightarrow> bool" where
  "answers tgt fx =
     (case tgt of TgtHttp res \<Rightarrow> ends_response res fx | TgtSdk ws requestId \<Rightarrow> answers_sdk ws requestId fx)"

abbreviation answer_count :: "target \<Rightarrow> effect list \<Rightarrow> nat" where
  "answer_count tgt fx \<equiv> length (filter (answers tgt) fx)"

datatype pending_op =
  OpAdmit PendingRequest string
| OpResolve string TunnelResponseMsg
| OpReject string string string
| OpRejectAll string string
| OpTimer timer_handle

definition pending_step ::
  "env_number \<Rightarrow> pending_op \<Rightarrow> pending_registry \<Rightarrow> pending_registry \<times> effect list" where
  "pending_step env op reg =
     (case op of
        OpAdmit req message \<Rightarrow> admit_request env message req reg
      | OpResolve requestId response \<Rightarrow> snd (PendingRegistry_resolve requestId response reg)
      | OpReject requestId code message \<Rightarrow> snd (PendingRegistry_reject requestId code message reg)
      | OpRejectAll accountId label \<Rightarrow> snd (PendingRegistry_rejectAllForAgent accountId label reg)
      | OpTimer t \<Rightarrow> timer_fires t reg)"

fun run_pending ::
  "env_number \<Rightarrow> pending_op list \<Rightarrow> pending_registry \<Rightarrow> pending_registry \<times> effect list" where
  "run_pending env [] reg = (reg, [])"
| "run_pending env (op # ops) reg =
     (case pending_step env op reg of
        (reg1, fx1) \<Rightarrow> (case run_pending env ops reg1 of (reg2, fx2) \<Rightarrow> (reg2, fx1 @ fx2)))"

text \<open>
  What the rest of the hub owes the request \<open>k\<close>: timers are new when they are armed, no other request
  takes its id or its reply target, and a response delivered to it can be written.
\<close>

definition op_ok :: "string \<Rightarrow> target \<Rightarrow> pending_op \<Rightarrow> pending_registry \<Rightarrow> bool" where
  "op_ok k tgt op reg =
     (case op of
        OpAdmit req _ \<Rightarrow> timer_fresh req reg \<and> pr_requestId req \<noteq> k \<and> target_of (pr_reply req) \<noteq> tgt
      | OpResolve requestId response \<Rightarrow> requestId = k \<longrightarrow> writable_response response
      | _ \<Rightarrow> True)"

fun ops_ok :: "env_number \<Rightarrow> string \<Rightarrow> target \<Rightarrow> pending_op list \<Rightarrow> pending_registry \<Rightarrow> bool" where
  "ops_ok env k tgt [] reg = True"
| "ops_ok env k tgt (op # ops) reg =
     (op_ok k tgt op reg \<and> ops_ok env k tgt ops (fst (pending_step env op reg)))"

definition sole_target :: "string \<Rightarrow> target \<Rightarrow> pending_registry \<Rightarrow> bool" where
  "sole_target k tgt reg =
     (\<forall>k' r. jm_get (pd_pending reg) k' = Some r \<and> k' \<noteq> k \<longrightarrow> target_of (pr_reply r) \<noteq> tgt)"

lemma pending_step_inv:
  assumes "pending_inv reg" and "op_ok k tgt op reg"
  shows "pending_inv (fst (pending_step env op reg))"
  using assms
  by (cases op) (auto simp: pending_step_def op_ok_def pending_inv_admit pending_inv_resolve
      pending_inv_reject pending_inv_timer rejectAll_facts(1))

lemma answers_target [simp]:
  "answers (TgtHttp res) = ends_response res" "answers (TgtSdk ws rid) = answers_sdk ws rid"
  by (simp_all add: answers_def fun_eq_iff)

lemma answers_other [simp]:
  "\<not> answers tgt (FxClearTimer t)" "\<not> answers tgt (FxRedisDel key)"
  "\<not> answers tgt (FxRedisSetPx key j ttl)" "\<not> answers tgt (FxSetTimer t ms)"
  by (simp_all add: answers_def ends_response_def answers_sdk_def split: target.split)

lemma reject_answers:
  "answer_count tgt (run_reject req code message) = (if target_of (pr_reply req) = tgt then 1 else 0)"
proof (cases "pr_reply req")
  case (ReplySdk ws rid)
  then show ?thesis
    by (auto simp: run_reject_def target_of_def answers_def answers_sdk_def ends_response_def
        buildSdkError_def split: target.split)
next
  case (ReplyHttp res t)
  have "filter (answers_sdk ws rid) (sendError res st m e) = []" for ws rid st m e
    by (simp add: sendError_def answers_sdk_def Let_def)
  with ReplyHttp show ?thesis
    using sendError_ends
    by (cases tgt) (auto simp: run_reject_def target_of_def ends_response_def [of _ "FxClearTimer _"]
        answers_sdk_def [of _ _ "FxClearTimer _"])
qed

lemma writeResponse_no_sdk: "filter (answers_sdk ws rid) (fst (writeResponse res response)) = []"
proof -
  have "\<not> answers_sdk ws rid fx"
    if "fx \<in> set (fst (write_headers res p hs))" for fx p hs
    using write_headers_no_end [OF that] by (auto simp: answers_sdk_def)
  then have "filter (answers_sdk ws rid) (fst (write_headers res p hs)) = []" for p hs
    by (auto simp: filter_empty_conv)
  from this [of "response_payload response \<noteq> None" "tr_headers response"]
  show ?thesis
    by (auto simp: writeResponse_def Let_def answers_sdk_def split: prod.splits bool.splits option.splits)
qed

lemma resolve_answers:
  "answer_count tgt (fst (run_resolve req response)) =
     (if target_of (pr_reply req) = tgt \<and> \<not> snd (run_resolve req response) then 1 else 0)"
proof (cases "pr_reply req")
  case (ReplySdk ws rid)
  then show ?thesis
    by (auto simp: run_resolve_def target_of_def answers_def answers_sdk_def ends_response_def
        split: target.split)
next
  case (ReplyHttp res t)
  obtain fx threw where w: "writeResponse res response = (fx, threw)" by fastforce
  have http: "length (filter (ends_response r) fx) = (if r = res \<and> \<not> threw then 1 else 0)" for r
    using writeResponse_ends [of r res response] w by simp
  have sdk: "filter (answers_sdk ws rid) fx = []" for ws rid
    using writeResponse_no_sdk [of ws rid res response] w by simp
  have "answers tgt (FxClearTimer t) = False" by simp
  then show ?thesis
    using ReplyHttp w http sdk
    by (cases tgt) (simp_all add: run_resolve_def target_of_def eq_commute [of res])
qed

lemma run_resolve_writable: "writable_response response \<Longrightarrow> \<not> snd (run_resolve req response)"
  by (auto simp: run_resolve_def writeResponse_writable split: reply_to.split)

text \<open>One step answers the request exactly when it removes it.\<close>

definition step_answers ::
  "string \<Rightarrow> target \<Rightarrow> pending_registry \<Rightarrow> pending_registry \<times> effect list \<Rightarrow> bool" where
  "step_answers k tgt reg out \<longleftrightarrow>
     sole_target k tgt (fst out) \<and>
     (jm_get (pd_pending (fst out)) k = jm_get (pd_pending reg) k \<and> answer_count tgt (snd out) = 0 \<or>
      jm_get (pd_pending reg) k \<noteq> None \<and> jm_get (pd_pending (fst out)) k = None \<and>
        answer_count tgt (snd out) = 1)"

definition owns_target :: "string \<Rightarrow> target \<Rightarrow> pending_registry \<Rightarrow> bool" where
  "owns_target k tgt reg \<longleftrightarrow> sole_target k tgt reg \<and>
     (\<forall>req. jm_get (pd_pending reg) k = Some req \<longrightarrow> target_of (pr_reply req) = tgt)"

lemma owns_targetD:
  "owns_target k tgt reg \<Longrightarrow> jm_get (pd_pending reg) k' = Some r \<Longrightarrow> target_of (pr_reply r) = tgt \<longleftrightarrow> k' = k"
  unfolding owns_target_def sole_target_def by blast

lemma sole_drop: "sole_target k tgt reg \<Longrightarrow> sole_target k tgt (drop_entry req k' reg)"
  by (auto simp: sole_target_def drop_entry_def)

lemma reject_step_answers:
  assumes "owns_target k tgt reg"
  shows "step_answers k tgt reg (snd (PendingRegistry_reject k' code message reg))"
proof (cases "jm_get (pd_pending reg) k'")
  case None
  with assms show ?thesis
    by (simp add: PendingRegistry_reject_def step_answers_def owns_target_def)
next
  case (Some req)
  from assms sole_drop have "sole_target k tgt (drop_entry req k' reg)"
    by (simp add: owns_target_def)
  then show ?thesis
    using Some owns_targetD [OF assms Some]
    by (auto simp: PendingRegistry_reject_def step_answers_def reject_answers drop_entry_def)
qed

lemma resolve_step_answers:
  assumes "owns_target k tgt reg" and "k' = k \<longrightarrow> writable_response response"
  shows "step_answers k tgt reg (snd (PendingRegistry_resolve k' response reg))"
proof (cases "jm_get (pd_pending reg) k'")
  case None
  with assms show ?thesis
    by (simp add: PendingRegistry_resolve_def step_answers_def owns_target_def)
next
  case (Some req)
  obtain fx threw where run: "run_resolve req response = (fx, threw)" by fastforce
  from assms sole_drop have "sole_target k tgt (drop_entry req k' reg)"
    by (simp add: owns_target_def)
  then show ?thesis
    using Some owns_targetD [OF assms(1) Some] run resolve_answers [of tgt req response]
      run_resolve_writable [of response req] assms(2)
    by (auto simp: PendingRegistry_resolve_def step_answers_def drop_entry_def)
qed

lemma timer_step_answers:
  assumes "owns_target k tgt reg"
  shows "step_answers k tgt reg (timer_fires t reg)"
proof (cases "jm_get (pd_timers reg) t")
  case None
  with assms show ?thesis by (simp add: timer_fires_def step_answers_def owns_target_def)
next
  case (Some p)
  obtain rid m where p: "p = (rid, m)" by fastforce
  from assms have "owns_target k tgt (clearTimeout t reg)"
    by (simp add: owns_target_def sole_target_def clearTimeout_def)
  from reject_step_answers [OF this, of rid "''AGENT_TIMEOUT''" m] Some p show ?thesis
    by (simp add: timer_fires_def step_answers_def clearTimeout_def)
qed

lemma keyed_answer_sum:
  assumes "distinct (map fst hs)"
    and "\<forall>(id, r) \<in> set hs. answer_count tgt (f id r) = (if id = k then 1 else 0)"
  shows "answer_count tgt (concat (map (\<lambda>(id, r). f id r) hs)) = (if k \<in> fst ` set hs then 1 else 0)"
  using assms
proof (induction hs)
  case Nil
  then show ?case by simp
next
  case (Cons h hs)
  obtain a b where h: "h = (a, b)" by fastforce
  have "k \<notin> fst ` set hs" if "a = k" using Cons.prems(1) h that by simp
  then show ?case
    using Cons h by (cases "a = k") simp_all
qed

lemma rejectAll_step_answers:
  assumes inv: "pending_inv reg" and own: "owns_target k tgt reg"
  shows "step_answers k tgt reg (snd (PendingRegistry_rejectAllForAgent a l reg))"
proof -
  let ?hs = "filter (\<lambda>(id, req). for_agent a l req) (pd_pending reg)"
  let ?msg = "''Agent disconnected while processing your request''"
  have ok: "jm_ok (pd_pending reg)" using inv by (simp add: pending_inv_def)
  have "\<forall>(id, r) \<in> set ?hs. answer_count tgt
      ([FxClearTimer (pr_timer r), FxRedisDel (pending_key id)] @ run_reject r ''AGENT_DISCONNECTED'' ?msg) =
      (if id = k then 1 else 0)"
    using ok owns_targetD [OF own] by (auto simp: reject_answers jm_get_iff)
  moreover have "distinct (map fst ?hs)" using jm_ok_filter [OF ok] by (simp add: jm_ok_def)
  ultimately have cnt: "answer_count tgt (snd (snd (PendingRegistry_rejectAllForAgent a l reg))) =
      (if k \<in> fst ` set ?hs then 1 else 0)"
    unfolding PendingRegistry_rejectAllForAgent_def Let_def snd_conv by (rule keyed_answer_sum [rotated])
  have mem: "k \<in> fst ` set ?hs \<longleftrightarrow> (\<exists>r. jm_get (pd_pending reg) k = Some r \<and> for_agent a l r)"
    using ok by (force simp: jm_get_iff)
  have "sole_target k tgt (fst (snd (PendingRegistry_rejectAllForAgent a l reg)))"
    using own by (auto simp: owns_target_def sole_target_def rejectAll_facts(2) [OF inv]
        split: option.splits if_splits)
  then show ?thesis
    unfolding step_answers_def cnt mem rejectAll_facts(2) [OF inv]
    by (auto split: option.split)
qed

lemma admit_step_answers:
  assumes "owns_target k tgt reg" and "pr_requestId req \<noteq> k" and "target_of (pr_reply req) \<noteq> tgt"
  shows "step_answers k tgt reg (admit_request env message req reg)"
  using assms
  by (auto simp: admit_request_def PendingRegistry_enqueue_def arm_timer_def step_answers_def
      owns_target_def sole_target_def split: if_splits)

lemma pending_step_answers:
  assumes "pending_inv reg" and "op_ok k tgt op reg" and "owns_target k tgt reg"
  shows "step_answers k tgt reg (pending_step env op reg)"
  using assms
  by (cases op) (auto simp: pending_step_def op_ok_def admit_step_answers resolve_step_answers
      reject_step_answers timer_step_answers rejectAll_step_answers)

lemma step_answers_owns:
  assumes "step_answers k tgt reg out" and "owns_target k tgt reg"
  shows "owns_target k tgt (fst out)"
  using assms by (auto simp: step_answers_def owns_target_def)

lemma run_pending_answers:
  assumes "pending_inv reg" and "ops_ok env k tgt ops reg" and "owns_target k tgt reg"
  shows "step_answers k tgt reg (run_pending env ops reg)"
  using assms
proof (induction ops arbitrary: reg)
  case Nil
  then show ?case by (simp add: step_answers_def owns_target_def)
next
  case (Cons op ops)
  obtain reg1 fx1 where s1: "pending_step env op reg = (reg1, fx1)" by fastforce
  obtain reg2 fx2 where s2: "run_pending env ops reg1 = (reg2, fx2)" by fastforce
  have one: "step_answers k tgt reg (reg1, fx1)"
    using pending_step_answers [of reg k tgt op env] Cons.prems s1 by simp
  moreover have "step_answers k tgt reg1 (reg2, fx2)"
    using Cons.IH [of reg1] step_answers_owns [OF one] Cons.prems pending_step_inv [of reg k tgt op env]
      s1 s2 by simp
  ultimately show ?case by (auto simp: s1 s2 step_answers_def)
qed

text \<open>
  C3: every pending request is answered exactly once, as long as its id is not used again and what
  answers it can be written. Whatever happens next in the registry (other requests arriving, agents
  answering or failing, agents disconnecting, timers firing, in any order and any number), the caller
  of a pending request has received exactly one answer once the request has left the registry, and
  none while it is still waiting. The conditions (\<open>ops_ok\<close>): no other request is admitted under the
  id while this one waits, timers and reply targets are new when used, and a response
  delivered to an HTTP caller has a status and cookies Node writes. Outside them the code leaves the
  caller without an answer: an SDK client that repeats the id of a request in flight overwrites it, and
  a response Node refuses to write is lost after its request was removed.
\<close>

theorem pending_answered_exactly_once:
  assumes "pending_inv reg" and "jm_get (pd_pending reg) k = Some req"
    and "sole_target k (target_of (pr_reply req)) reg"
    and "ops_ok env k (target_of (pr_reply req)) ops reg"
  shows "answer_count (target_of (pr_reply req)) (snd (run_pending env ops reg)) =
    (if jm_get (pd_pending (fst (run_pending env ops reg))) k = None then 1 else 0)"
proof -
  have "owns_target k (target_of (pr_reply req)) reg"
    using assms(2,3) by (simp add: owns_target_def)
  from run_pending_answers [OF assms(1,4) this] assms(2) show ?thesis
    by (auto simp: step_answers_def)
qed

definition demo_pending :: PendingRequest where
  "demo_pending = \<lparr>pr_requestId = ''r'', pr_accountId = ''acc'', pr_agentLabel = ''web'', pr_keyId = ''k'',
     pr_enqueuedAt = 0, pr_reply = ReplyHttp 7 3, pr_timer = 3\<rparr>"

definition demo_pending_state :: pending_registry where
  "demo_pending_state = \<lparr>pd_pending = [(''r'', demo_pending)], pd_timers = [(3, (''r'', ''late''))]\<rparr>"

lemma demo_pending_inv: "pending_inv demo_pending_state"
  by (simp add: pending_inv_def demo_pending_state_def demo_pending_def jm_ok_def)

theorem pending_answered_exactly_once_witness:
  "answer_count (TgtHttp 7) (snd (run_pending EnvUnset [OpResolve ''r'' demo_response, OpTimer 3,
     OpRejectAll ''acc'' ''web''] demo_pending_state)) = 1"
proof -
  let ?ops = "[OpResolve ''r'' demo_response, OpTimer 3, OpRejectAll ''acc'' ''web'']"
  have tgt: "target_of (pr_reply demo_pending) = TgtHttp 7" by (simp add: target_of_def demo_pending_def)
  have "jm_get (pd_pending demo_pending_state) ''r'' = Some demo_pending"
    by (simp add: demo_pending_state_def)
  moreover have "sole_target ''r'' (target_of (pr_reply demo_pending)) demo_pending_state"
    by (simp add: sole_target_def demo_pending_state_def)
  moreover have "ops_ok EnvUnset ''r'' (target_of (pr_reply demo_pending)) ?ops demo_pending_state"
  proof -
    have "writable_response demo_response" by code_simp
    then show ?thesis by (simp add: op_ok_def)
  qed
  ultimately have "answer_count (target_of (pr_reply demo_pending))
      (snd (run_pending EnvUnset ?ops demo_pending_state)) =
    (if jm_get (pd_pending (fst (run_pending EnvUnset ?ops demo_pending_state))) ''r'' = None then 1 else 0)"
    by (rule pending_answered_exactly_once [OF demo_pending_inv])
  moreover have "jm_get (pd_pending (fst (run_pending EnvUnset ?ops demo_pending_state))) ''r'' = None"
    by code_simp
  ultimately show ?thesis by (simp only: tgt simp_thms if_True)
qed

text \<open>
  C36: no request waits for ever. In every state the registry can be in, each pending request has an
  armed timer for its own id, and when that timer fires the request is removed and its caller
  answered (with AGENT_TIMEOUT; 504 on the HTTP path); all operations keep this so.
\<close>

theorem pending_deadline:
  assumes "pending_inv reg" and "jm_get (pd_pending reg) k = Some req"
  shows "(\<exists>m. jm_get (pd_timers reg) (pr_timer req) = Some (k, m)) \<and>
    jm_get (pd_pending (fst (timer_fires (pr_timer req) reg))) k = None \<and>
    answer_count (target_of (pr_reply req)) (snd (timer_fires (pr_timer req) reg)) = 1 \<and>
    pending_inv (fst (timer_fires (pr_timer req) reg)) \<and>
    pending_inv (fst (snd (PendingRegistry_resolve k' response reg))) \<and>
    pending_inv (fst (snd (PendingRegistry_reject k' code message reg))) \<and>
    pending_inv (fst (snd (PendingRegistry_rejectAllForAgent a l reg))) \<and>
    (timer_fresh req' reg \<longrightarrow> pending_inv (fst (admit_request env message req' reg)))"
proof -
  obtain m where m: "jm_get (pd_timers reg) (pr_timer req) = Some (k, m)"
    using pending_invD(2) [OF assms] by blast
  then have "jm_get (pd_pending (fst (timer_fires (pr_timer req) reg))) k = None \<and>
    answer_count (target_of (pr_reply req)) (snd (timer_fires (pr_timer req) reg)) = 1"
    using assms(2) by (simp add: timer_fires_def PendingRegistry_reject_def clearTimeout_def
        drop_entry_def reject_answers)
  then show ?thesis
    using m assms(1) by (simp add: pending_inv_timer pending_inv_resolve pending_inv_reject
        rejectAll_facts(1) pending_inv_admit)
qed

theorem pending_deadline_witness:
  "jm_get (pd_pending (fst (timer_fires 3 demo_pending_state))) ''r'' = None"
  using pending_deadline [OF demo_pending_inv, of "''r''" demo_pending]
  by (simp add: demo_pending_state_def demo_pending_def)

end
