(* ===== verification/TunnelWsRegistry.thy ===== *)
theory TunnelWsRegistry
  imports HubTypes
begin

text \<open>
  \<^verbatim>\<open>apps/hub/src/registry/TunnelWs.registry.ts\<close>: one entry per live browser WebSocket, with the
  set of connections of each agent, and \<^verbatim>\<open>closeBrowserSocket\<close>. A JavaScript \<^verbatim>\<open>Set\<close> is the list
  of its elements in insertion order.
\<close>

section \<open>Closing a browser socket\<close>

definition MAX_CLOSE_REASON_BYTES :: nat where "MAX_CLOSE_REASON_BYTES = 123"

function safe_reason :: "string \<Rightarrow> string" where
  "safe_reason s = (if byteLength s > MAX_CLOSE_REASON_BYTES then safe_reason (butlast s) else s)"
  by pat_completeness auto

termination safe_reason
proof (relation "measure length")
  fix s assume "MAX_CLOSE_REASON_BYTES < byteLength s"
  then have "s \<noteq> []" by (auto simp: MAX_CLOSE_REASON_BYTES_def)
  then show "(butlast s, s) \<in> measure length" by simp
qed simp

declare safe_reason.simps [simp del]

text \<open>
  The close frame handed to the socket. The socket library throws only for a code that may not be
  sent or a reason that does not fit a control frame (and then the code terminates the socket).
\<close>

definition closeBrowserSocket :: "socket \<Rightarrow> js_number option \<Rightarrow> string \<Rightarrow> effect list" where
  "closeBrowserSocket ws code reason = [FxBrowserClose ws (toSendableCloseCode code) (safe_reason reason)]"

section \<open>The registry\<close>

record TunnelWsEntry =
  tw_connectionId :: string
  tw_accountId :: string
  tw_agentId :: string
  tw_browserWs :: socket
  tw_openedAt :: time

record tunnel_registry =
  tn_byConnection :: "(string, TunnelWsEntry) jsmap"
  tn_byAgentId :: "(string, string list) jsmap"

definition TunnelWsRegistry_new :: tunnel_registry where
  "TunnelWsRegistry_new = \<lparr>tn_byConnection = [], tn_byAgentId = []\<rparr>"

definition set_add :: "'a \<Rightarrow> 'a list \<Rightarrow> 'a list" where
  "set_add x xs = (if x \<in> set xs then xs else xs @ [x])"

definition set_delete :: "'a \<Rightarrow> 'a list \<Rightarrow> 'a list" where
  "set_delete x xs = filter (\<lambda>y. y \<noteq> x) xs"

definition conn_set :: "string \<Rightarrow> tunnel_registry \<Rightarrow> string list" where
  "conn_set agentId reg = (case jm_get (tn_byAgentId reg) agentId of None \<Rightarrow> [] | Some ids \<Rightarrow> ids)"

definition TunnelWsRegistry_add :: "TunnelWsEntry \<Rightarrow> tunnel_registry \<Rightarrow> tunnel_registry" where
  "TunnelWsRegistry_add entry reg = \<lparr>
     tn_byConnection = jm_set (tw_connectionId entry) entry (tn_byConnection reg),
     tn_byAgentId = jm_set (tw_agentId entry)
       (set_add (tw_connectionId entry) (conn_set (tw_agentId entry) reg)) (tn_byAgentId reg)\<rparr>"

definition TunnelWsRegistry_get :: "string \<Rightarrow> tunnel_registry \<Rightarrow> TunnelWsEntry option" where
  "TunnelWsRegistry_get connectionId reg = jm_get (tn_byConnection reg) connectionId"

definition TunnelWsRegistry_delete ::
  "string \<Rightarrow> tunnel_registry \<Rightarrow> TunnelWsEntry option \<times> tunnel_registry" where
  "TunnelWsRegistry_delete connectionId reg =
     (case jm_get (tn_byConnection reg) connectionId of
        None \<Rightarrow> (None, reg)
      | Some entry \<Rightarrow>
          (Some entry,
           \<lparr>tn_byConnection = jm_delete connectionId (tn_byConnection reg),
            tn_byAgentId =
              (case jm_get (tn_byAgentId reg) (tw_agentId entry) of
                 None \<Rightarrow> tn_byAgentId reg
               | Some ids \<Rightarrow>
                   (let ids' = set_delete connectionId ids in
                    if length ids' = 0 then jm_delete (tw_agentId entry) (tn_byAgentId reg)
                    else jm_set (tw_agentId entry) ids' (tn_byAgentId reg)))\<rparr>))"

definition TunnelWsRegistry_countByAgent :: "string \<Rightarrow> tunnel_registry \<Rightarrow> nat" where
  "TunnelWsRegistry_countByAgent agentId reg = length (conn_set agentId reg)"

definition TunnelWsRegistry_size :: "tunnel_registry \<Rightarrow> nat" where
  "TunnelWsRegistry_size reg = length (tn_byConnection reg)"

text \<open>The loop of \<^verbatim>\<open>closeAllForAgent\<close> over the copied set of connections.\<close>

fun close_each ::
  "js_number option \<Rightarrow> string \<Rightarrow> string list \<Rightarrow> tunnel_registry \<Rightarrow> nat \<times> tunnel_registry \<times> effect list" where
  "close_each code reason [] reg = (0, reg, [])"
| "close_each code reason (connectionId # ids) reg =
     (case TunnelWsRegistry_delete connectionId reg of
        (None, reg1) \<Rightarrow> close_each code reason ids reg1
      | (Some entry, reg1) \<Rightarrow>
          (case close_each code reason ids reg1 of
             (closed, reg2, fx) \<Rightarrow>
               (Suc closed, reg2, closeBrowserSocket (tw_browserWs entry) code reason @ fx)))"

definition TunnelWsRegistry_closeAllForAgent ::
  "string \<Rightarrow> js_number option \<Rightarrow> string \<Rightarrow> tunnel_registry \<Rightarrow> nat \<times> tunnel_registry \<times> effect list" where
  "TunnelWsRegistry_closeAllForAgent agentId code reason reg =
     (case jm_get (tn_byAgentId reg) agentId of
        None \<Rightarrow> (0, reg, [])
      | Some ids \<Rightarrow> close_each code reason ids reg)"

section \<open>Close frames\<close>

lemma safe_reason_bound: "byteLength (safe_reason s) \<le> MAX_CLOSE_REASON_BYTES"
  by (induction s rule: safe_reason.induct) (subst safe_reason.simps, simp)

lemma safe_reason_prefix: "prefix (safe_reason s) s"
proof (induction s rule: safe_reason.induct)
  case (1 s)
  have "prefix (butlast s) s" by (metis append_butlast_last_id butlast.simps(1) prefixI prefix_order.refl)
  with 1 show ?case
    by (cases "byteLength s > MAX_CLOSE_REASON_BYTES") (subst safe_reason.simps, auto intro: prefix_order.trans)+
qed

lemma safe_reason_id: "byteLength s \<le> MAX_CLOSE_REASON_BYTES \<Longrightarrow> safe_reason s = s"
  by (simp add: safe_reason.simps)

section \<open>Invariant\<close>

definition tunnel_inv :: "tunnel_registry \<Rightarrow> bool" where
  "tunnel_inv reg \<longleftrightarrow> jm_ok (tn_byConnection reg) \<and> jm_ok (tn_byAgentId reg) \<and>
     (\<forall>a. jm_get (tn_byAgentId reg) a \<noteq> Some []) \<and>
     (\<forall>a. distinct (conn_set a reg)) \<and>
     (\<forall>k e. jm_get (tn_byConnection reg) k = Some e \<longrightarrow> tw_connectionId e = k) \<and>
     (\<forall>k a. k \<in> set (conn_set a reg) \<longleftrightarrow>
        (\<exists>e. jm_get (tn_byConnection reg) k = Some e \<and> tw_agentId e = a))"

definition tunnel_fresh :: "TunnelWsEntry \<Rightarrow> tunnel_registry \<Rightarrow> bool" where
  "tunnel_fresh e reg = (jm_get (tn_byConnection reg) (tw_connectionId e) = None)"

definition tunnel_view :: "tunnel_registry \<Rightarrow> string \<Rightarrow> TunnelWsEntry option" where
  "tunnel_view reg = jm_get (tn_byConnection reg)"

lemma tunnel_inv_new: "tunnel_inv TunnelWsRegistry_new"
  by (simp add: tunnel_inv_def TunnelWsRegistry_new_def conn_set_def)

lemma view_add: "tunnel_view (TunnelWsRegistry_add e reg) = (tunnel_view reg)(tw_connectionId e \<mapsto> e)"
  by (simp add: tunnel_view_def TunnelWsRegistry_add_def fun_eq_iff)

lemma conn_set_add:
  "conn_set a (TunnelWsRegistry_add e reg) =
     (if a = tw_agentId e then set_add (tw_connectionId e) (conn_set a reg) else conn_set a reg)"
  by (simp add: conn_set_def TunnelWsRegistry_add_def)

lemma set_set_add [simp]: "set (set_add x xs) = insert x (set xs)"
  by (auto simp: set_add_def)

lemma distinct_set_add [simp]: "distinct (set_add x xs) = distinct xs"
  by (auto simp: set_add_def)

lemma set_add_nonempty [simp]: "set_add x xs \<noteq> []"
  by (auto simp: set_add_def)

lemma tunnel_inv_add:
  assumes inv: "tunnel_inv reg" and fresh: "tunnel_fresh e reg"
  shows "tunnel_inv (TunnelWsRegistry_add e reg)"
proof -
  have con: "jm_get (tn_byConnection (TunnelWsRegistry_add e reg)) k =
      (if k = tw_connectionId e then Some e else jm_get (tn_byConnection reg) k)" for k
    by (simp add: TunnelWsRegistry_add_def)
  have "jm_ok (tn_byConnection (TunnelWsRegistry_add e reg))" "jm_ok (tn_byAgentId (TunnelWsRegistry_add e reg))"
    "jm_get (tn_byAgentId (TunnelWsRegistry_add e reg)) a \<noteq> Some []" for a
    using inv by (auto simp: TunnelWsRegistry_add_def tunnel_inv_def)
  moreover have "k \<in> set (conn_set a (TunnelWsRegistry_add e reg)) \<longleftrightarrow>
      (\<exists>e'. jm_get (tn_byConnection (TunnelWsRegistry_add e reg)) k = Some e' \<and> tw_agentId e' = a)" for k a
    using inv fresh unfolding con tunnel_inv_def tunnel_fresh_def
    by (cases "k = tw_connectionId e") (auto simp: conn_set_add)
  ultimately show ?thesis
    using inv unfolding tunnel_inv_def con by (auto simp: conn_set_add)
qed

lemma delete_result: "fst (TunnelWsRegistry_delete k reg) = tunnel_view reg k"
  by (simp add: TunnelWsRegistry_delete_def tunnel_view_def split: option.split)

lemma delete_absent: "tunnel_view reg k = None \<Longrightarrow> TunnelWsRegistry_delete k reg = (None, reg)"
  by (simp add: TunnelWsRegistry_delete_def tunnel_view_def)

lemma view_delete: "tunnel_view (snd (TunnelWsRegistry_delete k reg)) = (tunnel_view reg)(k := None)"
  by (auto simp: tunnel_view_def TunnelWsRegistry_delete_def fun_eq_iff split: option.split)

lemma conn_set_delete:
  assumes "tunnel_view reg k = Some e"
  shows "conn_set a (snd (TunnelWsRegistry_delete k reg)) =
    (if a = tw_agentId e then set_delete k (conn_set a reg) else conn_set a reg)"
  using assms
  by (auto simp: conn_set_def TunnelWsRegistry_delete_def tunnel_view_def Let_def set_delete_def
      split: option.split)

lemma tunnel_inv_delete:
  assumes inv: "tunnel_inv reg"
  shows "tunnel_inv (snd (TunnelWsRegistry_delete k reg))"
proof (cases "tunnel_view reg k")
  case None
  with inv show ?thesis by (simp add: delete_absent)
next
  case (Some e)
  let ?reg = "snd (TunnelWsRegistry_delete k reg)"
  have con: "jm_get (tn_byConnection ?reg) k' = (if k' = k then None else jm_get (tn_byConnection reg) k')" for k'
    using view_delete [of k reg] by (simp add: tunnel_view_def fun_eq_iff)
  have "jm_ok (tn_byConnection ?reg)" "jm_ok (tn_byAgentId ?reg)" "jm_get (tn_byAgentId ?reg) a \<noteq> Some []" for a
    using inv by (auto simp: TunnelWsRegistry_delete_def tunnel_inv_def Let_def split: option.split)
  moreover have "k' \<in> set (conn_set a ?reg) \<longleftrightarrow>
      (\<exists>e'. jm_get (tn_byConnection ?reg) k' = Some e' \<and> tw_agentId e' = a)" for k' a
    using inv Some unfolding con conn_set_delete [OF Some] tunnel_inv_def tunnel_view_def
    by (auto simp: set_delete_def)
  moreover have "distinct (conn_set a ?reg)" for a
    using inv by (simp add: conn_set_delete [OF Some] set_delete_def tunnel_inv_def)
  ultimately show ?thesis
    using inv unfolding tunnel_inv_def con by auto
qed

interpretation tunnels: keyed_registry tunnel_view tw_connectionId tunnel_fresh TunnelWsRegistry_add
  TunnelWsRegistry_delete tunnel_inv
  by unfold_locales
    (auto simp: view_add view_delete delete_result tunnel_inv_add tunnel_inv_delete,
     simp add: tunnel_inv_def tunnel_view_def)

section \<open>Closing an agent's sockets\<close>

lemma close_each_spec:
  assumes "tunnel_inv reg" and "distinct ids" and "\<forall>k \<in> set ids. tunnel_view reg k \<noteq> None"
  shows "fst (snd (close_each code reason ids reg)) = fold (\<lambda>k r. snd (TunnelWsRegistry_delete k r)) ids reg \<and>
    snd (snd (close_each code reason ids reg)) =
      map (\<lambda>k. FxBrowserClose (tw_browserWs (the (tunnel_view reg k))) (toSendableCloseCode code)
        (safe_reason reason)) ids \<and>
    fst (close_each code reason ids reg) = length ids"
  using assms
proof (induction ids arbitrary: reg)
  case Nil
  then show ?case by simp
next
  case (Cons k ids)
  let ?reg = "snd (TunnelWsRegistry_delete k reg)"
  obtain e where e: "tunnel_view reg k = Some e" using Cons.prems by auto
  have same: "tunnel_view ?reg k' = tunnel_view reg k'" if "k' \<in> set ids" for k'
    using that Cons.prems(2) by (auto simp: view_delete)
  have "\<forall>k' \<in> set ids. tunnel_view ?reg k' \<noteq> None" using Cons.prems(3) same by auto
  moreover have "distinct ids" using Cons.prems(2) by simp
  ultimately have IH:
    "fst (snd (close_each code reason ids ?reg)) = fold (\<lambda>k r. snd (TunnelWsRegistry_delete k r)) ids ?reg"
    "snd (snd (close_each code reason ids ?reg)) =
      map (\<lambda>k. FxBrowserClose (tw_browserWs (the (tunnel_view ?reg k))) (toSendableCloseCode code)
        (safe_reason reason)) ids"
    "fst (close_each code reason ids ?reg) = length ids"
    using Cons.IH [OF tunnel_inv_delete [OF Cons.prems(1)]] by blast+
  have "close_each code reason (k # ids) reg =
      (Suc (fst (close_each code reason ids ?reg)), fst (snd (close_each code reason ids ?reg)),
       closeBrowserSocket (tw_browserWs e) code reason @ snd (snd (close_each code reason ids ?reg)))"
    using e by (simp add: split_beta delete_result)
  moreover have "map (\<lambda>k. FxBrowserClose (tw_browserWs (the (tunnel_view ?reg k))) (toSendableCloseCode code)
        (safe_reason reason)) ids = map (\<lambda>k. FxBrowserClose (tw_browserWs (the (tunnel_view reg k)))
          (toSendableCloseCode code) (safe_reason reason)) ids"
    using same by simp
  ultimately show ?case
    using IH e by (simp add: closeBrowserSocket_def)
qed

lemma conn_set_iff:
  "tunnel_inv reg \<Longrightarrow> k \<in> set (conn_set a reg) \<longleftrightarrow> (\<exists>e. tunnel_view reg k = Some e \<and> tw_agentId e = a)"
  by (simp add: tunnel_inv_def tunnel_view_def)

lemma closeAll_eq:
  "TunnelWsRegistry_closeAllForAgent a code reason reg = close_each code reason (conn_set a reg) reg"
  by (simp add: TunnelWsRegistry_closeAllForAgent_def conn_set_def split: option.split)

lemma closeAll_facts:
  assumes "tunnel_inv reg"
  shows "tunnel_inv (fst (snd (TunnelWsRegistry_closeAllForAgent a code reason reg)))"
    and "tunnel_view (fst (snd (TunnelWsRegistry_closeAllForAgent a code reason reg))) k =
      (case tunnel_view reg k of Some e \<Rightarrow> if tw_agentId e = a then None else Some e | None \<Rightarrow> None)"
    and "set (snd (snd (TunnelWsRegistry_closeAllForAgent a code reason reg))) =
      {FxBrowserClose (tw_browserWs e) (toSendableCloseCode code) (safe_reason reason) | e k.
         tunnel_view reg k = Some e \<and> tw_agentId e = a}"
    and "length (snd (snd (TunnelWsRegistry_closeAllForAgent a code reason reg))) =
      TunnelWsRegistry_countByAgent a reg"
    and "fst (TunnelWsRegistry_closeAllForAgent a code reason reg) = TunnelWsRegistry_countByAgent a reg"
proof -
  have "distinct (conn_set a reg)" using assms by (simp add: tunnel_inv_def)
  moreover have "\<forall>k \<in> set (conn_set a reg). tunnel_view reg k \<noteq> None"
    using conn_set_iff [OF assms] by auto
  ultimately have C:
    "fst (snd (close_each code reason (conn_set a reg) reg)) =
       fold (\<lambda>k r. snd (TunnelWsRegistry_delete k r)) (conn_set a reg) reg"
    "snd (snd (close_each code reason (conn_set a reg) reg)) =
      map (\<lambda>k. FxBrowserClose (tw_browserWs (the (tunnel_view reg k))) (toSendableCloseCode code)
        (safe_reason reason)) (conn_set a reg)"
    "fst (close_each code reason (conn_set a reg) reg) = length (conn_set a reg)"
    using close_each_spec [OF assms] by blast+
  show "tunnel_inv (fst (snd (TunnelWsRegistry_closeAllForAgent a code reason reg)))"
    unfolding closeAll_eq C using tunnels.take_many [OF assms] by blast
  show "tunnel_view (fst (snd (TunnelWsRegistry_closeAllForAgent a code reason reg))) k =
      (case tunnel_view reg k of Some e \<Rightarrow> if tw_agentId e = a then None else Some e | None \<Rightarrow> None)"
    unfolding closeAll_eq C
    using tunnels.take_many [OF assms, of "conn_set a reg"] conn_set_iff [OF assms, of k a]
    by (auto split: option.split)
  show "set (snd (snd (TunnelWsRegistry_closeAllForAgent a code reason reg))) =
      {FxBrowserClose (tw_browserWs e) (toSendableCloseCode code) (safe_reason reason) | e k.
         tunnel_view reg k = Some e \<and> tw_agentId e = a}"
    unfolding closeAll_eq C using conn_set_iff [OF assms, of _ a] by (force simp: image_iff)
  show "length (snd (snd (TunnelWsRegistry_closeAllForAgent a code reason reg))) =
      TunnelWsRegistry_countByAgent a reg"
    "fst (TunnelWsRegistry_closeAllForAgent a code reason reg) = TunnelWsRegistry_countByAgent a reg"
    unfolding closeAll_eq C TunnelWsRegistry_countByAgent_def by simp_all
qed

text \<open>
  No browser socket outlives its agent. Closing an agent's tunnels removes every one of its
  connections and no other, closes each of their browser sockets exactly once with a code that may
  be sent and a reason that fits a control frame (and is the given one when it fits), and
  reports how many; the index by agent and the index by connection stay consistent.
\<close>

theorem closeAllForAgent_correct:
  assumes "tunnel_inv reg"
  shows "tunnel_inv (fst (snd (TunnelWsRegistry_closeAllForAgent a code reason reg))) \<and>
    (\<forall>k. tunnel_view (fst (snd (TunnelWsRegistry_closeAllForAgent a code reason reg))) k =
      (case tunnel_view reg k of Some e \<Rightarrow> if tw_agentId e = a then None else Some e | None \<Rightarrow> None)) \<and>
    set (snd (snd (TunnelWsRegistry_closeAllForAgent a code reason reg))) =
      {FxBrowserClose (tw_browserWs e) (toSendableCloseCode code) (safe_reason reason) | e k.
         tunnel_view reg k = Some e \<and> tw_agentId e = a} \<and>
    length (snd (snd (TunnelWsRegistry_closeAllForAgent a code reason reg))) =
      fst (TunnelWsRegistry_closeAllForAgent a code reason reg) \<and>
    fst (TunnelWsRegistry_closeAllForAgent a code reason reg) =
      card {k. \<exists>e. tunnel_view reg k = Some e \<and> tw_agentId e = a} \<and>
    byteLength (safe_reason reason) \<le> MAX_CLOSE_REASON_BYTES \<and> prefix (safe_reason reason) reason \<and>
    (byteLength reason \<le> MAX_CLOSE_REASON_BYTES \<longrightarrow> safe_reason reason = reason)"
proof -
  have "{k. \<exists>e. tunnel_view reg k = Some e \<and> tw_agentId e = a} = set (conn_set a reg)"
    using conn_set_iff [OF assms] by blast
  moreover have "card (set (conn_set a reg)) = length (conn_set a reg)"
    using assms by (simp add: distinct_card tunnel_inv_def)
  ultimately show ?thesis
    using closeAll_facts [OF assms] safe_reason_bound safe_reason_prefix safe_reason_id
    by (simp add: TunnelWsRegistry_countByAgent_def)
qed

theorem closeAllForAgent_correct_witness:
  "fst (TunnelWsRegistry_closeAllForAgent ''agt'' (Some (JInt 1012)) ''bye'' TunnelWsRegistry_new) = 0 \<and>
   tunnel_inv (fst (snd (TunnelWsRegistry_closeAllForAgent ''agt'' (Some (JInt 1012)) ''bye''
     (TunnelWsRegistry_add \<lparr>tw_connectionId = ''c'', tw_accountId = ''a'', tw_agentId = ''agt'',
        tw_browserWs = 4, tw_openedAt = 0\<rparr> TunnelWsRegistry_new))))"
proof -
  have "tunnel_inv (TunnelWsRegistry_add \<lparr>tw_connectionId = ''c'', tw_accountId = ''a'', tw_agentId = ''agt'',
        tw_browserWs = 4, tw_openedAt = 0\<rparr> TunnelWsRegistry_new)"
    by (rule tunnel_inv_add [OF tunnel_inv_new]) (simp add: tunnel_fresh_def TunnelWsRegistry_new_def)
  from closeAllForAgent_correct [OF this] closeAllForAgent_correct [OF tunnel_inv_new]
  show ?thesis by (auto simp: tunnel_view_def TunnelWsRegistry_new_def)
qed

end
