(* ===== verification/Subdomain.thy ===== *)
theory Subdomain
  imports HubTypes
begin

text \<open>
  \<^verbatim>\<open>apps/hub/src/services/SubdomainRegistry.service.ts\<close>: the Redis map from tunnel subdomains to
  agents, with \<^verbatim>\<open>parseSubdomain\<close> and \<^verbatim>\<open>isTunnelRequest\<close> of \<^verbatim>\<open>HttpTunnel.handler.ts\<close>.

  \<^verbatim>\<open>withLock\<close> chains the calls for one key: \<open>sb_locks\<close> holds, per key, the jobs whose promises
  have not settled, oldest first; only the first one runs. A job makes one Redis round trip at a
  time, so an unregistration is two steps (\<open>JobCheck\<close>, then \<open>JobDel\<close>) between which anything may
  happen to other keys. A round trip that fails ends the job; the next one in the chain still
  runs. A stored value is an entry or text that is not JSON.
\<close>

section \<open>Keys and subdomains\<close>

definition sub_prefix :: string where "sub_prefix = ''tunnel:sub:''"

definition SubdomainRegistry_key :: "string \<Rightarrow> string \<Rightarrow> string" where
  "SubdomainRegistry_key label accountSlug = sub_prefix @ accountSlug @ ''--'' @ label"

text \<open>The result is (label, accountSlug).\<close>

definition parseSubdomain :: "string \<Rightarrow> (string \<times> string) option" where
  "parseSubdomain subdomain =
     (case str_index_of ''--'' subdomain of
        None \<Rightarrow> None
      | Some separatorIndex \<Rightarrow>
          (let accountSlug = take separatorIndex subdomain;
               label = drop (separatorIndex + 2) subdomain
           in if label = [] \<or> accountSlug = [] then None else Some (label, accountSlug)))"

definition host_name :: "string option \<Rightarrow> string" where
  "host_name host = hd (str_split (CHR '':'') (case host of None \<Rightarrow> [] | Some h \<Rightarrow> h))"

definition isTunnelRequest :: "string \<Rightarrow> string option \<Rightarrow> bool" where
  "isTunnelRequest hubDomain host =
     (let hostname = host_name host in
      if \<not> suffix (''.'' @ hubDomain) hostname then False
      else if hostname = hubDomain then False
      else True)"

text \<open>\<^verbatim>\<open>hostname.slice(0, -(hubDomain.length + 1))\<close>.\<close>

definition host_subdomain :: "string \<Rightarrow> string option \<Rightarrow> string" where
  "host_subdomain hubDomain host =
     (let hostname = host_name host in take (length hostname - (length hubDomain + 1)) hostname)"

section \<open>The registry\<close>

record SubdomainEntry =
  sn_agentId :: string
  sn_accountId :: string
  sn_label :: string
  sn_accountSlug :: string
  sn_hubInstanceId :: string

datatype sub_raw = RawEntry SubdomainEntry | RawText string

datatype sub_job = JobSet SubdomainEntry | JobCheck string | JobDel string

record sub_state =
  sb_store :: "(string, sub_raw) jsmap"
  sb_locks :: "(string, sub_job list) jsmap"

definition job_queue :: "string \<Rightarrow> sub_state \<Rightarrow> sub_job list" where
  "job_queue key s = (case jm_get (sb_locks s) key of None \<Rightarrow> [] | Some q \<Rightarrow> q)"

definition withLock :: "string \<Rightarrow> sub_job \<Rightarrow> sub_state \<Rightarrow> sub_state" where
  "withLock key job s = s\<lparr>sb_locks := jm_set key (job_queue key s @ [job]) (sb_locks s)\<rparr>"

definition SubdomainRegistry_register :: "SubdomainEntry \<Rightarrow> sub_state \<Rightarrow> sub_state" where
  "SubdomainRegistry_register entry s =
     withLock (SubdomainRegistry_key (sn_label entry) (sn_accountSlug entry)) (JobSet entry) s"

definition SubdomainRegistry_unregister :: "string \<Rightarrow> string \<Rightarrow> string \<Rightarrow> sub_state \<Rightarrow> sub_state" where
  "SubdomainRegistry_unregister label accountSlug expectedAgentId s =
     withLock (SubdomainRegistry_key label accountSlug) (JobCheck expectedAgentId) s"

definition getEntry :: "string \<Rightarrow> sub_state \<Rightarrow> SubdomainEntry option" where
  "getEntry key s =
     (case jm_get (sb_store s) key of Some (RawEntry e) \<Rightarrow> Some e | _ \<Rightarrow> None)"

definition SubdomainRegistry_resolve :: "string \<Rightarrow> string \<Rightarrow> sub_state \<Rightarrow> SubdomainEntry option" where
  "SubdomainRegistry_resolve label accountSlug s = getEntry (SubdomainRegistry_key label accountSlug) s"

definition settle :: "string \<Rightarrow> sub_job list \<Rightarrow> sub_state \<Rightarrow> sub_state" where
  "settle key rest s =
     s\<lparr>sb_locks := (if rest = [] then jm_delete key (sb_locks s) else jm_set key rest (sb_locks s))\<rparr>"

text \<open>One round trip of the first job of a key; \<open>fails\<close> says that Redis rejected it.\<close>

definition run_job :: "bool \<Rightarrow> string \<Rightarrow> sub_state \<Rightarrow> sub_state" where
  "run_job fails key s =
     (case job_queue key s of
        [] \<Rightarrow> s
      | job # rest \<Rightarrow>
          if fails then settle key rest s
          else (case job of
              JobSet entry \<Rightarrow> settle key rest (s\<lparr>sb_store := jm_set key (RawEntry entry) (sb_store s)\<rparr>)
            | JobCheck expectedAgentId \<Rightarrow>
                (case getEntry key s of
                   None \<Rightarrow> settle key rest s
                 | Some current \<Rightarrow>
                     if sn_agentId current \<noteq> expectedAgentId then settle key rest s
                     else s\<lparr>sb_locks := jm_set key (JobDel expectedAgentId # rest) (sb_locks s)\<rparr>)
            | JobDel _ \<Rightarrow> settle key rest (s\<lparr>sb_store := jm_delete key (sb_store s)\<rparr>)))"

text \<open>
  \<^verbatim>\<open>unregisterAllForHub\<close>, at startup: the pages a complete \<^verbatim>\<open>SCAN\<close> returns, key by key.
\<close>

definition stale_for_hub :: "string \<Rightarrow> sub_raw \<Rightarrow> bool" where
  "stale_for_hub hubInstanceId raw =
     (case raw of RawEntry entry \<Rightarrow> sn_hubInstanceId entry = hubInstanceId | RawText _ \<Rightarrow> True)"

definition SubdomainRegistry_unregisterAllForHub ::
  "string \<Rightarrow> string list list \<Rightarrow> sub_state \<Rightarrow> sub_state" where
  "SubdomainRegistry_unregisterAllForHub hubInstanceId pages s =
     s\<lparr>sb_store := fold (\<lambda>key store.
         (case jm_get store key of
            None \<Rightarrow> store
          | Some (RawText []) \<Rightarrow> store
          | Some raw \<Rightarrow> if stale_for_hub hubInstanceId raw then jm_delete key store else store))
       (concat pages) (sb_store s)\<rparr>"

section \<open>Subdomain round trip\<close>

lemma str_index_of_append:
  assumes "\<not> sublist p (s @ butlast p)" and "p \<noteq> []"
  shows "str_index_of p (s @ p @ t) = Some (length s)"
  using assms
proof (induction s)
  case Nil
  then show ?case by (cases p) auto
next
  case (Cons c s)
  have "\<not> prefix p ((c # s) @ p @ t)"
  proof
    assume "prefix p ((c # s) @ p @ t)"
    then have p: "p = take (length p) ((c # s) @ p @ t)" by (metis append_eq_conv_conj prefix_def)
    have "take (length p) ((c # s) @ p @ t) = take (length p) ((c # s) @ butlast p)"
      using Cons.prems(2) by (simp add: take_Cons' butlast_conv_take)
    with p have "prefix p ((c # s) @ butlast p)" by (metis take_is_prefix)
    with Cons.prems(1) show False by (simp add: prefix_imp_sublist)
  qed
  moreover have "\<not> sublist p (s @ butlast p)"
    using Cons.prems(1) by (metis append_Cons sublist_Cons_right)
  ultimately show ?case using Cons.IH Cons.prems(2) by simp
qed

text \<open>
  the URL the hub hands out is the URL it routes. For an account slug that contains no
  double hyphen and does not end in a hyphen, a request to the tunnel URL of (slug, label), with or
  without a port, is recognised as a tunnel request and parsed back to that slug and label, whatever
  the label; so it looks up the very key the registration wrote.
\<close>

theorem tunnel_url_roundtrip:
  assumes "slug \<noteq> []" and "label \<noteq> []"
    and "\<not> sublist ''--'' (slug @ ''-'')"
    and "CHR '':'' \<notin> set (slug @ label @ domain)"
    and "port = [] \<or> hd port = CHR '':''"
  shows "isTunnelRequest domain (Some (slug @ ''--'' @ label @ ''.'' @ domain @ port)) \<and>
    parseSubdomain (host_subdomain domain (Some (slug @ ''--'' @ label @ ''.'' @ domain @ port))) =
      Some (label, slug)"
proof -
  let ?h = "slug @ ''--'' @ label @ ''.'' @ domain"
  have nocolon: "CHR '':'' \<notin> set ?h" using assms(4) by auto
  have "hd (str_split (CHR '':'') (?h @ port)) = ?h"
  proof (cases port)
    case Nil
    then show ?thesis using str_split_no_sep [OF nocolon] by simp
  next
    case (Cons c p)
    then show ?thesis using assms(5) str_split_append_sep [OF nocolon] by simp
  qed
  then have name: "host_name (Some (slug @ ''--'' @ label @ ''.'' @ domain @ port)) = ?h"
    by (simp add: host_name_def)
  have "str_index_of ''--'' (slug @ ''--'' @ label) = Some (length slug)"
    using str_index_of_append [of "''--''" slug label] assms(3) by simp
  then have "parseSubdomain (slug @ ''--'' @ label) = Some (label, slug)"
    using assms(1,2) by (simp add: parseSubdomain_def)
  then have "parseSubdomain (take (length ?h - (length domain + 1)) ?h) = Some (label, slug)"
    by simp
  moreover have "suffix (''.'' @ domain) ?h" by (simp add: suffix_def)
  moreover have "?h \<noteq> domain"
    by (metis append.assoc append_self_conv2 list.distinct(1) same_append_eq append_Cons append_is_Nil_conv)
  ultimately show ?thesis
    unfolding isTunnelRequest_def host_subdomain_def Let_def name by simp
qed

theorem tunnel_url_roundtrip_witness:
  "parseSubdomain (host_subdomain ''vhyxvoid.com'' (Some ''my-co--api--v2.vhyxvoid.com:8080'')) =
     Some (''api--v2'', ''my-co'')"
proof -
  have "isTunnelRequest ''vhyxvoid.com'' (Some (''my-co'' @ ''--'' @ ''api--v2'' @ ''.'' @ ''vhyxvoid.com'' @ '':8080'')) \<and>
    parseSubdomain (host_subdomain ''vhyxvoid.com''
      (Some (''my-co'' @ ''--'' @ ''api--v2'' @ ''.'' @ ''vhyxvoid.com'' @ '':8080''))) = Some (''api--v2'', ''my-co'')"
    by (rule tunnel_url_roundtrip) (simp_all add: sublist_Cons_right)
  then show ?thesis by simp
qed

section \<open>The lock\<close>

text \<open>
  Calls arrive and round trips complete in any order; only the first job of a key can make progress.
\<close>

inductive sub_step :: "sub_state \<Rightarrow> sub_state \<Rightarrow> bool" where
  Register: "sub_step s (SubdomainRegistry_register entry s)"
| Unregister: "sub_step s (SubdomainRegistry_unregister label accountSlug expectedAgentId s)"
| RoundTrip: "job_queue key s \<noteq> [] \<Longrightarrow> sub_step s (run_job fails key s)"

inductive sub_reachable :: "sub_state \<Rightarrow> bool" where
  Init: "sub_reachable \<lparr>sb_store = store, sb_locks = []\<rparr>"
| Step: "sub_reachable s \<Longrightarrow> sub_step s s' \<Longrightarrow> sub_reachable s'"

inductive_cases sub_stepE: "sub_step s s'"

text \<open>
  A pending delete is at the head of its key's chain, and what it is about to delete is the entry
  it checked.
\<close>

definition lock_inv :: "sub_state \<Rightarrow> bool" where
  "lock_inv s \<longleftrightarrow> (\<forall>key. (\<forall>job \<in> set (tl (job_queue key s)). \<forall>a. job \<noteq> JobDel a) \<and>
     (\<forall>a rest. job_queue key s = JobDel a # rest \<longrightarrow>
        (\<exists>e. jm_get (sb_store s) key = Some (RawEntry e) \<and> sn_agentId e = a)))"

lemma lock_invD:
  assumes "lock_inv s"
  shows "job_queue key s = job # rest \<Longrightarrow> JobDel a \<notin> set rest"
    and "job_queue key s = JobDel a # rest \<Longrightarrow>
      \<exists>e. jm_get (sb_store s) key = Some (RawEntry e) \<and> sn_agentId e = a"
  using assms unfolding lock_inv_def by (metis list.sel(3), blast)

lemma job_queue_withLock:
  "job_queue k (withLock key job s) = (if k = key then job_queue k s @ [job] else job_queue k s)"
  by (simp add: job_queue_def withLock_def)

lemma store_withLock [simp]: "sb_store (withLock key job s) = sb_store s"
  by (simp add: withLock_def)

lemma job_queue_settle: "job_queue k (settle key rest s) = (if k = key then rest else job_queue k s)"
  by (simp add: job_queue_def settle_def)

lemma store_settle [simp]: "sb_store (settle key rest s) = sb_store s"
  by (simp add: settle_def)

lemma job_queue_store [simp]: "job_queue k (s\<lparr>sb_store := st\<rparr>) = job_queue k s"
  by (simp add: job_queue_def)

lemma lock_inv_withLock:
  assumes "lock_inv s" and "\<forall>a. job \<noteq> JobDel a"
  shows "lock_inv (withLock key job s)"
  unfolding lock_inv_def
proof (intro allI conjI ballI impI)
  fix k j a assume "j \<in> set (tl (job_queue k (withLock key job s)))"
  then have "j \<in> set (tl (job_queue k s)) \<or> j = job"
    by (cases "job_queue k s") (auto simp: job_queue_withLock split: if_splits)
  with assms show "j \<noteq> JobDel a" by (auto simp: lock_inv_def)
next
  fix k a rest assume "job_queue k (withLock key job s) = JobDel a # rest"
  with assms(2) have "\<exists>rest'. job_queue k s = JobDel a # rest'"
    by (cases "job_queue k s") (auto simp: job_queue_withLock split: if_splits)
  with assms(1) show "\<exists>e. jm_get (sb_store (withLock key job s)) k = Some (RawEntry e) \<and> sn_agentId e = a"
    by (auto simp: lock_inv_def)
qed

lemma run_job_other: "k \<noteq> key \<Longrightarrow> job_queue k (run_job fails key s) = job_queue k s \<and>
    jm_get (sb_store (run_job fails key s)) k = jm_get (sb_store s) k"
  by (auto simp: run_job_def job_queue_settle split: list.split sub_job.split option.split)
    (simp add: job_queue_def)

lemma run_job_queue:
  assumes "job_queue key s = job # rest"
  shows "job_queue key (run_job fails key s) = rest \<or>
    (\<exists>e. \<not> fails \<and> job = JobCheck (sn_agentId e) \<and> jm_get (sb_store s) key = Some (RawEntry e) \<and>
       sb_store (run_job fails key s) = sb_store s \<and>
       job_queue key (run_job fails key s) = JobDel (sn_agentId e) # rest)"
  using assms
  by (auto simp: run_job_def job_queue_settle getEntry_def split: sub_job.split option.splits sub_raw.splits)
    (auto simp: job_queue_def)

lemma lock_inv_run:
  assumes inv: "lock_inv s" and q: "job_queue key s \<noteq> []"
  shows "lock_inv (run_job fails key s)"
  unfolding lock_inv_def
proof (intro allI conjI ballI impI)
  obtain job rest where jq: "job_queue key s = job # rest" using q by (cases "job_queue key s") auto
  have norest: "JobDel a \<notin> set rest" for a by (rule lock_invD(1) [OF inv jq])
  {
    fix k j a assume j: "j \<in> set (tl (job_queue k (run_job fails key s)))"
    show "j \<noteq> JobDel a"
    proof (cases "k = key")
      case True
      then show ?thesis using run_job_queue [OF jq, of fails] j norest [of a] by (cases rest) auto
    next
      case False
      then show ?thesis using inv j by (auto simp: lock_inv_def run_job_other)
    qed
  next
    fix k a rest' assume r: "job_queue k (run_job fails key s) = JobDel a # rest'"
    show "\<exists>e. jm_get (sb_store (run_job fails key s)) k = Some (RawEntry e) \<and> sn_agentId e = a"
    proof (cases "k = key")
      case True
      with r norest [of a] run_job_queue [OF jq, of fails] show ?thesis by force
    next
      case False
      then show ?thesis using inv r by (auto simp: lock_inv_def run_job_other)
    qed
  }
qed

lemma lock_inv_reachable: "sub_reachable s \<Longrightarrow> lock_inv s"
proof (induction rule: sub_reachable.induct)
  case (Init store)
  then show ?case by (simp add: lock_inv_def job_queue_def)
next
  case (Step s s')
  from Step.hyps(2) Step.IH show ?case
    by (cases rule: sub_step.cases)
      (auto simp: SubdomainRegistry_register_def SubdomainRegistry_unregister_def
        intro: lock_inv_withLock lock_inv_run)
qed

text \<open>
  C10: a slow disconnect never takes down a newer connection's tunnel. In every reachable state of the
  registry, whatever registrations and unregistrations are in flight and however their Redis round
  trips are delayed, fail or interleave, an entry disappears only in a round trip of an unregistration
  that asked for exactly the agent the entry names; everything else keeps it, or replaces it by
  a newer registration.
\<close>

theorem unregister_only_own_entry:
  assumes "sub_reachable s" and "sub_step s s'"
    and "jm_get (sb_store s) key = Some (RawEntry e)"
  shows "jm_get (sb_store s') key = Some (RawEntry e) \<or>
    (\<exists>e' rest. job_queue key s = JobSet e' # rest \<and> jm_get (sb_store s') key = Some (RawEntry e')) \<or>
    (\<exists>rest. job_queue key s = JobDel (sn_agentId e) # rest \<and> jm_get (sb_store s') key = None)"
  using assms(2)
proof (cases rule: sub_step.cases)
  case (RoundTrip k fails)
  have inv: "lock_inv s" using assms(1) by (rule lock_inv_reachable)
  show ?thesis
  proof (cases "k = key")
    case False
    then show ?thesis using RoundTrip assms(3) run_job_other [of key k] by simp
  next
    case True
    obtain job rest where jq: "job_queue key s = job # rest"
      using RoundTrip(2) True by (cases "job_queue key s") auto
    have "a = sn_agentId e" if "job = JobDel a" for a
      using lock_invD(2) [OF inv] jq that assms(3) by fastforce
    then show ?thesis
      using jq assms(3) RoundTrip(1) True
      by (cases job) (auto simp: run_job_def split: option.split)
  qed
qed (use assms(3) in \<open>simp_all add: SubdomainRegistry_register_def SubdomainRegistry_unregister_def\<close>)

definition demo_entry :: SubdomainEntry where
  "demo_entry = \<lparr>sn_agentId = ''agt_new'', sn_accountId = ''a'', sn_label = ''web'', sn_accountSlug = ''co'',
     sn_hubInstanceId = ''hub''\<rparr>"

definition demo_race :: sub_state where
  "demo_race = SubdomainRegistry_unregister ''web'' ''co'' ''agt_old''
     \<lparr>sb_store = [(SubdomainRegistry_key ''web'' ''co'', RawEntry demo_entry)], sb_locks = []\<rparr>"

theorem unregister_only_own_entry_witness:
  "jm_get (sb_store (run_job False (SubdomainRegistry_key ''web'' ''co'') demo_race))
     (SubdomainRegistry_key ''web'' ''co'') = Some (RawEntry demo_entry)"
proof -
  let ?k = "SubdomainRegistry_key ''web'' ''co''"
  have r: "sub_reachable demo_race"
    unfolding demo_race_def by (rule sub_reachable.Step [OF sub_reachable.Init sub_step.Unregister])
  have q: "job_queue ?k demo_race = [JobCheck ''agt_old'']"
    by (simp add: demo_race_def SubdomainRegistry_unregister_def job_queue_def withLock_def)
  then have st: "sub_step demo_race (run_job False ?k demo_race)" by (intro sub_step.RoundTrip) simp
  have "jm_get (sb_store demo_race) ?k = Some (RawEntry demo_entry)"
    by (simp add: demo_race_def SubdomainRegistry_unregister_def)
  from unregister_only_own_entry [OF r st this] q show ?thesis by simp
qed

section \<open>Functional behaviour\<close>

text \<open>What a call does once its turn has come: a write, or a compare-and-delete.\<close>

definition atomic_job :: "string \<Rightarrow> sub_job \<Rightarrow> (string \<Rightarrow> sub_raw option) \<Rightarrow> string \<Rightarrow> sub_raw option" where
  "atomic_job key job store =
     (case job of
        JobSet entry \<Rightarrow> store(key \<mapsto> RawEntry entry)
      | JobCheck a \<Rightarrow>
          (case store key of
             Some (RawEntry e) \<Rightarrow> if sn_agentId e = a then store(key := None) else store
           | _ \<Rightarrow> store)
      | JobDel _ \<Rightarrow> store(key := None))"

fun drain :: "nat \<Rightarrow> string \<Rightarrow> sub_state \<Rightarrow> sub_state" where
  "drain 0 key s = s"
| "drain (Suc n) key s = drain n key (run_job False key s)"

lemma drain_empty: "job_queue key s = [] \<Longrightarrow> drain n key s = s"
  by (induction n) (auto simp: run_job_def)

lemma run_job_progress:
  assumes "job_queue key s = job # rest"
  shows "job_queue key (run_job False key s) = rest \<and>
      jm_get (sb_store (run_job False key s)) = atomic_job key job (jm_get (sb_store s)) \<or>
    (\<exists>a. job = JobCheck a \<and> job_queue key (run_job False key s) = JobDel a # rest \<and>
       sb_store (run_job False key s) = sb_store s \<and>
       atomic_job key (JobDel a) (jm_get (sb_store s)) = atomic_job key job (jm_get (sb_store s)))"
  using assms
  by (auto simp: run_job_def job_queue_settle getEntry_def atomic_job_def fun_eq_iff
      split: sub_job.split option.splits sub_raw.splits)
    (auto simp: job_queue_def)

lemma drain_two:
  assumes "job_queue key s = job # rest"
  shows "\<exists>m s1. m \<le> 2 \<and> (\<forall>n. drain (m + n) key s = drain n key s1) \<and> job_queue key s1 = rest \<and>
    jm_get (sb_store s1) = atomic_job key job (jm_get (sb_store s))"
  using run_job_progress [OF assms]
proof (elim disjE conjE exE)
  assume "job_queue key (run_job False key s) = rest"
    "jm_get (sb_store (run_job False key s)) = atomic_job key job (jm_get (sb_store s))"
  then show ?thesis by (intro exI [of _ 1] exI [of _ "run_job False key s"]) simp
next
  fix a
  let ?s = "run_job False key s"
  assume q: "job_queue key ?s = JobDel a # rest" and st: "sb_store ?s = sb_store s"
    and at: "atomic_job key (JobDel a) (jm_get (sb_store s)) = atomic_job key job (jm_get (sb_store s))"
  from run_job_progress [OF q] have "job_queue key (run_job False key ?s) = rest"
    "jm_get (sb_store (run_job False key ?s)) = atomic_job key (JobDel a) (jm_get (sb_store ?s))"
    by auto
  with st at show ?thesis
    by (intro exI [of _ 2] exI [of _ "run_job False key ?s"]) (simp add: numeral_2_eq_2)
qed

text \<open>
  the calls made for a key take effect in the order they were made, each as one atomic write
  or compare-and-delete. When Redis answers, twice as many round trips as there are calls in the chain
  are enough to empty it, and the store is then the result of applying the calls in order.
\<close>

theorem lock_serialises:
  "job_queue key (drain (2 * length (job_queue key s)) key s) = [] \<and>
   jm_get (sb_store (drain (2 * length (job_queue key s)) key s)) =
     fold (atomic_job key) (job_queue key s) (jm_get (sb_store s))"
proof (induction "job_queue key s" arbitrary: s)
  case Nil
  then show ?case by simp
next
  case (Cons job rest)
  obtain m s1 where m: "m \<le> 2" and dr: "\<And>n. drain (m + n) key s = drain n key s1"
    and q1: "job_queue key s1 = rest" and st: "jm_get (sb_store s1) = atomic_job key job (jm_get (sb_store s))"
    using drain_two [OF Cons.hyps(2) [symmetric]] by blast
  let ?n = "2 * length rest"
  have IH: "job_queue key (drain ?n key s1) = []"
    "jm_get (sb_store (drain ?n key s1)) = fold (atomic_job key) rest (jm_get (sb_store s1))"
    using Cons.hyps(1) [of s1] q1 by simp_all
  have extra: "drain (a + b) key s' = drain b key (drain a key s')" for a b s'
    by (induction a arbitrary: s') simp_all
  have "drain (2 * length (job_queue key s)) key s = drain (m + (?n + (2 - m))) key s"
    using m Cons.hyps(2) [symmetric] by (simp add: algebra_simps)
  also have "\<dots> = drain ?n key s1"
    by (simp only: dr extra [of ?n "2 - m"] drain_empty [OF IH(1)])
  finally show ?case using IH st Cons.hyps(2) [symmetric] by simp
qed

lemma scan_store:
  "jm_get (fold (\<lambda>key store.
         (case jm_get store key of
            None \<Rightarrow> store
          | Some (RawText []) \<Rightarrow> store
          | Some raw \<Rightarrow> if stale_for_hub hub raw then jm_delete key store else store)) keys store) k =
   (if k \<in> set keys \<and> (\<exists>raw. jm_get store k = Some raw \<and> raw \<noteq> RawText [] \<and> stale_for_hub hub raw)
    then None else jm_get store k)"
proof (induction keys arbitrary: store)
  case Nil
  then show ?case by simp
next
  case (Cons key keys)
  then show ?case
    by (auto simp: fun_eq_iff split: option.split sub_raw.split list.split)
qed


text \<open>
  The startup cleanup removes exactly the keys of the given hub instance and unreadable keys among
  those the scan returns, and leaves every other instance's tunnels alone.
\<close>

theorem startup_cleanup_exact:
  "jm_get (sb_store (SubdomainRegistry_unregisterAllForHub hub pages s)) key =
     (case jm_get (sb_store s) key of
        None \<Rightarrow> None
      | Some (RawEntry e) \<Rightarrow>
          if (\<exists>page \<in> set pages. key \<in> set page) \<and> sn_hubInstanceId e = hub then None else Some (RawEntry e)
      | Some (RawText t) \<Rightarrow>
          if (\<exists>page \<in> set pages. key \<in> set page) \<and> t \<noteq> [] then None else Some (RawText t))"
  unfolding SubdomainRegistry_unregisterAllForHub_def
  by (simp add: scan_store stale_for_hub_def split: option.split sub_raw.split)

end
