(* ===== verification/Plans.thy ===== *)
theory Plans
  imports Prelude "HOL-Library.Extended_Nat" "HOL-Library.Monad_Syntax"
begin

text \<open>
  \<^verbatim>\<open>packages/shared\<close>: the plan table, the resolver that decides which plan an account is
  on, the account statuses that may connect, and the conversion of a per-minute limit to and from
  its cached form.

  A limit is an \<^typ>\<open>enat\<close>; \<open>\<infinity>\<close> is JavaScript's \<^verbatim>\<open>Infinity\<close>. A call to the database
  is a parameter of type \<open>'a io\<close>: \<open>None\<close> when the promise is rejected, \<open>Some x\<close> when it
  resolves to \<open>x\<close>.
\<close>

type_synonym 'a io = "'a option"

section \<open>Plan limits\<close>

datatype Plan = FREE | PRO | ENTERPRISE

datatype PlanKeyEnvironment = EnvDEV | EnvPROD

record PlanLimits =
  maxAgents :: enat
  maxRequestsPerMonth :: enat
  publicPathRateLimitPerMinute :: enat
  maxMembers :: enat
  customDomains :: bool
  prioritySupport :: bool
  maxApiKeys :: enat
  maxScopesPerKey :: enat
  rateLimitPerMinute :: enat
  allowedEnvironments :: "PlanKeyEnvironment list"
  rotationAllowed :: bool
  expiryAllowed :: bool
  analyticsRetentionDays :: nat
  prodKeysAllowed :: bool

fun PLAN_LIMITS :: "Plan \<Rightarrow> PlanLimits" where
  "PLAN_LIMITS FREE = \<lparr>
     maxAgents = 1, maxRequestsPerMonth = 10000, publicPathRateLimitPerMinute = 100,
     maxMembers = 1, customDomains = False, prioritySupport = False,
     maxApiKeys = 3, maxScopesPerKey = 2, rateLimitPerMinute = 60,
     allowedEnvironments = [EnvDEV], rotationAllowed = False, expiryAllowed = False,
     analyticsRetentionDays = 7, prodKeysAllowed = False\<rparr>"
| "PLAN_LIMITS PRO = \<lparr>
     maxAgents = 5, maxRequestsPerMonth = 50000, publicPathRateLimitPerMinute = 3000,
     maxMembers = 10, customDomains = True, prioritySupport = True,
     maxApiKeys = 20, maxScopesPerKey = 10, rateLimitPerMinute = 1000,
     allowedEnvironments = [EnvDEV, EnvPROD], rotationAllowed = True, expiryAllowed = True,
     analyticsRetentionDays = 90, prodKeysAllowed = True\<rparr>"
| "PLAN_LIMITS ENTERPRISE = \<lparr>
     maxAgents = \<infinity>, maxRequestsPerMonth = \<infinity>, publicPathRateLimitPerMinute = \<infinity>,
     maxMembers = \<infinity>, customDomains = True, prioritySupport = True,
     maxApiKeys = \<infinity>, maxScopesPerKey = \<infinity>, rateLimitPerMinute = \<infinity>,
     allowedEnvironments = [EnvDEV, EnvPROD], rotationAllowed = True, expiryAllowed = True,
     analyticsRetentionDays = 365, prodKeysAllowed = True\<rparr>"

definition Plan_name :: "Plan \<Rightarrow> string" where
  "Plan_name p = (case p of FREE \<Rightarrow> ''FREE'' | PRO \<Rightarrow> ''PRO'' | ENTERPRISE \<Rightarrow> ''ENTERPRISE'')"

text \<open>
  \<^verbatim>\<open>name in PLAN_LIMITS\<close>: the plan with that key, if there is one. (The column is a database
  enumeration, so names inherited from \<^verbatim>\<open>Object.prototype\<close> do not occur.)
\<close>

definition Plan_of_name :: "string \<Rightarrow> Plan option" where
  "Plan_of_name s = List.find (\<lambda>p. Plan_name p = s) [FREE, PRO, ENTERPRISE]"

section \<open>Account status\<close>

definition CONNECTABLE_ACCOUNT_STATUSES :: "string list" where
  "CONNECTABLE_ACCOUNT_STATUSES = [''ACTIVE'', ''PAST_DUE'']"

definition isConnectableAccountStatus :: "string \<Rightarrow> bool" where
  "isConnectableAccountStatus status = (status \<in> set CONNECTABLE_ACCOUNT_STATUSES)"

definition NOT_ENTITLED_ACCOUNT_STATUSES :: "string list" where
  "NOT_ENTITLED_ACCOUNT_STATUSES = [''SUSPENDED'', ''RESTRICTED'', ''CANCELED'', ''DELETED'']"

section \<open>Plan resolver\<close>

text \<open>
  \<open>findAccount\<close> is \<^verbatim>\<open>account.findUnique\<close> (the status, or nothing), \<open>findSubscription\<close> is
  \<^verbatim>\<open>subscription.findFirst\<close> ordered by creation, newest first (the plan name, or nothing).
\<close>

definition resolvePlanForAccount ::
  "(string \<Rightarrow> string option io) \<Rightarrow> (string \<Rightarrow> string option io) \<Rightarrow> string \<Rightarrow> Plan io" where
  "resolvePlanForAccount findAccount findSubscription accountId =
     do {
       account \<leftarrow> findAccount accountId;
       case account of
         None \<Rightarrow> Some FREE
       | Some status \<Rightarrow>
           if status \<in> set NOT_ENTITLED_ACCOUNT_STATUSES then Some FREE
           else do {
             subscription \<leftarrow> findSubscription accountId;
             case subscription of
               None \<Rightarrow> Some FREE
             | Some plan \<Rightarrow> Some (case Plan_of_name plan of Some p \<Rightarrow> p | None \<Rightarrow> FREE)
           }
     }"

definition getPlanLimitsForAccount ::
  "(string \<Rightarrow> string option io) \<Rightarrow> (string \<Rightarrow> string option io) \<Rightarrow> string \<Rightarrow> (Plan \<times> PlanLimits) io" where
  "getPlanLimitsForAccount findAccount findSubscription accountId =
     do {
       plan \<leftarrow> resolvePlanForAccount findAccount findSubscription accountId;
       Some (plan, PLAN_LIMITS plan)
     }"

section \<open>Cached rate limits\<close>

text \<open>
  The number a limit may be: an integer, \<^verbatim>\<open>Infinity\<close>, or anything else (NaN, null, a missing
  field, a string).
\<close>

datatype limit_value = LInt int | LInfinity | LOther

definition toRateLimit :: "limit_value \<Rightarrow> enat" where
  "toRateLimit v = (case v of LInt n \<Rightarrow> if n \<ge> 0 then enat (nat n) else \<infinity> | _ \<Rightarrow> \<infinity>)"

definition toStoredRateLimit :: "limit_value \<Rightarrow> int" where
  "toStoredRateLimit v =
     (case toRateLimit v of enat n \<Rightarrow> int n | \<infinity> \<Rightarrow> - 1)"

definition limit_of :: "enat \<Rightarrow> limit_value" where
  "limit_of e = (case e of enat n \<Rightarrow> LInt (int n) | \<infinity> \<Rightarrow> LInfinity)"

section \<open>Correctness\<close>

lemma Plan_of_name_name [simp]: "Plan_of_name (Plan_name p) = Some p"
  by (cases p) (simp_all add: Plan_of_name_def Plan_name_def)

lemma Plan_of_name_Some: "Plan_of_name s = Some p \<Longrightarrow> s = Plan_name p"
  unfolding Plan_of_name_def by (metis (mono_tags, lifting) find_Some_iff)

lemma connectable_entitled:
  "isConnectableAccountStatus s \<Longrightarrow> s \<notin> set NOT_ENTITLED_ACCOUNT_STATUSES"
  by (auto simp: isConnectableAccountStatus_def CONNECTABLE_ACCOUNT_STATUSES_def
      NOT_ENTITLED_ACCOUNT_STATUSES_def)

text \<open>
  a paid plan is granted only on evidence. The resolver yields a plan other than FREE exactly
  when both reads succeed, the account exists with an entitled status, and its newest subscription
  names that plan; in particular an account that may connect (ACTIVE or PAST_DUE) always gets the
  plan its newest subscription names.
\<close>

theorem resolvePlanForAccount_correct:
  assumes "p \<noteq> FREE"
  shows "(resolvePlanForAccount fa fs acct = Some p \<longleftrightarrow>
      (\<exists>status. fa acct = Some (Some status) \<and> status \<notin> set NOT_ENTITLED_ACCOUNT_STATUSES \<and>
                fs acct = Some (Some (Plan_name p)))) \<and>
    (fa acct = Some (Some st) \<and> isConnectableAccountStatus st \<and> fs acct = Some (Some (Plan_name q))
      \<longrightarrow> resolvePlanForAccount fa fs acct = Some q)"
  using assms
  by (cases "fa acct"; cases "fs acct")
    (auto simp: resolvePlanForAccount_def connectable_entitled
      split: option.splits if_splits dest: Plan_of_name_Some)

theorem resolvePlanForAccount_correct_witness:
  "resolvePlanForAccount (\<lambda>_. Some (Some ''PAST_DUE'')) (\<lambda>_. Some (Some ''PRO'')) ''a'' = Some PRO"
proof -
  have "PRO \<noteq> FREE" by simp
  from resolvePlanForAccount_correct [OF this, of "\<lambda>_. Some (Some ''PAST_DUE'')"
      "\<lambda>_. Some (Some ''PRO'')" "''a''" "''PAST_DUE''" PRO]
  show ?thesis
    by (simp add: isConnectableAccountStatus_def CONNECTABLE_ACCOUNT_STATUSES_def Plan_name_def)
qed

text \<open>
  A limit survives the cache. Whatever value a limit has, the number stored for it (which is
  what JSON can carry) reads back as the same limit, so an unlimited plan never becomes "no request
  allowed" and a plan's limit is exactly its table entry.
\<close>

theorem rate_limit_roundtrip:
  "toRateLimit (LInt (toStoredRateLimit v)) = toRateLimit v \<and>
   toRateLimit (LInt (toStoredRateLimit (limit_of e))) = e"
  by (auto simp: toRateLimit_def toStoredRateLimit_def limit_of_def
      split: limit_value.splits enat.splits if_splits)

end
