(* ===== verification/ApiKeys.thy ===== *)
theory ApiKeys
  imports Protocol Plans
begin

text \<open>
  \<^verbatim>\<open>packages/shared\<close>: the API-key loader (\<^verbatim>\<open>clients.ts\<close>) and \<^verbatim>\<open>ValidateApiKeyUseCase\<close>
  (\<^verbatim>\<open>validateApiKey.ts\<close>), which decides every signed SDK request.

  Parameters: the platform (digests, and the UTC fields of \<^verbatim>\<open>Date\<close>), the database reads, and
  Redis as a record of operations over an abstract store. An operation that throws is \<open>None\<close>.
  What the replay protection relies on is \<open>redis_spec\<close>, the documented behaviour of
  \<^verbatim>\<open>SET key value PX ms NX\<close> and that other commands touch only their own key.

  \<^verbatim>\<open>Date.now()\<close> is read at three moments separated by awaits; \<open>instants\<close> carries them.
\<close>

record utc_date =
  utc_year :: nat
  utc_month :: nat
  utc_day :: nat
  utc_hours :: nat
  utc_minutes :: nat
  utc_seconds :: nat

record platform =
  pf_sha256 :: "string \<Rightarrow> string"
  pf_hmac :: "string \<Rightarrow> string \<Rightarrow> string"
  pf_utc :: "time \<Rightarrow> utc_date"

section \<open>Rows, cached keys, results\<close>

record ApiKeyRow =
  row_keyId :: string
  row_secretHash :: string
  row_previousSecretHash :: "string option"
  row_rotationGraceEndsAt :: "time option"
  row_status :: string
  row_accountId :: string
  row_accountStatus :: string
  row_scopes :: "string list"
  row_expiresAt :: "time option"
  row_rateLimitPerMinute :: limit_value

record CachedKeyData =
  ck_keyId :: string
  ck_secretHash :: string
  ck_previousSecretHash :: "string option"
  ck_rotationGraceEndsAt :: "time option"
  ck_status :: string
  ck_accountId :: string
  ck_accountStatus :: string
  ck_scopes :: "string list"
  ck_rateLimitPerMinute :: limit_value
  ck_expiresAt :: "time option"

record ValidateApiKeyParams =
  vp_keyId :: string
  vp_signature :: string
  vp_meth :: string
  vp_path :: string
  vp_query :: string
  vp_body :: string
  vp_requestId :: string
  vp_timestamp :: time
  vp_requiredScope :: string
  vp_ip :: string

datatype GatewayValidationResult =
  GwValid (gw_apiKeyId: string) (gw_accountId: string) (gw_scopes: "string list") (gw_rateLimit: int)
| GwInvalid (gw_code: string) (gw_reason: string) (gw_account: "string option")

definition gw_valid :: "GatewayValidationResult \<Rightarrow> bool" where
  "gw_valid res = (case res of GwValid _ _ _ _ \<Rightarrow> True | GwInvalid _ _ _ \<Rightarrow> False)"

section \<open>Redis\<close>

record 'r redis_api =
  rd_getKey :: "time \<Rightarrow> string \<Rightarrow> 'r \<Rightarrow> CachedKeyData option io"
  rd_setKey :: "time \<Rightarrow> string \<Rightarrow> CachedKeyData \<Rightarrow> int \<Rightarrow> 'r \<Rightarrow> 'r io"
  rd_setNx :: "time \<Rightarrow> string \<Rightarrow> int \<Rightarrow> 'r \<Rightarrow> (bool \<times> 'r) io"
  rd_incr :: "time \<Rightarrow> string \<Rightarrow> 'r \<Rightarrow> (nat \<times> 'r) io"
  rd_expire :: "time \<Rightarrow> string \<Rightarrow> int \<Rightarrow> 'r \<Rightarrow> 'r io"

text \<open>
  \<open>live t k r\<close>: key \<open>k\<close> exists in store \<open>r\<close> at time \<open>t\<close>. \<^verbatim>\<open>SET k v PX px NX\<close> succeeds
  exactly when the key does not exist, and then the key exists until \<open>px\<close> milliseconds later;
  no command changes the existence of another key.
\<close>

definition redis_spec :: "'r redis_api \<Rightarrow> (time \<Rightarrow> string \<Rightarrow> 'r \<Rightarrow> bool) \<Rightarrow> bool" where
  "redis_spec rd live \<longleftrightarrow>
     (\<forall>t k px r. \<exists>r'. rd_setNx rd t k px r = Some (\<not> live t k r, r') \<and>
        (\<forall>t' k'. t \<le> t' \<longrightarrow> live t' k' r' =
           (if k' = k \<and> \<not> live t k r then t' < t + px else live t' k' r))) \<and>
     (\<forall>t k d s r r'. rd_setKey rd t k d s r = Some r' \<longrightarrow>
        (\<forall>t' k'. k' \<noteq> k \<longrightarrow> live t' k' r' = live t' k' r)) \<and>
     (\<forall>t k r n r'. rd_incr rd t k r = Some (n, r') \<longrightarrow>
        (\<forall>t' k'. k' \<noteq> k \<longrightarrow> live t' k' r' = live t' k' r)) \<and>
     (\<forall>t k s r r'. rd_expire rd t k s r = Some r' \<longrightarrow>
        (\<forall>t' k'. k' \<noteq> k \<longrightarrow> live t' k' r' = live t' k' r))"

section \<open>Loading a key from the database\<close>

text \<open>\<open>findApiKey\<close> is \<^verbatim>\<open>apiKey.findUnique\<close> with its scopes and its account's status.\<close>

definition buildDbApiKeyLoader ::
  "(string \<Rightarrow> ApiKeyRow option io) \<Rightarrow> (string \<Rightarrow> string option io) \<Rightarrow> (string \<Rightarrow> string option io) \<Rightarrow>
   string \<Rightarrow> ApiKeyRow option" where
  "buildDbApiKeyLoader findApiKey findAccount findSubscription keyId =
     (case findApiKey keyId of
        None \<Rightarrow> None
      | Some None \<Rightarrow> None
      | Some (Some row) \<Rightarrow>
          (let rateLimit =
             (case resolvePlanForAccount findAccount findSubscription (row_accountId row) of
                Some plan \<Rightarrow> LInt (toStoredRateLimit (limit_of (rateLimitPerMinute (PLAN_LIMITS plan))))
              | None \<Rightarrow> LOther)
           in Some (row\<lparr>row_rateLimitPerMinute := rateLimit\<rparr>)))"

section \<open>Time buckets and key names\<close>

definition pad2 :: "nat \<Rightarrow> string" where
  "pad2 n = (let s = show_nat n in replicate (2 - length s) CHR ''0'' @ s)"

definition bucket_of :: "utc_date \<Rightarrow> nat \<Rightarrow> string" where
  "bucket_of d minutes =
     show_nat (utc_year d) @ pad2 (utc_month d + 1) @ pad2 (utc_day d) @ pad2 (utc_hours d) @ pad2 minutes"

definition currentMinuteBucket :: "platform \<Rightarrow> time \<Rightarrow> string" where
  "currentMinuteBucket pf now = bucket_of (pf_utc pf now) (utc_minutes (pf_utc pf now))"

definition current5MinBucket :: "platform \<Rightarrow> time \<Rightarrow> string" where
  "current5MinBucket pf now = bucket_of (pf_utc pf now) (utc_minutes (pf_utc pf now) div 5 * 5)"

definition NS_apiKey :: "string \<Rightarrow> string" where
  "NS_apiKey keyId = ''apikey:data:'' @ keyId"

definition NS_rateLimit :: "string \<Rightarrow> string \<Rightarrow> string" where
  "NS_rateLimit keyId w = ''apikey:rate:'' @ keyId @ '':'' @ w"

definition NS_replay :: "string \<Rightarrow> string \<Rightarrow> string" where
  "NS_replay keyId requestId = ''apikey:replay:'' @ keyId @ '':'' @ requestId"

definition NS_usage :: "string \<Rightarrow> string \<Rightarrow> string \<Rightarrow> string" where
  "NS_usage accountId keyId bucket =
     ''usage:'' @ accountId @ '':'' @ keyId @ '':requests:'' @ bucket"

definition KEY_CACHE_TTL_SEC :: int where "KEY_CACHE_TTL_SEC = 5 * 60"

section \<open>ValidateApiKeyUseCase\<close>

definition gw_fail :: "string \<Rightarrow> string \<Rightarrow> string option \<Rightarrow> GatewayValidationResult" where
  "gw_fail code reason accountId =
     GwInvalid code reason (if accountId = Some [] then None else accountId)"

definition rowToCache :: "ApiKeyRow \<Rightarrow> CachedKeyData" where
  "rowToCache row = \<lparr>
     ck_keyId = row_keyId row,
     ck_secretHash = row_secretHash row,
     ck_previousSecretHash = row_previousSecretHash row,
     ck_rotationGraceEndsAt = row_rotationGraceEndsAt row,
     ck_status = row_status row,
     ck_accountId = row_accountId row,
     ck_accountStatus = row_accountStatus row,
     ck_scopes = row_scopes row,
     ck_rateLimitPerMinute = LInt (toStoredRateLimit (row_rateLimitPerMinute row)),
     ck_expiresAt = row_expiresAt row\<rparr>"

definition loadFromCache :: "'r redis_api \<Rightarrow> time \<Rightarrow> string \<Rightarrow> 'r \<Rightarrow> CachedKeyData option" where
  "loadFromCache rd now keyId r =
     (case rd_getKey rd now (NS_apiKey keyId) r of None \<Rightarrow> None | Some cached \<Rightarrow> cached)"

definition writeCache :: "'r redis_api \<Rightarrow> time \<Rightarrow> string \<Rightarrow> CachedKeyData \<Rightarrow> 'r \<Rightarrow> 'r" where
  "writeCache rd now keyId data r =
     (case rd_setKey rd now (NS_apiKey keyId) data KEY_CACHE_TTL_SEC r of None \<Rightarrow> r | Some r' \<Rightarrow> r')"

definition markRequestId :: "'r redis_api \<Rightarrow> time \<Rightarrow> string \<Rightarrow> string \<Rightarrow> 'r \<Rightarrow> bool \<times> 'r" where
  "markRequestId rd now keyId requestId r =
     (case rd_setNx rd now (NS_replay keyId requestId) REPLAY_WINDOW_MS r of
        None \<Rightarrow> (True, r)
      | Some (isNew, r') \<Rightarrow> (isNew, r'))"

definition incrementRateLimit :: "platform \<Rightarrow> 'r redis_api \<Rightarrow> time \<Rightarrow> string \<Rightarrow> 'r \<Rightarrow> nat \<times> 'r" where
  "incrementRateLimit pf rd now keyId r =
     (let redisKey = NS_rateLimit keyId (currentMinuteBucket pf now) in
      case rd_incr rd now redisKey r of
        None \<Rightarrow> (0, r)
      | Some (cnt, r') \<Rightarrow>
          if cnt = 1 then
            (case rd_expire rd now redisKey 65 r' of None \<Rightarrow> (0, r') | Some r'' \<Rightarrow> (cnt, r''))
          else (cnt, r'))"

definition incrementUsage :: "platform \<Rightarrow> 'r redis_api \<Rightarrow> time \<Rightarrow> string \<Rightarrow> string \<Rightarrow> 'r \<Rightarrow> 'r" where
  "incrementUsage pf rd now accountId keyId r =
     (let redisKey = NS_usage accountId keyId (current5MinBucket pf now) in
      case rd_incr rd now redisKey r of
        None \<Rightarrow> r
      | Some (cnt, r') \<Rightarrow>
          if cnt = 1 then
            (case rd_expire rd now redisKey (60 * 60 * 25) r' of None \<Rightarrow> r' | Some r'' \<Rightarrow> r'')
          else r')"

record instants =
  at_start :: time
  at_check :: time
  at_mark :: time

definition request_canonical :: "platform \<Rightarrow> ValidateApiKeyParams \<Rightarrow> string" where
  "request_canonical pf p =
     buildCanonical (pf_sha256 pf) \<lparr>cp_meth = vp_meth p, cp_path = vp_path p, cp_query = vp_query p,
       cp_body = vp_body p, cp_requestId = vp_requestId p, cp_ts = vp_timestamp p\<rparr>"

definition verify_hash :: "platform \<Rightarrow> string \<Rightarrow> ValidateApiKeyParams \<Rightarrow> string \<Rightarrow> bool" where
  "verify_hash pf canonical p hash =
     (let expected = pf_hmac pf hash canonical;
          a = hex_decode expected;
          b = hex_decode (vp_signature p)
      in if length a \<noteq> length b then False else timingSafeEqual a b)"

definition signature_valid :: "platform \<Rightarrow> CachedKeyData \<Rightarrow> time \<Rightarrow> ValidateApiKeyParams \<Rightarrow> bool" where
  "signature_valid pf cached now p =
     (let canonical = request_canonical pf p;
          graceActive = (case ck_rotationGraceEndsAt cached of None \<Rightarrow> False | Some e \<Rightarrow> e > now)
      in verify_hash pf canonical p (ck_secretHash cached) \<or>
         (case ck_previousSecretHash cached of
            Some prev \<Rightarrow> if graceActive \<and> prev \<noteq> [] then verify_hash pf canonical p prev else False
          | None \<Rightarrow> False))"

text \<open>Steps 4 to 6 of \<^verbatim>\<open>execute\<close>: the checks on the loaded key, in order; \<open>None\<close> when all pass.\<close>

definition key_failure ::
  "platform \<Rightarrow> CachedKeyData \<Rightarrow> time \<Rightarrow> ValidateApiKeyParams \<Rightarrow> (string \<times> string) option" where
  "key_failure pf cached now p =
     (if ck_status cached = ''REVOKED'' then Some (''REVOKED_KEY'', ''API key has been revoked'')
      else if (case ck_expiresAt cached of None \<Rightarrow> False | Some e \<Rightarrow> e < now) then
        Some (''EXPIRED_KEY'', ''API key has expired'')
      else if \<not> isConnectableAccountStatus (ck_accountStatus cached) then
        Some (''SUSPENDED_ACCOUNT'', ''Account is not active'')
      else if \<not> (''*'' \<in> set (ck_scopes cached) \<or> vp_requiredScope p \<in> set (ck_scopes cached)) then
        Some (''SCOPE_MISSING'', ''Key missing required scope: '' @ vp_requiredScope p)
      else if \<not> signature_valid pf cached now p then
        Some (''INVALID_SIGNATURE'', ''HMAC signature verification failed'')
      else None)"

text \<open>Steps 6b to 8: replay mark, rate limit, usage.\<close>

definition admit ::
  "platform \<Rightarrow> 'r redis_api \<Rightarrow> CachedKeyData \<Rightarrow> time \<Rightarrow> ValidateApiKeyParams \<Rightarrow> 'r \<Rightarrow>
   GatewayValidationResult \<times> 'r" where
  "admit pf rd cached now p r =
     (case markRequestId rd now (vp_keyId p) (vp_requestId p) r of
        (False, r1) \<Rightarrow>
          (gw_fail ''REPLAY_ATTACK'' ''Duplicate requestId - possible replay attack''
             (Some (ck_accountId cached)), r1)
      | (True, r1) \<Rightarrow>
          (case toRateLimit (ck_rateLimitPerMinute cached) of
             \<infinity> \<Rightarrow>
               (GwValid (vp_keyId p) (ck_accountId cached) (ck_scopes cached) (- 1),
                incrementUsage pf rd now (ck_accountId cached) (vp_keyId p) r1)
           | enat rateLimit \<Rightarrow>
               (case incrementRateLimit pf rd now (vp_keyId p) r1 of
                  (cnt, r2) \<Rightarrow>
                    if cnt > rateLimit then
                      (gw_fail ''RATE_LIMITED''
                         (''Rate limit exceeded: '' @ show_nat rateLimit @ '' req/min'')
                         (Some (ck_accountId cached)), r2)
                    else
                      (GwValid (vp_keyId p) (ck_accountId cached) (ck_scopes cached) (int rateLimit),
                       incrementUsage pf rd now (ck_accountId cached) (vp_keyId p) r2))))"

definition load_cached ::
  "'r redis_api \<Rightarrow> (string \<Rightarrow> ApiKeyRow option) \<Rightarrow> time \<Rightarrow> string \<Rightarrow> 'r \<Rightarrow> CachedKeyData option \<times> 'r" where
  "load_cached rd loadKey now keyId r =
     (case loadFromCache rd now keyId r of
        Some cached \<Rightarrow> (Some cached, r)
      | None \<Rightarrow>
          (case loadKey keyId of
             None \<Rightarrow> (None, r)
           | Some row \<Rightarrow>
               (let cached = rowToCache row in (Some cached, writeCache rd now keyId cached r))))"

definition ValidateApiKey_execute ::
  "platform \<Rightarrow> 'r redis_api \<Rightarrow> (string \<Rightarrow> ApiKeyRow option) \<Rightarrow> instants \<Rightarrow> ValidateApiKeyParams \<Rightarrow>
   'r \<Rightarrow> GatewayValidationResult \<times> 'r" where
  "ValidateApiKey_execute pf rd loadKey tm p r =
     (if \<bar>at_start tm - vp_timestamp p\<bar> > SIGNATURE_WINDOW_MS then
        (gw_fail ''INVALID_SIGNATURE'' ''Request timestamp outside acceptable window'' None, r)
      else
        (case load_cached rd loadKey (at_start tm) (vp_keyId p) r of
           (None, r1) \<Rightarrow> (gw_fail ''INVALID_SIGNATURE'' ''Unknown API key'' None, r1)
         | (Some cached, r1) \<Rightarrow>
             (case key_failure pf cached (at_check tm) p of
                Some (code, reason) \<Rightarrow> (gw_fail code reason (Some (ck_accountId cached)), r1)
              | None \<Rightarrow> admit pf rd cached (at_mark tm) p r1)))"


text \<open>A sequence of validations, one after the other; only the Redis store is carried along.\<close>

definition run_requests ::
  "platform \<Rightarrow> 'r redis_api \<Rightarrow> (string \<Rightarrow> ApiKeyRow option) \<Rightarrow> (instants \<times> ValidateApiKeyParams) list \<Rightarrow>
   'r \<Rightarrow> 'r" where
  "run_requests pf rd loadKey reqs r =
     fold (\<lambda>(tm, p) r. snd (ValidateApiKey_execute pf rd loadKey tm p r)) reqs r"

section \<open>Soundness of an accepted request\<close>

lemmas validate_defs = ValidateApiKey_execute_def key_failure_def admit_def gw_fail_def

lemma verify_hash_iff:
  "verify_hash pf canonical p hash \<longleftrightarrow>
     hex_decode (vp_signature p) = hex_decode (pf_hmac pf hash canonical)"
  by (auto simp: verify_hash_def Let_def timingSafeEqual_def)

lemma signature_valid_iff:
  "signature_valid pf cached now p \<longleftrightarrow>
     (\<exists>hash. (hash = ck_secretHash cached \<or>
              ck_previousSecretHash cached = Some hash \<and> hash \<noteq> [] \<and>
              (\<exists>e. ck_rotationGraceEndsAt cached = Some e \<and> now < e)) \<and>
        hex_decode (vp_signature p) = hex_decode (pf_hmac pf hash (request_canonical pf p)))"
  by (auto simp: signature_valid_def Let_def verify_hash_iff split: option.splits if_splits)

lemma execute_accepts:
  assumes "gw_valid (fst (ValidateApiKey_execute pf rd loadKey tm p r))"
  obtains cached r1 where
    "\<bar>at_start tm - vp_timestamp p\<bar> \<le> SIGNATURE_WINDOW_MS"
    and "load_cached rd loadKey (at_start tm) (vp_keyId p) r = (Some cached, r1)"
    and "key_failure pf cached (at_check tm) p = None"
    and "ValidateApiKey_execute pf rd loadKey tm p r = admit pf rd cached (at_mark tm) p r1"
  using assms
  by (fastforce simp: ValidateApiKey_execute_def gw_fail_def gw_valid_def
      split: if_splits prod.splits option.splits)

lemma key_failure_None:
  "key_failure pf cached now p = None \<longleftrightarrow>
     ck_status cached \<noteq> ''REVOKED'' \<and>
     (\<forall>e. ck_expiresAt cached = Some e \<longrightarrow> now \<le> e) \<and>
     isConnectableAccountStatus (ck_accountStatus cached) \<and>
     (''*'' \<in> set (ck_scopes cached) \<or> vp_requiredScope p \<in> set (ck_scopes cached)) \<and>
     signature_valid pf cached now p"
  by (auto simp: key_failure_def split: option.splits if_splits)

lemma admit_accepts:
  assumes "admit pf rd cached now p r = (GwValid keyId accountId scopes rate, r')"
  shows "keyId = vp_keyId p \<and> accountId = ck_accountId cached \<and> scopes = ck_scopes cached \<and>
    fst (markRequestId rd now (vp_keyId p) (vp_requestId p) r)"
  using assms
  by (auto simp: admit_def gw_fail_def split: prod.splits bool.splits enat.splits if_splits)

text \<open>
  C11: an accepted SDK request is authentic and authorised. When validation succeeds, the request's
  timestamp is within the signature window of the moment it arrived, the key was found (cached or in
  the database), it is not revoked, not past its expiry, its account may connect, it has the
  required scope, and the signature decodes to the HMAC of exactly this request's canonical form
  under the current secret hash or, only while the rotation grace period lasts, the previous one;
  the account and scopes handed to the hub are that key's own.
\<close>

theorem ValidateApiKey_sound:
  assumes "ValidateApiKey_execute pf rd loadKey tm p r = (GwValid keyId accountId scopes rate, r')"
  shows "\<exists>cached hash.
    \<bar>at_start tm - vp_timestamp p\<bar> \<le> SIGNATURE_WINDOW_MS \<and>
    (loadFromCache rd (at_start tm) (vp_keyId p) r = Some cached \<or>
     (\<exists>row. loadKey (vp_keyId p) = Some row \<and> cached = rowToCache row)) \<and>
    ck_status cached \<noteq> ''REVOKED'' \<and>
    (\<forall>e. ck_expiresAt cached = Some e \<longrightarrow> at_check tm \<le> e) \<and>
    isConnectableAccountStatus (ck_accountStatus cached) \<and>
    (''*'' \<in> set (ck_scopes cached) \<or> vp_requiredScope p \<in> set (ck_scopes cached)) \<and>
    (hash = ck_secretHash cached \<or>
     ck_previousSecretHash cached = Some hash \<and>
     (\<exists>e. ck_rotationGraceEndsAt cached = Some e \<and> at_check tm < e)) \<and>
    hex_decode (vp_signature p) = hex_decode (pf_hmac pf hash (request_canonical pf p)) \<and>
    keyId = vp_keyId p \<and> accountId = ck_accountId cached \<and> scopes = ck_scopes cached"
proof -
  have "gw_valid (fst (ValidateApiKey_execute pf rd loadKey tm p r))"
    using assms by (simp add: gw_valid_def)
  then obtain cached r1 where
    window: "\<bar>at_start tm - vp_timestamp p\<bar> \<le> SIGNATURE_WINDOW_MS"
    and load: "load_cached rd loadKey (at_start tm) (vp_keyId p) r = (Some cached, r1)"
    and checks: "key_failure pf cached (at_check tm) p = None"
    and run: "ValidateApiKey_execute pf rd loadKey tm p r = admit pf rd cached (at_mark tm) p r1"
    by (rule execute_accepts)
  from load have found: "loadFromCache rd (at_start tm) (vp_keyId p) r = Some cached \<or>
     (\<exists>row. loadKey (vp_keyId p) = Some row \<and> cached = rowToCache row)"
    by (auto simp: load_cached_def Let_def split: option.splits)
  from checks obtain hash where
    "hash = ck_secretHash cached \<or>
     ck_previousSecretHash cached = Some hash \<and>
     (\<exists>e. ck_rotationGraceEndsAt cached = Some e \<and> at_check tm < e)"
    "hex_decode (vp_signature p) = hex_decode (pf_hmac pf hash (request_canonical pf p))"
    by (auto simp: key_failure_None signature_valid_iff)
  with window found checks admit_accepts [of pf rd cached "at_mark tm" p r1] run assms
  show ?thesis unfolding key_failure_None by metis
qed

section \<open>Replay protection\<close>

lemma NS_replay_other [simp]:
  "NS_replay k q \<noteq> NS_apiKey k'" "NS_replay k q \<noteq> NS_rateLimit k' w"
  "NS_replay k q \<noteq> NS_usage a k' b"
  "NS_apiKey k' \<noteq> NS_replay k q" "NS_rateLimit k' w \<noteq> NS_replay k q"
  "NS_usage a k' b \<noteq> NS_replay k q"
  by (auto simp: NS_replay_def NS_apiKey_def NS_rateLimit_def NS_usage_def)

lemma NS_replay_inject:
  assumes "CHR '':'' \<notin> set k" and "CHR '':'' \<notin> set k'" and "NS_replay k q = NS_replay k' q'"
  shows "k = k' \<and> q = q'"
proof -
  have "k @ CHR '':'' # q = k' @ CHR '':'' # q'"
    using assms(3) by (simp add: NS_replay_def)
  with assms(1,2) show ?thesis
    by (simp add: sep_inject)
qed

lemma spec_setNx:
  assumes "redis_spec rd live"
  shows "\<exists>r'. rd_setNx rd t k px r = Some (\<not> live t k r, r') \<and>
    (\<forall>t' k'. t \<le> t' \<longrightarrow> live t' k' r' =
       (if k' = k \<and> \<not> live t k r then t' < t + px else live t' k' r))"
  using assms unfolding redis_spec_def by (elim conjE) (erule allE)+

lemma writeCache_replay:
  assumes "redis_spec rd live"
  shows "live t (NS_replay k q) (writeCache rd now keyId d r) = live t (NS_replay k q) r"
  using assms unfolding redis_spec_def writeCache_def
  by (auto split: option.split)

lemma load_cached_replay:
  assumes "redis_spec rd live" and "load_cached rd loadKey now keyId r = (c, r')"
  shows "live t (NS_replay k q) r' = live t (NS_replay k q) r"
  using assms(2) writeCache_replay [OF assms(1)]
  by (auto simp: load_cached_def Let_def split: option.splits)

lemma incrementRateLimit_replay:
  assumes "redis_spec rd live"
  shows "live t (NS_replay k q) (snd (incrementRateLimit pf rd now keyId r)) = live t (NS_replay k q) r"
  using assms unfolding redis_spec_def incrementRateLimit_def Let_def
  by (auto split: option.split)

lemma incrementUsage_replay:
  assumes "redis_spec rd live"
  shows "live t (NS_replay k q) (incrementUsage pf rd now a keyId r) = live t (NS_replay k q) r"
  using assms unfolding redis_spec_def incrementUsage_def Let_def
  by (auto split: option.split)

lemma admit_replay:
  assumes "redis_spec rd live" and "now \<le> t"
  shows "live t (NS_replay k q) (snd (admit pf rd cached now p r)) =
    (if NS_replay k q = NS_replay (vp_keyId p) (vp_requestId p) \<and> \<not> live now (NS_replay k q) r
     then t < now + REPLAY_WINDOW_MS else live t (NS_replay k q) r)"
proof -
  obtain r1 where m: "rd_setNx rd now (NS_replay (vp_keyId p) (vp_requestId p)) REPLAY_WINDOW_MS r =
      Some (\<not> live now (NS_replay (vp_keyId p) (vp_requestId p)) r, r1)"
    and upd: "\<And>k'. live t k' r1 =
      (if k' = NS_replay (vp_keyId p) (vp_requestId p) \<and>
          \<not> live now (NS_replay (vp_keyId p) (vp_requestId p)) r
       then t < now + REPLAY_WINDOW_MS else live t k' r)"
    using spec_setNx [OF assms(1), of now "NS_replay (vp_keyId p) (vp_requestId p)" REPLAY_WINDOW_MS r]
      assms(2) by blast
  have "live t (NS_replay k q) (snd (admit pf rd cached now p r)) = live t (NS_replay k q) r1"
    using m incrementRateLimit_replay [OF assms(1), of t k q pf now "vp_keyId p" r1]
    by (auto simp: admit_def markRequestId_def incrementUsage_replay [OF assms(1)]
        split: bool.split enat.split prod.split)
  with upd show ?thesis by auto
qed

lemma admit_marked:
  assumes "redis_spec rd live" and "gw_valid (fst (admit pf rd cached now p r))"
  shows "\<not> live now (NS_replay (vp_keyId p) (vp_requestId p)) r"
proof -
  obtain r1 where "rd_setNx rd now (NS_replay (vp_keyId p) (vp_requestId p)) REPLAY_WINDOW_MS r =
      Some (\<not> live now (NS_replay (vp_keyId p) (vp_requestId p)) r, r1)"
    using spec_setNx [OF assms(1)] by blast
  with assms(2) show ?thesis
    by (auto simp: admit_def markRequestId_def gw_valid_def gw_fail_def)
qed

lemma execute_replay_kept:
  assumes "redis_spec rd live" and "at_mark tm \<le> t"
    and "live (at_mark tm) (NS_replay k q) r" and "live t (NS_replay k q) r"
  shows "live t (NS_replay k q) (snd (ValidateApiKey_execute pf rd loadKey tm p r))"
  using assms
  by (auto simp: ValidateApiKey_execute_def load_cached_replay [OF assms(1)] admit_replay
      split: prod.split option.split)

lemma run_requests_replay_kept:
  assumes "redis_spec rd live"
    and "sorted (map (at_mark \<circ> fst) reqs)"
    and "\<forall>(tm, p) \<in> set reqs. t0 \<le> at_mark tm \<and> at_mark tm \<le> t"
    and "\<forall>t'. t0 \<le> t' \<and> t' \<le> t \<longrightarrow> live t' (NS_replay k q) r"
    and "t0 \<le> t"
  shows "live t (NS_replay k q) (run_requests pf rd loadKey reqs r)"
  using assms(2-)
proof (induction reqs arbitrary: r t0)
  case Nil
  then show ?case by (simp add: run_requests_def)
next
  case (Cons x reqs)
  obtain tm p where x: "x = (tm, p)" by fastforce
  let ?r = "snd (ValidateApiKey_execute pf rd loadKey tm p r)"
  have bounds: "t0 \<le> at_mark tm" "at_mark tm \<le> t" using Cons.prems(2) x by auto
  have "live t (NS_replay k q) (run_requests pf rd loadKey reqs ?r)"
  proof (rule Cons.IH [of "at_mark tm"])
    show "sorted (map (at_mark \<circ> fst) reqs)" using Cons.prems(1) by (simp add: comp_def)
    show "\<forall>(tm', p) \<in> set reqs. at_mark tm \<le> at_mark tm' \<and> at_mark tm' \<le> t"
      using Cons.prems(1,2) x by auto
    show "\<forall>t'. at_mark tm \<le> t' \<and> t' \<le> t \<longrightarrow> live t' (NS_replay k q) ?r"
      using execute_replay_kept [OF assms(1)] Cons.prems(3) bounds by simp
    show "at_mark tm \<le> t" by (rule bounds(2))
  qed
  then show ?case by (simp add: run_requests_def x)
qed

text \<open>
  C5: no request is accepted twice. Once a signed request has been accepted, a request with the same
  key, requestId and timestamp is refused, whatever other requests (with the same or other
  keys) are validated in between and however late it arrives: while its timestamp is still inside
  the signature window the replay mark is still there, and afterwards the timestamp check refuses
  it. This is where the replay window must cover twice the signature window; processing the second
  request up to its mark must take less than the five seconds of slack. Redis is assumed to
  answer, as the code fails open when it does not.
\<close>

theorem replay_rejected:
  assumes redis: "redis_spec rd live"
    and first: "ValidateApiKey_execute pf rd loadKey tm1 p1 r = (res1, r1)" "gw_valid res1"
    and same: "vp_keyId p2 = vp_keyId p1" "vp_requestId p2 = vp_requestId p1"
      "vp_timestamp p2 = vp_timestamp p1"
    and clock: "at_start tm1 \<le> at_mark tm1" "at_mark tm1 \<le> at_mark tm2"
      "at_mark tm2 < at_start tm2 + 5000"
    and between: "sorted (map (at_mark \<circ> fst) reqs)"
      "\<forall>(tm, p) \<in> set reqs. at_mark tm1 \<le> at_mark tm \<and> at_mark tm \<le> at_mark tm2"
  shows "\<not> gw_valid (fst (ValidateApiKey_execute pf rd loadKey tm2 p2
    (run_requests pf rd loadKey reqs r1)))"
proof
  let ?r2 = "run_requests pf rd loadKey reqs r1"
  let ?key = "NS_replay (vp_keyId p1) (vp_requestId p1)"
  assume "gw_valid (fst (ValidateApiKey_execute pf rd loadKey tm2 p2 ?r2))"
  then obtain c2 r3 where w2: "\<bar>at_start tm2 - vp_timestamp p2\<bar> \<le> SIGNATURE_WINDOW_MS"
    and l2: "load_cached rd loadKey (at_start tm2) (vp_keyId p2) ?r2 = (Some c2, r3)"
    and e2: "gw_valid (fst (admit pf rd c2 (at_mark tm2) p2 r3))"
    by (metis execute_accepts)
  from first have "gw_valid (fst (ValidateApiKey_execute pf rd loadKey tm1 p1 r))" by simp
  then obtain c1 r0 where w1: "\<bar>at_start tm1 - vp_timestamp p1\<bar> \<le> SIGNATURE_WINDOW_MS"
    and r1: "r1 = snd (admit pf rd c1 (at_mark tm1) p1 r0)"
    and e1: "gw_valid (fst (admit pf rd c1 (at_mark tm1) p1 r0))"
    by (metis execute_accepts first(1) snd_conv)
  have "at_mark tm2 < at_mark tm1 + REPLAY_WINDOW_MS"
    using w1 w2 same clock by (simp add: SIGNATURE_WINDOW_MS_def REPLAY_WINDOW_MS_def)
  then have "\<forall>t'. at_mark tm1 \<le> t' \<and> t' \<le> at_mark tm2 \<longrightarrow> live t' ?key r1"
    using admit_replay [OF redis] admit_marked [OF redis e1] by (simp add: r1)
  then have "live (at_mark tm2) ?key ?r2"
    using run_requests_replay_kept [OF redis between] clock by blast
  then have "live (at_mark tm2) ?key r3"
    using load_cached_replay [OF redis l2] by simp
  with admit_marked [OF redis e2] same show False by simp
qed

text \<open>
  only authenticated requests leave a replay mark, so nobody without the key's secret can burn a
  client's requestIds. A request whose key is unknown, or that fails any of the checks up to and
  including the signature, leaves the existence of every replay mark as it was.
\<close>

theorem unauthenticated_leaves_no_mark:
  assumes "redis_spec rd live"
    and "\<forall>cached. fst (load_cached rd loadKey (at_start tm) (vp_keyId p) r) = Some cached \<longrightarrow>
      \<not> signature_valid pf cached (at_check tm) p"
  shows "live t (NS_replay k q) (snd (ValidateApiKey_execute pf rd loadKey tm p r)) =
    live t (NS_replay k q) r"
  using assms(2)
  by (auto simp: ValidateApiKey_execute_def load_cached_replay [OF assms(1)] key_failure_None
      split: prod.split option.split)

section \<open>A concrete Redis\<close>

text \<open>
  A store of keys with their expiry times and counters, enough to run the validator: the hypotheses
  on Redis can hold.
\<close>

definition mem_live :: "time \<Rightarrow> string \<Rightarrow> (string, time) jsmap \<Rightarrow> bool" where
  "mem_live t k r = (case jm_get r k of None \<Rightarrow> False | Some e \<Rightarrow> t < e)"

definition mem_redis :: "(string, time) jsmap redis_api" where
  "mem_redis = \<lparr>
     rd_getKey = (\<lambda>t k r. Some None),
     rd_setKey = (\<lambda>t k d s r. Some (jm_set k (t + 1000 * s) r)),
     rd_setNx = (\<lambda>t k px r. Some (\<not> mem_live t k r, if mem_live t k r then r else jm_set k (t + px) r)),
     rd_incr = (\<lambda>t k r. Some (1, r)),
     rd_expire = (\<lambda>t k s r. Some (jm_set k (t + 1000 * s) r))\<rparr>"

lemma mem_redis_spec: "redis_spec mem_redis mem_live"
  by (auto simp: redis_spec_def mem_redis_def mem_live_def)

definition demo_platform :: platform where
  "demo_platform = \<lparr>pf_sha256 = (\<lambda>s. ''00''), pf_hmac = (\<lambda>k d. ''ab''),
     pf_utc = (\<lambda>t. \<lparr>utc_year = 2024, utc_month = 0, utc_day = 1, utc_hours = 0, utc_minutes = 0,
       utc_seconds = 0\<rparr>)\<rparr>"

definition demo_row :: ApiKeyRow where
  "demo_row = \<lparr>row_keyId = ''k'', row_secretHash = ''s'', row_previousSecretHash = None,
     row_rotationGraceEndsAt = None, row_status = ''ACTIVE'', row_accountId = ''a'',
     row_accountStatus = ''ACTIVE'', row_scopes = [''*''], row_expiresAt = None,
     row_rateLimitPerMinute = LInt 60\<rparr>"

definition demo_params :: "string \<Rightarrow> ValidateApiKeyParams" where
  "demo_params sig = \<lparr>vp_keyId = ''k'', vp_signature = sig, vp_meth = ''GET'', vp_path = ''/'',
     vp_query = [], vp_body = [], vp_requestId = ''q'', vp_timestamp = 0,
     vp_requiredScope = ''invoke'', vp_ip = []\<rparr>"

definition demo_at :: "time \<Rightarrow> instants" where
  "demo_at t = \<lparr>at_start = t, at_check = t, at_mark = t\<rparr>"

lemmas demo_simps = demo_platform_def demo_row_def demo_params_def demo_at_def mem_redis_def
  mem_live_def load_cached_def loadFromCache_def writeCache_def rowToCache_def markRequestId_def
  incrementRateLimit_def incrementUsage_def signature_valid_def verify_hash_def
  timingSafeEqual_def isConnectableAccountStatus_def CONNECTABLE_ACCOUNT_STATUSES_def
  toRateLimit_def toStoredRateLimit_def SIGNATURE_WINDOW_MS_def validate_defs gw_valid_def Let_def

lemma demo_accepted:
  "fst (ValidateApiKey_execute demo_platform mem_redis (\<lambda>_. Some demo_row) (demo_at 0)
     (demo_params ''ab'') []) = GwValid ''k'' ''a'' [''*''] 60"
  by (simp add: demo_simps)

theorem ValidateApiKey_sound_witness:
  "\<exists>r' (cached :: CachedKeyData). ValidateApiKey_execute demo_platform mem_redis (\<lambda>_. Some demo_row) (demo_at 0)
     (demo_params ''ab'') [] = (GwValid ''k'' ''a'' [''*''] 60, r') \<and>
     ck_accountId cached = ''a'' \<and> ck_status cached \<noteq> ''REVOKED''"
proof -
  let ?run = "ValidateApiKey_execute demo_platform mem_redis (\<lambda>_. Some demo_row) (demo_at 0)
     (demo_params ''ab'') []"
  have run: "?run = (GwValid ''k'' ''a'' [''*''] 60, snd ?run)"
    using demo_accepted by (simp add: prod_eq_iff)
  from ValidateApiKey_sound [OF this] obtain cached :: CachedKeyData
    where "ck_status cached \<noteq> ''REVOKED''" and "''a'' = ck_accountId cached"
    by (elim exE conjE) (erule that, assumption)
  with run show ?thesis by (intro exI conjI) simp_all
qed

theorem replay_rejected_witness:
  "\<not> gw_valid (fst (ValidateApiKey_execute demo_platform mem_redis (\<lambda>_. Some demo_row) (demo_at 1000)
     (demo_params ''ab'')
     (run_requests demo_platform mem_redis (\<lambda>_. Some demo_row) [(demo_at 500, demo_params ''cd'')]
       (snd (ValidateApiKey_execute demo_platform mem_redis (\<lambda>_. Some demo_row) (demo_at 0)
          (demo_params ''ab'') [])))))"
proof -
  let ?run = "ValidateApiKey_execute demo_platform mem_redis (\<lambda>_. Some demo_row) (demo_at 0)
     (demo_params ''ab'') []"
  have run: "?run = (GwValid ''k'' ''a'' [''*''] 60, snd ?run)"
    using demo_accepted by (simp add: prod_eq_iff)
  show ?thesis
    by (rule replay_rejected [OF mem_redis_spec run])
      (simp_all add: gw_valid_def demo_params_def demo_at_def)
qed

theorem unauthenticated_leaves_no_mark_witness:
  "mem_live 5 (NS_replay ''k'' ''q'') (snd (ValidateApiKey_execute demo_platform mem_redis
     (\<lambda>_. Some demo_row) (demo_at 0) (demo_params ''cd'') [])) =
   mem_live 5 (NS_replay ''k'' ''q'') []"
  by (rule unauthenticated_leaves_no_mark [OF mem_redis_spec]) (simp add: demo_simps hex_decode.simps hex_digit_def)

end
