(* ===== verification/HubAuth.thy ===== *)
theory HubAuth
  imports ApiKeys AgentRegistry
begin

text \<open>
  \<^verbatim>\<open>apps/hub/src/services/HubAuth.service.ts\<close>, the key loader of \<^verbatim>\<open>apps/hub/src/main.ts\<close> and
  \<^verbatim>\<open>keyRejection\<close> of \<^verbatim>\<open>AccountStatusSweep.service.ts\<close>: who may connect, and who may stay.

  A thrown \<^verbatim>\<open>HubAuthError\<close> is \<open>Inl\<close>; any other exception is \<open>None\<close>. \<^verbatim>\<open>Date.now()\<close> is read
  twice during the agent handshake with no await in between, so both readings are one argument.
\<close>

record HubAuthResult =
  ha_accountId :: string
  ha_keyId :: string
  ha_scopes :: "string list"
  ha_secretFingerprint :: "string option"

record HubAuthError =
  hx_code :: string
  hx_message :: string

definition auth_error :: "string \<Rightarrow> string \<Rightarrow> HubAuthError + 'a" where
  "auth_error code message = Inl \<lparr>hx_code = code, hx_message = message\<rparr>"

definition secretFingerprint :: "platform \<Rightarrow> string \<Rightarrow> string" where
  "secretFingerprint pf secretHashHex = take 16 (pf_sha256 pf secretHashHex)"

section \<open>Loading a key for the handshake\<close>

record KeyHash =
  kh_secretHash :: string
  kh_accountId :: string
  kh_scopes :: "string list"
  kh_status :: string
  kh_accountStatus :: string
  kh_expiresAt :: "time option"
  kh_previousSecretHash :: "string option"
  kh_rotationGraceEndsAt :: "time option"

definition loadKeyHash ::
  "'r redis_api \<Rightarrow> (string \<Rightarrow> ApiKeyRow option io) \<Rightarrow> time \<Rightarrow> string \<Rightarrow> 'r \<Rightarrow> KeyHash option io" where
  "loadKeyHash rd findApiKey now keyId r =
     do {
       cached \<leftarrow> rd_getKey rd now (NS_apiKey keyId) r;
       case cached of
         Some parsed \<Rightarrow> Some (Some \<lparr>kh_secretHash = ck_secretHash parsed, kh_accountId = ck_accountId parsed,
           kh_scopes = ck_scopes parsed, kh_status = ck_status parsed,
           kh_accountStatus = ck_accountStatus parsed, kh_expiresAt = ck_expiresAt parsed,
           kh_previousSecretHash = ck_previousSecretHash parsed,
           kh_rotationGraceEndsAt = ck_rotationGraceEndsAt parsed\<rparr>)
       | None \<Rightarrow> do {
           row \<leftarrow> findApiKey keyId;
           case row of
             None \<Rightarrow> Some None
           | Some row \<Rightarrow> Some (Some \<lparr>kh_secretHash = row_secretHash row, kh_accountId = row_accountId row,
               kh_scopes = row_scopes row, kh_status = row_status row,
               kh_accountStatus = row_accountStatus row, kh_expiresAt = row_expiresAt row,
               kh_previousSecretHash = row_previousSecretHash row,
               kh_rotationGraceEndsAt = row_rotationGraceEndsAt row\<rparr>)
         }
     }"

section \<open>Agent handshake\<close>

definition hash_matches :: "platform \<Rightarrow> string \<Rightarrow> string \<Rightarrow> string \<Rightarrow> bool" where
  "hash_matches pf pepper rawSecret storedHex =
     (let computedHash = hex_decode (pf_hmac pf pepper rawSecret);
          stored = hex_decode storedHex
      in if storedHex = [] then False
         else length stored = length computedHash \<and> timingSafeEqual stored computedHash)"

definition authenticate_with_key ::
  "platform \<Rightarrow> string \<Rightarrow> time \<Rightarrow> AgentRegisterMsg \<Rightarrow> KeyHash \<Rightarrow> HubAuthError + HubAuthResult" where
  "authenticate_with_key pf pepper now msg key =
     (let graceActive = (case kh_rotationGraceEndsAt key of None \<Rightarrow> False | Some e \<Rightarrow> e > now);
          matched = (if hash_matches pf pepper (ar_rawSecret msg) (kh_secretHash key) then Some (kh_secretHash key)
            else (case kh_previousSecretHash key of
                Some prev \<Rightarrow>
                  if graceActive \<and> prev \<noteq> [] \<and> hash_matches pf pepper (ar_rawSecret msg) prev then Some prev
                  else None
              | None \<Rightarrow> None))
      in if kh_status key \<noteq> ''ACTIVE'' then auth_error ''AUTH_FAILED'' ''API key is not active''
         else if \<not> isConnectableAccountStatus (kh_accountStatus key) then
           auth_error ''AUTH_FAILED'' ''Account is not active''
         else if (case kh_expiresAt key of None \<Rightarrow> False | Some e \<Rightarrow> e \<le> now) then
           auth_error ''AUTH_FAILED'' ''API key has expired''
         else (case matched of
             None \<Rightarrow> auth_error ''INVALID_SIGNATURE'' ''HMAC signature verification failed''
           | Some matchedHash \<Rightarrow>
               if \<not> (''*'' \<in> set (kh_scopes key) \<or> ''tunnel:connect'' \<in> set (kh_scopes key)) then
                 auth_error ''SCOPE_MISSING'' ''Key missing tunnel:connect scope''
               else Inr \<lparr>ha_accountId = kh_accountId key, ha_keyId = ar_keyId msg, ha_scopes = kh_scopes key,
                 ha_secretFingerprint = Some (secretFingerprint pf matchedHash)\<rparr>))"

definition authenticateAgent ::
  "platform \<Rightarrow> string \<Rightarrow> (string \<Rightarrow> KeyHash option io) \<Rightarrow> time \<Rightarrow> AgentRegisterMsg \<Rightarrow>
   (HubAuthError + HubAuthResult) io" where
  "authenticateAgent pf pepper load now msg =
     (case load (ar_keyId msg) of
        None \<Rightarrow> None
      | Some None \<Rightarrow> Some (auth_error ''AUTH_FAILED'' ''API key not found'')
      | Some (Some key) \<Rightarrow> Some (authenticate_with_key pf pepper now msg key))"

section \<open>SDK handshake and requests\<close>

definition checkTimestamp :: "time \<Rightarrow> time \<Rightarrow> HubAuthError + unit" where
  "checkTimestamp now ts =
     (let delta = \<bar>now - ts\<bar> in
      if delta > SIGNATURE_WINDOW_MS then
        auth_error ''AUTH_FAILED'' (''Request timestamp is '' @ show_int delta @ ''ms outside the '' @
          show_int SIGNATURE_WINDOW_MS @ ''ms window'')
      else Inr ())"

definition validated ::
  "string \<Rightarrow> GatewayValidationResult \<times> 'r \<Rightarrow> (HubAuthError + HubAuthResult) \<times> 'r" where
  "validated keyId out =
     (case out of
        (GwValid _ accountId scopes _, r) \<Rightarrow>
          (Inr \<lparr>ha_accountId = accountId, ha_keyId = keyId, ha_scopes = scopes, ha_secretFingerprint = None\<rparr>, r)
      | (GwInvalid code reason _, r) \<Rightarrow> (auth_error code reason, r))"

definition sdk_register_params :: "SdkRegisterMsg \<Rightarrow> string \<Rightarrow> ValidateApiKeyParams" where
  "sdk_register_params msg ip = \<lparr>vp_keyId = sr_keyId msg, vp_signature = sr_signature msg,
     vp_meth = ''SDK_REGISTER'', vp_path = ''/sdk/register'', vp_query = [], vp_body = [],
     vp_requestId = sr_requestId msg, vp_timestamp = sr_ts msg, vp_requiredScope = ''tunnel:connect'',
     vp_ip = ip\<rparr>"

definition authenticateSdkRegister ::
  "platform \<Rightarrow> 'r redis_api \<Rightarrow> (string \<Rightarrow> ApiKeyRow option) \<Rightarrow> time \<Rightarrow> instants \<Rightarrow> SdkRegisterMsg \<Rightarrow> string \<Rightarrow>
   'r \<Rightarrow> (HubAuthError + HubAuthResult) \<times> 'r" where
  "authenticateSdkRegister pf rd loadKey now tm msg ip r =
     (case checkTimestamp now (sr_ts msg) of
        Inl e \<Rightarrow> (Inl e, r)
      | Inr _ \<Rightarrow> validated (sr_keyId msg)
          (ValidateApiKey_execute pf rd loadKey tm (sdk_register_params msg ip) r))"

definition sdk_request_params :: "SdkRequestMsg \<Rightarrow> string \<Rightarrow> ValidateApiKeyParams" where
  "sdk_request_params msg ip = \<lparr>vp_keyId = sq_keyId msg, vp_signature = sq_signature msg,
     vp_meth = sq_meth msg, vp_path = sq_path msg, vp_query = sq_query msg,
     vp_body = (case sq_body msg of None \<Rightarrow> [] | Some b \<Rightarrow> b),
     vp_requestId = sq_requestId msg, vp_timestamp = sq_ts msg, vp_requiredScope = ''tunnel:connect'',
     vp_ip = ip\<rparr>"

definition authenticateRequest ::
  "platform \<Rightarrow> 'r redis_api \<Rightarrow> (string \<Rightarrow> ApiKeyRow option) \<Rightarrow> time \<Rightarrow> instants \<Rightarrow> SdkRequestMsg \<Rightarrow> string \<Rightarrow>
   'r \<Rightarrow> (HubAuthError + HubAuthResult) \<times> 'r" where
  "authenticateRequest pf rd loadKey now tm msg ip r =
     (case checkTimestamp now (sq_ts msg) of
        Inl e \<Rightarrow> (Inl e, r)
      | Inr _ \<Rightarrow> validated (sq_keyId msg)
          (ValidateApiKey_execute pf rd loadKey tm (sdk_request_params msg ip) r))"

section \<open>Who may stay\<close>

record KeyState =
  ks_status :: string
  ks_expiresAt :: "time option"
  ks_rotationGraceEndsAt :: "time option"
  ks_secretHash :: "string option"
  ks_previousSecretHash :: "string option"

definition keyRejection :: "platform \<Rightarrow> KeyState option \<Rightarrow> AgentSession \<Rightarrow> time \<Rightarrow> string option" where
  "keyRejection pf key session now =
     (case key of
        None \<Rightarrow> Some ''API key no longer exists''
      | Some key \<Rightarrow>
          if ks_status key = ''REVOKED'' then Some ''API key has been revoked''
          else if ks_status key = ''EXPIRED'' then Some ''API key has expired''
          else if ks_status key \<noteq> ''ACTIVE'' then Some (''API key is '' @ toLowerCase (ks_status key))
          else if (case ks_expiresAt key of None \<Rightarrow> False | Some e \<Rightarrow> e \<le> now) then Some ''API key has expired''
          else (case (as_secretFingerprint session, ks_secretHash key) of
              (Some (c # fp), Some (d # sh)) \<Rightarrow>
                if secretFingerprint pf (d # sh) = c # fp then None
                else (let graceOpen = (case ks_rotationGraceEndsAt key of None \<Rightarrow> False | Some e \<Rightarrow> e > now);
                          isPrevious = (case ks_previousSecretHash key of
                              Some prev \<Rightarrow> prev \<noteq> [] \<and> secretFingerprint pf prev = c # fp
                            | None \<Rightarrow> False)
                      in if \<not> (isPrevious \<and> graceOpen) then
                           Some ''API key was rotated and the old secret's grace period has ended''
                         else None)
            | _ \<Rightarrow> None))"

section \<open>Correctness\<close>

lemma hash_matches_iff:
  "hash_matches pf pepper raw h \<longleftrightarrow> h \<noteq> [] \<and> hex_decode h = hex_decode (pf_hmac pf pepper raw)"
  by (auto simp: hash_matches_def Let_def timingSafeEqual_def)

text \<open>The secret hash a connection may use at a given time.\<close>

definition usable_hash :: "KeyHash \<Rightarrow> time \<Rightarrow> string \<Rightarrow> bool" where
  "usable_hash key now h \<longleftrightarrow> h \<noteq> [] \<and>
     (h = kh_secretHash key \<or>
      kh_previousSecretHash key = Some h \<and> (\<exists>e. kh_rotationGraceEndsAt key = Some e \<and> now < e))"

lemma authenticate_with_key_Inr:
  "authenticate_with_key pf pepper now msg key = Inr res \<Longrightarrow>
   \<exists>h. usable_hash key now h \<and> hex_decode h = hex_decode (pf_hmac pf pepper (ar_rawSecret msg)) \<and>
     kh_status key = ''ACTIVE'' \<and> isConnectableAccountStatus (kh_accountStatus key) \<and>
     (\<forall>e. kh_expiresAt key = Some e \<longrightarrow> now < e) \<and>
     (''*'' \<in> set (kh_scopes key) \<or> ''tunnel:connect'' \<in> set (kh_scopes key)) \<and>
     res = \<lparr>ha_accountId = kh_accountId key, ha_keyId = ar_keyId msg, ha_scopes = kh_scopes key,
       ha_secretFingerprint = Some (secretFingerprint pf h)\<rparr>"
  by (auto simp: authenticate_with_key_def Let_def auth_error_def usable_hash_def hash_matches_iff
      split: if_splits option.splits)

lemma authenticate_with_key_complete:
  assumes "usable_hash key now h" and "hex_decode h = hex_decode (pf_hmac pf pepper (ar_rawSecret msg))"
    and "kh_status key = ''ACTIVE''" and "isConnectableAccountStatus (kh_accountStatus key)"
    and "\<forall>e. kh_expiresAt key = Some e \<longrightarrow> now < e"
    and "''*'' \<in> set (kh_scopes key) \<or> ''tunnel:connect'' \<in> set (kh_scopes key)"
  shows "\<exists>res. authenticate_with_key pf pepper now msg key = Inr res"
  using assms
  by (auto simp: authenticate_with_key_def Let_def auth_error_def usable_hash_def hash_matches_iff
      split: option.split)

text \<open>
  an agent is admitted exactly when it should be. The handshake succeeds if and only if the key
  is found, ACTIVE, not expired, its account may connect, it has the tunnel scope, and the peppered
  HMAC of the secret the agent presents is the key's stored hash or, only during the rotation grace
  window, its previous one; the result then names that key's account and the key the agent asked for.
\<close>

theorem authenticateAgent_iff:
  "(\<exists>res. authenticateAgent pf pepper load now msg = Some (Inr res) \<and>
      ha_accountId res = acct \<and> ha_keyId res = keyId) \<longleftrightarrow>
   (\<exists>key h. load (ar_keyId msg) = Some (Some key) \<and> kh_accountId key = acct \<and> ar_keyId msg = keyId \<and>
      kh_status key = ''ACTIVE'' \<and> isConnectableAccountStatus (kh_accountStatus key) \<and>
      \<not> (\<exists>e \<le> now. kh_expiresAt key = Some e) \<and>
      (''*'' \<in> set (kh_scopes key) \<or> ''tunnel:connect'' \<in> set (kh_scopes key)) \<and>
      usable_hash key now h \<and> hex_decode h = hex_decode (pf_hmac pf pepper (ar_rawSecret msg)))"
  (is "?L \<longleftrightarrow> ?R")
proof
  assume ?L
  then obtain res key where load: "load (ar_keyId msg) = Some (Some key)"
    and auth: "authenticate_with_key pf pepper now msg key = Inr res"
    and res: "ha_accountId res = acct" "ha_keyId res = keyId"
    by (auto simp: authenticateAgent_def auth_error_def split: option.splits)
  from authenticate_with_key_Inr [OF auth] load res show ?R by fastforce
next
  assume ?R
  then obtain key h where load: "load (ar_keyId msg) = Some (Some key)"
    and key: "kh_accountId key = acct" "ar_keyId msg = keyId"
    and ok: "usable_hash key now h" "hex_decode h = hex_decode (pf_hmac pf pepper (ar_rawSecret msg))"
      "kh_status key = ''ACTIVE''" "isConnectableAccountStatus (kh_accountStatus key)"
      "\<forall>e. kh_expiresAt key = Some e \<longrightarrow> now < e"
      "''*'' \<in> set (kh_scopes key) \<or> ''tunnel:connect'' \<in> set (kh_scopes key)"
    by fastforce
  from authenticate_with_key_complete [OF ok] obtain res
    where auth: "authenticate_with_key pf pepper now msg key = Inr res" by blast
  from authenticate_with_key_Inr [OF this] load key auth show ?L
    by (auto simp: authenticateAgent_def)
qed

text \<open>The state the sweep reads for a key, when nothing changed since the handshake.\<close>

definition key_state_of :: "KeyHash \<Rightarrow> KeyState" where
  "key_state_of key = \<lparr>ks_status = kh_status key, ks_expiresAt = kh_expiresAt key,
     ks_rotationGraceEndsAt = kh_rotationGraceEndsAt key, ks_secretHash = Some (kh_secretHash key),
     ks_previousSecretHash = kh_previousSecretHash key\<rparr>"

text \<open>
  the handshake and the sweep agree. An agent the handshake admits is not one the sweep would
  evict: with the key and account unchanged, the sweep's account check passes and its key check finds
  no reason to reject the session, whichever secret (current, or previous during the grace window) it
  connected with.
\<close>

theorem handshake_sweep_agree:
  assumes "authenticateAgent pf pepper load now msg = Some (Inr res)"
    and "load (ar_keyId msg) = Some (Some key)"
    and "as_secretFingerprint session = ha_secretFingerprint res"
  shows "isConnectableAccountStatus (kh_accountStatus key) \<and>
    keyRejection pf (Some (key_state_of key)) session now = None"
proof -
  have "authenticate_with_key pf pepper now msg key = Inr res"
    using assms(1,2) by (simp add: authenticateAgent_def)
  from authenticate_with_key_Inr [OF this] obtain h where h: "usable_hash key now h"
    and key: "kh_status key = ''ACTIVE''" "isConnectableAccountStatus (kh_accountStatus key)"
      "\<forall>e. kh_expiresAt key = Some e \<longrightarrow> now < e"
    and fp: "ha_secretFingerprint res = Some (secretFingerprint pf h)"
    by auto
  have notexp: "\<not> (case kh_expiresAt key of None \<Rightarrow> False | Some e \<Rightarrow> e \<le> now)"
    using key(3) by (auto split: option.split)
  show ?thesis
    using h key(1,2) notexp fp assms(3)
    by (auto simp: keyRejection_def key_state_of_def usable_hash_def Let_def
        split: option.splits list.splits)
qed

definition demo_key :: KeyHash where
  "demo_key = \<lparr>kh_secretHash = ''ab'', kh_accountId = ''a'', kh_scopes = [''tunnel:connect''],
     kh_status = ''ACTIVE'', kh_accountStatus = ''PAST_DUE'', kh_expiresAt = Some 100,
     kh_previousSecretHash = None, kh_rotationGraceEndsAt = None\<rparr>"

definition demo_register :: AgentRegisterMsg where
  "demo_register = \<lparr>ar_keyId = ''k'', ar_label = ''web'', ar_rawSecret = ''s'', ar_agentVersion = ''1''\<rparr>"

theorem handshake_sweep_agree_witness:
  "isConnectableAccountStatus (kh_accountStatus demo_key) \<and>
   keyRejection demo_platform (Some (key_state_of demo_key))
     (demo_session\<lparr>as_secretFingerprint := Some ''00''\<rparr>) 5 = None"
proof (rule handshake_sweep_agree)
  show "authenticateAgent demo_platform ''p'' (\<lambda>_. Some (Some demo_key)) 5 demo_register =
      Some (Inr \<lparr>ha_accountId = ''a'', ha_keyId = ''k'', ha_scopes = [''tunnel:connect''],
        ha_secretFingerprint = Some ''00''\<rparr>)"
    by (simp add: authenticateAgent_def authenticate_with_key_def demo_key_def demo_register_def
        demo_platform_def hash_matches_def timingSafeEqual_def isConnectableAccountStatus_def
        CONNECTABLE_ACCOUNT_STATUSES_def secretFingerprint_def Let_def list_all2_refl)
qed simp_all

end
