(* ===== verification/UsageLimiter.thy ===== *)
theory UsageLimiter
  imports ApiKeys HubTypes
begin

text \<open>
  \<^verbatim>\<open>apps/hub/src/services/PublicPathUsageLimiter.service.ts\<close> and \<^verbatim>\<open>HubUsage.service.ts\<close>: the
  per-minute limit and the usage count of the public tunnel path.

  \<^verbatim>\<open>checkRequest\<close> awaits the plan lookup and then counts without a further await:
  \<open>cached_limit\<close> and \<open>lookup_limit\<close> are the two ways to the limit, \<open>count_request\<close> is the
  synchronous rest; \<open>now\<close> is the time of the cache check, \<open>later\<close> the time of the count.
\<close>

definition PLAN_CACHE_TTL_MS :: int where "PLAN_CACHE_TTL_MS = 60000"
definition FLUSH_INTERVAL_MS :: int where "FLUSH_INTERVAL_MS = 30000"
definition PUBLIC_USAGE_SENTINEL :: string where "PUBLIC_USAGE_SENTINEL = ''_public''"

record plan_cache_entry =
  pl_limitPerMinute :: enat
  pl_expiresAt :: time

record minute_counter =
  mc_bucket :: string
  mc_count :: nat

record usage_limiter =
  ul_planCache :: "(string, plan_cache_entry) jsmap"
  ul_minuteCounters :: "(string, minute_counter) jsmap"
  ul_monthlyAccumulator :: "(string, nat) jsmap"

record PublicPathRateLimitResult =
  rl_allowed :: bool
  rl_limitPerMinute :: enat
  rl_retryAfterSeconds :: int

definition UsageLimiter_new :: usage_limiter where
  "UsageLimiter_new = \<lparr>ul_planCache = [], ul_minuteCounters = [], ul_monthlyAccumulator = []\<rparr>"

section \<open>HubUsageService\<close>

definition usage_key :: "platform \<Rightarrow> time \<Rightarrow> string \<Rightarrow> string \<Rightarrow> string \<Rightarrow> string" where
  "usage_key pf now accountId keyId metric =
     ''usage:'' @ accountId @ '':'' @ keyId @ '':'' @ metric @ '':'' @ current5MinBucket pf now"

definition HubUsage_increment :: "platform \<Rightarrow> time \<Rightarrow> string \<Rightarrow> string \<Rightarrow> string \<Rightarrow> nat \<Rightarrow> effect list" where
  "HubUsage_increment pf now accountId keyId metric amount =
     [FxRedisIncrBy (usage_key pf now accountId keyId metric) amount (60 * 60 * 25)]"

section \<open>PublicPathUsageLimiter\<close>

definition recordMonthlyUsage :: "string \<Rightarrow> usage_limiter \<Rightarrow> usage_limiter" where
  "recordMonthlyUsage accountId st =
     st\<lparr>ul_monthlyAccumulator := jm_set accountId
       ((case jm_get (ul_monthlyAccumulator st) accountId of None \<Rightarrow> 0 | Some n \<Rightarrow> n) + 1)
       (ul_monthlyAccumulator st)\<rparr>"

definition cached_limit :: "time \<Rightarrow> string \<Rightarrow> usage_limiter \<Rightarrow> enat option" where
  "cached_limit now accountId st =
     (case jm_get (ul_planCache st) accountId of
        Some cached \<Rightarrow> if pl_expiresAt cached > now then Some (pl_limitPerMinute cached) else None
      | None \<Rightarrow> None)"

definition lookup_limit :: "time \<Rightarrow> Plan io \<Rightarrow> string \<Rightarrow> usage_limiter \<Rightarrow> enat \<times> usage_limiter" where
  "lookup_limit now plan accountId st =
     (case plan of
        Some p \<Rightarrow>
          (publicPathRateLimitPerMinute (PLAN_LIMITS p),
           st\<lparr>ul_planCache := jm_set accountId
             \<lparr>pl_limitPerMinute = publicPathRateLimitPerMinute (PLAN_LIMITS p),
              pl_expiresAt = now + PLAN_CACHE_TTL_MS\<rparr> (ul_planCache st)\<rparr>)
      | None \<Rightarrow> (publicPathRateLimitPerMinute (PLAN_LIMITS PRO), st))"

definition getRateLimitPerMinute :: "time \<Rightarrow> Plan io \<Rightarrow> string \<Rightarrow> usage_limiter \<Rightarrow> enat \<times> usage_limiter" where
  "getRateLimitPerMinute now plan accountId st =
     (case cached_limit now accountId st of
        Some limit \<Rightarrow> (limit, st)
      | None \<Rightarrow> lookup_limit now plan accountId st)"

definition secondsUntilNextMinute :: "platform \<Rightarrow> time \<Rightarrow> int" where
  "secondsUntilNextMinute pf now = 60 - int (utc_seconds (pf_utc pf now))"

definition count_request ::
  "platform \<Rightarrow> time \<Rightarrow> enat \<Rightarrow> string \<Rightarrow> usage_limiter \<Rightarrow> PublicPathRateLimitResult \<times> usage_limiter" where
  "count_request pf now limitPerMinute accountId st =
     (if limitPerMinute = \<infinity> then
        (\<lparr>rl_allowed = True, rl_limitPerMinute = limitPerMinute, rl_retryAfterSeconds = 0\<rparr>,
         recordMonthlyUsage accountId st)
      else
        (let bucket = currentMinuteBucket pf now;
             entry = (case jm_get (ul_minuteCounters st) accountId of
               Some e \<Rightarrow> if mc_bucket e \<noteq> bucket then \<lparr>mc_bucket = bucket, mc_count = 0\<rparr> else e
             | None \<Rightarrow> \<lparr>mc_bucket = bucket, mc_count = 0\<rparr>);
             entry = entry\<lparr>mc_count := mc_count entry + 1\<rparr>;
             st = st\<lparr>ul_minuteCounters := jm_set accountId entry (ul_minuteCounters st)\<rparr>
         in if enat (mc_count entry) > limitPerMinute then
              (\<lparr>rl_allowed = False, rl_limitPerMinute = limitPerMinute,
                rl_retryAfterSeconds = secondsUntilNextMinute pf now\<rparr>, st)
            else
              (\<lparr>rl_allowed = True, rl_limitPerMinute = limitPerMinute, rl_retryAfterSeconds = 0\<rparr>,
               recordMonthlyUsage accountId st)))"

definition checkRequest ::
  "platform \<Rightarrow> time \<Rightarrow> time \<Rightarrow> Plan io \<Rightarrow> string \<Rightarrow> usage_limiter \<Rightarrow>
   PublicPathRateLimitResult \<times> usage_limiter" where
  "checkRequest pf now later plan accountId st =
     (case getRateLimitPerMinute now plan accountId st of
        (limitPerMinute, st1) \<Rightarrow> count_request pf later limitPerMinute accountId st1)"

definition UsageLimiter_flush :: "platform \<Rightarrow> time \<Rightarrow> usage_limiter \<Rightarrow> usage_limiter \<times> effect list" where
  "UsageLimiter_flush pf now st =
     (st\<lparr>ul_monthlyAccumulator := []\<rparr>,
      concat (map (\<lambda>(accountId, delta).
        if delta > 0 then HubUsage_increment pf now accountId PUBLIC_USAGE_SENTINEL ''requests'' delta else [])
        (ul_monthlyAccumulator st)))"

section \<open>The limit holds\<close>

text \<open>Requests as the limiter sees them: account, time of the count, limit found.\<close>

type_synonym counted = "string \<times> time \<times> enat"

fun run_counts :: "platform \<Rightarrow> counted list \<Rightarrow> usage_limiter \<Rightarrow> bool list \<times> usage_limiter" where
  "run_counts pf [] st = ([], st)"
| "run_counts pf ((accountId, now, limit) # cs) st =
     (case count_request pf now limit accountId st of
        (res, st1) \<Rightarrow> (case run_counts pf cs st1 of (oks, st2) \<Rightarrow> (rl_allowed res # oks, st2)))"

definition bucket_count :: "string \<Rightarrow> string \<Rightarrow> usage_limiter \<Rightarrow> nat" where
  "bucket_count accountId bucket st =
     (case jm_get (ul_minuteCounters st) accountId of
        Some e \<Rightarrow> if mc_bucket e = bucket then mc_count e else 0
      | None \<Rightarrow> 0)"

definition allowed_for :: "string \<Rightarrow> counted list \<Rightarrow> bool list \<Rightarrow> nat" where
  "allowed_for accountId cs oks = length (filter (\<lambda>((a, _), ok). a = accountId \<and> ok) (zip cs oks))"

lemma count_request_other:
  "a \<noteq> b \<Longrightarrow> bucket_count a k (snd (count_request pf now limit b st)) = bucket_count a k st"
  by (auto simp: count_request_def bucket_count_def recordMonthlyUsage_def Let_def split: option.split)

lemma count_request_same:
  assumes "currentMinuteBucket pf now = k"
  shows "bucket_count a k (snd (count_request pf now (enat n) a st)) = Suc (bucket_count a k st) \<and>
    rl_allowed (fst (count_request pf now (enat n) a st)) = (bucket_count a k st < n)"
  using assms
  by (auto simp: count_request_def bucket_count_def recordMonthlyUsage_def Let_def split: option.split)

lemma run_counts_length: "length (fst (run_counts pf cs st)) = length cs"
  by (induction pf cs st rule: run_counts.induct) (auto split: prod.split)

text \<open>
  the public path never exceeds the plan's limit, and is not stricter than it. Among any requests
  to any accounts, if those of one account fall into one minute and find the limit n, then exactly
  the first n of them (counting the ones already seen in that minute) are let through, whatever other
  accounts do.
\<close>

theorem public_limit_exact:
  assumes "\<forall>(b, now, limit) \<in> set cs. b = a \<longrightarrow> currentMinuteBucket pf now = k \<and> limit = enat n"
  shows "allowed_for a cs (fst (run_counts pf cs st)) =
    min (n - bucket_count a k st) (length (filter (\<lambda>(b, _). b = a) cs))"
  using assms
proof (induction cs arbitrary: st)
  case Nil
  then show ?case by (simp add: allowed_for_def)
next
  case (Cons c cs)
  obtain b now limit where c: "c = (b, now, limit)" by (cases c)
  obtain res st1 where r: "count_request pf now limit b st = (res, st1)" by fastforce
  obtain oks st2 where r2: "run_counts pf cs st1 = (oks, st2)" by fastforce
  have IH: "allowed_for a cs oks = min (n - bucket_count a k st1) (length (filter (\<lambda>(b, _). b = a) cs))"
    using Cons.IH [of st1] Cons.prems r2 by simp
  show ?case
  proof (cases "b = a")
    case False
    with count_request_other [of a b k pf now limit st] r have "bucket_count a k st1 = bucket_count a k st" by simp
    with False IH show ?thesis by (simp add: c r r2 allowed_for_def)
  next
    case True
    with Cons.prems c have "currentMinuteBucket pf now = k" "limit = enat n" by auto
    with count_request_same [of pf now k a n st] r True
    have "bucket_count a k st1 = Suc (bucket_count a k st)" "rl_allowed res = (bucket_count a k st < n)"
      by simp_all
    with IH r [unfolded True] show ?thesis
      by (auto simp: True c r2 allowed_for_def min_def)
  qed
qed

theorem public_limit_exact_witness:
  "allowed_for ''a'' [(''a'', 0, 1), (''b'', 0, 5), (''a'', 7, 1)]
     (fst (run_counts demo_platform [(''a'', 0, 1), (''b'', 0, 5), (''a'', 7, 1)] UsageLimiter_new)) = 1"
proof -
  have "allowed_for ''a'' [(''a'', 0, 1), (''b'', 0, 5), (''a'', 7, 1)]
     (fst (run_counts demo_platform [(''a'', 0, 1), (''b'', 0, 5), (''a'', 7, 1)] UsageLimiter_new)) =
    min (1 - bucket_count ''a'' (currentMinuteBucket demo_platform 0) UsageLimiter_new)
      (length (filter (\<lambda>(b, _). b = ''a'') [(''a'', 0 :: time, 1 :: enat), (''b'', 0, 5), (''a'', 7, 1)]))"
    by (rule public_limit_exact)
      (simp add: currentMinuteBucket_def demo_platform_def one_enat_def)
  then show ?thesis by (simp add: bucket_count_def UsageLimiter_new_def)
qed

section \<open>Usage is counted once\<close>

definition accumulated :: "string \<Rightarrow> usage_limiter \<Rightarrow> nat" where
  "accumulated a st = (case jm_get (ul_monthlyAccumulator st) a of None \<Rightarrow> 0 | Some n \<Rightarrow> n)"

lemma count_request_accumulates:
  "accumulated a (snd (count_request pf now limit b st)) =
     accumulated a st + (if a = b \<and> rl_allowed (fst (count_request pf now limit b st)) then 1 else 0)"
  by (auto simp: count_request_def accumulated_def recordMonthlyUsage_def Let_def split: option.split)

lemma run_counts_accumulates:
  "accumulated a (snd (run_counts pf cs st)) =
     accumulated a st + allowed_for a cs (fst (run_counts pf cs st))"
proof (induction cs arbitrary: st)
  case Nil
  then show ?case by (simp add: allowed_for_def)
next
  case (Cons c cs)
  obtain b now limit where c: "c = (b, now, limit)" by (cases c)
  obtain res st1 where r: "count_request pf now limit b st = (res, st1)" by fastforce
  obtain oks st2 where r2: "run_counts pf cs st1 = (oks, st2)" by fastforce
  from Cons.IH [of st1] count_request_accumulates [of a pf now limit b st] show ?case
    by (simp add: c r r2 allowed_for_def)
qed

definition limiter_ok :: "usage_limiter \<Rightarrow> bool" where
  "limiter_ok st = jm_ok (ul_monthlyAccumulator st)"

lemma limiter_ok_count: "limiter_ok st \<Longrightarrow> limiter_ok (snd (count_request pf now limit a st))"
  by (auto simp: limiter_ok_def count_request_def recordMonthlyUsage_def Let_def)

lemma limiter_ok_run: "limiter_ok st \<Longrightarrow> limiter_ok (snd (run_counts pf cs st))"
proof (induction cs arbitrary: st)
  case Nil
  then show ?case by simp
next
  case (Cons c cs)
  obtain b now limit where c: "c = (b, now, limit)" by (cases c)
  from Cons.IH [OF limiter_ok_count [OF Cons.prems, of pf now limit b]] show ?case
    by (simp add: c split_beta)
qed

lemma usage_key_inject:
  assumes "CHR '':'' \<notin> set a" and "CHR '':'' \<notin> set b" and "usage_key pf now a k m = usage_key pf now b k m"
  shows "a = b"
  using assms by (simp add: usage_key_def sep_inject)

lemma flush_total:
  assumes "distinct (map fst m)" and "CHR '':'' \<notin> set a" and "\<forall>(b, n) \<in> set m. CHR '':'' \<notin> set b"
  shows "sum_list (map (\<lambda>fx. case fx of FxRedisIncrBy key n _ \<Rightarrow>
      if key = usage_key pf now a PUBLIC_USAGE_SENTINEL ''requests'' then n else 0 | _ \<Rightarrow> 0)
    (concat (map (\<lambda>(accountId, delta).
      if delta > 0 then HubUsage_increment pf now accountId PUBLIC_USAGE_SENTINEL ''requests'' delta else []) m))) =
   (case map_of m a of None \<Rightarrow> 0 | Some n \<Rightarrow> n)"
  using assms
proof (induction m)
  case Nil
  then show ?case by simp
next
  case (Cons p m)
  obtain b n where p: "p = (b, n)" by fastforce
  have key: "usage_key pf now b PUBLIC_USAGE_SENTINEL ''requests'' =
      usage_key pf now a PUBLIC_USAGE_SENTINEL ''requests'' \<longleftrightarrow> b = a"
    using Cons.prems p usage_key_inject by (auto simp: usage_key_def)
  have "map_of m a = None" if "b = a"
    using Cons.prems(1) p that by (auto simp: map_of_eq_None_iff)
  with Cons p key show ?case by (auto simp: HubUsage_increment_def)
qed

definition flushed_for :: "platform \<Rightarrow> time \<Rightarrow> string \<Rightarrow> effect list \<Rightarrow> nat" where
  "flushed_for pf now a fxs =
     sum_list (map (\<lambda>fx. case fx of FxRedisIncrBy key n _ \<Rightarrow>
      if key = usage_key pf now a PUBLIC_USAGE_SENTINEL ''requests'' then n else 0 | _ \<Rightarrow> 0) fxs)"

text \<open>
  Usage is billed exactly. Starting with an empty accumulator, after any sequence of requests to
  any accounts, one flush adds to each account's counter exactly the number of its requests that were
  let through (refused ones count nothing), and leaves the accumulator empty, so a second
  flush adds nothing. Account ids contain no colon.
\<close>

theorem usage_counted_once:
  assumes "ul_monthlyAccumulator st = []"
    and "\<forall>(b, c) \<in> set cs. CHR '':'' \<notin> set b" and "CHR '':'' \<notin> set a"
  shows "flushed_for pf now a (snd (UsageLimiter_flush pf now (snd (run_counts pf' cs st)))) =
      allowed_for a cs (fst (run_counts pf' cs st)) \<and>
    ul_monthlyAccumulator (fst (UsageLimiter_flush pf now (snd (run_counts pf' cs st)))) = []"
proof -
  let ?st = "snd (run_counts pf' cs st)"
  have ok: "limiter_ok ?st" by (rule limiter_ok_run) (simp add: limiter_ok_def assms(1))
  have "set (jm_keys (ul_monthlyAccumulator (snd (run_counts pf' cs st)))) \<subseteq>
      set (jm_keys (ul_monthlyAccumulator st)) \<union> fst ` set cs" for st
  proof (induction cs arbitrary: st)
    case Nil
    then show ?case by simp
  next
    case (Cons c cs)
    obtain b now limit where c: "c = (b, now, limit)" by (cases c)
    have "set (jm_keys (ul_monthlyAccumulator (snd (count_request pf' now limit b st)))) \<subseteq>
        insert b (set (jm_keys (ul_monthlyAccumulator st)))"
      by (auto simp: count_request_def recordMonthlyUsage_def Let_def dom_update)
    with Cons [of "snd (count_request pf' now limit b st)"] show ?case
      by (auto simp: c split_beta)
  qed
  from this [of st] have sub: "set (jm_keys (ul_monthlyAccumulator ?st)) \<subseteq> fst ` set cs"
    by (simp add: assms(1))
  have keys: "\<forall>(b, n) \<in> set (ul_monthlyAccumulator ?st). CHR '':'' \<notin> set b"
  proof clarify
    fix b n assume "(b, n) \<in> set (ul_monthlyAccumulator ?st)" and colon: "CHR '':'' \<in> set b"
    then have "b \<in> set (jm_keys (ul_monthlyAccumulator ?st))" by (simp add: rev_image_eqI)
    with sub have "b \<in> fst ` set cs" by blast
    then obtain c where "(b, c) \<in> set cs" by auto
    with assms(2) colon show False by blast
  qed
  have "flushed_for pf now a (snd (UsageLimiter_flush pf now ?st)) = accumulated a ?st"
    using flush_total [OF _ assms(3) keys, of pf now] ok
    by (simp add: flushed_for_def UsageLimiter_flush_def accumulated_def limiter_ok_def jm_ok_def)
  then show ?thesis
    using run_counts_accumulates [of a pf' cs st] assms(1)
    by (simp add: accumulated_def UsageLimiter_flush_def)
qed

theorem usage_counted_once_witness:
  "flushed_for demo_platform 9 ''a'' (snd (UsageLimiter_flush demo_platform 9
     (snd (run_counts demo_platform [(''a'', 0, 1), (''a'', 7, 1)] UsageLimiter_new)))) =
   allowed_for ''a'' [(''a'', 0, 1), (''a'', 7, 1)]
     (fst (run_counts demo_platform [(''a'', 0, 1), (''a'', 7, 1)] UsageLimiter_new))"
proof -
  have "ul_monthlyAccumulator UsageLimiter_new = []" by (simp add: UsageLimiter_new_def)
  moreover have "\<forall>(b, c) \<in> set [(''a'', 0 :: time, 1 :: enat), (''a'', 7, 1)]. CHR '':'' \<notin> set b" by simp
  moreover have "CHR '':'' \<notin> set ''a''" by simp
  ultimately show ?thesis
    using usage_counted_once [of UsageLimiter_new "[(''a'', 0, 1), (''a'', 7, 1)]" "''a''" demo_platform 9
        demo_platform] by blast
qed

end
