(* ===== verification/HubState.thy ===== *)
theory HubState
  imports AgentRegistry SdkRegistry PendingRegistry TunnelWsRegistry Subdomain HubAuth UsageLimiter
begin

text \<open>
  The hub's state: its registries, the subdomain registry, the public-path limiter, and the
  continuations of fire-and-forget promise chains that have not run yet. \<open>evict_session\<close> is the part
  that every way of dropping an agent shares (\<^verbatim>\<open>onAgentClose\<close>, the heartbeat and the status
  sweep): the registry entry goes and every pending request of the agent is rejected. The locale
  \<open>agent_eviction\<close> is the contract of such an operation, \<open>full_eviction\<close> adds that no tunnel
  WebSocket of the agent survives.
\<close>

record hub_config =
  hc_platform :: platform
  hc_hubInstanceId :: string
  hc_hubDomain :: string
  hc_timeout :: env_number

text \<open>
  What runs when an awaited promise settles: the subdomain registration that follows the session
  upsert of a registration, and the unregistration that follows the slug lookup of a closed agent.
\<close>

datatype deferred =
  DeferSubRegister SubdomainEntry
| DeferSubUnregister string string string \<comment> \<open>label, accountId, agentId\<close>

record hub_state =
  hs_agents :: agent_registry
  hs_sdks :: sdk_registry
  hs_pending :: pending_registry
  hs_tunnels :: tunnel_registry
  hs_sub :: sub_state
  hs_limiter :: usage_limiter
  hs_deferred :: "deferred list"

definition hub_inv :: "hub_state \<Rightarrow> bool" where
  "hub_inv st \<longleftrightarrow> agent_inv (hs_agents st) \<and> sdk_inv (hs_sdks st) \<and> pending_inv (hs_pending st) \<and>
     tunnel_inv (hs_tunnels st)"

text \<open>Every tunnel WebSocket belongs to an agent that is connected.\<close>

definition no_orphans :: "hub_state \<Rightarrow> bool" where
  "no_orphans st \<longleftrightarrow> (\<forall>k e. tunnel_view (hs_tunnels st) k = Some e \<longrightarrow>
     (\<exists>s. registered (hs_agents st) s \<and> as_agentId s = tw_agentId e))"

definition presence_key :: "AgentSession \<Rightarrow> string" where
  "presence_key s = ''hub:agent:'' @ as_accountId s @ '':'' @ as_label s"

definition buildHubError :: "string \<Rightarrow> string \<Rightarrow> string option \<Rightarrow> bool \<Rightarrow> AnyHubMsg" where
  "buildHubError code message requestId fatal =
     MHubError \<lparr>he_code = code, he_message = message, he_requestId = requestId, he_fatal = fatal\<rparr>"

text \<open>A loop whose body changes the state and performs effects.\<close>

fun hub_fold ::
  "('a \<Rightarrow> hub_state \<Rightarrow> hub_state \<times> effect list) \<Rightarrow> 'a list \<Rightarrow> hub_state \<Rightarrow> hub_state \<times> effect list" where
  "hub_fold f [] st = (st, [])"
| "hub_fold f (x # xs) st =
     (case f x st of (st1, fx1) \<Rightarrow> (case hub_fold f xs st1 of (st2, fx2) \<Rightarrow> (st2, fx1 @ fx2)))"

lemma fst_hub_fold: "fst (hub_fold f xs st) = fold (\<lambda>x st. fst (f x st)) xs st"
  by (induction xs arbitrary: st) (auto simp: split_beta)

section \<open>Dropping an agent\<close>

text \<open>
  \<^verbatim>\<open>agentRegistry.evict(accountId, label)\<close> followed by \<^verbatim>\<open>pendingRegistry.rejectAllForAgent\<close>.
\<close>

definition evict_session :: "AgentSession \<Rightarrow> hub_state \<Rightarrow> hub_state \<times> effect list" where
  "evict_session s st =
     (case PendingRegistry_rejectAllForAgent (as_accountId s) (as_label s) (hs_pending st) of
        (_, pending, fx) \<Rightarrow>
          (st\<lparr>hs_agents := snd (AgentRegistry_evict (as_accountId s) (as_label s) (hs_agents st)),
              hs_pending := pending\<rparr>, fx))"

text \<open>\<^verbatim>\<open>httpTunnelHandler.closeAllForAgent\<close>.\<close>

definition close_tunnels :: "string \<Rightarrow> int \<Rightarrow> string \<Rightarrow> hub_state \<Rightarrow> hub_state \<times> effect list" where
  "close_tunnels agentId code reason st =
     (case TunnelWsRegistry_closeAllForAgent agentId (Some (JInt code)) reason (hs_tunnels st) of
        (_, tunnels, fx) \<Rightarrow> (st\<lparr>hs_tunnels := tunnels\<rparr>, fx))"

lemma evict_session_fields [simp]:
  "hs_agents (fst (evict_session s st)) = snd (AgentRegistry_evict (as_accountId s) (as_label s) (hs_agents st))"
  "hs_pending (fst (evict_session s st)) =
     fst (snd (PendingRegistry_rejectAllForAgent (as_accountId s) (as_label s) (hs_pending st)))"
  "hs_tunnels (fst (evict_session s st)) = hs_tunnels st"
  "hs_sdks (fst (evict_session s st)) = hs_sdks st"
  "hs_sub (fst (evict_session s st)) = hs_sub st"
  "hs_deferred (fst (evict_session s st)) = hs_deferred st"
  by (simp_all add: evict_session_def split_beta)

lemma close_tunnels_fields [simp]:
  "hs_agents (fst (close_tunnels a c r st)) = hs_agents st"
  "hs_pending (fst (close_tunnels a c r st)) = hs_pending st"
  "hs_sdks (fst (close_tunnels a c r st)) = hs_sdks st"
  "hs_sub (fst (close_tunnels a c r st)) = hs_sub st"
  "hs_deferred (fst (close_tunnels a c r st)) = hs_deferred st"
  "hs_tunnels (fst (close_tunnels a c r st)) =
     fst (snd (TunnelWsRegistry_closeAllForAgent a (Some (JInt c)) r (hs_tunnels st)))"
  by (simp_all add: close_tunnels_def split_beta)

lemma hub_inv_evict: "hub_inv st \<Longrightarrow> hub_inv (fst (evict_session s st))"
  by (simp add: hub_inv_def agent_inv_evict rejectAll_facts(1))

lemma hub_inv_close_tunnels: "hub_inv st \<Longrightarrow> hub_inv (fst (close_tunnels a c r st))"
  by (simp add: hub_inv_def closeAll_facts(1))

lemma close_tunnels_effects:
  assumes "hub_inv st" and "fx \<in> set (snd (close_tunnels a c r st))"
  shows "\<exists>w c' r'. fx = FxBrowserClose w c' r'"
proof -
  have "fx \<in> set (snd (snd (TunnelWsRegistry_closeAllForAgent a (Some (JInt c)) r (hs_tunnels st))))"
    using assms(2) by (simp add: close_tunnels_def split_beta)
  then show ?thesis
    using closeAll_facts(3) [of "hs_tunnels st" a "Some (JInt c)" r] assms(1) by (auto simp: hub_inv_def)
qed

lemma tunnels_after_close:
  assumes "hub_inv st"
  shows "tunnel_view (hs_tunnels (fst (close_tunnels a c r st))) k =
    (case tunnel_view (hs_tunnels st) k of Some e \<Rightarrow> if tw_agentId e = a then None else Some e | None \<Rightarrow> None)"
  using assms closeAll_facts(2) by (simp add: hub_inv_def)

text \<open>
  Dropping a registered session orphans at most its own tunnels, and closing them leaves none.
\<close>

lemma evict_orphans:
  assumes inv: "hub_inv st" and reg: "registered (hs_agents st) s" and no: "no_orphans st"
    and e: "tunnel_view (hs_tunnels st) k = Some e" and ne: "tw_agentId e \<noteq> as_agentId s"
  shows "\<exists>s'. registered (snd (AgentRegistry_evict (as_accountId s) (as_label s) (hs_agents st))) s' \<and>
    as_agentId s' = tw_agentId e"
proof -
  obtain s' where s': "registered (hs_agents st) s'" "as_agentId s' = tw_agentId e"
    using no e by (auto simp: no_orphans_def)
  have "session_key s' \<noteq> (as_accountId s, as_label s)"
    using registered_key [OF reg s'(1)] s'(2) ne by (auto simp: session_key_def)
  with s' show ?thesis by (auto simp: registered_evict)
qed

lemma no_orphans_evict_close:
  assumes inv: "hub_inv st" and reg: "registered (hs_agents st) s" and no: "no_orphans st"
    and agents: "hs_agents st' = snd (AgentRegistry_evict (as_accountId s) (as_label s) (hs_agents st))"
    and tunnels: "\<And>k. tunnel_view (hs_tunnels st') k =
      (case tunnel_view (hs_tunnels st) k of
         Some e \<Rightarrow> if tw_agentId e = as_agentId s then None else Some e | None \<Rightarrow> None)"
  shows "no_orphans st'"
  unfolding no_orphans_def agents
proof (intro allI impI)
  fix k e assume "tunnel_view (hs_tunnels st') k = Some e"
  then have "tunnel_view (hs_tunnels st) k = Some e" "tw_agentId e \<noteq> as_agentId s"
    by (auto simp: tunnels split: option.splits if_splits)
  then show "\<exists>s'. registered (snd (AgentRegistry_evict (as_accountId s) (as_label s) (hs_agents st))) s' \<and>
    as_agentId s' = tw_agentId e"
    by (rule evict_orphans [OF inv reg no])
qed

section \<open>The eviction contract\<close>

text \<open>
  What the rest of the hub relies on when an agent is dropped: the session is gone, no other session
  is touched, every request that was waiting for it is removed and answered, and requests waiting
  for other agents still wait.
\<close>

locale agent_eviction =
  fixes drop :: "AgentSession \<Rightarrow> hub_state \<Rightarrow> hub_state \<times> effect list"
  assumes drop_inv: "hub_inv st \<Longrightarrow> hub_inv (fst (drop s st))"
    and drop_agents: "hub_inv st \<Longrightarrow>
      hs_agents (fst (drop s st)) = snd (AgentRegistry_evict (as_accountId s) (as_label s) (hs_agents st))"
    and drop_pending: "hub_inv st \<Longrightarrow> hs_pending (fst (drop s st)) =
      fst (snd (PendingRegistry_rejectAllForAgent (as_accountId s) (as_label s) (hs_pending st)))"
    and drop_effects: "hub_inv st \<Longrightarrow> \<exists>pre post. snd (drop s st) = pre @
      snd (snd (PendingRegistry_rejectAllForAgent (as_accountId s) (as_label s) (hs_pending st))) @ post"
begin

lemma dropped_gone:
  assumes "hub_inv st"
  shows "agent_view (hs_agents (fst (drop s st))) = (agent_view (hs_agents st))(session_key s := None)"
  using assms by (simp add: drop_agents view_evict session_key_def)

lemma dropped_waiting:
  assumes "hub_inv st"
  shows "jm_get (pd_pending (hs_pending (fst (drop s st)))) k =
    (case jm_get (pd_pending (hs_pending st)) k of
       Some req \<Rightarrow> if for_agent (as_accountId s) (as_label s) req then None else Some req
     | None \<Rightarrow> None)"
  using assms rejectAll_facts(2) by (simp add: drop_pending hub_inv_def)

lemma dropped_answered:
  assumes "hub_inv st" and "jm_get (pd_pending (hs_pending st)) k = Some req"
    and "for_agent (as_accountId s) (as_label s) req"
  shows "\<exists>fx \<in> set (snd (drop s st)). answers (target_of (pr_reply req)) fx"
proof -
  let ?msg = "''Agent disconnected while processing your request''"
  have "(k, req) \<in> set (pd_pending (hs_pending st))" using assms(2) by (rule map_of_SomeD)
  then have "set (run_reject req ''AGENT_DISCONNECTED'' ?msg) \<subseteq>
      set (snd (snd (PendingRegistry_rejectAllForAgent (as_accountId s) (as_label s) (hs_pending st))))"
    using assms(3) by (fastforce simp: PendingRegistry_rejectAllForAgent_def Let_def)
  moreover have "filter (answers (target_of (pr_reply req))) (run_reject req ''AGENT_DISCONNECTED'' ?msg) \<noteq> []"
    using reject_answers [of "target_of (pr_reply req)" req] by (metis length_0_conv one_neq_zero)
  then obtain fx where "fx \<in> set (run_reject req ''AGENT_DISCONNECTED'' ?msg)"
    "answers (target_of (pr_reply req)) fx" by (auto simp: filter_empty_conv)
  moreover obtain pre post where "snd (drop s st) = pre @
      snd (snd (PendingRegistry_rejectAllForAgent (as_accountId s) (as_label s) (hs_pending st))) @ post"
    using drop_effects [OF assms(1), of s] by blast
  ultimately have "fx \<in> set (snd (drop s st))" by auto
  with \<open>answers (target_of (pr_reply req)) fx\<close> show ?thesis by blast
qed

end

locale full_eviction = agent_eviction +
  assumes drop_tunnels: "hub_inv st \<Longrightarrow> tunnel_view (hs_tunnels (fst (drop s st))) k =
    (case tunnel_view (hs_tunnels st) k of
       Some e \<Rightarrow> if tw_agentId e = as_agentId s then None else Some e | None \<Rightarrow> None)"
begin

lemma drop_no_orphans:
  assumes "hub_inv st" and "registered (hs_agents st) s" and "no_orphans st"
  shows "no_orphans (fst (drop s st))"
  using assms drop_agents drop_tunnels by (intro no_orphans_evict_close [OF assms]) auto

end


section \<open>Loops of evictions\<close>

context agent_eviction
begin

lemma drop_many:
  assumes "hub_inv st"
  shows "hub_inv (fst (hub_fold drop ss st)) \<and>
    agent_view (hs_agents (fst (hub_fold drop ss st))) =
      (\<lambda>k. if k \<in> session_key ` set ss then None else agent_view (hs_agents st) k)"
  using assms
proof (induction ss arbitrary: st)
  case Nil
  then show ?case by simp
next
  case (Cons s ss)
  have "(\<lambda>k. if k \<in> session_key ` set ss then None else ((agent_view (hs_agents st))(session_key s := None)) k) =
      (\<lambda>k. if k \<in> session_key ` set (s # ss) then None else agent_view (hs_agents st) k)"
    by (rule ext) simp
  with Cons.IH [OF drop_inv [OF Cons.prems, of s]] dropped_gone [OF Cons.prems, of s]
  show ?case by (simp only: hub_fold.simps split_beta fst_conv)
qed

end

section \<open>A small hub\<close>

text \<open>One agent, nothing pending; used to show that the hypotheses of the theorems can hold.\<close>

definition demo_hub :: hub_state where
  "demo_hub = \<lparr>hs_agents = fst (AgentRegistry_register demo_session AgentRegistry_new),
     hs_sdks = SdkRegistry_new, hs_pending = PendingRegistry_new, hs_tunnels = TunnelWsRegistry_new,
     hs_sub = \<lparr>sb_store = [], sb_locks = []\<rparr>, hs_limiter = UsageLimiter_new, hs_deferred = []\<rparr>"

lemma demo_hub_inv: "hub_inv demo_hub"
proof -
  have "agent_inv (fst (AgentRegistry_register demo_session AgentRegistry_new))"
    by (rule agent_inv_register [OF agent_inv_new]) (simp add: AgentRegistry_new_def)
  then show ?thesis
    by (simp add: hub_inv_def demo_hub_def sdk_inv_new pending_inv_new tunnel_inv_new)
qed

lemma demo_hub_view: "agent_view (hs_agents demo_hub) (''acc'', ''web'') = Some demo_session"
  by (simp add: demo_hub_def view_register session_key_def demo_session_def)

lemma demo_hub_no_orphans: "no_orphans demo_hub"
  by (simp add: no_orphans_def demo_hub_def TunnelWsRegistry_new_def tunnel_view_def)

end
