(* ===== verification/HttpTunnel.thy ===== *)
theory HttpTunnel
  imports HubState
begin

text \<open>
  \<^verbatim>\<open>apps/hub/src/handlers/HttpTunnel.handler.ts\<close>: HTTP requests and WebSocket upgrades on tunnel
  hosts. \<^verbatim>\<open>handle\<close> is cut at its awaits: \<open>HttpTunnel_parse\<close> up to the subdomain lookup,
  \<open>HttpTunnel_limit\<close> up to and including the rate check, \<open>HttpTunnel_agent\<close> from the agent lookup
  to the body, \<open>HttpTunnel_forward\<close> from the body to the sent message. Between two parts
  the state may change. Values read across an await (the subdomain entry, the agent session) are
  passed on as the code's local variables are. \<open>Inl\<close> carries the effects of an early return.
\<close>

definition MAX_BODY_BYTES :: nat where "MAX_BODY_BYTES = 10 * 1024 * 1024"

record http_request =
  hq_host :: "string option"
  hq_url :: "string option"
  hq_meth :: "string option"
  hq_headers :: headers

section \<open>Reading the request\<close>

definition declared_length :: "http_request \<Rightarrow> int option" where
  "declared_length req =
     parseInt10 (case jm_get (hq_headers req) ''content-length'' of Some v \<Rightarrow> v | None \<Rightarrow> ''0'')"

text \<open>\<^verbatim>\<open>readBody\<close>: the chunks as they arrive; \<open>None\<close> when the limit is exceeded and the promise rejects.\<close>

fun readBody :: "nat \<Rightarrow> nat \<Rightarrow> bytes list \<Rightarrow> bytes option" where
  "readBody maxBytes totalBytes [] = Some []"
| "readBody maxBytes totalBytes (chunk # chunks) =
     (if totalBytes + length chunk > maxBytes then None
      else map_option (\<lambda>rest. chunk @ rest) (readBody maxBytes (totalBytes + length chunk) chunks))"

section \<open>HTTP requests\<close>

definition HttpTunnel_parse ::
  "hub_config \<Rightarrow> http_request \<Rightarrow> response_handle \<Rightarrow> effect list + (string \<times> string)" where
  "HttpTunnel_parse cfg req res =
     (case parseSubdomain (host_subdomain (hc_hubDomain cfg) (hq_host req)) of
        None \<Rightarrow> Inl (sendError res 400
          ''Invalid tunnel URL. Expected format: accountslug--label.vhyxvoid.com'' no_extra)
      | Some (label, accountSlug) \<Rightarrow>
          if \<not> isOriginFormPath (hq_url req) then Inl (sendError res 400 ''Invalid request path'' no_extra)
          else Inr (label, accountSlug))"

definition HttpTunnel_limit ::
  "hub_config \<Rightarrow> time \<Rightarrow> time \<Rightarrow> Plan io \<Rightarrow> http_request \<Rightarrow> response_handle \<Rightarrow> string \<Rightarrow>
   SubdomainEntry option \<Rightarrow> hub_state \<Rightarrow> (effect list + SubdomainEntry) \<times> hub_state" where
  "HttpTunnel_limit cfg now later plan req res label entry st =
     (case entry of
        None \<Rightarrow>
          (Inl (sendError res 404
             (str_join '' '' [''No active tunnel found for \"'' @ host_name (hq_host req) @ ''\".'',
               ''Start the agent with: vhyxvoid --key YOUR_KEY --secret YOUR_SECRET --port YOUR_PORT --label '' @
               label]) no_extra), st)
      | Some entry \<Rightarrow>
          (case checkRequest (hc_platform cfg) now later plan (sn_accountId entry) (hs_limiter st) of
             (rateCheck, limiter) \<Rightarrow>
               (if \<not> rl_allowed rateCheck then
                  Inl (sendError res 429
                    (''Rate limit exceeded: '' @
                     (case rl_limitPerMinute rateCheck of enat n \<Rightarrow> show_nat n | \<infinity> \<Rightarrow> ''Infinity'') @
                     '' requests/min for this account's plan'')
                    \<lparr>ex_headers = [(''Retry-After'', show_int (rl_retryAfterSeconds rateCheck))],
                     ex_retryAfterSeconds = Some (rl_retryAfterSeconds rateCheck)\<rparr>)
                else Inr entry,
                st\<lparr>hs_limiter := limiter\<rparr>)))"

datatype http_admission =
  HttpRefused "effect list"
| HttpStale \<comment> \<open>the entry is stale; its removal was queued and the answer follows when it settles\<close>
| HttpReady AgentSession

definition HttpTunnel_agent ::
  "http_request \<Rightarrow> response_handle \<Rightarrow> string \<Rightarrow> string \<Rightarrow> SubdomainEntry \<Rightarrow> hub_state \<Rightarrow>
   http_admission \<times> hub_state" where
  "HttpTunnel_agent req res label accountSlug entry st =
     (case AgentRegistry_findByAgentId (sn_agentId entry) (hs_agents st) of
        None \<Rightarrow>
          (HttpStale,
           st\<lparr>hs_sub := SubdomainRegistry_unregister label accountSlug (sn_agentId entry) (hs_sub st)\<rparr>)
      | Some agent \<Rightarrow>
          if (case declared_length req of Some n \<Rightarrow> n > int MAX_BODY_BYTES | None \<Rightarrow> False) then
            (HttpRefused (sendError res 413 ''Request body too large. Maximum is 10MB'' no_extra), st)
          else (HttpReady agent, st))"

text \<open>After the removal of a stale entry settled; when it failed, the server answers for the handler.\<close>

definition internal_error :: "response_handle \<Rightarrow> effect list" where
  "internal_error res =
     [FxWriteHead res 500 [(''Content-Type'', ''application/json'')],
      FxEnd res (Some (utf8_encode (''{'' @ json_quote ''error'' @ '':'' @ json_quote ''Internal tunnel error'' @
        '','' @ json_quote ''tunnel'' @ '':true}'')))]"

definition HttpTunnel_stale_done :: "bool \<Rightarrow> response_handle \<Rightarrow> effect list" where
  "HttpTunnel_stale_done failed res =
     (if failed then internal_error res
      else sendError res 503 (str_join '' '' [''Tunnel is registered but agent is not connected.'',
        ''The agent may have disconnected. Please restart it.'']) no_extra)"

definition request_body :: "http_request \<Rightarrow> bytes \<Rightarrow> string option \<times> body_encoding option" where
  "request_body req rawBuffer =
     (if hq_meth req \<noteq> Some ''GET'' \<and> hq_meth req \<noteq> Some ''HEAD'' \<and> length rawBuffer > 0 then
        (let binary = (isBinaryContentType (case jm_get (hq_headers req) ''content-type'' of
                 Some v \<Rightarrow> HOne v | None \<Rightarrow> HNone) = Some True)
         in (Some (buffer_toString binary rawBuffer), Some (if binary then Base64 else Utf8)))
      else (None, None))"

definition forward_message :: "hub_config \<Rightarrow> http_request \<Rightarrow> string \<Rightarrow> bytes \<Rightarrow> TunnelForwardMsg" where
  "forward_message cfg req requestId rawBuffer = \<lparr>
     tf_requestId = requestId,
     tf_meth = (case hq_meth req of Some m \<Rightarrow> m | None \<Rightarrow> ''GET''),
     tf_path = (case hq_url req of Some u \<Rightarrow> u | None \<Rightarrow> ''/''),
     tf_query = [],
     tf_headers = sanitizeHeaders (hq_headers req),
     tf_body = fst (request_body req rawBuffer),
     tf_bodyEncoding = snd (request_body req rawBuffer),
     tf_timeoutMs = getTunnelRequestTimeoutMs (hc_timeout cfg) - 2000\<rparr>"

definition HttpTunnel_forward ::
  "hub_config \<Rightarrow> time \<Rightarrow> bool \<Rightarrow> http_request \<Rightarrow> response_handle \<Rightarrow> string \<Rightarrow> SubdomainEntry \<Rightarrow> AgentSession \<Rightarrow>
   string \<Rightarrow> timer_handle \<Rightarrow> bytes \<Rightarrow> hub_state \<Rightarrow> hub_state \<times> effect list" where
  "HttpTunnel_forward cfg now sendOk req res label entry agent requestId timer rawBuffer st =
     (case admit_request (hc_timeout cfg) ''Agent did not respond in time''
             \<lparr>pr_requestId = requestId, pr_accountId = sn_accountId entry, pr_agentLabel = label,
              pr_keyId = as_keyId agent, pr_enqueuedAt = now, pr_reply = ReplyHttp res timer,
              pr_timer = timer\<rparr> (hs_pending st) of
        (pending, fx) \<Rightarrow>
          if sendOk then
            (st\<lparr>hs_pending := pending\<rparr>,
             fx @ [FxSend (as_ws agent) (MTunnelForward (forward_message cfg req requestId rawBuffer))])
          else
            (case PendingRegistry_reject requestId ''SEND_FAILED'' ''Failed to send request to agent''
                    (clearTimeout timer pending) of
               (_, pending', fx') \<Rightarrow> (st\<lparr>hs_pending := pending'\<rparr>, fx @ [FxClearTimer timer] @ fx')))"

section \<open>WebSocket upgrades\<close>

definition HttpTunnel_ws_parse ::
  "hub_config \<Rightarrow> http_request \<Rightarrow> socket \<Rightarrow> effect list + (string \<times> string)" where
  "HttpTunnel_ws_parse cfg req sock =
     (case parseSubdomain (host_subdomain (hc_hubDomain cfg) (hq_host req)) of
        Some (label, accountSlug) \<Rightarrow>
          if isOriginFormPath (hq_url req) then Inr (label, accountSlug)
          else Inl [FxRawWrite sock ''HTTP/1.1 400 Bad Request'', FxRawDestroy sock]
      | None \<Rightarrow> Inl [FxRawWrite sock ''HTTP/1.1 400 Bad Request'', FxRawDestroy sock])"

definition HttpTunnel_ws_open ::
  "time \<Rightarrow> http_request \<Rightarrow> socket \<Rightarrow> socket \<Rightarrow> SubdomainEntry option \<Rightarrow> string \<Rightarrow> hub_state \<Rightarrow>
   hub_state \<times> effect list" where
  "HttpTunnel_ws_open now req sock browserWs entry connectionId st =
     (case entry of
        None \<Rightarrow> (st, [FxRawWrite sock ''HTTP/1.1 404 Not Found'', FxRawDestroy sock])
      | Some entry \<Rightarrow>
          (case AgentRegistry_findByAgentId (sn_agentId entry) (hs_agents st) of
             None \<Rightarrow> (st, [FxRawWrite sock ''HTTP/1.1 503 Service Unavailable'', FxRawDestroy sock])
           | Some agent \<Rightarrow>
               (st\<lparr>hs_tunnels := TunnelWsRegistry_add
                   \<lparr>tw_connectionId = connectionId, tw_accountId = sn_accountId entry,
                    tw_agentId = as_agentId agent, tw_browserWs = browserWs, tw_openedAt = now\<rparr>
                   (hs_tunnels st)\<rparr>,
                [FxSend (as_ws agent) (MTunnelWsOpen
                   \<lparr>wo_connectionId = connectionId,
                    wo_path = (case hq_url req of Some u \<Rightarrow> u | None \<Rightarrow> ''/''),
                    wo_query = [], wo_headers = sanitizeHeaders (hq_headers req)\<rparr>)])))"

definition notifyAgentClosed ::
  "string \<Rightarrow> string \<Rightarrow> js_number option \<Rightarrow> string \<Rightarrow> hub_state \<Rightarrow> effect list" where
  "notifyAgentClosed agentId connectionId code reason st =
     (case AgentRegistry_findByAgentId agentId (hs_agents st) of
        None \<Rightarrow> []
      | Some owner \<Rightarrow>
          [FxSend (as_ws owner) (MTunnelWsClose \<lparr>wc_connectionId = connectionId,
             wc_code = Some (JInt (toSendableCloseCode code)), wc_reason = reason\<rparr>)])"

definition teardown ::
  "string \<Rightarrow> js_number option \<Rightarrow> string \<Rightarrow> bool \<Rightarrow> hub_state \<Rightarrow> hub_state \<times> effect list" where
  "teardown connectionId code reason notifyAgent st =
     (case TunnelWsRegistry_delete connectionId (hs_tunnels st) of
        (None, _) \<Rightarrow> (st, [])
      | (Some entry, tunnels) \<Rightarrow>
          (st\<lparr>hs_tunnels := tunnels\<rparr>,
           closeBrowserSocket (tw_browserWs entry) code reason @
           (if notifyAgent then notifyAgentClosed (tw_agentId entry) connectionId code reason st else [])))"

text \<open>The browser's frames; \<open>agentId\<close> is that of the agent found at the upgrade.\<close>

definition browser_message ::
  "bool \<Rightarrow> string \<Rightarrow> string \<Rightarrow> bool \<Rightarrow> bytes \<Rightarrow> hub_state \<Rightarrow> hub_state \<times> effect list" where
  "browser_message sendOk connectionId agentId isBinary payload st =
     (case AgentRegistry_findByAgentId agentId (hs_agents st) of
        None \<Rightarrow> teardown connectionId (Some (JInt 1012)) ''Tunnel agent disconnected'' False st
      | Some owner \<Rightarrow>
          if sendOk then
            (st, [FxSend (as_ws owner) (MTunnelWsMessage \<lparr>wm_connectionId = connectionId,
               wm_data = buffer_toString isBinary payload, wm_isBinary = isBinary\<rparr>)])
          else teardown connectionId (Some (JInt 1011)) ''Tunnel send failed'' False st)"

definition browser_close ::
  "string \<Rightarrow> string \<Rightarrow> js_number option \<Rightarrow> string \<Rightarrow> hub_state \<Rightarrow> hub_state \<times> effect list" where
  "browser_close connectionId agentId code reason st =
     (case TunnelWsRegistry_delete connectionId (hs_tunnels st) of
        (None, _) \<Rightarrow> (st, [])
      | (Some entry, tunnels) \<Rightarrow>
          (st\<lparr>hs_tunnels := tunnels\<rparr>, notifyAgentClosed agentId connectionId code reason st))"

section \<open>Frames from agents\<close>

definition ownedEntry :: "string \<Rightarrow> string \<Rightarrow> hub_state \<Rightarrow> TunnelWsEntry option" where
  "ownedEntry connectionId fromAgentId st =
     (case TunnelWsRegistry_get connectionId (hs_tunnels st) of
        None \<Rightarrow> None
      | Some entry \<Rightarrow> if tw_agentId entry \<noteq> fromAgentId then None else Some entry)"

definition HttpTunnel_handleAgentWsMessage ::
  "(socket \<Rightarrow> bool) \<Rightarrow> TunnelWsMessageMsg \<Rightarrow> string \<Rightarrow> hub_state \<Rightarrow> hub_state \<times> effect list" where
  "HttpTunnel_handleAgentWsMessage isOpen msg fromAgentId st =
     (case ownedEntry (wm_connectionId msg) fromAgentId st of
        None \<Rightarrow> (st, [])
      | Some entry \<Rightarrow>
          if \<not> isOpen (tw_browserWs entry) then (st, [])
          else (st, [FxBrowserSend (tw_browserWs entry) (wm_isBinary msg) (wm_data msg)]))"

definition HttpTunnel_handleAgentWsClose ::
  "TunnelWsCloseMsg \<Rightarrow> string \<Rightarrow> hub_state \<Rightarrow> hub_state \<times> effect list" where
  "HttpTunnel_handleAgentWsClose msg fromAgentId st =
     (case ownedEntry (wc_connectionId msg) fromAgentId st of
        None \<Rightarrow> (st, [])
      | Some _ \<Rightarrow> teardown (wc_connectionId msg) (wc_code msg) (wc_reason msg) False st)"

definition HttpTunnel_handleAgentWsError ::
  "TunnelWsErrorMsg \<Rightarrow> string \<Rightarrow> hub_state \<Rightarrow> hub_state \<times> effect list" where
  "HttpTunnel_handleAgentWsError msg fromAgentId st =
     (case ownedEntry (we_connectionId msg) fromAgentId st of
        None \<Rightarrow> (st, [])
      | Some _ \<Rightarrow> teardown (we_connectionId msg) (Some (JInt 1011)) ''Tunnel backend error'' False st)"

section \<open>Invariants\<close>

lemma hub_inv_limiter [simp]: "hub_inv (st\<lparr>hs_limiter := l\<rparr>) = hub_inv st"
  by (simp add: hub_inv_def)

lemma hub_inv_sub [simp]: "hub_inv (st\<lparr>hs_sub := l\<rparr>) = hub_inv st"
  by (simp add: hub_inv_def)

lemma hub_inv_limit: "hub_inv st \<Longrightarrow> hub_inv (snd (HttpTunnel_limit cfg now later plan req res l e st))"
  by (auto simp: HttpTunnel_limit_def split: option.split prod.split)

lemma hub_inv_agent: "hub_inv st \<Longrightarrow> hub_inv (snd (HttpTunnel_agent req res l slug e st))"
  by (auto simp: HttpTunnel_agent_def split: option.split)

lemma teardown_tunnels:
  "hs_tunnels (fst (teardown k code reason n st)) = snd (TunnelWsRegistry_delete k (hs_tunnels st))"
  by (auto simp: teardown_def TunnelWsRegistry_delete_def split: option.split)

lemma teardown_other [simp]:
  "hs_agents (fst (teardown k code reason n st)) = hs_agents st"
  "hs_pending (fst (teardown k code reason n st)) = hs_pending st"
  "hs_sdks (fst (teardown k code reason n st)) = hs_sdks st"
  by (auto simp: teardown_def split: prod.split option.split)

lemma hub_inv_teardown: "hub_inv st \<Longrightarrow> hub_inv (fst (teardown k code reason n st))"
  by (simp add: hub_inv_def teardown_tunnels tunnel_inv_delete)

lemma no_orphans_teardown: "no_orphans st \<Longrightarrow> no_orphans (fst (teardown k code reason n st))"
  by (auto simp: no_orphans_def teardown_tunnels view_delete split: if_splits)

lemma hub_inv_ws_open:
  assumes "hub_inv st" and "tunnel_view (hs_tunnels st) connectionId = None"
  shows "hub_inv (fst (HttpTunnel_ws_open now req sock b entry connectionId st))"
  using assms
  by (auto simp: HttpTunnel_ws_open_def hub_inv_def tunnel_fresh_def tunnel_view_def
      intro!: tunnel_inv_add split: option.split)

lemma no_orphans_ws_open:
  assumes "hub_inv st" and "no_orphans st"
  shows "no_orphans (fst (HttpTunnel_ws_open now req sock b entry connectionId st))"
proof -
  have ai: "agent_inv (hs_agents st)" using assms(1) by (simp add: hub_inv_def)
  show ?thesis
    using assms(2) findByAgentId_iff [OF ai]
    by (auto simp: HttpTunnel_ws_open_def no_orphans_def view_add split: option.splits if_splits)
qed

section \<open>Who is answered, and when\<close>

text \<open>The fields a request leaves unchanged when it is handed to the agent.\<close>

lemma forward_sent:
  "HttpTunnel_forward cfg now True req res label entry agent requestId timer raw st =
     (st\<lparr>hs_pending := fst (admit_request (hc_timeout cfg) ''Agent did not respond in time''
        \<lparr>pr_requestId = requestId, pr_accountId = sn_accountId entry, pr_agentLabel = label,
         pr_keyId = as_keyId agent, pr_enqueuedAt = now, pr_reply = ReplyHttp res timer,
         pr_timer = timer\<rparr> (hs_pending st))\<rparr>,
      snd (admit_request (hc_timeout cfg) ''Agent did not respond in time''
        \<lparr>pr_requestId = requestId, pr_accountId = sn_accountId entry, pr_agentLabel = label,
         pr_keyId = as_keyId agent, pr_enqueuedAt = now, pr_reply = ReplyHttp res timer,
         pr_timer = timer\<rparr> (hs_pending st)) @
      [FxSend (as_ws agent) (MTunnelForward (forward_message cfg req requestId raw))])"
  by (simp add: HttpTunnel_forward_def split_beta)

lemma admit_view:
  "jm_get (pd_pending (fst (admit_request env message r reg))) = (jm_get (pd_pending reg))(pr_requestId r \<mapsto> r)"
  by (auto simp: admit_request_def PendingRegistry_enqueue_def arm_timer_def fun_eq_iff)

lemma admit_timer:
  "jm_get (pd_timers (fst (admit_request env message r reg))) (pr_timer r) = Some (pr_requestId r, message)"
  by (simp add: admit_request_def PendingRegistry_enqueue_def arm_timer_def)

lemma admit_no_answer: "answer_count tgt (snd (admit_request env message r reg)) = 0"
  by (simp add: admit_request_def PendingRegistry_enqueue_def arm_timer_def)

lemma answers_send_http [simp]: "\<not> answers (TgtHttp res) (FxSend ws m)"
  by (simp add: ends_response_def)

lemma forward_failed:
  assumes "pending_inv (hs_pending st)" and "jm_get (pd_timers (hs_pending st)) timer = None"
    and "jm_get (pd_pending (hs_pending st)) requestId = None"
  shows "pending_inv (hs_pending (fst (HttpTunnel_forward cfg now False req res label entry agent requestId timer raw st)))"
    and "jm_get (pd_pending (hs_pending (fst (HttpTunnel_forward cfg now False req res label entry agent requestId timer raw st)))) =
      jm_get (pd_pending (hs_pending st))"
    and "answer_count (TgtHttp res)
      (snd (HttpTunnel_forward cfg now False req res label entry agent requestId timer raw st)) = 1"
proof -
  let ?r = "\<lparr>pr_requestId = requestId, pr_accountId = sn_accountId entry, pr_agentLabel = label,
         pr_keyId = as_keyId agent, pr_enqueuedAt = now, pr_reply = ReplyHttp res timer, pr_timer = timer\<rparr>"
  let ?p = "fst (admit_request (hc_timeout cfg) ''Agent did not respond in time'' ?r (hs_pending st))"
  have inv: "pending_inv ?p" using assms(1,2) by (intro pending_inv_admit) (auto simp: timer_fresh_def)
  have r: "jm_get (pd_pending (clearTimeout timer ?p)) requestId = Some ?r"
    by (simp add: clearTimeout_def admit_view)
  have drop: "drop_entry ?r requestId (clearTimeout timer ?p) = drop_entry ?r requestId ?p"
    by (simp add: drop_entry_def clearTimeout_def jm_delete_absent)
  have eq: "HttpTunnel_forward cfg now False req res label entry agent requestId timer raw st =
      (st\<lparr>hs_pending := drop_entry ?r requestId ?p\<rparr>,
       snd (admit_request (hc_timeout cfg) ''Agent did not respond in time'' ?r (hs_pending st)) @
       [FxClearTimer timer] @ snd (snd (PendingRegistry_reject requestId ''SEND_FAILED''
          ''Failed to send request to agent'' (clearTimeout timer ?p))))"
    using r drop by (simp add: HttpTunnel_forward_def PendingRegistry_reject_def split_beta)
  have "jm_get (pd_pending ?p) requestId = Some ?r" by (simp add: admit_view)
  then show "pending_inv (hs_pending (fst (HttpTunnel_forward cfg now False req res label entry agent requestId timer raw st)))"
    using pending_inv_drop [OF inv] by (simp add: eq)
  show "jm_get (pd_pending (hs_pending (fst (HttpTunnel_forward cfg now False req res label entry agent requestId timer raw st)))) =
      jm_get (pd_pending (hs_pending st))"
    using assms(3) by (simp add: eq drop_entry_def admit_view fun_eq_iff)
  show "answer_count (TgtHttp res)
      (snd (HttpTunnel_forward cfg now False req res label entry agent requestId timer raw st)) = 1"
    using reject_answers [of "TgtHttp res" ?r] admit_no_answer [of "TgtHttp res"]
    by (simp add: eq PendingRegistry_reject_def r target_of_def ends_response_def)
qed

lemma request_body_roundtrip:
  assumes "is_bytes raw" and "hq_meth req \<noteq> Some ''GET''" and "hq_meth req \<noteq> Some ''HEAD''" and "raw \<noteq> []"
    and "isBinaryContentType (case jm_get (hq_headers req) ''content-type'' of
           Some v \<Rightarrow> HOne v | None \<Rightarrow> HNone) = Some True \<or> (\<exists>s. raw = utf8_encode s)"
  shows "\<exists>body enc. request_body req raw = (Some body, Some enc) \<and> Buffer_from (enc = Base64) body = raw"
proof -
  let ?b = "isBinaryContentType (case jm_get (hq_headers req) ''content-type'' of
           Some v \<Rightarrow> HOne v | None \<Rightarrow> HNone) = Some True"
  have "request_body req raw = (Some (buffer_toString ?b raw), Some (if ?b then Base64 else Utf8))"
    using assms(2-4) by (simp add: request_body_def Let_def)
  moreover have "Buffer_from ?b (buffer_toString ?b raw) = raw"
    using assms(1,5) by (intro buffer_roundtrip) auto
  ultimately show ?thesis by auto
qed

text \<open>
  What the message carries of a request's body: nothing for a GET, a HEAD or an empty body, otherwise
  the text the body is turned into and how to turn it back. A body that is binary by its content type,
  or that is UTF-8 text, comes back as the bytes the browser sent; any other body does not.
\<close>

definition binary_request :: "http_request \<Rightarrow> bool" where
  "binary_request req \<longleftrightarrow> isBinaryContentType (case jm_get (hq_headers req) ''content-type'' of
     Some v \<Rightarrow> HOne v | None \<Rightarrow> HNone) = Some True"

definition carries_body :: "http_request \<Rightarrow> bytes \<Rightarrow> TunnelForwardMsg \<Rightarrow> bool" where
  "carries_body req raw m \<longleftrightarrow>
     (if hq_meth req \<in> {Some ''GET'', Some ''HEAD''} \<or> raw = [] then tf_body m = None \<and> tf_bodyEncoding m = None
      else tf_bodyEncoding m = Some (if binary_request req then Base64 else Utf8) \<and>
        (\<exists>body. tf_body m = Some body \<and>
           (is_bytes raw \<and> (binary_request req \<or> (\<exists>s. raw = utf8_encode s)) \<longrightarrow>
              Buffer_from (binary_request req) body = raw)))"

lemma forward_message_body: "carries_body req raw (forward_message cfg req requestId raw)"
  using buffer_roundtrip [of raw "binary_request req"]
  by (auto simp: carries_body_def forward_message_def request_body_def Let_def binary_request_def)

text \<open>
  C24: forwarding a request, whatever its method, target and body. With a timer and a request id that
  are in use nowhere, the request is registered under its id, for the account and label it came for,
  with its deadline armed, and the agent is sent one message: its method, target and headers are those
  of the request (hop-by-hop headers dropped; \<open>GET\<close> and \<open>/\<close> where Node reports none). A GET, a HEAD or
  an empty body carries no body. Every other body is carried with its encoding, base64 exactly when
  the content type is binary, and decoding gives the bytes the browser sent when the type is binary or
  the bytes are UTF-8 text (of code units below 256); bytes that are neither are altered by the code,
  and nothing is claimed of them. Nothing is answered yet. When the send fails, the caller is answered
  once and the set of pending requests is as before. Both ways the invariant of the hub's state is
  kept.
\<close>

theorem forward_correct:
  assumes "hub_inv st" and "jm_get (pd_timers (hs_pending st)) timer = None"
    and "jm_get (pd_pending (hs_pending st)) requestId = None"
  shows "case HttpTunnel_forward cfg now sendOk req res label entry agent requestId timer raw st of
    (st', fx) \<Rightarrow> hub_inv st' \<and>
      (if sendOk then
         (\<exists>r m. jm_get (pd_pending (hs_pending st')) = (jm_get (pd_pending (hs_pending st)))(requestId \<mapsto> r) \<and>
            for_agent (sn_accountId entry) label r \<and> pr_reply r = ReplyHttp res timer \<and>
            (\<exists>why. jm_get (pd_timers (hs_pending st')) timer = Some (requestId, why)) \<and>
            answer_count (TgtHttp res) fx = 0 \<and>
            filter (\<lambda>f. case f of FxSend _ _ \<Rightarrow> True | _ \<Rightarrow> False) fx = [FxSend (as_ws agent) (MTunnelForward m)] \<and>
            tf_requestId m = requestId \<and>
            tf_meth m = (case hq_meth req of Some meth \<Rightarrow> meth | None \<Rightarrow> ''GET'') \<and>
            tf_path m = (case hq_url req of Some url \<Rightarrow> url | None \<Rightarrow> ''/'') \<and>
            tf_headers m = sanitizeHeaders (hq_headers req) \<and> carries_body req raw m)
       else jm_get (pd_pending (hs_pending st')) = jm_get (pd_pending (hs_pending st)) \<and>
            answer_count (TgtHttp res) fx = 1)"
proof (cases sendOk)
  case True
  let ?r = "\<lparr>pr_requestId = requestId, pr_accountId = sn_accountId entry, pr_agentLabel = label,
         pr_keyId = as_keyId agent, pr_enqueuedAt = now, pr_reply = ReplyHttp res timer, pr_timer = timer\<rparr>"
  let ?adm = "admit_request (hc_timeout cfg) ''Agent did not respond in time'' ?r (hs_pending st)"
  let ?m = "forward_message cfg req requestId raw"
  have "pending_inv (fst ?adm)"
    using assms(1,2) by (intro pending_inv_admit) (auto simp: timer_fresh_def hub_inv_def)
  then have "hub_inv (st\<lparr>hs_pending := fst ?adm\<rparr>)" using assms(1) by (simp add: hub_inv_def)
  moreover have "filter (\<lambda>f. case f of FxSend _ _ \<Rightarrow> True | _ \<Rightarrow> False) (snd ?adm) = []"
    by (simp add: admit_request_def PendingRegistry_enqueue_def)
  moreover have "jm_get (pd_timers (fst ?adm)) timer = Some (requestId, ''Agent did not respond in time'')"
    using admit_timer [of _ _ ?r] by simp
  moreover have "tf_requestId ?m = requestId \<and>
      tf_meth ?m = (case hq_meth req of Some meth \<Rightarrow> meth | None \<Rightarrow> ''GET'') \<and>
      tf_path ?m = (case hq_url req of Some url \<Rightarrow> url | None \<Rightarrow> ''/'') \<and>
      tf_headers ?m = sanitizeHeaders (hq_headers req)"
    by (simp add: forward_message_def)
  ultimately show ?thesis
    using True forward_message_body admit_no_answer [of "TgtHttp res"]
    by (auto simp: forward_sent admit_view for_agent_def ends_response_def intro!: exI [of _ ?r] exI [of _ ?m])
next
  case False
  have pinv: "pending_inv (hs_pending st)" using assms(1) by (simp add: hub_inv_def)
  note ff = forward_failed [OF pinv assms(2,3)]
  have "hub_inv (fst (HttpTunnel_forward cfg now False req res label entry agent requestId timer raw st))"
    using ff(1) assms(1) by (simp add: hub_inv_def HttpTunnel_forward_def split_beta)
  then show ?thesis using ff(2,3) False by (simp add: split_beta)
qed

definition demo_tunnel_entry :: SubdomainEntry where
  "demo_tunnel_entry = \<lparr>sn_agentId = ''agt_1'', sn_accountId = ''acc'', sn_label = ''web'', sn_accountSlug = ''acme'',
     sn_hubInstanceId = ''hub''\<rparr>"

definition demo_config :: hub_config where
  "demo_config = \<lparr>hc_platform = demo_platform, hc_hubInstanceId = ''hub'', hc_hubDomain = ''void.dev'',
     hc_timeout = EnvUnset\<rparr>"

definition demo_post :: http_request where
  "demo_post = \<lparr>hq_host = Some ''acme--web.void.dev'', hq_url = Some ''/api'', hq_meth = Some ''POST'',
     hq_headers = [(''Connection'', ''close'')]\<rparr>"

theorem forward_correct_witness:
  "hub_inv (fst (HttpTunnel_forward demo_config 0 True demo_post 7 ''web'' demo_tunnel_entry demo_session ''req_1'' 3
     (utf8_encode ''hi'') demo_hub))"
  using forward_correct [OF demo_hub_inv, where timer = 3 and requestId = "''req_1''" and cfg = demo_config
    and now = 0 and sendOk = True and req = demo_post and res = 7 and label = "''web''"
    and entry = demo_tunnel_entry and agent = demo_session and raw = "utf8_encode ''hi''"]
  by (auto simp: demo_hub_def PendingRegistry_new_def split_beta)

section \<open>Frames reach only the connection's owner\<close>

definition tunnel_frame_ok ::
  "string \<Rightarrow> string \<Rightarrow> hub_state \<Rightarrow> hub_state \<times> effect list \<Rightarrow> bool" where
  "tunnel_frame_ok connectionId fromAgentId st out \<longleftrightarrow>
     hs_agents (fst out) = hs_agents st \<and> hs_pending (fst out) = hs_pending st \<and>
     (\<forall>k. k \<noteq> connectionId \<longrightarrow> tunnel_view (hs_tunnels (fst out)) k = tunnel_view (hs_tunnels st) k) \<and>
     (case tunnel_view (hs_tunnels st) connectionId of
        Some e \<Rightarrow>
          if tw_agentId e = fromAgentId then
            (\<forall>fx \<in> set (snd out). (\<exists>b d. fx = FxBrowserSend (tw_browserWs e) b d) \<or>
               (\<exists>c r. fx = FxBrowserClose (tw_browserWs e) c r))
          else out = (st, [])
      | None \<Rightarrow> out = (st, []))"

lemma ownedEntry_iff:
  "ownedEntry k a st = Some e \<longleftrightarrow> tunnel_view (hs_tunnels st) k = Some e \<and> tw_agentId e = a"
  by (auto simp: ownedEntry_def TunnelWsRegistry_get_def tunnel_view_def split: option.split)

lemma ownedEntry_None:
  "ownedEntry k a st = None \<longleftrightarrow> (\<forall>e. tunnel_view (hs_tunnels st) k = Some e \<longrightarrow> tw_agentId e \<noteq> a)"
  by (auto simp: ownedEntry_def TunnelWsRegistry_get_def tunnel_view_def split: option.split)

lemma teardown_view:
  "tunnel_view (hs_tunnels (fst (teardown k code reason n st))) = (tunnel_view (hs_tunnels st))(k := None)"
  by (simp add: teardown_tunnels view_delete)

lemma teardown_quiet_effects:
  assumes "tunnel_view (hs_tunnels st) k = Some e"
  shows "snd (teardown k code reason False st) = closeBrowserSocket (tw_browserWs e) code reason"
  using assms delete_result [of k "hs_tunnels st"]
  by (auto simp: teardown_def split: prod.split option.split)

lemma owned_teardown_ok:
  "tunnel_frame_ok k a st (case ownedEntry k a st of None \<Rightarrow> (st, []) | Some _ \<Rightarrow> teardown k code reason False st)"
proof (cases "ownedEntry k a st")
  case None
  then have "\<forall>e. tunnel_view (hs_tunnels st) k = Some e \<longrightarrow> tw_agentId e \<noteq> a" by (simp add: ownedEntry_None)
  with None show ?thesis by (auto simp: tunnel_frame_ok_def split: option.split)
next
  case (Some e)
  then have "tunnel_view (hs_tunnels st) k = Some e" "tw_agentId e = a" by (simp_all add: ownedEntry_iff)
  with Some show ?thesis
    by (auto simp: tunnel_frame_ok_def teardown_view teardown_quiet_effects closeBrowserSocket_def)
qed

text \<open>
  an agent cannot touch a browser connection that is not its own. A message, close or error
  frame for a connection that does not exist or belongs to another agent changes nothing and has no
  effect; one from the owner writes to or closes that connection's browser socket only, leaves every
  other connection in place, and never touches sessions or pending requests.
\<close>

theorem tunnel_frames_only_from_owner:
  "tunnel_frame_ok (wm_connectionId m) agentId st (HttpTunnel_handleAgentWsMessage isOpen m agentId st) \<and>
   tunnel_frame_ok (wc_connectionId c) agentId st (HttpTunnel_handleAgentWsClose c agentId st) \<and>
   tunnel_frame_ok (we_connectionId e) agentId st (HttpTunnel_handleAgentWsError e agentId st)"
proof (intro conjI)
  show "tunnel_frame_ok (wm_connectionId m) agentId st (HttpTunnel_handleAgentWsMessage isOpen m agentId st)"
    by (auto simp: tunnel_frame_ok_def HttpTunnel_handleAgentWsMessage_def ownedEntry_iff ownedEntry_None
        split: option.split)
qed (simp_all add: HttpTunnel_handleAgentWsClose_def HttpTunnel_handleAgentWsError_def owned_teardown_ok)

section \<open>Early answers\<close>

lemma internal_error_ends: "answer_count (TgtHttp res) (internal_error res) = 1"
  by (simp add: internal_error_def ends_response_def)

definition answered_with :: "response_handle \<Rightarrow> int \<Rightarrow> effect list \<Rightarrow> bool" where
  "answered_with res status fx \<longleftrightarrow> (\<exists>h b. fx = [FxWriteHead res status h, FxEnd res (Some b)])"

lemma sendError_answered [simp]: "answered_with res status (sendError res status' m x) = (status' = status)"
  by (auto simp: answered_with_def sendError_def Let_def)

text \<open>
  Every early exit of the public path answers the caller exactly once. The status is 400 for a
  host or path that names no tunnel, 404 for a tunnel nobody registered, 429 over the plan's rate, 503
  (or 500 when Redis fails) for a registered tunnel whose agent is gone, and 413 for a declared body
  over 10 MB; and a request that is let through is let through to the agent the subdomain entry names.
\<close>

theorem early_exits_answer_once:
  "(case HttpTunnel_parse cfg req res of
      Inl fx \<Rightarrow> answered_with res 400 fx
    | Inr (label, slug) \<Rightarrow> parseSubdomain (host_subdomain (hc_hubDomain cfg) (hq_host req)) = Some (label, slug) \<and>
        isOriginFormPath (hq_url req)) \<and>
   (case fst (HttpTunnel_limit cfg now later plan req res label entry st) of
      Inl fx \<Rightarrow> (if entry = None then answered_with res 404 fx
                 else (\<exists>h b. fx = [FxWriteHead res 429 h, FxEnd res (Some b)] \<and>
                   (\<exists>n. jm_get h ''Retry-After'' = Some n)))
    | Inr e \<Rightarrow> entry = Some e \<and>
        rl_allowed (fst (checkRequest (hc_platform cfg) now later plan (sn_accountId e) (hs_limiter st)))) \<and>
   (case fst (HttpTunnel_agent req res label slug e st) of
      HttpRefused fx \<Rightarrow> answered_with res 413 fx
    | HttpStale \<Rightarrow> AgentRegistry_findByAgentId (sn_agentId e) (hs_agents st) = None \<and>
        answered_with res (if failed then 500 else 503) (HttpTunnel_stale_done failed res)
    | HttpReady a \<Rightarrow> AgentRegistry_findByAgentId (sn_agentId e) (hs_agents st) = Some a)"
proof (intro conjI)
  show "case fst (HttpTunnel_agent req res label slug e st) of
      HttpRefused fx \<Rightarrow> answered_with res 413 fx
    | HttpStale \<Rightarrow> AgentRegistry_findByAgentId (sn_agentId e) (hs_agents st) = None \<and>
        answered_with res (if failed then 500 else 503) (HttpTunnel_stale_done failed res)
    | HttpReady a \<Rightarrow> AgentRegistry_findByAgentId (sn_agentId e) (hs_agents st) = Some a"
    by (simp add: HttpTunnel_agent_def HttpTunnel_stale_done_def internal_error_def answered_with_def
        sendError_def Let_def split: option.split)
  show "case fst (HttpTunnel_limit cfg now later plan req res label entry st) of
      Inl fx \<Rightarrow> (if entry = None then answered_with res 404 fx
                 else (\<exists>h b. fx = [FxWriteHead res 429 h, FxEnd res (Some b)] \<and>
                   (\<exists>n. jm_get h ''Retry-After'' = Some n)))
    | Inr e \<Rightarrow> entry = Some e \<and>
        rl_allowed (fst (checkRequest (hc_platform cfg) now later plan (sn_accountId e) (hs_limiter st)))"
    by (auto simp: HttpTunnel_limit_def sendError_def Let_def answered_with_def split: option.split prod.split)
qed (simp add: HttpTunnel_parse_def split: option.split prod.split)

section \<open>Reading a body\<close>

lemma readBody_iff:
  "totalBytes \<le> maxBytes \<Longrightarrow> readBody maxBytes totalBytes chunks =
     (if totalBytes + length (concat chunks) \<le> maxBytes then Some (concat chunks) else None)"
  by (induction chunks arbitrary: totalBytes) auto

end
