(* ===== verification/Heartbeat.thy ===== *)
theory Heartbeat
  imports HubState
begin

text \<open>
  \<^verbatim>\<open>apps/hub/src/services/Heartbeat.service.ts\<close>: a tick pings every agent and counts it as missed
  until the pong comes back; six missed in a row evict the agent. \<^verbatim>\<open>start\<close> and \<^verbatim>\<open>stop\<close> only arm
  and clear the interval that calls \<^verbatim>\<open>tick\<close>.
\<close>

definition handlePong :: "hub_config \<Rightarrow> time \<Rightarrow> string \<Rightarrow> hub_state \<Rightarrow> hub_state \<times> effect list" where
  "handlePong cfg now agentId st =
     (case AgentRegistry_findByAgentId agentId (hs_agents st) of
        None \<Rightarrow> (st, [])
      | Some session \<Rightarrow>
          (st\<lparr>hs_agents := AgentRegistry_update (as_agentId session)
              (\<lambda>s. s\<lparr>as_missedPings := 0, as_lastSeenAt := now\<rparr>) (hs_agents st)\<rparr>,
           [FxRedisSetEx (presence_key session) (JStr (hc_hubInstanceId cfg)) AGENT_PRESENCE_TTL_SEC]))"

definition Heartbeat_evict :: "AgentSession \<Rightarrow> hub_state \<Rightarrow> hub_state \<times> effect list" where
  "Heartbeat_evict session st =
     (case evict_session session st of
        (st1, fx) \<Rightarrow>
          (st1, fx @ [FxDb (DbSessionDisconnected (as_agentId session) ''EVICTED''),
                      FxRedisDel (presence_key session), FxClose (as_ws session)]))"

definition miss_ping :: "AgentSession \<Rightarrow> AgentSession" where
  "miss_ping s = s\<lparr>as_missedPings := as_missedPings s + 1\<rparr>"

definition Heartbeat_tick :: "time \<Rightarrow> hub_state \<Rightarrow> hub_state \<times> effect list" where
  "Heartbeat_tick now st =
     (let sessions = AgentRegistry_allSessions (hs_agents st);
          pings = map (\<lambda>s. FxSend (as_ws s) (MHubPing \<lparr>hp_ts = now\<rparr>)) sessions;
          agents = fold (\<lambda>s. AgentRegistry_update (as_agentId s) miss_ping) sessions (hs_agents st);
          missed = filter (\<lambda>s. as_missedPings s \<ge> MAX_MISSED_PINGS) (map miss_ping sessions)
      in case hub_fold Heartbeat_evict missed (st\<lparr>hs_agents := agents\<rparr>) of
           (st1, fx) \<Rightarrow> (st1, pings @ fx))"

section \<open>The eviction contract\<close>

lemma heartbeat_evict_state [simp]: "fst (Heartbeat_evict s st) = fst (evict_session s st)"
  by (simp add: Heartbeat_evict_def split_beta)

interpretation heartbeat: agent_eviction Heartbeat_evict
proof
  show "\<exists>pre post. snd (Heartbeat_evict s st) = pre @
      snd (snd (PendingRegistry_rejectAllForAgent (as_accountId s) (as_label s) (hs_pending st))) @ post" for s st
    by (rule exI [of _ "[]"]) (simp add: Heartbeat_evict_def evict_session_def split_beta)
qed (simp_all add: hub_inv_evict)

section \<open>Correctness\<close>

lemma liveness_miss_ping: "liveness_only miss_ping"
  by (simp add: liveness_only_def miss_ping_def)

lemma liveness_pong: "liveness_only (\<lambda>s. s\<lparr>as_missedPings := 0, as_lastSeenAt := now\<rparr>)"
  by (simp add: liveness_only_def)

lemma hub_inv_pong: "hub_inv st \<Longrightarrow> hub_inv (fst (handlePong cfg now agentId st))"
  by (auto simp: hub_inv_def handlePong_def agent_inv_update liveness_pong split: option.split)

lemma miss_ping_fields [simp]:
  "as_agentId (miss_ping s) = as_agentId s" "session_key (miss_ping s) = session_key s"
  "as_missedPings (miss_ping s) = Suc (as_missedPings s)" "as_ws (miss_ping s) = as_ws s"
  "as_accountId (miss_ping s) = as_accountId s" "as_label (miss_ping s) = as_label s"
  by (simp_all add: miss_ping_def session_key_def)

lemma fold_miss_ping:
  assumes "agent_inv reg" and "distinct (map as_agentId ss)"
  shows "agent_inv (fold (\<lambda>s. AgentRegistry_update (as_agentId s) miss_ping) ss reg) \<and>
    agent_view (fold (\<lambda>s. AgentRegistry_update (as_agentId s) miss_ping) ss reg) k =
      map_option (\<lambda>s. if as_agentId s \<in> as_agentId ` set ss then miss_ping s else s) (agent_view reg k)"
  using assms
proof (induction ss arbitrary: reg)
  case Nil
  then show ?case by (simp add: option.map_ident)
next
  case (Cons s ss)
  let ?reg = "AgentRegistry_update (as_agentId s) miss_ping reg"
  have "agent_inv ?reg" using Cons.prems(1) liveness_miss_ping by (rule agent_inv_update)
  from Cons.IH [OF this] Cons.prems(2) show ?case
    by (auto simp: view_update upd_session_def option.map_comp comp_def intro!: option.map_cong)
qed

lemma tick_pinged:
  assumes inv: "hub_inv st"
  defines "agents \<equiv> fold (\<lambda>s. AgentRegistry_update (as_agentId s) miss_ping)
    (AgentRegistry_allSessions (hs_agents st)) (hs_agents st)"
  shows "hub_inv (st\<lparr>hs_agents := agents\<rparr>)"
    and "agent_view agents k = map_option miss_ping (agent_view (hs_agents st) k)"
proof -
  have ai: "agent_inv (hs_agents st)" using inv by (simp add: hub_inv_def)
  note F = fold_miss_ping [OF ai allSessions_distinct [OF ai], folded agents_def]
  show "hub_inv (st\<lparr>hs_agents := agents\<rparr>)" using inv F by (simp add: hub_inv_def)
  have "as_agentId s \<in> as_agentId ` set (AgentRegistry_allSessions (hs_agents st))"
    if "agent_view (hs_agents st) k = Some s" for s
    using agent_invD(4) [OF ai that] that
    by (auto simp: allSessions_registered [OF ai] registered_def)
  with F show "agent_view agents k = map_option miss_ping (agent_view (hs_agents st) k)"
    by (auto intro!: option.map_cong)
qed

lemma tick_spec:
  assumes inv: "hub_inv st"
  shows "hub_inv (fst (Heartbeat_tick now st)) \<and>
    agent_view (hs_agents (fst (Heartbeat_tick now st))) k =
      (case agent_view (hs_agents st) k of
         Some s \<Rightarrow> if as_missedPings s + 1 \<ge> MAX_MISSED_PINGS then None else Some (miss_ping s)
       | None \<Rightarrow> None)"
proof -
  have ai: "agent_inv (hs_agents st)" using inv by (simp add: hub_inv_def)
  let ?ss = "AgentRegistry_allSessions (hs_agents st)"
  let ?st = "st\<lparr>hs_agents := fold (\<lambda>s. AgentRegistry_update (as_agentId s) miss_ping) ?ss (hs_agents st)\<rparr>"
  let ?missed = "filter (\<lambda>s. as_missedPings s \<ge> MAX_MISSED_PINGS) (map miss_ping ?ss)"
  have tick: "fst (Heartbeat_tick now st) = fst (hub_fold Heartbeat_evict ?missed ?st)"
    by (simp add: Heartbeat_tick_def Let_def split_beta)
  have D: "hub_inv (fst (Heartbeat_tick now st))"
    "agent_view (hs_agents (fst (Heartbeat_tick now st))) k =
      (if k \<in> session_key ` set ?missed then None else agent_view (hs_agents ?st) k)"
    unfolding tick using heartbeat.drop_many [OF tick_pinged(1) [OF inv], of ?missed] by simp_all
  have "k \<in> session_key ` set ?missed \<longleftrightarrow>
      (\<exists>s. agent_view (hs_agents st) k = Some s \<and> as_missedPings s + 1 \<ge> MAX_MISSED_PINGS)"
  proof -
    have "k \<in> session_key ` set ?missed \<longleftrightarrow>
        (\<exists>s. registered (hs_agents st) s \<and> session_key s = k \<and> MAX_MISSED_PINGS \<le> as_missedPings s + 1)"
      unfolding filter_map set_map image_image set_filter allSessions_registered [OF ai]
      by (auto simp: comp_def)
    moreover have "registered (hs_agents st) s \<and> session_key s = k \<longleftrightarrow> agent_view (hs_agents st) k = Some s" for s
      using agent_invD(4) [OF ai, of k s] by (auto simp: registered_def)
    ultimately show ?thesis by blast
  qed
  with D tick_pinged(2) [OF inv, of k] show ?thesis
    by (auto split: option.split)
qed

abbreviation ticks :: "time list \<Rightarrow> hub_state \<Rightarrow> hub_state" where
  "ticks ts st \<equiv> fold (\<lambda>t st. fst (Heartbeat_tick t st)) ts st"

lemma ticks_inv: "hub_inv st \<Longrightarrow> hub_inv (ticks ts st)"
  by (induction ts arbitrary: st) (auto simp: tick_spec)

lemma ticks_gone:
  "hub_inv st \<Longrightarrow> agent_view (hs_agents st) k = None \<Longrightarrow> agent_view (hs_agents (ticks ts st)) k = None"
  by (induction ts arbitrary: st) (auto simp: tick_spec)

lemma ticks_view:
  assumes "hub_inv st" and "agent_view (hs_agents st) k = Some s" and "as_missedPings s < MAX_MISSED_PINGS"
  shows "agent_view (hs_agents (ticks ts st)) k =
    (if as_missedPings s + length ts < MAX_MISSED_PINGS
     then Some (s\<lparr>as_missedPings := as_missedPings s + length ts\<rparr>) else None)"
  using assms
proof (induction ts arbitrary: st s)
  case Nil
  then show ?case by simp
next
  case (Cons t ts)
  let ?st = "fst (Heartbeat_tick t st)"
  have spec: "hub_inv ?st" "agent_view (hs_agents ?st) k =
      (if as_missedPings s + 1 \<ge> MAX_MISSED_PINGS then None else Some (miss_ping s))"
    using tick_spec [OF Cons.prems(1), of t k] Cons.prems(2) by simp_all
  show ?case
  proof (cases "as_missedPings s + 1 \<ge> MAX_MISSED_PINGS")
    case True
    with ticks_gone [OF spec(1)] spec(2) show ?thesis by simp
  next
    case False
    then have "agent_view (hs_agents ?st) k = Some (miss_ping s)" "as_missedPings (miss_ping s) < MAX_MISSED_PINGS"
      using spec by simp_all
    from Cons.IH [OF spec(1) this] show ?thesis by (simp add: miss_ping_def)
  qed
qed

text \<open>
  an agent is evicted after exactly six unanswered pings, never earlier. From any consistent
  state, after n ticks with no pong an agent that had missed m pings is still registered with m + n
  missed when that is below the limit of six, and unregistered otherwise; a pong in between starts
  the count again. Ticks keep the registries consistent.
\<close>

theorem heartbeat_eviction_exact:
  assumes "hub_inv st" and "agent_view (hs_agents st) k = Some s" and "as_missedPings s < MAX_MISSED_PINGS"
  shows "hub_inv (fold (\<lambda>t st. fst (Heartbeat_tick t st)) ts st) \<and>
    agent_view (hs_agents (fold (\<lambda>t st. fst (Heartbeat_tick t st)) ts st)) k =
      (if as_missedPings s + length ts < MAX_MISSED_PINGS
       then Some (s\<lparr>as_missedPings := as_missedPings s + length ts\<rparr>) else None) \<and>
    agent_view (hs_agents (fst (handlePong cfg now (as_agentId s) st))) k =
      Some (s\<lparr>as_missedPings := 0, as_lastSeenAt := now\<rparr>)"
proof -
  have ai: "agent_inv (hs_agents st)" using assms(1) by (simp add: hub_inv_def)
  have "AgentRegistry_findByAgentId (as_agentId s) (hs_agents st) = Some s"
    using agent_invD(4) [OF ai assms(2)] assms(2)
    by (simp add: findByAgentId_iff [OF ai] registered_def)
  then have "agent_view (hs_agents (fst (handlePong cfg now (as_agentId s) st))) k =
      Some (s\<lparr>as_missedPings := 0, as_lastSeenAt := now\<rparr>)"
    by (simp add: handlePong_def view_update assms(2) upd_session_def)
  with ticks_inv [OF assms(1)] ticks_view [OF assms] show ?thesis by simp
qed

theorem heartbeat_eviction_exact_witness:
  "agent_view (hs_agents (fold (\<lambda>t st. fst (Heartbeat_tick t st)) [1, 2, 3, 4, 5, 6] demo_hub))
     (''acc'', ''web'') = None"
  using heartbeat_eviction_exact [OF demo_hub_inv demo_hub_view, of "[1, 2, 3, 4, 5, 6]"]
  by (simp add: demo_session_def MAX_MISSED_PINGS_def)

end
