(* ===== verification/Router.thy ===== *)
theory Router
  imports HttpTunnel Heartbeat
begin

text \<open>
  \<^verbatim>\<open>apps/hub/src/router/Message.router.ts\<close>: every message of an agent or SDK client, and what
  happens when one goes away. The values of awaited calls are arguments of a handler (the database
  reads and the authentication of a registration run before the handler touches any state, so a
  handler acts on the state as it is when the last of them settles). \<^verbatim>\<open>sendToWs\<close> swallows
  the exceptions of a send. A handler that throws sets its flag; the routing function then answers
  with an internal error.
\<close>

section \<open>Agents\<close>

record register_io =
  ri_loadKey :: "string \<Rightarrow> KeyHash option io"
  ri_findAccount :: "string \<Rightarrow> string option io"
  ri_findSubscription :: "string \<Rightarrow> string option io"
  ri_findApiKey :: "string \<Rightarrow> (string \<times> string) option io" \<comment> \<open>\<^verbatim>\<open>findApiKeyByPublicId\<close>: id, accountId\<close>
  ri_findSlug :: "string \<Rightarrow> string option io" \<comment> \<open>\<^verbatim>\<open>findAccountSlug\<close>\<close>

record agent_limit =
  al_limit :: enat
  al_planName :: string

definition findPlanLimitsForAccount :: "register_io \<Rightarrow> string \<Rightarrow> (Plan \<times> enat) io" where
  "findPlanLimitsForAccount io accountId =
     (case resolvePlanForAccount (ri_findAccount io) (ri_findSubscription io) accountId of
        None \<Rightarrow> None
      | Some plan \<Rightarrow> Some (plan, maxAgents (PLAN_LIMITS plan)))"

definition resolveAgentLimit :: "register_io \<Rightarrow> string \<Rightarrow> agent_limit" where
  "resolveAgentLimit io accountId =
     (case findPlanLimitsForAccount io accountId of
        Some (plan, limit) \<Rightarrow> \<lparr>al_limit = limit, al_planName = Plan_name plan\<rparr>
      | None \<Rightarrow> \<lparr>al_limit = maxAgents (PLAN_LIMITS PRO), al_planName = Plan_name PRO\<rparr>)"

text \<open>What a registration has learned when it reaches the registry.\<close>

record handshake =
  hk_auth :: HubAuthResult
  hk_limit :: agent_limit
  hk_apiKeyId :: string
  hk_accountId :: string
  hk_slug :: "string option" \<comment> \<open>\<open>None\<close> also for the falsy empty string\<close>

definition fatal_close :: "socket \<Rightarrow> string \<Rightarrow> string \<Rightarrow> effect list" where
  "fatal_close ws code message = [FxSend ws (buildHubError code message None True), FxClose ws]"

text \<open>The steps of \<^verbatim>\<open>handleAgentRegister\<close> up to the slug; \<open>None\<close> when an unexpected exception escapes.\<close>

definition register_handshake ::
  "platform \<Rightarrow> string \<Rightarrow> register_io \<Rightarrow> time \<Rightarrow> socket \<Rightarrow> AgentRegisterMsg \<Rightarrow> (effect list + handshake) option" where
  "register_handshake pf pepper io now ws msg =
     (case authenticateAgent pf pepper (ri_loadKey io) now msg of
        None \<Rightarrow> None
      | Some (Inl err) \<Rightarrow> Some (Inl (fatal_close ws (hx_code err) (hx_message err)))
      | Some (Inr auth) \<Rightarrow>
          (case ri_findApiKey io (ha_keyId auth) of
             None \<Rightarrow> None
           | Some None \<Rightarrow> Some (Inl (fatal_close ws ''AUTH_FAILED'' ''API key not found''))
           | Some (Some (apiKeyId, accountId)) \<Rightarrow>
               Some (Inr \<lparr>hk_auth = auth, hk_limit = resolveAgentLimit io (ha_accountId auth),
                 hk_apiKeyId = apiKeyId, hk_accountId = accountId,
                 hk_slug = (case ri_findSlug io accountId of
                     Some (Some (c # cs)) \<Rightarrow> Some (c # cs) | _ \<Rightarrow> None)\<rparr>)))"

definition show_limit :: "enat \<Rightarrow> string" where
  "show_limit e = (case e of enat n \<Rightarrow> show_nat n | \<infinity> \<Rightarrow> ''Infinity'')"

definition register_session ::
  "string \<Rightarrow> time \<Rightarrow> string \<Rightarrow> socket \<Rightarrow> AgentRegisterMsg \<Rightarrow> handshake \<Rightarrow> AgentSession" where
  "register_session agentId now ip ws msg hk = \<lparr>
     as_agentId = agentId, as_accountId = hk_accountId hk, as_keyId = hk_apiKeyId hk,
     as_label = ar_label msg, as_ws = ws, as_connectedAt = now, as_lastSeenAt = now, as_missedPings = 0,
     as_agentVersion = ar_agentVersion msg, as_ip = ip,
     as_secretFingerprint = ha_secretFingerprint (hk_auth hk)\<rparr>"

definition register_entry :: "hub_config \<Rightarrow> string \<Rightarrow> AgentRegisterMsg \<Rightarrow> handshake \<Rightarrow> string \<Rightarrow> SubdomainEntry" where
  "register_entry cfg agentId msg hk slug = \<lparr>sn_agentId = agentId, sn_accountId = hk_accountId hk,
     sn_label = ar_label msg, sn_accountSlug = slug, sn_hubInstanceId = hc_hubInstanceId cfg\<rparr>"

definition tunnel_url :: "hub_config \<Rightarrow> string \<Rightarrow> string \<Rightarrow> string" where
  "tunnel_url cfg slug label = ''https://'' @ slug @ ''--'' @ label @ ''.'' @ hc_hubDomain cfg"

text \<open>
  The rest of \<^verbatim>\<open>handleAgentRegister\<close>, with no await between the limit check and the
  registration. The session upsert is fire-and-forget; what runs when it settles is queued.
\<close>

definition register_agent ::
  "hub_config \<Rightarrow> string \<Rightarrow> time \<Rightarrow> string \<Rightarrow> socket \<Rightarrow> AgentRegisterMsg \<Rightarrow> handshake \<Rightarrow>
   hub_state \<Rightarrow> hub_state \<times> effect list" where
  "register_agent cfg agentId now ip ws msg hk st =
     (let session = register_session agentId now ip ws msg hk;
          replaced = AgentRegistry_find (hk_accountId hk) (Some (ar_label msg)) (hs_agents st);
          agentCount = int (AgentRegistry_countByAccount (hk_accountId hk) (hs_agents st)) -
            (if replaced \<noteq> None then 1 else 0);
          limit = al_limit (hk_limit hk)
      in if (case limit of enat n \<Rightarrow> agentCount \<ge> int n | \<infinity> \<Rightarrow> False) then
           (st, fatal_close ws ''AGENT_LIMIT_REACHED''
              (''Maximum '' @ show_limit limit @ '' agent'' @ (if limit = 1 then [] else ''s'') @
               '' allowed on your '' @ al_planName (hk_limit hk) @ '' plan''))
         else
           (case (case replaced of
                    Some old \<Rightarrow> close_tunnels (as_agentId old) 1012 ''Tunnel agent replaced'' st
                  | None \<Rightarrow> (st, [])) of
              (st1, fx1) \<Rightarrow>
                (case AgentRegistry_register session (hs_agents st1) of
                   (agents, fx2) \<Rightarrow>
                     (st1\<lparr>hs_agents := agents,
                          hs_deferred := hs_deferred st1 @
                            (case hk_slug hk of
                               Some slug \<Rightarrow> [DeferSubRegister (register_entry cfg agentId msg hk slug)]
                             | None \<Rightarrow> [])\<rparr>,
                      fx1 @ fx2 @
                      [FxSend ws (MHubRegistered \<lparr>hr_agentId = agentId, hr_accountId = hk_accountId hk,
                         hr_replayPending = False,
                         hr_tunnelUrl = map_option (\<lambda>slug. tunnel_url cfg slug (ar_label msg)) (hk_slug hk)\<rparr>),
                       FxDb (DbSessionUpsert agentId (hk_accountId hk) (hk_apiKeyId hk) (ar_label msg)
                         ''CONNECTED'' (hc_hubInstanceId cfg))]))))"

text \<open>\<^verbatim>\<open>onAgentClose\<close>, for the session the socket belongs to.\<close>

definition agent_gone :: "AgentSession \<Rightarrow> hub_state \<Rightarrow> hub_state \<times> effect list" where
  "agent_gone session st =
     (case evict_session session st of
        (st1, fx1) \<Rightarrow>
          (case close_tunnels (as_agentId session) 1012 ''Tunnel agent disconnected'' st1 of
             (st2, fx2) \<Rightarrow>
               (st2\<lparr>hs_deferred := hs_deferred st2 @
                   [DeferSubUnregister (as_label session) (as_accountId session) (as_agentId session)]\<rparr>,
                fx1 @ fx2 @ [FxDb (DbSessionDisconnected (as_agentId session) ''DISCONNECTED'')])))"

definition onAgentClose :: "socket \<Rightarrow> hub_state \<Rightarrow> hub_state \<times> effect list" where
  "onAgentClose ws st =
     (case AgentRegistry_findByWs ws (hs_agents st) of
        None \<Rightarrow> (st, [])
      | Some session \<Rightarrow> agent_gone session st)"

definition onSdkClose :: "socket \<Rightarrow> hub_state \<Rightarrow> hub_state" where
  "onSdkClose ws st = st\<lparr>hs_sdks := snd (SdkRegistry_evictByWs ws (hs_sdks st))\<rparr>"

text \<open>
  The continuation at position \<open>i\<close> runs: its promise settled, \<open>ok\<close> for the session upsert, \<open>slug\<close> for
  the slug lookup (a failed lookup yields null).
\<close>

definition run_deferred :: "nat \<Rightarrow> bool \<Rightarrow> string option \<Rightarrow> hub_state \<Rightarrow> hub_state" where
  "run_deferred i ok slug st =
     (if i < length (hs_deferred st) then
        (let st1 = st\<lparr>hs_deferred := take i (hs_deferred st) @ drop (Suc i) (hs_deferred st)\<rparr> in
         case hs_deferred st ! i of
           DeferSubRegister entry \<Rightarrow>
             if ok then st1\<lparr>hs_sub := SubdomainRegistry_register entry (hs_sub st1)\<rparr> else st1
         | DeferSubUnregister label accountId agentId \<Rightarrow>
             (case slug of
                Some (c # cs) \<Rightarrow>
                  st1\<lparr>hs_sub := SubdomainRegistry_unregister label (c # cs) agentId (hs_sub st1)\<rparr>
              | _ \<Rightarrow> st1))
      else st)"

section \<open>Messages of agents\<close>

definition handleTunnelResponse :: "TunnelResponseMsg \<Rightarrow> hub_state \<Rightarrow> bool \<times> hub_state \<times> effect list" where
  "handleTunnelResponse msg st =
     (case PendingRegistry_resolve (tr_requestId msg) msg (hs_pending st) of
        (None, pending, fx) \<Rightarrow> (False, st\<lparr>hs_pending := pending\<rparr>, fx)
      | (Some True, pending, fx) \<Rightarrow> (True, st\<lparr>hs_pending := pending\<rparr>, fx)
      | (Some False, pending, fx) \<Rightarrow>
          (False, st\<lparr>hs_pending := pending\<rparr>,
           fx @ [FxDb (DbRequestResponse (tr_requestId msg) (Some (tr_status msg)) (Some (tr_durationMs msg)) None)]))"

definition handleTunnelAgentError :: "TunnelAgentErrorMsg \<Rightarrow> hub_state \<Rightarrow> hub_state \<times> effect list" where
  "handleTunnelAgentError msg st =
     (case PendingRegistry_reject (te_requestId msg) (te_code msg) (te_message msg) (hs_pending st) of
        (_, pending, fx) \<Rightarrow>
          (st\<lparr>hs_pending := pending\<rparr>,
           fx @ [FxDb (DbRequestResponse (te_requestId msg) None None (Some (te_code msg)))]))"

definition handleAgentPong :: "hub_config \<Rightarrow> time \<Rightarrow> AgentPongMsg \<Rightarrow> hub_state \<Rightarrow> hub_state \<times> effect list" where
  "handleAgentPong cfg now msg st = handlePong cfg now (ap_agentId msg) st"

definition from_agent ::
  "socket \<Rightarrow> (string \<Rightarrow> hub_state \<Rightarrow> hub_state \<times> effect list) \<Rightarrow> hub_state \<Rightarrow> hub_state \<times> effect list" where
  "from_agent ws handler st =
     (case AgentRegistry_findByWs ws (hs_agents st) of
        None \<Rightarrow> (st, [])
      | Some session \<Rightarrow> handler (as_agentId session) st)"

definition handleAgentWsMessage ::
  "(socket \<Rightarrow> bool) \<Rightarrow> socket \<Rightarrow> TunnelWsMessageMsg \<Rightarrow> hub_state \<Rightarrow> hub_state \<times> effect list" where
  "handleAgentWsMessage isOpen ws msg = from_agent ws (HttpTunnel_handleAgentWsMessage isOpen msg)"

definition handleAgentWsClose :: "socket \<Rightarrow> TunnelWsCloseMsg \<Rightarrow> hub_state \<Rightarrow> hub_state \<times> effect list" where
  "handleAgentWsClose ws msg = from_agent ws (HttpTunnel_handleAgentWsClose msg)"

definition handleAgentWsError :: "socket \<Rightarrow> TunnelWsErrorMsg \<Rightarrow> hub_state \<Rightarrow> hub_state \<times> effect list" where
  "handleAgentWsError ws msg = from_agent ws (HttpTunnel_handleAgentWsError msg)"

text \<open>One item of a batch; the loop catches what an item throws.\<close>

definition batch_item_step ::
  "hub_config \<Rightarrow> time \<Rightarrow> (socket \<Rightarrow> bool) \<Rightarrow> socket \<Rightarrow> batch_item \<Rightarrow> hub_state \<Rightarrow> hub_state \<times> effect list" where
  "batch_item_step cfg now isOpen ws item st =
     (case item of
        BResponse m \<Rightarrow> snd (handleTunnelResponse m st)
      | BAgentError m \<Rightarrow> handleTunnelAgentError m st
      | BPong m \<Rightarrow> handleAgentPong cfg now m st
      | BWsMessage m \<Rightarrow> handleAgentWsMessage isOpen ws m st
      | BWsClose m \<Rightarrow> handleAgentWsClose ws m st
      | BWsError m \<Rightarrow> handleAgentWsError ws m st
      | BOther _ \<Rightarrow> (st, []))"

definition handleAgentBatch ::
  "hub_config \<Rightarrow> time \<Rightarrow> (socket \<Rightarrow> bool) \<Rightarrow> socket \<Rightarrow> batch_item list \<Rightarrow> hub_state \<Rightarrow> hub_state \<times> effect list" where
  "handleAgentBatch cfg now isOpen ws = hub_fold (batch_item_step cfg now isOpen ws)"

definition msg_type :: "AnyHubMsg \<Rightarrow> string" where
  "msg_type m =
     (case m of
        MAgentRegister _ \<Rightarrow> ''agent:register'' | MAgentPong _ \<Rightarrow> ''agent:pong''
      | MTunnelResponse _ \<Rightarrow> ''tunnel:response'' | MTunnelAgentError _ \<Rightarrow> ''tunnel:agent-error''
      | MAgentBatch _ \<Rightarrow> ''agent:batch'' | MTunnelWsMessage _ \<Rightarrow> ''tunnel:ws:message''
      | MTunnelWsClose _ \<Rightarrow> ''tunnel:ws:close'' | MTunnelWsError _ \<Rightarrow> ''tunnel:ws:error''
      | MTunnelWsOpen _ \<Rightarrow> ''tunnel:ws:open'' | MHubRegistered _ \<Rightarrow> ''hub:registered''
      | MHubPing _ \<Rightarrow> ''hub:ping'' | MTunnelForward _ \<Rightarrow> ''tunnel:forward'' | MHubError _ \<Rightarrow> ''hub:error''
      | MSdkRegister _ \<Rightarrow> ''sdk:register'' | MSdkRequest _ \<Rightarrow> ''sdk:request''
      | MSdkRegistered _ \<Rightarrow> ''sdk:registered'' | MSdkResponse _ \<Rightarrow> ''sdk:response''
      | MSdkError _ \<Rightarrow> ''sdk:error'' | MOther t \<Rightarrow> t)"

text \<open>
  What an agent's message finds when it arrives: the hub's configuration, the pepper, the clock, the
  agentId the hub would generate, the address of the peer, and which browser sockets are open.
\<close>

record agent_env =
  ae_cfg :: hub_config
  ae_pepper :: string
  ae_io :: register_io
  ae_now :: time
  ae_agentId :: string
  ae_ip :: string
  ae_isOpen :: "socket \<Rightarrow> bool"

definition handleAgentRegister ::
  "agent_env \<Rightarrow> socket \<Rightarrow> AgentRegisterMsg \<Rightarrow> hub_state \<Rightarrow> bool \<times> hub_state \<times> effect list" where
  "handleAgentRegister env ws msg st =
     (case register_handshake (hc_platform (ae_cfg env)) (ae_pepper env) (ae_io env) (ae_now env) ws msg of
        None \<Rightarrow> (True, st, [])
      | Some (Inl fx) \<Rightarrow> (False, st, fx)
      | Some (Inr hk) \<Rightarrow>
          (False, register_agent (ae_cfg env) (ae_agentId env) (ae_now env) (ae_ip env) ws msg hk st))"

text \<open>\<open>Inl None\<close> is an exception of the parser other than a \<^verbatim>\<open>ProtocolError\<close>.\<close>

definition routeAgentMessage ::
  "agent_env \<Rightarrow> socket \<Rightarrow> ProtocolError option + AnyHubMsg \<Rightarrow> hub_state \<Rightarrow> hub_state \<times> effect list" where
  "routeAgentMessage env ws frame st =
     (case frame of
        Inl (Some err) \<Rightarrow> (st, [FxSend ws (buildHubError (pe_code err) (pe_message err) None False)])
      | Inl None \<Rightarrow> (st, [FxSend ws (buildHubError ''INVALID_MESSAGE'' ''Malformed message'' None False)])
      | Inr msg \<Rightarrow>
          (case (case msg of
                   MAgentRegister m \<Rightarrow> handleAgentRegister env ws m st
                 | MAgentPong m \<Rightarrow> (False, handleAgentPong (ae_cfg env) (ae_now env) m st)
                 | MAgentBatch items \<Rightarrow>
                     (False, handleAgentBatch (ae_cfg env) (ae_now env) (ae_isOpen env) ws items st)
                 | MTunnelResponse m \<Rightarrow> handleTunnelResponse m st
                 | MTunnelAgentError m \<Rightarrow> (False, handleTunnelAgentError m st)
                 | MTunnelWsMessage m \<Rightarrow> (False, handleAgentWsMessage (ae_isOpen env) ws m st)
                 | MTunnelWsClose m \<Rightarrow> (False, handleAgentWsClose ws m st)
                 | MTunnelWsError m \<Rightarrow> (False, handleAgentWsError ws m st)
                 | other \<Rightarrow> (False, st, [FxSend ws (buildHubError ''INVALID_MESSAGE''
                     (''Unknown message type: '' @ msg_type other) None False)])) of
             (threw, st', fx) \<Rightarrow>
               (st', fx @ (if threw then [FxSend ws (buildHubError ''INTERNAL_ERROR'' ''Internal error'' None False)]
                 else []))))"

section \<open>Messages of SDK clients\<close>

text \<open>
  The outcome of the authentication is an argument: \<open>authenticateSdkRegister\<close> and
  \<open>authenticateRequest\<close> compute it over the key cache.
\<close>

definition handleSdkRegister ::
  "string \<Rightarrow> time \<Rightarrow> (HubAuthError + HubAuthResult) \<Rightarrow> socket \<Rightarrow> SdkRegisterMsg \<Rightarrow> hub_state \<Rightarrow>
   hub_state \<times> effect list" where
  "handleSdkRegister sessionId now auth ws msg st =
     (case auth of
        Inl err \<Rightarrow>
          (st, [FxSend ws (buildSdkError (hx_code err) (hx_message err) (Some (sr_requestId msg)) False), FxClose ws])
      | Inr auth \<Rightarrow>
          (st\<lparr>hs_sdks := SdkRegistry_register
               \<lparr>ss_sessionId = sessionId, ss_accountId = ha_accountId auth, ss_keyId = ha_keyId auth,
                ss_ws = ws, ss_connectedAt = now\<rparr> (hs_sdks st)\<rparr>,
           [FxSend ws (MSdkRegistered \<lparr>sd_sessionId = sessionId\<rparr>)]))"

definition sdk_body_bytes :: "SdkRequestMsg \<Rightarrow> nat" where
  "sdk_body_bytes msg = (case sq_body msg of Some b \<Rightarrow> byteLength b | None \<Rightarrow> 0)"

definition sdk_refuse :: "socket \<Rightarrow> SdkRequestMsg \<Rightarrow> string \<Rightarrow> string \<Rightarrow> effect list" where
  "sdk_refuse ws msg code message = [FxSend ws (buildSdkError code message (Some (sq_requestId msg)) False)]"

text \<open>The checks of \<^verbatim>\<open>handleSdkRequest\<close>, in order: who asks, how much, for which path, and for which agent.\<close>

definition sdk_request_agent ::
  "(HubAuthError + HubAuthResult) \<Rightarrow> SdkRequestMsg \<Rightarrow> hub_state \<Rightarrow>
   (string \<times> string) + (HubAuthResult \<times> AgentSession)" where
  "sdk_request_agent auth msg st =
     (case auth of
        Inl err \<Rightarrow> Inl (hx_code err, hx_message err)
      | Inr auth \<Rightarrow>
          if sdk_body_bytes msg > MAX_PAYLOAD_BYTES then
            Inl (''PAYLOAD_TOO_LARGE'', ''Payload '' @ show_nat (sdk_body_bytes msg) @ '' bytes exceeds '' @
              show_nat MAX_PAYLOAD_BYTES @ '' byte limit'')
          else if \<not> isOriginFormPath (Some (sq_path msg)) then
            Inl (''INVALID_MESSAGE'', ''Request path must start with a single \"/\"'')
          else (case AgentRegistry_find (ha_accountId auth) (sq_label msg) (hs_agents st) of
              None \<Rightarrow> Inl (''AGENT_NOT_FOUND'',
                (case sq_label msg of
                   Some (c # cs) \<Rightarrow> ''No agent with label \"'' @ (c # cs) @ ''\" is connected for your account''
                 | _ \<Rightarrow> ''No agent connected. Run: npx @vhyxvoid/agent --key YOUR_KEY --port YOUR_PORT''))
            | Some agent \<Rightarrow> Inr (auth, agent)))"

definition sdk_forward_message :: "hub_config \<Rightarrow> SdkRequestMsg \<Rightarrow> TunnelForwardMsg" where
  "sdk_forward_message cfg msg = \<lparr>tf_requestId = sq_requestId msg, tf_meth = sq_meth msg, tf_path = sq_path msg,
     tf_query = sq_query msg, tf_headers = sq_headers msg, tf_body = sq_body msg, tf_bodyEncoding = None,
     tf_timeoutMs = getTunnelRequestTimeoutMs (hc_timeout cfg) - 2000\<rparr>"

definition sdk_forward :: "hub_config \<Rightarrow> AgentSession \<Rightarrow> SdkRequestMsg \<Rightarrow> effect list" where
  "sdk_forward cfg agent msg =
     [FxSend (as_ws agent) (MTunnelForward (sdk_forward_message cfg msg)),
      FxDb (DbRequestCreate (as_accountId agent) (as_keyId agent) (as_agentId agent)
        (sq_requestId msg) (sq_meth msg) (sq_path msg))]"

declare sdk_forward_def [simp]

text \<open>
  Between registering the request and forwarding it the code awaits the record it writes to Redis. The
  forwarding reads and changes nothing of the state, only the agent found and the message, so the two
  are one step here: what other handlers do during that await meets the state this step ends in, with
  the request registered, and the send to the agent comes after it.
\<close>

definition handleSdkRequest ::
  "hub_config \<Rightarrow> time \<Rightarrow> timer_handle \<Rightarrow> (HubAuthError + HubAuthResult) \<Rightarrow> socket \<Rightarrow> SdkRequestMsg \<Rightarrow>
   hub_state \<Rightarrow> hub_state \<times> effect list" where
  "handleSdkRequest cfg now timer auth ws msg st =
     (case sdk_request_agent auth msg st of
        Inl (code, message) \<Rightarrow> (st, sdk_refuse ws msg code message)
      | Inr (auth, agent) \<Rightarrow>
          (case admit_request (hc_timeout cfg) ''Request timed out waiting for agent response''
                  \<lparr>pr_requestId = sq_requestId msg, pr_accountId = ha_accountId auth,
                   pr_agentLabel = as_label agent, pr_keyId = ha_keyId auth, pr_enqueuedAt = now,
                   pr_reply = ReplySdk ws (sq_requestId msg), pr_timer = timer\<rparr> (hs_pending st) of
             (pending, fx) \<Rightarrow>
               (st\<lparr>hs_pending := pending\<rparr>,
                fx @ sdk_forward cfg agent msg)))"

record sdk_env =
  se_cfg :: hub_config
  se_now :: time
  se_sessionId :: string
  se_timer :: timer_handle
  se_auth :: "(HubAuthError + HubAuthResult) io"

definition routeSdkMessage ::
  "sdk_env \<Rightarrow> socket \<Rightarrow> ProtocolError option + AnyHubMsg \<Rightarrow> hub_state \<Rightarrow> hub_state \<times> effect list" where
  "routeSdkMessage env ws frame st =
     (case frame of
        Inl (Some err) \<Rightarrow> (st, [FxSend ws (buildSdkError ''INVALID_MESSAGE'' (pe_message err) None False)])
      | Inl None \<Rightarrow> (st, [FxSend ws (buildSdkError ''INVALID_MESSAGE'' ''Malformed message'' None False)])
      | Inr msg \<Rightarrow>
          (case (msg, se_auth env) of
             (MSdkRegister m, Some auth) \<Rightarrow> handleSdkRegister (se_sessionId env) (se_now env) auth ws m st
           | (MSdkRequest m, Some auth) \<Rightarrow>
               handleSdkRequest (se_cfg env) (se_now env) (se_timer env) auth ws m st
           | (MSdkRegister _, None) \<Rightarrow>
               (st, [FxSend ws (buildSdkError ''INTERNAL_ERROR'' ''Internal error'' None False)])
           | (MSdkRequest _, None) \<Rightarrow>
               (st, [FxSend ws (buildSdkError ''INTERNAL_ERROR'' ''Internal error'' None False)])
           | (other, _) \<Rightarrow>
               (st, [FxSend ws (buildSdkError ''INVALID_MESSAGE'' (''Unknown type: '' @ msg_type other) None False)])))"

section \<open>Registration\<close>

lemma find_none_count:
  assumes "agent_inv reg" and "AgentRegistry_find a (Some l) reg = None"
  shows "agent_view reg (a, l) = None"
proof (cases l)
  case Nil
  have "acct_of a reg = []"
  proof (cases "jm_get (ag_accounts reg) a")
    case None
    then show ?thesis by (simp add: acct_of_def)
  next
    case (Some acct)
    then have "acct \<noteq> []" using assms(1) by (auto simp: agent_inv_def accounts_ok_def)
    then show ?thesis using assms(2) Some Nil
      by (auto simp: AgentRegistry_find_def split: list.splits)
  qed
  then show ?thesis by (simp add: agent_view_def)
next
  case (Cons c cs)
  then show ?thesis using assms find_label [OF assms(1), of l a] by simp
qed

lemma register_session_fields [simp]:
  "as_agentId (register_session i now ip ws msg hk) = i"
  "as_accountId (register_session i now ip ws msg hk) = hk_accountId hk"
  "as_label (register_session i now ip ws msg hk) = ar_label msg"
  "as_ws (register_session i now ip ws msg hk) = ws"
  "session_key (register_session i now ip ws msg hk) = (hk_accountId hk, ar_label msg)"
  by (simp_all add: register_session_def session_key_def)

text \<open>Whether a registration is over the plan's limit.\<close>

definition over_limit :: "AgentRegisterMsg \<Rightarrow> handshake \<Rightarrow> hub_state \<Rightarrow> bool" where
  "over_limit msg hk st =
     (case al_limit (hk_limit hk) of
        enat n \<Rightarrow> int (AgentRegistry_countByAccount (hk_accountId hk) (hs_agents st)) -
            (if AgentRegistry_find (hk_accountId hk) (Some (ar_label msg)) (hs_agents st) \<noteq> None then 1 else 0) \<ge> int n
      | \<infinity> \<Rightarrow> False)"

definition replaced_closed :: "AgentRegisterMsg \<Rightarrow> handshake \<Rightarrow> hub_state \<Rightarrow> hub_state" where
  "replaced_closed msg hk st =
     (case AgentRegistry_find (hk_accountId hk) (Some (ar_label msg)) (hs_agents st) of
        Some old \<Rightarrow> fst (close_tunnels (as_agentId old) 1012 ''Tunnel agent replaced'' st)
      | None \<Rightarrow> st)"

lemma register_refused:
  "over_limit msg hk st \<Longrightarrow>
   fst (register_agent cfg i now ip ws msg hk st) = st \<and>
   (\<exists>m. snd (register_agent cfg i now ip ws msg hk st) = fatal_close ws ''AGENT_LIMIT_REACHED'' m)"
  unfolding register_agent_def Let_def over_limit_def [symmetric] by auto

lemma replaced_closed_fields [simp]:
  "hs_agents (replaced_closed msg hk st) = hs_agents st" "hs_pending (replaced_closed msg hk st) = hs_pending st"
  "hs_sdks (replaced_closed msg hk st) = hs_sdks st" "hs_deferred (replaced_closed msg hk st) = hs_deferred st"
  by (simp_all add: replaced_closed_def split: option.split)

lemma register_admitted:
  assumes "\<not> over_limit msg hk st"
  shows "hs_agents (fst (register_agent cfg i now ip ws msg hk st)) =
      fst (AgentRegistry_register (register_session i now ip ws msg hk) (hs_agents st))"
    and "hs_tunnels (fst (register_agent cfg i now ip ws msg hk st)) = hs_tunnels (replaced_closed msg hk st)"
    and "hs_pending (fst (register_agent cfg i now ip ws msg hk st)) = hs_pending st"
    and "hs_sdks (fst (register_agent cfg i now ip ws msg hk st)) = hs_sdks st"
  using assms unfolding register_agent_def Let_def over_limit_def [symmetric] replaced_closed_def
  by (simp_all add: split_beta split: option.split)

lemma hub_inv_register:
  assumes inv: "hub_inv st" and fresh: "jm_get (ag_byAgentId (hs_agents st)) i = None"
  shows "hub_inv (fst (register_agent cfg i now ip ws msg hk st))"
proof (cases "over_limit msg hk st")
  case True
  then show ?thesis using register_refused inv by simp
next
  case False
  have "tunnel_inv (hs_tunnels (replaced_closed msg hk st))"
    using hub_inv_close_tunnels [OF inv] inv by (auto simp: replaced_closed_def hub_inv_def split: option.split)
  then show ?thesis
    using inv fresh register_admitted [OF False] agent_inv_register [of "hs_agents st" "register_session i now ip ws msg hk"]
    by (simp add: hub_inv_def)
qed

lemma no_orphans_register:
  assumes inv: "hub_inv st" and no: "no_orphans st" and fresh: "jm_get (ag_byAgentId (hs_agents st)) i = None"
    and label: "ar_label msg \<noteq> []"
  shows "no_orphans (fst (register_agent cfg i now ip ws msg hk st))"
proof (cases "over_limit msg hk st")
  case True
  then show ?thesis using register_refused no by simp
next
  case False
  let ?k = "(hk_accountId hk, ar_label msg)"
  have ai: "agent_inv (hs_agents st)" using inv by (simp add: hub_inv_def)
  have found: "AgentRegistry_find (hk_accountId hk) (Some (ar_label msg)) (hs_agents st) = agent_view (hs_agents st) ?k"
    by (rule find_label [OF ai label])
  show ?thesis
    unfolding no_orphans_def
  proof (intro allI impI)
    fix k e assume e: "tunnel_view (hs_tunnels (fst (register_agent cfg i now ip ws msg hk st))) k = Some e"
    then have e': "tunnel_view (hs_tunnels st) k = Some e"
      and ne: "\<And>old. agent_view (hs_agents st) ?k = Some old \<Longrightarrow> tw_agentId e \<noteq> as_agentId old"
      using tunnels_after_close [OF inv]
      by (auto simp: register_admitted [OF False] replaced_closed_def found split: option.splits if_splits)
    from no e' obtain s where s: "registered (hs_agents st) s" "as_agentId s = tw_agentId e"
      by (auto simp: no_orphans_def)
    have "session_key s \<noteq> ?k" using s ne by (auto simp: registered_def)
    with s show "\<exists>s. registered (hs_agents (fst (register_agent cfg i now ip ws msg hk st))) s \<and>
        as_agentId s = tw_agentId e"
      by (auto simp: register_admitted [OF False] registered_register)
  qed
qed

text \<open>
  the plan's agent limit. A registration under a label either leaves the state alone and closes the
  new socket with a fatal AGENT_LIMIT_REACHED, or it is admitted; it is refused exactly when the
  label is new and the account already has as many agents as its plan allows (or more), and once
  admitted the account has at most that many, whatever registrations ran before. A reconnect under a
  label in use is never refused while the account is within its limit.
\<close>

theorem register_respects_limit:
  assumes "hub_inv st" and "ar_label msg \<noteq> []"
  shows "let st' = fst (register_agent cfg i now ip ws msg hk st);
             n = AgentRegistry_countByAccount (hk_accountId hk) (hs_agents st);
             held = (agent_view (hs_agents st) (hk_accountId hk, ar_label msg) \<noteq> None)
    in (if al_limit (hk_limit hk) \<le> enat n \<and> \<not> held \<or> al_limit (hk_limit hk) < enat n \<and> held then
          st' = st \<and> (\<exists>m. snd (register_agent cfg i now ip ws msg hk st) = fatal_close ws ''AGENT_LIMIT_REACHED'' m)
        else AgentRegistry_findByWs ws (hs_agents st') = Some (register_session i now ip ws msg hk) \<and>
          enat (AgentRegistry_countByAccount (hk_accountId hk) (hs_agents st')) \<le> al_limit (hk_limit hk))"
proof -
  have ai: "agent_inv (hs_agents st)" using assms(1) by (simp add: hub_inv_def)
  let ?n = "AgentRegistry_countByAccount (hk_accountId hk) (hs_agents st)"
  let ?held = "agent_view (hs_agents st) (hk_accountId hk, ar_label msg) \<noteq> None"
  have found: "AgentRegistry_find (hk_accountId hk) (Some (ar_label msg)) (hs_agents st) =
      agent_view (hs_agents st) (hk_accountId hk, ar_label msg)"
    by (rule find_label [OF ai assms(2)])
  have pos: "?held \<Longrightarrow> 0 < ?n"
    by (auto simp: AgentRegistry_countByAccount_def agent_view_def)
  have over: "over_limit msg hk st \<longleftrightarrow>
      al_limit (hk_limit hk) \<le> enat ?n \<and> \<not> ?held \<or> al_limit (hk_limit hk) < enat ?n \<and> ?held"
    using pos by (auto simp: over_limit_def found split: enat.splits)
  show ?thesis
  proof (cases "over_limit msg hk st")
    case True
    then show ?thesis using register_refused [OF True] unfolding Let_def over [symmetric] by simp
  next
    case False
    have "enat (AgentRegistry_countByAccount (hk_accountId hk)
        (hs_agents (fst (register_agent cfg i now ip ws msg hk st)))) \<le> al_limit (hk_limit hk)"
      using False over register_admitted(1) [OF False]
      by (cases "al_limit (hk_limit hk)") (auto simp: countByAccount_register)
    then show ?thesis
      using False register_admitted(1) [OF False] unfolding Let_def over [symmetric]
      by (simp add: AgentRegistry_findByWs_def index_register)
  qed
qed

definition demo_handshake :: handshake where
  "demo_handshake = \<lparr>hk_auth = \<lparr>ha_accountId = ''acc'', ha_keyId = ''k'', ha_scopes = [''*''],
       ha_secretFingerprint = Some ''00''\<rparr>,
     hk_limit = \<lparr>al_limit = 1, al_planName = ''FREE''\<rparr>, hk_apiKeyId = ''key'', hk_accountId = ''acc'',
     hk_slug = Some ''acme''\<rparr>"

lemma demo_hub_agents:
  "AgentRegistry_countByAccount ''acc'' (hs_agents demo_hub) = 1"
  "l \<noteq> ''web'' \<Longrightarrow> agent_view (hs_agents demo_hub) (''acc'', l) = None"
  by (simp_all add: demo_hub_def countByAccount_register view_register session_key_def demo_session_def
      AgentRegistry_countByAccount_def AgentRegistry_new_def acct_of_def agent_view_def AgentRegistry_register_def)

theorem register_respects_limit_witness:
  "fst (register_agent demo_config ''agt_2'' 0 [] 2 (demo_register\<lparr>ar_label := ''api''\<rparr>) demo_handshake demo_hub) =
     demo_hub"
  using register_respects_limit [OF demo_hub_inv, of "demo_register\<lparr>ar_label := ''api''\<rparr>" demo_config
      "''agt_2''" 0 "[]" 2 demo_handshake]
  by (simp add: Let_def demo_handshake_def demo_hub_agents one_enat_def)

text \<open>
  the limit does not hold for the empty label. With an empty label the lookup for the session that
  would be replaced yields the account's first agent instead, so an account at its limit is admitted
  once more: it ends up with one agent more than its plan allows.
\<close>

theorem empty_label_exceeds_limit:
  assumes "hub_inv st" and "ar_label msg = []"
    and "agent_view (hs_agents st) (hk_accountId hk, []) = None"
    and "AgentRegistry_countByAccount (hk_accountId hk) (hs_agents st) = Suc n"
    and "al_limit (hk_limit hk) = enat (Suc n)"
  shows "enat (AgentRegistry_countByAccount (hk_accountId hk)
      (hs_agents (fst (register_agent cfg i now ip ws msg hk st)))) = al_limit (hk_limit hk) + 1"
proof -
  have "AgentRegistry_find (hk_accountId hk) (Some (ar_label msg)) (hs_agents st) \<noteq> None"
    using assms(2,4)
    by (auto simp: AgentRegistry_find_def AgentRegistry_countByAccount_def acct_of_def split: option.splits list.splits)
  then have "\<not> over_limit msg hk st" using assms(4,5) by (simp add: over_limit_def)
  then show ?thesis
    using assms(2-5) by (simp add: register_admitted(1) countByAccount_register one_enat_def)
qed

theorem empty_label_exceeds_limit_witness:
  "enat (AgentRegistry_countByAccount ''acc''
     (hs_agents (fst (register_agent demo_config ''agt_2'' 0 [] 2 (demo_register\<lparr>ar_label := []\<rparr>)
        demo_handshake demo_hub)))) = enat 2"
  using empty_label_exceeds_limit [OF demo_hub_inv, of "demo_register\<lparr>ar_label := []\<rparr>" demo_handshake 0 demo_config
      "''agt_2''" 0 "[]" 2]
  by (simp add: demo_handshake_def demo_hub_agents one_enat_def)

section \<open>Handlers that admit nobody\<close>

text \<open>
  What all other messages of an agent keep: the invariants, and the set of known agents.
\<close>

definition calm :: "hub_state \<Rightarrow> hub_state \<Rightarrow> bool" where
  "calm st st' \<longleftrightarrow> (hub_inv st \<longrightarrow> hub_inv st' \<and> (no_orphans st \<longrightarrow> no_orphans st')) \<and>
     (\<forall>i. jm_get (ag_byAgentId (hs_agents st')) i = None \<longleftrightarrow> jm_get (ag_byAgentId (hs_agents st)) i = None)"

lemma calm_refl [simp]: "calm st st" by (simp add: calm_def)

lemma calm_trans: "calm st st' \<Longrightarrow> calm st' st'' \<Longrightarrow> calm st st''" by (auto simp: calm_def)

lemma calm_pendingI:
  assumes "pending_inv (hs_pending st) \<Longrightarrow> pending_inv p"
  shows "calm st (st\<lparr>hs_pending := p\<rparr>)"
  using assms by (auto simp: calm_def hub_inv_def no_orphans_def)

lemma calm_response: "calm st (fst (snd (handleTunnelResponse m st)))"
proof -
  have "fst (snd (handleTunnelResponse m st)) =
      st\<lparr>hs_pending := fst (snd (PendingRegistry_resolve (tr_requestId m) m (hs_pending st)))\<rparr>"
    by (simp add: handleTunnelResponse_def split: prod.split option.split bool.split)
  then show ?thesis using pending_inv_resolve by (auto intro: calm_pendingI)
qed

lemma calm_agent_error: "calm st (fst (handleTunnelAgentError m st))"
  using pending_inv_reject by (auto simp: handleTunnelAgentError_def split_beta intro: calm_pendingI)

lemma registered_update:
  assumes "agent_inv reg" and "liveness_only f" and "registered reg s"
  shows "\<exists>s'. registered (AgentRegistry_update i f reg) s' \<and> as_agentId s' = as_agentId s"
  using assms(3) upd_session_key [OF assms(2), of i s]
  by (intro exI [of _ "upd_session i f s"]) (simp add: registered_def view_update)

lemma calm_pong: "calm st (fst (handleAgentPong cfg now m st))"
proof -
  have "no_orphans (fst (handlePong cfg now i st))" if "hub_inv st" "no_orphans st" for i
    using that registered_update [OF _ liveness_pong]
    by (fastforce simp: handlePong_def no_orphans_def hub_inv_def split: option.split)
  then show ?thesis
    using hub_inv_pong
    by (auto simp: calm_def handleAgentPong_def handlePong_def index_update split: option.splits)
qed

lemma calm_teardown: "calm st (fst (teardown k code reason n st))"
  by (simp add: calm_def hub_inv_teardown no_orphans_teardown)

lemma calm_from_agent: "(\<And>i. calm st (fst (h i st))) \<Longrightarrow> calm st (fst (from_agent ws h st))"
  by (simp add: from_agent_def split: option.split)

lemma calm_frames:
  "calm st (fst (handleAgentWsMessage isOpen ws m st))" "calm st (fst (handleAgentWsClose ws c st))"
  "calm st (fst (handleAgentWsError ws e st))"
  by (auto simp: handleAgentWsMessage_def handleAgentWsClose_def handleAgentWsError_def
      HttpTunnel_handleAgentWsMessage_def HttpTunnel_handleAgentWsClose_def HttpTunnel_handleAgentWsError_def
      calm_teardown intro!: calm_from_agent split: option.split)

lemma calm_batch_item: "calm st (fst (batch_item_step cfg now isOpen ws item st))"
  by (cases item) (simp_all add: batch_item_step_def calm_response calm_agent_error calm_pong calm_frames)

lemma calm_batch: "calm st (fst (handleAgentBatch cfg now isOpen ws items st))"
proof (induction items arbitrary: st)
  case Nil
  then show ?case by (simp add: handleAgentBatch_def)
next
  case (Cons item items)
  have "calm st (fst (batch_item_step cfg now isOpen ws item st))" by (rule calm_batch_item)
  with Cons.IH show ?case by (auto simp: handleAgentBatch_def split_beta intro: calm_trans)
qed

lemma calm_route:
  assumes "\<And>m. frame \<noteq> Inr (MAgentRegister m)"
  shows "calm st (fst (routeAgentMessage env ws frame st))"
proof (cases frame)
  case (Inl err)
  then show ?thesis by (cases err) (simp_all add: routeAgentMessage_def)
next
  case (Inr msg)
  with assms show ?thesis
    by (cases msg) (auto simp: routeAgentMessage_def split_beta calm_pong calm_batch calm_response
        calm_agent_error calm_frames)
qed

lemma unknown_not_registered:
  assumes "hub_inv st" and "jm_get (ag_byAgentId (hs_agents st)) (as_agentId s) = None"
  shows "\<not> registered (hs_agents st) s"
  using agent_invD(5) [of "hs_agents st" "as_agentId s" s] assms by (auto simp: hub_inv_def)

lemma route_register:
  "fst (routeAgentMessage env ws (Inr (MAgentRegister m)) st) = fst (snd (handleAgentRegister env ws m st))"
  by (simp add: routeAgentMessage_def split_beta)

section \<open>Only authentic agents\<close>

text \<open>
  C14: nothing an agent sends adds a session that its key does not admit. When routing a frame makes
  an agent known that was not known before, the frame was a registration whose key the loader found
  ACTIVE, unexpired, of an account that may connect, with the tunnel scope, and whose secret matches a
  hash usable at that time; the new session has the sender's socket, the label asked for and the
  account and id of the key's database row.
\<close>

theorem only_authentic_agents:
  assumes "hub_inv st" and "registered (hs_agents (fst (routeAgentMessage env ws frame st))) s"
    and "jm_get (ag_byAgentId (hs_agents st)) (as_agentId s) = None"
  shows "\<exists>msg key h. frame = Inr (MAgentRegister msg) \<and> as_ws s = ws \<and> as_label s = ar_label msg \<and>
    ri_loadKey (ae_io env) (ar_keyId msg) = Some (Some key) \<and>
    ri_findApiKey (ae_io env) (ar_keyId msg) = Some (Some (as_keyId s, as_accountId s)) \<and>
    kh_status key = ''ACTIVE'' \<and> isConnectableAccountStatus (kh_accountStatus key) \<and>
    (\<forall>e. kh_expiresAt key = Some e \<longrightarrow> ae_now env < e) \<and>
    (''*'' \<in> set (kh_scopes key) \<or> ''tunnel:connect'' \<in> set (kh_scopes key)) \<and>
    usable_hash key (ae_now env) h \<and>
    hex_decode h = hex_decode (pf_hmac (hc_platform (ae_cfg env)) (ae_pepper env) (ar_rawSecret msg))"
proof -
  have unknown: "\<not> registered (hs_agents st) s"
    by (rule unknown_not_registered [OF assms(1,3)])
  obtain msg where frame: "frame = Inr (MAgentRegister msg)"
  proof (rule ccontr)
    assume "\<not> thesis"
    then have "calm st (fst (routeAgentMessage env ws frame st))"
      using that by (intro calm_route) blast
    then have "hub_inv (fst (routeAgentMessage env ws frame st))"
      "jm_get (ag_byAgentId (hs_agents (fst (routeAgentMessage env ws frame st)))) (as_agentId s) = None"
      using assms(1,3) by (auto simp: calm_def)
    with assms(2) unknown_not_registered show False by blast
  qed
  with assms(2) unknown obtain hk where hk: "register_handshake (hc_platform (ae_cfg env)) (ae_pepper env) (ae_io env)
      (ae_now env) ws msg = Some (Inr hk)"
    and reg: "registered (hs_agents (fst (register_agent (ae_cfg env) (ae_agentId env) (ae_now env) (ae_ip env) ws msg hk st))) s"
    by (auto simp: route_register handleAgentRegister_def split: option.splits sum.splits)
  have "\<not> over_limit msg hk st" using reg unknown register_refused by auto
  with reg have "registered (fst (AgentRegistry_register (register_session (ae_agentId env) (ae_now env) (ae_ip env) ws msg hk) (hs_agents st))) s"
    by (simp add: register_admitted(1))
  then have s: "s = register_session (ae_agentId env) (ae_now env) (ae_ip env) ws msg hk"
    using unknown by (auto simp: registered_register split: if_splits)
  from hk obtain auth where auth: "authenticateAgent (hc_platform (ae_cfg env)) (ae_pepper env)
      (ri_loadKey (ae_io env)) (ae_now env) msg = Some (Inr auth)"
    and row: "ri_findApiKey (ae_io env) (ha_keyId auth) = Some (Some (hk_apiKeyId hk, hk_accountId hk))"
    by (auto simp: register_handshake_def split: option.splits sum.splits prod.splits)
  from auth obtain key where key: "ri_loadKey (ae_io env) (ar_keyId msg) = Some (Some key)"
    "authenticate_with_key (hc_platform (ae_cfg env)) (ae_pepper env) (ae_now env) msg key = Inr auth"
    by (auto simp: authenticateAgent_def auth_error_def split: option.splits)
  with authenticate_with_key_Inr [OF key(2)] row s frame show ?thesis
    by (auto simp: register_session_def)
qed

definition demo_io :: register_io where
  "demo_io = \<lparr>ri_loadKey = (\<lambda>_. Some (Some demo_key)), ri_findAccount = (\<lambda>_. Some (Some ''ACTIVE'')),
     ri_findSubscription = (\<lambda>_. Some None), ri_findApiKey = (\<lambda>_. Some (Some (''row'', ''new''))),
     ri_findSlug = (\<lambda>_. Some (Some ''acme''))\<rparr>"

definition demo_env :: agent_env where
  "demo_env = \<lparr>ae_cfg = demo_config, ae_pepper = ''p'', ae_io = demo_io, ae_now = 5, ae_agentId = ''agt_2'',
     ae_ip = [], ae_isOpen = (\<lambda>_. True)\<rparr>"

definition demo_new_handshake :: handshake where
  "demo_new_handshake = \<lparr>hk_auth = \<lparr>ha_accountId = ''a'', ha_keyId = ''k'', ha_scopes = [''tunnel:connect''],
       ha_secretFingerprint = Some ''00''\<rparr>,
     hk_limit = \<lparr>al_limit = 1, al_planName = ''FREE''\<rparr>, hk_apiKeyId = ''row'', hk_accountId = ''new'',
     hk_slug = Some ''acme''\<rparr>"

lemma demo_env_handshake:
  "register_handshake demo_platform ''p'' demo_io 5 2 demo_register = Some (Inr demo_new_handshake)"
  by (simp add: register_handshake_def authenticateAgent_def authenticate_with_key_def demo_key_def demo_register_def
      demo_platform_def demo_io_def demo_new_handshake_def hash_matches_def timingSafeEqual_def
      isConnectableAccountStatus_def CONNECTABLE_ACCOUNT_STATUSES_def secretFingerprint_def Let_def list_all2_refl
      resolveAgentLimit_def findPlanLimitsForAccount_def resolvePlanForAccount_def NOT_ENTITLED_ACCOUNT_STATUSES_def
      Plan_name_def)

theorem only_authentic_agents_witness:
  "\<exists>key. ri_loadKey demo_io (ar_keyId demo_register) = Some (Some key) \<and> kh_status key = ''ACTIVE''"
proof -
  let ?s = "register_session ''agt_2'' 5 [] 2 demo_register demo_new_handshake"
  have "\<not> over_limit demo_register demo_new_handshake demo_hub"
    by (simp add: over_limit_def demo_new_handshake_def one_enat_def demo_hub_def demo_session_def
        AgentRegistry_countByAccount_def AgentRegistry_new_def acct_of_def AgentRegistry_register_def)
  then have "registered (hs_agents (fst (routeAgentMessage demo_env 2 (Inr (MAgentRegister demo_register)) demo_hub))) ?s"
    using demo_env_handshake
    by (simp add: route_register handleAgentRegister_def demo_env_def demo_config_def register_admitted(1)
        registered_register)
  moreover have "jm_get (ag_byAgentId (hs_agents demo_hub)) (as_agentId ?s) = None"
    by (simp add: demo_hub_def demo_session_def index_register AgentRegistry_new_def agent_view_def acct_of_def
        split: option.split)
  ultimately show ?thesis
    using only_authentic_agents [OF demo_hub_inv, of demo_env 2 "Inr (MAgentRegister demo_register)" ?s]
    by (auto simp: demo_env_def)
qed

section \<open>An agent goes away\<close>

lemma agent_gone_state:
  "hs_agents (fst (agent_gone s st)) = hs_agents (fst (evict_session s st))"
  "hs_pending (fst (agent_gone s st)) = hs_pending (fst (evict_session s st))"
  "hs_sdks (fst (agent_gone s st)) = hs_sdks st"
  "hs_tunnels (fst (agent_gone s st)) =
     hs_tunnels (fst (close_tunnels (as_agentId s) 1012 ''Tunnel agent disconnected'' (fst (evict_session s st))))"
  "hs_deferred (fst (agent_gone s st)) = hs_deferred st @
     [DeferSubUnregister (as_label s) (as_accountId s) (as_agentId s)]"
  "hs_sub (fst (agent_gone s st)) = hs_sub st"
  by (simp_all add: agent_gone_def split_beta)

lemma hub_inv_cong:
  "hs_agents st' = hs_agents st \<Longrightarrow> hs_sdks st' = hs_sdks st \<Longrightarrow> hs_pending st' = hs_pending st \<Longrightarrow>
   hs_tunnels st' = hs_tunnels st \<Longrightarrow> hub_inv st' = hub_inv st"
  by (simp add: hub_inv_def)

interpretation closing: full_eviction agent_gone
proof
  fix st s
  assume inv: "hub_inv st"
  have "hub_inv (fst (close_tunnels (as_agentId s) 1012 ''Tunnel agent disconnected'' (fst (evict_session s st))))"
    using inv by (simp add: hub_inv_evict hub_inv_close_tunnels)
  then show "hub_inv (fst (agent_gone s st))"
    by (subst hub_inv_cong) (simp_all add: agent_gone_state)
  show "\<exists>pre post. snd (agent_gone s st) = pre @
      snd (snd (PendingRegistry_rejectAllForAgent (as_accountId s) (as_label s) (hs_pending st))) @ post"
    by (rule exI [of _ "[]"]) (simp add: agent_gone_def evict_session_def split_beta)
  show "tunnel_view (hs_tunnels (fst (agent_gone s st))) k =
      (case tunnel_view (hs_tunnels st) k of
         Some e \<Rightarrow> if tw_agentId e = as_agentId s then None else Some e | None \<Rightarrow> None)" for k
    using tunnels_after_close [OF hub_inv_evict [OF inv, of s]] by (simp add: agent_gone_state)
qed (simp_all add: agent_gone_state)

text \<open>
  when an agent's socket closes, nothing of the agent is left behind. Its session is gone, no other
  session is, every request that waited for it has left the registry and was answered, requests for
  other agents still wait, its tunnel WebSockets are closed and no other, no orphan appears, and the
  removal of its subdomain entry is queued, naming its own agentId.
\<close>

theorem agent_close_complete:
  assumes "hub_inv st" and "no_orphans st" and "AgentRegistry_findByWs ws (hs_agents st) = Some s"
  shows "case onAgentClose ws st of (st', fx) \<Rightarrow>
    hub_inv st' \<and> no_orphans st' \<and>
    agent_view (hs_agents st') = (agent_view (hs_agents st))(session_key s := None) \<and>
    (\<forall>k req. jm_get (pd_pending (hs_pending st)) k = Some req \<longrightarrow>
       (if for_agent (as_accountId s) (as_label s) req
        then jm_get (pd_pending (hs_pending st')) k = None \<and> (\<exists>f \<in> set fx. answers (target_of (pr_reply req)) f)
        else jm_get (pd_pending (hs_pending st')) k = Some req)) \<and>
    (\<forall>k e. tunnel_view (hs_tunnels st) k = Some e \<longrightarrow>
       tunnel_view (hs_tunnels st') k = (if tw_agentId e = as_agentId s then None else Some e)) \<and>
    last (hs_deferred st') = DeferSubUnregister (as_label s) (as_accountId s) (as_agentId s)"
proof -
  have eq: "onAgentClose ws st = agent_gone s st" using assms(3) by (simp add: onAgentClose_def)
  have reg: "registered (hs_agents st) s"
    using findByWs_sound [OF _ assms(3)] assms(1) by (simp add: hub_inv_def)
  show ?thesis
    unfolding eq split_beta
  proof (intro conjI)
    show "hub_inv (fst (agent_gone s st))" by (rule closing.drop_inv [OF assms(1)])
    show "no_orphans (fst (agent_gone s st))" by (rule closing.drop_no_orphans [OF assms(1) reg assms(2)])
    show "agent_view (hs_agents (fst (agent_gone s st))) = (agent_view (hs_agents st))(session_key s := None)"
      by (rule closing.dropped_gone [OF assms(1)])
    show "\<forall>k req. jm_get (pd_pending (hs_pending st)) k = Some req \<longrightarrow>
       (if for_agent (as_accountId s) (as_label s) req
        then jm_get (pd_pending (hs_pending (fst (agent_gone s st)))) k = None \<and>
          (\<exists>f \<in> set (snd (agent_gone s st)). answers (target_of (pr_reply req)) f)
        else jm_get (pd_pending (hs_pending (fst (agent_gone s st)))) k = Some req)"
      using closing.dropped_waiting [OF assms(1), of s] closing.dropped_answered [OF assms(1), of _ _ s] by simp
    show "\<forall>k e. tunnel_view (hs_tunnels st) k = Some e \<longrightarrow>
       tunnel_view (hs_tunnels (fst (agent_gone s st))) k = (if tw_agentId e = as_agentId s then None else Some e)"
      using closing.drop_tunnels [OF assms(1), of s] by simp
  qed (simp add: agent_gone_state)
qed

theorem agent_close_complete_witness:
  "agent_view (hs_agents (fst (onAgentClose 1 demo_hub))) (''acc'', ''web'') = None"
proof -
  have "AgentRegistry_findByWs 1 (hs_agents demo_hub) = Some demo_session"
    by (simp add: demo_hub_def AgentRegistry_findByWs_def index_register) (simp add: demo_session_def)
  from agent_close_complete [OF demo_hub_inv demo_hub_no_orphans this] show ?thesis
    by (simp add: split_beta session_key_def demo_session_def)
qed

section \<open>Requests of SDK clients\<close>

lemma hub_inv_sdk_request:
  assumes "hub_inv st" and "jm_get (pd_timers (hs_pending st)) timer = None"
  shows "hub_inv (fst (handleSdkRequest cfg now timer auth ws msg st))"
  using assms
  by (auto simp: handleSdkRequest_def split_beta hub_inv_def timer_fresh_def intro!: pending_inv_admit
      split: sum.split)

lemma sdk_request_agentD:
  assumes "sdk_request_agent auth msg st = Inr (a, s)" and "hub_inv st"
  shows "auth = Inr a" and "registered (hs_agents st) s" and "as_accountId s = ha_accountId a"
    and "sdk_body_bytes msg \<le> MAX_PAYLOAD_BYTES" and "isOriginFormPath (Some (sq_path msg))"
    and "\<And>l. sq_label msg = Some l \<Longrightarrow> l \<noteq> [] \<Longrightarrow> as_label s = l"
proof -
  have ai: "agent_inv (hs_agents st)" using assms(2) by (simp add: hub_inv_def)
  show "auth = Inr a" "sdk_body_bytes msg \<le> MAX_PAYLOAD_BYTES" "isOriginFormPath (Some (sq_path msg))"
    using assms(1) by (auto simp: sdk_request_agent_def split: sum.splits if_splits option.splits)
  have found: "AgentRegistry_find (ha_accountId a) (sq_label msg) (hs_agents st) = Some s"
    using assms(1) by (auto simp: sdk_request_agent_def split: sum.splits if_splits option.splits)
  from find_registered [OF ai this] show "registered (hs_agents st) s" "as_accountId s = ha_accountId a" by auto
  show "as_label s = l" if "sq_label msg = Some l" "l \<noteq> []" for l
  proof -
    have "agent_view (hs_agents st) (ha_accountId a, l) = Some s"
      using found that find_label [OF ai that(2)] by simp
    then show ?thesis using agent_invD(4) [OF ai] by (auto simp: session_key_def)
  qed
qed

lemma sdk_request_admitted:
  assumes "sdk_request_agent auth msg st = Inr (a, s)"
  shows "\<exists>r. jm_get (pd_pending (hs_pending (fst (handleSdkRequest cfg now timer auth ws msg st)))) =
      (jm_get (pd_pending (hs_pending st)))(sq_requestId msg \<mapsto> r) \<and>
    for_agent (ha_accountId a) (as_label s) r \<and> target_of (pr_reply r) = TgtSdk ws (sq_requestId msg)"
    and "answer_count (TgtSdk ws (sq_requestId msg)) (snd (handleSdkRequest cfg now timer auth ws msg st)) = 0"
    and "filter (\<lambda>f. case f of FxSend _ _ \<Rightarrow> True | _ \<Rightarrow> False) (snd (handleSdkRequest cfg now timer auth ws msg st)) =
      [FxSend (as_ws s) (MTunnelForward (sdk_forward_message cfg msg))]"
  subgoal using assms
    by (intro exI [of _ "\<lparr>pr_requestId = sq_requestId msg, pr_accountId = ha_accountId a,
          pr_agentLabel = as_label s, pr_keyId = ha_keyId a, pr_enqueuedAt = now,
          pr_reply = ReplySdk ws (sq_requestId msg), pr_timer = timer\<rparr>"])
      (simp add: handleSdkRequest_def split_beta admit_view for_agent_def target_of_def fun_eq_iff)
  using assms
  by (simp_all add: handleSdkRequest_def split_beta admit_request_def PendingRegistry_enqueue_def
      arm_timer_def answers_sdk_def)

text \<open>
  C30: an SDK request reaches an agent of its own account or none. It is either answered at once, with
  one error and no other effect, or it is registered as pending for the authenticated account and
  handed to exactly one agent, which is connected, belongs to that account and has the label asked
  for (if one was); then its path is an origin-form path, its body is within the limit, and the agent
  receives the method, path, query, headers and body unchanged. A failed authentication is always
  answered with an error. The hub's invariant is kept.
\<close>

theorem sdk_request_isolated:
  assumes "hub_inv st" and "jm_get (pd_timers (hs_pending st)) timer = None"
  shows "case handleSdkRequest cfg now timer auth ws msg st of (st', fx) \<Rightarrow>
    hub_inv st' \<and>
    ((\<exists>code m. st' = st \<and> fx = [FxSend ws (buildSdkError code m (Some (sq_requestId msg)) False)]) \<or>
     (\<exists>a s r fwd. auth = Inr a \<and> registered (hs_agents st) s \<and> as_accountId s = ha_accountId a \<and>
        (\<forall>l. sq_label msg = Some l \<longrightarrow> l \<noteq> [] \<longrightarrow> as_label s = l) \<and>
        sdk_body_bytes msg \<le> MAX_PAYLOAD_BYTES \<and> isOriginFormPath (Some (sq_path msg)) \<and>
        jm_get (pd_pending (hs_pending st')) = (jm_get (pd_pending (hs_pending st)))(sq_requestId msg \<mapsto> r) \<and>
        for_agent (ha_accountId a) (as_label s) r \<and> target_of (pr_reply r) = TgtSdk ws (sq_requestId msg) \<and>
        answer_count (TgtSdk ws (sq_requestId msg)) fx = 0 \<and>
        filter (\<lambda>f. case f of FxSend _ _ \<Rightarrow> True | _ \<Rightarrow> False) fx = [FxSend (as_ws s) (MTunnelForward fwd)] \<and>
        tf_requestId fwd = sq_requestId msg \<and> tf_meth fwd = sq_meth msg \<and> tf_path fwd = sq_path msg \<and>
        tf_query fwd = sq_query msg \<and> tf_headers fwd = sq_headers msg \<and> tf_body fwd = sq_body msg))"
proof (cases "sdk_request_agent auth msg st")
  case (Inl e)
  then show ?thesis using assms(1)
    by (cases e) (auto simp: handleSdkRequest_def sdk_refuse_def)
next
  case (Inr p)
  obtain a s where p: "p = (a, s)" by fastforce
  note req = Inr [unfolded p] and D = sdk_request_agentD [OF Inr [unfolded p] assms(1)]
  obtain r where r: "jm_get (pd_pending (hs_pending (fst (handleSdkRequest cfg now timer auth ws msg st)))) =
      (jm_get (pd_pending (hs_pending st)))(sq_requestId msg \<mapsto> r)"
    "for_agent (ha_accountId a) (as_label s) r" "target_of (pr_reply r) = TgtSdk ws (sq_requestId msg)"
    using sdk_request_admitted(1) [OF req] by blast
  have "hub_inv (fst (handleSdkRequest cfg now timer auth ws msg st))" by (rule hub_inv_sdk_request [OF assms])
  moreover have "tf_requestId (sdk_forward_message cfg msg) = sq_requestId msg \<and>
      tf_meth (sdk_forward_message cfg msg) = sq_meth msg \<and> tf_path (sdk_forward_message cfg msg) = sq_path msg \<and>
      tf_query (sdk_forward_message cfg msg) = sq_query msg \<and>
      tf_headers (sdk_forward_message cfg msg) = sq_headers msg \<and> tf_body (sdk_forward_message cfg msg) = sq_body msg"
    by (simp add: sdk_forward_message_def)
  ultimately show ?thesis
    unfolding split_beta using D r sdk_request_admitted(2,3) [OF req, where cfg = cfg and now = now and timer = timer and ws = ws]
    by blast
qed

definition demo_sdk_request :: SdkRequestMsg where
  "demo_sdk_request = \<lparr>sq_keyId = ''k'', sq_requestId = ''q'', sq_ts = 0, sq_signature = [], sq_label = Some ''web'',
     sq_meth = ''GET'', sq_path = ''/x'', sq_query = [], sq_headers = [], sq_body = None\<rparr>"

theorem sdk_request_isolated_witness:
  "hub_inv (fst (handleSdkRequest demo_config 0 4 (Inr (hk_auth demo_handshake)) 9 demo_sdk_request demo_hub))"
  using sdk_request_isolated [OF demo_hub_inv, where timer = 4 and cfg = demo_config and now = 0 and ws = 9
      and auth = "Inr (hk_auth demo_handshake)" and msg = demo_sdk_request]
  by (simp add: demo_hub_def PendingRegistry_new_def split_beta)

end
