(* ===== verification/StatusSweep.thy ===== *)
theory StatusSweep
  imports HubState
begin

text \<open>
  \<^verbatim>\<open>apps/hub/src/services/AccountStatusSweep.service.ts\<close>: the periodic check that evicts agents
  whose account or key no longer admits them. \<^verbatim>\<open>tick\<close> takes a snapshot of the sessions, awaits
  two database reads, and then works through the snapshot: \<open>Sweep_snapshot\<close> is the part
  before the awaits, \<open>Sweep_apply\<close> the part after, on whatever the state is by then. A failed read
  is \<open>None\<close>. \<^verbatim>\<open>start\<close> and \<^verbatim>\<open>stop\<close> only arm and clear the interval.
\<close>

definition Sweep_evict :: "AgentSession \<Rightarrow> string \<Rightarrow> hub_state \<Rightarrow> hub_state \<times> effect list" where
  "Sweep_evict session message st =
     (case evict_session session st of
        (st1, fx1) \<Rightarrow>
          (case close_tunnels (as_agentId session) 1008 message st1 of
             (st2, fx2) \<Rightarrow>
               (st2, FxSend (as_ws session) (buildHubError ''AUTH_FAILED'' message None True) # fx1 @ fx2 @
                  [FxDb (DbSessionDisconnected (as_agentId session) ''EVICTED''),
                   FxRedisDel (presence_key session), FxClose (as_ws session)])))"

definition Sweep_snapshot :: "hub_state \<Rightarrow> AgentSession list \<times> string list \<times> string list" where
  "Sweep_snapshot st =
     (let sessions = AgentRegistry_allSessions (hs_agents st)
      in (sessions, remdups (map as_accountId sessions), remdups (map as_keyId sessions)))"

text \<open>Why a session must go, given what the two reads returned.\<close>

definition sweep_reason ::
  "platform \<Rightarrow> (string, string) jsmap \<Rightarrow> (string, KeyState) jsmap io \<Rightarrow> time \<Rightarrow> AgentSession \<Rightarrow> string option" where
  "sweep_reason pf statuses keyStates now session =
     (case jm_get statuses (as_accountId session) of
        None \<Rightarrow> Some ''Account is not active''
      | Some status \<Rightarrow>
          if \<not> isConnectableAccountStatus status then Some ''Account is not active''
          else (case keyStates of
              None \<Rightarrow> None
            | Some states \<Rightarrow> keyRejection pf (jm_get states (as_keyId session)) session now))"

definition sweep_one ::
  "platform \<Rightarrow> (string, string) jsmap \<Rightarrow> (string, KeyState) jsmap io \<Rightarrow> time \<Rightarrow> AgentSession \<Rightarrow>
   hub_state \<Rightarrow> hub_state \<times> effect list" where
  "sweep_one pf statuses keyStates now session st =
     (case sweep_reason pf statuses keyStates now session of
        None \<Rightarrow> (st, [])
      | Some [] \<Rightarrow> (st, [])
      | Some reason \<Rightarrow> Sweep_evict session reason st)"

definition Sweep_apply ::
  "platform \<Rightarrow> (string, string) jsmap io \<Rightarrow> (string, KeyState) jsmap io \<Rightarrow> time \<Rightarrow> AgentSession list \<Rightarrow>
   hub_state \<Rightarrow> hub_state \<times> effect list" where
  "Sweep_apply pf statuses keyStates now sessions st =
     (if length sessions = 0 then (st, [])
      else (case statuses of
          None \<Rightarrow> (st, [])
        | Some statuses \<Rightarrow> hub_fold (sweep_one pf statuses keyStates now) sessions st))"

section \<open>The eviction contract\<close>

lemma sweep_evict_state:
  "fst (Sweep_evict s m st) = fst (close_tunnels (as_agentId s) 1008 m (fst (evict_session s st)))"
  by (simp add: Sweep_evict_def split_beta)

interpretation sweep: full_eviction "\<lambda>s. Sweep_evict s message" for message
proof
  fix st s
  assume inv: "hub_inv st"
  show "hub_inv (fst (Sweep_evict s message st))"
    using inv by (simp add: sweep_evict_state hub_inv_evict hub_inv_close_tunnels)
  show "hs_agents (fst (Sweep_evict s message st)) =
      snd (AgentRegistry_evict (as_accountId s) (as_label s) (hs_agents st))"
    by (simp add: sweep_evict_state)
  show "hs_pending (fst (Sweep_evict s message st)) =
      fst (snd (PendingRegistry_rejectAllForAgent (as_accountId s) (as_label s) (hs_pending st)))"
    by (simp add: sweep_evict_state)
  show "\<exists>pre post. snd (Sweep_evict s message st) = pre @
      snd (snd (PendingRegistry_rejectAllForAgent (as_accountId s) (as_label s) (hs_pending st))) @ post"
    by (rule exI [of _ "[FxSend (as_ws s) (buildHubError ''AUTH_FAILED'' message None True)]"])
      (simp add: Sweep_evict_def evict_session_def split_beta)
  show "tunnel_view (hs_tunnels (fst (Sweep_evict s message st))) k =
      (case tunnel_view (hs_tunnels st) k of
         Some e \<Rightarrow> if tw_agentId e = as_agentId s then None else Some e | None \<Rightarrow> None)" for k
    using tunnels_after_close [OF hub_inv_evict [OF inv, of s]] by (simp add: sweep_evict_state)
qed

section \<open>Correctness\<close>

lemma keyRejection_nonempty: "keyRejection pf key s now \<noteq> Some []"
  by (auto simp: keyRejection_def Let_def split: option.splits list.splits if_splits)

lemma sweep_reason_nonempty: "sweep_reason pf statuses keyStates now s \<noteq> Some []"
  by (auto simp: sweep_reason_def keyRejection_nonempty split: option.splits if_splits)

lemma sweep_one_cases:
  "sweep_one pf statuses keyStates now s st =
     (case sweep_reason pf statuses keyStates now s of None \<Rightarrow> (st, []) | Some r \<Rightarrow> Sweep_evict s r st)"
  using sweep_reason_nonempty [of pf statuses keyStates now s]
  by (auto simp: sweep_one_def split: option.split list.split)

lemma sweep_loop:
  assumes "hub_inv st" and "no_orphans st"
    and "distinct (map session_key ss)" and "\<forall>s \<in> set ss. registered (hs_agents st) s"
  shows "hub_inv (fst (hub_fold (sweep_one pf statuses keyStates now) ss st)) \<and>
    no_orphans (fst (hub_fold (sweep_one pf statuses keyStates now) ss st)) \<and>
    (\<forall>k. agent_view (hs_agents (fst (hub_fold (sweep_one pf statuses keyStates now) ss st))) k =
      (if \<exists>s \<in> set ss. session_key s = k \<and> sweep_reason pf statuses keyStates now s \<noteq> None then None
       else agent_view (hs_agents st) k))"
  using assms
proof (induction ss arbitrary: st)
  case Nil
  then show ?case by simp
next
  case (Cons s ss)
  show ?case
  proof (cases "sweep_reason pf statuses keyStates now s")
    case None
    with Cons.IH [OF Cons.prems(1,2)] Cons.prems(3,4) show ?thesis
      by (auto simp: sweep_one_cases split_beta)
  next
    case (Some r)
    let ?st = "fst (Sweep_evict s r st)"
    have reg: "registered (hs_agents st) s" using Cons.prems(4) by simp
    have inv: "hub_inv ?st" by (rule sweep.drop_inv [OF Cons.prems(1)])
    have no: "no_orphans ?st" by (rule sweep.drop_no_orphans [OF Cons.prems(1) reg Cons.prems(2)])
    have view: "agent_view (hs_agents ?st) = (agent_view (hs_agents st))(session_key s := None)"
      by (rule sweep.dropped_gone [OF Cons.prems(1)])
    have "registered (hs_agents ?st) s'" if "s' \<in> set ss" for s'
    proof -
      have "session_key s' \<noteq> session_key s" using Cons.prems(3) that by (auto simp: image_iff)
      with Cons.prems(4) that view show ?thesis by (simp add: registered_def)
    qed
    with Cons.IH [OF inv no] Cons.prems(3) Some view show ?thesis
      by (auto simp: sweep_one_cases split_beta)
  qed
qed

lemma snapshot_sessions:
  assumes "hub_inv st"
  shows "distinct (map session_key (AgentRegistry_allSessions (hs_agents st)))"
    and "\<forall>s \<in> set (AgentRegistry_allSessions (hs_agents st)). registered (hs_agents st) s"
proof -
  have ai: "agent_inv (hs_agents st)" using assms by (simp add: hub_inv_def)
  note set = allSessions_registered [OF ai]
  show "\<forall>s \<in> set (AgentRegistry_allSessions (hs_agents st)). registered (hs_agents st) s" by (simp add: set)
  have "inj_on session_key (set (AgentRegistry_allSessions (hs_agents st)))"
    using registered_key by (auto simp: set inj_on_def)
  then show "distinct (map session_key (AgentRegistry_allSessions (hs_agents st)))"
    using allSessions_distinct [OF ai] by (simp add: distinct_map)
qed

text \<open>
  the sweep evicts exactly the agents that may no longer stay. When no agent connects or leaves
  while the two reads are in flight, after the sweep an agent is registered if and only if it was
  before and neither its account's status nor its key's state rejects it; every evicted agent's pending
  requests and tunnel WebSockets are gone with it, so no tunnel is left without an agent. A failed
  status read changes nothing.
\<close>

theorem sweep_exact:
  assumes "hub_inv st" and "no_orphans st"
  shows "hub_inv (fst (Sweep_apply pf (Some statuses) keyStates now (fst (Sweep_snapshot st)) st)) \<and>
    no_orphans (fst (Sweep_apply pf (Some statuses) keyStates now (fst (Sweep_snapshot st)) st)) \<and>
    (\<forall>k. agent_view (hs_agents (fst (Sweep_apply pf (Some statuses) keyStates now (fst (Sweep_snapshot st)) st))) k =
      (case agent_view (hs_agents st) k of
         Some s \<Rightarrow> if sweep_reason pf statuses keyStates now s = None then Some s else None
       | None \<Rightarrow> None)) \<and>
    Sweep_apply pf None keyStates now (fst (Sweep_snapshot st)) st = (st, [])"
proof -
  define st' where "st' = fst (Sweep_apply pf (Some statuses) keyStates now (fst (Sweep_snapshot st)) st)"
  have ai: "agent_inv (hs_agents st)" using assms(1) by (simp add: hub_inv_def)
  let ?ss = "AgentRegistry_allSessions (hs_agents st)"
  have set: "set ?ss = {s. registered (hs_agents st) s}" by (rule allSessions_registered [OF ai])
  have st': "st' = fst (hub_fold (sweep_one pf statuses keyStates now) ?ss st)"
    by (simp add: st'_def Sweep_apply_def Sweep_snapshot_def Let_def)
  have L: "hub_inv st'" "no_orphans st'"
    "\<And>k. agent_view (hs_agents st') k =
      (if \<exists>s \<in> set ?ss. session_key s = k \<and> sweep_reason pf statuses keyStates now s \<noteq> None then None
       else agent_view (hs_agents st) k)"
    unfolding st' using sweep_loop [OF assms(1,2) snapshot_sessions [OF assms(1)], of pf statuses keyStates now] by blast+
  have "(\<exists>s \<in> set ?ss. session_key s = k \<and> sweep_reason pf statuses keyStates now s \<noteq> None) \<longleftrightarrow>
      (\<exists>s. agent_view (hs_agents st) k = Some s \<and> sweep_reason pf statuses keyStates now s \<noteq> None)" for k
    unfolding set using agent_invD(4) [OF ai, of k] by (auto simp: registered_def)
  with L have "agent_view (hs_agents st') k =
      (case agent_view (hs_agents st) k of
         Some s \<Rightarrow> if sweep_reason pf statuses keyStates now s = None then Some s else None
       | None \<Rightarrow> None)" for k
    by (auto split: option.split)
  with L show ?thesis unfolding st'_def by (simp add: Sweep_apply_def [of _ None])
qed

text \<open>
  when the agent reconnects while the reads are in flight, the sweep evicts the wrong session. If
  the snapshot's session is to go but its label meanwhile belongs to a newer session on another
  socket, the newer session is unregistered, yet only the old socket is told and closed: the new agent
  stays connected and is never reachable again.
\<close>

theorem sweep_evicts_replacement:
  assumes "hub_inv st" and "agent_view (hs_agents st) (session_key old) = Some new"
    and "as_ws new \<noteq> as_ws old"
    and "sweep_reason pf statuses keyStates now old = Some reason"
    and "\<forall>k req. jm_get (pd_pending (hs_pending st)) k = Some req \<longrightarrow> \<not> for_agent (as_accountId old) (as_label old) req"
  shows "agent_view (hs_agents (fst (Sweep_apply pf (Some statuses) keyStates now [old] st))) (session_key old) = None \<and>
    (\<forall>fx \<in> set (snd (Sweep_apply pf (Some statuses) keyStates now [old] st)).
       fx \<noteq> FxClose (as_ws new) \<and> (\<forall>m. fx \<noteq> FxSend (as_ws new) m))"
proof -
  have run: "Sweep_apply pf (Some statuses) keyStates now [old] st = Sweep_evict old reason st"
    using assms(4) by (simp add: Sweep_apply_def sweep_one_cases split_beta)
  have ok: "jm_ok (pd_pending (hs_pending st))" using assms(1) by (simp add: hub_inv_def pending_inv_def)
  have "filter (\<lambda>(id, req). for_agent (as_accountId old) (as_label old) req) (pd_pending (hs_pending st)) = []"
    using assms(5) ok by (auto simp: filter_empty_conv jm_get_iff)
  then have "snd (evict_session old st) = []"
    by (simp add: evict_session_def PendingRegistry_rejectAllForAgent_def Let_def)
  then have "\<forall>fx \<in> set (snd (Sweep_evict old reason st)).
       fx \<noteq> FxClose (as_ws new) \<and> (\<forall>m. fx \<noteq> FxSend (as_ws new) m)"
    using assms(3) close_tunnels_effects [OF hub_inv_evict [OF assms(1), of old]]
    by (fastforce simp: Sweep_evict_def split_beta)
  then show ?thesis
    using sweep.dropped_gone [OF assms(1), of old reason] by (simp add: run)
qed


theorem sweep_exact_witness:
  "agent_view (hs_agents (fst (Sweep_apply demo_platform (Some [(''acc'', ''SUSPENDED'')]) None 5
     (fst (Sweep_snapshot demo_hub)) demo_hub))) (''acc'', ''web'') = None"
  using sweep_exact [OF demo_hub_inv demo_hub_no_orphans, of demo_platform "[(''acc'', ''SUSPENDED'')]" None 5]
  by (simp add: demo_hub_view sweep_reason_def demo_session_def isConnectableAccountStatus_def
      CONNECTABLE_ACCOUNT_STATUSES_def)

theorem sweep_evicts_replacement_witness:
  "agent_view (hs_agents (fst (Sweep_apply demo_platform (Some []) None 5
     [demo_session\<lparr>as_agentId := ''agt_0'', as_ws := 9\<rparr>] demo_hub))) (''acc'', ''web'') = None"
proof -
  let ?old = "demo_session\<lparr>as_agentId := ''agt_0'', as_ws := 9\<rparr>"
  have key: "session_key ?old = (''acc'', ''web'')" by (simp add: session_key_def demo_session_def)
  have "agent_view (hs_agents demo_hub) (session_key ?old) = Some demo_session"
    by (simp only: key demo_hub_view)
  moreover have "as_ws demo_session \<noteq> as_ws ?old" by (simp add: demo_session_def)
  moreover have "sweep_reason demo_platform [] None 5 ?old = Some ''Account is not active''"
    by (simp add: sweep_reason_def)
  moreover have "\<forall>k req. jm_get (pd_pending (hs_pending demo_hub)) k = Some req \<longrightarrow>
      \<not> for_agent (as_accountId ?old) (as_label ?old) req"
    by (simp add: demo_hub_def PendingRegistry_new_def)
  ultimately show ?thesis
    using sweep_evicts_replacement [OF demo_hub_inv] key by metis
qed

end
