(* ===== verification/HubServer.thy ===== *)
theory HubServer
  imports Router StatusSweep
begin

text \<open>
  \<^verbatim>\<open>apps/hub/src/HubServer.ts\<close> and \<^verbatim>\<open>utils/internalAuth.ts\<close>: which handler an HTTP request or a
  WebSocket upgrade goes to, the internal proxy endpoint, shutdown, and the hub as a whole: \<open>hub_event\<close>
  names everything that can happen to the hub's state, \<open>hub_step\<close> performs one such event with the
  handlers of the other theories, and \<open>hub_reachable\<close> is every state that any interleaving of events
  leads to.
\<close>

section \<open>JSON answers\<close>

definition send_json :: "response_handle \<Rightarrow> int \<Rightarrow> (string \<times> json) list \<Rightarrow> effect list" where
  "send_json res status fs =
     [FxWriteHead res status [(''Content-Type'', ''application/json'')],
      FxEnd res (Some (utf8_encode (json_print (JObj fs))))]"

section \<open>Authorisation of the internal endpoint\<close>

definition isInternalRequestAuthorized :: "header_value \<Rightarrow> string option \<Rightarrow> bool" where
  "isInternalRequestAuthorized headerValue expectedSecret =
     (case expectedSecret of
        None \<Rightarrow> False
      | Some [] \<Rightarrow> False
      | Some secret \<Rightarrow>
          (case (case headerValue of HNone \<Rightarrow> None | HOne s \<Rightarrow> Some s | HMany [] \<Rightarrow> None | HMany (s # _) \<Rightarrow> Some s) of
             None \<Rightarrow> False
           | Some [] \<Rightarrow> False
           | Some provided \<Rightarrow>
               (let a = utf8_encode provided; b = utf8_encode secret in
                length a = length b \<and> timingSafeEqual a b)))"

section \<open>Dispatch\<close>

datatype http_route = RouteHealth | RouteMetrics | RouteInternalProxy | RouteTunnel | RouteNotFound

definition dispatch_http :: "hub_config \<Rightarrow> http_request \<Rightarrow> http_route" where
  "dispatch_http cfg req =
     (if hq_url req = Some ''/health'' then RouteHealth
      else if hq_url req = Some ''/metrics'' then RouteMetrics
      else if hq_meth req = Some ''POST'' \<and> hq_url req = Some ''/internal/proxy'' then RouteInternalProxy
      else if isTunnelRequest (hc_hubDomain cfg) (hq_host req) then RouteTunnel
      else RouteNotFound)"

datatype upgrade_route = UpgradeAgent | UpgradeSdk | UpgradeTunnel | UpgradeRefused

definition dispatch_upgrade :: "hub_config \<Rightarrow> http_request \<Rightarrow> upgrade_route" where
  "dispatch_upgrade cfg req =
     (if hq_url req = Some ''/agent'' then UpgradeAgent
      else if hq_url req = Some ''/sdk'' then UpgradeSdk
      else if isTunnelRequest (hc_hubDomain cfg) (hq_host req) then UpgradeTunnel
      else UpgradeRefused)"

definition upgrade_refused :: "socket \<Rightarrow> effect list" where
  "upgrade_refused sock = [FxRawWrite sock ''HTTP/1.1 400 Bad Request'', FxRawDestroy sock]"

definition serve_health :: "hub_config \<Rightarrow> json \<Rightarrow> int \<Rightarrow> response_handle \<Rightarrow> hub_state \<Rightarrow> effect list" where
  "serve_health cfg uptime memoryMb res st = send_json res 200
     [(''status'', JStr ''ok''), (''instanceId'', JStr (hc_hubInstanceId cfg)), (''uptime'', uptime),
      (''agents'', JNum (JInt (int (AgentRegistry_totalCount (hs_agents st))))),
      (''sdks'', JNum (JInt (int (SdkRegistry_totalCount (hs_sdks st))))),
      (''memoryMb'', JNum (JInt memoryMb))]"

definition serve_metrics :: "response_handle \<Rightarrow> hub_state \<Rightarrow> effect list" where
  "serve_metrics res st =
     [FxWriteHead res 200 [(''Content-Type'', ''text/plain'')],
      FxEnd res (Some (utf8_encode (''hub_agents_connected '' @ show_nat (AgentRegistry_totalCount (hs_agents st)))))]"

definition serve_not_found :: "response_handle \<Rightarrow> effect list" where
  "serve_not_found res = [FxWriteHead res 404 [], FxEnd res None]"

section \<open>The internal proxy\<close>

text \<open>\<^verbatim>\<open>pendingRequests\<close>: the request's response and its timer.\<close>

type_synonym internal_pending = "(string, response_handle \<times> timer_handle) jsmap"

definition internal_refused :: "string option \<Rightarrow> response_handle \<Rightarrow> effect list" where
  "internal_refused internalSecret res =
     (let configured = (case internalSecret of None \<Rightarrow> False | Some s \<Rightarrow> s \<noteq> []) in
      send_json res (if configured then 401 else 503)
        [(''success'', JBool False),
         (''message'', JStr (if configured then ''Unauthorized''
            else ''Internal proxy endpoint is disabled (HUB_INTERNAL_SECRET not configured)''))])"

definition opt_field :: "string \<Rightarrow> string \<Rightarrow> json \<Rightarrow> (string \<times> json) list" where
  "opt_field k src input = (case json_field input src of None \<Rightarrow> [] | Some v \<Rightarrow> [(k, v)])"

text \<open>The body has arrived; \<open>parsed\<close> is what \<^verbatim>\<open>JSON.parse\<close> made of it.\<close>

definition internal_proxy_end ::
  "response_handle \<Rightarrow> string \<Rightarrow> timer_handle \<Rightarrow> json option \<Rightarrow> hub_state \<Rightarrow> internal_pending \<Rightarrow>
   internal_pending \<times> effect list" where
  "internal_proxy_end res requestId timer parsed st pend =
     (case parsed of
        None \<Rightarrow> (pend, send_json res 400 [(''success'', JBool False), (''message'', JStr ''Invalid request body'')])
      | Some JNull \<Rightarrow>
          (pend, send_json res 400 [(''success'', JBool False), (''message'', JStr ''Invalid request body'')])
      | Some input \<Rightarrow>
          (case (case json_field input ''agentId'' of
                   Some (JStr agentId) \<Rightarrow> AgentRegistry_findByAgentId agentId (hs_agents st)
                 | _ \<Rightarrow> None) of
             None \<Rightarrow>
               (pend, send_json res 404 [(''success'', JBool False),
                  (''message'', JStr (''Agent '' @ js_render (json_field input ''agentId'') @ '' not connected''))])
           | Some agent \<Rightarrow>
               (jm_set requestId (res, timer) pend,
                [FxSetTimer timer 15000,
                 FxSendJson (as_ws agent) (JObj ([(''type'', JStr ''http_request''), (''requestId'', JStr requestId)] @
                   opt_field ''method'' ''method'' input @ opt_field ''path'' ''path'' input @
                   opt_field ''headers'' ''headers'' input @ opt_field ''body'' ''body'' input))])))"

definition internal_proxy_timeout :: "string \<Rightarrow> response_handle \<Rightarrow> internal_pending \<Rightarrow> internal_pending \<times> effect list" where
  "internal_proxy_timeout requestId res pend =
     (jm_delete requestId pend,
      send_json res 504 [(''success'', JBool False), (''message'', JStr ''Agent response timeout'')])"

text \<open>The response's status, when present, is a number, as the code's cast says.\<close>

definition resolveRequest :: "string \<Rightarrow> json \<Rightarrow> internal_pending \<Rightarrow> internal_pending \<times> effect list" where
  "resolveRequest requestId response pend =
     (case jm_get pend requestId of
        None \<Rightarrow> (pend, [])
      | Some (res, timer) \<Rightarrow>
          (jm_delete requestId pend,
           FxClearTimer timer #
           send_json res (case json_field response ''status'' of Some (JNum (JInt n)) \<Rightarrow> n | _ \<Rightarrow> 200)
             ([(''success'', JBool True)] @ opt_field ''status'' ''status'' response @
              opt_field ''statusText'' ''statusText'' response @ opt_field ''data'' ''body'' response)))"

section \<open>Shutdown\<close>

definition HubServer_stop :: "hub_config \<Rightarrow> time \<Rightarrow> hub_state \<Rightarrow> hub_state \<times> effect list" where
  "HubServer_stop cfg now st =
     (case UsageLimiter_flush (hc_platform cfg) now (hs_limiter st) of
        (limiter, fx1) \<Rightarrow>
          (case AgentRegistry_evictAll (hs_agents st) of
             (agents, fx2) \<Rightarrow> (st\<lparr>hs_limiter := limiter, hs_agents := agents\<rparr>, fx1 @ fx2)))"

section \<open>Access to the endpoints\<close>

lemma utf8_encode_inject: "utf8_encode a = utf8_encode b \<longleftrightarrow> a = b"
  using utf8_roundtrip by metis

text \<open>The internal endpoint opens for exactly the configured secret, and for nobody when none is configured.\<close>

lemma internal_auth_exact:
  "isInternalRequestAuthorized (HOne provided) secret \<longleftrightarrow> secret = Some provided \<and> provided \<noteq> []"
  by (auto simp: isInternalRequestAuthorized_def Let_def timingSafeEqual_def utf8_encode_inject
      split: option.split list.split)

text \<open>
  A request on a tunnel host reaches the tunnel unless its path is one of the hub's own: those are
  answered by the hub itself on every host.
\<close>

lemma tunnel_dispatch_exact:
  "dispatch_http cfg req = RouteTunnel \<longleftrightarrow>
     isTunnelRequest (hc_hubDomain cfg) (hq_host req) \<and> hq_url req \<notin> {Some ''/health'', Some ''/metrics''} \<and>
     \<not> (hq_meth req = Some ''POST'' \<and> hq_url req = Some ''/internal/proxy'')"
  by (auto simp: dispatch_http_def)

section \<open>Everything that can happen to the hub\<close>

datatype hub_event =
  EvAgentMessage agent_env socket "ProtocolError option + AnyHubMsg"
| EvSdkMessage sdk_env socket "ProtocolError option + AnyHubMsg"
| EvAgentClosed socket
| EvSdkClosed socket
| EvHttpLimit hub_config time time "Plan io" http_request response_handle string "SubdomainEntry option"
| EvHttpAgent http_request response_handle string string SubdomainEntry
| EvHttpForward hub_config time bool http_request response_handle string SubdomainEntry AgentSession
    string timer_handle bytes
| EvBrowserOpen time http_request socket socket "SubdomainEntry option" string
| EvBrowserMessage bool string string bool bytes
| EvBrowserClose string string "js_number option" string
| EvTimer timer_handle
| EvDeferred nat bool "string option"
| EvSubJob bool string
| EvTick time
| EvSweep platform "(string, string) jsmap io" "(string, KeyState) jsmap io" time "AgentSession list"
| EvFlush platform time
| EvStop hub_config time

definition hub_step :: "hub_event \<Rightarrow> hub_state \<Rightarrow> hub_state \<times> effect list" where
  "hub_step ev st =
     (case ev of
        EvAgentMessage env ws frame \<Rightarrow> routeAgentMessage env ws frame st
      | EvSdkMessage env ws frame \<Rightarrow> routeSdkMessage env ws frame st
      | EvAgentClosed ws \<Rightarrow> onAgentClose ws st
      | EvSdkClosed ws \<Rightarrow> (onSdkClose ws st, [])
      | EvHttpLimit cfg now later plan req res label entry \<Rightarrow>
          (case HttpTunnel_limit cfg now later plan req res label entry st of
             (Inl fx, st') \<Rightarrow> (st', fx) | (Inr _, st') \<Rightarrow> (st', []))
      | EvHttpAgent req res label slug entry \<Rightarrow>
          (case HttpTunnel_agent req res label slug entry st of
             (HttpRefused fx, st') \<Rightarrow> (st', fx) | (_, st') \<Rightarrow> (st', []))
      | EvHttpForward cfg now sendOk req res label entry agent requestId timer raw \<Rightarrow>
          HttpTunnel_forward cfg now sendOk req res label entry agent requestId timer raw st
      | EvBrowserOpen now req sock browserWs entry connectionId \<Rightarrow>
          HttpTunnel_ws_open now req sock browserWs entry connectionId st
      | EvBrowserMessage sendOk connectionId agentId isBinary payload \<Rightarrow>
          browser_message sendOk connectionId agentId isBinary payload st
      | EvBrowserClose connectionId agentId code reason \<Rightarrow> browser_close connectionId agentId code reason st
      | EvTimer t \<Rightarrow> (case timer_fires t (hs_pending st) of (pending, fx) \<Rightarrow> (st\<lparr>hs_pending := pending\<rparr>, fx))
      | EvDeferred i ok slug \<Rightarrow> (run_deferred i ok slug st, [])
      | EvSubJob fails key \<Rightarrow> (st\<lparr>hs_sub := run_job fails key (hs_sub st)\<rparr>, [])
      | EvTick now \<Rightarrow> Heartbeat_tick now st
      | EvSweep pf statuses keyStates now sessions \<Rightarrow> Sweep_apply pf statuses keyStates now sessions st
      | EvFlush pf now \<Rightarrow>
          (case UsageLimiter_flush pf now (hs_limiter st) of (limiter, fx) \<Rightarrow> (st\<lparr>hs_limiter := limiter\<rparr>, fx))
      | EvStop cfg now \<Rightarrow> HubServer_stop cfg now st)"

text \<open>
  What the random identifiers and Node's timers guarantee: an identifier the hub generates, and a
  timer it creates, is one it does not hold already.
\<close>

definition fresh_ids :: "hub_event \<Rightarrow> hub_state \<Rightarrow> bool" where
  "fresh_ids ev st =
     (case ev of
        EvAgentMessage env _ _ \<Rightarrow> jm_get (ag_byAgentId (hs_agents st)) (ae_agentId env) = None
      | EvSdkMessage env _ _ \<Rightarrow> jm_get (pd_timers (hs_pending st)) (se_timer env) = None \<and>
          jm_get (sk_sessions (hs_sdks st)) (se_sessionId env) = None
      | EvHttpForward _ _ _ _ _ _ _ _ requestId timer _ \<Rightarrow>
          jm_get (pd_timers (hs_pending st)) timer = None \<and> jm_get (pd_pending (hs_pending st)) requestId = None
      | EvBrowserOpen _ _ _ _ _ connectionId \<Rightarrow> tunnel_view (hs_tunnels st) connectionId = None
      | _ \<Rightarrow> True)"

definition hub_init :: "sub_state \<Rightarrow> hub_state" where
  "hub_init sub = \<lparr>hs_agents = AgentRegistry_new, hs_sdks = SdkRegistry_new, hs_pending = PendingRegistry_new,
     hs_tunnels = TunnelWsRegistry_new, hs_sub = sub, hs_limiter = UsageLimiter_new, hs_deferred = []\<rparr>"

inductive hub_reachable :: "hub_state \<Rightarrow> bool" where
  Start: "hub_reachable (hub_init sub)"
| Event: "hub_reachable st \<Longrightarrow> fresh_ids ev st \<Longrightarrow> hub_reachable (fst (hub_step ev st))"

section \<open>The invariant of the whole hub\<close>

lemma hub_init_fields [simp]:
  "hs_agents (hub_init sub) = AgentRegistry_new" "hs_tunnels (hub_init sub) = TunnelWsRegistry_new"
  by (simp_all add: hub_init_def)

lemma hub_inv_init: "hub_inv (hub_init sub)"
  by (simp add: hub_inv_def hub_init_def agent_inv_new sdk_inv_new pending_inv_new tunnel_inv_new)

lemma hub_inv_deferred [simp]: "hub_inv (st\<lparr>hs_deferred := d\<rparr>) = hub_inv st"
  by (simp add: hub_inv_def)

lemma hub_inv_agent_message:
  assumes "hub_inv st" and "jm_get (ag_byAgentId (hs_agents st)) (ae_agentId env) = None"
  shows "hub_inv (fst (routeAgentMessage env ws frame st))"
proof (cases "\<exists>m. frame = Inr (MAgentRegister m)")
  case True
  then obtain m where "frame = Inr (MAgentRegister m)" by blast
  then show ?thesis
    using assms hub_inv_register [OF assms]
    by (auto simp: route_register handleAgentRegister_def split: option.split sum.split)
next
  case False
  then show ?thesis using calm_route [of frame st env ws] assms(1) by (auto simp: calm_def)
qed

lemma hub_inv_sdk_message:
  assumes "hub_inv st" and "jm_get (pd_timers (hs_pending st)) (se_timer env) = None"
    and "jm_get (sk_sessions (hs_sdks st)) (se_sessionId env) = None"
  shows "hub_inv (fst (routeSdkMessage env ws frame st))"
proof -
  have "hub_inv (fst (handleSdkRegister (se_sessionId env) (se_now env) auth ws m st))" for auth m
    using assms(1,3)
    by (auto simp: handleSdkRegister_def hub_inv_def sdk_fresh_def intro!: sdk_inv_register split: sum.split)
  then show ?thesis
    using assms(1) hub_inv_sdk_request [OF assms(1,2)]
    by (auto simp: routeSdkMessage_def split: sum.split option.split AnyHubMsg.split)
qed

lemma hub_inv_timer:
  "hub_inv st \<Longrightarrow> hub_inv (fst (case timer_fires t (hs_pending st) of (p, fx) \<Rightarrow> (st\<lparr>hs_pending := p\<rparr>, fx)))"
  by (auto simp: hub_inv_def split_beta pending_inv_timer)

lemma hub_inv_forward:
  assumes "hub_inv st" and "jm_get (pd_timers (hs_pending st)) timer = None"
    and "jm_get (pd_pending (hs_pending st)) requestId = None"
  shows "hub_inv (fst (HttpTunnel_forward cfg now sendOk req res label entry agent requestId timer raw st))"
proof -
  have "pending_inv (hs_pending st)" using assms(1) by (simp add: hub_inv_def)
  from forward_failed(1) [OF this assms(2,3)] pending_inv_admit [OF this] assms(1,2) show ?thesis
    by (cases sendOk) (auto simp: hub_inv_def HttpTunnel_forward_def split_beta timer_fresh_def)
qed

lemma hub_inv_browser:
  assumes "hub_inv st"
  shows "hub_inv (fst (browser_message ok k a b d st))" and "hub_inv (fst (browser_close k a c r st))"
proof -
  show "hub_inv (fst (browser_message ok k a b d st))"
    using assms by (auto simp: browser_message_def hub_inv_teardown split: option.split)
  have "hub_inv (st\<lparr>hs_tunnels := snd (TunnelWsRegistry_delete k (hs_tunnels st))\<rparr>)"
    using assms by (simp add: hub_inv_def tunnel_inv_delete)
  then show "hub_inv (fst (browser_close k a c r st))"
    using assms by (auto simp: browser_close_def split: prod.split option.split)
qed

lemma hub_inv_run_deferred: "hub_inv st \<Longrightarrow> hub_inv (run_deferred i ok slug st)"
  by (auto simp: run_deferred_def Let_def split: deferred.split option.split list.split)

lemma hub_inv_sweep:
  assumes "hub_inv st"
  shows "hub_inv (fst (Sweep_apply pf statuses keyStates now sessions st))"
proof -
  have "hub_inv (fst (hub_fold (sweep_one pf s keyStates now) sessions st))" for s
    using assms
    by (induction sessions arbitrary: st)
      (auto simp: split_beta sweep_one_cases sweep.drop_inv split: option.split)
  then show ?thesis using assms by (auto simp: Sweep_apply_def split: option.split)
qed

lemma hub_inv_stop: "hub_inv st \<Longrightarrow> hub_inv (fst (HubServer_stop cfg now st))"
  by (simp add: HubServer_stop_def split_beta hub_inv_def agent_inv_evictAll)

lemma hub_inv_onAgentClose: "hub_inv st \<Longrightarrow> hub_inv (fst (onAgentClose ws st))"
  by (simp add: onAgentClose_def closing.drop_inv split: option.split)

lemma hub_inv_http_events:
  assumes "hub_inv st"
  shows "hub_inv (fst (hub_step (EvHttpLimit cfg now later plan req res label entry) st))"
    and "hub_inv (fst (hub_step (EvHttpAgent req res label slug e) st))"
  using hub_inv_limit [OF assms, of cfg now later plan req res label entry]
    hub_inv_agent [OF assms, of req res label slug e]
  by (auto simp: hub_step_def split: prod.split sum.split http_admission.split)

lemma hub_inv_step:
  assumes inv: "hub_inv st" and fresh: "fresh_ids ev st"
  shows "hub_inv (fst (hub_step ev st))"
proof (cases ev)
  case (EvAgentMessage env ws frame)
  with fresh show ?thesis using hub_inv_agent_message [OF inv] by (simp add: hub_step_def fresh_ids_def)
next
  case (EvSdkMessage env ws frame)
  with fresh show ?thesis using hub_inv_sdk_message [OF inv] by (simp add: hub_step_def fresh_ids_def)
next
  case (EvSdkClosed ws)
  with inv show ?thesis by (simp add: hub_step_def onSdkClose_def hub_inv_def sdk_inv_evict)
next
  case (EvHttpForward cfg now ok req res label entry agent requestId timer raw)
  with fresh show ?thesis using hub_inv_forward [OF inv] by (simp add: hub_step_def fresh_ids_def)
next
  case (EvBrowserOpen now req sock b entry connectionId)
  with fresh show ?thesis using hub_inv_ws_open [OF inv] by (simp add: hub_step_def fresh_ids_def)
next
  case (EvTimer t)
  then show ?thesis using hub_inv_timer [OF inv, of t] by (simp add: hub_step_def)
next
  case (EvTick now)
  then show ?thesis using tick_spec [OF inv] by (simp add: hub_step_def)
qed (use inv hub_inv_http_events [OF inv] in \<open>simp_all add: hub_step_def hub_inv_onAgentClose hub_inv_browser
      hub_inv_run_deferred hub_inv_sweep hub_inv_stop split_beta\<close>)

lemma hub_reachable_inv: "hub_reachable st \<Longrightarrow> hub_inv st"
  by (induction rule: hub_reachable.induct) (simp_all add: hub_inv_init hub_inv_step)

text \<open>
  C2: the registries of a running hub are always consistent. In every state that any interleaving of
  agent and SDK messages, disconnects, tunnel requests, browser frames, timers, settled promises,
  heartbeats, sweeps and shutdown leads to, the agent indexes agree with each other, every pending
  request sits under its own id with its deadline armed, and the tunnel sockets are indexed by exactly
  the agents that own them.
\<close>

theorem hub_always_consistent:
  "hub_reachable st \<Longrightarrow> agent_inv (hs_agents st) \<and> sdk_inv (hs_sdks st) \<and> pending_inv (hs_pending st) \<and>
     tunnel_inv (hs_tunnels st)"
  using hub_reachable_inv by (simp add: hub_inv_def)

theorem hub_always_consistent_witness:
  "pending_inv (hs_pending (fst (hub_step (EvTick 3) (fst (hub_step (EvAgentClosed 1)
     (hub_init \<lparr>sb_store = [], sb_locks = []\<rparr>))))))"
proof -
  have "hub_reachable (fst (hub_step (EvTick 3) (fst (hub_step (EvAgentClosed 1)
      (hub_init \<lparr>sb_store = [], sb_locks = []\<rparr>)))))"
    by (intro hub_reachable.intros) (simp_all add: fresh_ids_def)
  from hub_always_consistent [OF this] show ?thesis by blast
qed

section \<open>Tunnel sockets without an agent\<close>

text \<open>
  The events that may leave a browser socket behind whose agent is gone: a registration with an empty
  label, a heartbeat that evicts someone, a sweep whose snapshot is out of date, and shutdown.
\<close>

definition keeps_owners :: "hub_event \<Rightarrow> hub_state \<Rightarrow> bool" where
  "keeps_owners ev st =
     (case ev of
        EvAgentMessage _ _ frame \<Rightarrow> (\<forall>m. frame = Inr (MAgentRegister m) \<longrightarrow> ar_label m \<noteq> [])
      | EvTick _ \<Rightarrow> (\<forall>s. registered (hs_agents st) s \<longrightarrow> as_missedPings s + 1 < MAX_MISSED_PINGS)
      | EvSweep _ _ _ _ sessions \<Rightarrow> sessions = fst (Sweep_snapshot st)
      | EvStop _ _ \<Rightarrow> False
      | _ \<Rightarrow> True)"

lemma no_orphans_cong:
  "hs_agents st' = hs_agents st \<Longrightarrow> hs_tunnels st' = hs_tunnels st \<Longrightarrow> no_orphans st' = no_orphans st"
  by (simp add: no_orphans_def)

lemma sdk_message_keeps [simp]:
  "hs_agents (fst (routeSdkMessage env ws frame st)) = hs_agents st"
  "hs_tunnels (fst (routeSdkMessage env ws frame st)) = hs_tunnels st"
  by (simp_all add: routeSdkMessage_def handleSdkRegister_def handleSdkRequest_def split_beta
      split: sum.split option.split AnyHubMsg.split)

lemma no_orphans_agent_message:
  assumes "hub_inv st" "no_orphans st" and "jm_get (ag_byAgentId (hs_agents st)) (ae_agentId env) = None"
    and "\<And>m. frame = Inr (MAgentRegister m) \<Longrightarrow> ar_label m \<noteq> []"
  shows "no_orphans (fst (routeAgentMessage env ws frame st))"
proof (cases "\<exists>m. frame = Inr (MAgentRegister m)")
  case True
  then obtain m where m: "frame = Inr (MAgentRegister m)" by blast
  then show ?thesis
    using assms(2) no_orphans_register [OF assms(1-3) assms(4) [OF m]]
    by (auto simp: route_register handleAgentRegister_def split: option.split sum.split)
next
  case False
  then show ?thesis using calm_route [of frame st env ws] assms(1,2) by (auto simp: calm_def)
qed

lemma tick_tunnels: "hs_tunnels (fst (Heartbeat_tick now st)) = hs_tunnels st"
proof -
  have "hs_tunnels (fst (hub_fold Heartbeat_evict ss st)) = hs_tunnels st" for ss st
    by (induction ss arbitrary: st) (auto simp: split_beta)
  then show ?thesis by (simp add: Heartbeat_tick_def Let_def split_beta)
qed

lemma no_orphans_tick:
  assumes "hub_inv st" "no_orphans st" and "\<And>s. registered (hs_agents st) s \<Longrightarrow> as_missedPings s + 1 < MAX_MISSED_PINGS"
  shows "no_orphans (fst (Heartbeat_tick now st))"
  unfolding no_orphans_def tick_tunnels
proof (intro allI impI)
  fix k e assume "tunnel_view (hs_tunnels st) k = Some e"
  then obtain s where s: "registered (hs_agents st) s" "as_agentId s = tw_agentId e"
    using assms(2) by (auto simp: no_orphans_def)
  have "agent_view (hs_agents (fst (Heartbeat_tick now st))) (session_key s) = Some (miss_ping s)"
    using tick_spec [OF assms(1), of now "session_key s"] s(1) assms(3) [OF s(1)] by (simp add: registered_def)
  then have "registered (hs_agents (fst (Heartbeat_tick now st))) (miss_ping s)" by (simp add: registered_def)
  with s(2) show "\<exists>s. registered (hs_agents (fst (Heartbeat_tick now st))) s \<and> as_agentId s = tw_agentId e"
    by (metis miss_ping_fields(1))
qed

lemma no_orphans_sweep:
  assumes "hub_inv st" "no_orphans st"
  shows "no_orphans (fst (Sweep_apply pf statuses keyStates now (fst (Sweep_snapshot st)) st))"
proof -
  have "no_orphans (fst (hub_fold (sweep_one pf s keyStates now) (AgentRegistry_allSessions (hs_agents st)) st))" for s
    using sweep_loop [OF assms snapshot_sessions [OF assms(1)]] by blast
  then show ?thesis using assms(2)
    by (auto simp: Sweep_apply_def Sweep_snapshot_def Let_def split: option.split)
qed

lemma no_orphans_browser:
  assumes "no_orphans st"
  shows "no_orphans (fst (browser_message ok k a b d st))" and "no_orphans (fst (browser_close k a c r st))"
proof -
  show "no_orphans (fst (browser_message ok k a b d st))"
    using assms by (auto simp: browser_message_def no_orphans_teardown split: option.split)
  have "no_orphans (st\<lparr>hs_tunnels := snd (TunnelWsRegistry_delete k (hs_tunnels st))\<rparr>)"
    using assms by (auto simp: no_orphans_def view_delete split: if_splits)
  then show "no_orphans (fst (browser_close k a c r st))"
    using assms by (auto simp: browser_close_def split: prod.split option.split)
qed

lemma run_deferred_keeps [simp]:
  "hs_agents (run_deferred i ok slug st) = hs_agents st" "hs_tunnels (run_deferred i ok slug st) = hs_tunnels st"
  by (auto simp: run_deferred_def Let_def split: deferred.split option.split list.split)

lemma forward_keeps [simp]:
  "hs_agents (fst (HttpTunnel_forward cfg now ok req res label entry agent requestId timer raw st)) = hs_agents st"
  "hs_tunnels (fst (HttpTunnel_forward cfg now ok req res label entry agent requestId timer raw st)) = hs_tunnels st"
  by (simp_all add: HttpTunnel_forward_def split_beta)

lemma http_events_keep:
  "hs_agents (fst (hub_step (EvHttpLimit cfg now later plan req res label entry) st)) = hs_agents st"
  "hs_tunnels (fst (hub_step (EvHttpLimit cfg now later plan req res label entry) st)) = hs_tunnels st"
  "hs_agents (fst (hub_step (EvHttpAgent req res label slug e) st)) = hs_agents st"
  "hs_tunnels (fst (hub_step (EvHttpAgent req res label slug e) st)) = hs_tunnels st"
  by (auto simp: hub_step_def HttpTunnel_limit_def HttpTunnel_agent_def
      split: prod.split sum.split http_admission.split option.split)

lemma no_orphans_onAgentClose:
  assumes "hub_inv st" "no_orphans st"
  shows "no_orphans (fst (onAgentClose ws st))"
  using assms findByWs_sound closing.drop_no_orphans
  by (auto simp: onAgentClose_def hub_inv_def split: option.split)

lemma no_orphans_step:
  assumes inv: "hub_inv st" and no: "no_orphans st" and fresh: "fresh_ids ev st" and keeps: "keeps_owners ev st"
  shows "no_orphans (fst (hub_step ev st))"
proof (cases ev)
  case (EvAgentMessage env ws frame)
  with fresh keeps show ?thesis using no_orphans_agent_message [OF inv no, of env frame ws]
    by (simp add: hub_step_def fresh_ids_def keeps_owners_def)
next
  case (EvTick now)
  with keeps show ?thesis using no_orphans_tick [OF inv no] by (simp add: hub_step_def keeps_owners_def)
next
  case (EvSweep pf statuses keyStates now sessions)
  with keeps show ?thesis using no_orphans_sweep [OF inv no] by (simp add: hub_step_def keeps_owners_def)
next
  case (EvHttpLimit cfg now later plan req res label entry)
  then show ?thesis using no by (simp add: http_events_keep cong: no_orphans_cong)
next
  case (EvHttpAgent req res label slug e)
  then show ?thesis using no by (simp add: http_events_keep cong: no_orphans_cong)
next
  case (EvStop cfg now)
  with keeps show ?thesis by (simp add: keeps_owners_def)
qed (use inv no in \<open>simp_all add: hub_step_def onSdkClose_def no_orphans_onAgentClose no_orphans_browser
      no_orphans_ws_open split_beta cong: no_orphans_cong\<close>)

text \<open>
  browser sockets never outlive their agent, four cases apart. Starting from a state with no
  orphaned tunnel socket, every event keeps it so, except a registration with an empty label, a
  heartbeat tick that evicts an agent, a sweep that works on an outdated snapshot, and shutdown.
\<close>

theorem tunnels_keep_owners:
  assumes "hub_reachable st" and "no_orphans st" and "fresh_ids ev st" and "keeps_owners ev st"
    and "tunnel_view (hs_tunnels (fst (hub_step ev st))) k = Some e"
  shows "\<exists>s. registered (hs_agents (fst (hub_step ev st))) s \<and> as_agentId s = tw_agentId e"
  using no_orphans_step [OF hub_reachable_inv [OF assms(1)] assms(2-4)] assms(5) by (auto simp: no_orphans_def)

text \<open>A hub in which the agent's tunnel socket is open and five pings were missed.\<close>

definition demo_tunnel :: TunnelWsEntry where
  "demo_tunnel = \<lparr>tw_connectionId = ''ws_1'', tw_accountId = ''acc'', tw_agentId = ''agt_1'', tw_browserWs = 5,
     tw_openedAt = 0\<rparr>"

definition demo_tunnel_hub :: hub_state where
  "demo_tunnel_hub = demo_hub\<lparr>hs_agents := fst (AgentRegistry_register (demo_session\<lparr>as_missedPings := 5\<rparr>) AgentRegistry_new),
     hs_tunnels := TunnelWsRegistry_add demo_tunnel TunnelWsRegistry_new\<rparr>"

abbreviation demo_start :: hub_state where
  "demo_start \<equiv> hub_init \<lparr>sb_store = [], sb_locks = []\<rparr>"

abbreviation demo_registered :: hub_state where
  "demo_registered \<equiv> fst (hub_step (EvAgentMessage demo_env 2 (Inr (MAgentRegister demo_register))) demo_start)"

abbreviation demo_open :: hub_event where
  "demo_open \<equiv> EvBrowserOpen 0 demo_post 3 5 (Some (demo_tunnel_entry\<lparr>sn_agentId := ''agt_2''\<rparr>)) ''ws_1''"

lemma not_registered_new: "\<not> registered AgentRegistry_new s"
  by (simp add: registered_def AgentRegistry_new_def agent_view_def acct_of_def split_beta)

lemma demo_registered_agents:
  "hs_agents demo_registered =
     fst (AgentRegistry_register (register_session ''agt_2'' 5 [] 2 demo_register demo_new_handshake) AgentRegistry_new)"
  "hs_tunnels demo_registered = TunnelWsRegistry_new"
proof -
  have ok: "\<not> over_limit demo_register demo_new_handshake demo_start"
    by (simp add: over_limit_def demo_new_handshake_def one_enat_def hub_init_def AgentRegistry_countByAccount_def
        AgentRegistry_new_def acct_of_def)
  have "AgentRegistry_find a l AgentRegistry_new = None" for a l
    by (simp add: AgentRegistry_find_def AgentRegistry_new_def)
  then show "hs_agents demo_registered =
     fst (AgentRegistry_register (register_session ''agt_2'' 5 [] 2 demo_register demo_new_handshake) AgentRegistry_new)"
    "hs_tunnels demo_registered = TunnelWsRegistry_new"
    using demo_env_handshake
    by (simp_all add: hub_step_def route_register handleAgentRegister_def demo_env_def demo_config_def
        register_admitted [OF ok] replaced_closed_def)
qed

theorem tunnels_keep_owners_witness:
  "\<exists>s. registered (hs_agents (fst (hub_step demo_open demo_registered))) s \<and> as_agentId s = ''agt_2''"
proof -
  let ?s = "register_session ''agt_2'' 5 [] 2 demo_register demo_new_handshake"
  have reach: "hub_reachable demo_registered"
    by (intro hub_reachable.intros) (simp add: fresh_ids_def hub_init_def AgentRegistry_new_def)
  have no: "no_orphans demo_registered"
    by (simp add: no_orphans_def demo_registered_agents tunnel_view_def TunnelWsRegistry_new_def)
  have fresh: "fresh_ids demo_open demo_registered" "keeps_owners demo_open demo_registered"
    by (simp_all add: fresh_ids_def keeps_owners_def demo_registered_agents tunnel_view_def TunnelWsRegistry_new_def)
  have "AgentRegistry_findByAgentId ''agt_2'' (hs_agents demo_registered) = Some ?s"
    by (simp add: AgentRegistry_findByAgentId_def demo_registered_agents index_register)
  then have "tunnel_view (hs_tunnels (fst (hub_step demo_open demo_registered))) ''ws_1'' =
      Some \<lparr>tw_connectionId = ''ws_1'', tw_accountId = ''acc'', tw_agentId = ''agt_2'', tw_browserWs = 5, tw_openedAt = 0\<rparr>"
    by (simp add: hub_step_def HttpTunnel_ws_open_def view_add demo_tunnel_entry_def)
  from tunnels_keep_owners [OF reach no fresh this] show ?thesis by simp
qed

text \<open>
  the heartbeat's eviction is one of the four. An agent that misses its sixth ping is
  unregistered, but its browser sockets stay in the registry, open and owned by an agent the hub no
  longer knows, and when the agent's own socket closes afterwards nothing is done about them.
\<close>

theorem heartbeat_orphans_tunnels:
  assumes "hub_inv st" and "registered (hs_agents st) s" and "as_missedPings s + 1 \<ge> MAX_MISSED_PINGS"
    and "tunnel_view (hs_tunnels st) k = Some e" and "tw_agentId e = as_agentId s"
    and "\<forall>s'. registered (hs_agents st) s' \<and> as_ws s' = as_ws s \<longrightarrow> s' = s"
  shows "tunnel_view (hs_tunnels (fst (Heartbeat_tick now st))) k = Some e \<and>
    AgentRegistry_findByAgentId (tw_agentId e) (hs_agents (fst (Heartbeat_tick now st))) = None \<and>
    onAgentClose (as_ws s) (fst (Heartbeat_tick now st)) = (fst (Heartbeat_tick now st), [])"
proof -
  let ?st = "fst (Heartbeat_tick now st)"
  have ai: "agent_inv (hs_agents st)" "agent_inv (hs_agents ?st)"
    using assms(1) tick_spec [OF assms(1), of now] by (auto simp: hub_inv_def)
  have left: "\<exists>s0. s2 = miss_ping s0 \<and> registered (hs_agents st) s0 \<and> s0 \<noteq> s"
    if "registered (hs_agents ?st) s2" for s2
  proof -
    have "agent_view (hs_agents ?st) (session_key s2) = Some s2" using that by (simp add: registered_def)
    then obtain s0 where s0: "agent_view (hs_agents st) (session_key s2) = Some s0" "s2 = miss_ping s0"
      "as_missedPings s0 + 1 < MAX_MISSED_PINGS"
      using tick_spec [OF assms(1), of now "session_key s2"] by (auto split: option.splits if_splits)
    have "session_key s0 = session_key s2" by (rule agent_invD(4) [OF ai(1) s0(1)])
    then have "registered (hs_agents st) s0" using s0(1) by (simp add: registered_def)
    moreover have "s0 \<noteq> s" using s0(3) assms(3) by auto
    ultimately show ?thesis using s0(2) by blast
  qed
  have "AgentRegistry_findByAgentId (tw_agentId e) (hs_agents ?st) = None"
  proof (rule ccontr)
    assume "AgentRegistry_findByAgentId (tw_agentId e) (hs_agents ?st) \<noteq> None"
    then obtain s2 where "as_agentId s2 = as_agentId s" "registered (hs_agents ?st) s2"
      using findByAgentId_iff [OF ai(2)] assms(5) by auto
    with left registered_inj [OF ai(1) _ assms(2)] show False by fastforce
  qed
  moreover have "AgentRegistry_findByWs (as_ws s) (hs_agents ?st) = None"
  proof (rule ccontr)
    assume "AgentRegistry_findByWs (as_ws s) (hs_agents ?st) \<noteq> None"
    then obtain s2 where "as_ws s2 = as_ws s" "registered (hs_agents ?st) s2"
      using findByWs_sound [OF ai(2)] by auto
    with left assms(6) show False by fastforce
  qed
  ultimately show ?thesis using assms(4) by (simp add: tick_tunnels onAgentClose_def)
qed

lemma demo_tunnel_hub_inv: "hub_inv demo_tunnel_hub"
proof -
  have "agent_inv (hs_agents demo_tunnel_hub)"
    unfolding demo_tunnel_hub_def
    by (simp add: agent_inv_register [OF agent_inv_new] AgentRegistry_new_def [THEN arg_cong [where f = ag_byAgentId]])
  moreover have "tunnel_inv (hs_tunnels demo_tunnel_hub)"
    by (simp add: demo_tunnel_hub_def, rule tunnel_inv_add [OF tunnel_inv_new])
      (simp add: tunnel_fresh_def TunnelWsRegistry_new_def)
  ultimately show ?thesis using demo_hub_inv by (simp add: hub_inv_def demo_tunnel_hub_def)
qed

theorem heartbeat_orphans_tunnels_witness:
  "AgentRegistry_findByAgentId ''agt_1'' (hs_agents (fst (Heartbeat_tick 9 demo_tunnel_hub))) = None \<and>
   tunnel_view (hs_tunnels (fst (Heartbeat_tick 9 demo_tunnel_hub))) ''ws_1'' = Some demo_tunnel"
proof -
  let ?s = "demo_session\<lparr>as_missedPings := 5\<rparr>"
  have reg: "registered (hs_agents demo_tunnel_hub) s' \<longleftrightarrow> s' = ?s" for s'
    by (auto simp: demo_tunnel_hub_def registered_register not_registered_new)
  have "MAX_MISSED_PINGS \<le> as_missedPings ?s + 1" by (simp add: MAX_MISSED_PINGS_def)
  moreover have "tunnel_view (hs_tunnels demo_tunnel_hub) ''ws_1'' = Some demo_tunnel"
    by (simp add: demo_tunnel_hub_def view_add demo_tunnel_def)
  moreover have id: "tw_agentId demo_tunnel = as_agentId ?s" "tw_agentId demo_tunnel = ''agt_1''"
    by (simp_all add: demo_tunnel_def demo_session_def)
  ultimately show ?thesis
    using heartbeat_orphans_tunnels [OF demo_tunnel_hub_inv, of ?s "''ws_1''" demo_tunnel 9]
    unfolding id(2) by (simp only: reg) blast
qed

end
