(* ===== verification/ResponseCache.thy ===== *)
theory ResponseCache
  imports Protocol "HOL-Library.List_Lexorder" "HOL-Library.Char_ord"
begin

text \<open>
  \<^verbatim>\<open>packages/agent/src/cache/ResponseCache.ts\<close>: the agent's cache of GET responses, keyed by the URL
  and a digest of the caller's credentials. \<open>sha256\<close> is Node's digest in hexadecimal.
\<close>

section \<open>Callers\<close>

text \<open>The regular expression: one of three whole names, or a hyphen-separated word of a list.\<close>

definition CREDENTIAL_HEADER :: "string \<Rightarrow> bool" where
  "CREDENTIAL_HEADER name \<longleftrightarrow>
     name \<in> set [''authorization'', ''proxy-authorization'', ''cookie''] \<or>
     list_ex (\<lambda>word. word \<in> set [''auth'', ''token'', ''key'', ''secret'', ''session'', ''csrf'', ''xsrf'', ''api''])
       (str_split (CHR ''-'') name)"

definition lowerCaseHeaders :: "(string, header_value) jsmap \<Rightarrow> (string, string) jsmap" where
  "lowerCaseHeaders hs = fold (\<lambda>(name, v) out.
     (case v of HNone \<Rightarrow> out
      | HOne s \<Rightarrow> jm_set (toLowerCase name) s out
      | HMany ss \<Rightarrow> jm_set (toLowerCase name) (str_join '', '' ss) out)) hs []"

definition credential_lines :: "(string, string) jsmap \<Rightarrow> string list" where
  "credential_lines hs =
     map (\<lambda>name. name @ ''='' @ the (jm_get hs name)) (sort (filter CREDENTIAL_HEADER (jm_keys hs)))"

definition credentialDigest :: "(string \<Rightarrow> string) \<Rightarrow> (string, string) jsmap \<Rightarrow> string" where
  "credentialDigest sha256 hs =
     (if credential_lines hs = [] then []
      else take 32 (sha256 (str_join [CHR 0x0A] (credential_lines hs))))"

definition cache_url :: "string \<Rightarrow> string \<Rightarrow> string" where
  "cache_url path query = (if query \<noteq> [] then path @ ''?'' @ query else path)"

definition buildKey :: "(string \<Rightarrow> string) \<Rightarrow> string \<Rightarrow> string \<Rightarrow> (string, string) jsmap \<Rightarrow> string" where
  "buildKey sha256 path query hs = cache_url path query @ [CHR 0x00] @ credentialDigest sha256 hs"

section \<open>What may be stored\<close>

text \<open>The first match of \<^verbatim>\<open>max-age\s*=\s*(\d+)\<close>: its digits.\<close>

definition max_age_here :: "string \<Rightarrow> string option" where
  "max_age_here s =
     (if prefix ''max-age'' s then
        (case dropWhile is_space (drop 7 s) of
           [] \<Rightarrow> None
         | c # u \<Rightarrow>
             (let ds = takeWhile is_digit (dropWhile is_space u) in
              if c = CHR ''='' \<and> ds \<noteq> [] then Some ds else None))
      else None)"

fun max_age_match :: "string \<Rightarrow> string option" where
  "max_age_match [] = None"
| "max_age_match (c # s) =
     (case max_age_here (c # s) of Some ds \<Rightarrow> Some ds | None \<Rightarrow> max_age_match s)"

definition parseMaxAge :: "string \<Rightarrow> int" where
  "parseMaxAge cacheControl =
     (let lower = toLowerCase cacheControl in
      if cacheControl = [] then 0
      else if str_includes lower ''no-store'' \<or> str_includes lower ''no-cache'' then 0
      else if str_includes lower ''private'' then 0
      else (case max_age_match lower of
          None \<Rightarrow> 0
        | Some ds \<Rightarrow> (case parseInt10 ds of None \<Rightarrow> 0 | Some seconds \<Rightarrow> seconds)))"

definition js_trim :: "string \<Rightarrow> string" where
  "js_trim s = rev (dropWhile is_space (rev (dropWhile is_space s)))"

definition vary_names :: "(string, string) jsmap \<Rightarrow> string list" where
  "vary_names responseHeaders =
     filter (\<lambda>h. h \<noteq> [])
       (map (\<lambda>h. toLowerCase (js_trim h))
         (str_split (CHR '','') (case jm_get responseHeaders ''vary'' of Some v \<Rightarrow> v | None \<Rightarrow> [])))"

definition header_or_empty :: "(string, string) jsmap \<Rightarrow> string \<Rightarrow> string" where
  "header_or_empty hs name = (case jm_get hs name of Some v \<Rightarrow> v | None \<Rightarrow> [])"

section \<open>The cache\<close>

record BackendResult =
  br_status :: int
  br_headers :: headers
  br_body :: "string option"
  br_bodyEncoding :: "body_encoding option"
  br_durationMs :: int

record CachedResponse = BackendResult +
  cr_vary :: "(string, string) jsmap option"
  cr_cachedAt :: time
  cr_expiresAt :: time
  cr_hits :: nat

type_synonym response_cache = "(string, CachedResponse) jsmap"

definition MAX_ENTRIES :: nat where "MAX_ENTRIES = 500"

definition one_headers :: "headers \<Rightarrow> (string, header_value) jsmap" where
  "one_headers hs = map (\<lambda>(k, v). (k, HOne v)) hs"

definition vary_matches :: "(string, string) jsmap option \<Rightarrow> (string, string) jsmap \<Rightarrow> bool" where
  "vary_matches vary hs =
     (case vary of None \<Rightarrow> True
      | Some vs \<Rightarrow> list_all (\<lambda>(name, v). header_or_empty hs name = v) vs)"

definition ResponseCache_get ::
  "(string \<Rightarrow> string) \<Rightarrow> time \<Rightarrow> string \<Rightarrow> string \<Rightarrow> string \<Rightarrow> (string, header_value) jsmap \<Rightarrow> response_cache \<Rightarrow>
   CachedResponse option \<times> response_cache" where
  "ResponseCache_get sha256 now meth path query requestHeaders store =
     (if toUpperCase meth \<noteq> ''GET'' then (None, store)
      else
        (let hs = lowerCaseHeaders requestHeaders; key = buildKey sha256 path query hs in
         case jm_get store key of
           None \<Rightarrow> (None, store)
         | Some cached \<Rightarrow>
             if now > cr_expiresAt cached then (None, jm_delete key store)
             else if \<not> vary_matches (cr_vary cached) hs then (None, store)
             else
               (let hit = cached\<lparr>cr_hits := cr_hits cached + 1\<rparr> in (Some hit, jm_set key hit store))))"

text \<open>Whether a response may be stored, and the entry it becomes.\<close>

definition storable :: "string \<Rightarrow> BackendResult \<Rightarrow> bool" where
  "storable meth response \<longleftrightarrow>
     toUpperCase meth = ''GET'' \<and> 200 \<le> br_status response \<and> br_status response < 300 \<and>
     parseMaxAge (header_or_empty (br_headers response) ''cache-control'') > 0 \<and>
     jm_get (lowerCaseHeaders (one_headers (br_headers response))) ''set-cookie'' = None \<and>
     ''*'' \<notin> set (vary_names (lowerCaseHeaders (one_headers (br_headers response))))"

definition stored_vary :: "BackendResult \<Rightarrow> (string, string) jsmap \<Rightarrow> (string, string) jsmap option" where
  "stored_vary response hs =
     (let names = vary_names (lowerCaseHeaders (one_headers (br_headers response))) in
      if names = [] then None
      else Some (fold (\<lambda>name out. jm_set name (header_or_empty hs name) out) names []))"

definition cache_entry :: "time \<Rightarrow> BackendResult \<Rightarrow> (string, string) jsmap \<Rightarrow> CachedResponse" where
  "cache_entry now response hs = \<lparr>br_status = br_status response, br_headers = br_headers response,
     br_body = br_body response, br_bodyEncoding = br_bodyEncoding response, br_durationMs = br_durationMs response,
     cr_vary = stored_vary response hs, cr_cachedAt = now,
     cr_expiresAt = now + parseMaxAge (header_or_empty (br_headers response) ''cache-control'') * 1000, cr_hits = 0\<rparr>"

definition ResponseCache_set ::
  "(string \<Rightarrow> string) \<Rightarrow> time \<Rightarrow> string \<Rightarrow> string \<Rightarrow> string \<Rightarrow> BackendResult \<Rightarrow> (string, header_value) jsmap \<Rightarrow>
   response_cache \<Rightarrow> response_cache" where
  "ResponseCache_set sha256 now meth path query response requestHeaders store =
     (if \<not> storable meth response then store
      else
        (let hs = lowerCaseHeaders requestHeaders; key = buildKey sha256 path query hs;
             store1 =
               (if length store \<ge> MAX_ENTRIES \<and> jm_get store key = None then
                  (case jm_keys store of [] \<Rightarrow> store | oldest # _ \<Rightarrow> if oldest \<noteq> [] then jm_delete oldest store else store)
                else store)
         in jm_set key (cache_entry now response hs) store1))"

definition ResponseCache_invalidatePrefix :: "string \<Rightarrow> response_cache \<Rightarrow> nat \<times> response_cache" where
  "ResponseCache_invalidatePrefix pathPrefix store =
     (length (filter (\<lambda>(key, _). prefix pathPrefix key) store),
      filter (\<lambda>(key, _). \<not> prefix pathPrefix key) store)"

definition ResponseCache_evictExpired :: "time \<Rightarrow> response_cache \<Rightarrow> nat \<times> response_cache" where
  "ResponseCache_evictExpired now store =
     (length (filter (\<lambda>(_, c). now > cr_expiresAt c) store), filter (\<lambda>(_, c). \<not> now > cr_expiresAt c) store)"

definition ResponseCache_stats :: "response_cache \<Rightarrow> nat \<times> nat" where
  "ResponseCache_stats store = (length store, sum_list (map cr_hits (jm_values store)))"

definition ResponseCache_clear :: "response_cache \<Rightarrow> response_cache" where
  "ResponseCache_clear store = []"

section \<open>Every entry has an origin\<close>

datatype cache_op =
  CGet time string string string "(string, header_value) jsmap"
| CSet time string string string BackendResult "(string, header_value) jsmap"
| CInvalidate string
| CEvict time
| CClear

definition cache_step :: "(string \<Rightarrow> string) \<Rightarrow> cache_op \<Rightarrow> response_cache \<Rightarrow> response_cache" where
  "cache_step sha256 op store =
     (case op of
        CGet now meth path query hs \<Rightarrow> snd (ResponseCache_get sha256 now meth path query hs store)
      | CSet now meth path query response hs \<Rightarrow> ResponseCache_set sha256 now meth path query response hs store
      | CInvalidate p \<Rightarrow> snd (ResponseCache_invalidatePrefix p store)
      | CEvict now \<Rightarrow> snd (ResponseCache_evictExpired now store)
      | CClear \<Rightarrow> ResponseCache_clear store)"

abbreviation run_cache :: "(string \<Rightarrow> string) \<Rightarrow> cache_op list \<Rightarrow> response_cache \<Rightarrow> response_cache" where
  "run_cache sha256 ops store \<equiv> fold (cache_step sha256) ops store"

text \<open>The store that put an entry there: same key, same content, whatever its hit count.\<close>

definition originates :: "(string \<Rightarrow> string) \<Rightarrow> cache_op list \<Rightarrow> string \<Rightarrow> CachedResponse \<Rightarrow> bool" where
  "originates sha256 ops key c \<longleftrightarrow>
     (\<exists>now meth path query response hs. CSet now meth path query response hs \<in> set ops \<and> storable meth response \<and>
        key = buildKey sha256 path query (lowerCaseHeaders hs) \<and>
        c\<lparr>cr_hits := 0\<rparr> = cache_entry now response (lowerCaseHeaders hs))"

definition cache_inv :: "(string \<Rightarrow> string) \<Rightarrow> cache_op list \<Rightarrow> response_cache \<Rightarrow> bool" where
  "cache_inv sha256 ops store \<longleftrightarrow> jm_ok store \<and> length store \<le> MAX_ENTRIES \<and>
     (\<forall>key c. jm_get store key = Some c \<longrightarrow> originates sha256 ops key c)"

lemma originates_mono: "originates sha256 ops key c \<Longrightarrow> originates sha256 (ops @ ops') key c"
  unfolding originates_def by fastforce

lemma originates_hit: "originates sha256 ops key (c\<lparr>cr_hits := n\<rparr>) = originates sha256 ops key c"
  by (simp add: originates_def)

lemma cache_inv_filter:
  assumes "cache_inv sha256 ops store"
  shows "cache_inv sha256 ops (filter P store)"
  using assms le_trans [OF length_filter_le]
  by (auto simp: cache_inv_def jm_get_filter split: option.splits if_splits)

lemma cache_inv_delete: "cache_inv sha256 ops store \<Longrightarrow> cache_inv sha256 ops (jm_delete k store)"
  by (auto simp: cache_inv_def length_jm_delete split: if_splits)

lemma cache_inv_get:
  assumes "cache_inv sha256 ops store"
  shows "cache_inv sha256 ops (snd (ResponseCache_get sha256 now meth path query hs store))"
proof -
  have "cache_inv sha256 ops (jm_set k (c\<lparr>cr_hits := n\<rparr>) store)" if "jm_get store k = Some c" for k c n
    using assms that by (auto simp: cache_inv_def length_jm_set originates_hit)
  then show ?thesis
    using assms by (auto simp: ResponseCache_get_def Let_def cache_inv_delete split: option.split)
qed

lemma cache_inv_set:
  assumes "cache_inv sha256 ops store" and "CSet now meth path query response hs \<in> set ops"
  shows "cache_inv sha256 ops (ResponseCache_set sha256 now meth path query response hs store)"
proof (cases "storable meth response")
  case False
  then show ?thesis using assms by (simp add: ResponseCache_set_def)
next
  case True
  let ?hs = "lowerCaseHeaders hs"
  let ?key = "buildKey sha256 path query ?hs"
  let ?store = "if length store \<ge> MAX_ENTRIES \<and> jm_get store ?key = None then
      (case jm_keys store of [] \<Rightarrow> store | oldest # _ \<Rightarrow> if oldest \<noteq> [] then jm_delete oldest store else store)
    else store"
  have origin: "originates sha256 ops ?key (cache_entry now response ?hs)"
    using True assms(2) unfolding originates_def by (fastforce simp: cache_entry_def)
  have named: "k \<noteq> []" if "jm_get store k = Some c" for k c
    using that assms(1) by (auto simp: cache_inv_def originates_def buildKey_def)
  have "cache_inv sha256 ops ?store" using assms(1) by (auto simp: cache_inv_delete split: list.split)
  moreover have "jm_get ?store ?key = None \<Longrightarrow> length ?store < MAX_ENTRIES"
  proof -
    assume none: "jm_get ?store ?key = None"
    have ok: "jm_ok store" "length store \<le> MAX_ENTRIES" using assms(1) by (auto simp: cache_inv_def)
    show "length ?store < MAX_ENTRIES"
    proof (cases store)
      case Nil
      then show ?thesis by (simp add: MAX_ENTRIES_def)
    next
      case (Cons e rest)
      obtain k c where e: "e = (k, c)" by fastforce
      have "jm_get store k = Some c" using Cons e by simp
      with named have "k \<noteq> []" "length (jm_delete k store) = length store - 1"
        using ok(1) by (auto simp: length_jm_delete)
      with none ok(2) Cons e show ?thesis by (auto split: if_splits)
    qed
  qed
  ultimately have "cache_inv sha256 ops (jm_set ?key (cache_entry now response ?hs) ?store)"
    using origin by (auto simp: cache_inv_def length_jm_set)
  then show ?thesis using True by (simp add: ResponseCache_set_def Let_def)
qed

lemma cache_inv_step:
  assumes "cache_inv sha256 ops store"
  shows "cache_inv sha256 (ops @ [op]) (cache_step sha256 op store)"
proof -
  have "cache_inv sha256 (ops @ [op]) store"
    using assms originates_mono by (auto simp: cache_inv_def)
  then show ?thesis
    by (cases op) (auto simp: cache_step_def cache_inv_get cache_inv_set cache_inv_filter
        ResponseCache_invalidatePrefix_def ResponseCache_evictExpired_def ResponseCache_clear_def,
        simp add: cache_inv_def)
qed

lemma cache_inv_run: "cache_inv sha256 ops (run_cache sha256 ops [])"
proof (induction ops rule: rev_induct)
  case Nil
  then show ?case by (simp add: cache_inv_def)
next
  case (snoc op ops)
  from cache_inv_step [OF this] show ?case by simp
qed

section \<open>No caller sees another's response\<close>

lemma fold_jm_set:
  "jm_ok out \<Longrightarrow> jm_ok (fold (\<lambda>n out. jm_set n (f n) out) ns out) \<and>
   jm_get (fold (\<lambda>n out. jm_set n (f n) out) ns out) k = (if k \<in> set ns then Some (f k) else jm_get out k)"
  by (induction ns arbitrary: out) auto

lemma list_all_graph:
  assumes "\<And>n v. (n, v) \<in> set m \<longleftrightarrow> n \<in> A \<and> v = f n"
  shows "list_all (\<lambda>(n, v). g n = v) m \<longleftrightarrow> (\<forall>n \<in> A. g n = f n)"
proof -
  have "set m = (\<lambda>n. (n, f n)) ` A" using assms by auto
  then show ?thesis by (simp add: list_all_iff)
qed

lemma stored_vary_matches:
  "vary_matches (stored_vary response hs) hs' \<longleftrightarrow>
     (\<forall>name \<in> set (vary_names (lowerCaseHeaders (one_headers (br_headers response)))).
        header_or_empty hs' name = header_or_empty hs name)"
proof -
  let ?names = "vary_names (lowerCaseHeaders (one_headers (br_headers response)))"
  let ?m = "fold (\<lambda>name out. jm_set name (header_or_empty hs name) out) ?names []"
  have "(n, v) \<in> set ?m \<longleftrightarrow> n \<in> set ?names \<and> v = header_or_empty hs n" for n v
    using fold_jm_set [of "[]" "header_or_empty hs" ?names n] jm_get_iff [of ?m n v] by (auto split: if_splits)
  then have "list_all (\<lambda>(name, v). header_or_empty hs' name = v) ?m \<longleftrightarrow>
      (\<forall>name \<in> set ?names. header_or_empty hs' name = header_or_empty hs name)"
    by (rule list_all_graph)
  then show ?thesis by (simp add: vary_matches_def stored_vary_def Let_def)
qed

text \<open>What is used of the digest: it is not empty and has no NUL (it is hexadecimal).\<close>

definition hex_digest :: "(string \<Rightarrow> string) \<Rightarrow> bool" where
  "hex_digest sha256 \<longleftrightarrow> (\<forall>s. sha256 s \<noteq> [] \<and> CHR 0x00 \<notin> set (sha256 s))"

definition no_newline :: "(string, string) jsmap \<Rightarrow> bool" where
  "no_newline hs \<longleftrightarrow> (\<forall>line \<in> set (credential_lines hs). CHR 0x0A \<notin> set line)"

lemma digest_inject:
  assumes "hex_digest sha256" and "no_newline hs" "no_newline hs'"
    and "credentialDigest sha256 hs = credentialDigest sha256 hs'"
    and "take 32 (sha256 (str_join [CHR 0x0A] (credential_lines hs))) =
      take 32 (sha256 (str_join [CHR 0x0A] (credential_lines hs'))) \<longrightarrow>
      str_join [CHR 0x0A] (credential_lines hs) = str_join [CHR 0x0A] (credential_lines hs')"
  shows "credential_lines hs = credential_lines hs'"
proof (cases "credential_lines hs = [] \<or> credential_lines hs' = []")
  case True
  have "take 32 (sha256 s) \<noteq> []" for s using assms(1) by (simp add: hex_digest_def)
  with True assms(4) show ?thesis by (auto simp: credentialDigest_def split: if_splits)
next
  case False
  then have "str_join [CHR 0x0A] (credential_lines hs) = str_join [CHR 0x0A] (credential_lines hs')"
    using assms(4,5) by (simp add: credentialDigest_def)
  moreover have "str_split (CHR 0x0A) (str_join [CHR 0x0A] (credential_lines h)) = credential_lines h"
    if "no_newline h" "credential_lines h \<noteq> []" for h
    using str_split_join [OF that(2), of "CHR 0x0A"] that(1) by (simp add: no_newline_def)
  ultimately show ?thesis using False assms(2,3) by metis
qed

lemma buildKey_inject:
  assumes "hex_digest sha256" and "buildKey sha256 path query hs = buildKey sha256 path' query' hs'"
  shows "cache_url path query = cache_url path' query' \<and> credentialDigest sha256 hs = credentialDigest sha256 hs'"
proof -
  have "CHR 0x00 \<notin> set (credentialDigest sha256 h)" for h
    using assms(1) by (auto simp: credentialDigest_def hex_digest_def dest: in_set_takeD)
  then have "rev (credentialDigest sha256 hs) @ CHR 0x00 # rev (cache_url path query) =
      rev (credentialDigest sha256 hs') @ CHR 0x00 # rev (cache_url path' query') \<longleftrightarrow>
      rev (credentialDigest sha256 hs) = rev (credentialDigest sha256 hs') \<and>
      rev (cache_url path query) = rev (cache_url path' query')"
    by (intro sep_inject) simp_all
  moreover from assms(2) have "rev (buildKey sha256 path query hs) = rev (buildKey sha256 path' query' hs')" by simp
  ultimately show ?thesis by (simp add: buildKey_def)
qed

text \<open>
  C16: the cache never leaks a response across callers. Whatever operations ran before, a response
  served from the cache was stored for a GET of the same URL by a request with exactly the same
  credential headers and the same values of the headers the backend's Vary named; it is the backend's
  2xx response, unchanged, set no cookie, and is still within the age its Cache-Control allowed. The
  cache never holds more than 500 entries. (The hypotheses: the digest is hexadecimal, credential
  headers hold no line break, and no two callers' credentials collide under the digest.)
\<close>

theorem cache_never_leaks:
  assumes "ResponseCache_get sha256 now meth path query requestHeaders (run_cache sha256 ops []) = (Some c, store)"
    and "hex_digest sha256" and "no_newline (lowerCaseHeaders requestHeaders)"
    and "\<forall>t m p q r hs. CSet t m p q r hs \<in> set ops \<longrightarrow> no_newline (lowerCaseHeaders hs) \<and>
      (take 32 (sha256 (str_join [CHR 0x0A] (credential_lines (lowerCaseHeaders hs)))) =
         take 32 (sha256 (str_join [CHR 0x0A] (credential_lines (lowerCaseHeaders requestHeaders)))) \<longrightarrow>
       str_join [CHR 0x0A] (credential_lines (lowerCaseHeaders hs)) =
         str_join [CHR 0x0A] (credential_lines (lowerCaseHeaders requestHeaders)))"
  shows "length (run_cache sha256 ops []) \<le> MAX_ENTRIES \<and>
    (\<exists>t m p q r hs. CSet t m p q r hs \<in> set ops \<and> storable m r \<and>
      cache_url p q = cache_url path query \<and>
      credential_lines (lowerCaseHeaders hs) = credential_lines (lowerCaseHeaders requestHeaders) \<and>
      (\<forall>name \<in> set (vary_names (lowerCaseHeaders (one_headers (br_headers r)))).
         header_or_empty (lowerCaseHeaders requestHeaders) name = header_or_empty (lowerCaseHeaders hs) name) \<and>
      now \<le> t + parseMaxAge (header_or_empty (br_headers r) ''cache-control'') * 1000 \<and>
      br_status c = br_status r \<and> br_headers c = br_headers r \<and> br_body c = br_body r \<and>
      br_bodyEncoding c = br_bodyEncoding r)"
proof -
  let ?hs = "lowerCaseHeaders requestHeaders"
  have inv: "cache_inv sha256 ops (run_cache sha256 ops [])" by (rule cache_inv_run)
  from assms(1) obtain c0 where c0: "jm_get (run_cache sha256 ops []) (buildKey sha256 path query ?hs) = Some c0"
    "\<not> now > cr_expiresAt c0" "vary_matches (cr_vary c0) ?hs" "c = c0\<lparr>cr_hits := cr_hits c0 + 1\<rparr>"
    by (auto simp: ResponseCache_get_def Let_def split: if_splits option.splits)
  with inv obtain t m p q r hs where op: "CSet t m p q r hs \<in> set ops" "storable m r"
    and key: "buildKey sha256 path query ?hs = buildKey sha256 p q (lowerCaseHeaders hs)"
    and entry: "c0\<lparr>cr_hits := 0\<rparr> = cache_entry t r (lowerCaseHeaders hs)"
    unfolding cache_inv_def originates_def by blast
  have fields: "br_status c0 = br_status r" "br_headers c0 = br_headers r" "br_body c0 = br_body r"
    "br_bodyEncoding c0 = br_bodyEncoding r" "cr_vary c0 = stored_vary r (lowerCaseHeaders hs)"
    "cr_expiresAt c0 = t + parseMaxAge (header_or_empty (br_headers r) ''cache-control'') * 1000"
    using entry by (cases c0; simp add: cache_entry_def)+
  note same = buildKey_inject [OF assms(2) key]
  have "credential_lines (lowerCaseHeaders hs) = credential_lines ?hs"
    using assms(3,4) op(1) same by (intro digest_inject [OF assms(2)]) auto
  with op same c0 fields inv show ?thesis
    by (intro conjI exI [of _ t] exI [of _ m] exI [of _ p] exI [of _ q] exI [of _ r] exI [of _ hs])
      (auto simp: cache_inv_def stored_vary_matches)
qed

definition demo_result :: BackendResult where
  "demo_result = \<lparr>br_status = 200, br_headers = [(''cache-control'', ''public, max-age=60''), (''vary'', ''Accept'')],
     br_body = Some ''hello'', br_bodyEncoding = Some Utf8, br_durationMs = 3\<rparr>"

definition demo_caller :: "(string, header_value) jsmap" where
  "demo_caller = [(''Cookie'', HOne ''s=1''), (''Accept'', HOne ''text/html'')]"

text \<open>A digest to evaluate with: the text itself, spelled in two characters.\<close>

definition demo_digest :: "string \<Rightarrow> string" where
  "demo_digest s = ''d'' @ map (\<lambda>c. if c = CHR 0x00 then CHR ''0'' else c) s"

lemma demo_digest_hex: "hex_digest demo_digest"
  by (auto simp: hex_digest_def demo_digest_def)

theorem cache_never_leaks_witness:
  "\<exists>c store. ResponseCache_get demo_digest 50000 ''GET'' ''/'' [] demo_caller
     (run_cache demo_digest [CSet 0 ''GET'' ''/'' [] demo_result demo_caller] []) = (Some c, store) \<and>
     br_body c = Some ''hello''"
proof -
  let ?ops = "[CSet 0 ''GET'' ''/'' [] demo_result demo_caller]"
  have lower: "lowerCaseHeaders demo_caller = [(''cookie'', ''s=1''), (''accept'', ''text/html'')]" by code_simp
  have lines: "credential_lines (lowerCaseHeaders demo_caller) = [''cookie=s=1'']" by code_simp
  have clean: "no_newline (lowerCaseHeaders demo_caller)" by (simp add: no_newline_def lines)
  have "fst (ResponseCache_get demo_digest 50000 ''GET'' ''/'' [] demo_caller (run_cache demo_digest ?ops [])) \<noteq> None"
    by code_simp
  then obtain c store where hit: "ResponseCache_get demo_digest 50000 ''GET'' ''/'' [] demo_caller
      (run_cache demo_digest ?ops []) = (Some c, store)"
    by (cases "ResponseCache_get demo_digest 50000 ''GET'' ''/'' [] demo_caller (run_cache demo_digest ?ops [])") auto
  have "br_body c = br_body demo_result"
    using cache_never_leaks [OF hit demo_digest_hex clean] clean by auto
  with hit show ?thesis by (auto simp: demo_result_def)
qed

end
