(* ===== verification/BackendProxy.thy ===== *)
theory BackendProxy
  imports ResponseCache Bytes Json
begin

text \<open>
  \<^verbatim>\<open>packages/agent/src/proxy/BackendProxy.ts\<close>: requests from the hub on their way to the local backend,
  and the WebSockets opened to it.

  The axios client is outside: \<open>forward_begin\<close> ends with the request handed to it, and \<open>forward_finish\<close>
  takes its answer. So are the \<^verbatim>\<open>ws\<close> sockets: what their constructor and \<^verbatim>\<open>close\<close> do (throwing or not) and
  their \<^verbatim>\<open>readyState\<close> are arguments.
\<close>

section \<open>State and effects\<close>

record backend_proxy =
  bp_port :: nat
  bp_cache :: response_cache
  bp_evictTimer :: bool
  bp_wsConnections :: "(string, socket) jsmap"

definition BackendProxy_new :: "nat \<Rightarrow> backend_proxy" where
  "BackendProxy_new port = \<lparr>bp_port = port, bp_cache = [], bp_evictTimer = True, bp_wsConnections = []\<rparr>"

datatype ws_payload = WsText string | WsBytes bytes

datatype proxy_effect =
  PxWsSend socket ws_payload
| PxWsClose socket "(int \<times> string) option"
| PxWsTerminate socket
| PxClearEvict

text \<open>What axios is asked for, and what it answers.\<close>

datatype request_data = DText string | DBytes bytes

record axios_request =
  aq_meth :: string
  aq_url :: string
  aq_headers :: headers
  aq_data :: "request_data option"
  aq_timeout :: "int option"

record axios_response =
  as_status :: int
  as_headers :: "(string, header_value) jsmap"
  as_data :: bytes


section \<open>Headers\<close>

definition HOP_BY_HOP :: "string list" where
  "HOP_BY_HOP = [''connection'', ''keep-alive'', ''proxy-authenticate'', ''proxy-authorization'', ''te'',
     ''trailers'', ''transfer-encoding'', ''upgrade'']"

definition local_host :: "nat \<Rightarrow> string" where
  "local_host port = ''127.0.0.1:'' @ show_nat port"

definition sanitizeInboundHeaders :: "nat \<Rightarrow> headers \<Rightarrow> headers" where
  "sanitizeInboundHeaders port hs =
     (let clean = fold (\<lambda>(k, v) clean. if toLowerCase k \<notin> set HOP_BY_HOP then jm_set k v clean else clean) hs [] in
      jm_set ''x-forwarded-host'' (local_host port)
        (jm_set ''x-forwarded-by'' ''vhyxvoid'' (jm_set ''host'' (local_host port) clean)))"

text \<open>
  A header whose value is neither a string nor an array is left out; an empty array sets \<^verbatim>\<open>undefined\<close>,
  which no reader of the result tells from an absent field.
\<close>

definition outbound_value :: "string \<Rightarrow> header_value \<Rightarrow> string option" where
  "outbound_value k v =
     (if toLowerCase k = ''set-cookie'' then
        (case v of HMany vs \<Rightarrow> Some (str_join [CHR 0x0A] vs) | HOne s \<Rightarrow> Some s | HNone \<Rightarrow> None)
      else (case v of HOne s \<Rightarrow> Some s | HMany (s # _) \<Rightarrow> Some s | _ \<Rightarrow> None))"

definition sanitizeOutboundHeaders :: "(string, header_value) jsmap \<Rightarrow> headers" where
  "sanitizeOutboundHeaders hs =
     fold (\<lambda>(k, v) clean.
       if toLowerCase k \<in> set HOP_BY_HOP then clean
       else (case outbound_value k v of None \<Rightarrow> clean | Some s \<Rightarrow> jm_set k s clean)) hs []"

section \<open>Forwarding a request\<close>

datatype forward_start =
  Answered BackendResult
| Requested axios_request

definition cache_hit :: "CachedResponse \<Rightarrow> BackendResult" where
  "cache_hit c = \<lparr>br_status = br_status c, br_headers = jm_set ''x-vhyxvoid-cache'' ''HIT'' (br_headers c),
     br_body = br_body c, br_bodyEncoding = br_bodyEncoding c, br_durationMs = 0\<rparr>"

definition invalid_path_result :: BackendResult where
  "invalid_path_result = \<lparr>br_status = 400, br_headers = [(''content-type'', ''application/json'')],
     br_body = Some (json_print (JObj [(''error'', JStr ''Invalid request path''), (''tunnel'', JBool True)])),
     br_bodyEncoding = Some Utf8, br_durationMs = 0\<rparr>"

definition forward_data :: "TunnelForwardMsg \<Rightarrow> request_data option" where
  "forward_data msg =
     (case tf_body msg of
        None \<Rightarrow> None
      | Some body \<Rightarrow>
          if length body > 0 then
            Some (if tf_bodyEncoding msg = Some Base64 then DBytes (Buffer_from True body) else DText body)
          else None)"

definition forward_request :: "nat \<Rightarrow> TunnelForwardMsg \<Rightarrow> axios_request" where
  "forward_request port msg = \<lparr>aq_meth = tf_meth msg, aq_url = cache_url (tf_path msg) (tf_query msg),
     aq_headers = sanitizeInboundHeaders port (tf_headers msg), aq_data = forward_data msg,
     aq_timeout = (if tf_timeoutMs msg \<noteq> 0 then Some (tf_timeoutMs msg) else None)\<rparr>"

definition forward_begin ::
  "(string \<Rightarrow> string) \<Rightarrow> time \<Rightarrow> TunnelForwardMsg \<Rightarrow> backend_proxy \<Rightarrow> forward_start \<times> backend_proxy" where
  "forward_begin sha256 now msg bp =
     (case ResponseCache_get sha256 now (tf_meth msg) (tf_path msg) (tf_query msg) (one_headers (tf_headers msg)) (bp_cache bp) of
        (Some cached, cache) \<Rightarrow> (Answered (cache_hit cached), bp\<lparr>bp_cache := cache\<rparr>)
      | (None, cache) \<Rightarrow>
          (if \<not> isOriginFormPath (Some (tf_path msg)) then Answered invalid_path_result
           else Requested (forward_request (bp_port bp) msg),
           bp\<lparr>bp_cache := cache\<rparr>))"

definition content_type :: "headers \<Rightarrow> header_value" where
  "content_type hs = (case jm_get hs ''content-type'' of None \<Rightarrow> HNone | Some v \<Rightarrow> HOne v)"

definition backend_result :: "int \<Rightarrow> axios_response \<Rightarrow> BackendResult" where
  "backend_result durationMs response =
     (let body = as_data response;
          clean = sanitizeOutboundHeaders (as_headers response);
          hs = (if length body > 0 then jm_set ''content-length'' (show_nat (length body)) clean else clean);
          isBinary = (isBinaryContentType (content_type hs) = Some True)
      in \<lparr>br_status = as_status response, br_headers = hs,
          br_body = (if length body > 0 then Some (buffer_toString isBinary body) else None),
          br_bodyEncoding = Some (if isBinary then Base64 else Utf8), br_durationMs = durationMs\<rparr>)"

definition cache_miss :: "BackendResult \<Rightarrow> BackendResult" where
  "cache_miss r = r\<lparr>br_headers := jm_set ''x-vhyxvoid-cache'' ''MISS'' (br_headers r)\<rparr>"

definition forward_finish ::
  "(string \<Rightarrow> string) \<Rightarrow> time \<Rightarrow> time \<Rightarrow> TunnelForwardMsg \<Rightarrow> axios_response \<Rightarrow> backend_proxy \<Rightarrow>
   BackendResult \<times> backend_proxy" where
  "forward_finish sha256 start now msg response bp =
     (let result = backend_result (now - start) response in
      (cache_miss result,
       bp\<lparr>bp_cache := ResponseCache_set sha256 now (tf_meth msg) (tf_path msg) (tf_query msg) result
             (one_headers (tf_headers msg)) (bp_cache bp)\<rparr>))"

text \<open>
  The whole of \<^verbatim>\<open>forward\<close> when nothing runs between; \<open>axios\<close> is \<open>None\<close> when the backend cannot be reached,
  which is when \<^verbatim>\<open>forward\<close> throws.
\<close>

definition BackendProxy_forward ::
  "(string \<Rightarrow> string) \<Rightarrow> time \<Rightarrow> time \<Rightarrow> (axios_request \<Rightarrow> axios_response option) \<Rightarrow> TunnelForwardMsg \<Rightarrow>
   backend_proxy \<Rightarrow> BackendResult option \<times> backend_proxy" where
  "BackendProxy_forward sha256 start now axios msg bp =
     (case forward_begin sha256 start msg bp of
        (Answered r, bp1) \<Rightarrow> (Some r, bp1)
      | (Requested rq, bp1) \<Rightarrow>
          (case axios rq of
             None \<Rightarrow> (None, bp1)
           | Some response \<Rightarrow>
               (case forward_finish sha256 start now msg response bp1 of (r, bp2) \<Rightarrow> (Some r, bp2))))"

definition base_path :: "string \<Rightarrow> string" where
  "base_path path = str_join ''/'' (butlast (str_split (CHR ''/'') path))"

definition invalidateCacheFor :: "string \<Rightarrow> string \<Rightarrow> backend_proxy \<Rightarrow> backend_proxy" where
  "invalidateCacheFor meth path bp =
     (if toUpperCase meth \<in> set [''POST'', ''PUT'', ''PATCH'', ''DELETE''] then
        bp\<lparr>bp_cache := snd (ResponseCache_invalidatePrefix
             (if base_path path \<noteq> [] then base_path path else path) (bp_cache bp))\<rparr>
      else bp)"

definition getCacheStats :: "backend_proxy \<Rightarrow> nat \<times> nat" where
  "getCacheStats bp = ResponseCache_stats (bp_cache bp)"

section \<open>WebSockets to the backend\<close>

definition ws_url :: "nat \<Rightarrow> string \<Rightarrow> string \<Rightarrow> string" where
  "ws_url port path query =
     ''ws://'' @ local_host port @ path @ (if query \<noteq> [] then ''?'' @ query else [])"

definition ws_headers :: "nat \<Rightarrow> headers \<Rightarrow> headers" where
  "ws_headers port hs = jm_set ''host'' (local_host port) hs"

datatype ws_open =
  WsRefused string
| WsThrew
| WsOpened socket string headers

text \<open>\<open>created\<close> is the new socket, \<open>None\<close> when the constructor throws.\<close>

definition openWebSocket ::
  "socket option \<Rightarrow> string \<Rightarrow> string \<Rightarrow> string \<Rightarrow> headers \<Rightarrow> backend_proxy \<Rightarrow> ws_open \<times> backend_proxy" where
  "openWebSocket created connectionId path query hs bp =
     (if \<not> isOriginFormPath (Some path) then (WsRefused ''Invalid request path'', bp)
      else (case created of
          None \<Rightarrow> (WsThrew, bp)
        | Some ws \<Rightarrow>
            (WsOpened ws (ws_url (bp_port bp) path query) (ws_headers (bp_port bp) hs),
             bp\<lparr>bp_wsConnections := jm_set connectionId ws (bp_wsConnections bp)\<rparr>)))"

text \<open>The socket's \<^verbatim>\<open>message\<close> handler: the text given to the callback.\<close>

definition ws_encoded :: "bool \<Rightarrow> bytes \<Rightarrow> string" where
  "ws_encoded isBinary bs = buffer_toString isBinary bs"

text \<open>Its \<^verbatim>\<open>close\<close> and \<^verbatim>\<open>error\<close> handlers first forget the connection.\<close>

definition ws_gone :: "string \<Rightarrow> backend_proxy \<Rightarrow> backend_proxy" where
  "ws_gone connectionId bp = bp\<lparr>bp_wsConnections := jm_delete connectionId (bp_wsConnections bp)\<rparr>"

definition sendWebSocketMessage ::
  "(socket \<Rightarrow> bool) \<Rightarrow> string \<Rightarrow> string \<Rightarrow> bool \<Rightarrow> backend_proxy \<Rightarrow> proxy_effect list" where
  "sendWebSocketMessage ready connectionId payload isBinary bp =
     (case jm_get (bp_wsConnections bp) connectionId of
        None \<Rightarrow> []
      | Some ws \<Rightarrow>
          if \<not> ready ws then []
          else [PxWsSend ws (if isBinary then WsBytes (Buffer_from True payload) else WsText payload)])"

definition closeWebSocket ::
  "(socket \<Rightarrow> bool) \<Rightarrow> string \<Rightarrow> js_number option \<Rightarrow> string \<Rightarrow> backend_proxy \<Rightarrow> backend_proxy \<times> proxy_effect list" where
  "closeWebSocket throws connectionId code reason bp =
     (case jm_get (bp_wsConnections bp) connectionId of
        None \<Rightarrow> (bp, [])
      | Some ws \<Rightarrow>
          (ws_gone connectionId bp,
           [if throws ws then PxWsTerminate ws else PxWsClose ws (Some (toSendableCloseCode code, reason))]))"

definition closeAllWebSockets :: "(socket \<Rightarrow> bool) \<Rightarrow> backend_proxy \<Rightarrow> backend_proxy \<times> proxy_effect list" where
  "closeAllWebSockets throws bp =
     (bp\<lparr>bp_wsConnections := []\<rparr>,
      map (\<lambda>ws. if throws ws then PxWsTerminate ws else PxWsClose ws None) (jm_values (bp_wsConnections bp)))"

definition BackendProxy_stop :: "(socket \<Rightarrow> bool) \<Rightarrow> backend_proxy \<Rightarrow> backend_proxy \<times> proxy_effect list" where
  "BackendProxy_stop throws bp =
     (case closeAllWebSockets throws (bp\<lparr>bp_evictTimer := False, bp_cache := ResponseCache_clear (bp_cache bp)\<rparr>) of
        (bp1, fx) \<Rightarrow> (bp1, (if bp_evictTimer bp then [PxClearEvict] else []) @ fx))"

section \<open>What reaches the backend\<close>









section \<open>Invalidation\<close>

lemma split_last_segment:
  "CHR ''/'' \<notin> set leaf \<Longrightarrow> str_split (CHR ''/'') (dir @ CHR ''/'' # leaf) = str_split (CHR ''/'') dir @ [leaf]"
  by (induction dir) (auto simp: str_split_no_sep)

lemma base_path_dir: "CHR ''/'' \<notin> set leaf \<Longrightarrow> base_path (dir @ CHR ''/'' # leaf) = dir"
  by (simp add: base_path_def split_last_segment str_join_split)

text \<open>
  a mutating request on \<^verbatim>\<open>dir/leaf\<close> drops exactly the cached responses whose key starts with \<^verbatim>\<open>dir\<close>, or
  with the whole path when \<^verbatim>\<open>dir\<close> is empty, and other requests drop none. The path is taken with its query: the hub puts the query there, so a mutation
  \<^verbatim>\<open>/leaf?query\<close> leaves the cached answer for \<^verbatim>\<open>/leaf\<close> in place.
\<close>

theorem invalidation_exact:
  assumes "jm_ok (bp_cache bp)" and "CHR ''/'' \<notin> set leaf"
  shows "jm_get (bp_cache (invalidateCacheFor meth (dir @ CHR ''/'' # leaf) bp)) key =
    (if toUpperCase meth \<in> set [''POST'', ''PUT'', ''PATCH'', ''DELETE''] \<and>
        prefix (if dir \<noteq> [] then dir else CHR ''/'' # leaf) key
     then None else jm_get (bp_cache bp) key)"
  using base_path_dir [OF assms(2), of dir]
  by (auto simp: invalidateCacheFor_def ResponseCache_invalidatePrefix_def jm_get_filter [OF assms(1)]
      split: option.splits)

definition demo_cached :: CachedResponse where
  "demo_cached = \<lparr>br_status = 200, br_headers = [], br_body = Some ''old'', br_bodyEncoding = Some Utf8, br_durationMs = 1,
     cr_vary = None, cr_cachedAt = 0, cr_expiresAt = 60000, cr_hits = 0\<rparr>"

text \<open>After a POST to the same resource with a query, the old list is still served.\<close>

theorem invalidation_exact_witness:
  "jm_get (bp_cache (invalidateCacheFor ''POST'' ''/items?notify=1''
      ((BackendProxy_new 3000)\<lparr>bp_cache := [(buildKey (\<lambda>s. s) ''/items'' [] [], demo_cached)]\<rparr>)))
     (buildKey (\<lambda>s. s) ''/items'' [] []) = Some demo_cached"
proof -
  let ?key = "buildKey (\<lambda>s. s) ''/items'' [] []"
  let ?bp = "(BackendProxy_new 3000)\<lparr>bp_cache := [(?key, demo_cached)]\<rparr>"
  have "\<not> prefix ''/items?notify=1'' ?key" by code_simp
  moreover have "jm_ok (bp_cache ?bp)" by (simp add: jm_ok_def)
  ultimately show ?thesis using invalidation_exact [of ?bp "''items?notify=1''" "''POST''" "[]" ?key] by simp
qed

section \<open>WebSockets\<close>

text \<open>A socket is opened on this machine only, and the registry knows exactly the sockets opened and not gone.\<close>

lemma open_local:
  assumes "openWebSocket created c path query hs bp = (WsOpened ws url whs, bp')"
  shows "prefix (''ws://'' @ local_host (bp_port bp) @ ''/'') url" and "created = Some ws"
    and "jm_get whs ''host'' = Some (local_host (bp_port bp))"
    and "jm_get (bp_wsConnections bp') = (jm_get (bp_wsConnections bp))(c \<mapsto> ws)"
  using assms
  by (auto simp: openWebSocket_def ws_url_def ws_headers_def isOriginFormPath_def fun_eq_iff
      split: if_splits option.splits list.splits)

lemma send_only_own:
  "PxWsSend ws payload \<in> set (sendWebSocketMessage ready c d isBinary bp) \<Longrightarrow>
     jm_get (bp_wsConnections bp) c = Some ws \<and> ready ws"
  by (auto simp: sendWebSocketMessage_def split: option.splits if_splits)

lemma closed_code_sendable:
  "PxWsClose ws (Some (code, reason)) \<in> set (snd (closeWebSocket throws c code' reason' bp)) \<Longrightarrow>
     code = toSendableCloseCode code' \<and> jm_get (bp_wsConnections (fst (closeWebSocket throws c code' reason' bp))) c = None"
  by (auto simp: closeWebSocket_def ws_gone_def split: option.splits if_splits)

lemma stop_releases:
  "bp_wsConnections (fst (BackendProxy_stop throws bp)) = [] \<and> bp_cache (fst (BackendProxy_stop throws bp)) = [] \<and>
   \<not> bp_evictTimer (fst (BackendProxy_stop throws bp))"
  by (simp add: BackendProxy_stop_def closeAllWebSockets_def ResponseCache_clear_def)

section \<open>The answer\<close>

text \<open>The body of a result is the backend's bytes, in an encoding that gives them back.\<close>

lemma backend_result_body:
  assumes "is_bytes (as_data response)"
    and "isBinaryContentType (content_type (br_headers (backend_result d response))) = Some True \<or>
      (\<exists>s. as_data response = utf8_encode s)"
  shows "(case br_body (backend_result d response) of None \<Rightarrow> []
      | Some body \<Rightarrow> Buffer_from (br_bodyEncoding (backend_result d response) = Some Base64) body) = as_data response"
proof (cases "as_data response = []")
  case True
  then show ?thesis by (simp add: backend_result_def Let_def)
next
  case False
  then show ?thesis
    using buffer_roundtrip [OF assms(1)] assms(2) by (auto simp: backend_result_def Let_def)
qed

lemma backend_result_length:
  "as_data response \<noteq> [] \<Longrightarrow>
   jm_get (br_headers (backend_result d response)) ''content-length'' = Some (show_nat (length (as_data response)))"
  by (simp add: backend_result_def Let_def)

end
