(* ===== verification/DurableQueue.thy ===== *)
theory DurableQueue
  imports ResponseCache "HOL-Library.Product_Lexorder"
begin

text \<open>
  \<^verbatim>\<open>packages/agent/src/queue\<close> and \<^verbatim>\<open>replay/replayQueue.ts\<close>: the agent's durable queue of requests, its
  dead letters, and the replay of what is due.

  The two SQLite tables are lists of rows in insertion order. A violated primary key is the error
  \<open>Inl ()\<close>. SQLite leaves the order of rows with equal sort keys open; here they keep their insertion
  order, on which no property depends.
\<close>

section \<open>The queue\<close>

datatype QueueDirection = Inbound | Outbound

record QueueItem =
  qi_id :: string
  qi_direction :: QueueDirection
  qi_payload :: string
  qi_ts :: time
  qi_attempts :: nat
  qi_maxAttempts :: nat
  qi_nextRetryAt :: time

record DeadLetter =
  dl_id :: string
  dl_direction :: QueueDirection
  dl_payload :: string
  dl_ts :: time
  dl_attempts :: nat
  dl_failedAt :: time

record durable_queue =
  dq_rows :: "QueueItem list"
  dq_dead :: "DeadLetter list"

definition DurableQueue_open :: "durable_queue \<Rightarrow> durable_queue" where
  "DurableQueue_open db =
     \<lparr>dq_rows = filter (\<lambda>r. qi_direction r \<noteq> Outbound) (dq_rows db),
      dq_dead = filter (\<lambda>d. dl_direction d \<noteq> Outbound) (dq_dead db)\<rparr>"

definition enqueueInbound :: "time \<Rightarrow> string \<Rightarrow> string \<Rightarrow> durable_queue \<Rightarrow> unit + durable_queue" where
  "enqueueInbound now uuid payload q =
     (if uuid \<in> set (map qi_id (dq_rows q)) then Inl ()
      else Inr (q\<lparr>dq_rows := dq_rows q @
        [\<lparr>qi_id = uuid, qi_direction = Inbound, qi_payload = payload, qi_ts = now, qi_attempts = 0,
          qi_maxAttempts = QUEUE_MAX_ATTEMPTS_INBOUND, qi_nextRetryAt = 0\<rparr>]\<rparr>))"

definition replay_rank :: "QueueItem \<Rightarrow> nat \<times> time" where
  "replay_rank r = ((case qi_direction r of Outbound \<Rightarrow> 0 | Inbound \<Rightarrow> 1), qi_ts r)"

definition drainForReplay :: "time \<Rightarrow> durable_queue \<Rightarrow> QueueItem list" where
  "drainForReplay now q = sort_key replay_rank (filter (\<lambda>r. qi_nextRetryAt r \<le> now) (dq_rows q))"

definition markSuccess :: "string \<Rightarrow> durable_queue \<Rightarrow> durable_queue" where
  "markSuccess i q = q\<lparr>dq_rows := filter (\<lambda>r. qi_id r \<noteq> i) (dq_rows q)\<rparr>"

definition backoffMs :: "nat \<Rightarrow> int" where
  "backoffMs newAttempts = min (1000 * 2 ^ (newAttempts - 1)) 300000"

text \<open>The transaction that moves a row to the dead letters rolls back when its insert fails.\<close>

definition markFailed :: "time \<Rightarrow> string \<Rightarrow> durable_queue \<Rightarrow> unit + durable_queue" where
  "markFailed now i q =
     (case List.find (\<lambda>r. qi_id r = i) (dq_rows q) of
        None \<Rightarrow> Inr q
      | Some item \<Rightarrow>
          (let newAttempts = qi_attempts item + 1 in
           if newAttempts \<ge> qi_maxAttempts item then
             (if qi_id item \<in> set (map dl_id (dq_dead q)) then Inl ()
              else Inr \<lparr>dq_rows = filter (\<lambda>r. qi_id r \<noteq> i) (dq_rows q),
                dq_dead = dq_dead q @ [\<lparr>dl_id = qi_id item, dl_direction = qi_direction item,
                  dl_payload = qi_payload item, dl_ts = qi_ts item, dl_attempts = newAttempts, dl_failedAt = now\<rparr>]\<rparr>)
           else Inr (q\<lparr>dq_rows := map (\<lambda>r. if qi_id r = i
                 then r\<lparr>qi_attempts := newAttempts, qi_nextRetryAt := now + backoffMs newAttempts\<rparr> else r) (dq_rows q)\<rparr>)))"

record queue_count =
  qc_ready :: nat
  qc_pending :: nat
  qc_deadLetter :: nat

definition DurableQueue_count :: "time \<Rightarrow> durable_queue \<Rightarrow> queue_count" where
  "DurableQueue_count now q =
     \<lparr>qc_ready = length (filter (\<lambda>r. qi_nextRetryAt r \<le> now) (dq_rows q)),
      qc_pending = length (filter (\<lambda>r. qi_nextRetryAt r > now) (dq_rows q)),
      qc_deadLetter = length (dq_dead q)\<rparr>"

text \<open>A negative limit is no limit.\<close>

definition deadLetterItems :: "int \<Rightarrow> durable_queue \<Rightarrow> QueueItem list" where
  "deadLetterItems limit q =
     (let rows = map (\<lambda>d. \<lparr>qi_id = dl_id d, qi_direction = dl_direction d, qi_payload = dl_payload d,
            qi_ts = dl_ts d, qi_attempts = dl_attempts d, qi_maxAttempts = 0, qi_nextRetryAt = dl_failedAt d\<rparr>)
            (sort_key (\<lambda>d. - dl_failedAt d) (dq_dead q))
      in if limit < 0 then rows else take (nat limit) rows)"

text \<open>\<^verbatim>\<open>NoOpQueue\<close>, used when the queue is disabled, keeps nothing.\<close>

definition NoOp_drainForReplay :: "time \<Rightarrow> unit \<Rightarrow> QueueItem list" where
  "NoOp_drainForReplay now q = []"

definition NoOp_markSuccess :: "string \<Rightarrow> unit \<Rightarrow> unit" where
  "NoOp_markSuccess i q = q"

definition NoOp_markFailed :: "time \<Rightarrow> string \<Rightarrow> unit \<Rightarrow> unit + unit" where
  "NoOp_markFailed now i q = Inr q"

definition NoOp_count :: "time \<Rightarrow> unit \<Rightarrow> queue_count" where
  "NoOp_count now q = \<lparr>qc_ready = 0, qc_pending = 0, qc_deadLetter = 0\<rparr>"

section \<open>Replay\<close>

text \<open>
  \<open>parse\<close> is \<^verbatim>\<open>JSON.parse\<close> of a stored payload, \<open>fwd\<close> the backend proxy with its own state, each \<open>None\<close>
  when it throws; \<open>at item\<close> is the clock when the item's failure is recorded. The queue's operations
  are arguments, as in \<^verbatim>\<open>QueueLike\<close>. A replay that \<^verbatim>\<open>markFailed\<close> aborts is \<open>Inl\<close>.
\<close>

record ReplayResult =
  rr_succeeded :: nat
  rr_failed :: nat
  rr_skipped :: nat

definition result_message :: "string \<Rightarrow> BackendResult \<Rightarrow> TunnelResponseMsg" where
  "result_message requestId r = \<lparr>tr_requestId = requestId, tr_status = br_status r, tr_headers = br_headers r,
     tr_body = br_body r, tr_bodyEncoding = br_bodyEncoding r, tr_durationMs = br_durationMs r\<rparr>"

definition replayInbound ::
  "(string \<Rightarrow> TunnelForwardMsg option) \<Rightarrow> (TunnelForwardMsg \<Rightarrow> 'p \<Rightarrow> BackendResult option \<times> 'p) \<Rightarrow>
   QueueItem \<Rightarrow> 'p \<Rightarrow> TunnelResponseMsg option \<times> 'p" where
  "replayInbound parse fwd item p =
     (case parse (qi_payload item) of
        None \<Rightarrow> (None, p)
      | Some f \<Rightarrow>
          (case fwd f p of
             (None, p') \<Rightarrow> (None, p')
           | (Some r, p') \<Rightarrow> (Some (result_message (tf_requestId f) r), p')))"

fun replay_items ::
  "(string \<Rightarrow> 'q \<Rightarrow> 'q) \<Rightarrow> (time \<Rightarrow> string \<Rightarrow> 'q \<Rightarrow> unit + 'q) \<Rightarrow> (QueueItem \<Rightarrow> time) \<Rightarrow>
   (string \<Rightarrow> TunnelForwardMsg option) \<Rightarrow> (TunnelForwardMsg \<Rightarrow> 'p \<Rightarrow> BackendResult option \<times> 'p) \<Rightarrow>
   QueueItem list \<Rightarrow> 'q \<Rightarrow> 'p \<Rightarrow> TunnelResponseMsg list \<Rightarrow> ReplayResult \<Rightarrow>
   unit + ('q \<times> 'p \<times> TunnelResponseMsg list \<times> ReplayResult)" where
  "replay_items ms mf at parse fwd [] q p sent res = Inr (q, p, sent, res)"
| "replay_items ms mf at parse fwd (item # items) q p sent res =
     (if qi_direction item = Outbound then
        replay_items ms mf at parse fwd items (ms (qi_id item) q) p sent (res\<lparr>rr_skipped := rr_skipped res + 1\<rparr>)
      else
        (case replayInbound parse fwd item p of
           (Some response, p') \<Rightarrow>
             replay_items ms mf at parse fwd items (ms (qi_id item) q) p' (sent @ [response])
               (res\<lparr>rr_succeeded := rr_succeeded res + 1\<rparr>)
         | (None, p') \<Rightarrow>
             (case mf (at item) (qi_id item) q of
                Inl e \<Rightarrow> Inl e
              | Inr q' \<Rightarrow>
                  replay_items ms mf at parse fwd items q' p' sent (res\<lparr>rr_failed := rr_failed res + 1\<rparr>))))"

definition replayQueue ::
  "(time \<Rightarrow> 'q \<Rightarrow> QueueItem list) \<Rightarrow> (string \<Rightarrow> 'q \<Rightarrow> 'q) \<Rightarrow> (time \<Rightarrow> string \<Rightarrow> 'q \<Rightarrow> unit + 'q) \<Rightarrow> time \<Rightarrow>
   (QueueItem \<Rightarrow> time) \<Rightarrow> (string \<Rightarrow> TunnelForwardMsg option) \<Rightarrow>
   (TunnelForwardMsg \<Rightarrow> 'p \<Rightarrow> BackendResult option \<times> 'p) \<Rightarrow> 'q \<Rightarrow> 'p \<Rightarrow>
   unit + ('q \<times> 'p \<times> TunnelResponseMsg list \<times> ReplayResult)" where
  "replayQueue drain ms mf now at parse fwd q p =
     (let none = \<lparr>rr_succeeded = 0, rr_failed = 0, rr_skipped = 0\<rparr> in
      if length (drain now q) = 0 then Inr (q, p, [], none)
      else replay_items ms mf at parse fwd (drain now q) q p [] none)"

section \<open>What a replay owes the queue\<close>

text \<open>
  The contract of a queue that is replayed: \<open>view\<close> is the row under an id, \<open>dead\<close> the ids given up on.
\<close>

locale replayable_queue =
  fixes view :: "'q \<Rightarrow> string \<Rightarrow> QueueItem option"
    and dead :: "'q \<Rightarrow> string \<Rightarrow> bool"
    and drain :: "time \<Rightarrow> 'q \<Rightarrow> QueueItem list"
    and ms :: "string \<Rightarrow> 'q \<Rightarrow> 'q"
    and mf :: "time \<Rightarrow> string \<Rightarrow> 'q \<Rightarrow> unit + 'q"
    and inv :: "'q \<Rightarrow> bool"
  assumes drained: "inv q \<Longrightarrow> item \<in> set (drain now q) \<longleftrightarrow>
      view q (qi_id item) = Some item \<and> qi_nextRetryAt item \<le> now"
    and drained_once: "inv q \<Longrightarrow> distinct (map qi_id (drain now q))"
    and success: "inv q \<Longrightarrow> inv (ms i q) \<and> view (ms i q) = (view q)(i := None) \<and> dead (ms i q) = dead q"
    and failure: "inv q \<Longrightarrow> view q i = Some item \<Longrightarrow> \<exists>q'. mf now i q = Inr q' \<and> inv q' \<and>
      (if qi_attempts item + 1 \<ge> qi_maxAttempts item
       then view q' = (view q)(i := None) \<and> dead q' = (dead q)(i := True)
       else view q' = (view q)(i \<mapsto> item\<lparr>qi_attempts := qi_attempts item + 1,
                qi_nextRetryAt := now + backoffMs (qi_attempts item + 1)\<rparr>) \<and> dead q' = dead q)"
begin

text \<open>
  The fate of a replayed row: skipped, answered or given up on, and then gone; or kept for a later
  attempt.
\<close>

definition settled :: "(QueueItem \<Rightarrow> time) \<Rightarrow> (string \<Rightarrow> TunnelForwardMsg option) \<Rightarrow> QueueItem \<Rightarrow> 'q \<Rightarrow>
    TunnelResponseMsg list \<Rightarrow> bool" where
  "settled at parse item q sent \<longleftrightarrow>
     view q (qi_id item) = None \<and>
       (qi_direction item = Outbound \<or> dead q (qi_id item) \<or>
        (\<exists>f r. parse (qi_payload item) = Some f \<and> r \<in> set sent \<and> tr_requestId r = tf_requestId f)) \<or>
     view q (qi_id item) = Some (item\<lparr>qi_attempts := qi_attempts item + 1,
       qi_nextRetryAt := at item + backoffMs (qi_attempts item + 1)\<rparr>) \<and>
       qi_attempts item + 1 < qi_maxAttempts item"

lemma settled_mono:
  assumes "settled at parse item q sent" and "view q' (qi_id item) = view q (qi_id item)"
    and "\<And>i. dead q i \<Longrightarrow> dead q' i" and "set sent \<subseteq> set sent'"
  shows "settled at parse item q' sent'"
  using assms unfolding settled_def by (metis subsetD)

lemma replay_items_settle:
  assumes "inv q" and "distinct (map qi_id items)" and "\<forall>item \<in> set items. view q (qi_id item) = Some item"
  shows "\<exists>q' p' sent' res'. replay_items ms mf at parse fwd items q p sent res = Inr (q', p', sent', res') \<and> inv q' \<and>
    (\<forall>i. i \<notin> qi_id ` set items \<longrightarrow> view q' i = view q i) \<and> (\<forall>i. dead q i \<longrightarrow> dead q' i) \<and>
    set sent \<subseteq> set sent' \<and> (\<forall>item \<in> set items. settled at parse item q' sent')"
  using assms
proof (induction items arbitrary: q p sent res)
  case Nil
  then show ?case by simp
next
  case (Cons item items)
  have rest: ?case
    if inv: "inv q1" and others: "\<forall>i. i \<noteq> qi_id item \<longrightarrow> view q1 i = view q i"
      and dead: "\<forall>i. dead q i \<longrightarrow> dead q1 i" and sent: "set sent \<subseteq> set sent1"
      and fate: "settled at parse item q1 sent1"
      and step: "replay_items ms mf at parse fwd (item # items) q p sent res =
        replay_items ms mf at parse fwd items q1 p1 sent1 res1"
    for q1 p1 sent1 res1
  proof -
    have "distinct (map qi_id items)" and fresh: "qi_id item \<notin> qi_id ` set items" using Cons.prems(2) by auto
    moreover have "\<forall>item \<in> set items. view q1 (qi_id item) = Some item"
      using others fresh Cons.prems(3) by (metis image_eqI list.set_intros(2))
    ultimately obtain q' p' sent' res' where
      R: "replay_items ms mf at parse fwd items q1 p1 sent1 res1 = Inr (q', p', sent', res')" "inv q'"
        "\<forall>i. i \<notin> qi_id ` set items \<longrightarrow> view q' i = view q1 i" "\<forall>i. dead q1 i \<longrightarrow> dead q' i"
        "set sent1 \<subseteq> set sent'" "\<forall>item \<in> set items. settled at parse item q' sent'"
      using Cons.IH [OF inv, of p1 sent1 res1] by blast
    have "settled at parse item q' sent'" using settled_mono [OF fate] R(3-5) fresh by blast
    then show ?thesis using R step others dead sent by auto
  qed
  have view: "view q (qi_id item) = Some item" using Cons.prems(3) by simp
  note S = success [OF Cons.prems(1), of "qi_id item"]
  obtain q1 where F: "mf (at item) (qi_id item) q = Inr q1" "inv q1"
    "if qi_attempts item + 1 \<ge> qi_maxAttempts item
       then view q1 = (view q)(qi_id item := None) \<and> dead q1 = (dead q)(qi_id item := True)
       else view q1 = (view q)(qi_id item \<mapsto> item\<lparr>qi_attempts := qi_attempts item + 1,
                qi_nextRetryAt := at item + backoffMs (qi_attempts item + 1)\<rparr>) \<and> dead q1 = dead q"
    using failure [OF Cons.prems(1) view] by blast
  obtain resp p1 where RI: "replayInbound parse fwd item p = (resp, p1)" by fastforce
  consider (skip) "qi_direction item = Outbound" | (fail) "qi_direction item \<noteq> Outbound" "resp = None"
    | (ok) r where "qi_direction item \<noteq> Outbound" "resp = Some r" by fastforce
  then show ?case
  proof cases
    case skip
    then show ?thesis using S by (intro rest [of "ms (qi_id item) q" sent]) (auto simp: settled_def)
  next
    case fail
    then show ?thesis
      using F RI by (intro rest [of q1 sent]) (auto simp: settled_def split: if_splits)
  next
    case ok
    then obtain f where "parse (qi_payload item) = Some f" "tr_requestId r = tf_requestId f"
      using RI by (auto simp: replayInbound_def result_message_def split: option.splits prod.splits)
    then show ?thesis
      using ok S RI by (intro rest [of "ms (qi_id item) q" "sent @ [r]"]) (auto simp: settled_def)
  qed
qed

lemma replay_settles:
  assumes "inv q"
  obtains q' p' sent res where "replayQueue drain ms mf now at parse fwd q p = Inr (q', p', sent, res)" "inv q'"
    "\<And>i item. view q i = Some item \<Longrightarrow> qi_nextRetryAt item > now \<Longrightarrow> view q' i = view q i"
    "\<And>i. view q i = None \<Longrightarrow> view q' i = None" "\<And>i. dead q i \<Longrightarrow> dead q' i"
    "\<And>item. view q (qi_id item) = Some item \<Longrightarrow> qi_nextRetryAt item \<le> now \<Longrightarrow> settled at parse item q' sent"
proof -
  let ?none = "\<lparr>rr_succeeded = 0, rr_failed = 0, rr_skipped = 0\<rparr>"
  obtain q' p' sent res where R: "replay_items ms mf at parse fwd (drain now q) q p [] ?none = Inr (q', p', sent, res)"
    "inv q'" "\<forall>i. i \<notin> qi_id ` set (drain now q) \<longrightarrow> view q' i = view q i" "\<forall>i. dead q i \<longrightarrow> dead q' i"
    "\<forall>item \<in> set (drain now q). settled at parse item q' sent"
  proof -
    have "\<forall>item \<in> set (drain now q). view q (qi_id item) = Some item" using drained [OF assms] by blast
    from replay_items_settle [OF assms drained_once [OF assms] this, where p = p and sent = "[]" and res = ?none
        and at = at and parse = parse and fwd = fwd]
    show ?thesis using that by blast
  qed
  have run: "replayQueue drain ms mf now at parse fwd q p = Inr (q', p', sent, res)"
    using R(1) by (auto simp: replayQueue_def Let_def)
  have not_due: "i \<notin> qi_id ` set (drain now q)" if "view q i = None \<or> (\<exists>item. view q i = Some item \<and> qi_nextRetryAt item > now)" for i
    using that drained [OF assms] by fastforce
  show ?thesis
    by (rule that [OF run R(2)]) (use R not_due drained [OF assms] in \<open>auto\<close>)
qed

end

section \<open>The durable queue keeps the contract\<close>

definition queue_view :: "durable_queue \<Rightarrow> string \<Rightarrow> QueueItem option" where
  "queue_view q i = List.find (\<lambda>r. qi_id r = i) (dq_rows q)"

definition given_up :: "durable_queue \<Rightarrow> string \<Rightarrow> bool" where
  "given_up q i \<longleftrightarrow> i \<in> set (map dl_id (dq_dead q))"

definition queue_inv :: "durable_queue \<Rightarrow> bool" where
  "queue_inv q \<longleftrightarrow> distinct (map qi_id (dq_rows q) @ map dl_id (dq_dead q))"

lemma queue_view_iff: "queue_inv q \<Longrightarrow> queue_view q i = Some r \<longleftrightarrow> r \<in> set (dq_rows q) \<and> qi_id r = i"
  using find_unique [of qi_id "dq_rows q" r]
  by (auto simp: queue_inv_def queue_view_def find_Some_iff)

lemma queue_view_None: "queue_view q i = None \<longleftrightarrow> i \<notin> set (map qi_id (dq_rows q))"
  by (auto simp: queue_view_def find_None_iff)

lemma distinct_drain: "distinct (map f xs) \<Longrightarrow> distinct (map f (sort_key g (filter P xs)))"
  by (auto simp: distinct_map inj_on_def)

lemma find_remove: "List.find (\<lambda>r. f r = j) (filter (\<lambda>r. f r \<noteq> i) rs) =
    (if j = i then None else List.find (\<lambda>r. f r = j) rs)"
  by (induction rs) auto

lemma find_update:
  "(\<And>r. f (g r) = f r) \<Longrightarrow> List.find (\<lambda>r. f r = j) (map (\<lambda>r. if f r = i then g r else r) rs) =
     (if j = i then map_option g (List.find (\<lambda>r. f r = j) rs) else List.find (\<lambda>r. f r = j) rs)"
  by (induction rs) auto

lemma markSuccess_view: "queue_view (markSuccess i q) = (queue_view q)(i := None)"
  by (auto simp: queue_view_def markSuccess_def find_remove)

lemma queue_inv_remove:
  assumes "queue_inv q"
  shows "distinct (map qi_id (filter P (dq_rows q)) @ map dl_id (filter P' (dq_dead q)))"
proof -
  have "set (map qi_id (filter P (dq_rows q))) \<subseteq> set (map qi_id (dq_rows q))"
    and "set (map dl_id (filter P' (dq_dead q))) \<subseteq> set (map dl_id (dq_dead q))" by auto
  moreover have "set (map qi_id (dq_rows q)) \<inter> set (map dl_id (dq_dead q)) = {}"
    using assms by (simp only: queue_inv_def distinct_append)
  ultimately have "set (map qi_id (filter P (dq_rows q))) \<inter> set (map dl_id (filter P' (dq_dead q))) = {}" by blast
  then show ?thesis
    using assms by (simp only: queue_inv_def distinct_append distinct_map_filter_mono simp_thms)
qed

lemma markFailed_cases:
  assumes inv: "queue_inv q" and view: "queue_view q i = Some item"
  shows "\<exists>q'. markFailed now i q = Inr q' \<and> queue_inv q' \<and>
      (if qi_attempts item + 1 \<ge> qi_maxAttempts item
       then queue_view q' = (queue_view q)(i := None) \<and> given_up q' = (given_up q)(i := True)
       else queue_view q' = (queue_view q)(i \<mapsto> item\<lparr>qi_attempts := qi_attempts item + 1,
                qi_nextRetryAt := now + backoffMs (qi_attempts item + 1)\<rparr>) \<and> given_up q' = given_up q)"
proof -
  have item: "qi_id item = i" "item \<in> set (dq_rows q)" using view queue_view_iff [OF inv] by auto
  then have fresh: "i \<notin> set (map dl_id (dq_dead q))" using inv by (force simp: queue_inv_def)
  have found: "List.find (\<lambda>r. qi_id r = i) (dq_rows q) = Some item" using view by (simp add: queue_view_def)
  show ?thesis
  proof (cases "qi_attempts item + 1 \<ge> qi_maxAttempts item")
    case True
    then show ?thesis
      using item fresh found queue_inv_remove [OF inv, of "\<lambda>r. qi_id r \<noteq> i" "\<lambda>_. True"]
      by (auto simp: markFailed_def queue_inv_def queue_view_def given_up_def find_remove fun_eq_iff)
  next
    case False
    let ?g = "\<lambda>r. r\<lparr>qi_attempts := qi_attempts item + 1, qi_nextRetryAt := now + backoffMs (qi_attempts item + 1)\<rparr>"
    let ?q = "q\<lparr>dq_rows := map (\<lambda>r. if qi_id r = i then ?g r else r) (dq_rows q)\<rparr>"
    have "markFailed now i q = Inr ?q" using False found by (simp add: markFailed_def)
    moreover have "map qi_id (dq_rows ?q) = map qi_id (dq_rows q)" by auto
    then have "queue_inv ?q" using inv by (simp only: queue_inv_def) simp
    moreover have "queue_view ?q = (queue_view q)(i \<mapsto> ?g item)"
      using found find_update [of qi_id ?g _ i "dq_rows q"] by (simp add: queue_view_def fun_eq_iff)
    moreover have "given_up ?q = given_up q" by (simp add: given_up_def fun_eq_iff)
    ultimately show ?thesis using False by (intro exI [of _ ?q]) (simp only: if_False simp_thms)
  qed
qed

interpretation durable: replayable_queue queue_view given_up drainForReplay markSuccess markFailed queue_inv
proof
  fix q :: durable_queue and item now
  assume inv: "queue_inv q"
  show "item \<in> set (drainForReplay now q) \<longleftrightarrow> queue_view q (qi_id item) = Some item \<and> qi_nextRetryAt item \<le> now"
    using queue_view_iff [OF inv] by (auto simp: drainForReplay_def)
  show "distinct (map qi_id (drainForReplay now q))"
    using inv by (simp add: drainForReplay_def distinct_drain queue_inv_def)
next
  fix q :: durable_queue and i
  assume "queue_inv q"
  then show "queue_inv (markSuccess i q) \<and> queue_view (markSuccess i q) = (queue_view q)(i := None) \<and>
      given_up (markSuccess i q) = given_up q"
    using queue_inv_remove [of q "\<lambda>r. qi_id r \<noteq> i" "\<lambda>_. True"]
    by (simp add: markSuccess_view) (simp add: markSuccess_def queue_inv_def given_up_def fun_eq_iff)
qed (rule markFailed_cases)

interpretation no_queue: replayable_queue "\<lambda>_ _. None" "\<lambda>_ _. False" NoOp_drainForReplay NoOp_markSuccess
  NoOp_markFailed "\<lambda>_. True"
  by unfold_locales (auto simp: NoOp_drainForReplay_def fun_eq_iff)

lemma queue_inv_open: "queue_inv q \<Longrightarrow> queue_inv (DurableQueue_open q)"
  using queue_inv_remove unfolding queue_inv_def DurableQueue_open_def by simp

lemma queue_inv_enqueue:
  assumes "queue_inv q" and "enqueueInbound now i payload q = Inr q'" and "\<not> given_up q i"
  shows "queue_inv q'"
proof -
  have "dq_dead q' = dq_dead q" "map qi_id (dq_rows q') = map qi_id (dq_rows q) @ [i]"
      "i \<notin> set (map qi_id (dq_rows q))"
    using assms(2) by (auto simp: enqueueInbound_def split: if_splits)
  moreover have "distinct ((A @ [i]) @ B)" if "distinct (A @ B)" "i \<notin> set A" "i \<notin> set B" for A B
    using that by auto
  ultimately show ?thesis using assms(1,3) unfolding queue_inv_def given_up_def by presburger
qed

section \<open>Retries end\<close>

text \<open>Replays one after the other: a round has the clock it starts at and the clock of each failure.\<close>

fun replay_rounds ::
  "(string \<Rightarrow> TunnelForwardMsg option) \<Rightarrow> (TunnelForwardMsg \<Rightarrow> 'p \<Rightarrow> BackendResult option \<times> 'p) \<Rightarrow>
   (time \<times> (QueueItem \<Rightarrow> time)) list \<Rightarrow> durable_queue \<Rightarrow> 'p \<Rightarrow>
   unit + (durable_queue \<times> 'p \<times> TunnelResponseMsg list)" where
  "replay_rounds parse fwd [] q p = Inr (q, p, [])"
| "replay_rounds parse fwd ((now, at) # rounds) q p =
     (case replayQueue drainForReplay markSuccess markFailed now at parse fwd q p of
        Inl e \<Rightarrow> Inl e
      | Inr (q1, p1, sent, res) \<Rightarrow>
          (case replay_rounds parse fwd rounds q1 p1 of
             Inl e \<Rightarrow> Inl e
           | Inr (q2, p2, sent2) \<Rightarrow> Inr (q2, p2, sent @ sent2)))"

text \<open>Each round starts once the longest backoff of the one before has passed.\<close>

fun spaced :: "(time \<times> (QueueItem \<Rightarrow> time)) list \<Rightarrow> bool" where
  "spaced ((now, at) # (now', at') # rounds) \<longleftrightarrow>
     (\<forall>item. at item + 300000 \<le> now') \<and> spaced ((now', at') # rounds)"
| "spaced _ \<longleftrightarrow> True"

lemma backoffMs_bounds: "0 < n \<Longrightarrow> 1000 \<le> backoffMs n \<and> backoffMs n \<le> 300000"
  by (simp add: backoffMs_def)

definition answered_in :: "(string \<Rightarrow> TunnelForwardMsg option) \<Rightarrow> QueueItem \<Rightarrow> TunnelResponseMsg list \<Rightarrow> bool" where
  "answered_in parse item sent \<longleftrightarrow>
     (\<exists>f r. parse (qi_payload item) = Some f \<and> r \<in> set sent \<and> tr_requestId r = tf_requestId f)"

text \<open>One replay of a queue whose rows are all due: every row meets its fate, and a row that stays has used
  an attempt.\<close>

lemma replay_round:
  assumes inv: "queue_inv q" and due: "\<And>r. r \<in> set (dq_rows q) \<Longrightarrow> qi_nextRetryAt r \<le> now"
  obtains q1 p1 sent res where
    "replayQueue drainForReplay markSuccess markFailed now at parse fwd q p = Inr (q1, p1, sent, res)" "queue_inv q1"
    "\<And>i. given_up q i \<Longrightarrow> given_up q1 i"
    "\<And>r. r \<in> set (dq_rows q) \<Longrightarrow> durable.settled at parse r q1 sent"
    "\<And>r1. r1 \<in> set (dq_rows q1) \<Longrightarrow> \<exists>r \<in> set (dq_rows q). qi_maxAttempts r1 = qi_maxAttempts r \<and>
       qi_attempts r1 = qi_attempts r + 1 \<and> qi_attempts r1 < qi_maxAttempts r1 \<and>
       qi_nextRetryAt r1 = at r + backoffMs (qi_attempts r + 1)"
proof -
  obtain q1 p1 sent res where
    R: "replayQueue drainForReplay markSuccess markFailed now at parse fwd q p = Inr (q1, p1, sent, res)" "queue_inv q1"
      "\<And>i. queue_view q i = None \<Longrightarrow> queue_view q1 i = None" "\<And>i. given_up q i \<Longrightarrow> given_up q1 i"
      "\<And>item. queue_view q (qi_id item) = Some item \<Longrightarrow> qi_nextRetryAt item \<le> now \<Longrightarrow>
        durable.settled at parse item q1 sent"
    by (rule durable.replay_settles [OF inv, of now at parse fwd p]) blast
  have fate: "durable.settled at parse r q1 sent" if "r \<in> set (dq_rows q)" for r
    using R(5) [of r] that due [OF that] queue_view_iff [OF inv] by simp
  have "\<exists>r \<in> set (dq_rows q). qi_maxAttempts r1 = qi_maxAttempts r \<and>
       qi_attempts r1 = qi_attempts r + 1 \<and> qi_attempts r1 < qi_maxAttempts r1 \<and>
       qi_nextRetryAt r1 = at r + backoffMs (qi_attempts r + 1)" if r1: "r1 \<in> set (dq_rows q1)" for r1
  proof -
    have v1: "queue_view q1 (qi_id r1) = Some r1" using queue_view_iff [OF R(2)] r1 by simp
    then obtain r where r: "queue_view q (qi_id r1) = Some r" using R(3) by fastforce
    then have row: "r \<in> set (dq_rows q)" and "queue_view q1 (qi_id r) = Some r1"
      using v1 queue_view_iff [OF inv] by auto
    with fate [OF row] have "r1 = r\<lparr>qi_attempts := qi_attempts r + 1,
        qi_nextRetryAt := at r + backoffMs (qi_attempts r + 1)\<rparr>" "qi_attempts r + 1 < qi_maxAttempts r"
      by (simp_all add: durable.settled_def)
    with row show ?thesis by (intro bexI [of _ r]) simp_all
  qed
  with R(1,2,4) fate that show ?thesis by blast
qed

lemma replay_rounds_end:
  assumes "queue_inv q" and "rounds \<noteq> []" and "spaced rounds"
    and "\<And>r. r \<in> set (dq_rows q) \<Longrightarrow> qi_nextRetryAt r \<le> fst (hd rounds)"
    and "\<And>r. r \<in> set (dq_rows q) \<Longrightarrow> qi_maxAttempts r - qi_attempts r \<le> length rounds"
  shows "\<exists>q' p' sent. replay_rounds parse fwd rounds q p = Inr (q', p', sent) \<and> queue_inv q' \<and> dq_rows q' = [] \<and>
    (\<forall>i. given_up q i \<longrightarrow> given_up q' i) \<and>
    (\<forall>r \<in> set (dq_rows q). qi_direction r = Outbound \<or> given_up q' (qi_id r) \<or> answered_in parse r sent)"
  using assms
proof (induction rounds arbitrary: q p)
  case Nil
  then show ?case by simp
next
  case (Cons round rounds)
  obtain now at where round: "round = (now, at)" by fastforce
  obtain q1 p1 sent res where
    R: "replayQueue drainForReplay markSuccess markFailed now at parse fwd q p = Inr (q1, p1, sent, res)" "queue_inv q1"
      "\<And>i. given_up q i \<Longrightarrow> given_up q1 i"
    and fate: "\<And>r. r \<in> set (dq_rows q) \<Longrightarrow> durable.settled at parse r q1 sent"
    and origin: "\<And>r1. r1 \<in> set (dq_rows q1) \<Longrightarrow> \<exists>r \<in> set (dq_rows q). qi_maxAttempts r1 = qi_maxAttempts r \<and>
       qi_attempts r1 = qi_attempts r + 1 \<and> qi_attempts r1 < qi_maxAttempts r1 \<and>
       qi_nextRetryAt r1 = at r + backoffMs (qi_attempts r + 1)"
    by (rule replay_round [OF Cons.prems(1), of now at parse fwd p])
      (use Cons.prems(4) round in simp, blast)
  show ?case
  proof (cases rounds)
    case Nil
    have "dq_rows q1 = []"
    proof (rule ccontr)
      assume "dq_rows q1 \<noteq> []"
      then obtain r1 where "r1 \<in> set (dq_rows q1)" by (cases "dq_rows q1") auto
      with origin obtain r where "r \<in> set (dq_rows q)" "qi_maxAttempts r1 = qi_maxAttempts r"
        "qi_attempts r1 = qi_attempts r + 1" "qi_attempts r1 < qi_maxAttempts r1" by blast
      with Cons.prems(5) [of r] Nil show False by simp
    qed
    moreover have "qi_direction r = Outbound \<or> given_up q1 (qi_id r) \<or> answered_in parse r sent"
      if "r \<in> set (dq_rows q)" for r
      using fate [OF that] \<open>dq_rows q1 = []\<close>
      by (auto simp: durable.settled_def answered_in_def queue_view_def)
    ultimately show ?thesis using R Nil round by simp
  next
    case (Cons round2 rounds2)
    obtain now2 at2 where round2: "round2 = (now2, at2)" by fastforce
    have due: "qi_nextRetryAt r1 \<le> fst (hd rounds)" if r1: "r1 \<in> set (dq_rows q1)" for r1
    proof -
      obtain r where "qi_nextRetryAt r1 = at r + backoffMs (qi_attempts r + 1)" using origin [OF r1] by blast
      moreover have "at r + 300000 \<le> now2" using Cons.prems(3) Cons round round2 by simp
      ultimately show ?thesis
        using backoffMs_bounds [of "qi_attempts r + 1"] Cons round2 by simp
    qed
    have left: "qi_maxAttempts r1 - qi_attempts r1 \<le> length rounds" if r1: "r1 \<in> set (dq_rows q1)" for r1
    proof -
      obtain r where "r \<in> set (dq_rows q)" "qi_maxAttempts r1 = qi_maxAttempts r"
        "qi_attempts r1 = qi_attempts r + 1" using origin [OF r1] by blast
      with Cons.prems(5) [of r] show ?thesis by simp
    qed
    have "spaced rounds" using Cons.prems(3) Cons round round2 by simp
    then obtain q2 p2 sent2 where
      N: "replay_rounds parse fwd rounds q1 p1 = Inr (q2, p2, sent2)" "queue_inv q2" "dq_rows q2 = []"
        "\<forall>i. given_up q1 i \<longrightarrow> given_up q2 i"
        "\<forall>r \<in> set (dq_rows q1). qi_direction r = Outbound \<or> given_up q2 (qi_id r) \<or> answered_in parse r sent2"
      using Cons.IH [OF R(2) _ _ due left, of p1] Cons by auto
    have "qi_direction r = Outbound \<or> given_up q2 (qi_id r) \<or> answered_in parse r (sent @ sent2)"
      if r: "r \<in> set (dq_rows q)" for r
    proof (cases "queue_view q1 (qi_id r)")
      case None
      with fate [OF r] N(4) show ?thesis by (auto simp: durable.settled_def answered_in_def)
    next
      case (Some r1)
      with fate [OF r] have "qi_direction r1 = qi_direction r" "qi_id r1 = qi_id r" "qi_payload r1 = qi_payload r"
        by (simp_all add: durable.settled_def)
      moreover have "qi_direction r1 = Outbound \<or> given_up q2 (qi_id r1) \<or> answered_in parse r1 sent2"
        using N(5) Some queue_view_iff [OF R(2)] by blast
      ultimately show ?thesis by (auto simp: answered_in_def)
    qed
    then show ?thesis using N R round by auto
  qed
qed

text \<open>
  C21: whatever the backend answers, the retries of a queue end. Once as many spaced replays have run as
  any row has attempts left, no row is queued: each was answered with its own request id, moved to the
  dead letters, or was a leftover response, which is dropped unsent. No dead letter is lost.
\<close>

theorem replay_terminates:
  assumes "queue_inv q" and "rounds \<noteq> []" and "spaced rounds"
    and "\<forall>r \<in> set (dq_rows q). qi_nextRetryAt r \<le> fst (hd rounds)"
    and "\<forall>r \<in> set (dq_rows q). qi_maxAttempts r - qi_attempts r \<le> length rounds"
  shows "\<exists>q' p' sent. replay_rounds parse fwd rounds q p = Inr (q', p', sent) \<and> dq_rows q' = [] \<and>
    (\<forall>i. given_up q i \<longrightarrow> given_up q' i) \<and>
    (\<forall>r \<in> set (dq_rows q). qi_direction r = Outbound \<or> given_up q' (qi_id r) \<or> answered_in parse r sent)"
  using replay_rounds_end [of q rounds parse fwd p] assms by blast

definition demo_forward :: TunnelForwardMsg where
  "demo_forward = \<lparr>tf_requestId = ''r1'', tf_meth = ''POST'', tf_path = ''/hook'', tf_query = [], tf_headers = [],
     tf_body = Some ''x'', tf_bodyEncoding = Some Utf8, tf_timeoutMs = 120000\<rparr>"

definition demo_queue :: durable_queue where
  "demo_queue = \<lparr>dq_rows = [\<lparr>qi_id = ''a'', qi_direction = Inbound, qi_payload = ''f1'', qi_ts = 5, qi_attempts = 3,
      qi_maxAttempts = 5, qi_nextRetryAt = 0\<rparr>], dq_dead = []\<rparr>"

text \<open>Two replays against a backend that never answers: the request becomes a dead letter.\<close>

theorem replay_terminates_witness:
  "\<exists>q' p' sent. replay_rounds (\<lambda>s. if s = ''f1'' then Some demo_forward else None) (\<lambda>f (n :: nat). (None, n + 1))
      [(10, \<lambda>_. 11), (400000, \<lambda>_. 400001)] demo_queue 0 = Inr (q', p', sent) \<and> dq_rows q' = [] \<and>
    given_up q' ''a'' \<and> p' = 2"
proof -
  let ?parse = "\<lambda>s. if s = ''f1'' then Some demo_forward else None"
  let ?fwd = "\<lambda>f (n :: nat). (None :: BackendResult option, n + 1)"
  let ?rounds = "[(10 :: time, \<lambda>_ :: QueueItem. 11 :: time), (400000, \<lambda>_. 400001)]"
  have "\<exists>q' p' sent. replay_rounds ?parse ?fwd ?rounds demo_queue 0 = Inr (q', p', sent) \<and> dq_rows q' = [] \<and>
    (\<forall>i. given_up demo_queue i \<longrightarrow> given_up q' i) \<and>
    (\<forall>r \<in> set (dq_rows demo_queue). qi_direction r = Outbound \<or> given_up q' (qi_id r) \<or> answered_in ?parse r sent)"
    by (rule replay_terminates) (simp_all add: demo_queue_def queue_inv_def)
  then show ?thesis
    by (simp add: demo_queue_def replayQueue_def drainForReplay_def replayInbound_def markFailed_def
        demo_forward_def backoffMs_def given_up_def answered_in_def Let_def)
qed

end
