(* ===== verification/MessageBatcher.thy ===== *)
theory MessageBatcher
  imports Json
begin

text \<open>
  \<^verbatim>\<open>packages/agent/src/batcher/MessageBatcher.ts\<close>: responses, errors and pongs on their way to the
  hub, gathered into frames. \<open>connected\<close> is what \<^verbatim>\<open>isConnected()\<close> returns when the messages leave
  the buffer. \<open>BxFlush msgs\<close> is a call of \<^verbatim>\<open>onFlush\<close> with the text \<open>batch_text msgs\<close>, \<open>BxHold\<close> a call of the
  fallback.
\<close>

datatype BatchableMsg = BmResponse TunnelResponseMsg | BmAgentError TunnelAgentErrorMsg | BmPong AgentPongMsg

definition is_pong :: "BatchableMsg \<Rightarrow> bool" where
  "is_pong m = (case m of BmPong _ \<Rightarrow> True | _ \<Rightarrow> False)"

definition batchable_json :: "BatchableMsg \<Rightarrow> json" where
  "batchable_json m =
     (case m of BmResponse r \<Rightarrow> response_json r | BmAgentError e \<Rightarrow> agent_error_json e | BmPong p \<Rightarrow> pong_json p)"

definition serialize_batchable :: "BatchableMsg \<Rightarrow> string" where
  "serialize_batchable m = json_print (batchable_json m)"

definition BATCH_MAX_BYTES :: nat where "BATCH_MAX_BYTES = 1024 * 1024"

datatype batch_effect =
  BxFlush "BatchableMsg list"
| BxHold BatchableMsg
| BxSetTimer
| BxClearTimer

text \<open>The buffer keeps each message with its JSON text.\<close>

record batcher =
  mb_buffer :: "(BatchableMsg \<times> string) list"
  mb_bufferBytes :: nat
  mb_timer :: bool

definition batcher_new :: batcher where
  "batcher_new = \<lparr>mb_buffer = [], mb_bufferBytes = 0, mb_timer = False\<rparr>"

definition batch_prefix :: string where
  "batch_prefix = ''{\"v\":\"1\",\"type\":\"agent:batch\",\"messages\":[''"

definition batch_text :: "string list \<Rightarrow> string" where
  "batch_text jsons =
     (case jsons of [json] \<Rightarrow> json | _ \<Rightarrow> batch_prefix @ str_join '','' jsons @ '']}'')"

definition MessageBatcher_send :: "bool \<Rightarrow> (BatchableMsg \<times> string) list \<Rightarrow> batch_effect list" where
  "MessageBatcher_send connected entries =
     (if \<not> connected then map (\<lambda>(msg, _). BxHold msg) (filter (\<lambda>(msg, _). \<not> is_pong msg) entries)
      else [BxFlush (map fst entries)])"

definition MessageBatcher_flush :: "bool \<Rightarrow> batcher \<Rightarrow> batcher \<times> batch_effect list" where
  "MessageBatcher_flush connected b =
     (let fx = (if mb_timer b then [BxClearTimer] else []); b1 = b\<lparr>mb_timer := False\<rparr> in
      if length (mb_buffer b) = 0 then (b1, fx)
      else (b1\<lparr>mb_buffer := [], mb_bufferBytes := 0\<rparr>, fx @ MessageBatcher_send connected (mb_buffer b)))"

definition MessageBatcher_add :: "bool \<Rightarrow> BatchableMsg \<Rightarrow> batcher \<Rightarrow> batcher \<times> batch_effect list" where
  "MessageBatcher_add connected msg b =
     (let json = serialize_batchable msg; bytes = byteLength json in
      if bytes > BATCH_MAX_BYTES then
        (case MessageBatcher_flush connected b of
           (b1, fx) \<Rightarrow> (b1, fx @ MessageBatcher_send connected [(msg, json)]))
      else
        (case (if mb_bufferBytes b + bytes > BATCH_MAX_BYTES then MessageBatcher_flush connected b else (b, [])) of
           (b1, fx1) \<Rightarrow>
             (let b2 = b1\<lparr>mb_buffer := mb_buffer b1 @ [(msg, json)], mb_bufferBytes := mb_bufferBytes b1 + bytes\<rparr> in
              if length (mb_buffer b2) \<ge> BATCH_MAX_SIZE then
                (case MessageBatcher_flush connected b2 of (b3, fx2) \<Rightarrow> (b3, fx1 @ fx2))
              else if \<not> mb_timer b2 then (b2\<lparr>mb_timer := True\<rparr>, fx1 @ [BxSetTimer])
              else (b2, fx1))))"

definition MessageBatcher_flushToQueue :: "batcher \<Rightarrow> batcher \<times> batch_effect list" where
  "MessageBatcher_flushToQueue b =
     (b\<lparr>mb_buffer := [], mb_bufferBytes := 0, mb_timer := False\<rparr>,
      (if mb_timer b then [BxClearTimer] else []) @
      map (\<lambda>(msg, _). BxHold msg) (filter (\<lambda>(msg, _). \<not> is_pong msg) (mb_buffer b)))"

definition MessageBatcher_size :: "batcher \<Rightarrow> nat" where
  "MessageBatcher_size b = length (mb_buffer b)"

section \<open>The text of a frame\<close>

lemma batch_json_text:
  "json_print (JObj [(''v'', JStr ''1''), (''type'', JStr ''agent:batch''), (''messages'', JArr js)]) =
     batch_prefix @ str_join '','' (map json_print js) @ '']}''"
  by (simp add: json_quote_def json_char_def batch_prefix_def)

lemma serialize_batchable_comp: "serialize_batchable = json_print \<circ> batchable_json"
  by (simp add: serialize_batchable_def fun_eq_iff)

text \<open>
  A frame put together from texts serialized earlier is, byte for byte, what serializing the whole
  batch message would give, and a single message is sent as itself.
\<close>

theorem batch_text_is_serialized:
  "batch_text (map serialize_batchable ms) =
     (case ms of
        [m] \<Rightarrow> json_print (batchable_json m)
      | _ \<Rightarrow> json_print (JObj [(''v'', JStr ''1''), (''type'', JStr ''agent:batch''),
               (''messages'', JArr (map batchable_json ms))]))"
  by (cases ms; cases "tl ms")
    (simp_all add: batch_text_def batch_json_text serialize_batchable_comp del: json_print.simps)

section \<open>Nothing is lost, repeated or reordered\<close>

definition batcher_inv :: "batcher \<Rightarrow> bool" where
  "batcher_inv b \<longleftrightarrow>
     (\<forall>(msg, json) \<in> set (mb_buffer b). json = serialize_batchable msg) \<and>
     mb_bufferBytes b = sum_list (map (byteLength \<circ> snd) (mb_buffer b)) \<and>
     mb_bufferBytes b \<le> BATCH_MAX_BYTES \<and> length (mb_buffer b) < BATCH_MAX_SIZE \<and>
     (mb_timer b \<longleftrightarrow> mb_buffer b \<noteq> [])"

datatype batch_op = BoAdd bool BatchableMsg | BoTimer bool | BoClose

definition batch_step :: "batch_op \<Rightarrow> batcher \<Rightarrow> batcher \<times> batch_effect list" where
  "batch_step op b =
     (case op of
        BoAdd connected msg \<Rightarrow> MessageBatcher_add connected msg b
      | BoTimer connected \<Rightarrow> if mb_timer b then MessageBatcher_flush connected b else (b, [])
      | BoClose \<Rightarrow> MessageBatcher_flushToQueue b)"

fun run_batch :: "batch_op list \<Rightarrow> batcher \<Rightarrow> batcher \<times> batch_effect list" where
  "run_batch [] b = (b, [])"
| "run_batch (op # ops) b =
     (case batch_step op b of (b1, fx1) \<Rightarrow> (case run_batch ops b1 of (b2, fx2) \<Rightarrow> (b2, fx1 @ fx2)))"

definition added :: "batch_op list \<Rightarrow> BatchableMsg list" where
  "added ops = concat (map (\<lambda>op. case op of BoAdd _ m \<Rightarrow> [m] | _ \<Rightarrow> []) ops)"

definition released :: "batch_effect list \<Rightarrow> BatchableMsg list" where
  "released fxs = concat (map (\<lambda>fx. case fx of BxFlush ms \<Rightarrow> ms | BxHold m \<Rightarrow> [m] | _ \<Rightarrow> []) fxs)"

abbreviation lasting :: "BatchableMsg list \<Rightarrow> BatchableMsg list" where
  "lasting ms \<equiv> filter (\<lambda>m. \<not> is_pong m) ms"

abbreviation buffered :: "batcher \<Rightarrow> BatchableMsg list" where
  "buffered b \<equiv> map fst (mb_buffer b)"

lemma released_append [simp]: "released (fx @ fx') = released fx @ released fx'"
  by (simp add: released_def)

lemma released_simps [simp]:
  "released [] = []" "released (BxFlush ms # fx) = ms @ released fx" "released (BxHold m # fx) = m # released fx"
  "released (BxSetTimer # fx) = released fx" "released (BxClearTimer # fx) = released fx"
  by (simp_all add: released_def)

lemma released_holds: "released (map (\<lambda>(msg, _). BxHold msg) es) = map fst es"
  by (induction es) auto

lemma filter_fst: "map fst (filter (\<lambda>(msg, _). P msg) es) = filter P (map fst es)"
  by (induction es) auto

lemma send_released:
  "lasting (released (MessageBatcher_send c es)) = lasting (map fst es)"
  "released (MessageBatcher_send True es) = map fst es"
  by (simp_all add: MessageBatcher_send_def released_holds filter_fst)

lemma flush_spec:
  assumes "mb_buffer b = [] \<longrightarrow> mb_bufferBytes b = 0"
  shows "fst (MessageBatcher_flush c b) = \<lparr>mb_buffer = [], mb_bufferBytes = 0, mb_timer = False\<rparr>"
    and "lasting (released (snd (MessageBatcher_flush c b))) = lasting (buffered b)"
    and "released (snd (MessageBatcher_flush True b)) = buffered b"
  using assms by (cases b; auto simp: MessageBatcher_flush_def Let_def send_released)+

lemma batcher_inv_new: "batcher_inv batcher_new"
  by (simp add: batcher_inv_def batcher_new_def BATCH_MAX_SIZE_def)

lemma batcher_inv_bytes: "batcher_inv b \<Longrightarrow> mb_buffer b = [] \<longrightarrow> mb_bufferBytes b = 0"
  by (auto simp: batcher_inv_def)

text \<open>What one operation keeps: every message that went in is released or still buffered, in order.\<close>

definition batch_kept :: "bool \<Rightarrow> BatchableMsg list \<Rightarrow> batcher \<Rightarrow> batcher \<times> batch_effect list \<Rightarrow> bool" where
  "batch_kept up ms b out \<longleftrightarrow> batcher_inv (fst out) \<and>
     lasting (released (snd out) @ buffered (fst out)) = lasting (buffered b @ ms) \<and>
     (up \<longrightarrow> released (snd out) @ buffered (fst out) = buffered b @ ms)"

text \<open>The end of \<^verbatim>\<open>add\<close>, once the message is known to fit.\<close>

definition push_message :: "bool \<Rightarrow> BatchableMsg \<Rightarrow> batcher \<Rightarrow> batcher \<times> batch_effect list" where
  "push_message c m b =
     (let b2 = b\<lparr>mb_buffer := mb_buffer b @ [(m, serialize_batchable m)],
                 mb_bufferBytes := mb_bufferBytes b + byteLength (serialize_batchable m)\<rparr> in
      if length (mb_buffer b2) \<ge> BATCH_MAX_SIZE then MessageBatcher_flush c b2
      else if \<not> mb_timer b2 then (b2\<lparr>mb_timer := True\<rparr>, [BxSetTimer])
      else (b2, []))"

lemma add_push:
  "byteLength (serialize_batchable m) \<le> BATCH_MAX_BYTES \<Longrightarrow>
   MessageBatcher_add c m b =
     (case (if mb_bufferBytes b + byteLength (serialize_batchable m) > BATCH_MAX_BYTES
            then MessageBatcher_flush c b else (b, [])) of
        (b1, fx1) \<Rightarrow> (fst (push_message c m b1), fx1 @ snd (push_message c m b1)))"
  by (simp add: MessageBatcher_add_def push_message_def Let_def split_beta)

lemma push_kept:
  assumes inv: "batcher_inv b" and fits: "mb_bufferBytes b + byteLength (serialize_batchable m) \<le> BATCH_MAX_BYTES"
  shows "batch_kept c [m] b (push_message c m b)"
proof -
  let ?b2 = "b\<lparr>mb_buffer := mb_buffer b @ [(m, serialize_batchable m)],
                 mb_bufferBytes := mb_bufferBytes b + byteLength (serialize_batchable m)\<rparr>"
  show ?thesis
  proof (cases "length (mb_buffer ?b2) \<ge> BATCH_MAX_SIZE")
    case True
    have "mb_buffer ?b2 = [] \<longrightarrow> mb_bufferBytes ?b2 = 0" by simp
    note F = flush_spec(1,2) [OF this, of c] flush_spec(3) [OF this]
    show ?thesis
      using True F batcher_inv_new by (cases c) (auto simp: push_message_def Let_def batch_kept_def batcher_new_def)
  next
    case False
    then show ?thesis
      using inv fits by (auto simp: push_message_def Let_def batch_kept_def batcher_inv_def)
  qed
qed

lemma flush_kept:
  assumes "batcher_inv b"
  shows "batch_kept c [] b (MessageBatcher_flush c b)"
  using flush_spec(1,2) [OF batcher_inv_bytes [OF assms], of c] flush_spec(3) [OF batcher_inv_bytes [OF assms]]
    batcher_inv_new
  by (cases c) (auto simp: batch_kept_def batcher_new_def)

lemma add_kept:
  assumes inv: "batcher_inv b"
  shows "batch_kept c [m] b (MessageBatcher_add c m b)"
proof (cases "byteLength (serialize_batchable m) > BATCH_MAX_BYTES")
  case True
  then show ?thesis
    using flush_kept [OF inv, of c] flush_spec(1) [OF batcher_inv_bytes [OF inv], of c]
      send_released(1) [of c "[(m, serialize_batchable m)]"] send_released(2) [of "[(m, serialize_batchable m)]"]
    by (cases c) (auto simp: MessageBatcher_add_def Let_def split_beta batch_kept_def)
next
  case False
  then have fits: "byteLength (serialize_batchable m) \<le> BATCH_MAX_BYTES" by simp
  show ?thesis
  proof (cases "mb_bufferBytes b + byteLength (serialize_batchable m) > BATCH_MAX_BYTES")
    case True
    let ?b1 = "fst (MessageBatcher_flush c b)"
    have b1: "?b1 = \<lparr>mb_buffer = [], mb_bufferBytes = 0, mb_timer = False\<rparr>"
      by (rule flush_spec(1) [OF batcher_inv_bytes [OF inv]])
    have "batch_kept c [m] ?b1 (push_message c m ?b1)"
      using flush_kept [OF inv, of c] fits b1 by (intro push_kept) (auto simp: batch_kept_def)
    then show ?thesis
      using True flush_kept [OF inv, of c] b1 by (auto simp: add_push [OF fits] split_beta batch_kept_def)
  next
    case False
    then show ?thesis using push_kept [OF inv, of m c] by (simp add: add_push [OF fits])
  qed
qed

lemma close_kept:
  assumes "batcher_inv b"
  shows "batch_kept False [] b (MessageBatcher_flushToQueue b)"
  using batcher_inv_new
  by (auto simp: batch_kept_def MessageBatcher_flushToQueue_def released_holds filter_fst batcher_inv_def
      batcher_new_def)

definition op_message :: "batch_op \<Rightarrow> BatchableMsg list" where
  "op_message op = (case op of BoAdd _ m \<Rightarrow> [m] | _ \<Rightarrow> [])"

definition op_up :: "batch_op \<Rightarrow> bool" where
  "op_up op = (case op of BoAdd c _ \<Rightarrow> c | BoTimer c \<Rightarrow> c | BoClose \<Rightarrow> False)"

lemma step_kept: "batcher_inv b \<Longrightarrow> batch_kept (op_up op) (op_message op) b (batch_step op b)"
  by (cases op) (auto simp: batch_step_def op_up_def op_message_def add_kept flush_kept close_kept, simp add: batch_kept_def)

lemma run_kept:
  "batcher_inv b \<Longrightarrow> batch_kept (list_all op_up ops) (added ops) b (run_batch ops b)"
proof (induction ops arbitrary: b)
  case Nil
  then show ?case by (simp add: batch_kept_def added_def)
next
  case (Cons op ops)
  let ?b = "fst (batch_step op b)"
  have one: "batch_kept (op_up op) (op_message op) b (batch_step op b)" by (rule step_kept [OF Cons.prems])
  then have "batcher_inv ?b" by (simp add: batch_kept_def)
  from Cons.IH [OF this] one show ?case
    by (auto simp: batch_kept_def split_beta added_def op_message_def)
qed

section \<open>Frames stay small\<close>

lemma byteLength_join: "byteLength (str_join '','' ss) = sum_list (map byteLength ss) + (length ss - 1)"
  by (induction "'',''" ss rule: str_join.induct) (auto simp: char_bytes_def)

definition small_frame :: "BatchableMsg list \<Rightarrow> bool" where
  "small_frame ms \<longleftrightarrow> length ms = 1 \<or>
     byteLength (batch_text (map serialize_batchable ms)) \<le> BATCH_MAX_BYTES + 143"

lemma small_frameI:
  assumes "length ms \<le> BATCH_MAX_SIZE" and "sum_list (map (byteLength \<circ> serialize_batchable) ms) \<le> BATCH_MAX_BYTES"
  shows "small_frame ms"
proof (cases "length ms = 1")
  case True
  then show ?thesis by (simp add: small_frame_def)
next
  case False
  then have "batch_text (map serialize_batchable ms) = batch_prefix @ str_join '','' (map serialize_batchable ms) @ '']}''"
    by (auto simp: batch_text_def split: list.split)
  moreover have "byteLength batch_prefix = 42" by (simp add: batch_prefix_def char_bytes_def)
  ultimately have "byteLength (batch_text (map serialize_batchable ms)) =
      44 + sum_list (map (byteLength \<circ> serialize_batchable) ms) + (length ms - 1)"
    by (simp add: byteLength_join char_bytes_def comp_def)
  then have "byteLength (batch_text (map serialize_batchable ms)) \<le> BATCH_MAX_BYTES + 143"
    using assms unfolding BATCH_MAX_SIZE_def by linarith
  then show ?thesis by (simp add: small_frame_def)
qed

definition frames_small :: "batch_effect list \<Rightarrow> bool" where
  "frames_small fx \<longleftrightarrow> (\<forall>ms. BxFlush ms \<in> set fx \<longrightarrow> small_frame ms)"

lemma frames_small_append [simp]: "frames_small (fx @ fx') \<longleftrightarrow> frames_small fx \<and> frames_small fx'"
  by (auto simp: frames_small_def)

lemma send_small:
  assumes "small_frame (map fst es)"
  shows "frames_small (MessageBatcher_send c es)"
  using assms by (auto simp: MessageBatcher_send_def frames_small_def)

text \<open>A buffer about to leave: its texts are its messages', and they fit.\<close>

definition fits :: "batcher \<Rightarrow> bool" where
  "fits b \<longleftrightarrow> (\<forall>(msg, json) \<in> set (mb_buffer b). json = serialize_batchable msg) \<and>
     sum_list (map (byteLength \<circ> snd) (mb_buffer b)) \<le> BATCH_MAX_BYTES \<and> length (mb_buffer b) \<le> BATCH_MAX_SIZE"

lemma flush_small:
  assumes "fits b"
  shows "frames_small (snd (MessageBatcher_flush c b))"
proof -
  have same: "map (byteLength \<circ> serialize_batchable) (buffered b) = map (byteLength \<circ> snd) (mb_buffer b)"
    using assms by (auto simp: fits_def)
  have "small_frame (buffered b)"
    by (rule small_frameI, simp_all only: same) (use assms in \<open>simp_all add: fits_def\<close>)
  then show ?thesis
    by (auto simp: MessageBatcher_flush_def Let_def send_small) (auto simp: frames_small_def)
qed

lemma inv_fits: "batcher_inv b \<Longrightarrow> fits b"
  by (auto simp: batcher_inv_def fits_def)

lemma push_small:
  assumes "batcher_inv b" and "mb_bufferBytes b + byteLength (serialize_batchable m) \<le> BATCH_MAX_BYTES"
  shows "frames_small (snd (push_message c m b))"
proof -
  have "fits (b\<lparr>mb_buffer := mb_buffer b @ [(m, serialize_batchable m)],
      mb_bufferBytes := mb_bufferBytes b + byteLength (serialize_batchable m)\<rparr>)"
    using assms by (auto simp: batcher_inv_def fits_def)
  from flush_small [OF this] show ?thesis
    by (auto simp: push_message_def Let_def) (auto simp: frames_small_def)
qed

lemma add_small:
  assumes inv: "batcher_inv b"
  shows "frames_small (snd (MessageBatcher_add c m b))"
proof (cases "byteLength (serialize_batchable m) > BATCH_MAX_BYTES")
  case True
  then show ?thesis
    using flush_small [OF inv_fits [OF inv], of c] send_small [of "[(m, serialize_batchable m)]" c]
    by (simp add: MessageBatcher_add_def Let_def split_beta small_frame_def)
next
  case False
  let ?b1 = "fst (MessageBatcher_flush c b)"
  have "?b1 = batcher_new"
    using flush_spec(1) [OF batcher_inv_bytes [OF inv], of c] by (simp add: batcher_new_def)
  moreover have "frames_small (snd (push_message c m batcher_new))"
    using False by (intro push_small batcher_inv_new) (simp add: batcher_new_def)
  moreover have "frames_small []" by (simp add: frames_small_def)
  ultimately show ?thesis
    using False push_small [OF inv, of m c] flush_small [OF inv_fits [OF inv], of c]
    by (auto simp: add_push split_beta)
qed

lemma run_small: "batcher_inv b \<Longrightarrow> frames_small (snd (run_batch ops b))"
proof (induction ops arbitrary: b)
  case Nil
  then show ?case by (simp add: frames_small_def)
next
  case (Cons op ops)
  have "frames_small (snd (batch_step op b))"
    using Cons.prems add_small flush_small [OF inv_fits]
    by (cases op) (auto simp: batch_step_def MessageBatcher_flushToQueue_def frames_small_def)
  moreover have "batcher_inv (fst (batch_step op b))" using step_kept [OF Cons.prems] by (simp add: batch_kept_def)
  ultimately show ?case using Cons.IH by (simp add: split_beta)
qed

text \<open>
  C23: the batcher loses nothing, repeats nothing and keeps the order. After any sequence of messages,
  timer firings and disconnects, with the link up or down at each, the responses and errors released
  (sent in a frame or held for later) followed by those still buffered are exactly the ones handed in,
  in order; while the link stays up that holds for pongs too. A frame is one message, or at most a
  megabyte of messages plus the envelope. The flush timer is armed exactly when something is buffered,
  and the byte count is that of the buffer.
\<close>

theorem batcher_exact:
  "let (b, fx) = run_batch ops batcher_new in
     lasting (released fx @ buffered b) = lasting (added ops) \<and>
     (list_all op_up ops \<longrightarrow> released fx @ buffered b = added ops) \<and>
     (\<forall>ms. BxFlush ms \<in> set fx \<longrightarrow> length ms = 1 \<or>
        byteLength (batch_text (map serialize_batchable ms)) \<le> BATCH_MAX_BYTES + 143) \<and>
     (mb_timer b \<longleftrightarrow> mb_buffer b \<noteq> []) \<and> length (mb_buffer b) < BATCH_MAX_SIZE \<and>
     mb_bufferBytes b = sum_list (map (byteLength \<circ> snd) (mb_buffer b))"
  using run_kept [OF batcher_inv_new, of ops] run_small [OF batcher_inv_new, of ops]
  by (auto simp: split_beta batch_kept_def batcher_inv_def frames_small_def small_frame_def batcher_new_def)

definition demo_pong :: AgentPongMsg where "demo_pong = \<lparr>ap_agentId = ''agt_1'', ap_ts = 7\<rparr>"

theorem batcher_exact_witness:
  "released (snd (run_batch [BoAdd True (BmPong demo_pong), BoTimer True] batcher_new)) @
     buffered (fst (run_batch [BoAdd True (BmPong demo_pong), BoTimer True] batcher_new)) = [BmPong demo_pong]"
  using batcher_exact [of "[BoAdd True (BmPong demo_pong), BoTimer True]"]
  by (simp add: op_up_def added_def split_beta Let_def del: run_batch.simps)

end
