(* ===== verification/AgentClient.thy ===== *)
theory AgentClient
  imports BackendProxy DurableQueue MessageBatcher
begin

text \<open>
  \<^verbatim>\<open>packages/agent/src/AgentClient.ts\<close>: the agent's connection to the hub. Each event handler is a function
  from the client's state to the new state and the effects it has, in order. \<open>ready\<close> says whether the
  \<^verbatim>\<open>readyState\<close> of the current socket is \<^verbatim>\<open>OPEN\<close> while the handler runs; new sockets and timers are named by
  arguments. The asynchronous handlers are cut where they wait for the backend. Log output is left out.
\<close>

section \<open>State\<close>

datatype AgentState = IDLE | CONNECTING | AUTHENTICATING | CONNECTED | RECONNECTING | STOPPED

record AgentConfig =
  cf_hubUrl :: string
  cf_keyId :: string
  cf_secret :: string
  cf_label :: string
  cf_port :: nat
  cf_agentVersion :: string
  cf_localDiscovery :: bool

definition MAX_HELD_RESPONSES :: nat where "MAX_HELD_RESPONSES = 100"
definition MAX_HELD_BYTES :: int where "MAX_HELD_BYTES = 20 * 1024 * 1024"

record held_response =
  hl_msg :: BatchableMsg
  hl_bytes :: nat
  hl_heldAt :: time

text \<open>\<open>ac_queue\<close> is \<open>None\<close> when the queue is disabled (\<^verbatim>\<open>NoOpQueue\<close>).\<close>

record agent_client =
  ac_config :: AgentConfig
  ac_state :: AgentState
  ac_ws :: "socket option"
  ac_agentId :: "string option"
  ac_reconnectDelay :: int
  ac_reconnectTimer :: "timer_handle option"
  ac_stopped :: bool
  ac_queue :: "durable_queue option"
  ac_queueOpen :: bool
  ac_proxy :: backend_proxy
  ac_batcher :: batcher
  ac_heldResponses :: "held_response list"
  ac_heldBytes :: int

definition AgentClient_new :: "AgentConfig \<Rightarrow> durable_queue option \<Rightarrow> agent_client" where
  "AgentClient_new config db =
     \<lparr>ac_config = config, ac_state = IDLE, ac_ws = None, ac_agentId = None, ac_reconnectDelay = RECONNECT_INITIAL_MS,
      ac_reconnectTimer = None, ac_stopped = False, ac_queue = map_option DurableQueue_open db, ac_queueOpen = True,
      ac_proxy = BackendProxy_new (cf_port config), ac_batcher = batcher_new, ac_heldResponses = [], ac_heldBytes = 0\<rparr>"

text \<open>What goes to the hub.\<close>

datatype agent_frame =
  FrRegister AgentRegisterMsg
| FrBatch "BatchableMsg list"
| FrResponse TunnelResponseMsg
| FrWsMessage TunnelWsMessageMsg
| FrWsClose TunnelWsCloseMsg
| FrWsError TunnelWsErrorMsg

datatype agent_effect =
  AxState AgentState
| AxConnect socket string
| AxSend socket agent_frame
| AxCloseWs socket int string
| AxSetReconnect timer_handle int
| AxClearReconnect timer_handle
| AxSetBatchTimer
| AxClearBatchTimer
| AxTunnelUrl string
| AxDiscovery bool
| AxBackend axios_request TunnelForwardMsg
| AxBackendWs socket string headers
| AxProxy proxy_effect
| AxReplay "QueueItem list"
| AxQueueClose
| AxThrow string

type_synonym agent_op = "agent_client \<Rightarrow> agent_client \<times> agent_effect list"

text \<open>One operation after another.\<close>

fun run_ops :: "agent_op list \<Rightarrow> agent_op" where
  "run_ops [] c = (c, [])"
| "run_ops (f # fs) c = (case f c of (c1, fx1) \<Rightarrow> (case run_ops fs c1 of (c2, fx2) \<Rightarrow> (c2, fx1 @ fx2)))"

definition emit :: "agent_effect list \<Rightarrow> agent_op" where
  "emit fx c = (c, fx)"

definition pure_op :: "(agent_client \<Rightarrow> agent_client) \<Rightarrow> agent_op" where
  "pure_op f c = (f c, [])"

section \<open>Helpers\<close>

definition setState :: "AgentState \<Rightarrow> agent_op" where
  "setState state c = (if ac_state c = state then (c, []) else (c\<lparr>ac_state := state\<rparr>, [AxState state]))"

definition sendRaw :: "bool \<Rightarrow> agent_frame \<Rightarrow> agent_op" where
  "sendRaw ready frame c =
     (c, case ac_ws c of None \<Rightarrow> [] | Some ws \<Rightarrow> if ready then [AxSend ws frame] else [])"

text \<open>The loop that drops the oldest responses.\<close>

fun drop_held :: "held_response list \<Rightarrow> int \<Rightarrow> held_response list \<times> int" where
  "drop_held [] bytes = ([], bytes)"
| "drop_held (h # hs) bytes =
     (if length (h # hs) > MAX_HELD_RESPONSES \<or> (bytes > MAX_HELD_BYTES \<and> length (h # hs) > 1)
      then drop_held hs (bytes - int (hl_bytes h))
      else (h # hs, bytes))"

definition holdResponse :: "time \<Rightarrow> BatchableMsg \<Rightarrow> agent_op" where
  "holdResponse now msg c =
     (let bytes = byteLength (serialize_batchable msg) in
      case drop_held (ac_heldResponses c @ [\<lparr>hl_msg = msg, hl_bytes = bytes, hl_heldAt = now\<rparr>])
             (ac_heldBytes c + int bytes) of
        (held, heldBytes) \<Rightarrow> (c\<lparr>ac_heldResponses := held, ac_heldBytes := heldBytes\<rparr>, []))"

text \<open>The two callbacks the batcher was given, and its timer.\<close>

definition batch_callback :: "time \<Rightarrow> bool \<Rightarrow> batch_effect \<Rightarrow> agent_op" where
  "batch_callback now ready fx =
     (case fx of
        BxFlush msgs \<Rightarrow> sendRaw ready (FrBatch msgs)
      | BxHold msg \<Rightarrow> holdResponse now msg
      | BxSetTimer \<Rightarrow> emit [AxSetBatchTimer]
      | BxClearTimer \<Rightarrow> emit [AxClearBatchTimer])"

definition with_batcher :: "time \<Rightarrow> bool \<Rightarrow> (batcher \<Rightarrow> batcher \<times> batch_effect list) \<Rightarrow> agent_op" where
  "with_batcher now ready f c =
     (case f (ac_batcher c) of (b, fx) \<Rightarrow> run_ops (map (batch_callback now ready) fx) (c\<lparr>ac_batcher := b\<rparr>))"

definition isConnected :: "agent_client \<Rightarrow> bool" where
  "isConnected c \<longleftrightarrow> ac_state c = CONNECTED"

definition batcher_add :: "time \<Rightarrow> bool \<Rightarrow> BatchableMsg \<Rightarrow> agent_op" where
  "batcher_add now ready msg c = with_batcher now ready (MessageBatcher_add (isConnected c) msg) c"

definition sendHeldResponses :: "time \<Rightarrow> bool \<Rightarrow> agent_op" where
  "sendHeldResponses now ready c =
     run_ops (map (\<lambda>h. batcher_add now ready (hl_msg h))
         (filter (\<lambda>h. \<not> hl_heldAt h < now - REQUEST_TIMEOUT_MS) (ac_heldResponses c)))
       (c\<lparr>ac_heldResponses := [], ac_heldBytes := 0\<rparr>)"

section \<open>Connection\<close>

text \<open>\<open>ws\<close> is the socket \<^verbatim>\<open>new WebSocket(hubUrl)\<close> makes; a malformed URL, which throws here, is not covered.\<close>

definition connect :: "socket \<Rightarrow> agent_op" where
  "connect ws c =
     (if ac_stopped c then (c, [])
      else run_ops [setState CONNECTING, pure_op (\<lambda>c. c\<lparr>ac_ws := Some ws\<rparr>), emit [AxConnect ws (cf_hubUrl (ac_config c))]] c)"

definition AgentClient_start :: "socket \<Rightarrow> agent_op" where
  "AgentClient_start ws c =
     (if ac_state c \<noteq> IDLE then (c, [AxThrow ''AgentClient already started. Create a new instance to restart.''])
      else run_ops [emit (if cf_localDiscovery (ac_config c) then [AxDiscovery True] else []), connect ws] c)"

definition proxy_op :: "(backend_proxy \<Rightarrow> backend_proxy \<times> proxy_effect list) \<Rightarrow> agent_op" where
  "proxy_op f c = (case f (ac_proxy c) of (bp, fx) \<Rightarrow> (c\<lparr>ac_proxy := bp\<rparr>, map AxProxy fx))"

definition AgentClient_stop :: "(socket \<Rightarrow> bool) \<Rightarrow> time \<Rightarrow> agent_op" where
  "AgentClient_stop throws now c =
     run_ops
       [pure_op (\<lambda>c. c\<lparr>ac_stopped := True\<rparr>), setState STOPPED, with_batcher now False MessageBatcher_flushToQueue,
        pure_op (\<lambda>c. c\<lparr>ac_heldResponses := [], ac_heldBytes := 0\<rparr>),
        emit (case ac_reconnectTimer c of None \<Rightarrow> [] | Some t \<Rightarrow> [AxClearReconnect t]),
        emit (case ac_ws c of None \<Rightarrow> [] | Some ws \<Rightarrow> [AxCloseWs ws 1000 ''agent_stopped'']),
        proxy_op (BackendProxy_stop throws),
        emit (if cf_localDiscovery (ac_config c) then [AxDiscovery False] else []),
        pure_op (\<lambda>c. c\<lparr>ac_queueOpen := False\<rparr>), emit [AxQueueClose]] c"

definition register_message :: "AgentConfig \<Rightarrow> AgentRegisterMsg" where
  "register_message config = \<lparr>ar_keyId = cf_keyId config, ar_label = cf_label config, ar_rawSecret = cf_secret config,
     ar_agentVersion = cf_agentVersion config\<rparr>"

definition onOpen :: "bool \<Rightarrow> agent_op" where
  "onOpen ready c =
     run_ops [setState AUTHENTICATING, pure_op (\<lambda>c. c\<lparr>ac_reconnectDelay := RECONNECT_INITIAL_MS\<rparr>),
       sendRaw ready (FrRegister (register_message (ac_config c)))] c"

definition scheduleReconnect :: "timer_handle \<Rightarrow> agent_op" where
  "scheduleReconnect t c =
     (if ac_stopped c then (c, [])
      else (c\<lparr>ac_reconnectDelay := min (ac_reconnectDelay c * 2) RECONNECT_MAX_MS, ac_reconnectTimer := Some t\<rparr>,
            [AxSetReconnect t (ac_reconnectDelay c)]))"

definition reconnect_timer :: "socket \<Rightarrow> agent_op" where
  "reconnect_timer ws c = run_ops [pure_op (\<lambda>c. c\<lparr>ac_reconnectTimer := None\<rparr>), connect ws] c"

definition AgentClient_onClose :: "(socket \<Rightarrow> bool) \<Rightarrow> time \<Rightarrow> timer_handle \<Rightarrow> agent_op" where
  "AgentClient_onClose throws now t c =
     (if ac_stopped c then (c, [])
      else run_ops [proxy_op (closeAllWebSockets throws), with_batcher now False MessageBatcher_flushToQueue,
             setState RECONNECTING, scheduleReconnect t] c)"

section \<open>Messages from the hub\<close>

definition queue_ready :: "time \<Rightarrow> agent_client \<Rightarrow> nat" where
  "queue_ready now c =
     (case ac_queue c of None \<Rightarrow> qc_ready (NoOp_count now ()) | Some q \<Rightarrow> qc_ready (DurableQueue_count now q))"

definition queue_drain :: "time \<Rightarrow> agent_client \<Rightarrow> QueueItem list" where
  "queue_drain now c = (case ac_queue c of None \<Rightarrow> NoOp_drainForReplay now () | Some q \<Rightarrow> drainForReplay now q)"

text \<open>The start of the replay; a closed database throws, which rejects the handler's promise.\<close>

definition start_replay :: "time \<Rightarrow> agent_op" where
  "start_replay now c =
     (if ac_queue c \<noteq> None \<and> \<not> ac_queueOpen c then (c, [AxThrow ''The database connection is not open''])
      else if queue_ready now c > 0 then (c, [AxReplay (queue_drain now c)])
      else (c, []))"

definition onRegistered :: "time \<Rightarrow> bool \<Rightarrow> HubRegisteredMsg \<Rightarrow> agent_op" where
  "onRegistered now ready msg c =
     run_ops [pure_op (\<lambda>c. c\<lparr>ac_agentId := Some (hr_agentId msg)\<rparr>), setState CONNECTED,
       emit (case hr_tunnelUrl msg of Some u \<Rightarrow> if u \<noteq> [] then [AxTunnelUrl u] else [] | None \<Rightarrow> []),
       sendHeldResponses now ready, start_replay now] c"

text \<open>One item of a running replay, when the backend has answered or failed.\<close>

definition replay_answer :: "time \<Rightarrow> bool \<Rightarrow> QueueItem \<Rightarrow> TunnelResponseMsg option \<Rightarrow> agent_op" where
  "replay_answer now ready item response c =
     (case ac_queue c of
        None \<Rightarrow> (c, [])
      | Some q \<Rightarrow>
          (if \<not> ac_queueOpen c then (c, [AxThrow ''The database connection is not open''])
           else if qi_direction item = Outbound then (c\<lparr>ac_queue := Some (markSuccess (qi_id item) q)\<rparr>, [])
           else (case response of
               Some r \<Rightarrow> run_ops [sendRaw ready (FrResponse r), pure_op (\<lambda>c. c\<lparr>ac_queue := Some (markSuccess (qi_id item) q)\<rparr>)] c
             | None \<Rightarrow>
                 (case markFailed now (qi_id item) q of
                    Inl _ \<Rightarrow> (c, [AxThrow ''UNIQUE constraint failed''])
                  | Inr q' \<Rightarrow> (c\<lparr>ac_queue := Some q'\<rparr>, [])))))"

definition onPing :: "time \<Rightarrow> bool \<Rightarrow> agent_op" where
  "onPing now ready c =
     (case ac_agentId c of
        None \<Rightarrow> (c, [])
      | Some i \<Rightarrow> if i = [] then (c, []) else batcher_add now ready (BmPong \<lparr>ap_agentId = i, ap_ts = now\<rparr>) c)"

definition onHubError :: "(socket \<Rightarrow> bool) \<Rightarrow> time \<Rightarrow> HubErrorMsg \<Rightarrow> agent_op" where
  "onHubError throws now msg c =
     (if he_fatal msg \<and> (he_code msg = ''AUTH_FAILED'' \<or> he_code msg = ''VERSION_UNSUPPORTED'')
      then AgentClient_stop throws now c else (c, []))"

definition onForward :: "(string \<Rightarrow> string) \<Rightarrow> time \<Rightarrow> bool \<Rightarrow> TunnelForwardMsg \<Rightarrow> agent_op" where
  "onForward sha256 now ready msg c =
     (case forward_begin sha256 now msg (invalidateCacheFor (tf_meth msg) (tf_path msg) (ac_proxy c)) of
        (Requested rq, bp) \<Rightarrow> (c\<lparr>ac_proxy := bp\<rparr>, [AxBackend rq msg])
      | (Answered result, bp) \<Rightarrow>
          batcher_add now ready (BmResponse (result_message (tf_requestId msg) result)) (c\<lparr>ac_proxy := bp\<rparr>))"

definition backend_error :: "nat \<Rightarrow> TunnelForwardMsg \<Rightarrow> string \<Rightarrow> TunnelAgentErrorMsg" where
  "backend_error port msg err = \<lparr>te_requestId = tf_requestId msg, te_code = ''BACKEND_UNAVAILABLE'',
     te_message = ''Local backend on port '' @ show_nat port @ '' is not responding: '' @ err\<rparr>"

text \<open>The rest of \<^verbatim>\<open>onForward\<close>, when axios has answered or failed with a message.\<close>

definition onForward_answer ::
  "(string \<Rightarrow> string) \<Rightarrow> time \<Rightarrow> time \<Rightarrow> bool \<Rightarrow> TunnelForwardMsg \<Rightarrow> string + axios_response \<Rightarrow> agent_op" where
  "onForward_answer sha256 start now ready msg answer c =
     (case answer of
        Inr response \<Rightarrow>
          (case forward_finish sha256 start now msg response (ac_proxy c) of
             (result, bp) \<Rightarrow>
               batcher_add now ready (BmResponse (result_message (tf_requestId msg) result)) (c\<lparr>ac_proxy := bp\<rparr>))
      | Inl err \<Rightarrow> batcher_add now ready (BmAgentError (backend_error (cf_port (ac_config c)) msg err)) c)"

definition onWsOpen :: "socket option \<Rightarrow> bool \<Rightarrow> TunnelWsOpenMsg \<Rightarrow> agent_op" where
  "onWsOpen created ready msg c =
     (case openWebSocket created (wo_connectionId msg) (wo_path msg) (wo_query msg) (wo_headers msg) (ac_proxy c) of
        (WsRefused message, bp) \<Rightarrow>
          sendRaw ready (FrWsError \<lparr>we_connectionId = wo_connectionId msg, we_message = message\<rparr>) (c\<lparr>ac_proxy := bp\<rparr>)
      | (WsThrew, bp) \<Rightarrow> (c\<lparr>ac_proxy := bp\<rparr>, [AxThrow ''WebSocket''])
      | (WsOpened ws url hs, bp) \<Rightarrow> (c\<lparr>ac_proxy := bp\<rparr>, [AxBackendWs ws url hs]))"

text \<open>The callbacks \<^verbatim>\<open>onWsOpen\<close> gives the proxy.\<close>

definition backend_ws_message :: "bool \<Rightarrow> string \<Rightarrow> bytes \<Rightarrow> bool \<Rightarrow> agent_op" where
  "backend_ws_message ready connectionId frame isBinary =
     sendRaw ready (FrWsMessage \<lparr>wm_connectionId = connectionId, wm_data = ws_encoded isBinary frame, wm_isBinary = isBinary\<rparr>)"

definition backend_ws_close :: "bool \<Rightarrow> string \<Rightarrow> int \<Rightarrow> string \<Rightarrow> agent_op" where
  "backend_ws_close ready connectionId code reason =
     run_ops [proxy_op (\<lambda>bp. (ws_gone connectionId bp, [])),
       sendRaw ready (FrWsClose \<lparr>wc_connectionId = connectionId, wc_code = Some (JInt code), wc_reason = reason\<rparr>)]"

definition backend_ws_error :: "bool \<Rightarrow> string \<Rightarrow> string \<Rightarrow> agent_op" where
  "backend_ws_error ready connectionId message =
     run_ops [proxy_op (\<lambda>bp. (ws_gone connectionId bp, [])),
       sendRaw ready (FrWsError \<lparr>we_connectionId = connectionId, we_message = message\<rparr>)]"

definition onWsMessage :: "(socket \<Rightarrow> bool) \<Rightarrow> TunnelWsMessageMsg \<Rightarrow> agent_op" where
  "onWsMessage ws_ready msg =
     proxy_op (\<lambda>bp. (bp, sendWebSocketMessage ws_ready (wm_connectionId msg) (wm_data msg) (wm_isBinary msg) bp))"

definition onWsClose :: "(socket \<Rightarrow> bool) \<Rightarrow> TunnelWsCloseMsg \<Rightarrow> agent_op" where
  "onWsClose throws msg = proxy_op (closeWebSocket throws (wc_connectionId msg) (wc_code msg) (wc_reason msg))"

text \<open>
  What a frame meets when it arrives: the clock, the state of the hub socket and of the backend sockets,
  and the socket a new connection to the backend gets.
\<close>

record client_env =
  ce_now :: time
  ce_ready :: bool
  ce_wsReady :: "socket \<Rightarrow> bool"
  ce_throws :: "socket \<Rightarrow> bool"
  ce_created :: "socket option"

text \<open>\<open>None\<close> is a frame \<^verbatim>\<open>parseMessage\<close> refuses.\<close>

definition AgentClient_onMessage :: "(string \<Rightarrow> string) \<Rightarrow> client_env \<Rightarrow> AnyHubMsg option \<Rightarrow> agent_op" where
  "AgentClient_onMessage sha256 e parsed c =
     (case parsed of
        None \<Rightarrow> (c, [])
      | Some msg \<Rightarrow>
          (case msg of
             MHubRegistered m \<Rightarrow> onRegistered (ce_now e) (ce_ready e) m c
           | MHubPing m \<Rightarrow> onPing (ce_now e) (ce_ready e) c
           | MHubError m \<Rightarrow> onHubError (ce_throws e) (ce_now e) m c
           | MTunnelForward m \<Rightarrow> onForward sha256 (ce_now e) (ce_ready e) m c
           | MTunnelWsOpen m \<Rightarrow> onWsOpen (ce_created e) (ce_ready e) m c
           | MTunnelWsMessage m \<Rightarrow> onWsMessage (ce_wsReady e) m c
           | MTunnelWsClose m \<Rightarrow> onWsClose (ce_throws e) m c
           | _ \<Rightarrow> (c, [])))"

definition batch_timer :: "time \<Rightarrow> bool \<Rightarrow> agent_op" where
  "batch_timer now ready c = with_batcher now ready (MessageBatcher_flush (isConnected c)) c"

definition evict_timer :: "time \<Rightarrow> agent_op" where
  "evict_timer now = proxy_op (\<lambda>bp. (bp\<lparr>bp_cache := snd (ResponseCache_evictExpired now (bp_cache bp))\<rparr>, []))"

section \<open>The agent as a transition system\<close>

text \<open>
  The client together with what it has outside: the hub sockets whose \<^verbatim>\<open>close\<close> event is still to come, and
  the reconnect timers that are armed. The steps are the events Node delivers, in any order; that a
  socket says \<^verbatim>\<open>open\<close> once and before its messages is not used.
\<close>

record agent_world =
  aw_client :: agent_client
  aw_live :: "socket list"
  aw_armed :: "timer_handle list"

definition observe_effect :: "agent_effect \<Rightarrow> agent_world \<Rightarrow> agent_world" where
  "observe_effect fx w =
     (case fx of
        AxConnect ws _ \<Rightarrow> w\<lparr>aw_live := aw_live w @ [ws]\<rparr>
      | AxSetReconnect t _ \<Rightarrow> w\<lparr>aw_armed := aw_armed w @ [t]\<rparr>
      | AxClearReconnect t \<Rightarrow> w\<lparr>aw_armed := removeAll t (aw_armed w)\<rparr>
      | _ \<Rightarrow> w)"

definition perform :: "agent_op \<Rightarrow> agent_world \<Rightarrow> agent_world" where
  "perform f w = fold observe_effect (snd (f (aw_client w))) (w\<lparr>aw_client := fst (f (aw_client w))\<rparr>)"

definition performed :: "agent_op \<Rightarrow> agent_world \<Rightarrow> agent_effect list" where
  "performed f w = snd (f (aw_client w))"

inductive agent_step :: "(string \<Rightarrow> string) \<Rightarrow> agent_world \<Rightarrow> agent_effect list \<Rightarrow> agent_world \<Rightarrow> bool"
  for sha256 where
  start: "f = AgentClient_start ws \<Longrightarrow> agent_step sha256 w (performed f w) (perform f w)"
| stop: "f = AgentClient_stop throws now \<Longrightarrow> agent_step sha256 w (performed f w) (perform f w)"
| opened: "aw_live w \<noteq> [] \<Longrightarrow> f = onOpen ready \<Longrightarrow> agent_step sha256 w (performed f w) (perform f w)"
| message: "aw_live w \<noteq> [] \<Longrightarrow> f = AgentClient_onMessage sha256 e parsed \<Longrightarrow>
    agent_step sha256 w (performed f w) (perform f w)"
| closed: "ws \<in> set (aw_live w) \<Longrightarrow> f = AgentClient_onClose throws now t \<Longrightarrow>
    agent_step sha256 w (performed f w) (perform f (w\<lparr>aw_live := remove1 ws (aw_live w)\<rparr>))"
| reconnect: "t \<in> set (aw_armed w) \<Longrightarrow> f = reconnect_timer ws \<Longrightarrow>
    agent_step sha256 w (performed f w) (perform f (w\<lparr>aw_armed := remove1 t (aw_armed w)\<rparr>))"
| flush: "mb_timer (ac_batcher (aw_client w)) \<Longrightarrow> f = batch_timer now ready \<Longrightarrow>
    agent_step sha256 w (performed f w) (perform f w)"
| evict: "f = evict_timer now \<Longrightarrow> agent_step sha256 w (performed f w) (perform f w)"
| answer: "f = onForward_answer sha256 begun now ready msg outcome \<Longrightarrow>
    agent_step sha256 w (performed f w) (perform f w)"
| replayed: "f = replay_answer now ready item response \<Longrightarrow> agent_step sha256 w (performed f w) (perform f w)"
| ws_message: "f = backend_ws_message ready connectionId frame isBinary \<Longrightarrow>
    agent_step sha256 w (performed f w) (perform f w)"
| ws_close: "f = backend_ws_close ready connectionId code reason \<Longrightarrow> agent_step sha256 w (performed f w) (perform f w)"
| ws_error: "f = backend_ws_error ready connectionId text \<Longrightarrow> agent_step sha256 w (performed f w) (perform f w)"

definition world_new :: "AgentConfig \<Rightarrow> durable_queue option \<Rightarrow> agent_world" where
  "world_new config db = \<lparr>aw_client = AgentClient_new config db, aw_live = [], aw_armed = []\<rparr>"

inductive agent_reachable :: "(string \<Rightarrow> string) \<Rightarrow> agent_world \<Rightarrow> bool" for sha256 where
  init: "agent_reachable sha256 (world_new config db)"
| step: "agent_reachable sha256 w \<Longrightarrow> agent_step sha256 w fx w' \<Longrightarrow> agent_reachable sha256 w'"

inductive_cases agent_stepE: "agent_step sha256 w fx w'"

section \<open>Operations that leave the link alone\<close>

text \<open>The fields that decide about connecting.\<close>

definition link_of :: "agent_client \<Rightarrow> AgentState \<times> bool \<times> socket option \<times> timer_handle option \<times> int" where
  "link_of c = (ac_state c, ac_stopped c, ac_ws c, ac_reconnectTimer c, ac_reconnectDelay c)"

definition link_effect :: "agent_effect \<Rightarrow> bool" where
  "link_effect fx = (case fx of AxConnect _ _ \<Rightarrow> True | AxSetReconnect _ _ \<Rightarrow> True | AxClearReconnect _ \<Rightarrow> True | _ \<Rightarrow> False)"

definition held_total :: "held_response list \<Rightarrow> int" where
  "held_total hs = int (sum_list (map hl_bytes hs))"

text \<open>What is held is bounded, and is never a pong; the batcher keeps its own invariant.\<close>

definition holding_ok :: "agent_client \<Rightarrow> bool" where
  "holding_ok c \<longleftrightarrow> batcher_inv (ac_batcher c) \<and> ac_heldBytes c = held_total (ac_heldResponses c) \<and>
     length (ac_heldResponses c) \<le> MAX_HELD_RESPONSES \<and>
     (ac_heldBytes c \<le> MAX_HELD_BYTES \<or> length (ac_heldResponses c) \<le> 1) \<and>
     (\<forall>h \<in> set (ac_heldResponses c). \<not> is_pong (hl_msg h) \<and> hl_bytes h = byteLength (serialize_batchable (hl_msg h)))"

definition quiet :: "agent_op \<Rightarrow> bool" where
  "quiet f \<longleftrightarrow> (\<forall>c. link_of (fst (f c)) = link_of c \<and> filter link_effect (snd (f c)) = [] \<and>
     (holding_ok c \<longrightarrow> holding_ok (fst (f c))))"

named_theorems quiet_ops "operations that leave the link alone"

lemma quietD:
  assumes "quiet f"
  shows "link_of (fst (f c)) = link_of c" and "filter link_effect (snd (f c)) = []"
    and "holding_ok c \<Longrightarrow> holding_ok (fst (f c))"
  using assms by (auto simp: quiet_def)

lemma quiet_run_ops: "(\<And>f. f \<in> set fs \<Longrightarrow> quiet f) \<Longrightarrow> quiet (run_ops fs)"
proof (induction fs)
  case Nil
  then show ?case by (simp add: quiet_def)
next
  case (Cons f fs)
  then have "quiet f" "quiet (run_ops fs)" by auto
  then show ?case by (simp add: quiet_def split_beta)
qed

lemma quiet_emit [quiet_ops]: "filter link_effect fx = [] \<Longrightarrow> quiet (emit fx)"
  by (simp add: quiet_def emit_def)

lemma quiet_sendRaw [quiet_ops]: "quiet (sendRaw ready frame)"
  by (auto simp: quiet_def sendRaw_def link_effect_def split: option.split)

lemma quiet_proxy_op [quiet_ops]: "quiet (proxy_op f)"
  by (auto simp: quiet_def proxy_op_def link_of_def link_effect_def holding_ok_def filter_empty_conv split: prod.split)

lemma drop_held_bounded:
  assumes "bytes = held_total hs"
  shows "snd (drop_held hs bytes) = held_total (fst (drop_held hs bytes)) \<and>
    length (fst (drop_held hs bytes)) \<le> MAX_HELD_RESPONSES \<and>
    (snd (drop_held hs bytes) \<le> MAX_HELD_BYTES \<or> length (fst (drop_held hs bytes)) \<le> 1) \<and>
    suffix (fst (drop_held hs bytes)) hs"
  using assms
proof (induction hs bytes rule: drop_held.induct)
  case (1 bytes)
  then show ?case by (simp add: held_total_def MAX_HELD_BYTES_def)
next
  case (2 h hs bytes)
  have "bytes - int (hl_bytes h) = held_total hs" using 2(2) by (simp add: held_total_def)
  with 2 show ?case by (auto simp: suffix_ConsI)
qed

lemma quiet_holdResponse:
  assumes "\<not> is_pong msg"
  shows "quiet (holdResponse now msg)"
proof -
  let ?h = "\<lparr>hl_msg = msg, hl_bytes = byteLength (serialize_batchable msg), hl_heldAt = now\<rparr>"
  have "holding_ok (fst (holdResponse now msg c))" if ok: "holding_ok c" for c
  proof -
    let ?hs = "ac_heldResponses c @ [?h]"
    let ?b = "ac_heldBytes c + int (hl_bytes ?h)"
    have "?b = held_total ?hs" using ok by (simp add: holding_ok_def held_total_def)
    note D = drop_held_bounded [OF this]
    then have "set (fst (drop_held ?hs ?b)) \<subseteq> set ?hs" by (blast dest: set_mono_suffix)
    then show ?thesis
      using ok D assms by (auto simp: holding_ok_def holdResponse_def Let_def split_beta)
  qed
  then show ?thesis by (auto simp: quiet_def holdResponse_def Let_def link_of_def split_beta)
qed

text \<open>A batcher operation that keeps the batcher's invariant and never hands out a pong to be held.\<close>

definition batcher_op :: "(batcher \<Rightarrow> batcher \<times> batch_effect list) \<Rightarrow> bool" where
  "batcher_op f \<longleftrightarrow> (\<forall>b. (batcher_inv b \<longrightarrow> batcher_inv (fst (f b))) \<and> (\<forall>m. BxHold m \<in> set (snd (f b)) \<longrightarrow> \<not> is_pong m))"

lemma quiet_with_batcher:
  assumes "batcher_op f"
  shows "quiet (with_batcher now ready f)"
proof -
  have "quiet (batch_callback now ready fx)" if "fx \<in> set (snd (f b))" for fx b
    by (cases fx; use that assms quiet_holdResponse in
        \<open>auto simp: batch_callback_def quiet_ops batcher_op_def link_effect_def\<close>)
  then have Q: "quiet (run_ops (map (batch_callback now ready) (snd (f b))))" for b
    by (intro quiet_run_ops) auto
  have "holding_ok (c\<lparr>ac_batcher := fst (f (ac_batcher c))\<rparr>)" if "holding_ok c" for c
    using that assms by (auto simp: holding_ok_def batcher_op_def)
  then show ?thesis using Q by (auto simp: quiet_def with_batcher_def split_beta link_of_def)
qed

lemma send_holds: "BxHold m \<in> set (MessageBatcher_send connected es) \<Longrightarrow> \<not> is_pong m"
  by (auto simp: MessageBatcher_send_def split: if_splits)

lemma flush_holds: "BxHold m \<in> set (snd (MessageBatcher_flush connected b)) \<Longrightarrow> \<not> is_pong m"
  by (auto simp: MessageBatcher_flush_def Let_def send_holds split: if_splits)

lemma add_holds: "BxHold m \<in> set (snd (MessageBatcher_add connected msg b)) \<Longrightarrow> \<not> is_pong m"
  by (auto simp: MessageBatcher_add_def Let_def split_beta dest: flush_holds send_holds split: if_splits)

lemma batcher_ops:
  "batcher_op (MessageBatcher_flush connected)" "batcher_op (MessageBatcher_add connected msg)"
  "batcher_op MessageBatcher_flushToQueue"
proof -
  show "batcher_op (MessageBatcher_flush connected)"
    using flush_kept flush_holds by (auto simp: batcher_op_def batch_kept_def)
  show "batcher_op (MessageBatcher_add connected msg)"
    using add_kept add_holds unfolding batcher_op_def batch_kept_def by blast
  show "batcher_op MessageBatcher_flushToQueue"
    using close_kept by (auto simp: batcher_op_def batch_kept_def MessageBatcher_flushToQueue_def)
qed

lemma quiet_batcher_add [quiet_ops]: "quiet (batcher_add now ready msg)"
  using quiet_with_batcher [OF batcher_ops(2)] by (simp add: quiet_def batcher_add_def)

lemma quiet_batch_timer [quiet_ops]: "quiet (batch_timer now ready)"
  using quiet_with_batcher [OF batcher_ops(1)] by (simp add: quiet_def batch_timer_def)

lemmas quiet_flushToQueue [quiet_ops] = quiet_with_batcher [OF batcher_ops(3)]

lemma quiet_sendHeldResponses [quiet_ops]: "quiet (sendHeldResponses now ready)"
proof -
  have "holding_ok (c\<lparr>ac_heldResponses := [], ac_heldBytes := 0\<rparr>)" if "holding_ok c" for c
    using that by (simp add: holding_ok_def held_total_def MAX_HELD_BYTES_def)
  moreover have "quiet (run_ops (map (\<lambda>h. batcher_add now ready (hl_msg h)) hs))" for hs
    by (intro quiet_run_ops) (auto simp: quiet_ops)
  ultimately show ?thesis by (auto simp: quiet_def sendHeldResponses_def link_of_def)
qed

lemma quiet_start_replay [quiet_ops]: "quiet (start_replay now)"
  by (auto simp: quiet_def start_replay_def link_effect_def)

lemma quiet_replay_answer [quiet_ops]: "quiet (replay_answer now ready item response)"
  by (auto simp: quiet_def replay_answer_def link_effect_def link_of_def holding_ok_def sendRaw_def pure_op_def
      split: option.split sum.split)

lemma quiet_onPing [quiet_ops]: "quiet (onPing now ready)"
  using quiet_batcher_add by (auto simp: quiet_def onPing_def split: option.split)

lemma link_proxy [simp]: "link_of (c\<lparr>ac_proxy := bp\<rparr>) = link_of c" "holding_ok (c\<lparr>ac_proxy := bp\<rparr>) = holding_ok c"
  by (simp_all add: link_of_def holding_ok_def)

lemma quiet_onForward [quiet_ops]: "quiet (onForward sha256 now ready msg)"
  using quiet_batcher_add
  by (auto simp: quiet_def onForward_def link_effect_def split: prod.split forward_start.split)

lemma quiet_onForward_answer [quiet_ops]: "quiet (onForward_answer sha256 begun now ready msg outcome)"
  using quiet_batcher_add by (auto simp: quiet_def onForward_answer_def split: sum.split prod.split)

lemma quiet_onWsOpen [quiet_ops]: "quiet (onWsOpen created ready msg)"
  using quiet_sendRaw
  by (auto simp: quiet_def onWsOpen_def link_effect_def split: prod.split ws_open.split)

lemma quiet_ws_events [quiet_ops]:
  "quiet (backend_ws_message ready connectionId frame isBinary)" "quiet (backend_ws_close ready connectionId code reason)"
  "quiet (backend_ws_error ready connectionId text)" "quiet (onWsMessage ws_ready m)" "quiet (onWsClose throws m')"
  "quiet (evict_timer now)"
  unfolding backend_ws_message_def backend_ws_close_def backend_ws_error_def onWsMessage_def onWsClose_def evict_timer_def
  by (auto simp: quiet_ops intro!: quiet_run_ops)

section \<open>Operations that move the link\<close>

lemma link_fields [simp]:
  "link_of (c\<lparr>ac_heldResponses := hs, ac_heldBytes := b\<rparr>) = link_of c" "link_of (c\<lparr>ac_queueOpen := q\<rparr>) = link_of c"
  "link_of (c\<lparr>ac_agentId := i\<rparr>) = link_of c"
  "link_of (c\<lparr>ac_stopped := True\<rparr>) = (fst (link_of c), True, snd (snd (link_of c)))"
  "link_of (fst (setState state c)) = (state, snd (link_of c))" "filter link_effect (snd (setState state c)) = []"
  by (simp_all add: link_of_def setState_def link_effect_def)

lemma holding_fields [simp]:
  "holding_ok (c\<lparr>ac_queueOpen := q\<rparr>) = holding_ok c" "holding_ok (c\<lparr>ac_agentId := i\<rparr>) = holding_ok c"
  "holding_ok (c\<lparr>ac_stopped := s\<rparr>) = holding_ok c" "holding_ok (fst (setState state c)) = holding_ok c"
  "holding_ok (c\<lparr>ac_ws := ws\<rparr>) = holding_ok c" "holding_ok (c\<lparr>ac_reconnectTimer := t\<rparr>) = holding_ok c"
  "holding_ok (c\<lparr>ac_reconnectDelay := d\<rparr>) = holding_ok c"
  by (simp_all add: holding_ok_def setState_def)

lemma holding_reset: "holding_ok c \<Longrightarrow> holding_ok (c\<lparr>ac_heldResponses := [], ac_heldBytes := 0\<rparr>)"
  by (simp add: holding_ok_def held_total_def MAX_HELD_BYTES_def)

lemmas quiet_parts = quiet_flushToQueue quiet_proxy_op quiet_sendHeldResponses quiet_start_replay quiet_sendRaw
lemmas quiet_link = quiet_parts [THEN quietD(1)] quiet_parts [THEN quietD(2)]
lemmas quiet_hold = quiet_parts [THEN quietD(3)]

lemma stop_link:
  "link_of (fst (AgentClient_stop throws now c)) = (STOPPED, True, snd (snd (link_of c)))"
  "filter link_effect (snd (AgentClient_stop throws now c)) =
     (case ac_reconnectTimer c of None \<Rightarrow> [] | Some t \<Rightarrow> [AxClearReconnect t])"
  "holding_ok c \<Longrightarrow> holding_ok (fst (AgentClient_stop throws now c))"
  by (simp_all add: AgentClient_stop_def pure_op_def emit_def split_beta quiet_link quiet_hold holding_reset
      link_effect_def split: option.split)

lemma open_link:
  "link_of (fst (onOpen ready c)) = (AUTHENTICATING, ac_stopped c, ac_ws c, ac_reconnectTimer c, RECONNECT_INITIAL_MS)"
  "filter link_effect (snd (onOpen ready c)) = []"
  "holding_ok c \<Longrightarrow> holding_ok (fst (onOpen ready c))"
  by (simp_all add: onOpen_def pure_op_def split_beta quiet_link quiet_hold)
    (simp add: link_of_def setState_def)

lemma registered_link:
  "link_of (fst (onRegistered now ready m c)) = (CONNECTED, snd (link_of c))"
  "filter link_effect (snd (onRegistered now ready m c)) = []"
  "holding_ok c \<Longrightarrow> holding_ok (fst (onRegistered now ready m c))"
  by (simp_all add: onRegistered_def pure_op_def emit_def split_beta quiet_link quiet_hold link_effect_def
      split: option.split)

lemma close_link:
  assumes "\<not> ac_stopped c"
  shows "link_of (fst (AgentClient_onClose throws now t c)) =
      (RECONNECTING, False, ac_ws c, Some t, min (ac_reconnectDelay c * 2) RECONNECT_MAX_MS)"
    and "filter link_effect (snd (AgentClient_onClose throws now t c)) = [AxSetReconnect t (ac_reconnectDelay c)]"
    and "holding_ok c \<Longrightarrow> holding_ok (fst (AgentClient_onClose throws now t c))"
proof -
  let ?c = "fst (setState RECONNECTING (fst (with_batcher now False MessageBatcher_flushToQueue
      (fst (proxy_op (closeAllWebSockets throws) c)))))"
  have L: "link_of ?c = (RECONNECTING, snd (link_of c))" by (simp add: quiet_link)
  have H: "holding_ok c \<Longrightarrow> holding_ok ?c" by (simp add: quiet_hold)
  have run: "fst (AgentClient_onClose throws now t c) = fst (scheduleReconnect t ?c)"
    "filter link_effect (snd (AgentClient_onClose throws now t c)) = filter link_effect (snd (scheduleReconnect t ?c))"
    using assms by (simp_all add: AgentClient_onClose_def split_beta quiet_link)
  show "link_of (fst (AgentClient_onClose throws now t c)) =
      (RECONNECTING, False, ac_ws c, Some t, min (ac_reconnectDelay c * 2) RECONNECT_MAX_MS)"
    and "filter link_effect (snd (AgentClient_onClose throws now t c)) = [AxSetReconnect t (ac_reconnectDelay c)]"
    using L assms unfolding run by (auto simp: scheduleReconnect_def link_of_def link_effect_def)
  show "holding_ok c \<Longrightarrow> holding_ok (fst (AgentClient_onClose throws now t c))"
    using H unfolding run by (simp add: scheduleReconnect_def)
qed

lemma connect_link:
  assumes "\<not> ac_stopped c"
  shows "link_of (fst (connect ws c)) = (CONNECTING, False, Some ws, ac_reconnectTimer c, ac_reconnectDelay c)"
    and "filter link_effect (snd (connect ws c)) = [AxConnect ws (cf_hubUrl (ac_config c))]"
    and "holding_ok (fst (connect ws c)) = holding_ok c"
  using assms
  by (simp_all add: connect_def pure_op_def emit_def split_beta link_effect_def)
    (simp add: link_of_def setState_def)

section \<open>The agent always has one link\<close>

text \<open>
  Not started: no socket and no timer. Running: one live socket, the current one, or, between two connections,
  one armed timer, the current one. Stopped: no timer, so no further connection.
\<close>

definition link_ok :: "agent_world \<Rightarrow> bool" where
  "link_ok w \<longleftrightarrow>
     (if ac_stopped (aw_client w) then
        aw_armed w = [] \<and> length (aw_live w) \<le> 1 \<and> ac_state (aw_client w) \<noteq> IDLE
      else (case ac_state (aw_client w) of
          IDLE \<Rightarrow> aw_live w = [] \<and> aw_armed w = []
        | STOPPED \<Rightarrow> False
        | RECONNECTING \<Rightarrow>
            aw_live w = [] \<and> (\<exists>t. aw_armed w = [t] \<and> ac_reconnectTimer (aw_client w) = Some t)
        | _ \<Rightarrow> aw_armed w = [] \<and> (\<exists>ws. aw_live w = [ws] \<and> ac_ws (aw_client w) = Some ws))) \<and>
     RECONNECT_INITIAL_MS \<le> ac_reconnectDelay (aw_client w) \<and> ac_reconnectDelay (aw_client w) \<le> RECONNECT_MAX_MS"

lemma observe_filter: "fold observe_effect fx w = fold observe_effect (filter link_effect fx) w"
  by (induction fx arbitrary: w) (auto simp: observe_effect_def link_effect_def split: agent_effect.split)

lemma perform_link:
  "filter link_effect (snd (f (aw_client w))) = lfx \<Longrightarrow>
     perform f w = fold observe_effect lfx (w\<lparr>aw_client := fst (f (aw_client w))\<rparr>)"
  using observe_filter by (auto simp: perform_def)

lemma link_of_eq:
  "link_of c = (state, stopped, ws, t, d) \<longleftrightarrow>
     ac_state c = state \<and> ac_stopped c = stopped \<and> ac_ws c = ws \<and> ac_reconnectTimer c = t \<and> ac_reconnectDelay c = d"
  by (auto simp: link_of_def)

lemma quiet_keeps:
  assumes "quiet f" and "link_ok w" and "holding_ok (aw_client w)"
  shows "link_ok (perform f w) \<and> holding_ok (aw_client (perform f w))"
proof -
  have "perform f w = w\<lparr>aw_client := fst (f (aw_client w))\<rparr>" using quietD(2) [OF assms(1)] perform_link by fastforce
  moreover have "link_ok (w\<lparr>aw_client := c\<rparr>) = link_ok w" if "link_of c = link_of (aw_client w)" for c
    using that by (simp add: link_ok_def link_of_def split: AgentState.split)
  ultimately show ?thesis using assms quietD(1,3) [OF assms(1)] by simp
qed

lemmas reconnect_bounds = RECONNECT_INITIAL_MS_def RECONNECT_MAX_MS_def

lemma stop_keeps:
  assumes "link_ok w" and "holding_ok (aw_client w)"
  shows "link_ok (perform (AgentClient_stop throws now) w) \<and>
    holding_ok (aw_client (perform (AgentClient_stop throws now) w))"
proof -
  let ?c = "fst (AgentClient_stop throws now (aw_client w))"
  have "ac_stopped ?c" "ac_state ?c = STOPPED" "ac_reconnectDelay ?c = ac_reconnectDelay (aw_client w)"
    using stop_link(1) [of throws now "aw_client w"] by (auto simp: link_of_def)
  moreover have "holding_ok ?c" using stop_link(3) [OF assms(2)] .
  ultimately show ?thesis
    using assms perform_link [where f = "AgentClient_stop throws now" and w = w, OF stop_link(2)]
    by (auto simp: link_ok_def observe_effect_def split: option.splits if_splits AgentState.splits)
qed

lemma start_keeps:
  assumes "link_ok w" and "holding_ok (aw_client w)"
  shows "link_ok (perform (AgentClient_start ws) w) \<and> holding_ok (aw_client (perform (AgentClient_start ws) w))"
proof (cases "ac_state (aw_client w) = IDLE")
  case True
  let ?c = "aw_client w"
  have up: "\<not> ac_stopped ?c" using True assms(1) by (auto simp: link_ok_def split: if_splits)
  have "fst (AgentClient_start ws ?c) = fst (connect ws ?c)"
    and fx: "filter link_effect (snd (AgentClient_start ws ?c)) = [AxConnect ws (cf_hubUrl (ac_config ?c))]"
    using True connect_link(2) [OF up] by (simp_all add: AgentClient_start_def emit_def split_beta link_effect_def)
  with connect_link(1,3) [OF up, of ws] True up assms show ?thesis
    using perform_link [where f = "AgentClient_start ws" and w = w, OF fx]
    by (auto simp: link_ok_def link_of_eq observe_effect_def)
next
  case False
  then show ?thesis using assms by (simp add: perform_def AgentClient_start_def observe_effect_def)
qed

lemma open_keeps:
  assumes "link_ok w" and "holding_ok (aw_client w)" and "aw_live w \<noteq> []"
  shows "link_ok (perform (onOpen ready) w) \<and> holding_ok (aw_client (perform (onOpen ready) w))"
  using assms open_link(1) [of ready "aw_client w"] open_link(3) [of "aw_client w" ready]
    perform_link [where f = "onOpen ready" and w = w, OF open_link(2)]
  by (auto simp: link_ok_def link_of_eq reconnect_bounds split: if_splits AgentState.splits)

lemma registered_keeps:
  assumes "link_ok w" and "holding_ok (aw_client w)" and "aw_live w \<noteq> []"
  shows "link_ok (perform (onRegistered now ready m) w) \<and> holding_ok (aw_client (perform (onRegistered now ready m) w))"
  using assms registered_link(1) [of now ready m "aw_client w"] registered_link(3) [of "aw_client w" now ready m]
    perform_link [where f = "onRegistered now ready m" and w = w, OF registered_link(2)]
  by (auto simp: link_ok_def link_of_def split: if_splits AgentState.splits)

text \<open>Every other message leaves the link alone or stops the agent.\<close>

lemma message_keeps:
  assumes "link_ok w" and "holding_ok (aw_client w)" and "aw_live w \<noteq> []"
  shows "link_ok (perform (AgentClient_onMessage sha256 e parsed) w) \<and>
    holding_ok (aw_client (perform (AgentClient_onMessage sha256 e parsed) w))"
proof -
  define idle :: agent_op where "idle = run_ops []"
  have idle_quiet: "quiet idle" unfolding idle_def by (rule quiet_run_ops) simp
  have idle: "idle c = (c, [])" for c by (simp add: idle_def)
  let ?F = "AgentClient_onMessage sha256 e parsed"
  have handlers: "quiet (onPing (ce_now e) (ce_ready e))" "\<And>m. quiet (onForward sha256 (ce_now e) (ce_ready e) m)"
    "\<And>m. quiet (onWsOpen (ce_created e) (ce_ready e) m)" "\<And>m. quiet (onWsMessage (ce_wsReady e) m)"
    "\<And>m. quiet (onWsClose (ce_throws e) m)"
    by (simp_all add: quiet_ops)
  have "?F = idle \<or> ?F = AgentClient_stop (ce_throws e) (ce_now e) \<or>
      (\<exists>m. ?F = onRegistered (ce_now e) (ce_ready e) m) \<or> ?F = onPing (ce_now e) (ce_ready e) \<or>
      (\<exists>m. ?F = onForward sha256 (ce_now e) (ce_ready e) m) \<or> (\<exists>m. ?F = onWsOpen (ce_created e) (ce_ready e) m) \<or>
      (\<exists>m. ?F = onWsMessage (ce_wsReady e) m) \<or> (\<exists>m. ?F = onWsClose (ce_throws e) m)"
    by (cases parsed; cases "the parsed")
      (auto simp: AgentClient_onMessage_def onHubError_def idle fun_eq_iff split: if_splits)
  then have "(\<exists>m. ?F = onRegistered (ce_now e) (ce_ready e) m) \<or> ?F = AgentClient_stop (ce_throws e) (ce_now e) \<or> quiet ?F"
    using idle_quiet handlers by metis
  then consider m where "AgentClient_onMessage sha256 e parsed = onRegistered (ce_now e) (ce_ready e) m"
    | "AgentClient_onMessage sha256 e parsed = AgentClient_stop (ce_throws e) (ce_now e)"
    | "quiet (AgentClient_onMessage sha256 e parsed)" by blast
  then show ?thesis
  proof cases
    case (1 m)
    then show ?thesis using registered_keeps [OF assms] by simp
  next
    case 2
    then show ?thesis using stop_keeps [OF assms(1,2)] by simp
  next
    case 3
    then show ?thesis using quiet_keeps assms by blast
  qed
qed

lemma close_keeps:
  assumes "link_ok w" and "holding_ok (aw_client w)" and "ws \<in> set (aw_live w)"
  shows "link_ok (perform (AgentClient_onClose throws now t) (w\<lparr>aw_live := remove1 ws (aw_live w)\<rparr>)) \<and>
    holding_ok (aw_client (perform (AgentClient_onClose throws now t) (w\<lparr>aw_live := remove1 ws (aw_live w)\<rparr>)))"
proof (cases "ac_stopped (aw_client w)")
  case True
  then show ?thesis
    using assms by (auto simp: perform_def AgentClient_onClose_def link_ok_def length_remove1)
next
  case False
  let ?w = "w\<lparr>aw_live := remove1 ws (aw_live w)\<rparr>"
  have "aw_armed w = []" "aw_live w = [ws]"
    using assms(1,3) False by (auto simp: link_ok_def split: AgentState.splits)
  then show ?thesis
    using assms(1,2) close_link(1,3) [OF False, of throws now t] close_link(2) [OF False, of throws now t]
      perform_link [where f = "AgentClient_onClose throws now t" and w = ?w]
    by (auto simp: link_ok_def link_of_eq observe_effect_def reconnect_bounds)
qed

lemma reconnect_keeps:
  assumes "link_ok w" and "holding_ok (aw_client w)" and "t \<in> set (aw_armed w)"
  shows "link_ok (perform (reconnect_timer ws) (w\<lparr>aw_armed := remove1 t (aw_armed w)\<rparr>)) \<and>
    holding_ok (aw_client (perform (reconnect_timer ws) (w\<lparr>aw_armed := remove1 t (aw_armed w)\<rparr>)))"
proof -
  let ?c = "aw_client w"
  let ?w = "w\<lparr>aw_armed := remove1 t (aw_armed w)\<rparr>"
  have up: "\<not> ac_stopped ?c" and "aw_armed w = [t]" "aw_live w = []"
    using assms(1,3) by (auto simp: link_ok_def split: AgentState.splits if_splits)
  moreover have "\<not> ac_stopped (?c\<lparr>ac_reconnectTimer := None\<rparr>)" using up by simp
  note C = connect_link [OF this, of ws]
  moreover have "fst (reconnect_timer ws ?c) = fst (connect ws (?c\<lparr>ac_reconnectTimer := None\<rparr>))"
    "snd (reconnect_timer ws ?c) = snd (connect ws (?c\<lparr>ac_reconnectTimer := None\<rparr>))"
    by (simp_all add: reconnect_timer_def pure_op_def split_beta)
  ultimately show ?thesis
    using assms perform_link [where f = "reconnect_timer ws" and w = ?w]
    by (auto simp: link_ok_def link_of_eq observe_effect_def)
qed

lemma step_keeps:
  assumes "agent_step sha256 w fx w'" and "link_ok w" and "holding_ok (aw_client w)"
  shows "link_ok w' \<and> holding_ok (aw_client w')"
  using assms
  by (cases rule: agent_step.cases)
    (auto simp: start_keeps stop_keeps open_keeps message_keeps close_keeps reconnect_keeps quiet_keeps quiet_ops)

lemma reachable_keeps: "agent_reachable sha256 w \<Longrightarrow> link_ok w \<and> holding_ok (aw_client w)"
proof (induction rule: agent_reachable.induct)
  case (init config db)
  then show ?case
    by (simp add: world_new_def AgentClient_new_def link_ok_def holding_ok_def held_total_def batcher_inv_new
        MAX_HELD_BYTES_def reconnect_bounds)
next
  case (step w fx w')
  then show ?case using step_keeps by blast
qed

lemma link_stopped: "link_of c' = link_of c \<Longrightarrow> ac_stopped c' = ac_stopped c"
  by (simp add: link_of_def)

lemma perform_client: "aw_client (perform f w) = fst (f (aw_client w))"
proof -
  have "aw_client (fold observe_effect fx v) = aw_client v" for fx v
    by (induction fx arbitrary: v) (auto simp: observe_effect_def split: agent_effect.split)
  then show ?thesis by (simp add: perform_def)
qed

lemma quiet_stopped:
  "quiet f \<Longrightarrow> ac_stopped (fst (f c)) = ac_stopped c" "quiet f \<Longrightarrow> filter link_effect (snd (f c)) = []"
  using quietD(1,2) link_stopped by blast+

definition connects :: "agent_effect \<Rightarrow> bool" where
  "connects fx = (case fx of AxConnect _ _ \<Rightarrow> True | AxSetReconnect _ _ \<Rightarrow> True | _ \<Rightarrow> False)"

lemma no_link_no_connect: "filter link_effect fx = [] \<Longrightarrow> \<not> list_ex connects fx"
  by (induction fx) (auto simp: link_effect_def connects_def split: agent_effect.splits)

lemma link_filter_connect: "list_ex connects fx = list_ex connects (filter link_effect fx)"
  by (induction fx) (auto simp: link_effect_def connects_def split: agent_effect.splits)

lemma message_stopped:
  assumes "ac_stopped c"
  shows "ac_stopped (fst (AgentClient_onMessage sha256 e parsed c)) \<and>
    \<not> list_ex connects (snd (AgentClient_onMessage sha256 e parsed c))"
proof -
  have S: "ac_stopped (fst (AgentClient_stop throws now c))" "\<not> list_ex connects (snd (AgentClient_stop throws now c))"
    for throws now
    using stop_link(1) [of throws now c] stop_link(2) [of throws now c]
    by (auto simp: link_of_def link_filter_connect [of "snd (AgentClient_stop throws now c)"] connects_def
        split: option.splits)
  have R: "ac_stopped (fst (onRegistered now ready m c))" "\<not> list_ex connects (snd (onRegistered now ready m c))"
    for now ready m
    using registered_link(1) [of now ready m c] no_link_no_connect [OF registered_link(2)] assms by (auto simp: link_of_def)
  have Q: "ac_stopped (fst (f c)) \<and> \<not> list_ex connects (snd (f c))" if "quiet f" for f
    using that assms quiet_stopped no_link_no_connect by metis
  show ?thesis
    using S R Q quiet_ops assms
    by (cases parsed; cases "the parsed") (auto simp: AgentClient_onMessage_def onHubError_def)
qed

lemma step_stopped:
  assumes "agent_step sha256 w fx w'" and "link_ok w" and "ac_stopped (aw_client w)"
  shows "ac_stopped (aw_client w') \<and> \<not> list_ex connects fx"
proof -
  have Q: "ac_stopped (fst (f (aw_client w))) \<and> \<not> list_ex connects (snd (f (aw_client w)))" if "quiet f" for f
    using that assms(3) quiet_stopped no_link_no_connect by metis
  note facts = perform_client performed_def
  show ?thesis
    using assms(1)
  proof (cases rule: agent_step.cases)
    case (start f ws)
    then show ?thesis
      using assms(2,3) by (auto simp: facts AgentClient_start_def link_ok_def connects_def)
  next
    case (stop f throws now)
    then show ?thesis
      using stop_link(1) [of throws now "aw_client w"] stop_link(2) [of throws now "aw_client w"]
      by (auto simp: facts link_of_def link_filter_connect [of "snd (AgentClient_stop throws now (aw_client w))"]
          connects_def split: option.splits)
  next
    case (opened f ready)
    then show ?thesis
      using open_link(1) [of ready "aw_client w"] no_link_no_connect [OF open_link(2)] assms(3)
      by (simp add: facts link_of_eq)
  next
    case (message f e parsed)
    then show ?thesis using message_stopped [OF assms(3)] by (simp add: facts)
  next
    case (closed ws f throws now t)
    then show ?thesis using assms(3) by (simp add: facts AgentClient_onClose_def)
  next
    case (reconnect t f ws)
    then show ?thesis using assms(2,3) by (simp add: link_ok_def)
  qed (use Q quiet_ops in \<open>auto simp: facts\<close>)
qed

text \<open>
  C4: in every state any order of events leads to, a started agent that was not stopped has exactly one link to
  the hub: the one live socket it holds, or one armed timer that will open the next, after between one second
  and five minutes. So it never gives up by itself and never holds two connections. Once stopped it stays
  stopped, and nothing it does opens a connection or arms a timer.
\<close>

theorem agent_single_link:
  assumes "agent_reachable sha256 w" and "agent_step sha256 w fx w'"
  shows "(\<not> ac_stopped (aw_client w) \<and> ac_state (aw_client w) \<noteq> IDLE \<longrightarrow>
      length (aw_live w) + length (aw_armed w) = 1 \<and>
      (\<forall>ws \<in> set (aw_live w). ac_ws (aw_client w) = Some ws) \<and>
      (\<forall>t \<in> set (aw_armed w). ac_reconnectTimer (aw_client w) = Some t \<and> ac_state (aw_client w) = RECONNECTING)) \<and>
    1000 \<le> ac_reconnectDelay (aw_client w) \<and> ac_reconnectDelay (aw_client w) \<le> 300000 \<and>
    (ac_stopped (aw_client w) \<longrightarrow> aw_armed w = [] \<and> ac_stopped (aw_client w') \<and> \<not> list_ex connects fx)"
proof -
  have "link_ok w" using reachable_keeps [OF assms(1)] by simp
  then show ?thesis
    using step_stopped [OF assms(2)]
    by (auto simp: link_ok_def reconnect_bounds split: AgentState.splits if_splits)
qed

definition demo_agent_config :: AgentConfig where
  "demo_agent_config = \<lparr>cf_hubUrl = ''wss://hub.void.dev/agent'', cf_keyId = ''k'', cf_secret = ''s'', cf_label = ''web'',
     cf_port = 3000, cf_agentVersion = ''1.0.0'', cf_localDiscovery = False\<rparr>"

definition demo_started :: agent_world where
  "demo_started = perform (AgentClient_start 4) (world_new demo_agent_config None)"

lemma demo_started_reachable: "agent_reachable sha256 demo_started"
  unfolding demo_started_def
  by (rule agent_reachable.step [OF agent_reachable.init agent_step.start]) simp

text \<open>A started agent whose socket closes: before, one live socket; the close arms one timer.\<close>

theorem agent_single_link_witness:
  "length (aw_live demo_started) + length (aw_armed demo_started) = 1 \<and>
   \<not> ac_stopped (aw_client demo_started) \<and> ac_state (aw_client demo_started) = CONNECTING"
proof -
  have "agent_step (\<lambda>s. s) demo_started (performed (evict_timer 0) demo_started) (perform (evict_timer 0) demo_started)"
    by (rule agent_step.evict) simp
  from agent_single_link [OF demo_started_reachable this]
  have "\<not> ac_stopped (aw_client demo_started) \<and> ac_state (aw_client demo_started) \<noteq> IDLE \<longrightarrow>
      length (aw_live demo_started) + length (aw_armed demo_started) = 1" by blast
  moreover have "\<not> ac_stopped (aw_client demo_started)" "ac_state (aw_client demo_started) = CONNECTING"
    by (simp_all add: demo_started_def perform_client AgentClient_start_def connect_def world_new_def AgentClient_new_def
        emit_def pure_op_def setState_def demo_agent_config_def)
  ultimately show ?thesis by simp
qed

lemma held_total_sum: "held_total hs = sum_list (map int (map hl_bytes hs))"
  by (induction hs) (simp_all add: held_total_def)

text \<open>
  however long the hub is away, what the agent holds for it is bounded: at most a hundred responses, and at
  most 20 MiB of them unless it is a single one; they are responses and errors, never pongs, and the byte count is
  their true size.
\<close>

theorem held_responses_bounded:
  assumes "agent_reachable sha256 w"
  shows "length (ac_heldResponses (aw_client w)) \<le> 100 \<and>
    (length (ac_heldResponses (aw_client w)) \<le> 1 \<or> ac_heldBytes (aw_client w) \<le> 20 * 1024 * 1024) \<and>
    ac_heldBytes (aw_client w) =
      (\<Sum>h \<leftarrow> ac_heldResponses (aw_client w). int (byteLength (serialize_batchable (hl_msg h)))) \<and>
    (\<forall>h \<in> set (ac_heldResponses (aw_client w)). \<not> is_pong (hl_msg h))"
proof -
  have H: "holding_ok (aw_client w)" using reachable_keeps [OF assms] by simp
  then have "map hl_bytes (ac_heldResponses (aw_client w)) =
      map (\<lambda>h. byteLength (serialize_batchable (hl_msg h))) (ac_heldResponses (aw_client w))"
    by (simp add: holding_ok_def)
  then have "held_total (ac_heldResponses (aw_client w)) =
      (\<Sum>h \<leftarrow> ac_heldResponses (aw_client w). int (byteLength (serialize_batchable (hl_msg h))))"
    by (simp add: held_total_sum comp_def del: map_eq_conv)
  then show ?thesis using H by (auto simp: holding_ok_def MAX_HELD_RESPONSES_def MAX_HELD_BYTES_def)
qed

text \<open>An answer that is ready while the agent is not registered, and then the socket closes.\<close>

definition demo_outage :: agent_world where
  "demo_outage =
     (let w1 = perform (onForward_answer (\<lambda>s. s) 0 1 False demo_forward (Inl ''refused'')) demo_started
      in perform (AgentClient_onClose (\<lambda>_. False) 2 9) (w1\<lparr>aw_live := remove1 4 (aw_live w1)\<rparr>))"

theorem held_responses_bounded_witness:
  "length (ac_heldResponses (aw_client demo_outage)) \<le> 100 \<and>
   filter (\<lambda>h. is_pong (hl_msg h)) (ac_heldResponses (aw_client demo_outage)) = [] \<and>
   ac_state (aw_client demo_outage) = RECONNECTING"
proof -
  let ?f = "onForward_answer (\<lambda>s. s) 0 1 False demo_forward (Inl ''refused'')"
  let ?w1 = "perform ?f demo_started"
  have "aw_live ?w1 = aw_live demo_started" "ac_stopped (aw_client ?w1) = ac_stopped (aw_client demo_started)"
    using perform_link [where f = ?f and w = demo_started, OF quietD(2) [where f = ?f and c = "aw_client demo_started"]] quiet_stopped(1) [of ?f]
    by (simp_all add: quiet_ops perform_client)
  moreover have "aw_live demo_started = [4]" "\<not> ac_stopped (aw_client demo_started)"
    by (simp_all add: demo_started_def perform_def AgentClient_start_def connect_def world_new_def AgentClient_new_def
        emit_def pure_op_def setState_def demo_agent_config_def observe_effect_def)
  moreover have "agent_reachable (\<lambda>s. s) ?w1"
    by (rule agent_reachable.step [OF demo_started_reachable agent_step.answer]) simp
  ultimately have up: "\<not> ac_stopped (aw_client ?w1)" and live: "4 \<in> set (aw_live ?w1)"
    and "agent_reachable (\<lambda>s. s) ?w1" by simp_all
  then have "agent_reachable (\<lambda>s. s) demo_outage"
    unfolding demo_outage_def Let_def
    using agent_step.closed [OF live refl, of "\<lambda>s. s" "\<lambda>_. False" 2 9] by (blast intro: agent_reachable.step)
  from held_responses_bounded [OF this] close_link(1) [OF up, of "\<lambda>_. False" 2 9]
  show ?thesis by (simp add: demo_outage_def Let_def perform_client link_of_eq filter_empty_conv)
qed

end
