(* ===== verification/SdkClient.thy ===== *)
theory SdkClient
  imports HubAuth Bytes
begin

text \<open>
  \<^verbatim>\<open>packages/sdk/src/TunnelClient.ts\<close> and \<^verbatim>\<open>LocalAgentClient.ts\<close>: the SDK's connection to the hub and its calls.
  A call is a promise, named by a number; \<open>SxSettle\<close> settles it. Timers are entries of \<open>tl_timers\<close> while they are
  armed. A body is the text \<^verbatim>\<open>JSON.stringify\<close> gave for it. The \<^verbatim>\<open>undefined\<close> fields of a message that is not an
  SDK message are \<open>None\<close>.
\<close>

section \<open>Types\<close>

record TunnelClientConfig =
  tc_hubUrl :: string
  tc_keyId :: string
  tc_secret :: string
  tc_label :: "string option"
  tc_timeout :: "int option"
  tc_localDiscovery :: bool

datatype sdk_body = NoBody | TextBody string | BytesBody bytes

record TunnelResponse =
  rp_status :: int
  rp_headers :: headers
  rp_body :: sdk_body
  rp_durationMs :: int
  rp_isLocal :: bool

record TunnelError =
  sx_code :: "string option"
  sx_message :: "string option"
  sx_retryable :: "bool option"

datatype outcome = Resolved TunnelResponse | Rejected TunnelError

record PendingCall =
  pc_call :: nat
  pc_timer :: timer_handle

datatype sdk_effect =
  SxOpen socket string
| SxSend socket AnyHubMsg
| SxCloseWs socket int string
| SxSetTimer timer_handle int
| SxClearTimer timer_handle
| SxSettle nat outcome
| SxConnected
| SxConnectFailed string

record tunnel_client =
  tl_config :: TunnelClientConfig
  tl_ws :: "socket option"
  tl_sessionId :: "string option"
  tl_connected :: bool
  tl_pending :: "(string, PendingCall) jsmap"
  tl_timers :: "(timer_handle, string) jsmap"

definition TunnelClient_new :: "TunnelClientConfig \<Rightarrow> tunnel_client" where
  "TunnelClient_new config = \<lparr>tl_config = config, tl_ws = None, tl_sessionId = None, tl_connected = False,
     tl_pending = [], tl_timers = []\<rparr>"

section \<open>Connecting\<close>

definition TunnelClient_connect :: "socket \<Rightarrow> tunnel_client \<Rightarrow> tunnel_client \<times> sdk_effect list" where
  "TunnelClient_connect ws c = (c\<lparr>tl_ws := Some ws\<rparr>, [SxOpen ws (tc_hubUrl (tl_config c))])"

definition sdk_register_message :: "platform \<Rightarrow> time \<Rightarrow> string \<Rightarrow> TunnelClientConfig \<Rightarrow> SdkRegisterMsg" where
  "sdk_register_message pf now requestId config =
     (let canonical = buildCanonical (pf_sha256 pf) \<lparr>cp_meth = ''SDK_REGISTER'', cp_path = ''/sdk/register'', cp_query = [],
            cp_body = [], cp_requestId = requestId, cp_ts = now\<rparr>
      in \<lparr>sr_keyId = tc_keyId config, sr_requestId = requestId, sr_ts = now,
          sr_signature = signCanonical (pf_hmac pf) canonical (tc_secret config)\<rparr>)"

definition TunnelClient_onopen ::
  "platform \<Rightarrow> time \<Rightarrow> string \<Rightarrow> socket \<Rightarrow> tunnel_client \<Rightarrow> tunnel_client \<times> sdk_effect list" where
  "TunnelClient_onopen pf now requestId ws c =
     (c, [SxSend ws (MSdkRegister (sdk_register_message pf now requestId (tl_config c)))])"

definition disconnect :: "tunnel_client \<Rightarrow> tunnel_client \<times> sdk_effect list" where
  "disconnect c =
     (c\<lparr>tl_ws := None, tl_connected := False, tl_sessionId := None\<rparr>,
      (case tl_ws c of None \<Rightarrow> [] | Some ws \<Rightarrow> [SxCloseWs ws 1000 ''client_disconnect'']))"

definition closed_error :: TunnelError where
  "closed_error = \<lparr>sx_code = Some ''AGENT_DISCONNECTED'', sx_message = Some ''Hub connection closed'', sx_retryable = Some True\<rparr>"

definition TunnelClient_onclose :: "tunnel_client \<Rightarrow> tunnel_client \<times> sdk_effect list" where
  "TunnelClient_onclose c =
     (c\<lparr>tl_connected := False, tl_pending := [],
        tl_timers := fold (\<lambda>(_, pc). jm_delete (pc_timer pc)) (tl_pending c) (tl_timers c)\<rparr>,
      concat (map (\<lambda>(_, pc). [SxClearTimer (pc_timer pc), SxSettle (pc_call pc) (Rejected closed_error)]) (tl_pending c)))"

definition TunnelClient_onerror :: "string \<Rightarrow> tunnel_client \<Rightarrow> tunnel_client \<times> sdk_effect list" where
  "TunnelClient_onerror message c =
     (c, if \<not> tl_connected c then [SxConnectFailed (''Hub connection failed: '' @ message)] else [])"

section \<open>Messages\<close>

text \<open>What the cast to an SDK message finds in any other message.\<close>

definition message_requestId :: "AnyHubMsg \<Rightarrow> string option" where
  "message_requestId m =
     (case m of MSdkResponse r \<Rightarrow> Some (sp_requestId r) | MSdkError e \<Rightarrow> Some (se_requestId e)
      | MHubError e \<Rightarrow> he_requestId e | MTunnelResponse r \<Rightarrow> Some (tr_requestId r)
      | MTunnelAgentError e \<Rightarrow> Some (te_requestId e) | MTunnelForward f \<Rightarrow> Some (tf_requestId f)
      | MSdkRegister r \<Rightarrow> Some (sr_requestId r) | MSdkRequest r \<Rightarrow> Some (sq_requestId r) | _ \<Rightarrow> None)"

definition message_error :: "AnyHubMsg \<Rightarrow> TunnelError" where
  "message_error m =
     (case m of MSdkError e \<Rightarrow> \<lparr>sx_code = Some (se_code e), sx_message = Some (se_message e), sx_retryable = Some (se_retryable e)\<rparr>
      | MHubError e \<Rightarrow> \<lparr>sx_code = Some (he_code e), sx_message = Some (he_message e), sx_retryable = None\<rparr>
      | MTunnelAgentError e \<Rightarrow> \<lparr>sx_code = Some (te_code e), sx_message = Some (te_message e), sx_retryable = None\<rparr>
      | _ \<Rightarrow> \<lparr>sx_code = None, sx_message = None, sx_retryable = None\<rparr>)"

definition response_body :: "SdkResponseMsg \<Rightarrow> sdk_body" where
  "response_body m =
     (case sp_body m of
        None \<Rightarrow> NoBody
      | Some b \<Rightarrow> if sp_bodyEncoding m = Some Base64 then BytesBody (Buffer_from True b) else TextBody b)"

definition message_outcome :: "AnyHubMsg \<Rightarrow> outcome" where
  "message_outcome m =
     (case m of
        MSdkResponse r \<Rightarrow> Resolved \<lparr>rp_status = sp_status r, rp_headers = sp_headers r, rp_body = response_body r,
          rp_durationMs = sp_durationMs r, rp_isLocal = False\<rparr>
      | _ \<Rightarrow> Rejected (message_error m))"

definition TunnelClient_onMessage :: "AnyHubMsg \<Rightarrow> tunnel_client \<Rightarrow> tunnel_client \<times> sdk_effect list" where
  "TunnelClient_onMessage m c =
     (case Option.bind (message_requestId m) (jm_get (tl_pending c)) of
        None \<Rightarrow> (c, [])
      | Some pc \<Rightarrow>
          (c\<lparr>tl_pending := jm_delete (the (message_requestId m)) (tl_pending c), tl_timers := jm_delete (pc_timer pc) (tl_timers c)\<rparr>,
           [SxClearTimer (pc_timer pc), SxSettle (pc_call pc) (message_outcome m)]))"

text \<open>The socket's message handler; \<open>Inl\<close> is a frame that does not parse.\<close>

definition TunnelClient_onmessage :: "string + AnyHubMsg \<Rightarrow> tunnel_client \<Rightarrow> tunnel_client \<times> sdk_effect list" where
  "TunnelClient_onmessage parsed c =
     (case parsed of
        Inl err \<Rightarrow> (c, if \<not> tl_connected c then [SxConnectFailed err] else [])
      | Inr (MSdkRegistered m) \<Rightarrow> (c\<lparr>tl_sessionId := Some (sd_sessionId m), tl_connected := True\<rparr>, [SxConnected])
      | Inr m \<Rightarrow> TunnelClient_onMessage m c)"

section \<open>Calls\<close>

record request_params =
  rq_meth :: string
  rq_path :: string
  rq_query :: "string option"
  rq_headers :: headers
  rq_body :: "string option"
  rq_label :: "string option"
  rq_timeout :: "int option"

definition option_or :: "'a option \<Rightarrow> 'a option \<Rightarrow> 'a option" where
  "option_or a b = (case a of None \<Rightarrow> b | Some x \<Rightarrow> Some x)"

definition param_query :: "request_params \<Rightarrow> string" where
  "param_query p = (case rq_query p of None \<Rightarrow> [] | Some q \<Rightarrow> q)"

definition param_body :: "request_params \<Rightarrow> string" where
  "param_body p = (case rq_body p of None \<Rightarrow> [] | Some b \<Rightarrow> b)"

definition sdk_request_message ::
  "platform \<Rightarrow> time \<Rightarrow> string \<Rightarrow> TunnelClientConfig \<Rightarrow> request_params \<Rightarrow> SdkRequestMsg" where
  "sdk_request_message pf now requestId config p =
     (let canonical = buildCanonical (pf_sha256 pf) \<lparr>cp_meth = rq_meth p, cp_path = rq_path p, cp_query = param_query p,
            cp_body = param_body p, cp_requestId = requestId, cp_ts = now\<rparr>
      in \<lparr>sq_keyId = tc_keyId config, sq_requestId = requestId, sq_ts = now,
          sq_signature = signCanonical (pf_hmac pf) canonical (tc_secret config),
          sq_label = option_or (rq_label p) (tc_label config), sq_meth = rq_meth p, sq_path = rq_path p,
          sq_query = param_query p, sq_headers = rq_headers p, sq_body = rq_body p\<rparr>)"

definition not_connected_error :: TunnelError where
  "not_connected_error = \<lparr>sx_code = Some ''AGENT_NOT_FOUND'', sx_message = Some ''Not connected to hub. Call connect() first.'',
     sx_retryable = Some False\<rparr>"

definition call_timeout :: "TunnelClientConfig \<Rightarrow> request_params \<Rightarrow> int" where
  "call_timeout config p =
     (case option_or (rq_timeout p) (tc_timeout config) of None \<Rightarrow> REQUEST_TIMEOUT_MS | Some t \<Rightarrow> t)"

text \<open>\<open>local\<close> is the answer of the local agent, when discovery is on and it has one.\<close>

definition TunnelClient_request ::
  "platform \<Rightarrow> time \<Rightarrow> nat \<Rightarrow> string \<Rightarrow> timer_handle \<Rightarrow> TunnelResponse option \<Rightarrow> request_params \<Rightarrow> tunnel_client \<Rightarrow>
   tunnel_client \<times> sdk_effect list" where
  "TunnelClient_request pf now call requestId timer local p c =
     (case (if tc_localDiscovery (tl_config c) then local else None) of
        Some response \<Rightarrow> (c, [SxSettle call (Resolved response)])
      | None \<Rightarrow>
          (case tl_ws c of
             Some ws \<Rightarrow>
               if tl_connected c then
                 (c\<lparr>tl_pending := jm_set requestId \<lparr>pc_call = call, pc_timer = timer\<rparr> (tl_pending c),
                    tl_timers := jm_set timer requestId (tl_timers c)\<rparr>,
                  [SxSetTimer timer (call_timeout (tl_config c) p),
                   SxSend ws (MSdkRequest (sdk_request_message pf now requestId (tl_config c) p))])
               else (c, [SxSettle call (Rejected not_connected_error)])
           | None \<Rightarrow> (c, [SxSettle call (Rejected not_connected_error)])))"

definition timeout_error :: "string \<Rightarrow> TunnelError" where
  "timeout_error requestId = \<lparr>sx_code = Some ''AGENT_TIMEOUT'',
     sx_message = Some (''Request '' @ requestId @ '' timed out''), sx_retryable = Some True\<rparr>"

text \<open>An armed timer fires. Its promise is the one its call made; the entry is deleted by its id.\<close>

definition call_timer :: "timer_handle \<Rightarrow> tunnel_client \<Rightarrow> tunnel_client \<times> sdk_effect list" where
  "call_timer t c =
     (case jm_get (tl_timers c) t of
        None \<Rightarrow> (c, [])
      | Some requestId \<Rightarrow>
          (case jm_get (tl_pending c) requestId of
             None \<Rightarrow> (c\<lparr>tl_timers := jm_delete t (tl_timers c)\<rparr>, [])
           | Some pc \<Rightarrow>
               (c\<lparr>tl_pending := jm_delete requestId (tl_pending c), tl_timers := jm_delete t (tl_timers c)\<rparr>,
                [SxSettle (pc_call pc) (Rejected (timeout_error requestId))])))"

definition pendingCount :: "tunnel_client \<Rightarrow> nat" where
  "pendingCount c = length (tl_pending c)"

section \<open>The local agent\<close>

text \<open>
  \<^verbatim>\<open>tryRequest\<close>: the cached port, or what discovery finds (\<open>found\<close>), then the request itself (\<open>answer\<close>, \<open>None\<close>
  when it fails, as a status, headers and the bytes received).
\<close>

definition LocalAgent_discover :: "time \<Rightarrow> nat option \<Rightarrow> (nat \<times> time) option \<Rightarrow> nat option \<times> (nat \<times> time) option" where
  "LocalAgent_discover now found cached =
     (case cached of
        Some (port, expiresAt) \<Rightarrow>
          if now < expiresAt then (Some port, cached)
          else (case found of None \<Rightarrow> (None, cached) | Some p \<Rightarrow> (Some p, Some (p, now + 5000)))
      | None \<Rightarrow> (case found of None \<Rightarrow> (None, cached) | Some p \<Rightarrow> (Some p, Some (p, now + 5000))))"

definition local_body :: "(string, header_value) jsmap \<Rightarrow> bytes list \<Rightarrow> sdk_body" where
  "local_body hs chunks =
     (if chunks = [] then NoBody
      else if isBinaryContentType (case jm_get hs ''content-type'' of Some v \<Rightarrow> v | None \<Rightarrow> HNone) = Some True
        then BytesBody (concat chunks)
      else TextBody (utf8_decode (concat chunks)))"

definition LocalAgent_tryRequest ::
  "time \<Rightarrow> nat option \<Rightarrow> (nat \<Rightarrow> (int option \<times> (string, header_value) jsmap \<times> bytes list) option) \<Rightarrow> int \<Rightarrow> headers \<Rightarrow>
   (nat \<times> time) option \<Rightarrow> TunnelResponse option \<times> (nat \<times> time) option" where
  "LocalAgent_tryRequest now found answer duration out_headers cached =
     (case LocalAgent_discover now found cached of
        (None, cached1) \<Rightarrow> (None, cached1)
      | (Some port, cached1) \<Rightarrow>
          (case answer port of
             None \<Rightarrow> (None, None)
           | Some (status, hs, chunks) \<Rightarrow>
               (Some \<lparr>rp_status = (case status of None \<Rightarrow> 200 | Some s \<Rightarrow> s), rp_headers = out_headers,
                  rp_body = local_body hs chunks, rp_durationMs = duration, rp_isLocal = True\<rparr>, cached1)))"

section \<open>Every call is settled once\<close>

datatype sdk_event =
  SeConnect socket
| SeOpen time string socket
| SeMessage "string + AnyHubMsg"
| SeError string
| SeClose
| SeDisconnect
| SeRequest time nat string timer_handle "TunnelResponse option" request_params
| SeTimer timer_handle

definition sdk_step :: "platform \<Rightarrow> sdk_event \<Rightarrow> tunnel_client \<Rightarrow> tunnel_client \<times> sdk_effect list" where
  "sdk_step pf ev c =
     (case ev of
        SeConnect ws \<Rightarrow> TunnelClient_connect ws c
      | SeOpen now requestId ws \<Rightarrow> TunnelClient_onopen pf now requestId ws c
      | SeMessage parsed \<Rightarrow> TunnelClient_onmessage parsed c
      | SeError message \<Rightarrow> TunnelClient_onerror message c
      | SeClose \<Rightarrow> TunnelClient_onclose c
      | SeDisconnect \<Rightarrow> disconnect c
      | SeRequest now call requestId timer local p \<Rightarrow> TunnelClient_request pf now call requestId timer local p c
      | SeTimer t \<Rightarrow> call_timer t c)"

fun sdk_run :: "platform \<Rightarrow> sdk_event list \<Rightarrow> tunnel_client \<Rightarrow> tunnel_client \<times> sdk_effect list" where
  "sdk_run pf [] c = (c, [])"
| "sdk_run pf (ev # evs) c =
     (case sdk_step pf ev c of (c1, fx1) \<Rightarrow> (case sdk_run pf evs c1 of (c2, fx2) \<Rightarrow> (c2, fx1 @ fx2)))"

text \<open>A new call gets a request id and a timer that are not in use.\<close>

definition event_fresh :: "sdk_event \<Rightarrow> tunnel_client \<Rightarrow> bool" where
  "event_fresh ev c =
     (case ev of SeRequest _ _ requestId timer _ _ \<Rightarrow>
        jm_get (tl_pending c) requestId = None \<and> jm_get (tl_timers c) timer = None | _ \<Rightarrow> True)"

fun run_fresh :: "platform \<Rightarrow> sdk_event list \<Rightarrow> tunnel_client \<Rightarrow> bool" where
  "run_fresh pf [] c = True"
| "run_fresh pf (ev # evs) c = (event_fresh ev c \<and> run_fresh pf evs (fst (sdk_step pf ev c)))"

definition started :: "sdk_event list \<Rightarrow> nat list" where
  "started evs = concat (map (\<lambda>ev. case ev of SeRequest _ call _ _ _ _ \<Rightarrow> [call] | _ \<Rightarrow> []) evs)"

definition settled_calls :: "sdk_effect list \<Rightarrow> nat list" where
  "settled_calls fxs = concat (map (\<lambda>fx. case fx of SxSettle call _ \<Rightarrow> [call] | _ \<Rightarrow> []) fxs)"

definition pending_calls :: "tunnel_client \<Rightarrow> nat list" where
  "pending_calls c = map (\<lambda>(_, pc). pc_call pc) (tl_pending c)"

definition calls_ok :: "tunnel_client \<Rightarrow> bool" where
  "calls_ok c \<longleftrightarrow> jm_ok (tl_pending c) \<and> jm_ok (tl_timers c) \<and>
     (\<forall>i pc. jm_get (tl_pending c) i = Some pc \<longrightarrow> jm_get (tl_timers c) (pc_timer pc) = Some i) \<and>
     (\<forall>t i. jm_get (tl_timers c) t = Some i \<longrightarrow> (\<exists>pc. jm_get (tl_pending c) i = Some pc \<and> pc_timer pc = t))"

text \<open>What one event does: the calls pending before and the one it starts are pending after or settled by it.\<close>

definition calls_kept :: "nat list \<Rightarrow> tunnel_client \<Rightarrow> tunnel_client \<times> sdk_effect list \<Rightarrow> bool" where
  "calls_kept new c out \<longleftrightarrow> calls_ok (fst out) \<and>
     mset (settled_calls (snd out)) + mset (pending_calls (fst out)) = mset (pending_calls c) + mset new"

lemma settled_simps [simp]:
  "settled_calls [] = []" "settled_calls (SxSettle k r # fx) = k # settled_calls fx"
  "settled_calls (SxSetTimer t d # fx) = settled_calls fx" "settled_calls (SxClearTimer t # fx) = settled_calls fx"
  "settled_calls (SxSend ws m # fx) = settled_calls fx" "settled_calls (SxOpen ws u # fx) = settled_calls fx"
  "settled_calls (SxCloseWs ws n why # fx) = settled_calls fx" "settled_calls (SxConnected # fx) = settled_calls fx"
  "settled_calls (SxConnectFailed e # fx) = settled_calls fx" "settled_calls (fx1 @ fx2) = settled_calls fx1 @ settled_calls fx2"
  by (simp_all add: settled_calls_def)

lemma mset_delete:
  assumes "jm_ok m" and "jm_get m k = Some v"
  shows "mset (map f m) = add_mset (f (k, v)) (mset (map f (jm_delete k m)))"
  using assms
proof (induction m)
  case Nil
  then show ?case by simp
next
  case (Cons p m)
  obtain a b where p: "p = (a, b)" by fastforce
  have ok: "jm_ok m" and fresh: "jm_get m a = None"
    using Cons.prems(1) p by (auto simp: jm_ok_def map_of_eq_None_iff)
  show ?case
  proof (cases "a = k")
    case True
    then show ?thesis using Cons.prems(2) p fresh by (simp add: jm_delete_absent)
  next
    case False
    then show ?thesis using Cons ok p by (simp add: add_mset_commute)
  qed
qed

lemma timer_call:
  assumes "calls_ok c" and "jm_get (tl_timers c) t = Some i"
  obtains pc where "jm_get (tl_pending c) i = Some pc" "pc_timer pc = t"
  using assms unfolding calls_ok_def by blast

lemma mset_chain: "A + P = Q + N \<Longrightarrow> B + R = P + M \<Longrightarrow> A + B + R = Q + (N + M)" for A :: "'a multiset"
  by (metis add.assoc)

text \<open>Removing a call with its timer, as an answer, a timeout or a close does.\<close>

lemma calls_ok_remove:
  assumes "calls_ok c" and "jm_get (tl_pending c) i = Some pc"
  shows "calls_ok (c\<lparr>tl_pending := jm_delete i (tl_pending c), tl_timers := jm_delete (pc_timer pc) (tl_timers c)\<rparr>)"
    and "mset (pending_calls c) = add_mset (pc_call pc)
      (mset (pending_calls (c\<lparr>tl_pending := jm_delete i (tl_pending c), tl_timers := jm_delete (pc_timer pc) (tl_timers c)\<rparr>)))"
proof -
  have other: "pc_timer pc' \<noteq> pc_timer pc" if "jm_get (tl_pending c) j = Some pc'" "j \<noteq> i" for j pc'
    using assms that unfolding calls_ok_def by (metis option.inject)
  have same: "j \<noteq> i" if "jm_get (tl_timers c) t = Some j" "t \<noteq> pc_timer pc" for t j
    using assms that unfolding calls_ok_def by (metis option.inject)
  show "calls_ok (c\<lparr>tl_pending := jm_delete i (tl_pending c), tl_timers := jm_delete (pc_timer pc) (tl_timers c)\<rparr>)"
    using assms other same unfolding calls_ok_def by (auto simp: delete_conv' split: if_splits)
  show "mset (pending_calls c) = add_mset (pc_call pc)
      (mset (pending_calls (c\<lparr>tl_pending := jm_delete i (tl_pending c), tl_timers := jm_delete (pc_timer pc) (tl_timers c)\<rparr>)))"
    using mset_delete [OF _ assms(2), of "\<lambda>(_, pc). pc_call pc"] assms(1) by (simp add: pending_calls_def calls_ok_def)
qed

lemma calls_ok_fields [simp]:
  "calls_ok (c\<lparr>tl_ws := w\<rparr>) = calls_ok c" "calls_ok (c\<lparr>tl_sessionId := s, tl_connected := b\<rparr>) = calls_ok c"
  "calls_ok (c\<lparr>tl_ws := w, tl_connected := b, tl_sessionId := s\<rparr>) = calls_ok c"
  "pending_calls (c\<lparr>tl_ws := w\<rparr>) = pending_calls c" "pending_calls (c\<lparr>tl_sessionId := s, tl_connected := b\<rparr>) = pending_calls c"
  "pending_calls (c\<lparr>tl_ws := w, tl_connected := b, tl_sessionId := s\<rparr>) = pending_calls c"
  by (simp_all add: calls_ok_def pending_calls_def)

lemma message_kept:
  assumes "calls_ok c"
  shows "calls_kept [] c (TunnelClient_onMessage m c)"
  using assms calls_ok_remove [OF assms]
  by (auto simp: TunnelClient_onMessage_def calls_kept_def split: option.split bind_splits)

lemma timer_kept:
  assumes "calls_ok c"
  shows "calls_kept [] c (call_timer t c)"
proof (cases "jm_get (tl_timers c) t")
  case None
  then show ?thesis using assms by (simp add: call_timer_def calls_kept_def)
next
  case (Some i)
  then obtain pc where pc: "jm_get (tl_pending c) i = Some pc" "pc_timer pc = t"
    using timer_call [OF assms] by blast
  then show ?thesis
    using Some calls_ok_remove [OF assms pc(1)] by (simp add: call_timer_def calls_kept_def)
qed

lemma request_kept:
  assumes "calls_ok c" and "event_fresh (SeRequest now call requestId timer local p) c"
  shows "calls_kept [call] c (TunnelClient_request pf now call requestId timer local p c)"
proof -
  let ?c = "c\<lparr>tl_pending := jm_set requestId \<lparr>pc_call = call, pc_timer = timer\<rparr> (tl_pending c),
                    tl_timers := jm_set timer requestId (tl_timers c)\<rparr>"
  have "jm_get (tl_timers c) t \<noteq> Some requestId" for t
    using timer_call [OF assms(1), of t requestId] assms(2) by (auto simp: event_fresh_def)
  then have "calls_ok ?c"
    using assms unfolding calls_ok_def event_fresh_def by (auto simp: update_conv' split: if_splits)
  moreover have "pending_calls ?c = pending_calls c @ [call]"
    using assms(2) by (simp add: event_fresh_def pending_calls_def jm_set_absent)
  ultimately show ?thesis
    using assms(1) by (auto simp: TunnelClient_request_def calls_kept_def split: option.split)
qed

lemma fold_delete_timers:
  "jm_get (fold (\<lambda>(_, pc). jm_delete (pc_timer pc)) ps ts) t =
     (if t \<in> (\<lambda>(_, pc). pc_timer pc) ` set ps then None else jm_get ts t)"
  by (induction ps arbitrary: ts) (auto simp: delete_conv')

lemma jm_ok_fold_delete: "jm_ok ts \<Longrightarrow> jm_ok (fold (\<lambda>(_, pc). jm_delete (pc_timer pc)) ps ts)"
  by (induction ps arbitrary: ts) auto

lemma close_calls_kept:
  assumes "calls_ok c"
  shows "calls_kept [] c (TunnelClient_onclose c)" and "tl_pending (fst (TunnelClient_onclose c)) = []"
proof -
  have "jm_get (fold (\<lambda>(_, pc). jm_delete (pc_timer pc)) (tl_pending c) (tl_timers c)) t = None" for t
  proof (cases "jm_get (tl_timers c) t")
    case (Some i)
    then obtain pc where "jm_get (tl_pending c) i = Some pc" "pc_timer pc = t" using timer_call [OF assms] by blast
    then have "t \<in> (\<lambda>(_, pc). pc_timer pc) ` set (tl_pending c)" by (force dest: map_of_SomeD)
    then show ?thesis by (simp add: fold_delete_timers)
  qed (simp add: fold_delete_timers)
  moreover have "settled_calls (concat (map (\<lambda>(_, pc). [SxClearTimer (pc_timer pc), SxSettle (pc_call pc) (Rejected closed_error)]) ps))
      = map (\<lambda>(_, pc). pc_call pc) ps" for ps :: "(string, PendingCall) jsmap"
    by (induction ps) auto
  ultimately show "calls_kept [] c (TunnelClient_onclose c)"
    using assms by (simp add: TunnelClient_onclose_def calls_kept_def calls_ok_def pending_calls_def jm_ok_fold_delete)
  show "tl_pending (fst (TunnelClient_onclose c)) = []" by (simp add: TunnelClient_onclose_def)
qed

lemma sdk_step_kept:
  assumes "calls_ok c" and "event_fresh ev c"
  shows "calls_kept (started [ev]) c (sdk_step pf ev c)"
proof (cases ev)
  case (SeMessage parsed)
  have "calls_kept [] c (TunnelClient_onmessage parsed c)"
    using message_kept [OF assms(1)] assms(1)
    by (auto simp: TunnelClient_onmessage_def calls_kept_def split: sum.split AnyHubMsg.split)
  then show ?thesis by (simp add: SeMessage sdk_step_def started_def)
next
  case (SeRequest now call requestId timer local p)
  then show ?thesis using request_kept [OF assms(1)] assms(2) by (simp add: sdk_step_def started_def)
qed (use assms close_calls_kept timer_kept in
    \<open>auto simp: sdk_step_def started_def TunnelClient_connect_def TunnelClient_onopen_def TunnelClient_onerror_def
      disconnect_def calls_kept_def split: option.split\<close>)

lemma sdk_run_kept:
  "calls_ok c \<Longrightarrow> run_fresh pf evs c \<Longrightarrow> calls_kept (started evs) c (sdk_run pf evs c)"
proof (induction evs arbitrary: c)
  case Nil
  then show ?case by (simp add: calls_kept_def started_def)
next
  case (Cons ev evs)
  have one: "calls_kept (started [ev]) c (sdk_step pf ev c)" using sdk_step_kept Cons.prems by simp
  then have "calls_kept (started evs) (fst (sdk_step pf ev c)) (sdk_run pf evs (fst (sdk_step pf ev c)))"
    using Cons by (simp add: calls_kept_def)
  with one show ?case
    by (simp add: calls_kept_def split_beta started_def) (rule mset_chain, simp_all)
qed

text \<open>
  C35: whatever happens to the connection, every call of the SDK is settled exactly once or still pending, each pending
  call has its own armed timer, and after a close none is pending: no promise of a call is left hanging and none is
  settled twice.
\<close>

theorem sdk_calls_settled_once:
  assumes "run_fresh pf evs (TunnelClient_new config)" and "distinct (started evs)"
    and "sdk_run pf evs (TunnelClient_new config) = (c, fx)"
  shows "distinct (settled_calls fx @ pending_calls c) \<and> set (settled_calls fx @ pending_calls c) = set (started evs) \<and>
    (\<forall>i pc. jm_get (tl_pending c) i = Some pc \<longrightarrow> jm_get (tl_timers c) (pc_timer pc) = Some i) \<and>
    pending_calls (fst (sdk_step pf SeClose c)) = []"
proof -
  have "calls_ok (TunnelClient_new config)" by (simp add: calls_ok_def TunnelClient_new_def)
  from sdk_run_kept [OF this assms(1)] assms(3)
  have ok: "calls_ok c" and eq: "mset (settled_calls fx @ pending_calls c) = mset (started evs)"
    by (simp_all add: calls_kept_def) (simp add: pending_calls_def TunnelClient_new_def)
  have "distinct (settled_calls fx @ pending_calls c) \<and> set (settled_calls fx @ pending_calls c) = set (started evs)"
    using eq assms(2) by (metis mset_eq_imp_distinct_iff mset_eq_setD)
  moreover have "pending_calls (fst (sdk_step pf SeClose c)) = []"
    using close_calls_kept(2) [OF ok] by (simp add: sdk_step_def pending_calls_def)
  ultimately show ?thesis using ok unfolding calls_ok_def by blast
qed

definition demo_sdk_config :: TunnelClientConfig where
  "demo_sdk_config = \<lparr>tc_hubUrl = ''wss://hub'', tc_keyId = ''k'', tc_secret = ''raw'', tc_label = None, tc_timeout = None,
     tc_localDiscovery = False\<rparr>"

definition demo_call :: request_params where
  "demo_call = \<lparr>rq_meth = ''GET'', rq_path = ''/'', rq_query = None, rq_headers = [], rq_body = None, rq_label = None,
     rq_timeout = None\<rparr>"

definition demo_events :: "sdk_event list" where
  "demo_events = [SeConnect 3, SeMessage (Inr (MSdkRegistered \<lparr>sd_sessionId = ''s''\<rparr>)), SeRequest 0 1 ''a'' 7 None demo_call,
     SeRequest 0 2 ''b'' 8 None demo_call, SeTimer 7, SeTimer 7]"

text \<open>Two calls; the timer of the first fires, and cannot fire again.\<close>

theorem sdk_calls_settled_once_witness:
  "settled_calls (snd (sdk_run demo_platform demo_events (TunnelClient_new demo_sdk_config))) = [1] \<and>
   distinct (settled_calls (snd (sdk_run demo_platform demo_events (TunnelClient_new demo_sdk_config))) @
     pending_calls (fst (sdk_run demo_platform demo_events (TunnelClient_new demo_sdk_config))))"
proof -
  note defs = demo_events_def demo_sdk_config_def TunnelClient_new_def sdk_step_def TunnelClient_connect_def
    TunnelClient_onmessage_def TunnelClient_request_def call_timer_def event_fresh_def started_def
  have "run_fresh demo_platform demo_events (TunnelClient_new demo_sdk_config)" and "distinct (started demo_events)"
    by (simp_all add: defs)
  from sdk_calls_settled_once [OF this surjective_pairing]
  have "distinct (settled_calls (snd (sdk_run demo_platform demo_events (TunnelClient_new demo_sdk_config))) @
     pending_calls (fst (sdk_run demo_platform demo_events (TunnelClient_new demo_sdk_config))))" by blast
  moreover have "settled_calls (snd (sdk_run demo_platform demo_events (TunnelClient_new demo_sdk_config))) = [1]"
    by (simp add: defs)
  ultimately show ?thesis by blast
qed

section \<open>The hub and the SDK's signature\<close>

text \<open>Hub and SDK build the same canonical string.\<close>

lemma sdk_canonical:
  "vp_signature (sdk_request_params (sdk_request_message pf now requestId config p) ip) =
     pf_hmac pf (tc_secret config) (request_canonical pf (sdk_request_params (sdk_request_message pf now requestId config p) ip))"
  "vp_signature (sdk_register_params (sdk_register_message pf now requestId config) ip) =
     pf_hmac pf (tc_secret config) (request_canonical pf (sdk_register_params (sdk_register_message pf now requestId config) ip))"
  by (simp_all add: sdk_request_params_def sdk_request_message_def sdk_register_params_def sdk_register_message_def
      request_canonical_def signCanonical_def param_body_def Let_def)

lemma sdk_signature_valid_iff:
  assumes "ck_previousSecretHash cached = None" and "vp_signature q = pf_hmac pf secret (request_canonical pf q)"
  shows "signature_valid pf cached t q \<longleftrightarrow>
    hex_decode (pf_hmac pf secret (request_canonical pf q)) =
    hex_decode (pf_hmac pf (ck_secretHash cached) (request_canonical pf q))"
  using assms by (auto simp: signature_valid_iff)

lemma wrong_key_refused:
  assumes separate: "\<And>m. hex_decode (pf_hmac pf secret m) \<noteq> hex_decode (pf_hmac pf hash m)"
    and loaded: "\<And>cached r1. load_cached rd loadKey (at_start tm) (vp_keyId q) r = (Some cached, r1) \<Longrightarrow>
      ck_secretHash cached = hash \<and> ck_previousSecretHash cached = None"
    and signed: "vp_signature q = pf_hmac pf secret (request_canonical pf q)"
  shows "\<not> gw_valid (fst (ValidateApiKey_execute pf rd loadKey tm q r))"
proof
  assume "gw_valid (fst (ValidateApiKey_execute pf rd loadKey tm q r))"
  then obtain cached r1 where "load_cached rd loadKey (at_start tm) (vp_keyId q) r = (Some cached, r1)"
    and "key_failure pf cached (at_check tm) q = None" by (rule execute_accepts)
  then show False
    using loaded signed separate sdk_signature_valid_iff [of cached q pf secret] by (auto simp: key_failure_None)
qed

text \<open>
  the SDK, configured with the raw secret as its documentation asks, is never admitted. The hub verifies with the
  stored hash of the secret, the SDK signs with the secret itself; where the two keys give different codes, every registration and every request
  is refused, whatever the rest of the state. Signing with the hash is accepted by the signature check.
\<close>

theorem sdk_raw_secret_refused:
  assumes separate: "\<forall>m. hex_decode (pf_hmac pf raw m) \<noteq> hex_decode (pf_hmac pf (pf_hmac pf pepper raw) m)"
    and loaded: "\<forall>cached r1. load_cached rd loadKey (at_start tm) (tc_keyId config) r = (Some cached, r1) \<longrightarrow>
      ck_secretHash cached = pf_hmac pf pepper raw \<and> ck_previousSecretHash cached = None"
    and "tc_secret config = raw"
  shows "\<exists>e1 e2. fst (authenticateSdkRegister pf rd loadKey now tm (sdk_register_message pf ts requestId config) ip r) = Inl e1 \<and>
      fst (authenticateRequest pf rd loadKey now tm (sdk_request_message pf ts requestId config p) ip r) = Inl e2 \<and>
      (\<forall>cached. ck_secretHash cached = pf_hmac pf pepper raw \<longrightarrow>
        signature_valid pf cached t (sdk_request_params
          (sdk_request_message pf ts requestId (config\<lparr>tc_secret := pf_hmac pf pepper raw\<rparr>) p) ip))"
proof -
  have refused: "\<exists>e. fst (validated k (ValidateApiKey_execute pf rd loadKey tm q r)) = Inl e"
    if "vp_keyId q = tc_keyId config" "vp_signature q = pf_hmac pf raw (request_canonical pf q)" for k q
  proof -
    have "\<not> gw_valid (fst (ValidateApiKey_execute pf rd loadKey tm q r))"
      using loaded that by (intro wrong_key_refused [of pf raw "pf_hmac pf pepper raw"]) (use separate in auto)
    then show ?thesis
      by (auto simp: validated_def gw_valid_def auth_error_def split: prod.split GatewayValidationResult.split)
  qed
  have keys: "vp_keyId (sdk_register_params (sdk_register_message pf ts requestId config) ip) = tc_keyId config"
    "vp_keyId (sdk_request_params (sdk_request_message pf ts requestId config p) ip) = tc_keyId config"
    by (simp_all add: sdk_register_params_def sdk_register_message_def sdk_request_params_def sdk_request_message_def Let_def)
  have "\<exists>e1. fst (authenticateSdkRegister pf rd loadKey now tm (sdk_register_message pf ts requestId config) ip r) = Inl e1"
    using refused [OF keys(1)] sdk_canonical(2) assms(3)
    by (auto simp: authenticateSdkRegister_def split: sum.split)
  moreover have "\<exists>e2. fst (authenticateRequest pf rd loadKey now tm (sdk_request_message pf ts requestId config p) ip r) = Inl e2"
    using refused [OF keys(2)] sdk_canonical(1) assms(3)
    by (auto simp: authenticateRequest_def split: sum.split)
  moreover have "signature_valid pf cached t (sdk_request_params
          (sdk_request_message pf ts requestId (config\<lparr>tc_secret := pf_hmac pf pepper raw\<rparr>) p) ip)"
    if "ck_secretHash cached = pf_hmac pf pepper raw" for cached
    using that sdk_canonical(1) [of pf ts requestId "config\<lparr>tc_secret := pf_hmac pf pepper raw\<rparr>" p ip]
    by (auto simp: signature_valid_iff)
  ultimately show ?thesis by blast
qed

definition demo_keyed_platform :: platform where
  "demo_keyed_platform = demo_platform\<lparr>pf_hmac := (\<lambda>k d. if k = ''raw'' then ''aa'' else ''bb'')\<rparr>"

theorem sdk_raw_secret_refused_witness:
  "\<exists>e. fst (authenticateRequest demo_keyed_platform mem_redis (\<lambda>_. Some (demo_row\<lparr>row_secretHash := ''bb''\<rparr>)) 0 (demo_at 0)
     (sdk_request_message demo_keyed_platform 0 ''q'' demo_sdk_config demo_call) [] []) = Inl e"
proof -
  have hmac: "pf_hmac demo_keyed_platform ''raw'' m = ''aa''" "pf_hmac demo_keyed_platform ''pep'' m = ''bb''"
    "pf_hmac demo_keyed_platform ''bb'' m = ''bb''" for m
    by (simp_all add: demo_keyed_platform_def)
  have "hex_decode ''aa'' \<noteq> hex_decode ''bb''" by code_simp
  then have separate: "\<forall>m. hex_decode (pf_hmac demo_keyed_platform ''raw'' m) \<noteq>
      hex_decode (pf_hmac demo_keyed_platform (pf_hmac demo_keyed_platform ''pep'' ''raw'') m)"
    by (simp add: hmac)
  have loaded: "\<forall>cached r1. load_cached mem_redis (\<lambda>_. Some (demo_row\<lparr>row_secretHash := ''bb''\<rparr>)) (at_start (demo_at 0))
        (tc_keyId demo_sdk_config) [] = (Some cached, r1) \<longrightarrow>
      ck_secretHash cached = pf_hmac demo_keyed_platform ''pep'' ''raw'' \<and> ck_previousSecretHash cached = None"
    by (auto simp: hmac load_cached_def mem_redis_def loadFromCache_def rowToCache_def demo_row_def demo_at_def Let_def
        split: option.splits prod.splits)
  have "tc_secret demo_sdk_config = ''raw''" by (simp add: demo_sdk_config_def)
  from sdk_raw_secret_refused [where r = "[]" and config = demo_sdk_config and tm = "demo_at 0" and rd = mem_redis
      and loadKey = "\<lambda>_. Some (demo_row\<lparr>row_secretHash := ''bb''\<rparr>)" and now = 0 and ts = 0 and requestId = "''q''"
      and p = demo_call and ip = "[]", OF separate loaded this]
  show ?thesis by blast
qed

end
