(* ===== verification/KeyEntity.thy ===== *)
theory KeyEntity
  imports ApiKeys ResponseCache
begin

text \<open>
  \<^verbatim>\<open>apps/api/src/modules/key-management\<close>: the aggregate \<^verbatim>\<open>ApiKey\<close> (\<^verbatim>\<open>apiKey.entities.ts\<close>), its
  constants, and the payload with which the management plane warms the gateway's cache.

  A \<^verbatim>\<open>Date\<close> is its number of milliseconds; \<^verbatim>\<open>null\<close> and \<^verbatim>\<open>undefined\<close> fields are \<open>None\<close>. The
  random strings of \<^verbatim>\<open>crypto\<close> are arguments. The methods that mutate the private \<^verbatim>\<open>props\<close> return
  the new record; a method that throws returns \<open>Inl\<close>.
\<close>

section \<open>Constants\<close>

datatype ApiKeyStatus = ACTIVE | REVOKED | EXPIRED

datatype ApiKeyEnvironment = ENV_DEV | ENV_PROD

definition ApiKeyStatus_name :: "ApiKeyStatus \<Rightarrow> string" where
  "ApiKeyStatus_name s =
     (case s of ACTIVE \<Rightarrow> ''ACTIVE'' | REVOKED \<Rightarrow> ''REVOKED'' | EXPIRED \<Rightarrow> ''EXPIRED'')"

definition ApiKeyEnvironment_name :: "ApiKeyEnvironment \<Rightarrow> string" where
  "ApiKeyEnvironment_name e = (case e of ENV_DEV \<Rightarrow> ''DEV'' | ENV_PROD \<Rightarrow> ''PROD'')"

definition WILDCARD :: string where "WILDCARD = ''*''"

definition ApiScope_values :: "string list" where
  "ApiScope_values =
     [''tunnel:connect'', ''tunnel:read'', ''tunnel:write'', ''webhook:receive'', ''webhook:inspect'',
      ''metrics:read'', WILDCARD]"

definition ROTATION_GRACE_MS :: time where "ROTATION_GRACE_MS = 60 * 60 * 1000"

definition KEY_PREFIX :: "ApiKeyEnvironment \<Rightarrow> string" where
  "KEY_PREFIX e = (case e of ENV_DEV \<Rightarrow> ''vhyxvoid_dev_'' | ENV_PROD \<Rightarrow> ''vhyxvoid_live_'')"

definition RoleLevel_OWNER :: nat where "RoleLevel_OWNER = 100"
definition RoleLevel_ADMIN :: nat where "RoleLevel_ADMIN = 70"
definition RoleLevel_MEMBER :: nat where "RoleLevel_MEMBER = 10"

definition canListAll :: "nat \<Rightarrow> bool" where "canListAll level \<longleftrightarrow> level \<ge> RoleLevel_ADMIN"
definition canRevokeAny :: "nat \<Rightarrow> bool" where "canRevokeAny level \<longleftrightarrow> level \<ge> RoleLevel_ADMIN"
definition canRotateAny :: "nat \<Rightarrow> bool" where "canRotateAny level \<longleftrightarrow> level \<ge> RoleLevel_ADMIN"
definition canManageScopesAny :: "nat \<Rightarrow> bool" where
  "canManageScopesAny level \<longleftrightarrow> level \<ge> RoleLevel_ADMIN"
definition canViewUsage :: "nat \<Rightarrow> bool" where "canViewUsage level \<longleftrightarrow> level \<ge> RoleLevel_MEMBER"

section \<open>The aggregate\<close>

datatype app_error =
  NotFoundError string
| ConflictError string
| ValidationError string
| UnauthorizedError string
| ForbiddenError string
| PlanLimitExceededError enat nat string Plan
| PlainError string \<comment> \<open>\<^verbatim>\<open>new Error(message)\<close>\<close>
| Rejected \<comment> \<open>a promise of the database or another service is rejected\<close>

record ApiKeyProps =
  ak_id :: string
  ak_accountId :: string
  ak_createdById :: string
  ak_keyId :: string
  ak_name :: string
  ak_description :: "string option"
  ak_environment :: ApiKeyEnvironment
  ak_secretHash :: string
  ak_previousSecretHash :: "string option"
  ak_rotationGraceEndsAt :: "time option"
  ak_scopes :: "string list"
  ak_status :: ApiKeyStatus
  ak_expiresAt :: "time option"
  ak_lastUsedAt :: "time option"
  ak_revokedAt :: "time option"
  ak_revokedById :: "string option"
  ak_createdAt :: time
  ak_updatedAt :: time

record ApiKeyPublicDTO =
  dto_id :: string
  dto_keyId :: string
  dto_name :: string
  dto_description :: "string option"
  dto_environment :: ApiKeyEnvironment
  dto_scopes :: "string list"
  dto_status :: ApiKeyStatus
  dto_expiresAt :: "time option"
  dto_lastUsedAt :: "time option"
  dto_createdAt :: time
  dto_updatedAt :: time

definition hashSecret :: "platform \<Rightarrow> string \<Rightarrow> string \<Rightarrow> string" where
  "hashSecret pf rawSecret pepper = pf_hmac pf pepper rawSecret"

text \<open>What \<^verbatim>\<open>crypto.randomBytes\<close> and \<^verbatim>\<open>crypto.randomUUID\<close> deliver to one call.\<close>

record randomness =
  rnd_uuid :: string
  rnd_keyHex :: string
  rnd_secretHex :: string

record CreateKeyParams =
  kp_accountId :: string
  kp_createdById :: string
  kp_name :: string
  kp_description :: "string option"
  kp_environment :: ApiKeyEnvironment
  kp_scopes :: "string list"
  kp_expiresAt :: "time option"

definition ApiKey_create ::
  "platform \<Rightarrow> string \<Rightarrow> time \<Rightarrow> randomness \<Rightarrow> CreateKeyParams \<Rightarrow> ApiKeyProps \<times> string" where
  "ApiKey_create pf pepper now rnd params =
     (let rawKeyId = KEY_PREFIX (kp_environment params) @ rnd_keyHex rnd;
          rawSecret = rnd_secretHex rnd;
          secretHash = hashSecret pf rawSecret pepper
      in (\<lparr>ak_id = rnd_uuid rnd,
           ak_accountId = kp_accountId params,
           ak_createdById = kp_createdById params,
           ak_keyId = rawKeyId,
           ak_name = js_trim (kp_name params),
           ak_description = map_option js_trim (kp_description params),
           ak_environment = kp_environment params,
           ak_secretHash = secretHash,
           ak_previousSecretHash = None,
           ak_rotationGraceEndsAt = None,
           ak_scopes = kp_scopes params,
           ak_status = ACTIVE,
           ak_expiresAt = kp_expiresAt params,
           ak_lastUsedAt = None,
           ak_revokedAt = None,
           ak_revokedById = None,
           ak_createdAt = now,
           ak_updatedAt = now\<rparr>, rawSecret))"

definition isExpired :: "time \<Rightarrow> ApiKeyProps \<Rightarrow> bool" where
  "isExpired now k = (case ak_expiresAt k of None \<Rightarrow> False | Some e \<Rightarrow> e \<le> now)"

definition isActive :: "time \<Rightarrow> ApiKeyProps \<Rightarrow> bool" where
  "isActive now k \<longleftrightarrow> ak_status k = ACTIVE \<and> \<not> isExpired now k"

definition isRevoked :: "ApiKeyProps \<Rightarrow> bool" where
  "isRevoked k \<longleftrightarrow> ak_status k = REVOKED"

definition isInRotationGrace :: "time \<Rightarrow> ApiKeyProps \<Rightarrow> bool" where
  "isInRotationGrace now k = (case ak_rotationGraceEndsAt k of None \<Rightarrow> False | Some e \<Rightarrow> e > now)"

definition hasScope :: "string \<Rightarrow> ApiKeyProps \<Rightarrow> bool" where
  "hasScope scope k \<longleftrightarrow> WILDCARD \<in> set (ak_scopes k) \<or> scope \<in> set (ak_scopes k)"

definition isOwnedBy :: "string \<Rightarrow> ApiKeyProps \<Rightarrow> bool" where
  "isOwnedBy userId k \<longleftrightarrow> ak_createdById k = userId"

definition ApiKey_rotate ::
  "platform \<Rightarrow> string \<Rightarrow> string \<Rightarrow> time \<Rightarrow> ApiKeyProps \<Rightarrow> app_error + (string \<times> ApiKeyProps)" where
  "ApiKey_rotate pf rawSecret pepper now k =
     (if isRevoked k then Inl (ForbiddenError ''Cannot rotate a revoked API key'')
      else
        (let newHash = hashSecret pf rawSecret pepper
         in Inr (rawSecret, k\<lparr>ak_previousSecretHash := Some (ak_secretHash k),
                              ak_secretHash := newHash,
                              ak_rotationGraceEndsAt := Some (now + ROTATION_GRACE_MS),
                              ak_updatedAt := now\<rparr>)))"

definition ApiKey_clearRotationGrace :: "time \<Rightarrow> ApiKeyProps \<Rightarrow> ApiKeyProps" where
  "ApiKey_clearRotationGrace now k =
     k\<lparr>ak_previousSecretHash := None, ak_rotationGraceEndsAt := None, ak_updatedAt := now\<rparr>"

definition ApiKey_revoke :: "string \<Rightarrow> time \<Rightarrow> ApiKeyProps \<Rightarrow> ApiKeyProps" where
  "ApiKey_revoke revokedById now k =
     (if isRevoked k then k
      else k\<lparr>ak_status := REVOKED, ak_revokedAt := Some now, ak_revokedById := Some revokedById,
             ak_updatedAt := now\<rparr>)"

definition ApiKey_markExpired :: "time \<Rightarrow> ApiKeyProps \<Rightarrow> ApiKeyProps" where
  "ApiKey_markExpired now k = k\<lparr>ak_status := EXPIRED, ak_updatedAt := now\<rparr>"

definition ApiKey_update :: "string option \<Rightarrow> string option \<Rightarrow> time \<Rightarrow> ApiKeyProps \<Rightarrow> ApiKeyProps" where
  "ApiKey_update name description now k =
     (let k1 = (case name of
            Some n \<Rightarrow> if js_trim n \<noteq> [] then k\<lparr>ak_name := js_trim n\<rparr> else k
          | None \<Rightarrow> k);
          k2 = (case description of
            Some d \<Rightarrow> k1\<lparr>ak_description := Some (js_trim d)\<rparr>
          | None \<Rightarrow> k1)
      in k2\<lparr>ak_updatedAt := now\<rparr>)"

definition ApiKey_updateScopes :: "string list \<Rightarrow> time \<Rightarrow> ApiKeyProps \<Rightarrow> ApiKeyProps" where
  "ApiKey_updateScopes scopes now k = k\<lparr>ak_scopes := scopes, ak_updatedAt := now\<rparr>"

definition ApiKey_touchLastUsed :: "time \<Rightarrow> ApiKeyProps \<Rightarrow> ApiKeyProps" where
  "ApiKey_touchLastUsed now k = k\<lparr>ak_lastUsedAt := Some now, ak_updatedAt := now\<rparr>"

text \<open>\<^verbatim>\<open>timingSafeEqual\<close> throws on buffers of different lengths, which is caught as \<open>False\<close>.\<close>

definition verify_with :: "platform \<Rightarrow> string \<Rightarrow> string \<Rightarrow> string \<Rightarrow> bool" where
  "verify_with pf canonical signature hash =
     (let a = hex_decode (pf_hmac pf hash canonical); b = hex_decode signature
      in if length a \<noteq> length b then False else timingSafeEqual a b)"

definition ApiKey_verifySignature :: "platform \<Rightarrow> string \<Rightarrow> string \<Rightarrow> time \<Rightarrow> ApiKeyProps \<Rightarrow> bool" where
  "ApiKey_verifySignature pf canonical signature now k =
     (if verify_with pf canonical signature (ak_secretHash k) then True
      else (case ak_previousSecretHash k of
          Some prev \<Rightarrow> prev \<noteq> [] \<and> isInRotationGrace now k \<and> verify_with pf canonical signature prev
        | None \<Rightarrow> False))"

definition ApiKey_toPublicDTO :: "ApiKeyProps \<Rightarrow> ApiKeyPublicDTO" where
  "ApiKey_toPublicDTO k = \<lparr>
     dto_id = ak_id k, dto_keyId = ak_keyId k, dto_name = ak_name k,
     dto_description = ak_description k, dto_environment = ak_environment k,
     dto_scopes = ak_scopes k, dto_status = ak_status k, dto_expiresAt = ak_expiresAt k,
     dto_lastUsedAt = ak_lastUsedAt k, dto_createdAt = ak_createdAt k, dto_updatedAt = ak_updatedAt k\<rparr>"

section \<open>The payload for the gateway's cache\<close>

definition buildCachePayload :: "ApiKeyProps \<Rightarrow> enat \<Rightarrow> string \<Rightarrow> CachedKeyData" where
  "buildCachePayload k rateLimit accountStatus = \<lparr>
     ck_keyId = ak_keyId k,
     ck_secretHash = ak_secretHash k,
     ck_previousSecretHash = ak_previousSecretHash k,
     ck_rotationGraceEndsAt = ak_rotationGraceEndsAt k,
     ck_status = ApiKeyStatus_name (ak_status k),
     ck_accountId = ak_accountId k,
     ck_accountStatus = accountStatus,
     ck_scopes = ak_scopes k,
     ck_rateLimitPerMinute = LInt (case rateLimit of enat n \<Rightarrow> int n | \<infinity> \<Rightarrow> - 1),
     ck_expiresAt = ak_expiresAt k\<rparr>"

section \<open>Agreement with the gateway\<close>

text \<open>
  The row that the gateway's loader selects for a key: the same columns, with the account's status
  joined in. The rate limit is filled in by the loader.
\<close>

definition gateway_row :: "ApiKeyProps \<Rightarrow> string \<Rightarrow> ApiKeyRow" where
  "gateway_row k accountStatus = \<lparr>
     row_keyId = ak_keyId k, row_secretHash = ak_secretHash k,
     row_previousSecretHash = ak_previousSecretHash k,
     row_rotationGraceEndsAt = ak_rotationGraceEndsAt k,
     row_status = ApiKeyStatus_name (ak_status k), row_accountId = ak_accountId k,
     row_accountStatus = accountStatus, row_scopes = ak_scopes k, row_expiresAt = ak_expiresAt k,
     row_rateLimitPerMinute = LOther\<rparr>"

lemma status_name_revoked [simp]: "ApiKeyStatus_name s = ''REVOKED'' \<longleftrightarrow> s = REVOKED"
  by (cases s) (simp_all add: ApiKeyStatus_name_def)

lemma verify_with_iff:
  "verify_with pf canonical signature hash \<longleftrightarrow>
     hex_decode signature = hex_decode (pf_hmac pf hash canonical)"
  by (auto simp: verify_with_def Let_def timingSafeEqual_def)

lemma verifySignature_gateway:
  "ApiKey_verifySignature pf (request_canonical pf p) (vp_signature p) now k =
     signature_valid pf (buildCachePayload k rl st) now p"
  by (auto simp: ApiKey_verifySignature_def verify_with_iff signature_valid_iff buildCachePayload_def
      isInRotationGrace_def split: option.splits)

lemma ckData_scopes:
  "''*'' \<in> set (ck_scopes (buildCachePayload k rl st)) \<or> s \<in> set (ck_scopes (buildCachePayload k rl st))
     \<longleftrightarrow> hasScope s k"
  by (simp add: hasScope_def buildCachePayload_def WILDCARD_def)

text \<open>
  C34: The management plane and the gateway read a key the same way, up to the moment of expiry. For the cache
  entry that the management plane writes, the gateway's checks pass exactly when the entity calls the key
  active, the account may connect, the key has the required scope and the entity's own \<^verbatim>\<open>verifySignature\<close>
  accepts the signature over the request's canonical string; with two exceptions, which the gateway lets pass: at the very
  millisecond of the expiry, and a key marked expired whose expiry has not come.
\<close>

theorem management_gateway_agree:
  "key_failure pf (buildCachePayload k rl accountStatus) now p = None \<longleftrightarrow>
     (isActive now k \<or> ak_status k = ACTIVE \<and> ak_expiresAt k = Some now \<or>
      ak_status k = EXPIRED \<and> (case ak_expiresAt k of Some e \<Rightarrow> now \<le> e | None \<Rightarrow> True)) \<and>
     isConnectableAccountStatus accountStatus \<and>
     hasScope (vp_requiredScope p) k \<and>
     ApiKey_verifySignature pf (request_canonical pf p) (vp_signature p) now k"
proof -
  let ?c = "buildCachePayload k rl accountStatus"
  have status: "ck_status ?c = ''REVOKED'' \<longleftrightarrow> isRevoked k"
    and expires: "ck_expiresAt ?c = ak_expiresAt k"
    and account: "ck_accountStatus ?c = accountStatus"
    by (simp_all add: buildCachePayload_def isRevoked_def)
  have live: "(isActive now k \<or> ak_status k = ACTIVE \<and> ak_expiresAt k = Some now \<or>
      ak_status k = EXPIRED \<and> (case ak_expiresAt k of Some e \<Rightarrow> now \<le> e | None \<Rightarrow> True)) \<longleftrightarrow>
     \<not> isRevoked k \<and> \<not> (\<exists>e. ak_expiresAt k = Some e \<and> e < now)"
    by (cases "ak_status k"; cases "ak_expiresAt k") (auto simp: isActive_def isExpired_def isRevoked_def)
  show ?thesis
    unfolding live key_failure_def status expires account ckData_scopes
      verifySignature_gateway [where rl = rl and st = accountStatus]
    by (auto split: option.splits)
qed

text \<open>Warming the cache and loading the row through the gateway's loader give the same entry.\<close>

lemma warm_cache_is_loaded_row:
  assumes "findApiKey (ak_keyId k) = Some (Some (gateway_row k accountStatus))"
    and "resolvePlanForAccount findAccount findSubscription (ak_accountId k) = Some plan"
  shows "map_option rowToCache
      (buildDbApiKeyLoader findApiKey findAccount findSubscription (ak_keyId k)) =
    Some (buildCachePayload k (rateLimitPerMinute (PLAN_LIMITS plan)) accountStatus)"
  using assms
  by (cases plan) (simp_all add: buildDbApiKeyLoader_def gateway_row_def rowToCache_def buildCachePayload_def
      toStoredRateLimit_def toRateLimit_def limit_of_def numeral_eq_enat enat_defs(1) split: enat.splits)

section \<open>Well-formed keys\<close>

text \<open>
  The previous secret and the end of its grace window are present together, a key is revoked
  exactly when the time and the author of the revocation are recorded, and every scope is one of
  the enumeration.
\<close>

definition key_wf :: "ApiKeyProps \<Rightarrow> bool" where
  "key_wf k \<longleftrightarrow>
     (ak_previousSecretHash k = None \<longleftrightarrow> ak_rotationGraceEndsAt k = None) \<and>
     (isRevoked k \<longleftrightarrow> ak_revokedAt k \<noteq> None) \<and>
     (isRevoked k \<longleftrightarrow> ak_revokedById k \<noteq> None) \<and>
     set (ak_scopes k) \<subseteq> set ApiScope_values"

named_theorems key_wf_intros "operations of the aggregate keep it well-formed"

lemma key_wf_create [key_wf_intros]:
  "set (kp_scopes params) \<subseteq> set ApiScope_values \<Longrightarrow> key_wf (fst (ApiKey_create pf pepper now rnd params))"
  by (auto simp: key_wf_def ApiKey_create_def Let_def isRevoked_def)

lemma key_wf_rotate [key_wf_intros]:
  "ApiKey_rotate pf raw pepper now k = Inr (s, k') \<Longrightarrow> key_wf k \<Longrightarrow> key_wf k'"
  by (auto simp: key_wf_def ApiKey_rotate_def Let_def isRevoked_def split: if_splits)

lemma key_wf_clear [key_wf_intros]: "key_wf k \<Longrightarrow> key_wf (ApiKey_clearRotationGrace now k)"
  by (auto simp: key_wf_def ApiKey_clearRotationGrace_def isRevoked_def)

lemma key_wf_revoke [key_wf_intros]: "key_wf k \<Longrightarrow> key_wf (ApiKey_revoke u now k)"
  by (auto simp: key_wf_def ApiKey_revoke_def isRevoked_def)

lemma key_wf_markExpired [key_wf_intros]:
  "key_wf k \<Longrightarrow> \<not> isRevoked k \<Longrightarrow> key_wf (ApiKey_markExpired now k)"
  by (auto simp: key_wf_def ApiKey_markExpired_def isRevoked_def)

lemma entity_ids [simp]:
  "ak_id (ApiKey_revoke u now k) = ak_id k"
  "ak_id (ApiKey_updateScopes scopes now k) = ak_id k"
  "ak_id (ApiKey_markExpired now k) = ak_id k"
  "ak_id (ApiKey_clearRotationGrace now k) = ak_id k"
  "isRevoked (ApiKey_revoke u now k)"
  "isRevoked (ApiKey_clearRotationGrace now k) = isRevoked k"
  "isRevoked (ApiKey_updateScopes scopes now k) = isRevoked k"
  by (simp_all add: ApiKey_revoke_def ApiKey_updateScopes_def ApiKey_markExpired_def
      ApiKey_clearRotationGrace_def isRevoked_def)

lemma update_fields [simp]:
  "ak_previousSecretHash (ApiKey_update n d now k) = ak_previousSecretHash k"
  "ak_rotationGraceEndsAt (ApiKey_update n d now k) = ak_rotationGraceEndsAt k"
  "ak_status (ApiKey_update n d now k) = ak_status k"
  "ak_revokedAt (ApiKey_update n d now k) = ak_revokedAt k"
  "ak_revokedById (ApiKey_update n d now k) = ak_revokedById k"
  "ak_scopes (ApiKey_update n d now k) = ak_scopes k"
  "ak_id (ApiKey_update n d now k) = ak_id k"
  "ak_keyId (ApiKey_update n d now k) = ak_keyId k"
  "ak_accountId (ApiKey_update n d now k) = ak_accountId k"
  "ak_secretHash (ApiKey_update n d now k) = ak_secretHash k"
  by (simp_all add: ApiKey_update_def Let_def split: option.splits)

lemma key_wf_update [key_wf_intros]: "key_wf k \<Longrightarrow> key_wf (ApiKey_update n d now k)"
  by (auto simp: key_wf_def isRevoked_def)

lemma key_wf_updateScopes [key_wf_intros]:
  "key_wf k \<Longrightarrow> set scopes \<subseteq> set ApiScope_values \<Longrightarrow> key_wf (ApiKey_updateScopes scopes now k)"
  by (auto simp: key_wf_def ApiKey_updateScopes_def isRevoked_def)

end
