(* ===== verification/KeyStore.thy ===== *)
theory KeyStore
  imports KeyEntity
begin

text \<open>
  \<^verbatim>\<open>apps/api/src/modules/key-management\<close>: what the use cases stand on. Actions on the world, the
  database and Redis as parameters, the repository \<^verbatim>\<open>PrismaApiKeyRepository\<close> and the part of
  \<^verbatim>\<open>RedisApiKeyCacheService\<close> that stores and invalidates key data.

  The database (Prisma) is a record \<open>key_db\<close> of the queries the code issues over an abstract
  database; \<open>key_db_spec\<close> states what Prisma documents of them: a unique lookup returns the row
  with that identifier, \<^verbatim>\<open>findMany\<close> rows that match, \<^verbatim>\<open>upsert\<close> creates or updates exactly one
  row, \<^verbatim>\<open>updateMany\<close> the rows that match. The rows of a nested relation (the scopes) come back in
  no particular order. A query whose promise is rejected is \<open>None\<close>.

  An action returns a value or an error together with the world it leaves behind, so that what was
  written before an error stays written.
\<close>

section \<open>Actions\<close>

record ('d, 'r) world =
  w_db :: 'd
  w_redis :: 'r

type_synonym ('d, 'r, 'a) action = "('d, 'r) world \<Rightarrow> (app_error + 'a) \<times> ('d, 'r) world"

definition act_return :: "'a \<Rightarrow> ('d, 'r, 'a) action" where
  "act_return x s = (Inr x, s)"

definition act_throw :: "app_error \<Rightarrow> ('d, 'r, 'a) action" where
  "act_throw e s = (Inl e, s)"

definition act_bind :: "('d, 'r, 'a) action \<Rightarrow> ('a \<Rightarrow> ('d, 'r, 'b) action) \<Rightarrow> ('d, 'r, 'b) action" where
  "act_bind m f s = (case m s of (Inl e, s') \<Rightarrow> (Inl e, s') | (Inr x, s') \<Rightarrow> f x s')"

definition act_require :: "bool \<Rightarrow> app_error \<Rightarrow> ('d, 'r, unit) action" where
  "act_require b e = (if b then act_return () else act_throw e)"

definition db_read :: "('d \<Rightarrow> 'a io) \<Rightarrow> ('d, 'r, 'a) action" where
  "db_read f s = (case f (w_db s) of None \<Rightarrow> (Inl Rejected, s) | Some x \<Rightarrow> (Inr x, s))"

definition db_write :: "('d \<Rightarrow> 'd io) \<Rightarrow> ('d, 'r, unit) action" where
  "db_write f s = (case f (w_db s) of None \<Rightarrow> (Inl Rejected, s) | Some d \<Rightarrow> (Inr (), s\<lparr>w_db := d\<rparr>))"

definition act_io :: "'a io \<Rightarrow> ('d, 'r, 'a) action" where
  "act_io x = (case x of None \<Rightarrow> act_throw Rejected | Some v \<Rightarrow> act_return v)"

definition db_count :: "('d \<Rightarrow> (nat \<times> 'd) io) \<Rightarrow> ('d, 'r, nat) action" where
  "db_count f s = (case f (w_db s) of None \<Rightarrow> (Inl Rejected, s) | Some (n, d) \<Rightarrow> (Inr n, s\<lparr>w_db := d\<rparr>))"

text \<open>An interactive transaction: what an action wrote before an error is rolled back. It runs alone; the
  code runs it at the database's default isolation, where other transactions may commit in between, so
  the theories on overlapping calls cut the action itself.\<close>

definition act_tx :: "('d, 'r, 'a) action \<Rightarrow> ('d, 'r, 'a) action" where
  "act_tx m s = (case m s of (Inl e, s') \<Rightarrow> (Inl e, s'\<lparr>w_db := w_db s\<rparr>) | (Inr x, s') \<Rightarrow> (Inr x, s'))"

primrec act_for :: "('a \<Rightarrow> ('d, 'r, unit) action) \<Rightarrow> 'a list \<Rightarrow> ('d, 'r, unit) action" where
  "act_for f [] = act_return ()"
| "act_for f (x # xs) = act_bind (f x) (\<lambda>_. act_for f xs)"

section \<open>Database and environment\<close>

datatype AuditMetadata = RotatedMeta string "time option" | RevokedMeta string "string option"

record AuditEntry =
  au_accountId :: string
  au_userId :: string
  au_action :: string
  au_resourceType :: string
  au_resourceId :: string
  au_metadata :: AuditMetadata

record 'd key_db =
  kd_findById :: "string \<Rightarrow> 'd \<Rightarrow> ApiKeyProps option io"
  kd_findByKeyId :: "string \<Rightarrow> 'd \<Rightarrow> ApiKeyProps option io"
  kd_findMany :: "(ApiKeyProps \<Rightarrow> bool) \<Rightarrow> 'd \<Rightarrow> ApiKeyProps list io"
  kd_findManyOrdered :: "(ApiKeyProps \<Rightarrow> bool) \<Rightarrow> (ApiKeyProps \<Rightarrow> int) \<Rightarrow> 'd \<Rightarrow> ApiKeyProps list io"
  kd_count :: "(ApiKeyProps \<Rightarrow> bool) \<Rightarrow> 'd \<Rightarrow> nat io"
  kd_upsert :: "string \<Rightarrow> (ApiKeyProps \<Rightarrow> ApiKeyProps) \<Rightarrow> ApiKeyProps \<Rightarrow> 'd \<Rightarrow> 'd io"
  kd_updateMany :: "(ApiKeyProps \<Rightarrow> bool) \<Rightarrow> (ApiKeyProps \<Rightarrow> ApiKeyProps) \<Rightarrow> 'd \<Rightarrow> 'd io"
  kd_memberLevel :: "string \<Rightarrow> string \<Rightarrow> 'd \<Rightarrow> nat option io"
  kd_accountStatus :: "string \<Rightarrow> 'd \<Rightarrow> string option io"
  kd_subscriptionPlan :: "string \<Rightarrow> 'd \<Rightarrow> string option io"
  kd_auditCreate :: "AuditEntry \<Rightarrow> 'd \<Rightarrow> 'd io"

record ('d, 'r) key_env =
  ke_db :: "'d key_db"
  ke_platform :: platform
  ke_pepper :: string
  ke_redis :: "'r redis_api"
  ke_del :: "string \<Rightarrow> 'r \<Rightarrow> 'r io"
  ke_localeCompare :: "string \<Rightarrow> string \<Rightarrow> int"

text \<open>A row as it is read back: the scopes in any order, every other column unchanged.\<close>

definition same_row :: "ApiKeyProps \<Rightarrow> ApiKeyProps \<Rightarrow> bool" where
  "same_row stored loaded \<longleftrightarrow>
     loaded\<lparr>ak_scopes := ak_scopes stored\<rparr> = stored \<and> set (ak_scopes loaded) = set (ak_scopes stored)"

text \<open>The rows that match: each once, in some order.\<close>

definition rows_match ::
  "('d \<Rightarrow> string \<Rightarrow> ApiKeyProps option) \<Rightarrow> 'd \<Rightarrow> (ApiKeyProps \<Rightarrow> bool) \<Rightarrow> ApiKeyProps list \<Rightarrow> bool" where
  "rows_match tbl d P rs \<longleftrightarrow>
     distinct (map ak_id rs) \<and>
     (\<forall>r \<in> set rs. \<exists>stored. tbl d (ak_id r) = Some stored \<and> P stored \<and> same_row stored r) \<and>
     (\<forall>i stored. tbl d i = Some stored \<and> P stored \<longrightarrow> i \<in> ak_id ` set rs)"

definition key_db_spec :: "'d key_db \<Rightarrow> ('d \<Rightarrow> string \<Rightarrow> ApiKeyProps option) \<Rightarrow> bool" where
  "key_db_spec db tbl \<longleftrightarrow>
     (\<forall>d i r. tbl d i = Some r \<longrightarrow> ak_id r = i) \<and>
     (\<forall>d i x. kd_findById db i d = Some x \<longrightarrow> rel_option same_row (tbl d i) x) \<and>
     (\<forall>d P rs. kd_findMany db P d = Some rs \<longrightarrow> rows_match tbl d P rs) \<and>
     (\<forall>d P f rs. kd_findManyOrdered db P f d = Some rs \<longrightarrow>
        rows_match tbl d P rs \<and> sorted (map f rs)) \<and>
     (\<forall>d i u c d'. kd_upsert db i u c d = Some d' \<and> ak_id c = i \<and> (\<forall>r. ak_id (u r) = ak_id r) \<longrightarrow>
        tbl d' = (tbl d)(i \<mapsto> (case tbl d i of Some r \<Rightarrow> u r | None \<Rightarrow> c))) \<and>
     (\<forall>d P u d'. kd_updateMany db P u d = Some d' \<and> (\<forall>r. ak_id (u r) = ak_id r) \<longrightarrow>
        tbl d' = (\<lambda>i. map_option (\<lambda>r. if P r then u r else r) (tbl d i))) \<and>
     (\<forall>d e d'. kd_auditCreate db e d = Some d' \<longrightarrow> tbl d' = tbl d)"

section \<open>Repository\<close>

text \<open>The \<^verbatim>\<open>update\<close> and the \<^verbatim>\<open>create\<close> argument of the upsert in \<^verbatim>\<open>save\<close>.\<close>

definition save_update :: "ApiKeyProps \<Rightarrow> ApiKeyProps \<Rightarrow> ApiKeyProps" where
  "save_update p row = row\<lparr>
     ak_name := ak_name p,
     ak_description := ak_description p,
     ak_secretHash := ak_secretHash p,
     ak_previousSecretHash := ak_previousSecretHash p,
     ak_rotationGraceEndsAt := ak_rotationGraceEndsAt p,
     ak_status := ak_status p,
     ak_expiresAt := ak_expiresAt p,
     ak_lastUsedAt := ak_lastUsedAt p,
     ak_revokedAt := ak_revokedAt p,
     ak_revokedById := ak_revokedById p,
     ak_updatedAt := ak_updatedAt p,
     ak_scopes := ak_scopes p\<rparr>"

definition save_create :: "ApiKeyProps \<Rightarrow> ApiKeyProps" where
  "save_create p = p\<lparr>ak_lastUsedAt := None, ak_revokedAt := None, ak_revokedById := None\<rparr>"

definition repo_save :: "('d, 'r) key_env \<Rightarrow> ApiKeyProps \<Rightarrow> ('d, 'r, unit) action" where
  "repo_save env p = db_write (kd_upsert (ke_db env) (ak_id p) (save_update p) (save_create p))"

definition repo_findById :: "('d, 'r) key_env \<Rightarrow> string \<Rightarrow> ('d, 'r, ApiKeyProps option) action" where
  "repo_findById env i = db_read (kd_findById (ke_db env) i)"

definition repo_findByKeyId :: "('d, 'r) key_env \<Rightarrow> string \<Rightarrow> ('d, 'r, ApiKeyProps option) action" where
  "repo_findByKeyId env keyId = db_read (kd_findByKeyId (ke_db env) keyId)"

record ApiKeyFilters =
  kf_status :: "ApiKeyStatus option"
  kf_environment :: "ApiKeyEnvironment option"
  kf_createdById :: "string option"

text \<open>\<^verbatim>\<open>if (filters?.createdById)\<close> tests truthiness: an empty string does not filter.\<close>

definition filter_where :: "string \<Rightarrow> ApiKeyFilters \<Rightarrow> ApiKeyProps \<Rightarrow> bool" where
  "filter_where accountId f k \<longleftrightarrow>
     ak_accountId k = accountId \<and>
     (case kf_status f of Some s \<Rightarrow> ak_status k = s | None \<Rightarrow> True) \<and>
     (case kf_environment f of Some e \<Rightarrow> ak_environment k = e | None \<Rightarrow> True) \<and>
     (case kf_createdById f of Some u \<Rightarrow> u \<noteq> [] \<longrightarrow> ak_createdById k = u | None \<Rightarrow> True)"

definition repo_findAllByAccount ::
  "('d, 'r) key_env \<Rightarrow> string \<Rightarrow> ApiKeyFilters \<Rightarrow> ('d, 'r, ApiKeyProps list) action" where
  "repo_findAllByAccount env accountId f =
     db_read (kd_findManyOrdered (ke_db env) (filter_where accountId f) (\<lambda>k. - ak_createdAt k))"

definition repo_countActiveByAccount :: "('d, 'r) key_env \<Rightarrow> string \<Rightarrow> ('d, 'r, nat) action" where
  "repo_countActiveByAccount env accountId =
     db_read (kd_count (ke_db env) (\<lambda>k. ak_accountId k = accountId \<and> ak_status k = ACTIVE))"

definition repo_revokeAllByAccount ::
  "('d, 'r) key_env \<Rightarrow> string \<Rightarrow> string \<Rightarrow> time \<Rightarrow> ('d, 'r, unit) action" where
  "repo_revokeAllByAccount env accountId revokedById now =
     db_write (kd_updateMany (ke_db env) (\<lambda>k. ak_accountId k = accountId \<and> ak_status k = ACTIVE)
       (\<lambda>k. k\<lparr>ak_status := REVOKED, ak_revokedAt := Some now, ak_revokedById := Some revokedById,
              ak_updatedAt := now\<rparr>))"

definition repo_findExpiredKeys :: "('d, 'r) key_env \<Rightarrow> time \<Rightarrow> ('d, 'r, ApiKeyProps list) action" where
  "repo_findExpiredKeys env now =
     db_read (kd_findMany (ke_db env) (\<lambda>k. ak_status k = ACTIVE \<and>
       (case ak_expiresAt k of Some e \<Rightarrow> e \<le> now | None \<Rightarrow> False)))"

definition repo_findExpiredRotations :: "('d, 'r) key_env \<Rightarrow> time \<Rightarrow> ('d, 'r, ApiKeyProps list) action" where
  "repo_findExpiredRotations env now =
     db_read (kd_findMany (ke_db env) (\<lambda>k.
       (case ak_rotationGraceEndsAt k of Some e \<Rightarrow> e \<le> now | None \<Rightarrow> False) \<and>
       ak_previousSecretHash k \<noteq> None))"

section \<open>Cache service\<close>

text \<open>A failing Redis command is logged and swallowed.\<close>

definition cache_set :: "('d, 'r) key_env \<Rightarrow> time \<Rightarrow> string \<Rightarrow> CachedKeyData \<Rightarrow> ('d, 'r, unit) action" where
  "cache_set env now keyId data s =
     (case rd_setKey (ke_redis env) now (NS_apiKey keyId) data KEY_CACHE_TTL_SEC (w_redis s) of
        None \<Rightarrow> (Inr (), s)
      | Some r \<Rightarrow> (Inr (), s\<lparr>w_redis := r\<rparr>))"

definition cache_invalidate :: "('d, 'r) key_env \<Rightarrow> string \<Rightarrow> ('d, 'r, unit) action" where
  "cache_invalidate env keyId s =
     (case ke_del env (NS_apiKey keyId) (w_redis s) of
        None \<Rightarrow> (Inr (), s)
      | Some r \<Rightarrow> (Inr (), s\<lparr>w_redis := r\<rparr>))"

definition cache_invalidateAllForAccount :: "('d, 'r) key_env \<Rightarrow> string list \<Rightarrow> ('d, 'r, unit) action" where
  "cache_invalidateAllForAccount env keyIds = act_for (cache_invalidate env) keyIds"

section \<open>Rules for actions\<close>

named_theorems action_simps "inversion of actions that return a value"

lemma act_return_Inr [action_simps]: "act_return x s = (Inr y, s') \<longleftrightarrow> y = x \<and> s' = s"
  by (auto simp: act_return_def)

lemma act_throw_Inr [action_simps]: "act_throw e s = (Inr y, s') \<longleftrightarrow> False"
  by (simp add: act_throw_def)

lemma act_bind_Inr [action_simps]:
  "act_bind m f s = (Inr y, s') \<longleftrightarrow> (\<exists>x s1. m s = (Inr x, s1) \<and> f x s1 = (Inr y, s'))"
  by (auto simp: act_bind_def split: prod.splits sum.splits)

lemma act_require_Inr [action_simps]: "act_require b e s = (Inr u, s') \<longleftrightarrow> b \<and> s' = s"
  by (auto simp: act_require_def act_return_def act_throw_def)

lemma db_read_Inr [action_simps]: "db_read f s = (Inr x, s') \<longleftrightarrow> f (w_db s) = Some x \<and> s' = s"
  by (auto simp: db_read_def split: option.splits)

lemma db_write_Inr [action_simps]:
  "db_write f s = (Inr u, s') \<longleftrightarrow> (\<exists>d. f (w_db s) = Some d \<and> s' = s\<lparr>w_db := d\<rparr>)"
  by (auto simp: db_write_def split: option.splits)

lemma act_io_Inr [action_simps]: "act_io x s = (Inr y, s') \<longleftrightarrow> x = Some y \<and> s' = s"
  by (auto simp: act_io_def act_return_def act_throw_def split: option.splits)

lemma db_count_Inr [action_simps]:
  "db_count f s = (Inr n, s') \<longleftrightarrow> (\<exists>d. f (w_db s) = Some (n, d) \<and> s' = s\<lparr>w_db := d\<rparr>)"
  by (auto simp: db_count_def split: option.splits)

lemma act_tx_Inr [action_simps]: "act_tx m s = (Inr y, s') \<longleftrightarrow> m s = (Inr y, s')"
  by (auto simp: act_tx_def split: prod.splits sum.splits)

end
