(* ===== verification/KeyUseCases.thy ===== *)
theory KeyUseCases
  imports KeyStore
begin

text \<open>
  \<^verbatim>\<open>apps/api/src/modules/key-management/application/use-cases\<close>: create, list, read, update, rotate
  and revoke an API key, the workers that expire keys and rotation windows, and the adapter that
  runs the gateway's validation for \<^verbatim>\<open>apps/api\<close>.

  Create, update, rotate and revoke are composed of the part that checks and prepares the entity
  and the part that saves it; other requests run between the two.
\<close>

section \<open>Membership and plan\<close>

definition findMembership :: "('d, 'r) key_env \<Rightarrow> string \<Rightarrow> string \<Rightarrow> ('d, 'r, nat option) action" where
  "findMembership env accountId userId = db_read (kd_memberLevel (ke_db env) accountId userId)"

definition resolveMembership :: "('d, 'r) key_env \<Rightarrow> string \<Rightarrow> string \<Rightarrow> nat \<Rightarrow> ('d, 'r, nat) action" where
  "resolveMembership env accountId actorUserId requiredRole =
     act_bind (findMembership env accountId actorUserId) (\<lambda>membership.
       case membership of
         None \<Rightarrow> act_throw (ForbiddenError ''Not a member of this account'')
       | Some roleLevel \<Rightarrow>
           if roleLevel < requiredRole then act_throw (ForbiddenError ''Insufficient permissions'')
           else act_return roleLevel)"

definition getLimitsForAccount :: "('d, 'r) key_env \<Rightarrow> string \<Rightarrow> ('d, 'r, PlanLimits) action" where
  "getLimitsForAccount env accountId =
     db_read (\<lambda>d. map_option PLAN_LIMITS
       (resolvePlanForAccount (\<lambda>a. kd_accountStatus (ke_db env) a d)
          (\<lambda>a. kd_subscriptionPlan (ke_db env) a d) accountId))"

definition show_limit :: "enat \<Rightarrow> string" where
  "show_limit e = (case e of enat n \<Rightarrow> show_nat n | \<infinity> \<Rightarrow> ''Infinity'')"

definition member_or_throw :: "('d, 'r) key_env \<Rightarrow> string \<Rightarrow> string \<Rightarrow> ('d, 'r, nat) action" where
  "member_or_throw env accountId userId =
     act_bind (findMembership env accountId userId) (\<lambda>membership.
       case membership of
         None \<Rightarrow> act_throw (ForbiddenError ''You are not a member of this account'')
       | Some level \<Rightarrow> act_return level)"

definition key_or_throw :: "('d, 'r) key_env \<Rightarrow> string \<Rightarrow> string \<Rightarrow> ('d, 'r, ApiKeyProps) action" where
  "key_or_throw env accountId keyId =
     act_bind (repo_findById env keyId) (\<lambda>key.
       case key of
         None \<Rightarrow> act_throw (NotFoundError ''API key not found'')
       | Some k \<Rightarrow>
           if ak_accountId k \<noteq> accountId then act_throw (NotFoundError ''API key not found'')
           else act_return k)"

section \<open>Create\<close>

definition check_key_count :: "('d, 'r) key_env \<Rightarrow> PlanLimits \<Rightarrow> string \<Rightarrow> ('d, 'r, unit) action" where
  "check_key_count env limits accountId =
     (case maxApiKeys limits of
        \<infinity> \<Rightarrow> act_return ()
      | enat m \<Rightarrow>
          act_bind (repo_countActiveByAccount env accountId) (\<lambda>activeCount.
            act_require (\<not> activeCount \<ge> m)
              (ForbiddenError (''API key limit reached ('' @ show_nat m @
                 ''). Revoke an existing key or upgrade your plan.''))))"

definition invalid_scopes :: "string list \<Rightarrow> string list" where
  "invalid_scopes scopes = filter (\<lambda>s. s \<notin> set ApiScope_values) scopes"

definition create_begin :: "('d, 'r) key_env \<Rightarrow> CreateKeyParams \<Rightarrow> ('d, 'r, PlanLimits) action" where
  "create_begin env params =
     act_bind (resolveMembership env (kp_accountId params) (kp_createdById params) RoleLevel_ADMIN) (\<lambda>_.
     act_bind (getLimitsForAccount env (kp_accountId params)) (\<lambda>limits.
     act_bind (act_require (prodKeysAllowed limits \<or> kp_environment params \<noteq> ENV_PROD)
        (ForbiddenError ''Your plan does not allow PROD environment keys. Upgrade to Pro.'')) (\<lambda>_.
     act_bind (act_require (\<not> enat (length (kp_scopes params)) > maxScopesPerKey limits)
        (ForbiddenError (''Your plan allows a maximum of '' @ show_limit (maxScopesPerKey limits) @
           '' scopes per key.''))) (\<lambda>_.
     act_bind (check_key_count env limits (kp_accountId params)) (\<lambda>_.
     act_bind (act_require (invalid_scopes (kp_scopes params) = [])
        (ForbiddenError (''Invalid scopes: '' @ str_join '', '' (invalid_scopes (kp_scopes params))))) (\<lambda>_.
     act_bind (if WILDCARD \<in> set (kp_scopes params)
               then resolveMembership env (kp_accountId params) (kp_createdById params) RoleLevel_OWNER
               else act_return 0) (\<lambda>_.
     act_return limits)))))))"

definition create_commit ::
  "('d, 'r) key_env \<Rightarrow> time \<Rightarrow> randomness \<Rightarrow> CreateKeyParams \<Rightarrow> PlanLimits \<Rightarrow>
   ('d, 'r, ApiKeyPublicDTO \<times> string) action" where
  "create_commit env now rnd params limits =
     (case ApiKey_create (ke_platform env) (ke_pepper env) now rnd params of
        (key, rawSecret) \<Rightarrow>
          act_bind (repo_save env key) (\<lambda>_.
          act_bind (cache_set env now (ak_keyId key)
             (buildCachePayload key (rateLimitPerMinute limits) ''ACTIVE'')) (\<lambda>_.
          act_return (ApiKey_toPublicDTO key, rawSecret))))"

definition CreateApiKey_execute ::
  "('d, 'r) key_env \<Rightarrow> time \<Rightarrow> randomness \<Rightarrow> CreateKeyParams \<Rightarrow> ('d, 'r, ApiKeyPublicDTO \<times> string) action" where
  "CreateApiKey_execute env now rnd params =
     act_bind (create_begin env params) (create_commit env now rnd params)"

section \<open>Rotate\<close>

definition rotate_begin ::
  "('d, 'r) key_env \<Rightarrow> time \<Rightarrow> string \<Rightarrow> string \<Rightarrow> string \<Rightarrow> string \<Rightarrow> ('d, 'r, string \<times> ApiKeyProps) action" where
  "rotate_begin env now rawSecret accountId actorUserId keyId =
     act_bind (member_or_throw env accountId actorUserId) (\<lambda>level.
     act_bind (getLimitsForAccount env accountId) (\<lambda>limits.
     act_bind (act_require (rotationAllowed limits)
        (ForbiddenError ''Key rotation is not available on your plan. Upgrade to Pro.'')) (\<lambda>_.
     act_bind (key_or_throw env accountId keyId) (\<lambda>key.
     act_bind (act_require (\<not> isRevoked key)
        (ForbiddenError ''Cannot rotate a revoked API key'')) (\<lambda>_.
     act_bind (act_require (canRotateAny level \<or> isOwnedBy actorUserId key)
        (ForbiddenError ''You can only rotate your own API keys'')) (\<lambda>_.
     case ApiKey_rotate (ke_platform env) rawSecret (ke_pepper env) now key of
       Inl e \<Rightarrow> act_throw e
     | Inr rotated \<Rightarrow> act_return rotated))))))"

definition rotate_commit ::
  "('d, 'r) key_env \<Rightarrow> string \<Rightarrow> string \<Rightarrow> string \<times> ApiKeyProps \<Rightarrow> ('d, 'r, string \<times> time option) action" where
  "rotate_commit env accountId actorUserId rotated =
     (case rotated of (rawSecret, key) \<Rightarrow>
        act_bind (repo_save env key) (\<lambda>_.
        act_bind (cache_invalidate env (ak_keyId key)) (\<lambda>_.
        act_bind (db_write (kd_auditCreate (ke_db env)
           \<lparr>au_accountId = accountId, au_userId = actorUserId, au_action = ''API_KEY_ROTATED'',
            au_resourceType = ''ApiKey'', au_resourceId = ak_id key,
            au_metadata = RotatedMeta (ak_keyId key) (ak_rotationGraceEndsAt key)\<rparr>)) (\<lambda>_.
        act_return (rawSecret, ak_rotationGraceEndsAt key)))))"

definition RotateApiKey_execute ::
  "('d, 'r) key_env \<Rightarrow> time \<Rightarrow> string \<Rightarrow> string \<Rightarrow> string \<Rightarrow> string \<Rightarrow> ('d, 'r, string \<times> time option) action" where
  "RotateApiKey_execute env now rawSecret accountId actorUserId keyId =
     act_bind (rotate_begin env now rawSecret accountId actorUserId keyId)
       (rotate_commit env accountId actorUserId)"

section \<open>Revoke\<close>

text \<open>\<open>None\<close>: the key is revoked already and the use case returns.\<close>

definition revoke_begin ::
  "('d, 'r) key_env \<Rightarrow> time \<Rightarrow> string \<Rightarrow> string \<Rightarrow> string \<Rightarrow> ('d, 'r, ApiKeyProps option) action" where
  "revoke_begin env now accountId actorUserId keyId =
     act_bind (member_or_throw env accountId actorUserId) (\<lambda>level.
     act_bind (key_or_throw env accountId keyId) (\<lambda>key.
     if isRevoked key then act_return None
     else
       act_bind (act_require (canRevokeAny level \<or> isOwnedBy actorUserId key)
          (ForbiddenError ''You can only revoke your own API keys'')) (\<lambda>_.
       act_return (Some (ApiKey_revoke actorUserId now key)))))"

definition revoke_commit ::
  "('d, 'r) key_env \<Rightarrow> string \<Rightarrow> string \<Rightarrow> string option \<Rightarrow> ApiKeyProps option \<Rightarrow> ('d, 'r, unit) action" where
  "revoke_commit env accountId actorUserId reason revoked =
     (case revoked of
        None \<Rightarrow> act_return ()
      | Some key \<Rightarrow>
          act_bind (repo_save env key) (\<lambda>_.
          act_bind (cache_invalidate env (ak_keyId key)) (\<lambda>_.
          db_write (kd_auditCreate (ke_db env)
           \<lparr>au_accountId = accountId, au_userId = actorUserId, au_action = ''API_KEY_REVOKED'',
            au_resourceType = ''ApiKey'', au_resourceId = ak_id key,
            au_metadata = RevokedMeta (ak_keyId key) reason\<rparr>))))"

definition RevokeApiKey_execute ::
  "('d, 'r) key_env \<Rightarrow> time \<Rightarrow> string \<Rightarrow> string \<Rightarrow> string \<Rightarrow> string option \<Rightarrow> ('d, 'r, unit) action" where
  "RevokeApiKey_execute env now accountId actorUserId keyId reason =
     act_bind (revoke_begin env now accountId actorUserId keyId)
       (revoke_commit env accountId actorUserId reason)"

section \<open>Update\<close>

record UpdateKeyParams =
  up_accountId :: string
  up_actorUserId :: string
  up_keyId :: string
  up_name :: "string option"
  up_description :: "string option"
  up_scopes :: "string list option"

definition update_scopes_step ::
  "('d, 'r) key_env \<Rightarrow> time \<Rightarrow> UpdateKeyParams \<Rightarrow> ApiKeyProps \<Rightarrow> ('d, 'r, ApiKeyProps) action" where
  "update_scopes_step env now params key =
     (case up_scopes params of
        None \<Rightarrow> act_return key
      | Some scopes \<Rightarrow>
          act_bind (getLimitsForAccount env (up_accountId params)) (\<lambda>limits.
          act_bind (act_require (\<not> enat (length scopes) > maxScopesPerKey limits)
             (ForbiddenError (''Plan allows max '' @ show_limit (maxScopesPerKey limits) @
                '' scopes per key''))) (\<lambda>_.
          act_bind (act_require (invalid_scopes scopes = [])
             (ForbiddenError (''Invalid scopes: '' @ str_join '', '' (invalid_scopes scopes)))) (\<lambda>_.
          act_return (ApiKey_updateScopes scopes now key)))))"

definition update_begin ::
  "('d, 'r) key_env \<Rightarrow> time \<Rightarrow> UpdateKeyParams \<Rightarrow> ('d, 'r, ApiKeyProps) action" where
  "update_begin env now params =
     act_bind (member_or_throw env (up_accountId params) (up_actorUserId params)) (\<lambda>level.
     act_bind (key_or_throw env (up_accountId params) (up_keyId params)) (\<lambda>key.
     act_bind (act_require (\<not> isRevoked key)
        (ForbiddenError ''Cannot update a revoked API key'')) (\<lambda>_.
     act_bind (act_require (canManageScopesAny level \<or> isOwnedBy (up_actorUserId params) key)
        (ForbiddenError ''You can only update your own API keys'')) (\<lambda>_.
     update_scopes_step env now params
       (if (case up_name params of Some n \<Rightarrow> n \<noteq> [] | None \<Rightarrow> False) \<or> up_description params \<noteq> None
        then ApiKey_update (up_name params) (up_description params) now key
        else key)))))"

definition update_commit :: "('d, 'r) key_env \<Rightarrow> ApiKeyProps \<Rightarrow> ('d, 'r, ApiKeyPublicDTO) action" where
  "update_commit env key =
     act_bind (repo_save env key) (\<lambda>_.
     act_bind (cache_invalidate env (ak_keyId key)) (\<lambda>_.
     act_return (ApiKey_toPublicDTO key)))"

definition UpdateApiKey_execute ::
  "('d, 'r) key_env \<Rightarrow> time \<Rightarrow> UpdateKeyParams \<Rightarrow> ('d, 'r, ApiKeyPublicDTO) action" where
  "UpdateApiKey_execute env now params = act_bind (update_begin env now params) (update_commit env)"

section \<open>Read and list\<close>

definition GetApiKey_execute ::
  "('d, 'r) key_env \<Rightarrow> string \<Rightarrow> string \<Rightarrow> string \<Rightarrow> ('d, 'r, ApiKeyPublicDTO) action" where
  "GetApiKey_execute env accountId actorUserId keyId =
     act_bind (member_or_throw env accountId actorUserId) (\<lambda>level.
     act_bind (key_or_throw env accountId keyId) (\<lambda>key.
     act_bind (act_require (canListAll level \<or> isOwnedBy actorUserId key)
        (ForbiddenError ''You can only view your own API keys'')) (\<lambda>_.
     act_return (ApiKey_toPublicDTO key))))"

datatype SortBy = SortName | SortCreatedAt | SortLastUsedAt | SortStatus | SortEnvironment

record ListApiKeysParams =
  lp_accountId :: string
  lp_actorUserId :: string
  lp_status :: "ApiKeyStatus option"
  lp_environment :: "ApiKeyEnvironment option"
  lp_page :: nat
  lp_limit :: nat
  lp_search :: "string option"
  lp_sortBy :: SortBy
  lp_ascending :: bool

record ListApiKeysResult =
  lr_items :: "ApiKeyPublicDTO list"
  lr_total :: nat
  lr_page :: nat
  lr_limit :: nat

definition search_matches :: "string \<Rightarrow> ApiKeyPublicDTO \<Rightarrow> bool" where
  "search_matches search k \<longleftrightarrow>
     (let q = toLowerCase search in
      str_includes (toLowerCase (dto_name k)) q \<or>
      str_includes (toLowerCase (dto_keyId k)) q \<or>
      str_includes (toLowerCase (case dto_description k of Some d \<Rightarrow> d | None \<Rightarrow> [])) q \<or>
      str_includes (toLowerCase (ApiKeyEnvironment_name (dto_environment k))) q \<or>
      str_includes (toLowerCase (ApiKeyStatus_name (dto_status k))) q)"

definition list_compare ::
  "(string \<Rightarrow> string \<Rightarrow> int) \<Rightarrow> SortBy \<Rightarrow> bool \<Rightarrow> ApiKeyPublicDTO \<Rightarrow> ApiKeyPublicDTO \<Rightarrow> int" where
  "list_compare localeCompare sortBy ascending a b =
     (let dir = (if ascending then 1 else - 1);
          used = (\<lambda>k. case dto_lastUsedAt k of Some t \<Rightarrow> t | None \<Rightarrow> 0)
      in case sortBy of
           SortName \<Rightarrow> dir * localeCompare (dto_name a) (dto_name b)
         | SortStatus \<Rightarrow>
             dir * localeCompare (ApiKeyStatus_name (dto_status a)) (ApiKeyStatus_name (dto_status b))
         | SortEnvironment \<Rightarrow>
             dir * localeCompare (ApiKeyEnvironment_name (dto_environment a))
                     (ApiKeyEnvironment_name (dto_environment b))
         | SortLastUsedAt \<Rightarrow> dir * (used a - used b)
         | SortCreatedAt \<Rightarrow> dir * (dto_createdAt a - dto_createdAt b))"

text \<open>
  \<^verbatim>\<open>Array.prototype.sort\<close> is stable: for a consistent comparison its result is the one that
  inserting the elements from the right produces.
\<close>

primrec js_insert :: "('a \<Rightarrow> 'a \<Rightarrow> int) \<Rightarrow> 'a \<Rightarrow> 'a list \<Rightarrow> 'a list" where
  "js_insert cmp x [] = [x]"
| "js_insert cmp x (y # ys) = (if cmp x y \<le> 0 then x # y # ys else y # js_insert cmp x ys)"

definition js_sort :: "('a \<Rightarrow> 'a \<Rightarrow> int) \<Rightarrow> 'a list \<Rightarrow> 'a list" where
  "js_sort cmp xs = foldr (js_insert cmp) xs []"

text \<open>The query schema of the route admits pages from 1 and limits from 1 to 100.\<close>

definition list_page :: "nat \<Rightarrow> nat \<Rightarrow> 'a list \<Rightarrow> 'a list" where
  "list_page p n xs = take n (drop ((p - 1) * n) xs)"

definition ListApiKeys_execute ::
  "('d, 'r) key_env \<Rightarrow> ListApiKeysParams \<Rightarrow> ('d, 'r, ListApiKeysResult) action" where
  "ListApiKeys_execute env params =
     act_bind (member_or_throw env (lp_accountId params) (lp_actorUserId params)) (\<lambda>level.
     act_bind (repo_findAllByAccount env (lp_accountId params)
        \<lparr>kf_status = lp_status params, kf_environment = lp_environment params,
         kf_createdById = (if canListAll level then None else Some (lp_actorUserId params))\<rparr>) (\<lambda>allKeys.
     let dtos = map ApiKey_toPublicDTO allKeys;
         filtered = (case lp_search params of
             Some q \<Rightarrow> if q \<noteq> [] then filter (search_matches q) dtos else dtos
           | None \<Rightarrow> dtos);
         sorted_keys = js_sort (list_compare (ke_localeCompare env) (lp_sortBy params) (lp_ascending params)) filtered
     in act_return \<lparr>lr_items = list_page (lp_page params) (lp_limit params) sorted_keys,
          lr_total = length sorted_keys, lr_page = lp_page params, lr_limit = lp_limit params\<rparr>))"

section \<open>Workers\<close>

definition save_and_invalidate :: "('d, 'r) key_env \<Rightarrow> ApiKeyProps \<Rightarrow> ('d, 'r, unit) action" where
  "save_and_invalidate env key =
     act_bind (repo_save env key) (\<lambda>_. cache_invalidate env (ak_keyId key))"

definition ExpireApiKeysWorker_run :: "('d, 'r) key_env \<Rightarrow> time \<Rightarrow> ('d, 'r, unit) action" where
  "ExpireApiKeysWorker_run env now =
     act_bind (repo_findExpiredKeys env now)
       (act_for (\<lambda>key. save_and_invalidate env (ApiKey_markExpired now key)))"

definition ExpireRotationGraceWorker_run :: "('d, 'r) key_env \<Rightarrow> time \<Rightarrow> ('d, 'r, unit) action" where
  "ExpireRotationGraceWorker_run env now =
     act_bind (repo_findExpiredRotations env now)
       (act_for (\<lambda>key. save_and_invalidate env (ApiKey_clearRotationGrace now key)))"

section \<open>Validation for \<^verbatim>\<open>apps/api\<close>\<close>

definition CODE_MAP :: "(string, string) jsmap" where
  "CODE_MAP =
     [(''INVALID_SIGNATURE'', ''INVALID_SIGNATURE''), (''REPLAY_ATTACK'', ''REPLAY_ATTACK''),
      (''REVOKED_KEY'', ''REVOKED_KEY''), (''EXPIRED_KEY'', ''EXPIRED_KEY''),
      (''SUSPENDED_ACCOUNT'', ''SUSPENDED_ACCOUNT''), (''SCOPE_MISSING'', ''SCOPE_VIOLATION''),
      (''RATE_LIMITED'', ''RATE_LIMIT_EXCEEDED'')]"

record SecurityEventProps =
  se_apiKeyId :: string
  se_accountId :: "string option"
  se_type :: string
  se_ip :: string
  se_reason :: string

datatype ApiValidation =
  ApiValid (av_apiKeyId: string) (av_accountId: string) (av_scopes: "string list")
| ApiInvalid (av_code: string) (av_reason: string)

text \<open>The result and the security event that is written without waiting for it.\<close>

definition api_validate ::
  "ValidateApiKeyParams \<Rightarrow> GatewayValidationResult \<Rightarrow> ApiValidation \<times> SecurityEventProps option" where
  "api_validate params result =
     (case result of
        GwValid apiKeyId accountId scopes _ \<Rightarrow> (ApiValid apiKeyId accountId scopes, None)
      | GwInvalid code reason accountId \<Rightarrow>
          (let mappedCode = (case jm_get CODE_MAP code of Some c \<Rightarrow> c | None \<Rightarrow> ''INVALID_SIGNATURE'')
           in (ApiInvalid mappedCode reason,
               Some \<lparr>se_apiKeyId = vp_keyId params, se_accountId = accountId, se_type = mappedCode,
                     se_ip = vp_ip params, se_reason = reason\<rparr>)))"

end
