(* ===== verification/KeyMemory.thy ===== *)
theory KeyMemory
  imports KeyStore
begin

text \<open>
  A database of keys held in memory that satisfies \<open>key_db_spec\<close>, with one key in it: the instance
  on which the theorems about the use cases are applied.
\<close>

section \<open>A database in memory\<close>

text \<open>
  The table as an association list; an entry under another key than its row's identifier does not
  count. The membership, the account and its subscription are fixed.
\<close>

type_synonym mem_keys = "(string \<times> ApiKeyProps) list"

definition mem_tbl :: "mem_keys \<Rightarrow> string \<Rightarrow> ApiKeyProps option" where
  "mem_tbl d i = (case map_of d i of Some r \<Rightarrow> if ak_id r = i then Some r else None | None \<Rightarrow> None)"

definition mem_rows :: "mem_keys \<Rightarrow> ApiKeyProps list" where
  "mem_rows d = map (\<lambda>i. the (mem_tbl d i)) (filter (\<lambda>i. mem_tbl d i \<noteq> None) (remdups (map fst d)))"

definition mem_db :: "nat \<Rightarrow> mem_keys key_db" where
  "mem_db level = \<lparr>
     kd_findById = (\<lambda>i d. Some (mem_tbl d i)),
     kd_findByKeyId = (\<lambda>keyId d. Some (List.find (\<lambda>k. ak_keyId k = keyId) (mem_rows d))),
     kd_findMany = (\<lambda>P d. Some (filter P (mem_rows d))),
     kd_findManyOrdered = (\<lambda>P f d. Some (sort_key f (filter P (mem_rows d)))),
     kd_count = (\<lambda>P d. Some (length (filter P (mem_rows d)))),
     kd_upsert = (\<lambda>i u c d. Some ((i, (case mem_tbl d i of Some r \<Rightarrow> u r | None \<Rightarrow> c)) # d)),
     kd_updateMany = (\<lambda>P u d. Some (map (\<lambda>(i, r). (i, if P r then u r else r)) d)),
     kd_memberLevel = (\<lambda>a u d. Some (Some level)),
     kd_accountStatus = (\<lambda>a d. Some (Some ''ACTIVE'')),
     kd_subscriptionPlan = (\<lambda>a d. Some (Some ''PRO'')),
     kd_auditCreate = (\<lambda>e d. Some d)\<rparr>"

lemma mem_tbl_id: "mem_tbl d i = Some r \<Longrightarrow> ak_id r = i"
  by (auto simp: mem_tbl_def split: option.splits if_splits)

lemma mem_rows_match: "rows_match mem_tbl d P (filter P (mem_rows d))"
proof -
  have ids: "map ak_id (mem_rows d) = filter (\<lambda>i. mem_tbl d i \<noteq> None) (remdups (map fst d))"
    unfolding mem_rows_def map_map by (rule map_idI) (auto dest: mem_tbl_id)
  have "distinct (map ak_id (filter P (mem_rows d)))"
    by (rule distinct_map_filter) (simp add: ids)
  moreover have "r \<in> set (mem_rows d) \<longleftrightarrow> mem_tbl d (ak_id r) = Some r" for r
  proof
    assume "mem_tbl d (ak_id r) = Some r"
    moreover from this have "ak_id r \<in> fst ` set d"
      by (simp add: mem_tbl_def split: option.splits) (metis domI dom_map_of_conv_image_fst)
    ultimately show "r \<in> set (mem_rows d)" unfolding mem_rows_def by force
  next
    assume "r \<in> set (mem_rows d)"
    then obtain i where "mem_tbl d i = Some r" by (auto simp: mem_rows_def)
    then show "mem_tbl d (ak_id r) = Some r" using mem_tbl_id by metis
  qed
  ultimately show ?thesis unfolding rows_match_def
    by (auto simp: same_row_def image_iff dest: mem_tbl_id)
qed

lemma rows_match_perm: "rows_match tbl d P rs \<Longrightarrow> mset rs' = mset rs \<Longrightarrow> rows_match tbl d P rs'"
  unfolding rows_match_def by (metis mset_eq_imp_distinct_iff mset_eq_setD mset_map)

lemma mem_db_spec: "key_db_spec (mem_db level) mem_tbl"
proof -
  have update: "mem_tbl (map (\<lambda>(i, r). (i, if P r then u r else r)) d) =
      (\<lambda>i. map_option (\<lambda>r. if P r then u r else r) (mem_tbl d i))"
    if "\<forall>r. ak_id (u r) = ak_id r" for P u d
    using that by (auto simp: mem_tbl_def map_of_map fun_eq_iff split: option.split)
  have upsert: "mem_tbl ((i, (case mem_tbl d i of Some r \<Rightarrow> u r | None \<Rightarrow> c)) # d) =
      (mem_tbl d)(i \<mapsto> (case mem_tbl d i of Some r \<Rightarrow> u r | None \<Rightarrow> c))"
    if "ak_id c = i" "\<forall>r. ak_id (u r) = ak_id r" for i u c d
    using that by (auto simp: mem_tbl_def [of "_ # _"] fun_eq_iff dest: mem_tbl_id split: option.split)
      (auto simp: mem_tbl_def)
  show ?thesis unfolding key_db_spec_def mem_db_def
    by (auto simp: mem_tbl_id option.rel_refl same_row_def update upsert
        intro: mem_rows_match rows_match_perm [OF mem_rows_match])
qed

definition mem_platform :: platform where
  "mem_platform = \<lparr>pf_sha256 = (\<lambda>s. ''00''), pf_hmac = (\<lambda>k d. k),
     pf_utc = (\<lambda>t. \<lparr>utc_year = 2024, utc_month = 0, utc_day = 1, utc_hours = 0, utc_minutes = 0,
       utc_seconds = 0\<rparr>)\<rparr>"

definition mem_env :: "nat \<Rightarrow> (mem_keys, (string, time) jsmap) key_env" where
  "mem_env level = \<lparr>ke_db = mem_db level, ke_platform = mem_platform, ke_pepper = ''bb'',
     ke_redis = mem_redis, ke_del = (\<lambda>k r. Some (jm_delete k r)), ke_localeCompare = (\<lambda>a b. 0)\<rparr>"

definition mem_key :: ApiKeyProps where
  "mem_key = \<lparr>ak_id = ''k1'', ak_accountId = ''a'', ak_createdById = ''u'', ak_keyId = ''vhyxvoid_dev_1'',
     ak_name = ''key'', ak_description = None, ak_environment = ENV_DEV, ak_secretHash = ''aa'',
     ak_previousSecretHash = None, ak_rotationGraceEndsAt = None, ak_scopes = [''tunnel:read''],
     ak_status = ACTIVE, ak_expiresAt = Some 5000, ak_lastUsedAt = None, ak_revokedAt = None,
     ak_revokedById = None, ak_createdAt = 0, ak_updatedAt = 0\<rparr>"

definition mem_world :: "(mem_keys, (string, time) jsmap) world" where
  "mem_world = \<lparr>w_db = [(''k1'', mem_key)], w_redis = []\<rparr>"

lemma mem_env_spec: "key_db_spec (ke_db (mem_env level)) mem_tbl"
  by (simp add: mem_env_def mem_db_spec)

lemmas mem_simps = mem_env_def mem_db_def mem_world_def mem_tbl_def mem_key_def mem_redis_def

end
