(* ===== verification/KeySafety.thy ===== *)
theory KeySafety
  imports KeyUseCases KeyMemory
begin

text \<open>
  What the use cases of \<^verbatim>\<open>key-management\<close> do to the table of keys, whole executions one after the
  other (\<open>key_step\<close>) and two executions interleaved.
\<close>

section \<open>What the steps of a use case change\<close>

definition act_reads :: "('d, 'r, 'a) action \<Rightarrow> bool" where
  "act_reads m \<longleftrightarrow> (\<forall>s. snd (m s) = s)"

named_theorems reads_intros "actions that leave the world as it is"

lemma reads_basic [reads_intros]:
  "act_reads (act_return x)" "act_reads (act_throw e)" "act_reads (act_require b e)"
  "act_reads (db_read f)"
  by (simp_all add: act_reads_def act_return_def act_throw_def act_require_def db_read_def
      split: option.splits)

lemma reads_bind [reads_intros]:
  "act_reads m \<Longrightarrow> (\<And>x. act_reads (f x)) \<Longrightarrow> act_reads (act_bind m f)"
  unfolding act_reads_def act_bind_def by (auto split: prod.splits sum.splits) (metis snd_conv)+

lemma reads_lookups [reads_intros]:
  "act_reads (findMembership env a u)" "act_reads (getLimitsForAccount env a)"
  "act_reads (repo_findById env i)" "act_reads (repo_countActiveByAccount env a)"
  "act_reads (repo_findExpiredKeys env now)" "act_reads (repo_findExpiredRotations env now)"
  by (simp_all add: findMembership_def getLimitsForAccount_def repo_findById_def
      repo_countActiveByAccount_def repo_findExpiredKeys_def repo_findExpiredRotations_def reads_intros)

lemma reads_guards [reads_intros]:
  "act_reads (member_or_throw env a u)" "act_reads (key_or_throw env a i)"
  "act_reads (resolveMembership env a u l)" "act_reads (check_key_count env limits a)"
  unfolding member_or_throw_def key_or_throw_def resolveMembership_def check_key_count_def
  by (auto intro!: reads_intros split: option.splits enat.splits)

lemma reads_begins [reads_intros]:
  "act_reads (rotate_begin env now raw a u i)" "act_reads (revoke_begin env now a u i)"
  "act_reads (update_begin env now params)" "act_reads (create_begin env cparams)"
  unfolding rotate_begin_def revoke_begin_def update_begin_def update_scopes_step_def create_begin_def
  by (auto intro!: reads_intros split: option.splits sum.splits)

lemma readsD: "act_reads m \<Longrightarrow> m s = (r, s') \<Longrightarrow> s' = s"
  unfolding act_reads_def by (metis snd_conv)

lemma snd_bind_reads:
  "act_reads m \<Longrightarrow> snd (act_bind m f s) = (case fst (m s) of Inl _ \<Rightarrow> s | Inr x \<Rightarrow> snd (f x s))"
  unfolding act_reads_def act_bind_def
  by (auto split: prod.splits sum.splits) (metis snd_conv)+

lemma key_or_throw_Inr [action_simps]:
  "key_or_throw env a i s = (Inr k, s') \<longleftrightarrow>
     kd_findById (ke_db env) i (w_db s) = Some (Some k) \<and> ak_accountId k = a \<and> s' = s"
  by (auto simp: key_or_throw_def repo_findById_def action_simps split: option.splits if_splits)

lemma member_or_throw_Inr [action_simps]:
  "member_or_throw env a u s = (Inr l, s') \<longleftrightarrow>
     kd_memberLevel (ke_db env) a u (w_db s) = Some (Some l) \<and> s' = s"
  by (auto simp: member_or_throw_def findMembership_def action_simps split: option.splits)

lemma resolveMembership_Inr [action_simps]:
  "resolveMembership env a u req s = (Inr l, s') \<longleftrightarrow>
     kd_memberLevel (ke_db env) a u (w_db s) = Some (Some l) \<and> req \<le> l \<and> s' = s"
proof (cases "kd_memberLevel (ke_db env) a u (w_db s)")
  case (Some m)
  then show ?thesis
    by (cases m; cases "the m < req")
      (auto simp: resolveMembership_def findMembership_def act_bind_def db_read_def act_throw_def act_return_def)
qed (simp add: resolveMembership_def findMembership_def act_bind_def db_read_def)

definition account_limits :: "('d, 'r) key_env \<Rightarrow> string \<Rightarrow> 'd \<Rightarrow> PlanLimits io" where
  "account_limits env a d = map_option PLAN_LIMITS
     (resolvePlanForAccount (\<lambda>a. kd_accountStatus (ke_db env) a d)
        (\<lambda>a. kd_subscriptionPlan (ke_db env) a d) a)"

lemma getLimits_Inr [action_simps]:
  "getLimitsForAccount env a s = (Inr limits, s') \<longleftrightarrow> account_limits env a (w_db s) = Some limits \<and> s' = s"
  unfolding getLimitsForAccount_def db_read_Inr account_limits_def ..

text \<open>The laws of the database, one by one.\<close>

lemma db_primary_key:
  assumes "key_db_spec db tbl" shows "tbl d i = Some r \<Longrightarrow> ak_id r = i"
  using assms [unfolded key_db_spec_def, THEN conjunct1] by blast

lemma db_find:
  assumes "key_db_spec db tbl" shows "kd_findById db i d = Some x \<Longrightarrow> rel_option same_row (tbl d i) x"
  using assms [unfolded key_db_spec_def, THEN conjunct2, THEN conjunct1] by blast

lemma db_findMany:
  assumes "key_db_spec db tbl" shows "kd_findMany db P d = Some rs \<Longrightarrow> rows_match tbl d P rs"
  using assms [unfolded key_db_spec_def, THEN conjunct2, THEN conjunct2, THEN conjunct1] by blast

lemma db_findManyOrdered:
  assumes "key_db_spec db tbl"
  shows "kd_findManyOrdered db P f d = Some rs \<Longrightarrow> rows_match tbl d P rs \<and> sorted (map f rs)"
  using assms [unfolded key_db_spec_def, THEN conjunct2, THEN conjunct2, THEN conjunct2, THEN conjunct1] by blast

lemma db_upsert:
  assumes "key_db_spec db tbl"
  shows "kd_upsert db i u c d = Some d' \<Longrightarrow> ak_id c = i \<Longrightarrow> \<forall>r. ak_id (u r) = ak_id r \<Longrightarrow>
    tbl d' = (tbl d)(i \<mapsto> (case tbl d i of Some r \<Rightarrow> u r | None \<Rightarrow> c))"
  using assms [unfolded key_db_spec_def, THEN conjunct2, THEN conjunct2, THEN conjunct2, THEN conjunct2, THEN conjunct1] by blast

lemma db_updateMany:
  assumes "key_db_spec db tbl"
  shows "kd_updateMany db P u d = Some d' \<Longrightarrow> \<forall>r. ak_id (u r) = ak_id r \<Longrightarrow>
    tbl d' = (\<lambda>i. map_option (\<lambda>r. if P r then u r else r) (tbl d i))"
  using assms [unfolded key_db_spec_def, THEN conjunct2, THEN conjunct2, THEN conjunct2, THEN conjunct2, THEN conjunct2, THEN conjunct1] by blast

lemma db_audit:
  assumes "key_db_spec db tbl" shows "kd_auditCreate db e d = Some d' \<Longrightarrow> tbl d' = tbl d"
  using assms [unfolded key_db_spec_def, THEN conjunct2, THEN conjunct2, THEN conjunct2, THEN conjunct2, THEN conjunct2, THEN conjunct2] by blast

lemma rows_matchD:
  assumes "rows_match tbl d P rs" "r \<in> set rs"
  obtains stored where "tbl d (ak_id r) = Some stored" "P stored" "same_row stored r"
  using assms unfolding rows_match_def by blast

lemma cache_db:
  "cache_set env now i c s = (r, s') \<Longrightarrow> w_db s' = w_db s"
  "cache_invalidate env i s = (r, s') \<Longrightarrow> w_db s' = w_db s"
  by (auto simp: cache_set_def cache_invalidate_def split: option.splits)

lemma cache_never_fails:
  "\<exists>s'. cache_set env now i c s = (Inr (), s')" "\<exists>s'. cache_invalidate env i s = (Inr (), s')"
  by (auto simp: cache_set_def cache_invalidate_def split: option.splits)

section \<open>Saving an entity\<close>

lemma save_update_simps [simp]:
  "ak_id (save_update p row) = ak_id row"
  "isRevoked (save_update p row) = isRevoked p"
  "key_wf (save_update p row) = key_wf p"
  by (simp_all add: save_update_def isRevoked_def key_wf_def)

lemma save_update_same:
  assumes "ak_id row = ak_id p" "ak_accountId row = ak_accountId p" "ak_createdById row = ak_createdById p"
    "ak_keyId row = ak_keyId p" "ak_environment row = ak_environment p" "ak_createdAt row = ak_createdAt p"
  shows "save_update p row = p"
  using assms by (simp add: save_update_def)

lemma save_create_simps [simp]:
  "ak_id (save_create p) = ak_id p" "isRevoked (save_create p) = isRevoked p"
  "\<not> isRevoked p \<Longrightarrow> key_wf p \<Longrightarrow> key_wf (save_create p)"
  by (auto simp: save_create_def isRevoked_def key_wf_def)

lemma same_row_fields:
  assumes "same_row stored loaded"
  shows "ak_id loaded = ak_id stored" "ak_accountId loaded = ak_accountId stored"
    "ak_createdById loaded = ak_createdById stored" "ak_keyId loaded = ak_keyId stored"
    "ak_environment loaded = ak_environment stored" "ak_createdAt loaded = ak_createdAt stored"
    "ak_secretHash loaded = ak_secretHash stored" "ak_status loaded = ak_status stored"
    "ak_previousSecretHash loaded = ak_previousSecretHash stored"
    "ak_rotationGraceEndsAt loaded = ak_rotationGraceEndsAt stored"
    "ak_revokedAt loaded = ak_revokedAt stored" "ak_revokedById loaded = ak_revokedById stored"
    "ak_expiresAt loaded = ak_expiresAt stored" "set (ak_scopes loaded) = set (ak_scopes stored)"
  using assms by (cases stored; cases loaded; simp add: same_row_def)+

lemma same_row_wf: "same_row stored loaded \<Longrightarrow> key_wf loaded = key_wf stored"
  by (simp add: key_wf_def isRevoked_def same_row_fields)

lemma same_row_revoked: "same_row stored loaded \<Longrightarrow> isRevoked loaded = isRevoked stored"
  by (simp add: isRevoked_def same_row_fields)

section \<open>The table after a save\<close>

text \<open>
  From the table \<open>d0\<close> on: no row disappears, a revoked key stays revoked, and every row is
  well-formed.
\<close>

definition keys_wf :: "('d \<Rightarrow> string \<Rightarrow> ApiKeyProps option) \<Rightarrow> 'd \<Rightarrow> bool" where
  "keys_wf tbl d \<longleftrightarrow> (\<forall>i k. tbl d i = Some k \<longrightarrow> key_wf k)"

definition keys_progress :: "('d \<Rightarrow> string \<Rightarrow> ApiKeyProps option) \<Rightarrow> 'd \<Rightarrow> 'd \<Rightarrow> bool" where
  "keys_progress tbl d0 d \<longleftrightarrow>
     (\<forall>i k. tbl d0 i = Some k \<longrightarrow> (\<exists>k'. tbl d i = Some k' \<and> (isRevoked k \<longrightarrow> isRevoked k')))"

lemma keys_progress_refl [simp]: "keys_progress tbl d d"
  by (simp add: keys_progress_def)

lemma keys_progress_trans: "keys_progress tbl a b \<Longrightarrow> keys_progress tbl b c \<Longrightarrow> keys_progress tbl a c"
  unfolding keys_progress_def by meson

definition safe_save :: "('d \<Rightarrow> string \<Rightarrow> ApiKeyProps option) \<Rightarrow> 'd \<Rightarrow> ApiKeyProps \<Rightarrow> bool" where
  "safe_save tbl d0 p \<longleftrightarrow> key_wf p \<and>
     (case tbl d0 (ak_id p) of Some k \<Rightarrow> isRevoked k \<longrightarrow> isRevoked p | None \<Rightarrow> \<not> isRevoked p)"

lemma save_table:
  assumes "key_db_spec (ke_db env) tbl" "repo_save env p s = (Inr u, s')"
  shows "tbl (w_db s') = (tbl (w_db s))
    (ak_id p \<mapsto> (case tbl (w_db s) (ak_id p) of Some r \<Rightarrow> save_update p r | None \<Rightarrow> save_create p))"
proof -
  from assms(2) obtain d where
    "kd_upsert (ke_db env) (ak_id p) (save_update p) (save_create p) (w_db s) = Some d" "w_db s' = d"
    by (auto simp: repo_save_def action_simps)
  moreover have "ak_id (save_create p) = ak_id p" "\<forall>r. ak_id (save_update p r) = ak_id r" by simp_all
  ultimately show ?thesis using db_upsert [OF assms(1)] by blast
qed

lemma save_failed: "repo_save env p s = (Inl e, s') \<Longrightarrow> s' = s"
  by (auto simp: repo_save_def db_write_def split: option.splits)

definition keys_ok :: "('d \<Rightarrow> string \<Rightarrow> ApiKeyProps option) \<Rightarrow> 'd \<Rightarrow> ('d, 'r) world \<Rightarrow> bool" where
  "keys_ok tbl d0 s \<longleftrightarrow> keys_wf tbl (w_db s) \<and> keys_progress tbl d0 (w_db s)"

lemma keys_ok_same_table: "tbl (w_db s') = tbl (w_db s) \<Longrightarrow> keys_ok tbl d0 s' = keys_ok tbl d0 s"
  by (simp add: keys_ok_def keys_wf_def keys_progress_def)

lemma safe_save_step:
  assumes spec: "key_db_spec (ke_db env) tbl"
    and inv: "keys_ok tbl d0 s" and safe: "safe_save tbl d0 p"
    and run: "repo_save env p s = (r, s')"
  shows "keys_ok tbl d0 s'"
proof (cases r)
  case (Inl e)
  then show ?thesis using run inv save_failed by blast
next
  case (Inr u)
  then have tbl: "tbl (w_db s') = (tbl (w_db s))
    (ak_id p \<mapsto> (case tbl (w_db s) (ak_id p) of Some r \<Rightarrow> save_update p r | None \<Rightarrow> save_create p))"
    using save_table [OF spec] run by blast
  have wf: "key_wf p" using safe by (simp add: safe_save_def)
  have inv: "keys_wf tbl (w_db s)" "keys_progress tbl d0 (w_db s)"
    using inv by (simp_all add: keys_ok_def)
  have new: "tbl (w_db s) (ak_id p) = None \<Longrightarrow> tbl d0 (ak_id p) = None"
    using inv(2) unfolding keys_progress_def by (metis not_None_eq)
  have "keys_wf tbl (w_db s')"
    using inv(1) wf safe new unfolding keys_wf_def tbl
    by (auto simp: safe_save_def split: option.splits if_splits)
  moreover have "keys_progress tbl d0 (w_db s')"
    using inv(2) safe unfolding keys_progress_def tbl
    by (auto simp: safe_save_def split: option.splits if_splits)
  ultimately show ?thesis by (simp add: keys_ok_def)
qed

text \<open>What follows the save (cache, audit log) does not touch the keys.\<close>

definition keeps_table :: "('d \<Rightarrow> string \<Rightarrow> ApiKeyProps option) \<Rightarrow> ('d, 'r, 'a) action \<Rightarrow> bool" where
  "keeps_table tbl m \<longleftrightarrow> (\<forall>s. tbl (w_db (snd (m s))) = tbl (w_db s))"

lemma keeps_table_bind [reads_intros]:
  "keeps_table tbl m \<Longrightarrow> (\<And>x. keeps_table tbl (f x)) \<Longrightarrow> keeps_table tbl (act_bind m f)"
  unfolding keeps_table_def act_bind_def by (auto split: prod.splits sum.splits) (metis snd_conv)+

lemma keeps_table_basic [reads_intros]:
  "keeps_table tbl (act_return x)" "keeps_table tbl (cache_set env now i c)"
  "keeps_table tbl (cache_invalidate env i)"
  by (simp_all add: keeps_table_def act_return_def cache_set_def cache_invalidate_def split: option.splits)

lemma keeps_table_audit [reads_intros]:
  "key_db_spec (ke_db env) tbl \<Longrightarrow> keeps_table tbl (db_write (kd_auditCreate (ke_db env) e))"
  unfolding keeps_table_def db_write_def by (auto dest: db_audit split: option.split)

lemma keys_ok_bind:
  assumes "act_reads m" "keys_ok tbl d0 s" "\<And>x. m s = (Inr x, s) \<Longrightarrow> keys_ok tbl d0 (snd (f x s))"
  shows "keys_ok tbl d0 (snd (act_bind m f s))"
  using assms(2,3) readsD [OF assms(1)]
  by (auto simp: act_bind_def split: prod.splits sum.splits)

lemma save_then:
  assumes spec: "key_db_spec (ke_db env) tbl"
    and inv: "keys_ok tbl d0 s" and safe: "safe_save tbl d0 p" and rest: "keeps_table tbl m"
  shows "keys_ok tbl d0 (snd (act_bind (repo_save env p) (\<lambda>_. m) s))"
proof (cases "repo_save env p s")
  case (Pair r s1)
  have saved: "keys_ok tbl d0 s1" by (rule safe_save_step [OF spec inv safe Pair])
  have same: "tbl (w_db (snd (m s1))) = tbl (w_db s1)" using rest by (simp add: keeps_table_def)
  from saved have "keys_ok tbl d0 (snd (m s1))" by (rule iffD2 [OF keys_ok_same_table [OF same]])
  with saved show ?thesis by (simp add: act_bind_def Pair split: sum.split)
qed

lemma commits_step:
  assumes spec: "key_db_spec (ke_db env) tbl"
    and inv: "keys_ok tbl d0 s" and safe: "safe_save tbl d0 p"
  shows "keys_ok tbl d0 (snd (rotate_commit env a u (raw, p) s))" (is ?rotate)
    and "keys_ok tbl d0 (snd (revoke_commit env a u reason (Some p) s))" (is ?revoke)
    and "keys_ok tbl d0 (snd (update_commit env p s))" (is ?update)
    and "keys_ok tbl d0 (snd (save_and_invalidate env p s))" (is ?worker)
    and "p = fst (ApiKey_create (ke_platform env) (ke_pepper env) now rnd params) \<Longrightarrow>
      keys_ok tbl d0 (snd (create_commit env now rnd params limits s))" (is "_ \<Longrightarrow> ?create")
proof -
  note after = save_then [OF spec inv safe]
  show ?rotate unfolding rotate_commit_def prod.case by (rule after) (intro reads_intros spec)
  show ?revoke unfolding revoke_commit_def option.case by (rule after) (intro reads_intros spec)
  show ?update unfolding update_commit_def by (rule after) (intro reads_intros)
  show ?worker unfolding save_and_invalidate_def by (rule after) (intro reads_intros)
  show ?create if "p = fst (ApiKey_create (ke_platform env) (ke_pepper env) now rnd params)"
    unfolding create_commit_def case_prod_beta that [symmetric] by (rule after) (intro reads_intros)
qed

lemma committed_table:
  assumes spec: "key_db_spec (ke_db env) tbl" and rest: "keeps_table tbl m"
    and run: "act_bind (repo_save env p) (\<lambda>_. m) s = (Inr y, s')"
  shows "tbl (w_db s') = (tbl (w_db s))
    (ak_id p \<mapsto> (case tbl (w_db s) (ak_id p) of Some r \<Rightarrow> save_update p r | None \<Rightarrow> save_create p))"
proof -
  from run obtain s1 where save: "repo_save env p s = (Inr (), s1)" and m: "m s1 = (Inr y, s')"
    by (auto simp: action_simps)
  from rest have "tbl (w_db (snd (m s1))) = tbl (w_db s1)" by (simp add: keeps_table_def)
  then show ?thesis using save_table [OF spec save] m by simp
qed

lemma committed_tables:
  assumes spec: "key_db_spec (ke_db env) tbl"
  defines "saved \<equiv> \<lambda>s p. (tbl (w_db s))
    (ak_id p \<mapsto> (case tbl (w_db s) (ak_id p) of Some r \<Rightarrow> save_update p r | None \<Rightarrow> save_create p))"
  shows "rotate_commit env a u (raw, p) s = (Inr y, s') \<Longrightarrow> tbl (w_db s') = saved s p"
    and "revoke_commit env a u reason (Some p) s = (Inr z, s') \<Longrightarrow> tbl (w_db s') = saved s p"
    and "update_commit env p s = (Inr dto, s') \<Longrightarrow> tbl (w_db s') = saved s p"
  unfolding saved_def rotate_commit_def revoke_commit_def update_commit_def prod.case option.case
  by (erule committed_table [OF spec, rotated], intro reads_intros spec)+

section \<open>The entities the use cases save\<close>

lemma found_row:
  assumes "key_db_spec (ke_db env) tbl" "kd_findById (ke_db env) i (w_db s) = Some (Some k)"
  obtains stored where "tbl (w_db s) i = Some stored" "same_row stored k" "ak_id k = i"
proof -
  have "rel_option same_row (tbl (w_db s) i) (Some k)" by (rule db_find [OF assms])
  then obtain stored where st: "tbl (w_db s) i = Some stored" "same_row stored k"
    by (auto simp: option_rel_Some2)
  moreover from st(1) have "ak_id stored = i" by (rule db_primary_key [OF assms(1)])
  ultimately show ?thesis using that same_row_fields(1) by metis
qed

lemma rotate_begin_Inr:
  assumes "rotate_begin env now raw a u i s = (Inr (secret, p), s')"
  obtains k level limits where "s' = s" "secret = raw"
    "kd_findById (ke_db env) i (w_db s) = Some (Some k)" "ak_accountId k = a" "\<not> isRevoked k"
    "kd_memberLevel (ke_db env) a u (w_db s) = Some (Some level)"
    "canRotateAny level \<or> isOwnedBy u k"
    "account_limits env a (w_db s) = Some limits" "rotationAllowed limits"
    "p = k\<lparr>ak_previousSecretHash := Some (ak_secretHash k),
           ak_secretHash := hashSecret (ke_platform env) raw (ke_pepper env),
           ak_rotationGraceEndsAt := Some (now + ROTATION_GRACE_MS), ak_updatedAt := now\<rparr>"
  using assms unfolding rotate_begin_def
  by (auto simp: action_simps ApiKey_rotate_def Let_def split: if_splits)

lemma revoke_begin_Inr:
  assumes "revoke_begin env now a u i s = (Inr (Some p), s')"
  obtains k level where "s' = s"
    "kd_findById (ke_db env) i (w_db s) = Some (Some k)" "ak_accountId k = a" "\<not> isRevoked k"
    "kd_memberLevel (ke_db env) a u (w_db s) = Some (Some level)"
    "canRevokeAny level \<or> isOwnedBy u k" "p = ApiKey_revoke u now k"
  using assms unfolding revoke_begin_def
  by (auto simp: action_simps split: if_splits)

lemma update_begin_Inr:
  assumes "update_begin env now params s = (Inr p, s')"
  obtains k level kn where "s' = s"
    "kd_findById (ke_db env) (up_keyId params) (w_db s) = Some (Some k)"
    "ak_accountId k = up_accountId params" "\<not> isRevoked k"
    "kd_memberLevel (ke_db env) (up_accountId params) (up_actorUserId params) (w_db s) = Some (Some level)"
    "canManageScopesAny level \<or> isOwnedBy (up_actorUserId params) k"
    "kn = k \<or> kn = ApiKey_update (up_name params) (up_description params) now k"
    "up_scopes params = None \<and> p = kn \<or>
     (\<exists>scopes. up_scopes params = Some scopes \<and> set scopes \<subseteq> set ApiScope_values \<and>
        p = ApiKey_updateScopes scopes now kn)"
proof -
  let ?k1 = "\<lambda>k. if (case up_name params of Some n \<Rightarrow> n \<noteq> [] | None \<Rightarrow> False) \<or> up_description params \<noteq> None
        then ApiKey_update (up_name params) (up_description params) now k else k"
  from assms obtain level k where found:
    "kd_findById (ke_db env) (up_keyId params) (w_db s) = Some (Some k)"
    "ak_accountId k = up_accountId params" "\<not> isRevoked k"
    "kd_memberLevel (ke_db env) (up_accountId params) (up_actorUserId params) (w_db s) = Some (Some level)"
    "canManageScopesAny level \<or> isOwnedBy (up_actorUserId params) k"
    and scopes: "update_scopes_step env now params (?k1 k) s = (Inr p, s')"
    unfolding update_begin_def by (auto simp: action_simps)
  have "s' = s \<and> (up_scopes params = None \<and> p = ?k1 k \<or>
     (\<exists>scopes. up_scopes params = Some scopes \<and> set scopes \<subseteq> set ApiScope_values \<and>
        p = ApiKey_updateScopes scopes now (?k1 k)))"
    using scopes unfolding update_scopes_step_def
    by (auto simp: action_simps invalid_scopes_def filter_empty_conv split: option.splits)
  then show ?thesis using that [where k = k and level = level and kn = "?k1 k"] found by auto
qed

section \<open>Whole executions\<close>

lemma saves_on_live_key:
  assumes "key_db_spec (ke_db env) tbl" "keys_ok tbl (w_db s) s"
    "kd_findById (ke_db env) i (w_db s) = Some (Some k)" "\<not> isRevoked k"
    "key_wf k \<Longrightarrow> key_wf p" "ak_id p = ak_id k"
  shows "safe_save tbl (w_db s) p"
proof -
  obtain stored where "tbl (w_db s) i = Some stored" "same_row stored k" "ak_id k = i"
    using found_row [OF assms(1,3)] by blast
  then show ?thesis using assms
    by (auto simp: safe_save_def keys_ok_def keys_wf_def same_row_wf same_row_revoked)
qed

lemma rotate_keeps:
  assumes spec: "key_db_spec (ke_db env) tbl" and inv: "keys_ok tbl (w_db s) s"
  shows "keys_ok tbl (w_db s) (snd (RotateApiKey_execute env now raw a u i s))"
  unfolding RotateApiKey_execute_def
proof (rule keys_ok_bind [OF reads_begins(1) inv])
  fix x assume run: "rotate_begin env now raw a u i s = (Inr x, s)"
  obtain secret p where x: "x = (secret, p)" by fastforce
  from run [unfolded x] obtain k where "kd_findById (ke_db env) i (w_db s) = Some (Some k)" "\<not> isRevoked k"
    "p = k\<lparr>ak_previousSecretHash := Some (ak_secretHash k),
           ak_secretHash := hashSecret (ke_platform env) raw (ke_pepper env),
           ak_rotationGraceEndsAt := Some (now + ROTATION_GRACE_MS), ak_updatedAt := now\<rparr>"
    by (rule rotate_begin_Inr)
  then have "safe_save tbl (w_db s) p"
    by (intro saves_on_live_key [OF spec inv]) (auto simp: key_wf_def isRevoked_def)
  then show "keys_ok tbl (w_db s) (snd (rotate_commit env a u x s))"
    unfolding x by (rule commits_step [OF spec inv])
qed

lemma revoke_keeps:
  assumes spec: "key_db_spec (ke_db env) tbl" and inv: "keys_ok tbl (w_db s) s"
  shows "keys_ok tbl (w_db s) (snd (RevokeApiKey_execute env now a u i reason s))"
  unfolding RevokeApiKey_execute_def
proof (rule keys_ok_bind [OF reads_begins(2) inv])
  fix x assume run: "revoke_begin env now a u i s = (Inr x, s)"
  show "keys_ok tbl (w_db s) (snd (revoke_commit env a u reason x s))"
  proof (cases x)
    case (Some p)
    from run [unfolded Some] obtain k where
      "kd_findById (ke_db env) i (w_db s) = Some (Some k)" "\<not> isRevoked k" "p = ApiKey_revoke u now k"
      by (rule revoke_begin_Inr)
    then have "safe_save tbl (w_db s) p"
      by (intro saves_on_live_key [OF spec inv]) (auto intro: key_wf_revoke)
    then show ?thesis unfolding Some by (rule commits_step [OF spec inv])
  qed (simp add: revoke_commit_def act_return_def inv)
qed

lemma update_keeps:
  assumes spec: "key_db_spec (ke_db env) tbl" and inv: "keys_ok tbl (w_db s) s"
  shows "keys_ok tbl (w_db s) (snd (UpdateApiKey_execute env now params s))"
  unfolding UpdateApiKey_execute_def
proof (rule keys_ok_bind [OF reads_begins(3) inv])
  fix p assume "update_begin env now params s = (Inr p, s)"
  then obtain k kn where k: "kd_findById (ke_db env) (up_keyId params) (w_db s) = Some (Some k)"
    "\<not> isRevoked k" and kn: "kn = k \<or> kn = ApiKey_update (up_name params) (up_description params) now k"
      "up_scopes params = None \<and> p = kn \<or>
       (\<exists>scopes. up_scopes params = Some scopes \<and> set scopes \<subseteq> set ApiScope_values \<and>
          p = ApiKey_updateScopes scopes now kn)"
    by (rule update_begin_Inr)
  then have p: "key_wf k \<Longrightarrow> key_wf p" "ak_id p = ak_id k" by (auto intro: key_wf_intros)
  show "keys_ok tbl (w_db s) (snd (update_commit env p s))"
    by (rule commits_step [OF spec inv saves_on_live_key [OF spec inv k p]])
qed

lemma check_key_count_Inr [action_simps]:
  "check_key_count env limits a s = (Inr x, s') \<longleftrightarrow>
     (maxApiKeys limits = \<infinity> \<or> (\<exists>n. kd_count (ke_db env)
       (\<lambda>k. ak_accountId k = a \<and> ak_status k = ACTIVE) (w_db s) = Some n \<and> enat n < maxApiKeys limits)) \<and> s' = s"
  by (cases "maxApiKeys limits") (auto simp: check_key_count_def repo_countActiveByAccount_def action_simps)

lemma create_begin_Inr:
  assumes "create_begin env params s = (Inr limits, s')"
  obtains level where "s' = s"
    "kd_memberLevel (ke_db env) (kp_accountId params) (kp_createdById params) (w_db s) = Some (Some level)"
    "RoleLevel_ADMIN \<le> level" "WILDCARD \<in> set (kp_scopes params) \<longrightarrow> RoleLevel_OWNER \<le> level"
    "account_limits env (kp_accountId params) (w_db s) = Some limits"
    "prodKeysAllowed limits \<or> kp_environment params \<noteq> ENV_PROD"
    "enat (length (kp_scopes params)) \<le> maxScopesPerKey limits"
    "maxApiKeys limits = \<infinity> \<or> (\<exists>n. kd_count (ke_db env)
       (\<lambda>k. ak_accountId k = kp_accountId params \<and> ak_status k = ACTIVE) (w_db s) = Some n \<and>
       enat n < maxApiKeys limits)"
    "set (kp_scopes params) \<subseteq> set ApiScope_values"
  using assms unfolding create_begin_def
  by (auto simp: action_simps invalid_scopes_def filter_empty_conv not_less subset_iff split: if_splits)

lemma create_keeps:
  assumes spec: "key_db_spec (ke_db env) tbl" and inv: "keys_ok tbl (w_db s) s"
    and fresh: "tbl (w_db s) (rnd_uuid rnd) = None"
  shows "keys_ok tbl (w_db s) (snd (CreateApiKey_execute env now rnd params s))"
  unfolding CreateApiKey_execute_def
proof (rule keys_ok_bind [OF reads_begins(4) inv])
  let ?p = "fst (ApiKey_create (ke_platform env) (ke_pepper env) now rnd params)"
  fix limits assume "create_begin env params s = (Inr limits, s)"
  then have "set (kp_scopes params) \<subseteq> set ApiScope_values" by (rule create_begin_Inr)
  then have "safe_save tbl (w_db s) ?p"
    using fresh key_wf_create by (auto simp: safe_save_def ApiKey_create_def Let_def isRevoked_def)
  then show "keys_ok tbl (w_db s) (snd (create_commit env now rnd params limits s))"
    by (rule commits_step [OF spec inv]) simp
qed

lemma for_keeps:
  assumes spec: "key_db_spec (ke_db env) tbl"
    and "keys_ok tbl d0 s" "\<forall>x \<in> set xs. safe_save tbl d0 (g x)"
  shows "keys_ok tbl d0 (snd (act_for (\<lambda>x. save_and_invalidate env (g x)) xs s))"
  using assms(2,3)
proof (induction xs arbitrary: s)
  case Nil
  then show ?case by (simp add: act_return_def)
next
  case (Cons x xs)
  have "keys_ok tbl d0 (snd (save_and_invalidate env (g x) s))"
    by (rule commits_step [OF spec]) (use Cons.prems in auto)
  with Cons show ?case by (auto simp: act_bind_def split: prod.splits sum.splits)
qed

lemma worker_rows:
  assumes spec: "key_db_spec (ke_db env) tbl" and inv: "keys_ok tbl (w_db s) s"
    and rows: "kd_findMany (ke_db env) P (w_db s) = Some rs" "r \<in> set rs"
  obtains stored where "tbl (w_db s) (ak_id r) = Some stored" "P stored" "same_row stored r" "key_wf r"
proof (rule rows_matchD [OF db_findMany [OF spec rows(1)] rows(2)])
  fix stored assume st: "tbl (w_db s) (ak_id r) = Some stored" "P stored" "same_row stored r"
  then have "key_wf stored" using inv unfolding keys_ok_def keys_wf_def by blast
  with st that show thesis by (simp add: same_row_wf)
qed

lemma expire_keeps:
  assumes spec: "key_db_spec (ke_db env) tbl" and inv: "keys_ok tbl (w_db s) s"
  shows "keys_ok tbl (w_db s) (snd (ExpireApiKeysWorker_run env now s))"
  unfolding ExpireApiKeysWorker_run_def
proof (rule keys_ok_bind [OF reads_lookups(5) inv])
  fix rs assume "repo_findExpiredKeys env now s = (Inr rs, s)"
  then have rows: "kd_findMany (ke_db env) (\<lambda>k. ak_status k = ACTIVE \<and>
       (case ak_expiresAt k of Some e \<Rightarrow> e \<le> now | None \<Rightarrow> False)) (w_db s) = Some rs"
    by (simp add: repo_findExpiredKeys_def action_simps)
  have "safe_save tbl (w_db s) (ApiKey_markExpired now r)" if r: "r \<in> set rs" for r
  proof -
    obtain stored where st: "tbl (w_db s) (ak_id r) = Some stored" "ak_status stored = ACTIVE"
      "same_row stored r" "key_wf r"
      using worker_rows [OF spec inv rows r] by blast
    then have "\<not> isRevoked r" by (simp add: isRevoked_def same_row_fields)
    with st show ?thesis by (simp add: safe_save_def key_wf_markExpired) (simp add: isRevoked_def)
  qed
  then show "keys_ok tbl (w_db s) (snd (act_for (\<lambda>key. save_and_invalidate env (ApiKey_markExpired now key)) rs s))"
    by (intro for_keeps spec inv) simp
qed

lemma grace_keeps:
  assumes spec: "key_db_spec (ke_db env) tbl" and inv: "keys_ok tbl (w_db s) s"
  shows "keys_ok tbl (w_db s) (snd (ExpireRotationGraceWorker_run env now s))"
  unfolding ExpireRotationGraceWorker_run_def
proof (rule keys_ok_bind [OF reads_lookups(6) inv])
  fix rs assume "repo_findExpiredRotations env now s = (Inr rs, s)"
  then have rows: "kd_findMany (ke_db env) (\<lambda>k.
       (case ak_rotationGraceEndsAt k of Some e \<Rightarrow> e \<le> now | None \<Rightarrow> False) \<and>
       ak_previousSecretHash k \<noteq> None) (w_db s) = Some rs"
    by (simp add: repo_findExpiredRotations_def action_simps)
  have "safe_save tbl (w_db s) (ApiKey_clearRotationGrace now r)" if r: "r \<in> set rs" for r
  proof -
    obtain stored where "tbl (w_db s) (ak_id r) = Some stored" "same_row stored r" "key_wf r"
      using worker_rows [OF spec inv rows r] by blast
    then show ?thesis by (simp add: safe_save_def key_wf_clear same_row_revoked)
  qed
  then show "keys_ok tbl (w_db s) (snd (act_for (\<lambda>key. save_and_invalidate env (ApiKey_clearRotationGrace now key)) rs s))"
    by (intro for_keeps spec inv) simp
qed

lemma revokeAll_keeps:
  assumes spec: "key_db_spec (ke_db env) tbl" and inv: "keys_ok tbl (w_db s) s"
  shows "keys_ok tbl (w_db s) (snd (repo_revokeAllByAccount env a u now s))"
proof (cases "repo_revokeAllByAccount env a u now s")
  case (Pair r s')
  let ?P = "\<lambda>k. ak_accountId k = a \<and> ak_status k = ACTIVE"
  let ?u = "\<lambda>k. k\<lparr>ak_status := REVOKED, ak_revokedAt := Some now, ak_revokedById := Some u, ak_updatedAt := now\<rparr>"
  show ?thesis
  proof (cases "kd_updateMany (ke_db env) ?P ?u (w_db s)")
    case None
    then show ?thesis using inv by (simp add: repo_revokeAllByAccount_def db_write_def)
  next
    case (Some d)
    then have eq: "tbl d = (\<lambda>i. map_option (\<lambda>r. if ?P r then ?u r else r) (tbl (w_db s) i))"
      by (rule db_updateMany [OF spec]) simp
    have row: "key_wf (if ?P r then ?u r else r)" if "key_wf r" for r
      using that by (auto simp: key_wf_def isRevoked_def)
    have "keys_wf tbl d" unfolding keys_wf_def
    proof (intro allI impI)
      fix i k assume "tbl d i = Some k"
      then obtain r where "tbl (w_db s) i = Some r" "k = (if ?P r then ?u r else r)"
        unfolding eq map_option_eq_Some by blast
      with inv row show "key_wf k" unfolding keys_ok_def keys_wf_def by blast
    qed
    moreover have "keys_progress tbl (w_db s) d" unfolding keys_progress_def eq
      by (simp add: isRevoked_def)
    ultimately have "keys_ok tbl (w_db s) (s\<lparr>w_db := d\<rparr>)" by (simp add: keys_ok_def)
    then show ?thesis using Some by (simp add: repo_revokeAllByAccount_def db_write_def)
  qed
qed

text \<open>
  One whole execution of a use case or worker, whatever it returns: the calls run one after another.
  What overlapping calls can do is in \<open>KeyLifecycle\<close> and \<open>KeyOverlap\<close>. The identifier that
  \<^verbatim>\<open>randomUUID\<close> draws for a new key is not in the table yet.
\<close>

inductive key_step ::
  "('d, 'r) key_env \<Rightarrow> ('d \<Rightarrow> string \<Rightarrow> ApiKeyProps option) \<Rightarrow> ('d, 'r) world \<Rightarrow> ('d, 'r) world \<Rightarrow> bool"
  for env tbl where
  create: "tbl (w_db s) (rnd_uuid rnd) = None \<Longrightarrow>
     key_step env tbl s (snd (CreateApiKey_execute env now rnd params s))"
| rotate: "key_step env tbl s (snd (RotateApiKey_execute env now raw a u i s))"
| revoke: "key_step env tbl s (snd (RevokeApiKey_execute env now a u i reason s))"
| update: "key_step env tbl s (snd (UpdateApiKey_execute env now uparams s))"
| expire: "key_step env tbl s (snd (ExpireApiKeysWorker_run env now s))"
| grace: "key_step env tbl s (snd (ExpireRotationGraceWorker_run env now s))"
| revoke_all: "key_step env tbl s (snd (repo_revokeAllByAccount env a u now s))"

lemma key_step_keeps:
  assumes spec: "key_db_spec (ke_db env) tbl" and "key_step env tbl s s'" "keys_wf tbl (w_db s)"
  shows "keys_wf tbl (w_db s') \<and> keys_progress tbl (w_db s) (w_db s')"
proof -
  have inv: "keys_ok tbl (w_db s) s" using assms(3) by (simp add: keys_ok_def)
  have "keys_ok tbl (w_db s) s'"
    using assms(2)
  proof cases
    case (create rnd now params)
    show ?thesis unfolding create(1) by (rule create_keeps [OF spec inv create(2)])
  next
    case (rotate now raw a u i)
    then show ?thesis using rotate_keeps [OF spec inv] by simp
  next
    case (revoke now a u i reason)
    then show ?thesis using revoke_keeps [OF spec inv] by simp
  next
    case (update now uparams)
    then show ?thesis using update_keeps [OF spec inv] by simp
  next
    case (expire now)
    then show ?thesis using expire_keeps [OF spec inv] by simp
  next
    case (grace now)
    then show ?thesis using grace_keeps [OF spec inv] by simp
  next
    case (revoke_all a u now)
    then show ?thesis using revokeAll_keeps [OF spec inv] by simp
  qed
  then show ?thesis by (simp add: keys_ok_def)
qed

lemma key_steps_keep:
  assumes spec: "key_db_spec (ke_db env) tbl" and "(key_step env tbl)\<^sup>*\<^sup>* s s'" "keys_wf tbl (w_db s)"
  shows "keys_wf tbl (w_db s') \<and> keys_progress tbl (w_db s) (w_db s')"
  using assms(2)
proof (induction rule: rtranclp_induct)
  case base
  then show ?case using assms(3) by simp
next
  case (step y z)
  have "keys_wf tbl (w_db z) \<and> keys_progress tbl (w_db y) (w_db z)"
    by (rule key_step_keeps [OF spec step.hyps(2) conjunct1 [OF step.IH]])
  with step.IH show ?case by (auto intro: keys_progress_trans)
qed

lemma revoked_rejected:
  "isRevoked k \<Longrightarrow> key_failure pf (buildCachePayload k rl st) now p =
     Some (''REVOKED_KEY'', ''API key has been revoked'')"
  by (simp add: key_failure_def buildCachePayload_def isRevoked_def)

lemma revoke_table:
  assumes spec: "key_db_spec (ke_db env) tbl"
    and run: "RevokeApiKey_execute env now a u i reason s = (Inr (), s1)"
  shows "\<exists>k. tbl (w_db s1) i = Some k \<and> isRevoked k"
proof -
  from run obtain x where begin_run: "revoke_begin env now a u i s = (Inr x, s)"
    and commit: "revoke_commit env a u reason x s = (Inr (), s1)"
    unfolding RevokeApiKey_execute_def action_simps using readsD [OF reads_begins(2)] by metis
  show ?thesis
  proof (cases x)
    case None
    then have same: "s1 = s" using commit by (simp add: revoke_commit_def action_simps)
    from begin_run None obtain k where "kd_findById (ke_db env) i (w_db s) = Some (Some k)" "isRevoked k"
      by (auto simp: revoke_begin_def action_simps split: if_splits)
    then show ?thesis using found_row [OF spec] same_row_revoked same by metis
  next
    case (Some p)
    from begin_run [unfolded Some] obtain k where
      k: "kd_findById (ke_db env) i (w_db s) = Some (Some k)" "p = ApiKey_revoke u now k"
      by (rule revoke_begin_Inr)
    then obtain stored where st: "tbl (w_db s) i = Some stored" "ak_id k = i"
      using found_row [OF spec] by metis
    have "tbl (w_db s1) i = Some (save_update p stored)"
      using committed_tables(2) [OF spec commit [unfolded Some]] st k(2) by simp
    then show ?thesis using k(2) by simp
  qed
qed

text \<open>
  C26: A revocation is final. Once \<^verbatim>\<open>RevokeApiKeyUseCase\<close> has returned, and whatever use cases and
  workers then run to completion one after the other, the stored key is revoked, and the gateway
  refuses every request for the cache entry built from it with the code \<^verbatim>\<open>REVOKED_KEY\<close>.
\<close>

theorem revoked_is_final:
  assumes "key_db_spec (ke_db env) tbl"
    and "keys_wf tbl (w_db s)"
    and "RevokeApiKey_execute env now a u i reason s = (Inr (), s1)"
    and "(key_step env tbl)\<^sup>*\<^sup>* s1 s2"
  shows "\<exists>k. tbl (w_db s2) i = Some k \<and> ak_revokedAt k \<noteq> None \<and>
    (\<forall>pf rl st t p. key_failure pf (buildCachePayload k rl st) t p =
       Some (''REVOKED_KEY'', ''API key has been revoked''))"
proof -
  have "key_step env tbl s s1" using key_step.revoke assms(3) by (metis snd_conv)
  then have wf: "keys_wf tbl (w_db s1)" using key_step_keeps [OF assms(1)] assms(2) by blast
  obtain k1 where k1: "tbl (w_db s1) i = Some k1" "isRevoked k1" using revoke_table [OF assms(1,3)] by blast
  have after: "keys_wf tbl (w_db s2)" "keys_progress tbl (w_db s1) (w_db s2)"
    using key_steps_keep [OF assms(1,4) wf] by auto
  with k1 obtain k where k: "tbl (w_db s2) i = Some k" "isRevoked k" unfolding keys_progress_def by blast
  then have "key_wf k" using after(1) unfolding keys_wf_def by blast
  with k show ?thesis by (auto simp: revoked_rejected key_wf_def)
qed

section \<open>Witnesses\<close>

lemmas run_defs = act_bind_def act_return_def act_throw_def act_require_def db_read_def db_write_def
  member_or_throw_def findMembership_def key_or_throw_def repo_findById_def repo_save_def
  cache_invalidate_def getLimitsForAccount_def

lemma mem_world_wf: "keys_wf mem_tbl (w_db mem_world)"
  by (auto simp: keys_wf_def mem_simps key_wf_def isRevoked_def ApiScope_values_def split: if_splits)

lemma mem_revoke:
  "RevokeApiKey_execute (mem_env 100) 7 ''a'' ''u'' ''k1'' None mem_world =
     (Inr (), \<lparr>w_db = [(''k1'', ApiKey_revoke ''u'' 7 mem_key), (''k1'', mem_key)], w_redis = []\<rparr>)"
  by (simp add: RevokeApiKey_execute_def revoke_begin_def revoke_commit_def run_defs mem_simps
      isRevoked_def canRevokeAny_def RoleLevel_ADMIN_def ApiKey_revoke_def save_update_def)

theorem revoked_is_final_witness:
  "\<exists>k. mem_tbl (w_db (snd (ExpireApiKeysWorker_run (mem_env 100) 9000
     (snd (RevokeApiKey_execute (mem_env 100) 7 ''a'' ''u'' ''k1'' None mem_world))))) ''k1'' = Some k \<and>
   ak_revokedAt k \<noteq> None \<and>
   (\<forall>pf rl st t p. key_failure pf (buildCachePayload k rl st) t p =
       Some (''REVOKED_KEY'', ''API key has been revoked''))"
proof -
  let ?s = "snd (RevokeApiKey_execute (mem_env 100) 7 ''a'' ''u'' ''k1'' None mem_world)"
  have run: "RevokeApiKey_execute (mem_env 100) 7 ''a'' ''u'' ''k1'' None mem_world = (Inr (), ?s)"
    by (simp add: mem_revoke)
  have steps: "(key_step (mem_env 100) mem_tbl)\<^sup>*\<^sup>* ?s (snd (ExpireApiKeysWorker_run (mem_env 100) 9000 ?s))"
    by (rule r_into_rtranclp) (rule key_step.expire)
  show ?thesis by (rule revoked_is_final [OF mem_env_spec mem_world_wf run steps])
qed

end
