(* ===== verification/KeyLifecycle.thy ===== *)
theory KeyLifecycle
  imports KeySafety
begin

text \<open>
  What one use case of \<^verbatim>\<open>key-management\<close> achieves (creation, rotation, listing), what two of them
  can do to each other when they overlap, and the witnesses on a database held in memory.
\<close>

section \<open>Creation\<close>


section \<open>Rotation\<close>

lemma rotate_run:
  assumes spec: "key_db_spec (ke_db env) tbl"
    and run: "rotate_begin env now raw a u i s = (Inr (secret, p), s')"
  obtains k0 where "tbl (w_db s) i = Some k0" "\<not> isRevoked k0" "ak_id p = i" "secret = raw"
    "ak_secretHash p = hashSecret (ke_platform env) raw (ke_pepper env)"
    "ak_previousSecretHash p = Some (ak_secretHash k0)"
    "ak_rotationGraceEndsAt p = Some (now + ROTATION_GRACE_MS)"
    "ak_status p = ak_status k0" "ak_revokedAt p = ak_revokedAt k0"
proof (rule rotate_begin_Inr [OF run])
  fix k assume k: "kd_findById (ke_db env) i (w_db s) = Some (Some k)" "\<not> isRevoked k" "secret = raw"
    and p: "p = k\<lparr>ak_previousSecretHash := Some (ak_secretHash k),
           ak_secretHash := hashSecret (ke_platform env) raw (ke_pepper env),
           ak_rotationGraceEndsAt := Some (now + ROTATION_GRACE_MS), ak_updatedAt := now\<rparr>"
  obtain stored where "tbl (w_db s) i = Some stored" "same_row stored k" "ak_id k = i"
    using found_row [OF spec k(1)] by metis
  then show thesis
    by (intro that [of stored]) (simp_all add: k p same_row_fields same_row_revoked [symmetric])
qed

text \<open>
  C20: Rotation is free of downtime and ends on time. When \<^verbatim>\<open>RotateApiKeyUseCase\<close> returns, exactly
  this key's row has changed, and for the cache entry built from it the gateway accepts a signature at
  time \<open>t\<close> exactly if it is made with the hash of the returned secret, or with the secret stored
  before the rotation and \<open>t\<close> lies before the announced end of the grace window, one hour after
  the rotation.
\<close>

theorem rotation_grace_exact:
  assumes "key_db_spec (ke_db env) tbl"
    and "tbl (w_db s) i = Some k0"
    and "RotateApiKey_execute env now raw a u i s = (Inr (secret, graceEndsAt), s')"
  shows "graceEndsAt = Some (now + 60 * 60 * 1000) \<and>
    (\<exists>k. tbl (w_db s') = (tbl (w_db s))(i \<mapsto> k) \<and>
      (\<forall>t p rl st. signature_valid (ke_platform env) (buildCachePayload k rl st) t p =
        (hex_decode (vp_signature p) = hex_decode (pf_hmac (ke_platform env)
            (hashSecret (ke_platform env) secret (ke_pepper env)) (request_canonical (ke_platform env) p)) \<or>
         t < now + 60 * 60 * 1000 \<and> ak_secretHash k0 \<noteq> [] \<and>
         hex_decode (vp_signature p) = hex_decode (pf_hmac (ke_platform env)
            (ak_secretHash k0) (request_canonical (ke_platform env) p)))))"
proof -
  from assms(3) obtain x where run: "rotate_begin env now raw a u i s = (Inr x, s)"
    and commit: "rotate_commit env a u x s = (Inr (secret, graceEndsAt), s')"
    unfolding RotateApiKey_execute_def action_simps using readsD [OF reads_begins(1)] by metis
  obtain sec p where x: "x = (sec, p)" by fastforce
  obtain stored where p: "tbl (w_db s) i = Some stored" "ak_id p = i" "sec = raw"
    "ak_secretHash p = hashSecret (ke_platform env) raw (ke_pepper env)"
    "ak_previousSecretHash p = Some (ak_secretHash stored)"
    "ak_rotationGraceEndsAt p = Some (now + ROTATION_GRACE_MS)"
    using rotate_run [OF assms(1) run [unfolded x]] by metis
  have ret: "secret = raw" "graceEndsAt = Some (now + ROTATION_GRACE_MS)"
    using commit p(3,6) by (auto simp: x rotate_commit_def action_simps)
  have table: "tbl (w_db s') = (tbl (w_db s))(i \<mapsto> save_update p k0)"
    using committed_tables(1) [OF assms(1) commit [unfolded x]] p(1,2) assms(2) by simp
  have "signature_valid (ke_platform env) (buildCachePayload (save_update p k0) rl st) t q =
        (hex_decode (vp_signature q) = hex_decode (pf_hmac (ke_platform env)
            (hashSecret (ke_platform env) secret (ke_pepper env)) (request_canonical (ke_platform env) q)) \<or>
         t < now + 60 * 60 * 1000 \<and> ak_secretHash k0 \<noteq> [] \<and>
         hex_decode (vp_signature q) = hex_decode (pf_hmac (ke_platform env)
            (ak_secretHash k0) (request_canonical (ke_platform env) q)))" for t q rl st
    using p assms(2) ret(1)
    by (auto simp: signature_valid_iff buildCachePayload_def save_update_def ROTATION_GRACE_MS_def)
  then show ?thesis using table ret(2) by (auto simp: ROTATION_GRACE_MS_def)
qed

section \<open>Overlapping use cases\<close>

text \<open>
  C40: An overlapping rotation undoes a revocation. If a rotation has read the key, a revocation of the
  same key then runs to completion and returns successfully, and the rotation saves what it had read,
  the stored key is not revoked and carries no record of the revocation, because \<^verbatim>\<open>save\<close> writes
  every column of the entity.
\<close>

theorem rotate_undoes_revoke:
  assumes "key_db_spec (ke_db env) tbl"
    and "rotate_begin env now raw a u i s = (Inr rotated, s)"
    and "RevokeApiKey_execute env now' a' u' i reason s = (Inr (), s1)"
    and "rotate_commit env a u rotated s1 = (Inr res, s2)"
  shows "\<exists>k0 k2. tbl (w_db s) i = Some k0 \<and> \<not> isRevoked k0 \<and> tbl (w_db s2) i = Some k2 \<and>
    \<not> isRevoked k2 \<and> ak_revokedAt k2 = ak_revokedAt k0"
proof -
  obtain sec p where x: "rotated = (sec, p)" by fastforce
  obtain k0 where p: "tbl (w_db s) i = Some k0" "\<not> isRevoked k0" "ak_id p = i"
    "ak_status p = ak_status k0" "ak_revokedAt p = ak_revokedAt k0"
    using rotate_run [OF assms(1) assms(2) [unfolded x]] by metis
  obtain k1 where k1: "tbl (w_db s1) i = Some k1" using revoke_table [OF assms(1,3)] by blast
  have "tbl (w_db s2) i = Some (save_update p k1)"
    using committed_tables(1) [OF assms(1) assms(4) [unfolded x]] p(3) k1 by simp
  moreover have "ak_revokedAt (save_update p k1) = ak_revokedAt k0" "\<not> isRevoked (save_update p k1)"
    using p by (simp_all add: save_update_def isRevoked_def)
  ultimately show ?thesis using p by blast
qed

section \<open>Scopes\<close>

lemma getLimits_maxScopes: "account_limits env a d = Some limits \<Longrightarrow> 1 \<le> maxScopesPerKey limits"
proof -
  assume "account_limits env a d = Some limits"
  then obtain plan where "limits = PLAN_LIMITS plan" by (auto simp: account_limits_def)
  then show ?thesis by (cases plan) (simp_all add: one_enat_def numeral_eq_enat)
qed

text \<open>
  An update grants the wildcard scope without the OWNER role. A member who created a key, or an
  ADMIN for any key of the account, replaces its scopes by the wildcard through
  \<^verbatim>\<open>UpdateApiKeyUseCase\<close>: the call succeeds and the stored key then has every scope. (Creation
  demands the OWNER role for this scope.)
\<close>

theorem update_grants_wildcard:
  assumes "key_db_spec (ke_db env) tbl"
    and "kd_memberLevel (ke_db env) a u (w_db s) = Some (Some level)"
    and "kd_findById (ke_db env) i (w_db s) = Some (Some k)" "ak_accountId k = a" "\<not> isRevoked k"
    and "RoleLevel_ADMIN \<le> level \<or> ak_createdById k = u"
    and "account_limits env a (w_db s) = Some limits"
    and "\<forall>f c. kd_upsert (ke_db env) i f c (w_db s) \<noteq> None"
  shows "\<exists>dto s' k'. UpdateApiKey_execute env now
      \<lparr>up_accountId = a, up_actorUserId = u, up_keyId = i, up_name = None, up_description = None,
       up_scopes = Some [WILDCARD]\<rparr> s = (Inr dto, s') \<and>
    tbl (w_db s') i = Some k' \<and> (\<forall>scope. hasScope scope k')"
proof -
  let ?params = "\<lparr>up_accountId = a, up_actorUserId = u, up_keyId = i, up_name = None,
       up_description = None, up_scopes = Some [WILDCARD]\<rparr>"
  let ?p = "ApiKey_updateScopes [WILDCARD] now k"
  obtain stored where st: "tbl (w_db s) i = Some stored" "ak_id k = i"
    using found_row [OF assms(1,3)] by metis
  have "\<not> maxScopesPerKey limits < enat (Suc 0)"
    using getLimits_maxScopes [OF assms(7)] by (simp add: one_enat_def not_less)
  then have begin_run: "update_begin env now ?params s = (Inr ?p, s)"
    using assms(2-7) unfolding update_begin_def update_scopes_step_def
    by (simp add: action_simps canManageScopesAny_def isOwnedBy_def invalid_scopes_def ApiScope_values_def)
  obtain d where "kd_upsert (ke_db env) i (save_update ?p) (save_create ?p) (w_db s) = Some d"
    using assms(8) by blast
  then have save: "repo_save env ?p s = (Inr (), s\<lparr>w_db := d\<rparr>)"
    by (simp add: repo_save_def db_write_def st(2))
  obtain s' where inval: "cache_invalidate env (ak_keyId ?p) (s\<lparr>w_db := d\<rparr>) = (Inr (), s')"
    using cache_never_fails(2) by metis
  have commit: "update_commit env ?p s = (Inr (ApiKey_toPublicDTO ?p), s')"
    by (simp add: update_commit_def action_simps save inval)
  have "tbl (w_db s') i = Some (save_update ?p stored)"
    using committed_tables(3) [OF assms(1) commit] st by simp
  moreover have "\<forall>scope. hasScope scope (save_update ?p stored)"
    by (simp add: hasScope_def save_update_def ApiKey_updateScopes_def)
  moreover have "UpdateApiKey_execute env now ?params s = (Inr (ApiKey_toPublicDTO ?p), s')"
    by (simp add: UpdateApiKey_execute_def act_bind_def begin_run commit)
  ultimately show ?thesis by blast
qed

section \<open>Listing\<close>

lemma mset_js_insert [simp]: "mset (js_insert cmp x xs) = add_mset x (mset xs)"
  by (induction xs) auto

lemma mset_js_sort [simp]: "mset (js_sort cmp xs) = mset xs"
  unfolding js_sort_def by (induction xs) auto

lemma length_js_sort [simp]: "length (js_sort cmp xs) = length xs"
  using mset_js_sort [of cmp xs] by (metis size_mset)

lemma set_js_sort [simp]: "set (js_sort cmp xs) = set xs"
  using mset_js_sort [of cmp xs] by (rule mset_eq_setD)

lemma set_js_insert [simp]: "set (js_insert cmp x xs) = insert x (set xs)"
  by (metis mset_js_insert set_mset_add_mset_insert set_mset_mset)

text \<open>A comparison that is antisymmetric in sign and transitive, as \<^verbatim>\<open>sort\<close> demands.\<close>

definition consistent :: "('a \<Rightarrow> 'a \<Rightarrow> int) \<Rightarrow> bool" where
  "consistent cmp \<longleftrightarrow> (\<forall>a b. cmp a b \<le> 0 \<or> cmp b a \<le> 0) \<and>
     (\<forall>a b c. cmp a b \<le> 0 \<and> cmp b c \<le> 0 \<longrightarrow> cmp a c \<le> 0)"

lemma sorted_js_insert:
  assumes "consistent cmp" "sorted_wrt (\<lambda>a b. cmp a b \<le> 0) xs"
  shows "sorted_wrt (\<lambda>a b. cmp a b \<le> 0) (js_insert cmp x xs)"
  using assms(2)
proof (induction xs)
  case (Cons y ys)
  have "cmp y x \<le> 0" if "\<not> cmp x y \<le> 0" using assms(1) that unfolding consistent_def by blast
  moreover have "cmp x z \<le> 0" if "cmp x y \<le> 0" "cmp y z \<le> 0" for z
    using assms(1) that unfolding consistent_def by blast
  ultimately show ?case using Cons by auto
qed simp

lemma sorted_js_sort: "consistent cmp \<Longrightarrow> sorted_wrt (\<lambda>a b. cmp a b \<le> 0) (js_sort cmp xs)"
  unfolding js_sort_def by (induction xs) (auto intro: sorted_js_insert)

lemma pages_partition:
  assumes "0 < n" "length xs \<le> m * n"
  shows "concat (map (\<lambda>p. list_page (Suc p) n xs) [0..<m]) = xs"
proof -
  have "concat (map (\<lambda>p. list_page (Suc p) n xs) [0..<k]) = take (k * n) xs" for k
    by (induction k) (simp_all add: list_page_def take_add add.commute [of n])
  then show ?thesis using assms(2) by simp
qed

lemma search_ignores_scopes:
  "same_row stored loaded \<Longrightarrow>
     search_matches q (ApiKey_toPublicDTO loaded) = search_matches q (ApiKey_toPublicDTO stored)"
  by (cases stored; cases loaded) (simp add: same_row_def search_matches_def ApiKey_toPublicDTO_def Let_def)

text \<open>The keys an actor may see that match a query.\<close>

definition visible :: "nat \<Rightarrow> ListApiKeysParams \<Rightarrow> ApiKeyProps \<Rightarrow> bool" where
  "visible level params k \<longleftrightarrow>
     ak_accountId k = lp_accountId params \<and>
     (lp_status params = None \<or> lp_status params = Some (ak_status k)) \<and>
     (lp_environment params = None \<or> lp_environment params = Some (ak_environment k)) \<and>
     (RoleLevel_ADMIN \<le> level \<or> ak_createdById k = lp_actorUserId params) \<and>
     (lp_search params = None \<or> lp_search params = Some [] \<or>
      search_matches (the (lp_search params)) (ApiKey_toPublicDTO k))"

lemma search_filter:
  "(case lp_search params of Some q \<Rightarrow> if q \<noteq> [] then filter (search_matches q) dtos else dtos | None \<Rightarrow> dtos) =
   filter (\<lambda>d. lp_search params = None \<or> lp_search params = Some [] \<or>
     search_matches (the (lp_search params)) d) dtos"
  by (cases "lp_search params") auto

text \<open>The rows a query returns, turned into DTOs and searched, have the identifiers of the visible keys.\<close>

lemma found_ids:
  assumes match: "rows_match tbl d P rows"
    and m: "\<And>k r. same_row k r \<Longrightarrow> m (ApiKey_toPublicDTO r) = m (ApiKey_toPublicDTO k)"
    and V: "\<And>k. V k \<longleftrightarrow> P k \<and> m (ApiKey_toPublicDTO k)"
  shows "dto_id ` set (filter m (map ApiKey_toPublicDTO rows)) = {i. \<exists>k. tbl d i = Some k \<and> V k}"
    and "distinct (map dto_id (filter m (map ApiKey_toPublicDTO rows)))"
proof -
  have dto: "dto_id (ApiKey_toPublicDTO r) = ak_id r" for r by (simp add: ApiKey_toPublicDTO_def)
  show "distinct (map dto_id (filter m (map ApiKey_toPublicDTO rows)))"
    using match by (auto simp: rows_match_def dto comp_def intro!: distinct_map_filter)
  have "(\<exists>r \<in> set rows. ak_id r = i \<and> m (ApiKey_toPublicDTO r)) \<longleftrightarrow> (\<exists>k. tbl d i = Some k \<and> V k)" for i
  proof
    assume "\<exists>r \<in> set rows. ak_id r = i \<and> m (ApiKey_toPublicDTO r)"
    then show "\<exists>k. tbl d i = Some k \<and> V k" using match m V by (metis rows_matchD)
  next
    assume "\<exists>k. tbl d i = Some k \<and> V k"
    then obtain k where k: "tbl d i = Some k" "P k" "m (ApiKey_toPublicDTO k)" by (auto simp: V)
    with match obtain r where r: "r \<in> set rows" "ak_id r = i" unfolding rows_match_def by blast
    with match k have "same_row k r" by (metis option.inject rows_matchD)
    with k r m show "\<exists>r \<in> set rows. ak_id r = i \<and> m (ApiKey_toPublicDTO r)" by blast
  qed
  moreover have "dto_id ` set (filter m (map ApiKey_toPublicDTO rows)) =
      {i. \<exists>r \<in> set rows. ak_id r = i \<and> m (ApiKey_toPublicDTO r)}"
    by (force simp: dto)
  ultimately show "dto_id ` set (filter m (map ApiKey_toPublicDTO rows)) = {i. \<exists>k. tbl d i = Some k \<and> V k}"
    by simp
qed

text \<open>
  Listing shows exactly the keys the actor may see, in order, and the pages cover them. When
  \<^verbatim>\<open>ListApiKeysUseCase\<close> returns, the keys it pages through are, each once, the account's keys that
  match the filters and the search, only the actor's own ones below ADMIN; they are sorted by the
  chosen comparison, \<^verbatim>\<open>total\<close> is their number, and the pages of the given size, put together, are
  the whole list.
\<close>

theorem list_exact:
  assumes "key_db_spec (ke_db env) tbl"
    and "consistent (list_compare (ke_localeCompare env) (lp_sortBy params) (lp_ascending params))"
    and "lp_actorUserId params \<noteq> []" "0 < lp_limit params"
    and "ListApiKeys_execute env params s = (Inr res, s')"
  shows "\<exists>level keys.
    kd_memberLevel (ke_db env) (lp_accountId params) (lp_actorUserId params) (w_db s) = Some (Some level) \<and>
    distinct (map dto_id keys) \<and>
    dto_id ` set keys = {i. \<exists>k. tbl (w_db s) i = Some k \<and> visible level params k} \<and>
    sorted_wrt (\<lambda>a b. list_compare (ke_localeCompare env) (lp_sortBy params) (lp_ascending params) a b \<le> 0) keys \<and>
    lr_total res = length keys \<and>
    lr_items res = list_page (lp_page params) (lp_limit params) keys \<and>
    concat (map (\<lambda>p. list_page (Suc p) (lp_limit params) keys) [0..<length keys]) = keys"
proof -
  let ?cmp = "list_compare (ke_localeCompare env) (lp_sortBy params) (lp_ascending params)"
  let ?m = "\<lambda>d. lp_search params = None \<or> lp_search params = Some [] \<or> search_matches (the (lp_search params)) d"
  from assms(5) obtain level rows where
    level: "kd_memberLevel (ke_db env) (lp_accountId params) (lp_actorUserId params) (w_db s) = Some (Some level)"
    and rows: "kd_findManyOrdered (ke_db env) (filter_where (lp_accountId params)
        \<lparr>kf_status = lp_status params, kf_environment = lp_environment params,
         kf_createdById = (if canListAll level then None else Some (lp_actorUserId params))\<rparr>)
        (\<lambda>k. - ak_createdAt k) (w_db s) = Some rows"
    and res: "res = (let keys = js_sort ?cmp (filter ?m (map ApiKey_toPublicDTO rows)) in
        \<lparr>lr_items = list_page (lp_page params) (lp_limit params) keys, lr_total = length keys,
         lr_page = lp_page params, lr_limit = lp_limit params\<rparr>)"
    unfolding ListApiKeys_execute_def search_filter
    by (auto simp: action_simps repo_findAllByAccount_def Let_def)
  define keys where "keys = js_sort ?cmp (filter ?m (map ApiKey_toPublicDTO rows))"
  let ?P = "filter_where (lp_accountId params)
        \<lparr>kf_status = lp_status params, kf_environment = lp_environment params,
         kf_createdById = (if canListAll level then None else Some (lp_actorUserId params))\<rparr>"
  have P: "visible level params k \<longleftrightarrow> ?P k \<and> ?m (ApiKey_toPublicDTO k)" for k
    using assms(3) by (auto simp: visible_def filter_where_def canListAll_def split: option.splits)
  have match: "rows_match tbl (w_db s) ?P rows" using db_findManyOrdered [OF assms(1) rows] ..
  have m: "?m (ApiKey_toPublicDTO r) = ?m (ApiKey_toPublicDTO k)" if "same_row k r" for k r
    using search_ignores_scopes [OF that] by simp
  note found = found_ids [where m = ?m, OF match m P]
  have "dto_id ` set keys = {i. \<exists>k. tbl (w_db s) i = Some k \<and> visible level params k}"
    unfolding keys_def set_js_sort by (rule found(1))
  moreover have "distinct (map dto_id keys)"
  proof -
    have "mset (map dto_id keys) = mset (map dto_id (filter ?m (map ApiKey_toPublicDTO rows)))"
      by (simp add: keys_def)
    then show ?thesis using found(2) mset_eq_imp_distinct_iff by blast
  qed
  moreover have "concat (map (\<lambda>p. list_page (Suc p) (lp_limit params) keys) [0..<length keys]) = keys"
    using assms(4) by (intro pages_partition) simp_all
  ultimately show ?thesis
    using level res sorted_js_sort [OF assms(2)] by (intro exI [of _ level] exI [of _ keys])
      (simp add: keys_def Let_def)
qed

section \<open>Expiry\<close>

lemma for_table:
  assumes spec: "key_db_spec (ke_db env) tbl" and ids: "\<And>x. ak_id (g x) = ak_id x"
    and "act_for (\<lambda>x. save_and_invalidate env (g x)) xs s = (Inr u, s')"
    and "distinct (map ak_id xs)" "\<forall>x \<in> set xs. tbl (w_db s) (ak_id x) \<noteq> None"
  shows "(\<forall>i. i \<notin> ak_id ` set xs \<longrightarrow> tbl (w_db s') i = tbl (w_db s) i) \<and>
    (\<forall>x \<in> set xs. tbl (w_db s') (ak_id x) = map_option (save_update (g x)) (tbl (w_db s) (ak_id x)))"
  using assms(3-5)
proof (induction xs arbitrary: s)
  case Nil
  then show ?case by (simp add: action_simps)
next
  case (Cons x xs)
  from Cons.prems(1) obtain s1 where one: "save_and_invalidate env (g x) s = (Inr (), s1)"
    and rest: "act_for (\<lambda>x. save_and_invalidate env (g x)) xs s1 = (Inr u, s')"
    by (auto simp: action_simps)
  obtain row where row: "tbl (w_db s) (ak_id x) = Some row" using Cons.prems(3) by auto
  have s1: "tbl (w_db s1) = (tbl (w_db s))(ak_id x \<mapsto> save_update (g x) row)"
    using committed_table [OF spec _ one [unfolded save_and_invalidate_def]] keeps_table_basic(3) row ids
    by (metis (mono_tags, lifting) option.simps(5))
  have IH: "(\<forall>i. i \<notin> ak_id ` set xs \<longrightarrow> tbl (w_db s') i = tbl (w_db s1) i) \<and>
    (\<forall>x \<in> set xs. tbl (w_db s') (ak_id x) = map_option (save_update (g x)) (tbl (w_db s1) (ak_id x)))"
    by (rule Cons.IH [OF rest]) (use Cons.prems(2,3) s1 in auto)
  have notin: "ak_id x \<notin> ak_id ` set xs" using Cons.prems(2) by auto
  show ?case
  proof (intro conjI allI impI ballI)
    fix i assume "i \<notin> ak_id ` set (x # xs)"
    then show "tbl (w_db s') i = tbl (w_db s) i" using IH s1 by simp
  next
    fix y assume "y \<in> set (x # xs)"
    then consider "y = x" | "y \<in> set xs" "ak_id y \<noteq> ak_id x" using notin by (metis image_eqI set_ConsD)
    then show "tbl (w_db s') (ak_id y) = map_option (save_update (g y)) (tbl (w_db s) (ak_id y))"
      using IH s1 row notin by cases simp_all
  qed
qed

text \<open>
  A run of \<^verbatim>\<open>ExpireApiKeysWorker\<close> that returns leaves no active key whose expiry has passed:
  exactly the active keys with \<^verbatim>\<open>expiresAt <= now\<close> have become EXPIRED, keeping their secrets and
  scopes, and every other row is as it was.
\<close>

theorem expire_worker_exact:
  assumes "key_db_spec (ke_db env) tbl"
    and "ExpireApiKeysWorker_run env now s = (Inr (), s')"
  shows "\<forall>i. case tbl (w_db s) i of
      None \<Rightarrow> tbl (w_db s') i = None
    | Some k \<Rightarrow>
        if ak_status k = ACTIVE \<and> isExpired now k then
          \<exists>k'. tbl (w_db s') i = Some k' \<and> ak_status k' = EXPIRED \<and> ak_secretHash k' = ak_secretHash k \<and>
            set (ak_scopes k') = set (ak_scopes k) \<and> ak_expiresAt k' = ak_expiresAt k
        else tbl (w_db s') i = Some k"
proof
  fix i
  let ?P = "\<lambda>k. ak_status k = ACTIVE \<and> (case ak_expiresAt k of Some e \<Rightarrow> e \<le> now | None \<Rightarrow> False)"
  from assms(2) obtain rs where rs: "kd_findMany (ke_db env) ?P (w_db s) = Some rs"
    and loop: "act_for (\<lambda>key. save_and_invalidate env (ApiKey_markExpired now key)) rs s = (Inr (), s')"
    by (auto simp: ExpireApiKeysWorker_run_def repo_findExpiredKeys_def action_simps)
  have match: "rows_match tbl (w_db s) ?P rs" by (rule db_findMany [OF assms(1) rs])
  have P: "?P k \<longleftrightarrow> ak_status k = ACTIVE \<and> isExpired now k" for k
    by (auto simp: isExpired_def split: option.splits)
  have "\<forall>x \<in> set rs. tbl (w_db s) (ak_id x) \<noteq> None" "distinct (map ak_id rs)"
    using match unfolding rows_match_def by auto
  then have table: "i \<notin> ak_id ` set rs \<Longrightarrow> tbl (w_db s') i = tbl (w_db s) i"
    "r \<in> set rs \<Longrightarrow> tbl (w_db s') (ak_id r) =
       map_option (save_update (ApiKey_markExpired now r)) (tbl (w_db s) (ak_id r))" for i r
    using for_table [where g = "ApiKey_markExpired now", OF assms(1) _ loop] by auto
  show "case tbl (w_db s) i of
      None \<Rightarrow> tbl (w_db s') i = None
    | Some k \<Rightarrow>
        if ak_status k = ACTIVE \<and> isExpired now k then
          \<exists>k'. tbl (w_db s') i = Some k' \<and> ak_status k' = EXPIRED \<and> ak_secretHash k' = ak_secretHash k \<and>
            set (ak_scopes k') = set (ak_scopes k) \<and> ak_expiresAt k' = ak_expiresAt k
        else tbl (w_db s') i = Some k"
  proof (cases "i \<in> ak_id ` set rs")
    case True
    then obtain r where r: "r \<in> set rs" "i = ak_id r" by blast
    obtain k where k: "tbl (w_db s) i = Some k" "?P k" "same_row k r"
      using rows_matchD [OF match r(1)] r(2) by metis
    then show ?thesis
      using table(2) [OF r(1)] r(2) same_row_fields [OF k(3)]
      by (simp add: P save_update_def ApiKey_markExpired_def)
  next
    case False
    then have "\<not> (\<exists>k. tbl (w_db s) i = Some k \<and> ?P k)"
      using match unfolding rows_match_def by blast
    then show ?thesis using table(1) [OF False] unfolding P by (auto split: option.split)
  qed
qed

section \<open>Witnesses\<close>

definition mem_rotated :: ApiKeyProps where
  "mem_rotated = mem_key\<lparr>ak_previousSecretHash := Some ''aa'', ak_secretHash := ''bb'',
     ak_rotationGraceEndsAt := Some (10 + ROTATION_GRACE_MS), ak_updatedAt := 10\<rparr>"

lemma mem_limits: "account_limits (mem_env level) ''a'' d = Some (PLAN_LIMITS PRO)"
  by (simp add: account_limits_def mem_simps resolvePlanForAccount_def NOT_ENTITLED_ACCOUNT_STATUSES_def
      Plan_of_name_def Plan_name_def)

lemma mem_rotate_begin:
  "rotate_begin (mem_env 100) 10 ''dd'' ''a'' ''u'' ''k1'' mem_world = (Inr (''dd'', mem_rotated), mem_world)"
proof -
  have "getLimitsForAccount (mem_env 100) ''a'' mem_world = (Inr (PLAN_LIMITS PRO), mem_world)"
    by (simp add: getLimits_Inr mem_limits)
  then show ?thesis
    by (simp add: rotate_begin_def act_bind_def member_or_throw_def findMembership_def key_or_throw_def
        repo_findById_def db_read_def act_return_def act_require_def mem_simps isRevoked_def canRotateAny_def
        RoleLevel_ADMIN_def ApiKey_rotate_def Let_def hashSecret_def mem_platform_def mem_rotated_def)
qed

lemma mem_rotate_commit:
  "rotate_commit (mem_env 100) ''a'' ''u'' (''dd'', mem_rotated) \<lparr>w_db = d, w_redis = []\<rparr> =
     (Inr (''dd'', Some (10 + ROTATION_GRACE_MS)),
      \<lparr>w_db = (''k1'', (case mem_tbl d ''k1'' of Some r \<Rightarrow> save_update mem_rotated r
         | None \<Rightarrow> save_create mem_rotated)) # d, w_redis = []\<rparr>)"
proof -
  have "ak_id mem_rotated = ''k1''" "ak_rotationGraceEndsAt mem_rotated = Some (10 + ROTATION_GRACE_MS)"
    by (simp_all add: mem_rotated_def mem_key_def)
  then show ?thesis
    by (simp add: rotate_commit_def run_defs mem_env_def mem_db_def split: option.split)
qed

theorem rotation_grace_exact_witness:
  "\<exists>s' k. RotateApiKey_execute (mem_env 100) 10 ''dd'' ''a'' ''u'' ''k1'' mem_world =
      (Inr (''dd'', Some 3600010), s') \<and>
    mem_tbl (w_db s') = (mem_tbl (w_db mem_world))(''k1'' \<mapsto> k) \<and>
    (\<forall>t p rl st. signature_valid mem_platform (buildCachePayload k rl st) t p =
        (hex_decode (vp_signature p) = hex_decode ''bb'' \<or>
         t < 3600010 \<and> hex_decode (vp_signature p) = hex_decode ''aa''))"
proof -
  have "\<exists>s'. RotateApiKey_execute (mem_env 100) 10 ''dd'' ''a'' ''u'' ''k1'' mem_world =
      (Inr (''dd'', Some 3600010), s')"
    unfolding RotateApiKey_execute_def act_bind_def mem_rotate_begin
    using mem_rotate_commit [of "w_db mem_world"] by (simp add: ROTATION_GRACE_MS_def mem_world_def)
  then obtain s' where run: "RotateApiKey_execute (mem_env 100) 10 ''dd'' ''a'' ''u'' ''k1'' mem_world =
      (Inr (''dd'', Some 3600010), s')" ..
  have row: "mem_tbl (w_db mem_world) ''k1'' = Some mem_key" by (simp add: mem_simps)
  have env: "ke_platform (mem_env 100) = mem_platform" "ke_pepper (mem_env 100) = ''bb''"
    "ak_secretHash mem_key = ''aa''" "pf_hmac mem_platform k x = k" for k x
    by (simp_all add: mem_env_def mem_platform_def mem_key_def)
  from rotation_grace_exact [OF mem_env_spec row run, unfolded env hashSecret_def]
  obtain k where table: "mem_tbl (w_db s') = (mem_tbl (w_db mem_world))(''k1'' \<mapsto> k)"
    and sig: "\<forall>t p rl st. signature_valid mem_platform (buildCachePayload k rl st) t p =
        (hex_decode (vp_signature p) = hex_decode ''bb'' \<or>
         t < 10 + 60 * 60 * 1000 \<and> ''aa'' \<noteq> [] \<and> hex_decode (vp_signature p) = hex_decode ''aa'')"
    by blast
  from sig have "\<forall>t p rl st. signature_valid mem_platform (buildCachePayload k rl st) t p =
        (hex_decode (vp_signature p) = hex_decode ''bb'' \<or>
         t < 3600010 \<and> hex_decode (vp_signature p) = hex_decode ''aa'')"
    by simp
  with run table show ?thesis by blast
qed

theorem rotate_undoes_revoke_witness:
  "\<exists>s2 k0 k2. mem_tbl (w_db mem_world) ''k1'' = Some k0 \<and>
    rotate_commit (mem_env 100) ''a'' ''u'' (''dd'', mem_rotated)
      (snd (RevokeApiKey_execute (mem_env 100) 7 ''a'' ''u'' ''k1'' None mem_world)) =
      (Inr (''dd'', Some (10 + ROTATION_GRACE_MS)), s2) \<and>
    mem_tbl (w_db s2) ''k1'' = Some k2 \<and> \<not> isRevoked k2 \<and> ak_revokedAt k2 = ak_revokedAt k0"
proof -
  let ?d = "[(''k1'', ApiKey_revoke ''u'' 7 mem_key), (''k1'', mem_key)]"
  show ?thesis
    using rotate_undoes_revoke [OF mem_env_spec mem_rotate_begin mem_revoke mem_rotate_commit]
      mem_rotate_commit [of ?d]
    by (auto simp: mem_revoke)
qed

theorem update_grants_wildcard_witness:
  "\<exists>dto s' k'. UpdateApiKey_execute (mem_env RoleLevel_MEMBER) 10
      \<lparr>up_accountId = ''a'', up_actorUserId = ''u'', up_keyId = ''k1'', up_name = None, up_description = None,
       up_scopes = Some [WILDCARD]\<rparr> mem_world = (Inr dto, s') \<and>
    mem_tbl (w_db s') ''k1'' = Some k' \<and> (\<forall>scope. hasScope scope k')"
  by (rule update_grants_wildcard [OF mem_env_spec, where level = RoleLevel_MEMBER and k = mem_key and limits = "PLAN_LIMITS PRO"])
    (simp_all only: mem_limits, simp_all add: mem_simps isRevoked_def)


theorem expire_worker_exact_witness:
  "case mem_tbl (w_db mem_world) ''k1'' of
      None \<Rightarrow> False
    | Some k \<Rightarrow>
        (\<exists>k'. mem_tbl (w_db (snd (ExpireApiKeysWorker_run (mem_env 100) 5000 mem_world))) ''k1'' = Some k' \<and>
            ak_status k' = EXPIRED \<and> ak_secretHash k' = ak_secretHash k)"
proof -
  let ?s = "snd (ExpireApiKeysWorker_run (mem_env 100) 5000 mem_world)"
  have run: "ExpireApiKeysWorker_run (mem_env 100) 5000 mem_world = (Inr (), ?s)"
    by (simp add: ExpireApiKeysWorker_run_def repo_findExpiredKeys_def run_defs save_and_invalidate_def
        mem_simps mem_rows_def)
  have row: "mem_tbl (w_db mem_world) ''k1'' = Some mem_key" "ak_status mem_key = ACTIVE" "isExpired 5000 mem_key"
    by (simp_all add: mem_simps isExpired_def)
  show ?thesis using spec [OF expire_worker_exact [OF mem_env_spec run], of "''k1''"] row by auto
qed

theorem list_exact_witness:
  "\<exists>keys. dto_id ` set keys = {''k1''} \<and>
    (\<exists>res. ListApiKeys_execute (mem_env 10)
      \<lparr>lp_accountId = ''a'', lp_actorUserId = ''u'', lp_status = None, lp_environment = None, lp_page = 1,
       lp_limit = 20, lp_search = None, lp_sortBy = SortCreatedAt, lp_ascending = False\<rparr> mem_world = (Inr res, mem_world) \<and>
      lr_total res = length keys \<and> lr_items res = list_page 1 20 keys)"
proof -
  let ?params = "\<lparr>lp_accountId = ''a'', lp_actorUserId = ''u'', lp_status = None, lp_environment = None, lp_page = 1,
       lp_limit = 20, lp_search = None, lp_sortBy = SortCreatedAt, lp_ascending = False\<rparr>"
  have cmp: "consistent (list_compare (ke_localeCompare (mem_env 10)) (lp_sortBy ?params) (lp_ascending ?params))"
    by (auto simp: consistent_def list_compare_def Let_def)
  have "\<exists>res. ListApiKeys_execute (mem_env 10) ?params mem_world = (Inr res, mem_world)"
    by (simp add: ListApiKeys_execute_def repo_findAllByAccount_def run_defs Let_def mem_env_def mem_db_def)
  then obtain res where run: "ListApiKeys_execute (mem_env 10) ?params mem_world = (Inr res, mem_world)" ..
  have ids: "{i. \<exists>k. mem_tbl (w_db mem_world) i = Some k \<and> visible level ?params k} = {''k1''}" for level
    by (auto simp: visible_def mem_simps)
  show ?thesis
    using list_exact [OF mem_env_spec cmp _ _ run] run unfolding ids by auto
qed

end
