(* ===== verification/KeyGateway.thy ===== *)
theory KeyGateway
  imports KeyLifecycle
begin

text \<open>
  The management plane and the gateway together: what the cache entry that \<^verbatim>\<open>CreateApiKeyUseCase\<close>
  writes does to the gateway's check of the account's status.
\<close>

section \<open>A suspended account in memory\<close>

text \<open>A Redis that keeps what it is given, and a database in which every account is suspended.\<close>

definition store_redis :: "(string, CachedKeyData) jsmap redis_api" where
  "store_redis = \<lparr>
     rd_getKey = (\<lambda>t k r. Some (jm_get r k)),
     rd_setKey = (\<lambda>t k d s r. Some (jm_set k d r)),
     rd_setNx = (\<lambda>t k px r. Some (True, r)),
     rd_incr = (\<lambda>t k r. Some (1, r)),
     rd_expire = (\<lambda>t k s r. Some r)\<rparr>"

definition suspended_env :: "(mem_keys, (string, CachedKeyData) jsmap) key_env" where
  "suspended_env = \<lparr>ke_db = (mem_db 100)\<lparr>kd_accountStatus := (\<lambda>a d. Some (Some ''SUSPENDED''))\<rparr>,
     ke_platform = mem_platform, ke_pepper = ''bb'', ke_redis = store_redis,
     ke_del = (\<lambda>k r. Some (jm_delete k r)), ke_localeCompare = (\<lambda>a b. 0)\<rparr>"

definition new_key_random :: randomness where
  "new_key_random = \<lparr>rnd_uuid = ''k2'', rnd_keyHex = ''ff'', rnd_secretHex = ''ee''\<rparr>"

definition new_key_params :: CreateKeyParams where
  "new_key_params = \<lparr>kp_accountId = ''a'', kp_createdById = ''u'', kp_name = ''n'', kp_description = None,
     kp_environment = ENV_DEV, kp_scopes = [''tunnel:read''], kp_expiresAt = None\<rparr>"

definition new_key :: ApiKeyProps where
  "new_key = fst (ApiKey_create mem_platform ''bb'' 10 new_key_random new_key_params)"

definition new_key_request :: ValidateApiKeyParams where
  "new_key_request = \<lparr>vp_keyId = ak_keyId new_key, vp_signature = ''bb'', vp_meth = ''GET'', vp_path = ''/'',
     vp_query = [], vp_body = [], vp_requestId = ''q'', vp_timestamp = 20, vp_requiredScope = ''tunnel:read'',
     vp_ip = []\<rparr>"

definition empty_world :: "(mem_keys, (string, CachedKeyData) jsmap) world" where
  "empty_world = \<lparr>w_db = [], w_redis = []\<rparr>"

lemma suspended_limits: "getLimitsForAccount suspended_env ''a'' empty_world = (Inr (PLAN_LIMITS FREE), empty_world)"
  by (simp add: getLimits_Inr account_limits_def suspended_env_def mem_db_def resolvePlanForAccount_def
      NOT_ENTITLED_ACCOUNT_STATUSES_def)

lemma suspended_create_begin:
  "create_begin suspended_env new_key_params empty_world = (Inr (PLAN_LIMITS FREE), empty_world)"
  unfolding create_begin_def
  by (simp add: action_simps suspended_limits new_key_params_def RoleLevel_ADMIN_def invalid_scopes_def
      ApiScope_values_def WILDCARD_def numeral_eq_enat one_enat_def)
    (simp add: suspended_env_def empty_world_def mem_db_def mem_rows_def account_limits_def
      resolvePlanForAccount_def NOT_ENTITLED_ACCOUNT_STATUSES_def numeral_eq_enat one_enat_def)

lemma suspended_create_commit:
  "create_commit suspended_env 10 new_key_random new_key_params limits empty_world =
     (Inr (ApiKey_toPublicDTO new_key, ''ee''), \<lparr>w_db = [(''k2'', new_key)],
        w_redis = [(NS_apiKey (ak_keyId new_key), buildCachePayload new_key (rateLimitPerMinute limits) ''ACTIVE'')]\<rparr>)"
  by (simp add: create_commit_def run_defs cache_set_def ApiKey_create_def Let_def suspended_env_def mem_db_def
      empty_world_def store_redis_def new_key_def new_key_random_def mem_tbl_def save_create_def)

lemma suspended_create:
  "CreateApiKey_execute suspended_env 10 new_key_random new_key_params empty_world =
     (Inr (ApiKey_toPublicDTO new_key, ''ee''), \<lparr>w_db = [(''k2'', new_key)],
        w_redis = [(NS_apiKey (ak_keyId new_key), buildCachePayload new_key (rateLimitPerMinute (PLAN_LIMITS FREE)) ''ACTIVE'')]\<rparr>)"
  unfolding CreateApiKey_execute_def act_bind_def suspended_create_begin
  by (simp add: suspended_create_commit)

lemmas gateway_simps = store_redis_def demo_at_def load_cached_def loadFromCache_def writeCache_def rowToCache_def
  markRequestId_def incrementRateLimit_def incrementUsage_def signature_valid_def verify_hash_def
  timingSafeEqual_def isConnectableAccountStatus_def CONNECTABLE_ACCOUNT_STATUSES_def toRateLimit_def
  toStoredRateLimit_def SIGNATURE_WINDOW_MS_def validate_defs gw_valid_def Let_def new_key_request_def
  new_key_def new_key_random_def new_key_params_def ApiKey_create_def hashSecret_def mem_platform_def
  gateway_row_def buildCachePayload_def ApiKeyStatus_name_def

section \<open>Property\<close>

text \<open>
  A new key of a suspended account is accepted. Creating a key asks for a role, not for the
  account's status, and writes the key to the gateway's cache with the account status ACTIVE; the gateway, which
  would have refused the key had it read the database, accepts its requests while that entry
  lives.
\<close>

theorem suspended_account_new_key:
  "\<exists>dto secret s'. CreateApiKey_execute suspended_env 10 new_key_random new_key_params empty_world = (Inr (dto, secret), s') \<and>
     mem_tbl (w_db s') ''k2'' = Some new_key \<and>
     gw_valid (fst (ValidateApiKey_execute mem_platform store_redis (\<lambda>_. Some (gateway_row new_key ''SUSPENDED''))
       (demo_at 20) new_key_request (w_redis s'))) \<and>
     \<not> gw_valid (fst (ValidateApiKey_execute mem_platform store_redis (\<lambda>_. Some (gateway_row new_key ''SUSPENDED''))
       (demo_at 20) new_key_request []))"
proof -
  let ?r = "[(NS_apiKey (ak_keyId new_key), buildCachePayload new_key (rateLimitPerMinute (PLAN_LIMITS FREE)) ''ACTIVE'')]"
  have cached: "gw_valid (fst (ValidateApiKey_execute mem_platform store_redis
      (\<lambda>_. Some (gateway_row new_key ''SUSPENDED'')) (demo_at 20) new_key_request ?r))"
    by (simp add: gateway_simps) (simp add: numeral_eq_enat)
  have loaded: "\<not> gw_valid (fst (ValidateApiKey_execute mem_platform store_redis
      (\<lambda>_. Some (gateway_row new_key ''SUSPENDED'')) (demo_at 20) new_key_request []))"
    by (simp add: gateway_simps)
  have "mem_tbl [(''k2'', new_key)] ''k2'' = Some new_key"
    by (simp add: mem_tbl_def new_key_def ApiKey_create_def Let_def new_key_random_def)
  then show ?thesis using suspended_create cached loaded by simp
qed

end
