(* ===== verification/KeyOverlap.thy ===== *)
theory KeyOverlap
  imports KeyLifecycle
begin

text \<open>
  The use cases of \<^verbatim>\<open>key-management\<close> with overlapping calls: what a call saves may rest on rows it read in an
  earlier state of the database, before other calls wrote. The stored keys stay well-formed all the same.
\<close>

section \<open>Runs with overlaps\<close>

text \<open>
  A configuration is the list of the states there have been and the current one. A call reads in one of
  the states there have been and saves in the current one; a worker reads its rows there and saves them
  one at a time. Whole calls and other writes, which do not touch the keys, run in between.
\<close>

inductive key_overlap ::
  "('d, 'r) key_env \<Rightarrow> ('d \<Rightarrow> string \<Rightarrow> ApiKeyProps option) \<Rightarrow>
   ('d, 'r) world list \<times> ('d, 'r) world \<Rightarrow> ('d, 'r) world list \<times> ('d, 'r) world \<Rightarrow> bool"
  for env tbl where
  whole: "key_step env tbl s s' \<Longrightarrow> key_overlap env tbl (past, s) (s' # past, s')"
| other: "tbl (w_db s') = tbl (w_db s) \<Longrightarrow> key_overlap env tbl (past, s) (s' # past, s')"
| create: "r \<in> set past \<Longrightarrow> create_begin env params r = (Inr limits, r) \<Longrightarrow> tbl (w_db s) (rnd_uuid rnd) = None \<Longrightarrow>
    s' = snd (create_commit env now rnd params limits s) \<Longrightarrow> key_overlap env tbl (past, s) (s' # past, s')"
| rotate: "r \<in> set past \<Longrightarrow> rotate_begin env now raw a u i r = (Inr rotated, r) \<Longrightarrow>
    s' = snd (rotate_commit env a u rotated s) \<Longrightarrow> key_overlap env tbl (past, s) (s' # past, s')"
| revoke: "r \<in> set past \<Longrightarrow> revoke_begin env now a u i r = (Inr revoked, r) \<Longrightarrow>
    s' = snd (revoke_commit env a u reason revoked s) \<Longrightarrow> key_overlap env tbl (past, s) (s' # past, s')"
| update: "r \<in> set past \<Longrightarrow> update_begin env now uparams r = (Inr p, r) \<Longrightarrow>
    s' = snd (update_commit env p s) \<Longrightarrow> key_overlap env tbl (past, s) (s' # past, s')"
| expire: "r \<in> set past \<Longrightarrow> repo_findExpiredKeys env now r = (Inr ks, r) \<Longrightarrow> k \<in> set ks \<Longrightarrow>
    s' = snd (save_and_invalidate env (ApiKey_markExpired now k) s) \<Longrightarrow> key_overlap env tbl (past, s) (s' # past, s')"
| grace: "r \<in> set past \<Longrightarrow> repo_findExpiredRotations env now r = (Inr ks, r) \<Longrightarrow> k \<in> set ks \<Longrightarrow>
    s' = snd (save_and_invalidate env (ApiKey_clearRotationGrace now k) s) \<Longrightarrow> key_overlap env tbl (past, s) (s' # past, s')"

section \<open>A late save\<close>

text \<open>A save keeps the table well-formed, whatever it overwrites, as long as the row is still there or the key is not revoked.\<close>

definition grown :: "('d \<Rightarrow> string \<Rightarrow> ApiKeyProps option) \<Rightarrow> 'd \<Rightarrow> 'd \<Rightarrow> bool" where
  "grown tbl d d' \<longleftrightarrow> keys_wf tbl d' \<and> dom (tbl d) \<subseteq> dom (tbl d')"

definition late_save :: "('d \<Rightarrow> string \<Rightarrow> ApiKeyProps option) \<Rightarrow> 'd \<Rightarrow> ApiKeyProps \<Rightarrow> bool" where
  "late_save tbl d p \<longleftrightarrow> key_wf p \<and> (ak_id p \<in> dom (tbl d) \<or> \<not> isRevoked p)"

lemma late_save_then:
  assumes spec: "key_db_spec (ke_db env) tbl" and wf: "keys_wf tbl (w_db s)" and late: "late_save tbl (w_db s) p"
    and rest: "keeps_table tbl m"
  shows "grown tbl (w_db s) (w_db (snd (act_bind (repo_save env p) (\<lambda>_. m) s)))"
proof (cases "repo_save env p s")
  case (Pair x s1)
  have saved: "grown tbl (w_db s) (w_db s1)"
  proof (cases x)
    case (Inl e)
    then have "s1 = s" using Pair save_failed by blast
    then show ?thesis using wf by (simp add: grown_def)
  next
    case (Inr u)
    then have "tbl (w_db s1) = (tbl (w_db s))
      (ak_id p \<mapsto> (case tbl (w_db s) (ak_id p) of Some r \<Rightarrow> save_update p r | None \<Rightarrow> save_create p))"
      using save_table [OF spec] Pair by blast
    then show ?thesis using wf late
      by (auto simp: grown_def keys_wf_def late_save_def domIff split: option.splits if_splits)
  qed
  have "tbl (w_db (snd (m s1))) = tbl (w_db s1)" using rest by (simp add: keeps_table_def)
  then have "grown tbl (w_db s) (w_db (snd (m s1)))" using saved by (simp add: grown_def keys_wf_def)
  with saved show ?thesis by (simp add: act_bind_def Pair split: sum.split)
qed

lemma late_commits:
  assumes spec: "key_db_spec (ke_db env) tbl" and wf: "keys_wf tbl (w_db s)" and late: "late_save tbl (w_db s) p"
  shows "grown tbl (w_db s) (w_db (snd (rotate_commit env a u (raw, p) s)))" (is ?rotate)
    and "grown tbl (w_db s) (w_db (snd (revoke_commit env a u reason (Some p) s)))" (is ?revoke)
    and "grown tbl (w_db s) (w_db (snd (update_commit env p s)))" (is ?update)
    and "grown tbl (w_db s) (w_db (snd (save_and_invalidate env p s)))" (is ?worker)
    and "p = fst (ApiKey_create (ke_platform env) (ke_pepper env) now rnd params) \<Longrightarrow>
      grown tbl (w_db s) (w_db (snd (create_commit env now rnd params limits s)))" (is "_ \<Longrightarrow> ?create")
proof -
  note after = late_save_then [OF spec wf late]
  show ?rotate unfolding rotate_commit_def prod.case by (rule after) (intro reads_intros spec)
  show ?revoke unfolding revoke_commit_def option.case by (rule after) (intro reads_intros spec)
  show ?update unfolding update_commit_def by (rule after) (intro reads_intros)
  show ?worker unfolding save_and_invalidate_def by (rule after) (intro reads_intros)
  show ?create if "p = fst (ApiKey_create (ke_platform env) (ke_pepper env) now rnd params)"
    unfolding create_commit_def case_prod_beta that [symmetric] by (rule after) (intro reads_intros)
qed

text \<open>What was read in an earlier state is well-formed, and its row is still there.\<close>

definition past_ok :: "('d \<Rightarrow> string \<Rightarrow> ApiKeyProps option) \<Rightarrow> ('d, 'r) world list \<times> ('d, 'r) world \<Rightarrow> bool" where
  "past_ok tbl c \<longleftrightarrow> keys_wf tbl (w_db (snd c)) \<and>
     (\<forall>r \<in> set (fst c). keys_wf tbl (w_db r) \<and> dom (tbl (w_db r)) \<subseteq> dom (tbl (w_db (snd c))))"

lemma late_entity:
  assumes "past_ok tbl (past, s)" "r \<in> set past" "tbl (w_db r) (ak_id k) = Some stored" "same_row stored k"
    "key_wf k \<Longrightarrow> key_wf p" "ak_id p = ak_id k"
  shows "late_save tbl (w_db s) p"
proof -
  have "keys_wf tbl (w_db r)" and rows: "dom (tbl (w_db r)) \<subseteq> dom (tbl (w_db s))"
    using assms(1,2) by (auto simp: past_ok_def)
  then have "key_wf k" using assms(3) same_row_wf [OF assms(4)] unfolding keys_wf_def by blast
  moreover have "ak_id p \<in> dom (tbl (w_db s))" using rows assms(3,6) by (metis domI subsetD)
  ultimately show ?thesis using assms(5) by (simp add: late_save_def)
qed

lemma late_found:
  assumes "key_db_spec (ke_db env) tbl" "past_ok tbl (past, s)" "r \<in> set past"
    "kd_findById (ke_db env) i (w_db r) = Some (Some k)" "key_wf k \<Longrightarrow> key_wf p" "ak_id p = ak_id k"
  shows "late_save tbl (w_db s) p"
  using found_row [OF assms(1,4)] late_entity [OF assms(2,3) _ _ assms(5,6)] by metis

lemma late_listed:
  assumes spec: "key_db_spec (ke_db env) tbl" and "past_ok tbl (past, s)" "r \<in> set past"
    and rows: "kd_findMany (ke_db env) P (w_db r) = Some ks" "k \<in> set ks"
    and "\<And>stored. P stored \<Longrightarrow> same_row stored k \<Longrightarrow> key_wf k \<Longrightarrow> key_wf p" "ak_id p = ak_id k"
  shows "late_save tbl (w_db s) p"
proof (rule rows_matchD [OF db_findMany [OF spec rows(1)] rows(2)])
  fix stored assume st: "tbl (w_db r) (ak_id k) = Some stored" "P stored" "same_row stored k"
  show ?thesis by (rule late_entity [OF assms(2,3) st(1,3) assms(6) [OF st(2,3)] assms(7)])
qed

lemma past_ok_step:
  assumes "past_ok tbl (past, s)" "grown tbl (w_db s) (w_db s')"
  shows "past_ok tbl (s' # past, s')"
  using assms unfolding past_ok_def grown_def by (simp del: domIff) blast

lemma key_overlap_keeps:
  assumes spec: "key_db_spec (ke_db env) tbl" and "key_overlap env tbl c c'" and ok: "past_ok tbl c"
  shows "past_ok tbl c'"
  using assms(2) ok
proof cases
  case (whole s s' past)
  then have "keys_wf tbl (w_db s)" using ok by (simp add: past_ok_def)
  from key_step_keeps [OF spec whole(3) this] have "grown tbl (w_db s) (w_db s')"
    by (auto simp: grown_def keys_progress_def)
  then show ?thesis using past_ok_step ok whole by blast
next
  case (other s' s past)
  then show ?thesis using ok by (auto intro!: past_ok_step simp: grown_def past_ok_def keys_wf_def)
next
  case (create r past params limits s rnd s' now)
  let ?p = "fst (ApiKey_create (ke_platform env) (ke_pepper env) now rnd params)"
  have "set (kp_scopes params) \<subseteq> set ApiScope_values" using create(4) by (rule create_begin_Inr)
  then have "late_save tbl (w_db s) ?p"
    by (simp add: late_save_def key_wf_create) (simp add: ApiKey_create_def Let_def isRevoked_def)
  then have "grown tbl (w_db s) (w_db s')" unfolding create(6)
    using late_commits(5) [OF spec] ok create(1) by (simp add: past_ok_def)
  then show ?thesis using past_ok_step ok create(1,2) by blast
next
  case (rotate r past now raw a u i rotated s' s)
  obtain secret p where x: "rotated = (secret, p)" by fastforce
  from rotate(4) [unfolded x] obtain k where "kd_findById (ke_db env) i (w_db r) = Some (Some k)" "\<not> isRevoked k"
    "p = k\<lparr>ak_previousSecretHash := Some (ak_secretHash k),
           ak_secretHash := hashSecret (ke_platform env) raw (ke_pepper env),
           ak_rotationGraceEndsAt := Some (now + ROTATION_GRACE_MS), ak_updatedAt := now\<rparr>"
    by (rule rotate_begin_Inr)
  then have "late_save tbl (w_db s) p"
    using ok rotate(1,3) by (intro late_found [OF spec, of past s r i k]) (auto simp: key_wf_def isRevoked_def)
  then have "grown tbl (w_db s) (w_db s')" unfolding rotate(5) x
    using late_commits(1) [OF spec] ok rotate(1) by (simp add: past_ok_def)
  then show ?thesis using past_ok_step ok rotate(1,2) by blast
next
  case (revoke r past now a u i revoked s' reason s)
  have "grown tbl (w_db s) (w_db s')"
  proof (cases revoked)
    case None
    then show ?thesis using revoke(5) ok revoke(1) by (simp add: revoke_commit_def act_return_def grown_def past_ok_def)
  next
    case (Some p)
    from revoke(4) [unfolded Some] obtain k where
      "kd_findById (ke_db env) i (w_db r) = Some (Some k)" "\<not> isRevoked k" "p = ApiKey_revoke u now k"
      by (rule revoke_begin_Inr)
    then have "late_save tbl (w_db s) p"
      using ok revoke(1,3) by (intro late_found [OF spec, of past s r i k]) (auto intro: key_wf_revoke)
    then show ?thesis unfolding revoke(5) Some
      using late_commits(2) [OF spec] ok revoke(1) by (simp add: past_ok_def)
  qed
  then show ?thesis using past_ok_step ok revoke(1,2) by blast
next
  case (update r past now uparams p s' s)
  from update(4) obtain k kn where k: "kd_findById (ke_db env) (up_keyId uparams) (w_db r) = Some (Some k)"
    and "\<not> isRevoked k" "kn = k \<or> kn = ApiKey_update (up_name uparams) (up_description uparams) now k"
      "up_scopes uparams = None \<and> p = kn \<or>
       (\<exists>scopes. up_scopes uparams = Some scopes \<and> set scopes \<subseteq> set ApiScope_values \<and>
          p = ApiKey_updateScopes scopes now kn)"
    by (rule update_begin_Inr)
  then have "key_wf k \<Longrightarrow> key_wf p" "ak_id p = ak_id k" by (auto intro: key_wf_intros)
  then have "late_save tbl (w_db s) p" using late_found [OF spec _ update(3) k] ok update(1) by blast
  then have "grown tbl (w_db s) (w_db s')" unfolding update(5)
    using late_commits(3) [OF spec] ok update(1) by (simp add: past_ok_def)
  then show ?thesis using past_ok_step ok update(1,2) by blast
next
  case (expire r past now ks k s' s)
  have rows: "kd_findMany (ke_db env) (\<lambda>k. ak_status k = ACTIVE \<and>
       (case ak_expiresAt k of Some e \<Rightarrow> e \<le> now | None \<Rightarrow> False)) (w_db r) = Some ks"
    using expire(4) by (simp add: repo_findExpiredKeys_def action_simps)
  have "late_save tbl (w_db s) (ApiKey_markExpired now k)"
    using ok unfolding expire(1)
    by (rule late_listed [OF spec _ expire(3) rows expire(5)])
      (auto intro!: key_wf_markExpired simp: isRevoked_def dest: same_row_fields)
  then have "grown tbl (w_db s) (w_db s')" unfolding expire(6)
    using late_commits(4) [OF spec] ok expire(1) by (simp add: past_ok_def)
  then show ?thesis using past_ok_step ok expire(1,2) by blast
next
  case (grace r past now ks k s' s)
  have rows: "kd_findMany (ke_db env) (\<lambda>k.
       (case ak_rotationGraceEndsAt k of Some e \<Rightarrow> e \<le> now | None \<Rightarrow> False) \<and>
       ak_previousSecretHash k \<noteq> None) (w_db r) = Some ks"
    using grace(4) by (simp add: repo_findExpiredRotations_def action_simps)
  have "late_save tbl (w_db s) (ApiKey_clearRotationGrace now k)"
    using ok unfolding grace(1)
    by (rule late_listed [OF spec _ grace(3) rows grace(5)]) (auto intro: key_wf_clear)
  then have "grown tbl (w_db s) (w_db s')" unfolding grace(6)
    using late_commits(4) [OF spec] ok grace(1) by (simp add: past_ok_def)
  then show ?thesis using past_ok_step ok grace(1,2) by blast
qed

section \<open>Well-formed keys\<close>

text \<open>
  C7: The table of API keys stays well-formed, also when calls overlap. Whatever creations, rotations,
  revocations, updates and workers run, each saving what it read in an earlier state while others wrote in between,
  successful or not, on a database that behaves as Prisma documents: in every stored key the previous secret and
  the end of its grace window are present together, the key is revoked exactly when the time and the author of the
  revocation are recorded, and every scope is one of the enumeration.
\<close>

theorem keys_always_wf:
  assumes "key_db_spec (ke_db env) tbl"
    and "(key_overlap env tbl)\<^sup>*\<^sup>* ([s], s) (past, s')"
    and "keys_wf tbl (w_db s)"
    and "tbl (w_db s') i = Some k"
  shows "(ak_previousSecretHash k = None \<longleftrightarrow> ak_rotationGraceEndsAt k = None) \<and>
    (isRevoked k \<longleftrightarrow> ak_revokedAt k \<noteq> None) \<and>
    (isRevoked k \<longleftrightarrow> ak_revokedById k \<noteq> None) \<and>
    set (ak_scopes k) \<subseteq> set ApiScope_values"
proof -
  have "past_ok tbl c'" if "(key_overlap env tbl)\<^sup>*\<^sup>* c c'" "past_ok tbl c" for c c'
    using that by (induction rule: rtranclp_induct) (auto intro: key_overlap_keeps [OF assms(1)])
  moreover have "past_ok tbl ([s], s)" using assms(3) by (simp add: past_ok_def)
  ultimately have "past_ok tbl (past, s')" using assms(2) by blast
  then have "key_wf k" using assms(4) unfolding past_ok_def keys_wf_def by auto
  then show ?thesis unfolding key_wf_def .
qed

text \<open>The rotation reads, a whole revocation runs, the rotation saves: the row it leaves is well-formed, and not revoked.\<close>

theorem keys_always_wf_witness:
  "\<exists>past s' k. (key_overlap (mem_env 100) mem_tbl)\<^sup>*\<^sup>* ([mem_world], mem_world) (past, s') \<and>
     mem_tbl (w_db s') ''k1'' = Some k \<and> ak_previousSecretHash k \<noteq> None \<and> ak_rotationGraceEndsAt k \<noteq> None \<and>
     ak_revokedAt k = None \<and> mem_tbl (w_db (hd (tl past))) ''k1'' = Some (ApiKey_revoke ''u'' 7 mem_key)"
proof -
  let ?env = "mem_env 100"
  let ?s1 = "\<lparr>w_db = [(''k1'', ApiKey_revoke ''u'' 7 mem_key), (''k1'', mem_key)], w_redis = []\<rparr> ::
    (mem_keys, (string, time) jsmap) world"
  let ?s2 = "snd (rotate_commit ?env ''a'' ''u'' (''dd'', mem_rotated) ?s1)"
  have "key_step ?env mem_tbl mem_world ?s1"
    using key_step.revoke [of ?env mem_tbl mem_world 7 "''a''" "''u''" "''k1''" None] by (simp add: mem_revoke)
  then have first: "key_overlap ?env mem_tbl ([mem_world], mem_world) ([?s1, mem_world], ?s1)"
    by (rule key_overlap.whole)
  have second: "key_overlap ?env mem_tbl ([?s1, mem_world], ?s1) ([?s2, ?s1, mem_world], ?s2)"
    by (rule key_overlap.rotate [OF _ mem_rotate_begin refl]) simp
  have steps: "(key_overlap ?env mem_tbl)\<^sup>*\<^sup>* ([mem_world], mem_world) ([?s2, ?s1, mem_world], ?s2)"
    using first second by (meson converse_rtranclp_into_rtranclp r_into_rtranclp)
  have row: "mem_tbl (w_db ?s1) ''k1'' = Some (ApiKey_revoke ''u'' 7 mem_key)" by (simp add: mem_tbl_def mem_key_def)
  then have after: "mem_tbl (w_db ?s2) ''k1'' = Some (save_update mem_rotated (ApiKey_revoke ''u'' 7 mem_key))"
    by (simp add: mem_rotate_commit mem_tbl_def [of "_ # _ # _ # _"]) (simp add: mem_key_def)
  have "ak_previousSecretHash (save_update mem_rotated (ApiKey_revoke ''u'' 7 mem_key)) \<noteq> None"
    "ak_revokedAt (save_update mem_rotated (ApiKey_revoke ''u'' 7 mem_key)) = None"
    by (simp_all add: save_update_def mem_rotated_def mem_key_def)
  with keys_always_wf [OF mem_env_spec steps mem_world_wf after] steps after row show ?thesis
    by (intro exI [of _ "[?s2, ?s1, mem_world]"] exI [of _ ?s2]) auto
qed

end
