(* ===== verification/UsageFlush.thy ===== *)
theory UsageFlush
  imports KeyUseCases KeyMemory UsageLimiter
begin

text \<open>
  \<^verbatim>\<open>apps/api/src/modules/key-management\<close>: how the usage counted in Redis reaches the database. The
  counters of \<^verbatim>\<open>RedisApiKeyCacheService\<close> (\<^verbatim>\<open>scanKeys\<close>, \<^verbatim>\<open>drainUsageCounters\<close>,
  \<^verbatim>\<open>listAccountIdsWithPendingUsage\<close>, the bucket helpers), \<^verbatim>\<open>PrismaUsageAggregateRepository\<close>,
  \<^verbatim>\<open>FlushUsageWorker\<close> and \<^verbatim>\<open>GetApiKeyUsageUseCase\<close>.

  Redis and the table of aggregates are parameters. \<open>usage_db_spec\<close> states what Prisma documents of
  the statements the repository issues, for the sum of the quantities recorded under a natural key
  (account, key, metric, period). \<^verbatim>\<open>scanKeys\<close> follows the cursor until it is 0; a scan that never
  ends, like one that is rejected, is \<open>None\<close>.
\<close>

section \<open>Buckets\<close>

text \<open>\<open>utc\<close> is \<^verbatim>\<open>Date.UTC(year, month, day, hour, minute)\<close>; a NaN argument gives an invalid date.\<close>

definition slice :: "nat \<Rightarrow> nat \<Rightarrow> 'a list \<Rightarrow> 'a list" where
  "slice a b xs = take (b - a) (drop a xs)"

definition parseBucket :: "(int \<Rightarrow> int \<Rightarrow> int \<Rightarrow> int \<Rightarrow> int \<Rightarrow> time) \<Rightarrow> string \<Rightarrow> time option" where
  "parseBucket utc bucket =
     (case (parseInt10 (slice 0 4 bucket), parseInt10 (slice 4 6 bucket), parseInt10 (slice 6 8 bucket),
            parseInt10 (slice 8 10 bucket), parseInt10 (slice 10 12 bucket)) of
        (Some year, Some month, Some day, Some hour, Some minute) \<Rightarrow> Some (utc year (month - 1) day hour minute)
      | _ \<Rightarrow> None)"

section \<open>Redis\<close>

datatype redis_value = RInt int | RStr string | ROther

record 'r usage_redis =
  ur_scan :: "string \<Rightarrow> nat \<Rightarrow> 'r \<Rightarrow> (nat \<times> string list) io"
  ur_pipelineGet :: "string list \<Rightarrow> 'r \<Rightarrow> redis_value list io"
  ur_del :: "string list \<Rightarrow> 'r \<Rightarrow> 'r io"

definition toCounterQuantity :: "redis_value \<Rightarrow> int option" where
  "toCounterQuantity value =
     (case value of
        RInt n \<Rightarrow> if n > 0 then Some n else None
      | RStr s \<Rightarrow>
          if s \<noteq> [] \<and> list_all is_digit s then
            (if read_nat s > 0 then Some (int (read_nat s)) else None)
          else None
      | ROther \<Rightarrow> None)"

partial_function (option) scan_loop ::
  "(nat \<Rightarrow> (nat \<times> string list) option) \<Rightarrow> nat \<Rightarrow> string list \<Rightarrow> string list option" where
  "scan_loop scan cursor keys =
     (case scan cursor of
        None \<Rightarrow> None
      | Some (cursor', batch) \<Rightarrow>
          if cursor' \<noteq> 0 then scan_loop scan cursor' (keys @ batch) else Some (keys @ batch))"

definition scanKeys :: "'r usage_redis \<Rightarrow> string \<Rightarrow> ('d, 'r, string list) action" where
  "scanKeys ur pattern s =
     (case scan_loop (\<lambda>c. ur_scan ur pattern c (w_redis s)) 0 [] of
        None \<Rightarrow> (Inl Rejected, s)
      | Some keys \<Rightarrow> (Inr keys, s))"

record usage_counter =
  uc_apiKeyId :: "string option"
  uc_metric :: string
  uc_periodStart :: "time option"
  uc_quantity :: int

definition counter_of ::
  "(int \<Rightarrow> int \<Rightarrow> int \<Rightarrow> int \<Rightarrow> int \<Rightarrow> time) \<Rightarrow> string \<Rightarrow> redis_value \<Rightarrow> usage_counter option" where
  "counter_of utc key value =
     (case toCounterQuantity value of
        None \<Rightarrow> None
      | Some quantity \<Rightarrow>
          (let parts = str_split (CHR '':'') key in
           if length parts < 5 then None
           else Some \<lparr>uc_apiKeyId = (if parts ! 2 = PUBLIC_USAGE_SENTINEL then None else Some (parts ! 2)),
                      uc_metric = parts ! 3, uc_periodStart = parseBucket utc (parts ! 4),
                      uc_quantity = quantity\<rparr>))"

text \<open>A key whose value is missing in the pipeline's result is skipped.\<close>

definition counters_of ::
  "(int \<Rightarrow> int \<Rightarrow> int \<Rightarrow> int \<Rightarrow> int \<Rightarrow> time) \<Rightarrow> string list \<Rightarrow> redis_value list \<Rightarrow> usage_counter list" where
  "counters_of utc keys results = List.map_filter (\<lambda>(k, v). counter_of utc k v) (zip keys results)"

record ('d, 'r) usage_env =
  ue_keys :: "('d, 'r) key_env"
  ue_redis :: "'r usage_redis"
  ue_utc :: "int \<Rightarrow> int \<Rightarrow> int \<Rightarrow> int \<Rightarrow> int \<Rightarrow> time"

text \<open>
  The drain is cut between its two round trips, so that others can count in between: \<open>drain_read\<close>
  scans and gets, \<open>drain_delete\<close> deletes the keys that were scanned.
\<close>

definition drain_read ::
  "('d, 'r) usage_env \<Rightarrow> string \<Rightarrow> ('d, 'r, string list \<times> usage_counter list) action" where
  "drain_read env accountId =
     act_bind (scanKeys (ue_redis env) (''usage:'' @ accountId @ '':*'')) (\<lambda>keys.
     if keys = [] then act_return ([], [])
     else
       (\<lambda>s. case ur_pipelineGet (ue_redis env) keys (w_redis s) of
          None \<Rightarrow> (Inl Rejected, s)
        | Some results \<Rightarrow> (Inr (keys, counters_of (ue_utc env) keys results), s)))"

definition drain_delete :: "('d, 'r) usage_env \<Rightarrow> string list \<Rightarrow> ('d, 'r, unit) action" where
  "drain_delete env keys s =
     (if keys = [] then (Inr (), s)
      else case ur_del (ue_redis env) keys (w_redis s) of
             None \<Rightarrow> (Inl Rejected, s)
           | Some r \<Rightarrow> (Inr (), s\<lparr>w_redis := r\<rparr>))"

definition drainUsageCounters ::
  "('d, 'r) usage_env \<Rightarrow> string \<Rightarrow> ('d, 'r, usage_counter list) action" where
  "drainUsageCounters env accountId =
     act_bind (drain_read env accountId) (\<lambda>(keys, counters).
     act_bind (drain_delete env keys) (\<lambda>_. act_return counters))"

definition listAccountIdsWithPendingUsage :: "('d, 'r) usage_env \<Rightarrow> ('d, 'r, string list) action" where
  "listAccountIdsWithPendingUsage env =
     act_bind (scanKeys (ue_redis env) ''usage:*'') (\<lambda>keys.
     act_return (rev (remdups (rev
       (List.map_filter (\<lambda>key. let parts = str_split (CHR '':'') key in
          if length parts \<ge> 5 \<and> parts ! 1 \<noteq> [] then Some (parts ! 1) else None) keys)))))"

section \<open>Aggregates\<close>

record UsageAggregateProps =
  ua_id :: string
  ua_accountId :: string
  ua_apiKeyId :: "string option"
  ua_metric :: string
  ua_periodStart :: time
  ua_periodEnd :: time
  ua_quantity :: int
  ua_reportedToStripe :: bool
  ua_lockedAt :: "time option"
  ua_createdAt :: time

definition UsageAggregate_incrementQuantity :: "int \<Rightarrow> UsageAggregateProps \<Rightarrow> UsageAggregateProps option" where
  "UsageAggregate_incrementQuantity amount u =
     (if ua_lockedAt u \<noteq> None then None else Some (u\<lparr>ua_quantity := ua_quantity u + amount\<rparr>))"

definition UsageAggregate_lock :: "time \<Rightarrow> UsageAggregateProps \<Rightarrow> UsageAggregateProps" where
  "UsageAggregate_lock now u = u\<lparr>ua_lockedAt := Some now\<rparr>"

type_synonym natural_key = "string \<times> string option \<times> string \<times> time"

record 'd usage_db =
  ud_findFirst :: "(UsageAggregateProps \<Rightarrow> bool) \<Rightarrow> 'd \<Rightarrow> UsageAggregateProps option io"
  ud_findMany :: "(UsageAggregateProps \<Rightarrow> bool) \<Rightarrow> 'd \<Rightarrow> UsageAggregateProps list io"
  ud_update :: "string \<Rightarrow> (UsageAggregateProps \<Rightarrow> UsageAggregateProps) \<Rightarrow> 'd \<Rightarrow> 'd io"
  ud_create :: "UsageAggregateProps \<Rightarrow> 'd \<Rightarrow> 'd io"
  ud_upsert :: "natural_key \<Rightarrow> (UsageAggregateProps \<Rightarrow> UsageAggregateProps) \<Rightarrow> UsageAggregateProps \<Rightarrow> 'd \<Rightarrow> 'd io"
  ud_updateMany :: "(UsageAggregateProps \<Rightarrow> bool) \<Rightarrow> (UsageAggregateProps \<Rightarrow> UsageAggregateProps) \<Rightarrow> 'd \<Rightarrow> 'd io"

definition add_quantity :: "int \<Rightarrow> UsageAggregateProps \<Rightarrow> UsageAggregateProps" where
  "add_quantity q u = u\<lparr>ua_quantity := ua_quantity u + q\<rparr>"

record UsageQuantity =
  uq_accountId :: string
  uq_apiKeyId :: "string option"
  uq_metric :: string
  uq_periodStart :: time
  uq_periodEnd :: time
  uq_quantity :: int

definition new_aggregate :: "string \<Rightarrow> time \<Rightarrow> UsageQuantity \<Rightarrow> UsageAggregateProps" where
  "new_aggregate uuid now p = \<lparr>
     ua_id = uuid, ua_accountId = uq_accountId p, ua_apiKeyId = uq_apiKeyId p, ua_metric = uq_metric p,
     ua_periodStart = uq_periodStart p, ua_periodEnd = uq_periodEnd p, ua_quantity = uq_quantity p,
     ua_reportedToStripe = False, ua_lockedAt = None, ua_createdAt = now\<rparr>"

definition upsertQuantity ::
  "'d usage_db \<Rightarrow> string \<Rightarrow> time \<Rightarrow> UsageQuantity \<Rightarrow> ('d, 'r, unit) action" where
  "upsertQuantity ud uuid now p =
     (case uq_apiKeyId p of
        None \<Rightarrow>
          act_bind (db_read (ud_findFirst ud (\<lambda>u. ua_accountId u = uq_accountId p \<and> ua_apiKeyId u = None \<and>
             ua_metric u = uq_metric p \<and> ua_periodStart u = uq_periodStart p))) (\<lambda>existing.
          case existing of
            Some u \<Rightarrow> db_write (ud_update ud (ua_id u) (add_quantity (uq_quantity p)))
          | None \<Rightarrow> db_write (ud_create ud (new_aggregate uuid now p)))
      | Some apiKeyId \<Rightarrow>
          db_write (ud_upsert ud (uq_accountId p, Some apiKeyId, uq_metric p, uq_periodStart p)
            (add_quantity (uq_quantity p)) (new_aggregate uuid now p)))"

definition lockPeriod :: "'d usage_db \<Rightarrow> string \<Rightarrow> time \<Rightarrow> time \<Rightarrow> ('d, 'r, unit) action" where
  "lockPeriod ud accountId periodStart now =
     db_write (ud_updateMany ud (\<lambda>u. ua_accountId u = accountId \<and> ua_periodStart u = periodStart \<and>
       ua_lockedAt u = None) (\<lambda>u. u\<lparr>ua_lockedAt := Some now\<rparr>))"

definition findByAccountAndPeriod ::
  "'d usage_db \<Rightarrow> string \<Rightarrow> time \<Rightarrow> time \<Rightarrow> ('d, 'r, UsageAggregateProps list) action" where
  "findByAccountAndPeriod ud accountId periodStart periodEnd =
     db_read (ud_findMany ud (\<lambda>u. ua_accountId u = accountId \<and> ua_apiKeyId u = None \<and>
       periodStart \<le> ua_periodStart u \<and> ua_periodEnd u \<le> periodEnd))"

definition findByApiKeyAndPeriod ::
  "'d usage_db \<Rightarrow> string \<Rightarrow> time \<Rightarrow> time \<Rightarrow> ('d, 'r, UsageAggregateProps list) action" where
  "findByApiKeyAndPeriod ud apiKeyId periodStart periodEnd =
     db_read (ud_findMany ud (\<lambda>u. ua_apiKeyId u = Some apiKeyId \<and>
       periodStart \<le> ua_periodStart u \<and> ua_periodEnd u \<le> periodEnd))"

section \<open>FlushUsageWorker\<close>

text \<open>JavaScript's \<^verbatim>\<open>%\<close> takes the sign of the dividend.\<close>

definition js_rem :: "int \<Rightarrow> int \<Rightarrow> int" where
  "js_rem a b = (if a \<ge> 0 then a mod b else - ((- a) mod b))"

definition bucket_start :: "time \<Rightarrow> time" where
  "bucket_start t = t - js_rem t (5 * 60000)"

definition resolveApiKeyRowId ::
  "('d, 'r) key_env \<Rightarrow> string \<Rightarrow> string \<Rightarrow> ('d, 'r, string option) action" where
  "resolveApiKeyRowId env accountId counterKeyId =
     act_bind (repo_findByKeyId env counterKeyId) (\<lambda>byKeyId.
     act_bind (case byKeyId of Some k \<Rightarrow> act_return (Some k) | None \<Rightarrow> repo_findById env counterKeyId) (\<lambda>key.
     act_return (case key of
         Some k \<Rightarrow> if ak_accountId k = accountId then Some (ak_id k) else None
       | None \<Rightarrow> None)))"

text \<open>
  The body of the inner \<^verbatim>\<open>try\<close>. What it throws is caught, and the counter is logged as lost; a
  write for an invalid date is rejected. The state is the map of row identifiers found so far in this
  account, the counters logged so far, and the world.
\<close>

type_synonym ('d, 'r) flush_state = "(string, string option) jsmap \<times> usage_counter list \<times> ('d, 'r) world"

definition write_counter ::
  "'d usage_db \<Rightarrow> string \<Rightarrow> time \<Rightarrow> string \<Rightarrow> usage_counter \<Rightarrow> string option \<Rightarrow> ('d, 'r) flush_state \<Rightarrow> ('d, 'r) flush_state" where
  "write_counter ud uuid now accountId c rowId st =
     (case st of (resolved, lost, s) \<Rightarrow>
       (case uc_periodStart c of
          None \<Rightarrow> (resolved, lost @ [c], s)
        | Some t \<Rightarrow>
            (case upsertQuantity ud uuid now
               \<lparr>uq_accountId = accountId, uq_apiKeyId = rowId, uq_metric = uc_metric c,
                uq_periodStart = bucket_start t, uq_periodEnd = now, uq_quantity = uc_quantity c\<rparr> s of
               (Inl e, s') \<Rightarrow> (resolved, lost @ [c], s')
             | (Inr _, s') \<Rightarrow> (resolved, lost, s'))))"

definition flush_counter ::
  "('d, 'r) key_env \<Rightarrow> 'd usage_db \<Rightarrow> string \<Rightarrow> time \<Rightarrow> string \<Rightarrow> usage_counter \<Rightarrow> ('d, 'r) flush_state \<Rightarrow> ('d, 'r) flush_state" where
  "flush_counter env ud uuid now accountId c st =
     (case st of (resolved, lost, s) \<Rightarrow>
        (case uc_apiKeyId c of
           None \<Rightarrow> write_counter ud uuid now accountId c None st
         | Some keyId \<Rightarrow>
             (case jm_get resolved keyId of
                Some rowId \<Rightarrow> write_counter ud uuid now accountId c rowId st
              | None \<Rightarrow>
                  (case resolveApiKeyRowId env accountId keyId s of
                     (Inl e, s') \<Rightarrow> (resolved, lost @ [c], s')
                   | (Inr rowId, s') \<Rightarrow>
                       write_counter ud uuid now accountId c rowId (jm_set keyId rowId resolved, lost, s')))))"

primrec flush_counters ::
  "('d, 'r) key_env \<Rightarrow> 'd usage_db \<Rightarrow> (nat \<Rightarrow> string) \<Rightarrow> time \<Rightarrow> string \<Rightarrow> usage_counter list \<Rightarrow>
   ('d, 'r) flush_state \<Rightarrow> ('d, 'r) flush_state" where
  "flush_counters env ud uuids now accountId [] st = st"
| "flush_counters env ud uuids now accountId (c # cs) st =
     flush_counters env ud uuids now accountId cs (flush_counter env ud (uuids (length cs)) now accountId c st)"

text \<open>
  One account: \<open>uuids\<close> and \<open>clock\<close> are what \<^verbatim>\<open>randomUUID\<close> and \<^verbatim>\<open>new Date()\<close> give it. The result
  is what was logged.
\<close>

definition flush_write ::
  "('d, 'r) usage_env \<Rightarrow> 'd usage_db \<Rightarrow> (string \<Rightarrow> nat \<Rightarrow> string) \<Rightarrow> (string \<Rightarrow> time) \<Rightarrow> string \<Rightarrow>
   usage_counter list \<Rightarrow> ('d, 'r, usage_counter list) action" where
  "flush_write env ud uuids clock accountId counters s =
     (case flush_counters (ue_keys env) ud (uuids accountId) (clock accountId) accountId counters ([], [], s) of
        (resolved, lost, s') \<Rightarrow> (Inr lost, s'))"

definition flush_account ::
  "('d, 'r) usage_env \<Rightarrow> 'd usage_db \<Rightarrow> (string \<Rightarrow> nat \<Rightarrow> string) \<Rightarrow> (string \<Rightarrow> time) \<Rightarrow> string \<Rightarrow>
   ('d, 'r, usage_counter list) action" where
  "flush_account env ud uuids clock accountId =
     act_bind (drainUsageCounters env accountId) (flush_write env ud uuids clock accountId)"

primrec FlushUsageWorker_run ::
  "('d, 'r) usage_env \<Rightarrow> 'd usage_db \<Rightarrow> (string \<Rightarrow> nat \<Rightarrow> string) \<Rightarrow> (string \<Rightarrow> time) \<Rightarrow> string list \<Rightarrow>
   ('d, 'r, usage_counter list) action" where
  "FlushUsageWorker_run env ud uuids clock [] = act_return []"
| "FlushUsageWorker_run env ud uuids clock (accountId # accountIds) =
     act_bind (flush_account env ud uuids clock accountId) (\<lambda>lost.
     act_bind (FlushUsageWorker_run env ud uuids clock accountIds) (\<lambda>losts.
     act_return (lost @ losts)))"

definition runForPendingAccounts ::
  "('d, 'r) usage_env \<Rightarrow> 'd usage_db \<Rightarrow> (string \<Rightarrow> nat \<Rightarrow> string) \<Rightarrow> (string \<Rightarrow> time) \<Rightarrow>
   (string list \<Rightarrow> 'd \<Rightarrow> string list io) \<Rightarrow> ('d, 'r, usage_counter list) action" where
  "runForPendingAccounts env ud uuids clock filterKnownAccounts =
     act_bind (listAccountIdsWithPendingUsage env) (\<lambda>pending.
     if pending = [] then act_return []
     else act_bind (db_read (filterKnownAccounts pending)) (FlushUsageWorker_run env ud uuids clock))"

section \<open>GetApiKeyUsageUseCase\<close>

record UsageDTO =
  udto_metric :: string
  udto_periodStart :: time
  udto_periodEnd :: time
  udto_quantity :: string

definition toUsageDTO :: "UsageAggregateProps \<Rightarrow> UsageDTO" where
  "toUsageDTO a = \<lparr>udto_metric = ua_metric a, udto_periodStart = ua_periodStart a,
     udto_periodEnd = ua_periodEnd a, udto_quantity = show_int (ua_quantity a)\<rparr>"

datatype UsageResult = KeyUsage string "UsageDTO list" | AccountUsage string "UsageDTO list"

definition GetApiKeyUsage_execute ::
  "('d, 'r) key_env \<Rightarrow> 'd usage_db \<Rightarrow> string \<Rightarrow> string \<Rightarrow> string option \<Rightarrow> time \<Rightarrow> time \<Rightarrow>
   ('d, 'r, UsageResult) action" where
  "GetApiKeyUsage_execute env ud accountId actorUserId keyId periodStart periodEnd =
     act_bind (member_or_throw env accountId actorUserId) (\<lambda>level.
     act_bind (act_require (canViewUsage level) (ForbiddenError ''Insufficient permissions to view usage'')) (\<lambda>_.
     if (case keyId of Some k \<Rightarrow> k \<noteq> [] | None \<Rightarrow> False) then
       act_bind (key_or_throw env accountId (the keyId)) (\<lambda>_.
       act_bind (findByApiKeyAndPeriod ud (the keyId) periodStart periodEnd) (\<lambda>aggregates.
       act_return (KeyUsage (the keyId) (map toUsageDTO aggregates))))
     else
       act_bind (findByAccountAndPeriod ud accountId periodStart periodEnd) (\<lambda>aggregates.
       act_return (AccountUsage accountId (map toUsageDTO aggregates)))))"

section \<open>What the table records\<close>

definition natural_key_of :: "UsageAggregateProps \<Rightarrow> natural_key" where
  "natural_key_of u = (ua_accountId u, ua_apiKeyId u, ua_metric u, ua_periodStart u)"

text \<open>The rows by identifier, and the laws of the statements.\<close>

definition usage_db_spec :: "'d usage_db \<Rightarrow> ('d \<Rightarrow> string \<Rightarrow> UsageAggregateProps option) \<Rightarrow> bool" where
  "usage_db_spec ud rows \<longleftrightarrow>
     (\<forall>d. finite (dom (rows d))) \<and>
     (\<forall>d P u. ud_findFirst ud P d = Some (Some u) \<longrightarrow> rows d (ua_id u) = Some u \<and> P u) \<and>
     (\<forall>d i u f d'. ud_update ud i f d = Some d' \<and> rows d i = Some u \<longrightarrow> rows d' = (rows d)(i \<mapsto> f u)) \<and>
     (\<forall>d c d'. ud_create ud c d = Some d' \<longrightarrow> rows d (ua_id c) = None \<and> rows d' = (rows d)(ua_id c \<mapsto> c)) \<and>
     (\<forall>d nk f c d'. ud_upsert ud nk f c d = Some d' \<longrightarrow>
        (\<exists>i u. rows d i = Some u \<and> natural_key_of u = nk \<and> rows d' = (rows d)(i \<mapsto> f u)) \<or>
        rows d (ua_id c) = None \<and> rows d' = (rows d)(ua_id c \<mapsto> c))"

definition contribution :: "(natural_key \<Rightarrow> bool) \<Rightarrow> UsageAggregateProps option \<Rightarrow> int" where
  "contribution Q row = (case row of Some u \<Rightarrow> if Q (natural_key_of u) then ua_quantity u else 0 | None \<Rightarrow> 0)"

definition recorded :: "('d \<Rightarrow> string \<Rightarrow> UsageAggregateProps option) \<Rightarrow> 'd \<Rightarrow> (natural_key \<Rightarrow> bool) \<Rightarrow> int" where
  "recorded rows d Q = (\<Sum>i \<in> dom (rows d). contribution Q (rows d i))"

lemma sum_contribution_upd:
  assumes "finite (dom f)"
  shows "(\<Sum>i \<in> dom (f(j \<mapsto> u)). contribution Q ((f(j \<mapsto> u)) i)) =
    (\<Sum>i \<in> dom f. contribution Q (f i)) - contribution Q (f j) + contribution Q (Some u)"
proof -
  have "(\<Sum>i \<in> dom (f(j \<mapsto> u)). contribution Q ((f(j \<mapsto> u)) i)) =
      contribution Q (Some u) + (\<Sum>i \<in> dom f - {j}. contribution Q ((f(j \<mapsto> u)) i))"
    using sum.insert_remove [OF assms, of "\<lambda>i. contribution Q ((f(j \<mapsto> u)) i)" j] by simp
  moreover have "(\<Sum>i \<in> dom f - {j}. contribution Q ((f(j \<mapsto> u)) i)) = (\<Sum>i \<in> dom f - {j}. contribution Q (f i))"
    by (rule sum.cong) auto
  moreover have "(\<Sum>i \<in> dom f - {j}. contribution Q (f i)) =
      (\<Sum>i \<in> dom f. contribution Q (f i)) - contribution Q (f j)"
  proof (cases "j \<in> dom f")
    case True
    then show ?thesis using sum_diff1 [OF assms, of "\<lambda>i. contribution Q (f i)" j] by simp
  next
    case False
    then show ?thesis by (simp add: contribution_def domIff)
  qed
  ultimately show ?thesis by simp
qed

lemma usage_finite: assumes "usage_db_spec ud rows" shows "finite (dom (rows d))"
  using assms [unfolded usage_db_spec_def, THEN conjunct1] by blast

lemma usage_findFirst:
  assumes "usage_db_spec ud rows"
  shows "ud_findFirst ud P d = Some (Some u) \<Longrightarrow> rows d (ua_id u) = Some u \<and> P u"
  using assms [unfolded usage_db_spec_def, THEN conjunct2, THEN conjunct1] by blast

lemma usage_update:
  assumes "usage_db_spec ud rows"
  shows "ud_update ud i f d = Some d' \<Longrightarrow> rows d i = Some u \<Longrightarrow> rows d' = (rows d)(i \<mapsto> f u)"
  using assms [unfolded usage_db_spec_def, THEN conjunct2, THEN conjunct2, THEN conjunct1] by blast

lemma usage_create:
  assumes "usage_db_spec ud rows"
  shows "ud_create ud c d = Some d' \<Longrightarrow> rows d (ua_id c) = None \<and> rows d' = (rows d)(ua_id c \<mapsto> c)"
  using assms [unfolded usage_db_spec_def, THEN conjunct2, THEN conjunct2, THEN conjunct2, THEN conjunct1] by blast

lemma usage_upsert:
  assumes "usage_db_spec ud rows"
  shows "ud_upsert ud nk f c d = Some d' \<Longrightarrow>
    (\<exists>i u. rows d i = Some u \<and> natural_key_of u = nk \<and> rows d' = (rows d)(i \<mapsto> f u)) \<or>
    rows d (ua_id c) = None \<and> rows d' = (rows d)(ua_id c \<mapsto> c)"
  using assms [unfolded usage_db_spec_def, THEN conjunct2, THEN conjunct2, THEN conjunct2, THEN conjunct2] by blast

lemma recorded_upd:
  assumes "usage_db_spec ud rows" "rows d' = (rows d)(j \<mapsto> u)"
  shows "recorded rows d' Q = recorded rows d Q - contribution Q (rows d j) + contribution Q (Some u)"
  unfolding recorded_def assms(2) by (rule sum_contribution_upd [OF usage_finite [OF assms(1)]])

lemma contribution_add [simp]:
  "contribution Q (Some (add_quantity q u)) =
     contribution Q (Some u) + (if Q (natural_key_of u) then q else 0)"
  by (simp add: contribution_def add_quantity_def natural_key_of_def)

lemma upsertQuantity_recorded:
  assumes spec: "usage_db_spec ud rows" and run: "upsertQuantity ud uuid now p s = (Inr x, s')"
  shows "recorded rows (w_db s') Q = recorded rows (w_db s) Q +
    (if Q (uq_accountId p, uq_apiKeyId p, uq_metric p, uq_periodStart p) then uq_quantity p else 0)"
proof -
  let ?nk = "(uq_accountId p, uq_apiKeyId p, uq_metric p, uq_periodStart p)"
  let ?c = "new_aggregate uuid now p" and ?q = "uq_quantity p"
  have new: "contribution Q (Some ?c) = (if Q ?nk then ?q else 0)"
    by (simp add: contribution_def natural_key_of_def new_aggregate_def)
  have "(\<exists>i u. rows (w_db s) i = Some u \<and> natural_key_of u = ?nk \<and>
        rows (w_db s') = (rows (w_db s))(i \<mapsto> add_quantity ?q u)) \<or>
      rows (w_db s) (ua_id ?c) = None \<and> rows (w_db s') = (rows (w_db s))(ua_id ?c \<mapsto> ?c)"
  proof (cases "uq_apiKeyId p")
    case None
    from run obtain existing where find: "ud_findFirst ud (\<lambda>u. ua_accountId u = uq_accountId p \<and>
          ua_apiKeyId u = None \<and> ua_metric u = uq_metric p \<and> ua_periodStart u = uq_periodStart p) (w_db s) = Some existing"
      and "write": "case existing of
            Some u \<Rightarrow> db_write (ud_update ud (ua_id u) (add_quantity ?q)) s = (Inr x, s')
          | None \<Rightarrow> db_write (ud_create ud ?c) s = (Inr x, s')"
      by (auto simp: upsertQuantity_def None action_simps split: option.splits)
    show ?thesis
    proof (cases existing)
      case (Some u)
      then have "rows (w_db s) (ua_id u) = Some u" "natural_key_of u = ?nk"
        using usage_findFirst [OF spec find [unfolded Some]] None by (simp_all add: natural_key_of_def)
      moreover have "ud_update ud (ua_id u) (add_quantity ?q) (w_db s) = Some (w_db s')"
        using "write" Some by (auto simp: action_simps)
      ultimately show ?thesis using usage_update [OF spec] by blast
    next
      case None
      then have "ud_create ud ?c (w_db s) = Some (w_db s')" using "write" by (auto simp: action_simps)
      then show ?thesis using usage_create [OF spec] by blast
    qed
  next
    case (Some k)
    then have "ud_upsert ud ?nk (add_quantity ?q) ?c (w_db s) = Some (w_db s')"
      using run by (auto simp: upsertQuantity_def action_simps)
    then show ?thesis by (rule usage_upsert [OF spec])
  qed
  then show ?thesis
  proof (elim disjE exE conjE)
    fix i u assume "rows (w_db s) i = Some u" "natural_key_of u = ?nk"
      "rows (w_db s') = (rows (w_db s))(i \<mapsto> add_quantity ?q u)"
    then show ?thesis using recorded_upd [OF spec] by simp
  next
    assume "rows (w_db s) (ua_id ?c) = None" "rows (w_db s') = (rows (w_db s))(ua_id ?c \<mapsto> ?c)"
    then show ?thesis using recorded_upd [OF spec] new by (simp add: contribution_def)
  qed
qed

lemma upsertQuantity_failed: "upsertQuantity ud uuid now p s = (Inl e, s') \<Longrightarrow> s' = s"
  by (auto simp: upsertQuantity_def act_bind_def db_read_def db_write_def split: option.splits prod.splits sum.splits)

section \<open>Conservation\<close>

text \<open>What is recorded for an account, a metric and a period, over all keys, and what counters hold for it.\<close>

definition usage_total :: "('d \<Rightarrow> string \<Rightarrow> UsageAggregateProps option) \<Rightarrow> 'd \<Rightarrow> string \<Rightarrow> string \<Rightarrow> time \<Rightarrow> int" where
  "usage_total rows d a m t = recorded rows d (\<lambda>(a', k, m', t'). a' = a \<and> m' = m \<and> t' = t)"

definition counted :: "usage_counter list \<Rightarrow> string \<Rightarrow> time \<Rightarrow> int" where
  "counted cs m t = sum_list (map (\<lambda>c. if uc_metric c = m \<and> map_option bucket_start (uc_periodStart c) = Some t
     then uc_quantity c else 0) cs)"

lemma counted_simps [simp]:
  "counted [] m t = 0" "counted (cs @ ds) m t = counted cs m t + counted ds m t"
  by (simp_all add: counted_def)

lemma counted_Cons: "counted (c # cs) m t = counted [c] m t + counted cs m t"
  by (simp add: counted_def)

lemma write_counter_conserves:
  assumes spec: "usage_db_spec ud rows"
    and "write_counter ud uuid now a c rowId (resolved, lost, s) = (resolved', lost', s')"
  shows "usage_total rows (w_db s') a m t + counted lost' m t =
    usage_total rows (w_db s) a m t + counted lost m t + counted [c] m t"
proof (cases "uc_periodStart c")
  case None
  then show ?thesis using assms(2) by (auto simp: write_counter_def counted_def)
next
  case (Some p)
  let ?q = "\<lparr>uq_accountId = a, uq_apiKeyId = rowId, uq_metric = uc_metric c,
    uq_periodStart = bucket_start p, uq_periodEnd = now, uq_quantity = uc_quantity c\<rparr>"
  obtain r s1 where run: "upsertQuantity ud uuid now ?q s = (r, s1)" by fastforce
  show ?thesis
  proof (cases r)
    case (Inl e)
    then have "s1 = s" using run upsertQuantity_failed by blast
    then show ?thesis using assms(2) Some run Inl by (auto simp: write_counter_def)
  next
    case (Inr x)
    then have "lost' = lost" "s' = s1" using assms(2) Some run by (auto simp: write_counter_def)
    then show ?thesis using upsertQuantity_recorded [OF spec run [unfolded Inr]] Some
      by (simp add: usage_total_def counted_def)
  qed
qed

lemma resolve_reads: "resolveApiKeyRowId env a k s = (r, s') \<Longrightarrow> s' = s"
  by (auto simp: resolveApiKeyRowId_def repo_findByKeyId_def repo_findById_def act_bind_def db_read_def
      act_return_def split: option.splits prod.splits sum.splits)

lemma flush_counter_conserves:
  assumes spec: "usage_db_spec ud rows"
    and "flush_counter env ud uuid now a c (resolved, lost, s) = (resolved', lost', s')"
  shows "usage_total rows (w_db s') a m t + counted lost' m t =
    usage_total rows (w_db s) a m t + counted lost m t + counted [c] m t"
proof -
  consider rowId resolved1 where "write_counter ud uuid now a c rowId (resolved1, lost, s) = (resolved', lost', s')"
    | "lost' = lost @ [c]" "s' = s"
    using assms(2) resolve_reads [of env a "the (uc_apiKeyId c)" s]
    by (auto simp: flush_counter_def split: option.splits prod.splits sum.splits)
  then show ?thesis using write_counter_conserves [OF spec] by cases auto
qed

lemma flush_counters_conserve:
  assumes spec: "usage_db_spec ud rows"
    and "flush_counters env ud uuids now a cs (resolved, lost, s) = (resolved', lost', s')"
  shows "usage_total rows (w_db s') a m t + counted lost' m t =
    usage_total rows (w_db s) a m t + counted lost m t + counted cs m t"
  using assms(2)
proof (induction cs arbitrary: resolved lost s)
  case (Cons c cs)
  obtain r1 l1 s1 where one: "flush_counter env ud (uuids (length cs)) now a c (resolved, lost, s) = (r1, l1, s1)"
    by (metis prod_cases3)
  with Cons.prems have "flush_counters env ud uuids now a cs (r1, l1, s1) = (resolved', lost', s')" by simp
  from Cons.IH [OF this] flush_counter_conserves [OF spec one, of m t] show ?case
    by (simp add: counted_Cons [of c cs])
qed simp

lemma flush_write_returns: "\<exists>lost s'. flush_write env ud uuids clock a counters s = (Inr lost, s')"
  by (simp add: flush_write_def split: prod.split)

text \<open>The two halves of the drain with the writes are the flush of an account.\<close>

lemma flush_account_halves:
  "flush_account env ud uuids clock a =
     act_bind (drain_read env a) (\<lambda>(keys, counters).
     act_bind (drain_delete env keys) (\<lambda>_. flush_write env ud uuids clock a counters))"
  by (auto simp: fun_eq_iff flush_account_def drainUsageCounters_def act_bind_def act_return_def
      split: prod.splits sum.splits)

subsection \<open>What waits in Redis\<close>

text \<open>
  What the code relies on in Redis: a GET gives a counter as a number or as its digits, a DEL removes
  the keys it names and no others.
\<close>

definition reads_as :: "int option \<Rightarrow> redis_value \<Rightarrow> bool" where
  "reads_as n v = (case n of None \<Rightarrow> v = ROther | Some q \<Rightarrow> v = RInt q \<or> v = RStr (show_int q))"

definition usage_redis_spec :: "'r usage_redis \<Rightarrow> ('r \<Rightarrow> string \<Rightarrow> int option) \<Rightarrow> bool" where
  "usage_redis_spec ur vals \<longleftrightarrow>
     (\<forall>r. finite (dom (vals r))) \<and>
     (\<forall>keys r vs. ur_pipelineGet ur keys r = Some vs \<longrightarrow> list_all2 (\<lambda>k v. reads_as (vals r k) v) keys vs) \<and>
     (\<forall>keys r r'. ur_del ur keys r = Some r' \<longrightarrow> vals r' = (\<lambda>k. if k \<in> set keys then None else vals r k))"

text \<open>The metric and the five-minute period a key of the hub's form counts for the account.\<close>

definition key_period ::
  "(int \<Rightarrow> int \<Rightarrow> int \<Rightarrow> int \<Rightarrow> int \<Rightarrow> time) \<Rightarrow> string \<Rightarrow> string \<Rightarrow> (string \<times> time) option" where
  "key_period utc accountId key =
     (case str_split (CHR '':'') key of
        [u, a, keyId, metric, bucket] \<Rightarrow>
          if u = ''usage'' \<and> a = accountId
          then map_option (\<lambda>p. (metric, bucket_start p)) (parseBucket utc bucket) else None
      | _ \<Rightarrow> None)"

definition weight ::
  "(int \<Rightarrow> int \<Rightarrow> int \<Rightarrow> int \<Rightarrow> int \<Rightarrow> time) \<Rightarrow> string \<Rightarrow> string \<Rightarrow> time \<Rightarrow> (string \<Rightarrow> int option) \<Rightarrow> string \<Rightarrow> int" where
  "weight utc a m t values k =
     (if key_period utc a k = Some (m, t) then (case values k of Some q \<Rightarrow> max q 0 | None \<Rightarrow> 0) else 0)"

definition waiting ::
  "(int \<Rightarrow> int \<Rightarrow> int \<Rightarrow> int \<Rightarrow> int \<Rightarrow> time) \<Rightarrow> string \<Rightarrow> string \<Rightarrow> time \<Rightarrow> (string \<Rightarrow> int option) \<Rightarrow> int" where
  "waiting utc a m t values = (\<Sum>k \<in> dom values. weight utc a m t values k)"

text \<open>A complete iteration that reports every counter of the account, and each of them once.\<close>

definition scan_exact :: "('d, 'r) usage_env \<Rightarrow> ('r \<Rightarrow> string \<Rightarrow> int option) \<Rightarrow> string \<Rightarrow> 'r \<Rightarrow> bool" where
  "scan_exact env vals a r \<longleftrightarrow>
     (\<forall>keys. scan_loop (\<lambda>c. ur_scan (ue_redis env) (''usage:'' @ a @ '':*'') c r) 0 [] = Some keys \<longrightarrow>
        distinct keys \<and> set keys = {k. vals r k \<noteq> None \<and> key_period (ue_utc env) a k \<noteq> None})"

lemma show_nat_all_digits: "list_all is_digit (show_nat n)"
  using show_nat_digits [of _ n] by (auto simp: list_all_iff is_digit_def)

lemma show_nat_nonempty: "show_nat n \<noteq> []"
  by (simp add: show_nat.simps [of n])

lemma counter_quantity:
  assumes "reads_as n v"
  shows "toCounterQuantity v = (case n of Some q \<Rightarrow> if q > 0 then Some q else None | None \<Rightarrow> None)"
proof (cases n)
  case (Some q)
  have "toCounterQuantity (RStr (show_int q)) = (if q > 0 then Some q else None)"
  proof (cases "q < 0")
    case True
    then show ?thesis by (simp add: toCounterQuantity_def show_int_def is_digit_def)
  next
    case False
    then show ?thesis using show_nat_all_digits [of "nat q"] show_nat_nonempty [of "nat q"]
      by (auto simp: toCounterQuantity_def show_int_def read_show_nat)
  qed
  then show ?thesis using assms Some by (auto simp: reads_as_def toCounterQuantity_def)
qed (use assms in \<open>simp add: reads_as_def toCounterQuantity_def\<close>)

lemma counter_weight:
  assumes "reads_as (values k) v" "key_period utc a k \<noteq> None"
  shows "counted (case counter_of utc k v of Some c \<Rightarrow> [c] | None \<Rightarrow> []) m t = weight utc a m t values k"
proof -
  obtain u a' keyId metric bucket where parts: "str_split (CHR '':'') k = [u, a', keyId, metric, bucket]"
    using assms(2) unfolding key_period_def by (auto split: list.splits)
  then have "key_period utc a k = map_option (\<lambda>p. (metric, bucket_start p)) (parseBucket utc bucket)"
    using assms(2) unfolding key_period_def parts by (simp split: if_splits)
  then show ?thesis
    by (cases "values k"; cases "parseBucket utc bucket")
      (auto simp: counter_of_def counter_quantity [OF assms(1)] parts weight_def counted_def Let_def numeral_eq_Suc max_def)
qed

lemma counters_weight:
  assumes "list_all2 (\<lambda>k v. reads_as (values k) v) keys vs" "\<forall>k \<in> set keys. key_period utc a k \<noteq> None"
  shows "counted (counters_of utc keys vs) m t = sum_list (map (weight utc a m t values) keys)"
  using assms
proof (induction rule: list_all2_induct)
  case (Cons k ks v vs)
  have "counters_of utc (k # ks) (v # vs) = (case counter_of utc k v of Some c \<Rightarrow> [c] | None \<Rightarrow> []) @ counters_of utc ks vs"
    by (simp add: counters_of_def List.map_filter_simps split: option.split)
  then show ?case using Cons counter_weight [of "values" k v, OF Cons.hyps(1)] by simp
qed (simp add: counters_of_def List.map_filter_simps)

lemma drain_read_Inr:
  assumes spec: "usage_redis_spec (ue_redis env) vals" and scan: "scan_exact env vals a (w_redis s)"
    and run: "drain_read env a s = (Inr (keys, counters), s')"
  shows "distinct keys" "set keys = {k. vals (w_redis s) k \<noteq> None \<and> key_period (ue_utc env) a k \<noteq> None}"
    and "counted counters m t = (\<Sum>k \<in> set keys. weight (ue_utc env) a m t (vals (w_redis s)) k)"
proof -
  obtain ks where scanned: "scan_loop (\<lambda>c. ur_scan (ue_redis env) (''usage:'' @ a @ '':*'') c (w_redis s)) 0 [] = Some ks"
    and rest: "ks = [] \<and> keys = [] \<and> counters = [] \<or> ks = keys \<and> (\<exists>vs. ur_pipelineGet (ue_redis env) keys (w_redis s) = Some vs \<and>
      counters = counters_of (ue_utc env) keys vs)"
    using run by (auto simp: drain_read_def scanKeys_def act_bind_def act_return_def split: option.splits if_splits)
  have same: "ks = keys" using rest by auto
  show keys: "distinct keys" "set keys = {k. vals (w_redis s) k \<noteq> None \<and> key_period (ue_utc env) a k \<noteq> None}"
    using scan scanned unfolding scan_exact_def same by blast+
  have "counted counters m t = sum_list (map (weight (ue_utc env) a m t (vals (w_redis s))) keys)"
    using rest
  proof
    assume "ks = keys \<and> (\<exists>vs. ur_pipelineGet (ue_redis env) keys (w_redis s) = Some vs \<and>
      counters = counters_of (ue_utc env) keys vs)"
    then obtain vs where "ur_pipelineGet (ue_redis env) keys (w_redis s) = Some vs" "counters = counters_of (ue_utc env) keys vs"
      by blast
    moreover from this(1) have "list_all2 (\<lambda>k v. reads_as (vals (w_redis s) k) v) keys vs"
      using spec unfolding usage_redis_spec_def by blast
    ultimately show ?thesis using counters_weight [of "vals (w_redis s)" keys vs "ue_utc env" a m t] keys(2) by auto
  qed simp
  then show "counted counters m t = (\<Sum>k \<in> set keys. weight (ue_utc env) a m t (vals (w_redis s)) k)"
    by (simp add: sum_list_distinct_conv_sum_set [OF keys(1)])
qed

lemma waiting_over:
  assumes "finite A" "dom values \<subseteq> A"
  shows "waiting utc a m t values = (\<Sum>k \<in> A. weight utc a m t values k)"
  unfolding waiting_def by (rule sum.mono_neutral_left [OF assms]) (auto simp: weight_def domIff)

lemma waiting_deleted:
  assumes fin: "finite (dom values)" and del: "values' = (\<lambda>k. if k \<in> set keys then None else values k)"
  shows "waiting utc a m t values' = waiting utc a m t values - (\<Sum>k \<in> set keys. weight utc a m t values k)"
proof -
  let ?A = "dom values \<union> set keys"
  have A: "finite ?A" using fin by simp
  have "waiting utc a m t values' = (\<Sum>k \<in> ?A. weight utc a m t values' k)"
    by (rule waiting_over [OF A]) (auto simp: del split: if_splits)
  also have "\<dots> = (\<Sum>k \<in> ?A - set keys. weight utc a m t values k)"
    by (rule sum.mono_neutral_cong_right [OF A]) (auto simp: del weight_def)
  also have "\<dots> = (\<Sum>k \<in> ?A. weight utc a m t values k) - (\<Sum>k \<in> set keys. weight utc a m t values k)"
    by (rule sum_diff [OF A]) simp
  also have "(\<Sum>k \<in> ?A. weight utc a m t values k) = waiting utc a m t values"
    by (rule waiting_over [OF A, symmetric]) simp
  finally show ?thesis .
qed

lemma upsert_redis: "upsertQuantity ud uuid now p s = (r, s') \<Longrightarrow> w_redis s' = w_redis s"
  by (auto simp: upsertQuantity_def act_bind_def db_read_def db_write_def split: option.splits prod.splits sum.splits)

lemma write_counter_redis: "write_counter ud uuid now a c rowId (resolved, lost, s) = (resolved', lost', s') \<Longrightarrow> w_redis s' = w_redis s"
  by (auto simp: write_counter_def split: option.splits prod.splits sum.splits dest: upsert_redis)

lemma flush_counter_redis:
  "flush_counter env ud uuid now a c (resolved, lost, s) = (resolved', lost', s') \<Longrightarrow> w_redis s' = w_redis s"
  by (auto simp: flush_counter_def split: option.splits prod.splits sum.splits dest: write_counter_redis dest!: resolve_reads)

lemma flush_counters_redis:
  "flush_counters env ud uuids now a cs (resolved, lost, s) = (resolved', lost', s') \<Longrightarrow> w_redis s' = w_redis s"
proof (induction cs arbitrary: resolved lost s)
  case (Cons c cs)
  obtain r1 l1 s1 where one: "flush_counter env ud (uuids (length cs)) now a c (resolved, lost, s) = (r1, l1, s1)"
    by (metis prod_cases3)
  with Cons.prems have "flush_counters env ud uuids now a cs (r1, l1, s1) = (resolved', lost', s')" by simp
  from Cons.IH [OF this] flush_counter_redis [OF one] show ?case by simp
qed simp

text \<open>
  C22: A flush moves usage and accounts for every unit of it. For every metric and five-minute period of an
  account, what is recorded in the database, what is logged as lost and what still waits in Redis
  add up to the same before and after the flush of the account, and no counter the scan found is left
  in Redis; provided SCAN reports each counter of the account once. Between the GET and the DEL any other call
  may run, in the database and in Redis; the sum is then short of exactly what was counted meanwhile on the keys
  that the DEL removes, which the code loses.
\<close>

theorem flush_conserves:
  assumes "usage_db_spec ud rows" "usage_redis_spec (ue_redis env) vals" "scan_exact env vals a (w_redis s)"
    and "drain_read env a s = (Inr (keys, counters), s')"
    and "drain_delete env keys s1 = (Inr (), s2)"
    and "flush_write env ud uuids clock a counters s2 = (Inr lost, s3)"
  shows "usage_total rows (w_db s3) a m t + counted lost m t + waiting (ue_utc env) a m t (vals (w_redis s3)) =
      usage_total rows (w_db s1) a m t + waiting (ue_utc env) a m t (vals (w_redis s1)) -
      (\<Sum>k \<in> set keys. weight (ue_utc env) a m t (vals (w_redis s1)) k - weight (ue_utc env) a m t (vals (w_redis s)) k) \<and>
    (\<forall>k. vals (w_redis s) k \<noteq> None \<and> key_period (ue_utc env) a k \<noteq> None \<longrightarrow> vals (w_redis s3) k = None)"
proof -
  note drained = drain_read_Inr [OF assms(2-4)]
  have del: "vals (w_redis s2) = (\<lambda>k. if k \<in> set keys then None else vals (w_redis s1) k)" and db: "w_db s2 = w_db s1"
    using assms(2,5) unfolding usage_redis_spec_def drain_delete_def by (auto split: if_splits option.splits)
  obtain resolved where flush: "flush_counters (ue_keys env) ud (uuids a) (clock a) a counters ([], [], s2) = (resolved, lost, s3)"
    using assms(6) unfolding flush_write_def by (auto split: prod.splits)
  have redis: "w_redis s3 = w_redis s2" by (rule flush_counters_redis [OF flush])
  have "finite (dom (vals (w_redis s1)))" using assms(2) unfolding usage_redis_spec_def by blast
  note rest = waiting_deleted [OF this del, of "ue_utc env" a m t]
  have "usage_total rows (w_db s3) a m t + counted lost m t = usage_total rows (w_db s1) a m t + counted counters m t"
    using flush_counters_conserve [OF assms(1) flush, of m t] db by simp
  then have "usage_total rows (w_db s3) a m t + counted lost m t + waiting (ue_utc env) a m t (vals (w_redis s3)) =
      usage_total rows (w_db s1) a m t + waiting (ue_utc env) a m t (vals (w_redis s1)) -
      (\<Sum>k \<in> set keys. weight (ue_utc env) a m t (vals (w_redis s1)) k - weight (ue_utc env) a m t (vals (w_redis s)) k)"
    using rest drained(3) [of m t] redis by (simp add: sum_subtractf)
  then show ?thesis using drained(2) del redis by auto
qed

section \<open>Scanning\<close>

text \<open>The replies of a complete iteration: from the cursor on until a reply with cursor 0.\<close>

fun scan_path :: "(nat \<Rightarrow> (nat \<times> string list) option) \<Rightarrow> nat \<Rightarrow> (nat \<times> string list) list \<Rightarrow> bool" where
  "scan_path scan c [] = False"
| "scan_path scan c [(c', batch)] \<longleftrightarrow> scan c = Some (c', batch) \<and> c' = 0"
| "scan_path scan c ((c', batch) # p # ps) \<longleftrightarrow> scan c = Some (c', batch) \<and> c' \<noteq> 0 \<and> scan_path scan c' (p # ps)"

lemma scan_loop_path:
  "scan_path scan c ps \<Longrightarrow> scan_loop scan c keys = Some (keys @ concat (map snd ps))"
proof (induction scan c ps arbitrary: keys rule: scan_path.induct)
  case (2 scan c c' batch)
  then show ?case by (simp add: scan_loop.simps [of scan c])
next
  case (3 scan c c' batch p ps)
  then show ?case by (simp add: scan_loop.simps [of scan c])
qed simp

text \<open>
  Every complete iteration of SCAN is counted as often as it reports a key. Redis documents that
  a SCAN may return an element more than once; \<^verbatim>\<open>scanKeys\<close> collects the batches without removing
  duplicates, so a counter reported twice is drained twice, with its full quantity each time.
\<close>

theorem scan_duplicates_counted:
  assumes "scan_path (\<lambda>c. ur_scan (ue_redis env) (''usage:'' @ a @ '':*'') c (w_redis s)) 0 ps"
    and "concat (map snd ps) = [key, key]"
    and "ur_pipelineGet (ue_redis env) [key, key] (w_redis s) = Some [value, value]"
    and "ur_del (ue_redis env) [key, key] (w_redis s) = Some r"
    and "counter_of (ue_utc env) key value = Some c"
  shows "drainUsageCounters env a s = (Inr [c, c], s\<lparr>w_redis := r\<rparr>) \<and>
    (\<forall>m t. counted [c, c] m t = 2 * counted [c] m t)"
proof -
  have "scanKeys (ue_redis env) (''usage:'' @ a @ '':*'') s = (Inr [key, key], s)"
    using scan_loop_path [OF assms(1)] assms(2) by (simp add: scanKeys_def)
  then show ?thesis using assms(3-5)
    by (simp add: drainUsageCounters_def drain_read_def drain_delete_def act_bind_def act_return_def counters_of_def
        List.map_filter_simps counted_def)
qed

section \<open>From the hub's key to the counter\<close>

lemma digit_not_special:
  assumes "is_digit c" shows "\<not> is_space c" "c \<noteq> CHR ''-''" "c \<noteq> CHR ''+''"
  using assms by (auto simp: is_digit_def is_space_def Let_def)

lemma parseInt10_digits:
  assumes "s \<noteq> []" "list_all is_digit s"
  shows "parseInt10 s = Some (int (read_nat s))"
proof -
  obtain c cs where s: "s = c # cs" using assms(1) by (cases s) auto
  then have c: "is_digit c" using assms(2) by simp
  have "takeWhile is_digit s = s" using assms(2) by (simp add: list_all_iff takeWhile_eq_all_conv)
  moreover have "dropWhile is_space s = s" using digit_not_special(1) [OF c] by (simp add: s)
  moreover have "hd s \<noteq> CHR ''-''" "hd s \<noteq> CHR ''+''" using digit_not_special(2,3) [OF c] by (simp_all add: s)
  ultimately show ?thesis using assms(1) unfolding parseInt10_def Let_def
    by (simp del: takeWhile_eq_all_conv)
qed

lemma length_show_nat: "length (show_nat n) = (if n < 10 then 1 else Suc (length (show_nat (n div 10))))"
  by (simp add: show_nat.simps [of n])

lemma pad2_length: "n < 100 \<Longrightarrow> length (pad2 n) = 2"
  by (simp add: pad2_def Let_def length_show_nat [of n] length_show_nat [of "n div 10"])

lemma read_nat_zeros: "read_nat (replicate k (CHR ''0'') @ s) = read_nat s"
proof -
  have "foldl (\<lambda>a c. a * 10 + digit_val c) 0 (replicate k (CHR ''0'')) = 0"
    by (induction k) (simp_all add: digit_val_def)
  then show ?thesis by (simp add: read_nat_def)
qed

lemma parseInt10_pad2: "parseInt10 (pad2 n) = Some (int n)"
proof -
  have "is_digit (CHR ''0'')" by (simp add: is_digit_def)
  then have "list_all is_digit (pad2 n)" "pad2 n \<noteq> []"
    using show_nat_all_digits [of n] show_nat_nonempty [of n] by (auto simp: pad2_def Let_def list_all_iff)
  from parseInt10_digits [OF this(2,1)] show ?thesis
    by (simp add: pad2_def Let_def read_nat_zeros read_show_nat)
qed

lemma parseInt10_show_nat: "parseInt10 (show_nat n) = Some (int n)"
  using parseInt10_digits [OF show_nat_nonempty show_nat_all_digits] by (simp add: read_show_nat)

lemma year_length:
  fixes y :: nat
  assumes "1000 \<le> y" "y < 10000"
  shows "length (show_nat y) = 4"
proof -
  have "\<not> y < 10" "\<not> y div 10 < 10" "\<not> y div 100 < 10" "y div 1000 < 10" using assms by linarith+
  then show ?thesis
    by (simp add: length_show_nat [of y] length_show_nat [of "y div 10"] length_show_nat [of "y div 100"]
        length_show_nat [of "y div 1000"] flip: div_mult2_eq)
qed

lemma parseBucket_of:
  assumes "length (show_nat (utc_year d)) = 4" "utc_month d < 12" "utc_day d < 32" "utc_hours d < 24" "mins < 60"
  shows "parseBucket utc (bucket_of d mins) =
    Some (utc (int (utc_year d)) (int (utc_month d)) (int (utc_day d)) (int (utc_hours d)) (int mins))"
proof -
  have len: "length (pad2 (utc_month d + 1)) = 2" "length (pad2 (utc_day d)) = 2"
    "length (pad2 (utc_hours d)) = 2" "length (pad2 mins) = 2"
    using assms by (simp_all add: pad2_length)
  have slices: "slice 0 4 (bucket_of d mins) = show_nat (utc_year d)"
    "slice 4 6 (bucket_of d mins) = pad2 (utc_month d + 1)"
    "slice 6 8 (bucket_of d mins) = pad2 (utc_day d)"
    "slice 8 10 (bucket_of d mins) = pad2 (utc_hours d)"
    "slice 10 12 (bucket_of d mins) = pad2 mins"
    using assms(1) len by (simp_all add: slice_def bucket_of_def)
  show ?thesis unfolding parseBucket_def slices parseInt10_pad2 parseInt10_show_nat by simp
qed

text \<open>
  The documented meaning of the calendar functions: the fields of an instant are in range, the year
  has four digits, and \<^verbatim>\<open>Date.UTC\<close> of the fields, with the minute rounded down to a multiple of
  five, is the instant rounded down to five minutes.
\<close>

definition calendar_spec :: "platform \<Rightarrow> (int \<Rightarrow> int \<Rightarrow> int \<Rightarrow> int \<Rightarrow> int \<Rightarrow> time) \<Rightarrow> time \<Rightarrow> bool" where
  "calendar_spec pf utc now \<longleftrightarrow>
     (let d = pf_utc pf now in
      1000 \<le> utc_year d \<and> utc_year d < 10000 \<and> utc_month d < 12 \<and> utc_day d < 32 \<and> utc_hours d < 24 \<and>
      utc_minutes d < 60 \<and>
      utc (int (utc_year d)) (int (utc_month d)) (int (utc_day d)) (int (utc_hours d))
        (int (utc_minutes d div 5 * 5)) = now - now mod 300000)"

text \<open>
  What the hub counts is what the flush worker reads. The Redis key under which the hub counts
  a metric for an account and a key (or the public path) at a moment is taken apart into exactly that
  key (none for the public path), that metric and the start of that five-minute period, with the
  counter's value as the quantity; the worker's own rounding leaves the period unchanged.
\<close>

theorem usage_key_roundtrip:
  assumes "calendar_spec pf utc now" "0 \<le> now" "0 < n"
    and "CHR '':'' \<notin> set accountId" "CHR '':'' \<notin> set keyId" "CHR '':'' \<notin> set metric"
  shows "counter_of utc (usage_key pf now accountId keyId metric) (RInt n) =
      Some \<lparr>uc_apiKeyId = (if keyId = PUBLIC_USAGE_SENTINEL then None else Some keyId), uc_metric = metric,
            uc_periodStart = Some (now - now mod 300000), uc_quantity = n\<rparr> \<and>
    bucket_start (now - now mod 300000) = now - now mod 300000"
proof -
  let ?d = "pf_utc pf now"
  let ?b = "bucket_of ?d (utc_minutes ?d div 5 * 5)"
  have fields: "1000 \<le> utc_year ?d" "utc_year ?d < 10000" "utc_month ?d < 12" "utc_day ?d < 32"
    "utc_hours ?d < 24" "utc_minutes ?d < 60"
    and inst: "utc (int (utc_year ?d)) (int (utc_month ?d)) (int (utc_day ?d)) (int (utc_hours ?d))
        (int (utc_minutes ?d div 5 * 5)) = now - now mod 300000"
    using assms(1) unfolding calendar_spec_def Let_def by auto
  have "length (show_nat (utc_year ?d)) = 4" using fields(1,2) by (rule year_length)
  moreover have "utc_minutes ?d div 5 * 5 < 60" using fields(6) by simp
  ultimately have bucket: "parseBucket utc ?b = Some (now - now mod 300000)"
    using parseBucket_of [of ?d] fields inst by simp
  have "CHR '':'' \<notin> set (pad2 k)" for k
    using show_nat_not_colon by (auto simp: pad2_def Let_def)
  then have "CHR '':'' \<notin> set ?b" using show_nat_not_colon by (simp add: bucket_of_def)
  then have "str_split (CHR '':'') (usage_key pf now accountId keyId metric) = [''usage'', accountId, keyId, metric, ?b]"
    using assms(4-6)
    by (simp add: usage_key_def current5MinBucket_def str_split_append_sep str_split_no_sep)
  then have "counter_of utc (usage_key pf now accountId keyId metric) (RInt n) =
      Some \<lparr>uc_apiKeyId = (if keyId = PUBLIC_USAGE_SENTINEL then None else Some keyId), uc_metric = metric,
            uc_periodStart = Some (now - now mod 300000), uc_quantity = n\<rparr>"
    using assms(3) bucket by (simp add: counter_of_def toCounterQuantity_def)
  moreover have "bucket_start (now - now mod 300000) = now - now mod 300000"
    using assms(2) by (simp add: bucket_start_def js_rem_def mod_diff_eq minus_mod_eq_mult_div)
  ultimately show ?thesis ..
qed

section \<open>Witnesses\<close>

type_synonym mem_usage = "(string \<times> UsageAggregateProps) list"

definition mem_usage_create :: "UsageAggregateProps \<Rightarrow> mem_usage \<Rightarrow> mem_usage io" where
  "mem_usage_create c d = (if map_of d (ua_id c) = None then Some ((ua_id c, c) # d) else None)"

definition mem_usage_find :: "(UsageAggregateProps \<Rightarrow> bool) \<Rightarrow> mem_usage \<Rightarrow> (string \<times> UsageAggregateProps) option" where
  "mem_usage_find P d = List.find (\<lambda>(i, u). P u \<and> ua_id u = i \<and> map_of d i = Some u) d"

definition mem_usage_db :: "mem_usage usage_db" where
  "mem_usage_db = \<lparr>
     ud_findFirst = (\<lambda>P d. Some (map_option snd (mem_usage_find P d))),
     ud_findMany = (\<lambda>P d. Some (filter P (map snd d))),
     ud_update = (\<lambda>i f d. Some (case map_of d i of Some u \<Rightarrow> (i, f u) # d | None \<Rightarrow> d)),
     ud_create = mem_usage_create,
     ud_upsert = (\<lambda>nk f c d. case mem_usage_find (\<lambda>u. natural_key_of u = nk) d of
        Some (i, u) \<Rightarrow> Some ((i, f u) # d) | None \<Rightarrow> mem_usage_create c d),
     ud_updateMany = (\<lambda>P f d. Some (map (\<lambda>(i, u). (i, if P u then f u else u)) d))\<rparr>"

lemma mem_usage_find_Some:
  "mem_usage_find P d = Some (i, u) \<Longrightarrow> P u \<and> ua_id u = i \<and> map_of d i = Some u"
  by (auto simp: mem_usage_find_def find_Some_iff)

lemma mem_usage_spec: "usage_db_spec mem_usage_db map_of"
  unfolding usage_db_spec_def
proof (intro conjI allI impI)
  fix d nk f c d' assume "ud_upsert mem_usage_db nk f c d = Some d'"
  then show "(\<exists>i u. map_of d i = Some u \<and> natural_key_of u = nk \<and> map_of d' = (map_of d)(i \<mapsto> f u)) \<or>
      map_of d (ua_id c) = None \<and> map_of d' = (map_of d)(ua_id c \<mapsto> c)"
  proof (cases "mem_usage_find (\<lambda>u. natural_key_of u = nk) d")
    case None
    then show ?thesis using \<open>ud_upsert mem_usage_db nk f c d = Some d'\<close>
      by (auto simp: mem_usage_db_def mem_usage_create_def split: if_splits)
  next
    case (Some p)
    obtain i u where p: "p = (i, u)" by fastforce
    have "d' = (i, f u) # d" using \<open>ud_upsert mem_usage_db nk f c d = Some d'\<close> Some p
      by (simp add: mem_usage_db_def)
    moreover have "map_of d i = Some u" "natural_key_of u = nk"
      using mem_usage_find_Some [OF Some [unfolded p]] by simp_all
    ultimately have "map_of d i = Some u \<and> natural_key_of u = nk \<and> map_of d' = (map_of d)(i \<mapsto> f u)" by simp
    then show ?thesis by blast
  qed
qed (auto simp: mem_usage_db_def mem_usage_create_def finite_dom_map_of split: if_splits option.splits
    dest!: mem_usage_find_Some)

definition mem_counters :: "(string \<times> int) list usage_redis" where
  "mem_counters = \<lparr>
     ur_scan = (\<lambda>pattern c r. Some (0, map fst r)),
     ur_pipelineGet = (\<lambda>keys r. Some (map (\<lambda>k. case map_of r k of Some n \<Rightarrow> RInt n | None \<Rightarrow> ROther) keys)),
     ur_del = (\<lambda>keys r. Some (filter (\<lambda>(k, n). k \<notin> set keys) r))\<rparr>"

definition no_keys :: "(mem_usage, (string \<times> int) list) key_env" where
  "no_keys = \<lparr>ke_db = \<lparr>
       kd_findById = (\<lambda>i d. Some None), kd_findByKeyId = (\<lambda>k d. Some None), kd_findMany = (\<lambda>P d. Some []),
       kd_findManyOrdered = (\<lambda>P f d. Some []), kd_count = (\<lambda>P d. Some 0), kd_upsert = (\<lambda>i u c d. None),
       kd_updateMany = (\<lambda>P u d. Some d), kd_memberLevel = (\<lambda>a u d. Some None),
       kd_accountStatus = (\<lambda>a d. Some None), kd_subscriptionPlan = (\<lambda>a d. Some None),
       kd_auditCreate = (\<lambda>e d. Some d)\<rparr>,
     ke_platform = mem_platform, ke_pepper = [],
     ke_redis = \<lparr>rd_getKey = (\<lambda>t k r. Some None), rd_setKey = (\<lambda>t k d s r. None), rd_setNx = (\<lambda>t k px r. None),
       rd_incr = (\<lambda>t k r. None), rd_expire = (\<lambda>t k s r. None)\<rparr>,
     ke_del = (\<lambda>k r. None), ke_localeCompare = (\<lambda>a b. 0)\<rparr>"

definition mem_usage_env :: "(mem_usage, (string \<times> int) list) usage_env" where
  "mem_usage_env = \<lparr>ue_keys = no_keys, ue_redis = mem_counters, ue_utc = (\<lambda>y mo d h mi. 0)\<rparr>"

definition mem_usage_world :: "(mem_usage, (string \<times> int) list) world" where
  "mem_usage_world = \<lparr>w_db = [], w_redis = [(''usage:a:k:m:1'', 7)]\<rparr>"

definition mem_vals :: "(string \<times> int) list \<Rightarrow> string \<Rightarrow> int option" where
  "mem_vals r = map_of r"

lemma mem_counters_spec: "usage_redis_spec mem_counters mem_vals"
proof -
  have "map_of (filter (\<lambda>(k, n). k \<notin> set keys) r) k = (if k \<in> set keys then None else map_of r k)"
    for keys and r :: "(string \<times> int) list" and k
    by (induction r) auto
  then show ?thesis unfolding usage_redis_spec_def
    by (auto simp: mem_counters_def mem_vals_def reads_as_def list_all2_conv_all_nth finite_dom_map_of fun_eq_iff split: option.split)
qed

definition mem_usage_key :: "string \<Rightarrow> string" where
  "mem_usage_key k = ''usage'' @ CHR '':'' # ''a'' @ CHR '':'' # k @ CHR '':'' # ''m'' @ CHR '':'' # ''000001010000''"

lemma mem_bucket: "parseBucket (\<lambda>y mo d h mi. 0) ''000001010000'' = Some 0"
  by (simp add: parseBucket_def slice_def parseInt10_digits is_digit_def)

lemma mem_key_period: "CHR '':'' \<notin> set k \<Longrightarrow> key_period (\<lambda>y mo d h mi. 0) ''a'' (mem_usage_key k) = Some (''m'', 0)"
proof -
  assume k: "CHR '':'' \<notin> set k"
  have "str_split (CHR '':'') (mem_usage_key k) = [''usage'', ''a'', k, ''m'', ''000001010000'']"
    unfolding mem_usage_key_def by (subst str_split_append_sep str_split_no_sep; use k in simp)+
  then show ?thesis by (simp add: key_period_def mem_bucket bucket_start_def js_rem_def)
qed

definition mem_counted :: "(string \<times> int) list" where
  "mem_counted = [(mem_usage_key ''k'', 7), (mem_usage_key ''_public'', 5)]"

text \<open>Two more are counted between the GET and the DEL.\<close>

definition mem_counted_on :: "(string \<times> int) list" where
  "mem_counted_on = [(mem_usage_key ''k'', 9), (mem_usage_key ''_public'', 5)]"

theorem flush_conserves_witness:
  "\<exists>keys counters lost s3.
    drain_read mem_usage_env ''a'' \<lparr>w_db = [], w_redis = mem_counted\<rparr> = (Inr (keys, counters), \<lparr>w_db = [], w_redis = mem_counted\<rparr>) \<and>
    flush_write mem_usage_env mem_usage_db (\<lambda>a n. show_nat n) (\<lambda>a. 9) ''a'' counters \<lparr>w_db = [], w_redis = []\<rparr> = (Inr lost, s3) \<and>
    usage_total map_of (w_db s3) ''a'' ''m'' 0 + counted lost ''m'' 0 + waiting (\<lambda>y mo d h mi. 0) ''a'' ''m'' 0 (mem_vals (w_redis s3)) = 12 \<and>
    waiting (\<lambda>y mo d h mi. 0) ''a'' ''m'' 0 (mem_vals mem_counted_on) = 14"
proof -
  let ?s = "\<lparr>w_db = [], w_redis = mem_counted\<rparr> :: (mem_usage, (string \<times> int) list) world"
  let ?s1 = "\<lparr>w_db = [], w_redis = mem_counted_on\<rparr> :: (mem_usage, (string \<times> int) list) world"
  let ?s2 = "\<lparr>w_db = [], w_redis = []\<rparr> :: (mem_usage, (string \<times> int) list) world"
  have periods: "key_period (\<lambda>y mo d h mi. 0) ''a'' (mem_usage_key ''k'') = Some (''m'', 0)"
    "key_period (\<lambda>y mo d h mi. 0) ''a'' (mem_usage_key ''_public'') = Some (''m'', 0)"
    by (rule mem_key_period, simp)+
  have scan: "scan_loop (\<lambda>c. Some (0, keys)) 0 [] = Some keys" for keys by (subst scan_loop.simps) simp
  have env: "ue_utc mem_usage_env = (\<lambda>y mo d h mi. 0)" "ue_redis mem_usage_env = mem_counters"
    by (simp_all add: mem_usage_env_def)
  have dist: "mem_usage_key ''k'' \<noteq> mem_usage_key ''_public''" by (simp add: mem_usage_key_def)
  have exact: "scan_exact mem_usage_env mem_vals ''a'' (w_redis ?s)"
    using periods dist unfolding scan_exact_def env
    by (auto simp: mem_counters_def scan mem_counted_def mem_vals_def split: if_splits)
  let ?counters = "counters_of (\<lambda>y mo d h mi. 0) [mem_usage_key ''k'', mem_usage_key ''_public''] [RInt 7, RInt 5]"
  have begun: "drain_read mem_usage_env ''a'' ?s = (Inr ([mem_usage_key ''k'', mem_usage_key ''_public''], ?counters), ?s)"
    using dist by (simp add: drain_read_def scanKeys_def act_bind_def env mem_counters_def scan mem_counted_def)
  have deleted: "drain_delete mem_usage_env [mem_usage_key ''k'', mem_usage_key ''_public''] ?s1 = (Inr (), ?s2)"
    by (simp add: drain_delete_def env mem_counters_def mem_counted_on_def)
  obtain lost s3 where written: "flush_write mem_usage_env mem_usage_db (\<lambda>a n. show_nat n) (\<lambda>a. 9) ''a'' ?counters ?s2 = (Inr lost, s3)"
    using flush_write_returns by blast
  have before: "usage_total map_of [] ''a'' ''m'' 0 = 0" by (simp add: usage_total_def recorded_def)
  have sums: "waiting (\<lambda>y mo d h mi. 0) ''a'' ''m'' 0 (mem_vals mem_counted_on) = 14"
    using periods dist by (simp add: waiting_def weight_def mem_vals_def mem_counted_on_def)
  have "usage_total map_of (w_db s3) ''a'' ''m'' 0 + counted lost ''m'' 0 + waiting (\<lambda>y mo d h mi. 0) ''a'' ''m'' 0 (mem_vals (w_redis s3)) = 12"
    using flush_conserves [OF mem_usage_spec _ exact begun deleted written, of "''m''" 0] periods dist before sums
    by (simp add: env mem_counters_spec weight_def mem_vals_def mem_counted_def mem_counted_on_def)
  then show ?thesis using begun written sums by blast
qed

theorem usage_key_roundtrip_witness:
  "counter_of (\<lambda>y mo d h mi. 0) (usage_key mem_platform 0 ''a'' ''_public'' ''requests'') (RInt 7) =
      Some \<lparr>uc_apiKeyId = None, uc_metric = ''requests'', uc_periodStart = Some 0, uc_quantity = 7\<rparr>"
proof -
  have "calendar_spec mem_platform (\<lambda>y mo d h mi. 0) 0"
    by (simp add: calendar_spec_def mem_platform_def Let_def)
  from usage_key_roundtrip [OF this, of 7 "''a''" "''_public''" "''requests''"] show ?thesis
    by (simp add: PUBLIC_USAGE_SENTINEL_def)
qed

theorem scan_duplicates_counted_witness:
  "\<exists>c. drainUsageCounters (mem_usage_env\<lparr>ue_redis := mem_counters\<lparr>ur_scan := (\<lambda>pattern c r. Some (0,
      [''usage:a:k:m:1'', ''usage:a:k:m:1'']))\<rparr>\<rparr>) ''a'' mem_usage_world =
    (Inr [c, c], mem_usage_world\<lparr>w_redis := []\<rparr>)"
proof -
  let ?k = "''usage:a:k:m:1''"
  let ?env = "mem_usage_env\<lparr>ue_redis := mem_counters\<lparr>ur_scan := (\<lambda>pattern c r. Some (0, [?k, ?k]))\<rparr>\<rparr>"
  let ?c = "the (counter_of (ue_utc ?env) ?k (RInt 7))"
  have "counter_of (ue_utc ?env) ?k (RInt 7) \<noteq> None"
    by (simp add: counter_of_def toCounterQuantity_def Let_def)
  then have c: "counter_of (ue_utc ?env) ?k (RInt 7) = Some ?c" by auto
  have path: "scan_path (\<lambda>c. ur_scan (ue_redis ?env) (''usage:'' @ ''a'' @ '':*'') c (w_redis mem_usage_world)) 0
      [(0, [?k, ?k])]" by simp
  show ?thesis
    using scan_duplicates_counted [OF path _ _ _ c, of "[]"]
    by (auto simp: mem_usage_env_def mem_counters_def mem_usage_world_def)
qed

end
