(* ===== verification/Billing.thy ===== *)
theory Billing
  imports KeyUseCases
begin

text \<open>
  \<^verbatim>\<open>apps/api/src/modules/billing\<close>: subscriptions and invoices, the account's billing status
  (\<^verbatim>\<open>PrismaAccountBillingRepository\<close>), the invalidation of the gateway's cache, the checkout and
  read use cases, and \<^verbatim>\<open>GracePeriodWorker\<close>. The webhook is in the theory \<open>Webhook\<close>.

  The database and the Stripe client are parameters. \<open>account_db_spec\<close> states what Prisma documents
  of the statements on accounts: \<^verbatim>\<open>update\<close> changes the row with that identifier, \<^verbatim>\<open>updateMany\<close>
  changes it if the condition holds and reports how many rows it changed, in one statement; the
  statements on subscriptions and invoices do not touch accounts.
\<close>

section \<open>Subscriptions and invoices\<close>

datatype SubscriptionStatus =
  SubTRIALING | SubACTIVE | SubPAST_DUE | SubCANCELED | SubUNPAID | SubINCOMPLETE | SubPAUSED

datatype InvoiceStatus = InvDRAFT | InvOPEN | InvPAID | InvUNCOLLECTIBLE | InvVOID

definition GRACE_PERIOD_MS :: time where "GRACE_PERIOD_MS = 7 * 24 * 60 * 60 * 1000"

record SubscriptionProps =
  sb_id :: string
  sb_accountId :: string
  sb_stripeCustomerId :: string
  sb_stripeSubscriptionId :: string
  sb_stripePriceId :: string
  sb_stripeProductId :: string
  sb_plan :: Plan
  sb_status :: SubscriptionStatus
  sb_currentPeriodStart :: time
  sb_currentPeriodEnd :: time
  sb_cancelAtPeriodEnd :: bool
  sb_canceledAt :: "time option"
  sb_trialStartsAt :: "time option"
  sb_trialEndsAt :: "time option"
  sb_createdAt :: time
  sb_updatedAt :: time

record StripeUpdate =
  su_stripePriceId :: string
  su_stripeProductId :: string
  su_plan :: Plan
  su_status :: SubscriptionStatus
  su_currentPeriodStart :: time
  su_currentPeriodEnd :: time
  su_cancelAtPeriodEnd :: bool
  su_canceledAt :: "time option"
  su_trialStartsAt :: "time option"
  su_trialEndsAt :: "time option"

definition Subscription_create ::
  "string \<Rightarrow> time \<Rightarrow> string \<Rightarrow> string \<Rightarrow> string \<Rightarrow> StripeUpdate \<Rightarrow> SubscriptionProps" where
  "Subscription_create uuid now accountId customer subscriptionId u = \<lparr>
     sb_id = uuid, sb_accountId = accountId, sb_stripeCustomerId = customer,
     sb_stripeSubscriptionId = subscriptionId, sb_stripePriceId = su_stripePriceId u,
     sb_stripeProductId = su_stripeProductId u, sb_plan = su_plan u, sb_status = su_status u,
     sb_currentPeriodStart = su_currentPeriodStart u, sb_currentPeriodEnd = su_currentPeriodEnd u,
     sb_cancelAtPeriodEnd = su_cancelAtPeriodEnd u, sb_canceledAt = su_canceledAt u,
     sb_trialStartsAt = su_trialStartsAt u, sb_trialEndsAt = su_trialEndsAt u,
     sb_createdAt = now, sb_updatedAt = now\<rparr>"

definition Subscription_isActive :: "SubscriptionProps \<Rightarrow> bool" where
  "Subscription_isActive s \<longleftrightarrow> sb_status s = SubACTIVE"

definition Subscription_isTrialing :: "SubscriptionProps \<Rightarrow> bool" where
  "Subscription_isTrialing s \<longleftrightarrow> sb_status s = SubTRIALING"

definition Subscription_isPastDue :: "SubscriptionProps \<Rightarrow> bool" where
  "Subscription_isPastDue s \<longleftrightarrow> sb_status s = SubPAST_DUE"

definition Subscription_isCanceled :: "SubscriptionProps \<Rightarrow> bool" where
  "Subscription_isCanceled s \<longleftrightarrow> sb_status s = SubCANCELED"

definition Subscription_hasAccess :: "time \<Rightarrow> SubscriptionProps \<Rightarrow> bool" where
  "Subscription_hasAccess now s \<longleftrightarrow>
     (if Subscription_isActive s \<or> Subscription_isTrialing s then True
      else if Subscription_isCanceled s \<and> sb_currentPeriodEnd s > now then True else False)"

definition applyStripeUpdate :: "time \<Rightarrow> StripeUpdate \<Rightarrow> SubscriptionProps \<Rightarrow> SubscriptionProps" where
  "applyStripeUpdate now u s = s\<lparr>
     sb_stripePriceId := su_stripePriceId u, sb_stripeProductId := su_stripeProductId u,
     sb_plan := su_plan u, sb_status := su_status u,
     sb_currentPeriodStart := su_currentPeriodStart u, sb_currentPeriodEnd := su_currentPeriodEnd u,
     sb_cancelAtPeriodEnd := su_cancelAtPeriodEnd u, sb_canceledAt := su_canceledAt u,
     sb_trialStartsAt := su_trialStartsAt u, sb_trialEndsAt := su_trialEndsAt u, sb_updatedAt := now\<rparr>"

text \<open>The spread of \<^verbatim>\<open>toPersistence()\<close> into an update.\<close>

definition update_of :: "SubscriptionProps \<Rightarrow> StripeUpdate" where
  "update_of s = \<lparr>
     su_stripePriceId = sb_stripePriceId s, su_stripeProductId = sb_stripeProductId s,
     su_plan = sb_plan s, su_status = sb_status s,
     su_currentPeriodStart = sb_currentPeriodStart s, su_currentPeriodEnd = sb_currentPeriodEnd s,
     su_cancelAtPeriodEnd = sb_cancelAtPeriodEnd s, su_canceledAt = sb_canceledAt s,
     su_trialStartsAt = sb_trialStartsAt s, su_trialEndsAt = sb_trialEndsAt s\<rparr>"

record InvoiceProps =
  iv_id :: string
  iv_accountId :: string
  iv_stripeInvoiceId :: string
  iv_stripeCustomerId :: string
  iv_stripeSubscriptionId :: "string option"
  iv_amountDue :: int
  iv_amountPaid :: int
  iv_currency :: string
  iv_status :: InvoiceStatus
  iv_description :: "string option"
  iv_invoicePdfUrl :: "string option"
  iv_hostedInvoiceUrl :: "string option"
  iv_periodStart :: "time option"
  iv_periodEnd :: "time option"
  iv_paidAt :: "time option"
  iv_dueDate :: "time option"
  iv_createdAt :: time

section \<open>Database\<close>

record AccountRow =
  ac_status :: string
  ac_graceEndsAt :: "time option"
  ac_stripeCustomerId :: "string option"
  ac_updatedAt :: time

record 'd billing_db =
  bd_subByStripeId :: "string \<Rightarrow> 'd \<Rightarrow> SubscriptionProps option io"
  bd_subByCustomer :: "string \<Rightarrow> 'd \<Rightarrow> SubscriptionProps option io"
  bd_subByAccount :: "string \<Rightarrow> 'd \<Rightarrow> SubscriptionProps option io"
  bd_subUpsert :: "string \<Rightarrow> (SubscriptionProps \<Rightarrow> SubscriptionProps) \<Rightarrow> SubscriptionProps \<Rightarrow> 'd \<Rightarrow> 'd io"
  bd_invoiceByStripeId :: "string \<Rightarrow> 'd \<Rightarrow> InvoiceProps option io"
  bd_invoicesByAccount :: "string \<Rightarrow> nat \<Rightarrow> 'd \<Rightarrow> InvoiceProps list io"
  bd_invoiceUpsert :: "string \<Rightarrow> (InvoiceProps \<Rightarrow> InvoiceProps) \<Rightarrow> InvoiceProps \<Rightarrow> 'd \<Rightarrow> 'd io"
  bd_accountFind :: "string \<Rightarrow> 'd \<Rightarrow> AccountRow option io"
  bd_accountByCustomer :: "string \<Rightarrow> 'd \<Rightarrow> string option io"
  bd_accountUpdate :: "string \<Rightarrow> (AccountRow \<Rightarrow> AccountRow) \<Rightarrow> 'd \<Rightarrow> 'd io"
  bd_accountUpdateMany :: "string \<Rightarrow> (AccountRow \<Rightarrow> bool) \<Rightarrow> (AccountRow \<Rightarrow> AccountRow) \<Rightarrow> 'd \<Rightarrow> (nat \<times> 'd) io"
  bd_accountFindMany :: "(AccountRow \<Rightarrow> bool) \<Rightarrow> 'd \<Rightarrow> (string \<times> AccountRow) list io"
  bd_ownerEmail :: "string \<Rightarrow> 'd \<Rightarrow> string option io"

definition account_db_spec :: "'d billing_db \<Rightarrow> ('d \<Rightarrow> string \<Rightarrow> AccountRow option) \<Rightarrow> bool" where
  "account_db_spec bd accs \<longleftrightarrow>
     (\<forall>d i f d'. bd_accountUpdate bd i f d = Some d' \<longrightarrow>
        (\<exists>a. accs d i = Some a \<and> accs d' = (accs d)(i \<mapsto> f a))) \<and>
     (\<forall>d i P f n d'. bd_accountUpdateMany bd i P f d = Some (n, d') \<longrightarrow>
        (case accs d i of
           Some a \<Rightarrow> if P a then n = 1 \<and> accs d' = (accs d)(i \<mapsto> f a) else n = 0 \<and> accs d' = accs d
         | None \<Rightarrow> n = 0 \<and> accs d' = accs d)) \<and>
     (\<forall>d i x. bd_accountFind bd i d = Some x \<longrightarrow> x = accs d i) \<and>
     (\<forall>d P rows. bd_accountFindMany bd P d = Some rows \<longrightarrow>
        distinct (map fst rows) \<and> (\<forall>i a. (i, a) \<in> set rows \<longleftrightarrow> accs d i = Some a \<and> P a)) \<and>
     (\<forall>d i f c d'. bd_subUpsert bd i f c d = Some d' \<longrightarrow> accs d' = accs d) \<and>
     (\<forall>d i f c d'. bd_invoiceUpsert bd i f c d = Some d' \<longrightarrow> accs d' = accs d)"

record ('d, 'r) billing_env =
  be_keys :: "('d, 'r) key_env"
  be_db :: "'d billing_db"

section \<open>Repositories\<close>

definition sub_save :: "('d, 'r) billing_env \<Rightarrow> SubscriptionProps \<Rightarrow> ('d, 'r, unit) action" where
  "sub_save env p = db_write (bd_subUpsert (be_db env) (sb_id p)
     (\<lambda>row. row\<lparr>
        sb_stripePriceId := sb_stripePriceId p, sb_stripeProductId := sb_stripeProductId p,
        sb_plan := sb_plan p, sb_status := sb_status p,
        sb_currentPeriodStart := sb_currentPeriodStart p, sb_currentPeriodEnd := sb_currentPeriodEnd p,
        sb_cancelAtPeriodEnd := sb_cancelAtPeriodEnd p, sb_canceledAt := sb_canceledAt p,
        sb_trialStartsAt := sb_trialStartsAt p, sb_trialEndsAt := sb_trialEndsAt p,
        sb_updatedAt := sb_updatedAt p\<rparr>)
     p)"

definition invoice_save :: "('d, 'r) billing_env \<Rightarrow> InvoiceProps \<Rightarrow> ('d, 'r, unit) action" where
  "invoice_save env p = db_write (bd_invoiceUpsert (be_db env) (iv_stripeInvoiceId p)
     (\<lambda>row. row\<lparr>
        iv_status := iv_status p, iv_amountPaid := iv_amountPaid p, iv_invoicePdfUrl := iv_invoicePdfUrl p,
        iv_hostedInvoiceUrl := iv_hostedInvoiceUrl p, iv_paidAt := iv_paidAt p\<rparr>)
     p)"

definition setStripeCustomerId :: "('d, 'r) billing_env \<Rightarrow> string \<Rightarrow> string \<Rightarrow> ('d, 'r, unit) action" where
  "setStripeCustomerId env accountId customer =
     db_write (bd_accountUpdate (be_db env) accountId (\<lambda>a. a\<lparr>ac_stripeCustomerId := Some customer\<rparr>))"

definition getStripeCustomerId :: "('d, 'r) billing_env \<Rightarrow> string \<Rightarrow> ('d, 'r, string option) action" where
  "getStripeCustomerId env accountId =
     act_bind (db_read (bd_accountFind (be_db env) accountId)) (\<lambda>account.
     act_return (case account of Some a \<Rightarrow> ac_stripeCustomerId a | None \<Rightarrow> None))"

definition updateBillingStatus ::
  "('d, 'r) billing_env \<Rightarrow> time \<Rightarrow> string \<Rightarrow> string \<Rightarrow> time option \<Rightarrow> ('d, 'r, unit) action" where
  "updateBillingStatus env now accountId status graceEndsAt =
     db_write (bd_accountUpdate (be_db env) accountId
       (\<lambda>a. a\<lparr>ac_status := status, ac_graceEndsAt := graceEndsAt, ac_updatedAt := now\<rparr>))"

definition markPastDue ::
  "('d, 'r) billing_env \<Rightarrow> time \<Rightarrow> string \<Rightarrow> time \<Rightarrow> ('d, 'r, bool \<times> time option) action" where
  "markPastDue env now accountId graceEndsAt =
     act_bind (db_count (bd_accountUpdateMany (be_db env) accountId (\<lambda>a. ac_status a = ''ACTIVE'')
        (\<lambda>a. a\<lparr>ac_status := ''PAST_DUE'', ac_graceEndsAt := Some graceEndsAt, ac_updatedAt := now\<rparr>))) (\<lambda>fromActive.
     if fromActive > 0 then act_return (True, Some graceEndsAt)
     else
       act_bind (db_count (bd_accountUpdateMany (be_db env) accountId
          (\<lambda>a. ac_status a = ''PAST_DUE'' \<and> ac_graceEndsAt a = None)
          (\<lambda>a. a\<lparr>ac_graceEndsAt := Some graceEndsAt, ac_updatedAt := now\<rparr>))) (\<lambda>missingDeadline.
       if missingDeadline > 0 then act_return (True, Some graceEndsAt)
       else
         act_bind (db_read (bd_accountFind (be_db env) accountId)) (\<lambda>existing.
         act_return (False, case existing of
            Some a \<Rightarrow> if ac_status a = ''PAST_DUE'' then ac_graceEndsAt a else None
          | None \<Rightarrow> None))))"

definition markActiveFromPastDue :: "('d, 'r) billing_env \<Rightarrow> time \<Rightarrow> string \<Rightarrow> ('d, 'r, bool) action" where
  "markActiveFromPastDue env now accountId =
     act_bind (db_count (bd_accountUpdateMany (be_db env) accountId (\<lambda>a. ac_status a = ''PAST_DUE'')
        (\<lambda>a. a\<lparr>ac_status := ''ACTIVE'', ac_graceEndsAt := None, ac_updatedAt := now\<rparr>))) (\<lambda>n.
     act_return (n > 0))"

section \<open>AccountKeyCacheInvalidator\<close>

text \<open>What the lookup throws is logged and swallowed.\<close>

definition invalidate_account :: "('d, 'r) billing_env \<Rightarrow> string \<Rightarrow> ('d, 'r, unit) action" where
  "invalidate_account env accountId s =
     (case act_bind (repo_findAllByAccount (be_keys env) accountId
          \<lparr>kf_status = None, kf_environment = None, kf_createdById = None\<rparr>) (\<lambda>keys.
          if keys = [] then act_return ()
          else cache_invalidateAllForAccount (be_keys env) (map ak_keyId keys)) s of
        (_, s') \<Rightarrow> (Inr (), s'))"

section \<open>GracePeriodWorker\<close>

text \<open>
  One tick: the accounts it finds, then for each the suspension; an error is logged and the loop goes
  on. Webhooks run between the two, and between one account and the next.
\<close>

definition grace_find :: "('d, 'r) billing_env \<Rightarrow> time \<Rightarrow> ('d, 'r, string list) action" where
  "grace_find env now =
     act_bind (db_read (bd_accountFindMany (be_db env) (\<lambda>a. ac_status a = ''PAST_DUE'' \<and>
       (case ac_graceEndsAt a of Some g \<Rightarrow> g \<le> now | None \<Rightarrow> False)))) (\<lambda>rows. act_return (map fst rows))"

definition grace_suspend :: "('d, 'r) billing_env \<Rightarrow> time \<Rightarrow> string \<Rightarrow> ('d, 'r) world \<Rightarrow> ('d, 'r) world" where
  "grace_suspend env now accountId s =
     snd (act_bind (db_write (bd_accountUpdate (be_db env) accountId
        (\<lambda>a. a\<lparr>ac_status := ''SUSPENDED'', ac_graceEndsAt := None, ac_updatedAt := now\<rparr>)))
        (\<lambda>_. invalidate_account env accountId) s)"

definition GracePeriodWorker_tick :: "('d, 'r) billing_env \<Rightarrow> time \<Rightarrow> ('d, 'r, unit) action" where
  "GracePeriodWorker_tick env now =
     act_bind (grace_find env now) (\<lambda>expired s. (Inr (), fold (grace_suspend env now) expired s))"

section \<open>Checkout, portal and reads\<close>

record stripe_client =
  st_createCustomer :: "string \<Rightarrow> string \<Rightarrow> string \<Rightarrow> string io"
  st_createCheckoutSession :: "string \<Rightarrow> string \<Rightarrow> string \<Rightarrow> string \<Rightarrow> string \<Rightarrow> nat option \<Rightarrow> string option io"
  st_createPortalSession :: "string \<Rightarrow> string \<Rightarrow> string io"
  st_proPriceId :: string
  st_enterprisePriceId :: string

definition resolvePlan :: "stripe_client \<Rightarrow> string \<Rightarrow> Plan" where
  "resolvePlan st priceId =
     (case jm_get (jm_set (st_enterprisePriceId st) ENTERPRISE [(st_proPriceId st, PRO)]) priceId of
        Some plan \<Rightarrow> plan | None \<Rightarrow> FREE)"

definition CreateCheckoutSession_execute ::
  "('d, 'r) billing_env \<Rightarrow> stripe_client \<Rightarrow> string \<Rightarrow> string \<Rightarrow> string \<Rightarrow> string \<Rightarrow> string \<Rightarrow> string \<Rightarrow> nat option \<Rightarrow>
   ('d, 'r, string) action" where
  "CreateCheckoutSession_execute env st accountId accountName userEmail priceId successUrl cancelUrl trialDays =
     act_bind (db_read (bd_subByAccount (be_db env) accountId)) (\<lambda>existing.
     act_bind (act_require (case existing of
          Some sub \<Rightarrow> \<not> (Subscription_isActive sub \<or> Subscription_isTrialing sub) | None \<Rightarrow> True)
        (ForbiddenError ''Account already has an active subscription. Use the billing portal to make changes.'')) (\<lambda>_.
     act_bind (getStripeCustomerId env accountId) (\<lambda>known.
     act_bind (case known of
          Some c \<Rightarrow> if c \<noteq> [] then act_return c
            else act_bind (act_io (st_createCustomer st userEmail accountName accountId)) (\<lambda>c.
                 act_bind (setStripeCustomerId env accountId c) (\<lambda>_. act_return c))
        | None \<Rightarrow> act_bind (act_io (st_createCustomer st userEmail accountName accountId)) (\<lambda>c.
                 act_bind (setStripeCustomerId env accountId c) (\<lambda>_. act_return c))) (\<lambda>customer.
     act_bind (act_io (st_createCheckoutSession st customer accountId priceId successUrl cancelUrl trialDays)) (\<lambda>url.
     case url of
       Some u \<Rightarrow> if u \<noteq> [] then act_return u else act_throw Rejected
     | None \<Rightarrow> act_throw Rejected)))))"

definition CreateBillingPortalSession_execute ::
  "('d, 'r) billing_env \<Rightarrow> stripe_client \<Rightarrow> string \<Rightarrow> string \<Rightarrow> ('d, 'r, string) action" where
  "CreateBillingPortalSession_execute env st accountId returnUrl =
     act_bind (getStripeCustomerId env accountId) (\<lambda>customer.
     act_bind (act_require (case customer of Some c \<Rightarrow> c \<noteq> [] | None \<Rightarrow> False)
        (NotFoundError ''No billing account found. Please subscribe first.'')) (\<lambda>_.
     act_io (st_createPortalSession st (the customer) returnUrl)))"

record SubscriptionView =
  sv_plan :: Plan
  sv_status :: SubscriptionStatus
  sv_currentPeriodEnd :: time
  sv_cancelAtPeriodEnd :: bool
  sv_trialEndsAt :: "time option"

definition GetSubscription_execute :: "('d, 'r) billing_env \<Rightarrow> string \<Rightarrow> ('d, 'r, SubscriptionView option) action" where
  "GetSubscription_execute env accountId =
     act_bind (db_read (bd_subByAccount (be_db env) accountId)) (\<lambda>sub.
     act_return (map_option (\<lambda>s. \<lparr>sv_plan = sb_plan s, sv_status = sb_status s,
        sv_currentPeriodEnd = sb_currentPeriodEnd s, sv_cancelAtPeriodEnd = sb_cancelAtPeriodEnd s,
        sv_trialEndsAt = sb_trialEndsAt s\<rparr>) sub))"

record InvoiceView =
  vw_id :: string
  vw_amountDue :: int
  vw_amountPaid :: int
  vw_currency :: string
  vw_status :: InvoiceStatus
  vw_invoicePdfUrl :: "string option"
  vw_hostedInvoiceUrl :: "string option"
  vw_paidAt :: "time option"
  vw_periodStart :: "time option"
  vw_periodEnd :: "time option"

definition GetInvoices_execute :: "('d, 'r) billing_env \<Rightarrow> string \<Rightarrow> nat \<Rightarrow> ('d, 'r, InvoiceView list) action" where
  "GetInvoices_execute env accountId limit =
     act_bind (db_read (bd_invoicesByAccount (be_db env) accountId limit)) (\<lambda>invoices.
     act_return (map (\<lambda>i. \<lparr>vw_id = iv_id i, vw_amountDue = iv_amountDue i, vw_amountPaid = iv_amountPaid i,
        vw_currency = iv_currency i, vw_status = iv_status i, vw_invoicePdfUrl = iv_invoicePdfUrl i,
        vw_hostedInvoiceUrl = iv_hostedInvoiceUrl i, vw_paidAt = iv_paidAt i, vw_periodStart = iv_periodStart i,
        vw_periodEnd = iv_periodEnd i\<rparr>) invoices))"

section \<open>Plan limits\<close>

datatype PlanLimitKey = LimitAgents | LimitApiKeys | LimitMembers

definition PlanLimitKey_name :: "PlanLimitKey \<Rightarrow> string" where
  "PlanLimitKey_name k =
     (case k of LimitAgents \<Rightarrow> ''maxAgents'' | LimitApiKeys \<Rightarrow> ''maxApiKeys'' | LimitMembers \<Rightarrow> ''maxMembers'')"

definition limit_for :: "PlanLimitKey \<Rightarrow> PlanLimits \<Rightarrow> enat" where
  "limit_for k limits =
     (case k of LimitAgents \<Rightarrow> maxAgents limits | LimitApiKeys \<Rightarrow> maxApiKeys limits | LimitMembers \<Rightarrow> maxMembers limits)"

text \<open>\<^verbatim>\<open>CheckPlanLimitsService.getLimits\<close>: the limits together with the plan they come from.\<close>

definition CheckPlanLimits_getLimits :: "('d, 'r) key_env \<Rightarrow> string \<Rightarrow> ('d, 'r, PlanLimits \<times> Plan) action" where
  "CheckPlanLimits_getLimits env accountId =
     db_read (\<lambda>d. map_option (\<lambda>plan. (PLAN_LIMITS plan, plan))
       (resolvePlanForAccount (\<lambda>a. kd_accountStatus (ke_db env) a d)
          (\<lambda>a. kd_subscriptionPlan (ke_db env) a d) accountId))"

definition canAdd :: "('d, 'r) key_env \<Rightarrow> PlanLimitKey \<Rightarrow> string \<Rightarrow> nat \<Rightarrow> ('d, 'r, bool) action" where
  "canAdd env k accountId current =
     act_bind (CheckPlanLimits_getLimits env accountId) (\<lambda>(limits, _).
     act_return (enat current < limit_for k limits))"

definition planLimitGuard ::
  "('d, 'r) key_env \<Rightarrow> PlanLimitKey \<Rightarrow> (string \<Rightarrow> ('d, 'r, nat) action) \<Rightarrow> string \<Rightarrow> ('d, 'r, unit) action" where
  "planLimitGuard env k getCurrentCount accountId =
     (if accountId = [] then act_return ()
      else
        act_bind (CheckPlanLimits_getLimits env accountId) (\<lambda>(limits, plan).
        act_bind (getCurrentCount accountId) (\<lambda>current.
        act_require (\<not> enat current \<ge> limit_for k limits)
          (PlanLimitExceededError (limit_for k limits) current (PlanLimitKey_name k) plan))))"

section \<open>Backfill of missing deadlines\<close>

record BackfillRow =
  bf_accountId :: string
  bf_graceEndsAt :: time
  bf_alreadyExpired :: bool
  bf_written :: bool

definition backfill_find :: "('d, 'r) billing_env \<Rightarrow> ('d, 'r, (string \<times> AccountRow) list) action" where
  "backfill_find env =
     db_read (bd_accountFindMany (be_db env) (\<lambda>a. ac_status a = ''PAST_DUE'' \<and> ac_graceEndsAt a = None))"

definition backfill_write :: "('d, 'r) billing_env \<Rightarrow> string \<Rightarrow> time \<Rightarrow> ('d, 'r, bool) action" where
  "backfill_write env accountId graceEndsAt =
     act_bind (db_count (bd_accountUpdateMany (be_db env) accountId
        (\<lambda>a. ac_status a = ''PAST_DUE'' \<and> ac_graceEndsAt a = None)
        (\<lambda>a. a\<lparr>ac_graceEndsAt := Some graceEndsAt\<rparr>))) (\<lambda>n. act_return (n > 0))"

primrec backfill_rows ::
  "('d, 'r) billing_env \<Rightarrow> bool \<Rightarrow> time \<Rightarrow> (string \<times> AccountRow) list \<Rightarrow> ('d, 'r, BackfillRow list) action" where
  "backfill_rows env apply_it now [] = act_return []"
| "backfill_rows env apply_it now (r # rs) =
     (let graceEndsAt = ac_updatedAt (snd r) + GRACE_PERIOD_MS in
      act_bind (if apply_it then backfill_write env (fst r) graceEndsAt else act_return False) (\<lambda>written.
      act_bind (backfill_rows env apply_it now rs) (\<lambda>rows.
      act_return (\<lparr>bf_accountId = fst r, bf_graceEndsAt = graceEndsAt,
        bf_alreadyExpired = (graceEndsAt \<le> now), bf_written = written\<rparr> # rows))))"

definition backfillGraceEndsAt :: "('d, 'r) billing_env \<Rightarrow> bool \<Rightarrow> time \<Rightarrow> ('d, 'r, BackfillRow list) action" where
  "backfillGraceEndsAt env apply_it now = act_bind (backfill_find env) (backfill_rows env apply_it now)"

end
