(* ===== verification/Webhook.thy ===== *)
theory Webhook
  imports Billing
begin

text \<open>
  \<^verbatim>\<open>HandleStripeWebhookUseCase\<close>: the state machine that moves an account between ACTIVE, PAST_DUE
  and CANCELED, and records subscriptions and invoices. The verified event
  (\<^verbatim>\<open>constructWebhookEvent\<close>), the Stripe object in it with its optional fields, the clock, the
  identifiers drawn and the formatting of amounts are arguments (an invoice always has its amounts
  and its currency, as Stripe documents); the emails, sent without waiting
  for them, are the value a handler returns. One event is processed at one time \<open>now\<close> and as one step;
  the code reads the clock where it needs it and awaits between its reads and writes, of which at most
  one changes the account.
\<close>

section \<open>Stripe objects\<close>

record StripePriceItem =
  pi_priceId :: string
  pi_product :: string
  pi_periodStart :: "int option"
  pi_periodEnd :: "int option"

record StripeSub =
  ss_id :: string
  ss_customer :: string
  ss_status :: string
  ss_items :: "StripePriceItem list"
  ss_currentPeriodStart :: "int option"
  ss_currentPeriodEnd :: "int option"
  ss_billingCycleAnchor :: "int option"
  ss_startDate :: "int option"
  ss_metadataAccountId :: "string option"
  ss_cancelAtPeriodEnd :: "bool option"
  ss_canceledAt :: "int option"
  ss_trialStart :: "int option"
  ss_trialEnd :: "int option"

record StripeInvoice =
  si_id :: string
  si_customer :: string
  si_subscription :: "string option"
  si_status :: string
  si_amountDue :: int
  si_amountPaid :: int
  si_currency :: string
  si_description :: "string option"
  si_invoicePdf :: "string option"
  si_hostedInvoiceUrl :: "string option"
  si_periodStart :: "int option"
  si_periodEnd :: "int option"
  si_paidAt :: "int option"
  si_dueDate :: "int option"

datatype StripeEvent =
  SubscriptionCreated StripeSub
| SubscriptionUpdated StripeSub
| SubscriptionDeleted StripeSub
| InvoicePaymentSucceeded StripeInvoice
| InvoicePaymentFailed StripeInvoice
| InvoiceCreated StripeInvoice
| InvoiceFinalized StripeInvoice
| InvoiceUpdated StripeInvoice
| OtherEvent string

datatype Notification =
  SubscriptionCanceledMail string string time
| PaymentSucceededMail string string string string time
| PaymentFailedMail string string string time

section \<open>Helpers\<close>

definition mapStripeStatus :: "string \<Rightarrow> SubscriptionStatus" where
  "mapStripeStatus s =
     (case jm_get [(''trialing'', SubTRIALING), (''active'', SubACTIVE), (''past_due'', SubPAST_DUE),
        (''canceled'', SubCANCELED), (''unpaid'', SubUNPAID), (''incomplete'', SubINCOMPLETE),
        (''paused'', SubPAUSED), (''incomplete_expired'', SubINCOMPLETE)] s of
        Some x \<Rightarrow> x | None \<Rightarrow> SubINCOMPLETE)"

definition subscriptionStatusToAccountStatus :: "SubscriptionStatus \<Rightarrow> string option" where
  "subscriptionStatusToAccountStatus status =
     (case status of
        SubACTIVE \<Rightarrow> Some ''ACTIVE''
      | SubTRIALING \<Rightarrow> Some ''ACTIVE''
      | SubPAST_DUE \<Rightarrow> Some ''PAST_DUE''
      | SubUNPAID \<Rightarrow> Some ''PAST_DUE''
      | SubCANCELED \<Rightarrow> Some ''CANCELED''
      | _ \<Rightarrow> None)"

definition nullish :: "'a option \<Rightarrow> 'a option \<Rightarrow> 'a option" where
  "nullish x y = (case x of Some v \<Rightarrow> Some v | None \<Rightarrow> y)"

text \<open>\<^verbatim>\<open>x ? new Date(x * 1000) : null\<close>\<close>

definition toDate :: "int option \<Rightarrow> time option" where
  "toDate x = (case x of Some n \<Rightarrow> if n = 0 then None else Some (n * 1000) | None \<Rightarrow> None)"

definition THIRTY_DAYS_SEC :: int where "THIRTY_DAYS_SEC = 30 * 24 * 60 * 60"

definition period_bounds :: "time \<Rightarrow> StripeSub \<Rightarrow> StripePriceItem \<Rightarrow> time \<times> time" where
  "period_bounds now sub item =
     (let rawStart = nullish (ss_currentPeriodStart sub) (nullish (pi_periodStart item)
            (nullish (ss_billingCycleAnchor sub) (ss_startDate sub)));
          rawEnd = nullish (ss_currentPeriodEnd sub) (nullish (pi_periodEnd item)
            (case rawStart of Some n \<Rightarrow> if n = 0 then None else Some (n + THIRTY_DAYS_SEC) | None \<Rightarrow> None))
      in (case toDate rawStart of Some t \<Rightarrow> t | None \<Rightarrow> now,
          case toDate rawEnd of Some t \<Rightarrow> t | None \<Rightarrow> now + THIRTY_DAYS_SEC * 1000))"

definition resolveAccountIdFromCustomer ::
  "('d, 'r) billing_env \<Rightarrow> string \<Rightarrow> ('d, 'r, string option) action" where
  "resolveAccountIdFromCustomer env customer =
     act_bind (db_read (bd_subByCustomer (be_db env) customer)) (\<lambda>sub.
     if (case sub of Some s \<Rightarrow> sb_accountId s \<noteq> [] | None \<Rightarrow> False) then act_return (map_option sb_accountId sub)
     else db_read (bd_accountByCustomer (be_db env) customer))"

section \<open>Subscriptions\<close>

definition sync_account ::
  "('d, 'r) billing_env \<Rightarrow> time \<Rightarrow> string \<Rightarrow> SubscriptionStatus \<Rightarrow> ('d, 'r, bool) action" where
  "sync_account env now accountId status =
     (case subscriptionStatusToAccountStatus status of
        None \<Rightarrow> act_return False
      | Some accountStatus \<Rightarrow>
          if accountStatus = ''PAST_DUE'' then
            act_bind (markPastDue env now accountId (now + GRACE_PERIOD_MS)) (\<lambda>(started, _). act_return started)
          else if accountStatus = ''ACTIVE'' then markActiveFromPastDue env now accountId
          else act_bind (updateBillingStatus env now accountId accountStatus None) (\<lambda>_. act_return True))"

definition handleSubscriptionUpsert ::
  "('d, 'r) billing_env \<Rightarrow> stripe_client \<Rightarrow> time \<Rightarrow> string \<Rightarrow> StripeSub \<Rightarrow> ('d, 'r, Notification list) action" where
  "handleSubscriptionUpsert env st now uuid stripeSub =
     (case ss_items stripeSub of
        [] \<Rightarrow> act_return []
      | priceItem # _ \<Rightarrow>
          (let status = mapStripeStatus (ss_status stripeSub);
               u = (case period_bounds now stripeSub priceItem of (periodStart, periodEnd) \<Rightarrow>
                 \<lparr>su_stripePriceId = pi_priceId priceItem, su_stripeProductId = pi_product priceItem,
                  su_plan = resolvePlan st (pi_priceId priceItem), su_status = status,
                  su_currentPeriodStart = periodStart, su_currentPeriodEnd = periodEnd,
                  su_cancelAtPeriodEnd = (case ss_cancelAtPeriodEnd stripeSub of Some b \<Rightarrow> b | None \<Rightarrow> False),
                  su_canceledAt = toDate (ss_canceledAt stripeSub),
                  su_trialStartsAt = toDate (ss_trialStart stripeSub),
                  su_trialEndsAt = toDate (ss_trialEnd stripeSub)\<rparr>)
           in
           act_bind (case ss_metadataAccountId stripeSub of
                Some a \<Rightarrow> act_return (Some a)
              | None \<Rightarrow> resolveAccountIdFromCustomer env (ss_customer stripeSub)) (\<lambda>resolved.
           case resolved of
             None \<Rightarrow> act_return []
           | Some accountId \<Rightarrow>
               if accountId = [] then act_return []
               else
                 act_bind (db_read (bd_subByStripeId (be_db env) (ss_id stripeSub))) (\<lambda>existing.
                 act_bind (sub_save env (case existing of
                      Some sub \<Rightarrow> applyStripeUpdate now u sub
                    | None \<Rightarrow> Subscription_create uuid now accountId (ss_customer stripeSub) (ss_id stripeSub) u)) (\<lambda>_.
                 act_bind (sync_account env now accountId status) (\<lambda>accountChanged.
                 act_bind (if accountChanged then invalidate_account env accountId else act_return ()) (\<lambda>_.
                 act_return [])))))))"

definition handleSubscriptionDeleted ::
  "('d, 'r) billing_env \<Rightarrow> time \<Rightarrow> StripeSub \<Rightarrow> ('d, 'r, Notification list) action" where
  "handleSubscriptionDeleted env now stripeSub =
     act_bind (db_read (bd_subByStripeId (be_db env) (ss_id stripeSub))) (\<lambda>found.
     case found of
       None \<Rightarrow> act_return []
     | Some sub \<Rightarrow>
         (let sub' = applyStripeUpdate now
            ((update_of sub)\<lparr>su_status := SubCANCELED, su_canceledAt := Some now\<rparr>) sub in
          act_bind (sub_save env sub') (\<lambda>_.
          act_bind (updateBillingStatus env now (sb_accountId sub) ''CANCELED'' None) (\<lambda>_.
          act_bind (invalidate_account env (sb_accountId sub)) (\<lambda>_.
          act_bind (db_read (bd_ownerEmail (be_db env) (sb_accountId sub))) (\<lambda>email.
          act_return (case email of
              Some e \<Rightarrow> if e \<noteq> [] then [SubscriptionCanceledMail e (sb_accountId sub) (sb_currentPeriodEnd sub)] else []
            | None \<Rightarrow> [])))))))"

section \<open>Invoices\<close>

definition invoice_status_of :: "string \<Rightarrow> InvoiceStatus" where
  "invoice_status_of s =
     (case jm_get [(''draft'', InvDRAFT), (''open'', InvOPEN), (''paid'', InvPAID),
        (''uncollectible'', InvUNCOLLECTIBLE), (''void'', InvVOID)] s of Some x \<Rightarrow> x | None \<Rightarrow> InvOPEN)"

definition upsertInvoice ::
  "('d, 'r) billing_env \<Rightarrow> time \<Rightarrow> string \<Rightarrow> StripeInvoice \<Rightarrow> InvoiceStatus \<Rightarrow> ('d, 'r, unit) action" where
  "upsertInvoice env now uuid invoice status =
     act_bind (db_read (bd_invoiceByStripeId (be_db env) (si_id invoice))) (\<lambda>_.
     act_bind (case si_subscription invoice of
          Some subId \<Rightarrow>
            if subId = [] then act_return None
            else act_bind (db_read (bd_subByStripeId (be_db env) subId)) (\<lambda>sub.
                 act_return (map_option sb_accountId sub))
        | None \<Rightarrow> act_return None) (\<lambda>viaSub.
     act_bind (if (case viaSub of Some a \<Rightarrow> a \<noteq> [] | None \<Rightarrow> False) then act_return viaSub
               else resolveAccountIdFromCustomer env (si_customer invoice)) (\<lambda>resolved.
     if (case resolved of Some a \<Rightarrow> a \<noteq> [] | None \<Rightarrow> False) then
       invoice_save env
         \<lparr>iv_id = uuid, iv_accountId = the resolved, iv_stripeInvoiceId = si_id invoice,
               iv_stripeCustomerId = si_customer invoice, iv_stripeSubscriptionId = si_subscription invoice,
               iv_amountDue = si_amountDue invoice, iv_amountPaid = si_amountPaid invoice,
               iv_currency = si_currency invoice, iv_status = status,
               iv_description = si_description invoice, iv_invoicePdfUrl = si_invoicePdf invoice,
               iv_hostedInvoiceUrl = si_hostedInvoiceUrl invoice, iv_periodStart = toDate (si_periodStart invoice),
               iv_periodEnd = toDate (si_periodEnd invoice), iv_paidAt = toDate (si_paidAt invoice),
               iv_dueDate = toDate (si_dueDate invoice), iv_createdAt = now\<rparr>
     else act_return ())))"

text \<open>
  \<open>fmt\<close> is \<^verbatim>\<open>new Intl.NumberFormat("en-US", { style: "currency", currency }).format(amount / 100)\<close>,
  which throws on an unknown currency code.
\<close>

definition invoice_subscription ::
  "('d, 'r) billing_env \<Rightarrow> StripeInvoice \<Rightarrow> ('d, 'r, SubscriptionProps option) action" where
  "invoice_subscription env invoice =
     (case si_subscription invoice of
        Some subId \<Rightarrow> if subId = [] then act_return None else db_read (bd_subByStripeId (be_db env) subId)
      | None \<Rightarrow> act_return None)"

definition format_amount ::
  "(string \<Rightarrow> int \<Rightarrow> string io) \<Rightarrow> StripeInvoice \<Rightarrow> int \<Rightarrow> ('d, 'r, string) action" where
  "format_amount fmt invoice amount = act_io (fmt (si_currency invoice) amount)"

definition handleInvoicePaymentSucceeded ::
  "('d, 'r) billing_env \<Rightarrow> (string \<Rightarrow> int \<Rightarrow> string io) \<Rightarrow> time \<Rightarrow> string \<Rightarrow> StripeInvoice \<Rightarrow>
   ('d, 'r, Notification list) action" where
  "handleInvoicePaymentSucceeded env fmt now uuid invoice =
     act_bind (upsertInvoice env now uuid invoice InvPAID) (\<lambda>_.
     act_bind (invoice_subscription env invoice) (\<lambda>found.
     case found of
       None \<Rightarrow> act_return []
     | Some sub \<Rightarrow>
         act_bind (db_read (bd_ownerEmail (be_db env) (sb_accountId sub))) (\<lambda>email.
         act_bind (if (case email of Some e \<Rightarrow> e \<noteq> [] | None \<Rightarrow> False) then
                     act_bind (format_amount fmt invoice (si_amountPaid invoice)) (\<lambda>amount.
                     act_return [PaymentSucceededMail (the email) (sb_accountId sub) amount
                       (case si_hostedInvoiceUrl invoice of Some url \<Rightarrow> url | None \<Rightarrow> []) (sb_currentPeriodEnd sub)])
                   else act_return []) (\<lambda>mails.
         if Subscription_isPastDue sub then
           act_bind (sub_save env (applyStripeUpdate now ((update_of sub)\<lparr>su_status := SubACTIVE\<rparr>) sub)) (\<lambda>_.
           act_bind (markActiveFromPastDue env now (sb_accountId sub)) (\<lambda>_.
           act_bind (invalidate_account env (sb_accountId sub)) (\<lambda>_.
           act_return mails)))
         else act_return mails))))"

definition handleInvoicePaymentFailed ::
  "('d, 'r) billing_env \<Rightarrow> (string \<Rightarrow> int \<Rightarrow> string io) \<Rightarrow> time \<Rightarrow> string \<Rightarrow> StripeInvoice \<Rightarrow>
   ('d, 'r, Notification list) action" where
  "handleInvoicePaymentFailed env fmt now uuid invoice =
     act_bind (upsertInvoice env now uuid invoice InvOPEN) (\<lambda>_.
     act_bind (invoice_subscription env invoice) (\<lambda>found.
     case found of
       None \<Rightarrow> act_return []
     | Some sub \<Rightarrow>
         act_bind (if Subscription_isPastDue sub then act_return ()
                   else sub_save env (applyStripeUpdate now ((update_of sub)\<lparr>su_status := SubPAST_DUE\<rparr>) sub)) (\<lambda>_.
         act_bind (markPastDue env now (sb_accountId sub) (now + GRACE_PERIOD_MS)) (\<lambda>(started, graceEndsAt).
         case graceEndsAt of
           None \<Rightarrow> act_return []
         | Some deadline \<Rightarrow>
             if \<not> started then act_return []
             else
               act_bind (invalidate_account env (sb_accountId sub)) (\<lambda>_.
               act_bind (db_read (bd_ownerEmail (be_db env) (sb_accountId sub))) (\<lambda>email.
               if (case email of Some e \<Rightarrow> e \<noteq> [] | None \<Rightarrow> False) then
                 act_bind (format_amount fmt invoice (si_amountDue invoice)) (\<lambda>amount.
                 act_return [PaymentFailedMail (the email) (sb_accountId sub) amount deadline])
               else act_return []))))))"

definition handleInvoiceUpsert ::
  "('d, 'r) billing_env \<Rightarrow> time \<Rightarrow> string \<Rightarrow> StripeInvoice \<Rightarrow> ('d, 'r, Notification list) action" where
  "handleInvoiceUpsert env now uuid invoice =
     act_bind (upsertInvoice env now uuid invoice (invoice_status_of (si_status invoice))) (\<lambda>_. act_return [])"

section \<open>Dispatch\<close>

definition HandleStripeWebhook_execute ::
  "('d, 'r) billing_env \<Rightarrow> stripe_client \<Rightarrow> (string \<Rightarrow> int \<Rightarrow> string io) \<Rightarrow> (string \<Rightarrow> string \<Rightarrow> StripeEvent io) \<Rightarrow>
   time \<Rightarrow> string \<Rightarrow> string \<Rightarrow> string \<Rightarrow> ('d, 'r, Notification list) action" where
  "HandleStripeWebhook_execute env st fmt constructWebhookEvent now uuid payload signature =
     act_bind (act_io (constructWebhookEvent payload signature)) (\<lambda>event.
     case event of
       SubscriptionCreated sub \<Rightarrow> handleSubscriptionUpsert env st now uuid sub
     | SubscriptionUpdated sub \<Rightarrow> handleSubscriptionUpsert env st now uuid sub
     | SubscriptionDeleted sub \<Rightarrow> handleSubscriptionDeleted env now sub
     | InvoicePaymentSucceeded invoice \<Rightarrow> handleInvoicePaymentSucceeded env fmt now uuid invoice
     | InvoicePaymentFailed invoice \<Rightarrow> handleInvoicePaymentFailed env fmt now uuid invoice
     | InvoiceCreated invoice \<Rightarrow> handleInvoiceUpsert env now uuid invoice
     | InvoiceFinalized invoice \<Rightarrow> handleInvoiceUpsert env now uuid invoice
     | InvoiceUpdated invoice \<Rightarrow> handleInvoiceUpsert env now uuid invoice
     | OtherEvent _ \<Rightarrow> act_return [])"

end
