(* ===== verification/BillingSafety.thy ===== *)
theory BillingSafety
  imports Webhook KeyMemory
begin

text \<open>
  The billing status of accounts as a state machine: what one webhook event can do to an account,
  what sequences of events and of runs of the grace-period worker can, and what happens when the
  worker and a webhook overlap.
\<close>

section \<open>The state machine\<close>

inductive billing_move :: "time \<Rightarrow> AccountRow \<Rightarrow> AccountRow \<Rightarrow> bool" for now where
  stay: "billing_move now a a"
| past_due: "ac_status a = ''ACTIVE'' \<Longrightarrow>
    billing_move now a (a\<lparr>ac_status := ''PAST_DUE'', ac_graceEndsAt := Some (now + GRACE_PERIOD_MS), ac_updatedAt := now\<rparr>)"
| deadline: "ac_status a = ''PAST_DUE'' \<Longrightarrow> ac_graceEndsAt a = None \<Longrightarrow>
    billing_move now a (a\<lparr>ac_graceEndsAt := Some (now + GRACE_PERIOD_MS), ac_updatedAt := now\<rparr>)"
| recovered: "ac_status a = ''PAST_DUE'' \<Longrightarrow>
    billing_move now a (a\<lparr>ac_status := ''ACTIVE'', ac_graceEndsAt := None, ac_updatedAt := now\<rparr>)"
| canceled: "billing_move now a (a\<lparr>ac_status := ''CANCELED'', ac_graceEndsAt := None, ac_updatedAt := now\<rparr>)"

inductive_cases billing_moveE [elim]: "billing_move now a a'"

lemma billing_move_refl [simp]: "billing_move now a a"
  by (rule billing_move.stay)

lemma rel_move_refl [simp, intro!]: "rel_option (billing_move now) x x"
  by (cases x) (auto intro: billing_move.stay)

text \<open>An action that leaves the accounts alone, and one that moves each at most once.\<close>

definition keeps_accounts :: "('d \<Rightarrow> string \<Rightarrow> AccountRow option) \<Rightarrow> ('d, 'r, 'a) action \<Rightarrow> bool" where
  "keeps_accounts accs m \<longleftrightarrow> (\<forall>s. accs (w_db (snd (m s))) = accs (w_db s))"

definition moves_once ::
  "('d \<Rightarrow> string \<Rightarrow> AccountRow option) \<Rightarrow> (AccountRow \<Rightarrow> AccountRow \<Rightarrow> bool) \<Rightarrow> ('d, 'r, 'a) action \<Rightarrow> bool" where
  "moves_once accs R m \<longleftrightarrow> (\<forall>s i. rel_option R (accs (w_db s) i) (accs (w_db (snd (m s))) i))"

named_theorems frame_intros "actions that leave the accounts alone"

lemma keeps_bind [frame_intros]:
  assumes "keeps_accounts accs m" "\<And>x. keeps_accounts accs (f x)"
  shows "keeps_accounts accs (act_bind m f)"
  using assms unfolding keeps_accounts_def act_bind_def
  by (simp add: split_def split: sum.split)

lemma keeps_return [frame_intros]: "keeps_accounts accs (act_return x)"
  by (simp add: keeps_accounts_def act_return_def)

lemma keeps_read [frame_intros]: "keeps_accounts accs (db_read f)"
  by (simp add: keeps_accounts_def db_read_def split: option.split)

lemma keeps_io [frame_intros]: "keeps_accounts accs (act_io x)"
  by (simp add: keeps_accounts_def act_io_def act_return_def act_throw_def split: option.split)

lemma keeps_if [frame_intros]:
  "(b \<Longrightarrow> keeps_accounts accs m) \<Longrightarrow> (\<not> b \<Longrightarrow> keeps_accounts accs n) \<Longrightarrow> keeps_accounts accs (if b then m else n)"
  by simp

lemma keeps_option [frame_intros]:
  "keeps_accounts accs n \<Longrightarrow> (\<And>y. keeps_accounts accs (m y)) \<Longrightarrow>
     keeps_accounts accs (case x of None \<Rightarrow> n | Some y \<Rightarrow> m y)"
  by (cases x) auto

lemma keeps_redis:
  "(\<And>s. w_db (snd (m s)) = w_db s) \<Longrightarrow> keeps_accounts accs m"
  by (simp add: keeps_accounts_def)

lemma rel_option_reflp: "reflp R \<Longrightarrow> rel_option R x x"
  by (simp add: option.rel_reflp reflpD)

lemma keeps_moves_by: "reflp R \<Longrightarrow> keeps_accounts accs m \<Longrightarrow> moves_once accs R m"
  by (simp add: keeps_accounts_def moves_once_def rel_option_reflp)

lemma keeps_then_moves_by:
  assumes "reflp R" "keeps_accounts accs m" "\<And>x. moves_once accs R (f x)"
  shows "moves_once accs R (act_bind m f)"
  using assms unfolding keeps_accounts_def moves_once_def act_bind_def
  by (auto simp: split_def rel_option_reflp split: sum.split) metis

lemma moves_then_keeps:
  assumes "moves_once accs R m" "\<And>x. keeps_accounts accs (f x)"
  shows "moves_once accs R (act_bind m f)"
  using assms unfolding keeps_accounts_def moves_once_def act_bind_def
  by (simp add: split_def split: sum.split)

lemma moves_if: "(b \<Longrightarrow> moves_once accs R m) \<Longrightarrow> (\<not> b \<Longrightarrow> moves_once accs R n) \<Longrightarrow>
    moves_once accs R (if b then m else n)"
  by simp

lemma moves_option: "moves_once accs R n \<Longrightarrow> (\<And>y. moves_once accs R (m y)) \<Longrightarrow>
     moves_once accs R (case x of None \<Rightarrow> n | Some y \<Rightarrow> m y)"
  by (cases x) auto

lemma reflp_billing_move: "reflp (billing_move now)"
  by (simp add: reflpI)

lemmas keeps_moves = keeps_moves_by [OF reflp_billing_move]
lemmas keeps_then_moves = keeps_then_moves_by [OF reflp_billing_move]

text \<open>What the specification of the database says of each statement.\<close>

lemma accountUpdateD:
  assumes "account_db_spec bd accs"
  shows "bd_accountUpdate bd i f d = Some d' \<Longrightarrow> \<exists>a. accs d i = Some a \<and> accs d' = (accs d)(i \<mapsto> f a)"
  using assms [unfolded account_db_spec_def, THEN conjunct1] by blast

lemma accountUpdateManyD:
  assumes "account_db_spec bd accs" "bd_accountUpdateMany bd i P f d = Some (n, d')"
  shows "case accs d i of
           Some a \<Rightarrow> if P a then n = 1 \<and> accs d' = (accs d)(i \<mapsto> f a) else n = 0 \<and> accs d' = accs d
         | None \<Rightarrow> n = 0 \<and> accs d' = accs d"
  using assms(1) [unfolded account_db_spec_def, THEN conjunct2, THEN conjunct1] assms(2) by blast

lemma accountFindManyD:
  assumes "account_db_spec bd accs"
  shows "bd_accountFindMany bd P d = Some rows \<Longrightarrow>
     distinct (map fst rows) \<and> (\<forall>i a. (i, a) \<in> set rows \<longleftrightarrow> accs d i = Some a \<and> P a)"
  using assms [unfolded account_db_spec_def, THEN conjunct2, THEN conjunct2, THEN conjunct2, THEN conjunct1]
  by blast

lemma keeps_sub_save [frame_intros]:
  assumes "account_db_spec (be_db env) accs"
  shows "keeps_accounts accs (sub_save env p)"
  using assms [unfolded account_db_spec_def, THEN conjunct2, THEN conjunct2, THEN conjunct2, THEN conjunct2,
      THEN conjunct1]
  by (simp add: keeps_accounts_def sub_save_def db_write_def split: option.split)

lemma keeps_invoice_save [frame_intros]:
  assumes "account_db_spec (be_db env) accs"
  shows "keeps_accounts accs (invoice_save env p)"
  using assms [unfolded account_db_spec_def, THEN conjunct2, THEN conjunct2, THEN conjunct2, THEN conjunct2,
      THEN conjunct2]
  by (simp add: keeps_accounts_def invoice_save_def db_write_def split: option.split)

lemma invalidate_db [simp]: "w_db (snd (cache_invalidateAllForAccount env ks s)) = w_db s"
  unfolding cache_invalidateAllForAccount_def
  by (induction ks arbitrary: s)
    (simp_all add: act_return_def act_bind_def cache_invalidate_def split: option.split)

lemma invalidate_account_db [simp]: "w_db (snd (invalidate_account env a s)) = w_db s"
  by (simp add: invalidate_account_def act_bind_def repo_findAllByAccount_def db_read_def act_return_def
      split_def split: option.split)

lemma keeps_invalidate_account [frame_intros]: "keeps_accounts accs (invalidate_account env a)"
  by (rule keeps_redis) simp

lemma moves_count:
  assumes "account_db_spec (be_db env) accs" "reflp R" "\<And>a. P a \<Longrightarrow> R a (f a)"
  shows "moves_once accs R (db_count (bd_accountUpdateMany (be_db env) i P f))"
  unfolding moves_once_def
proof (intro allI)
  fix s j
  show "rel_option R (accs (w_db s) j)
     (accs (w_db (snd (db_count (bd_accountUpdateMany (be_db env) i P f) s))) j)"
  proof (cases "bd_accountUpdateMany (be_db env) i P f (w_db s)")
    case (Some x)
    then show ?thesis using accountUpdateManyD [OF assms(1), of i P f "w_db s" "fst x" "snd x"] assms(2,3)
      by (cases "j = i") (auto simp: db_count_def split_def rel_option_reflp reflpD
          split: option.splits if_splits)
  qed (use assms(2) in \<open>auto simp: db_count_def rel_option_reflp\<close>)
qed

lemma moves_write:
  assumes "account_db_spec (be_db env) accs" "\<And>a. billing_move now a (f a)"
  shows "moves_once accs (billing_move now) (db_write (bd_accountUpdate (be_db env) i f))"
  unfolding moves_once_def
proof (intro allI)
  fix s j
  show "rel_option (billing_move now) (accs (w_db s) j)
     (accs (w_db (snd (db_write (bd_accountUpdate (be_db env) i f) s))) j)"
  proof (cases "bd_accountUpdate (be_db env) i f (w_db s)")
    case (Some d)
    then show ?thesis using accountUpdateD [OF assms(1) Some] assms(2)
      by (cases "j = i") (auto simp: db_write_def)
  qed (auto simp: db_write_def)
qed

lemma moves_count_else:
  assumes spec: "account_db_spec (be_db env) accs" and P: "\<And>a. P a \<Longrightarrow> billing_move now a (f a)"
    and g: "keeps_accounts accs g" and h: "moves_once accs (billing_move now) h"
  shows "moves_once accs (billing_move now)
     (act_bind (db_count (bd_accountUpdateMany (be_db env) i P f)) (\<lambda>n. if n > 0 then g else h))"
  unfolding moves_once_def
proof (intro allI)
  fix s j
  show "rel_option (billing_move now) (accs (w_db s) j) (accs (w_db (snd (act_bind
     (db_count (bd_accountUpdateMany (be_db env) i P f)) (\<lambda>n. if n > 0 then g else h) s))) j)"
  proof (cases "bd_accountUpdateMany (be_db env) i P f (w_db s)")
    case (Some x)
    have upd: "case accs (w_db s) i of
           Some a \<Rightarrow> if P a then fst x = 1 \<and> accs (snd x) = (accs (w_db s))(i \<mapsto> f a)
             else fst x = 0 \<and> accs (snd x) = accs (w_db s)
         | None \<Rightarrow> fst x = 0 \<and> accs (snd x) = accs (w_db s)"
      using accountUpdateManyD [OF spec, of i P f "w_db s" "fst x" "snd x"] Some by simp
    show ?thesis
    proof (cases "fst x = 0")
      case True
      then have "accs (snd x) = accs (w_db s)" using upd by (auto split: option.splits if_splits)
      then show ?thesis using h [unfolded moves_once_def, rule_format, of "s\<lparr>w_db := snd x\<rparr>" j] Some True
        by (simp add: act_bind_def db_count_def split_def)
    next
      case False
      then show ?thesis using g [unfolded keeps_accounts_def, rule_format, of "s\<lparr>w_db := snd x\<rparr>"] upd Some P
        by (cases "j = i") (auto simp: act_bind_def db_count_def split_def split: option.splits if_splits)
    qed
  qed (auto simp: db_count_def act_bind_def)
qed

lemma moves_markPastDue:
  assumes "account_db_spec (be_db env) accs"
  shows "moves_once accs (billing_move now) (markPastDue env now i (now + GRACE_PERIOD_MS))"
  unfolding markPastDue_def
  by (intro moves_count_else assms keeps_moves frame_intros billing_move.intros)
    (auto intro: billing_move.intros)

lemma moves_markActive:
  assumes "account_db_spec (be_db env) accs"
  shows "moves_once accs (billing_move now) (markActiveFromPastDue env now i)"
  unfolding markActiveFromPastDue_def
  by (intro moves_then_keeps moves_count assms frame_intros reflp_billing_move) (auto intro: billing_move.intros)

lemma moves_cancel:
  assumes "account_db_spec (be_db env) accs"
  shows "moves_once accs (billing_move now) (updateBillingStatus env now i ''CANCELED'' None)"
  unfolding updateBillingStatus_def
  by (intro moves_write assms billing_move.canceled)

lemma moves_sync_account:
  assumes "account_db_spec (be_db env) accs"
  shows "moves_once accs (billing_move now) (sync_account env now i status)"
  unfolding sync_account_def
  by (cases status; simp add: subscriptionStatusToAccountStatus_def split_def;
      intro moves_then_keeps moves_markPastDue moves_markActive moves_cancel assms frame_intros keeps_moves)

section \<open>The webhook\<close>

lemma keeps_resolveAccountId [frame_intros]: "keeps_accounts accs (resolveAccountIdFromCustomer env c)"
  unfolding resolveAccountIdFromCustomer_def by (intro frame_intros)

lemma keeps_upsertInvoice [frame_intros]:
  assumes "account_db_spec (be_db env) accs"
  shows "keeps_accounts accs (upsertInvoice env now uuid invoice status)"
  unfolding upsertInvoice_def by (intro frame_intros assms)

lemma keeps_invoice_subscription [frame_intros]: "keeps_accounts accs (invoice_subscription env invoice)"
  unfolding invoice_subscription_def by (intro frame_intros)

lemma keeps_format_amount [frame_intros]: "keeps_accounts accs (format_amount fmt invoice n)"
  unfolding format_amount_def by (rule frame_intros)

lemma moves_subscriptionUpsert_by:
  assumes "account_db_spec (be_db env) accs" "reflp R"
    and "\<And>i. moves_once accs R (sync_account env now i (mapStripeStatus (ss_status sub)))"
  shows "moves_once accs R (handleSubscriptionUpsert env st now uuid sub)"
proof (cases "ss_items sub")
  case Nil
  then show ?thesis unfolding handleSubscriptionUpsert_def by (simp add: keeps_moves_by assms(2) keeps_return)
next
  case (Cons item items)
  note keeps_first = keeps_then_moves_by [OF assms(2)]
  note keeps_all = keeps_moves_by [OF assms(2)]
  show ?thesis unfolding handleSubscriptionUpsert_def Cons Let_def list.case
    by (rule keeps_first, (intro frame_intros)[1], rule moves_option, rule keeps_all,
        (intro frame_intros)[1], rule moves_if, rule keeps_all, (intro frame_intros)[1])
      ((rule keeps_first, (intro frame_intros assms(1))[1])+,
       intro moves_then_keeps assms frame_intros)
qed

lemmas moves_subscriptionUpsert = moves_subscriptionUpsert_by [OF _ reflp_billing_move moves_sync_account]

lemma moves_subscriptionDeleted:
  assumes "account_db_spec (be_db env) accs"
  shows "moves_once accs (billing_move now) (handleSubscriptionDeleted env now sub)"
  unfolding handleSubscriptionDeleted_def Let_def
  by (rule keeps_then_moves, (intro frame_intros)[1], rule moves_option, rule keeps_moves,
      (intro frame_intros)[1], rule keeps_then_moves, (intro frame_intros assms)[1])
    (intro moves_then_keeps moves_cancel assms frame_intros)

lemma moves_paymentSucceeded:
  assumes "account_db_spec (be_db env) accs"
  shows "moves_once accs (billing_move now) (handleInvoicePaymentSucceeded env fmt now uuid invoice)"
  unfolding handleInvoicePaymentSucceeded_def
  by (rule keeps_then_moves, (intro frame_intros assms)[1], rule keeps_then_moves, (intro frame_intros)[1],
      rule moves_option, rule keeps_moves, (intro frame_intros)[1],
      rule keeps_then_moves, (intro frame_intros)[1], rule keeps_then_moves, (intro frame_intros)[1],
      rule moves_if, rule keeps_then_moves, (intro frame_intros assms)[1])
    (intro moves_then_keeps moves_markActive assms frame_intros keeps_moves)+

lemma moves_paymentFailed:
  assumes "account_db_spec (be_db env) accs"
  shows "moves_once accs (billing_move now) (handleInvoicePaymentFailed env fmt now uuid invoice)"
  unfolding handleInvoicePaymentFailed_def split_def
  by (rule keeps_then_moves, (intro frame_intros assms)[1], rule keeps_then_moves, (intro frame_intros)[1],
      rule moves_option, rule keeps_moves, (intro frame_intros)[1],
      rule keeps_then_moves, (intro frame_intros assms)[1])
    (intro moves_then_keeps moves_markPastDue assms frame_intros keeps_moves)+

lemma moves_invoiceUpsert:
  assumes "account_db_spec (be_db env) accs"
  shows "moves_once accs (billing_move now) (handleInvoiceUpsert env now uuid invoice)"
  unfolding handleInvoiceUpsert_def by (intro keeps_moves frame_intros assms)

lemmas moves_handlers = moves_subscriptionUpsert moves_subscriptionDeleted moves_paymentSucceeded
  moves_paymentFailed moves_invoiceUpsert

lemma moves_webhook:
  assumes "account_db_spec (be_db env) accs"
  shows "moves_once accs (billing_move now) (HandleStripeWebhook_execute env st fmt constructEvent now uuid payload sig)"
  unfolding HandleStripeWebhook_execute_def
proof (rule keeps_then_moves, rule frame_intros)
  fix event
  show "moves_once accs (billing_move now) (case event of
       SubscriptionCreated sub \<Rightarrow> handleSubscriptionUpsert env st now uuid sub
     | SubscriptionUpdated sub \<Rightarrow> handleSubscriptionUpsert env st now uuid sub
     | SubscriptionDeleted sub \<Rightarrow> handleSubscriptionDeleted env now sub
     | InvoicePaymentSucceeded invoice \<Rightarrow> handleInvoicePaymentSucceeded env fmt now uuid invoice
     | InvoicePaymentFailed invoice \<Rightarrow> handleInvoicePaymentFailed env fmt now uuid invoice
     | InvoiceCreated invoice \<Rightarrow> handleInvoiceUpsert env now uuid invoice
     | InvoiceFinalized invoice \<Rightarrow> handleInvoiceUpsert env now uuid invoice
     | InvoiceUpdated invoice \<Rightarrow> handleInvoiceUpsert env now uuid invoice
     | OtherEvent _ \<Rightarrow> act_return [])"
    by (cases event) (simp_all add: moves_handlers assms keeps_moves keeps_return)
qed

section \<open>The grace-period worker\<close>

definition suspended :: "time \<Rightarrow> AccountRow \<Rightarrow> AccountRow" where
  "suspended now a = a\<lparr>ac_status := ''SUSPENDED'', ac_graceEndsAt := None, ac_updatedAt := now\<rparr>"

definition grace_expired :: "time \<Rightarrow> AccountRow \<Rightarrow> bool" where
  "grace_expired now a \<longleftrightarrow> ac_status a = ''PAST_DUE'' \<and> (\<exists>g \<le> now. ac_graceEndsAt a = Some g)"

definition deadline_missing :: "AccountRow \<Rightarrow> bool" where
  "deadline_missing a \<longleftrightarrow> ac_status a = ''PAST_DUE'' \<and> ac_graceEndsAt a = None"

definition backfilled :: "AccountRow \<Rightarrow> AccountRow" where
  "backfilled a = a\<lparr>ac_graceEndsAt := Some (ac_updatedAt a + GRACE_PERIOD_MS)\<rparr>"

definition accountUpdate_total :: "'d billing_db \<Rightarrow> ('d \<Rightarrow> string \<Rightarrow> AccountRow option) \<Rightarrow> bool" where
  "accountUpdate_total bd accs \<longleftrightarrow> (\<forall>d i f a. accs d i = Some a \<longrightarrow> bd_accountUpdate bd i f d \<noteq> None)"

lemma grace_suspend_accounts:
  assumes "account_db_spec (be_db env) accs"
  shows "accs (w_db (grace_suspend env now i s)) = accs (w_db s) \<or>
     (\<exists>a. accs (w_db s) i = Some a \<and>
        accs (w_db (grace_suspend env now i s)) = (accs (w_db s))(i \<mapsto> suspended now a))"
  using accountUpdateD [OF assms, of i _ "w_db s"]
  by (auto simp: grace_suspend_def act_bind_def db_write_def suspended_def split: option.split)

lemma grace_suspend_exact:
  assumes "account_db_spec (be_db env) accs" "accountUpdate_total (be_db env) accs" "accs (w_db s) i = Some a"
  shows "accs (w_db (grace_suspend env now i s)) = (accs (w_db s))(i \<mapsto> suspended now a)"
proof -
  obtain d where d: "bd_accountUpdate (be_db env) i
      (\<lambda>a. a\<lparr>ac_status := ''SUSPENDED'', ac_graceEndsAt := None, ac_updatedAt := now\<rparr>) (w_db s) = Some d"
    using assms(2,3) unfolding accountUpdate_total_def by blast
  then show ?thesis using accountUpdateD [OF assms(1) d] assms(3)
    by (simp add: grace_suspend_def act_bind_def db_write_def suspended_def)
qed

lemma grace_fold_exact:
  assumes "account_db_spec (be_db env) accs" "accountUpdate_total (be_db env) accs"
  shows "distinct is \<Longrightarrow> (\<And>i. i \<in> set is \<Longrightarrow> accs (w_db s) i \<noteq> None) \<Longrightarrow>
     accs (w_db (fold (grace_suspend env now) is s)) =
       (\<lambda>i. if i \<in> set is then map_option (suspended now) (accs (w_db s) i) else accs (w_db s) i)"
proof (induction "is" arbitrary: s)
  case (Cons i "is")
  then obtain a where a: "accs (w_db s) i = Some a" by fastforce
  note step = grace_suspend_exact [where now = now, OF assms a]
  show ?case using Cons.prems Cons.IH [of "grace_suspend env now i s"] a
    by (auto simp: step fun_eq_iff)
qed simp

lemma grace_find_eq:
  "grace_find env now = act_bind (db_read (bd_accountFindMany (be_db env) (grace_expired now)))
     (\<lambda>rows. act_return (map fst rows))"
proof -
  have "(\<lambda>a. ac_status a = ''PAST_DUE'' \<and> (case ac_graceEndsAt a of Some g \<Rightarrow> g \<le> now | None \<Rightarrow> False)) =
      grace_expired now"
    by (auto simp: grace_expired_def fun_eq_iff split: option.split)
  then show ?thesis unfolding grace_find_def by simp
qed

lemma grace_find_world: "snd (grace_find env now s) = s"
  by (simp add: grace_find_eq act_bind_def act_return_def db_read_def split: option.split)

lemma grace_find_exact:
  assumes "account_db_spec (be_db env) accs" "grace_find env now s = (Inr is, s')"
  shows "distinct is" "i \<in> set is \<longleftrightarrow> (\<exists>a. accs (w_db s) i = Some a \<and> grace_expired now a)"
proof -
  obtain rows where rows: "bd_accountFindMany (be_db env) (grace_expired now) (w_db s) = Some rows" "is = map fst rows"
    using assms(2) by (auto simp: grace_find_eq act_bind_def act_return_def db_read_def split: option.splits)
  note found = accountFindManyD [OF assms(1) rows(1)]
  show "distinct is" using found rows(2) by simp
  show "i \<in> set is \<longleftrightarrow> (\<exists>a. accs (w_db s) i = Some a \<and> grace_expired now a)"
    using found rows(2) by force
qed

section \<open>Events and ticks in any order\<close>

text \<open>
  The worker's tick is not atomic: what it read is a list of accounts it has yet to suspend, and
  webhook events are processed in between.
\<close>

inductive billing_step ::
  "('d, 'r) billing_env \<Rightarrow> stripe_client \<Rightarrow> (string \<Rightarrow> int \<Rightarrow> string io) \<Rightarrow> (string \<Rightarrow> string \<Rightarrow> StripeEvent io) \<Rightarrow>
   ('d, 'r) world \<times> string list \<Rightarrow> ('d, 'r) world \<times> string list \<Rightarrow> bool"
  for env st fmt ce where
  webhook: "billing_step env st fmt ce (s, pending)
    (snd (HandleStripeWebhook_execute env st fmt ce now uuid payload sig s), pending)"
| tick: "grace_find env now s = (Inr is, s') \<Longrightarrow> billing_step env st fmt ce (s, []) (s', is)"
| suspend: "billing_step env st fmt ce (s, i # is) (grace_suspend env now i s, is)"

inductive_cases billing_stepE: "billing_step env st fmt ce (s, p) t"

text \<open>What one step can do to one account.\<close>

lemma billing_step_account:
  assumes "account_db_spec (be_db env) accs" "billing_step env st fmt ce (s, p) (s', p')"
  shows "\<exists>now. rel_option (\<lambda>a b. billing_move now a b \<or> b = suspended now a) (accs (w_db s) i) (accs (w_db s') i)"
  using assms(2)
proof (cases rule: billing_step.cases)
  case (webhook now uuid payload sig)
  then show ?thesis using moves_webhook [OF assms(1), of now st fmt ce uuid payload sig]
    unfolding moves_once_def by (metis (no_types, lifting) option.rel_mono_strong)
next
  case (tick now)
  then show ?thesis using grace_find_world [of env now s] by (auto intro!: option.rel_refl)
next
  case (suspend j now)
  then show ?thesis using grace_suspend_accounts [OF assms(1), of now j s]
    by (auto intro!: exI [of _ now] option.rel_refl)
qed

lemma unconnectable_step:
  assumes "account_db_spec (be_db env) accs" "billing_step env st fmt ce (s, p) (s', p')"
    and "accs (w_db s) i = Some a" "\<not> isConnectableAccountStatus (ac_status a)"
  shows "\<exists>a'. accs (w_db s') i = Some a' \<and> \<not> isConnectableAccountStatus (ac_status a')"
  using billing_step_account [OF assms(1,2), of i] assms(3,4)
  by (auto simp: option_rel_Some1 suspended_def isConnectableAccountStatus_def CONNECTABLE_ACCOUNT_STATUSES_def)

lemma deadline_step:
  assumes "account_db_spec (be_db env) accs" "billing_step env st fmt ce (s, p) (s', p')"
    and "accs (w_db s') i = Some b" "ac_status b = ''PAST_DUE''"
  shows "\<exists>a. accs (w_db s) i = Some a \<and> (ac_graceEndsAt b \<noteq> None \<or> a = b) \<and>
     (ac_status a = ''PAST_DUE'' \<and> ac_graceEndsAt a \<noteq> None \<longrightarrow> ac_graceEndsAt b = ac_graceEndsAt a)"
  using billing_step_account [OF assms(1,2), of i] assms(3,4)
  by (auto simp: option_rel_Some2 suspended_def)

section \<open>A database in memory\<close>

text \<open>One table of accounts and one of subscriptions, both association lists; no keys, no invoices.\<close>

record mem_billing =
  mb_accounts :: "(string \<times> AccountRow) list"
  mb_subs :: "(string \<times> SubscriptionProps) list"

definition mem_accs :: "mem_billing \<Rightarrow> string \<Rightarrow> AccountRow option" where
  "mem_accs d = map_of (mb_accounts d)"

definition mem_sub_where :: "(SubscriptionProps \<Rightarrow> bool) \<Rightarrow> mem_billing \<Rightarrow> SubscriptionProps option" where
  "mem_sub_where P d = List.find P (map snd (mb_subs d))"

definition mem_put :: "string \<Rightarrow> AccountRow \<Rightarrow> mem_billing \<Rightarrow> mem_billing" where
  "mem_put i a d = d\<lparr>mb_accounts := (i, a) # mb_accounts d\<rparr>"

definition mem_billing_db :: "mem_billing billing_db" where
  "mem_billing_db = \<lparr>
     bd_subByStripeId = (\<lambda>i d. Some (mem_sub_where (\<lambda>s. sb_stripeSubscriptionId s = i) d)),
     bd_subByCustomer = (\<lambda>i d. Some (mem_sub_where (\<lambda>s. sb_stripeCustomerId s = i) d)),
     bd_subByAccount = (\<lambda>i d. Some (mem_sub_where (\<lambda>s. sb_accountId s = i) d)),
     bd_subUpsert = (\<lambda>i u c d. Some (d\<lparr>mb_subs :=
        (i, (case map_of (mb_subs d) i of Some s \<Rightarrow> u s | None \<Rightarrow> c)) # mb_subs d\<rparr>)),
     bd_invoiceByStripeId = (\<lambda>i d. Some None),
     bd_invoicesByAccount = (\<lambda>i n d. Some []),
     bd_invoiceUpsert = (\<lambda>i u c d. Some d),
     bd_accountFind = (\<lambda>i d. Some (mem_accs d i)),
     bd_accountByCustomer = (\<lambda>c d. Some None),
     bd_accountUpdate = (\<lambda>i f d. case mem_accs d i of Some a \<Rightarrow> Some (mem_put i (f a) d) | None \<Rightarrow> None),
     bd_accountUpdateMany = (\<lambda>i P f d. Some (case mem_accs d i of
        Some a \<Rightarrow> if P a then (1, mem_put i (f a) d) else (0, d) | None \<Rightarrow> (0, d))),
     bd_accountFindMany = (\<lambda>P d. Some (map (\<lambda>i. (i, the (mem_accs d i)))
        (filter (\<lambda>i. case mem_accs d i of Some a \<Rightarrow> P a | None \<Rightarrow> False) (remdups (map fst (mb_accounts d)))))),
     bd_ownerEmail = (\<lambda>i d. Some None)\<rparr>"

definition mem_no_keys :: "mem_billing key_db" where
  "mem_no_keys = \<lparr>
     kd_findById = (\<lambda>i d. Some None), kd_findByKeyId = (\<lambda>i d. Some None), kd_findMany = (\<lambda>P d. Some []),
     kd_findManyOrdered = (\<lambda>P f d. Some []), kd_count = (\<lambda>P d. Some 0), kd_upsert = (\<lambda>i u c d. None),
     kd_updateMany = (\<lambda>P u d. Some d), kd_memberLevel = (\<lambda>a u d. Some None),
     kd_accountStatus = (\<lambda>a d. Some (map_option ac_status (mem_accs d a))),
     kd_subscriptionPlan = (\<lambda>a d. Some None), kd_auditCreate = (\<lambda>e d. Some d)\<rparr>"

definition mem_billing_env :: "(mem_billing, (string, time) jsmap) billing_env" where
  "mem_billing_env = \<lparr>
     be_keys = \<lparr>ke_db = mem_no_keys, ke_platform = ke_platform (mem_env 0), ke_pepper = [],
       ke_redis = mem_redis, ke_del = (\<lambda>k r. Some (jm_delete k r)), ke_localeCompare = (\<lambda>a b. 0)\<rparr>,
     be_db = mem_billing_db\<rparr>"

lemma mem_put_accs: "mem_accs (mem_put i a d) = (mem_accs d)(i \<mapsto> a)"
  by (simp add: mem_accs_def mem_put_def)

lemma mem_accs_subs: "mem_accs (d\<lparr>mb_subs := x\<rparr>) = mem_accs d"
  by (simp add: mem_accs_def)

lemma mem_billing_spec: "account_db_spec (be_db mem_billing_env) mem_accs"
proof -
  have "(\<exists>a. mem_accs d i = Some a \<and> P a) \<Longrightarrow> i \<in> fst ` set (mb_accounts d)" for d i P
    by (auto simp: mem_accs_def dest!: map_of_SomeD) force
  then show ?thesis unfolding account_db_spec_def mem_billing_env_def mem_billing_db_def
    by (auto simp: mem_put_accs mem_accs_subs comp_def split: option.splits if_splits)
qed

lemma mem_billing_total: "accountUpdate_total (be_db mem_billing_env) mem_accs"
  by (auto simp: accountUpdate_total_def mem_billing_env_def mem_billing_db_def)

definition mem_account :: "string \<Rightarrow> time option \<Rightarrow> AccountRow" where
  "mem_account status deadline = \<lparr>ac_status = status, ac_graceEndsAt = deadline,
     ac_stripeCustomerId = Some ''cus'', ac_updatedAt = 0\<rparr>"

definition mem_sub :: "SubscriptionStatus \<Rightarrow> SubscriptionProps" where
  "mem_sub status = \<lparr>sb_id = ''s'', sb_accountId = ''a'', sb_stripeCustomerId = ''cus'',
     sb_stripeSubscriptionId = ''sub'', sb_stripePriceId = ''pro'', sb_stripeProductId = ''prod'',
     sb_plan = PRO, sb_status = status, sb_currentPeriodStart = 0, sb_currentPeriodEnd = 9000,
     sb_cancelAtPeriodEnd = False, sb_canceledAt = None, sb_trialStartsAt = None, sb_trialEndsAt = None,
     sb_createdAt = 0, sb_updatedAt = 0\<rparr>"

definition mem_billing_world ::
  "string \<Rightarrow> time option \<Rightarrow> SubscriptionStatus \<Rightarrow> (mem_billing, (string, time) jsmap) world" where
  "mem_billing_world status deadline sub = \<lparr>
     w_db = \<lparr>mb_accounts = [(''a'', mem_account status deadline)], mb_subs = [(''s'', mem_sub sub)]\<rparr>, w_redis = []\<rparr>"

definition mem_stripe :: stripe_client where
  "mem_stripe = \<lparr>st_createCustomer = (\<lambda>_ _ _. Some ''cus''), st_createCheckoutSession = (\<lambda>_ _ _ _ _ _. Some (Some ''url'')),
     st_createPortalSession = (\<lambda>_ _. Some ''url''), st_proPriceId = ''pro'', st_enterprisePriceId = ''ent''\<rparr>"

definition stripe_sub_event :: "string \<Rightarrow> StripeSub" where
  "stripe_sub_event status = \<lparr>ss_id = ''sub'', ss_customer = ''cus'', ss_status = status,
     ss_items = [\<lparr>pi_priceId = ''pro'', pi_product = ''prod'', pi_periodStart = Some 1, pi_periodEnd = Some 2\<rparr>],
     ss_currentPeriodStart = None, ss_currentPeriodEnd = None, ss_billingCycleAnchor = None, ss_startDate = None,
     ss_metadataAccountId = Some ''a'', ss_cancelAtPeriodEnd = None, ss_canceledAt = None, ss_trialStart = None,
     ss_trialEnd = None\<rparr>"

definition stripe_invoice_event :: StripeInvoice where
  "stripe_invoice_event = \<lparr>si_id = ''in'', si_customer = ''cus'', si_subscription = Some ''sub'',
     si_status = ''open'', si_amountDue = 900, si_amountPaid = 0, si_currency = ''usd'', si_description = None,
     si_invoicePdf = None, si_hostedInvoiceUrl = None, si_periodStart = None, si_periodEnd = None,
     si_paidAt = None, si_dueDate = None\<rparr>"

text \<open>The verified event is chosen by the payload.\<close>

definition mem_events :: "string \<Rightarrow> string \<Rightarrow> StripeEvent io" where
  "mem_events payload sig =
     (if payload = ''failed'' then Some (InvoicePaymentFailed stripe_invoice_event)
      else if payload = ''paid'' then Some (InvoicePaymentSucceeded stripe_invoice_event)
      else if payload = ''active'' then Some (SubscriptionCreated (stripe_sub_event ''active''))
      else if payload = ''deleted'' then Some (SubscriptionDeleted (stripe_sub_event ''canceled''))
      else None)"

definition mem_webhook ::
  "time \<Rightarrow> string \<Rightarrow> (mem_billing, (string, time) jsmap) world \<Rightarrow> (mem_billing, (string, time) jsmap) world" where
  "mem_webhook now payload s =
     snd (HandleStripeWebhook_execute mem_billing_env mem_stripe (\<lambda>_ _. Some []) mem_events now ''n'' payload [] s)"

lemmas mem_billing_simps = mem_webhook_def HandleStripeWebhook_execute_def mem_events_def act_io_def
  act_bind_def act_return_def db_read_def db_write_def db_count_def mem_billing_env_def mem_billing_db_def
  mem_billing_world_def mem_sub_where_def mem_sub_def mem_put_def mem_accs_def mem_account_def
  stripe_invoice_event_def stripe_sub_event_def mem_stripe_def mem_no_keys_def

lemmas webhook_simps = handleInvoicePaymentFailed_def handleInvoicePaymentSucceeded_def
  handleSubscriptionUpsert_def handleSubscriptionDeleted_def upsertInvoice_def invoice_subscription_def
  invoice_save_def sub_save_def Subscription_isPastDue_def markPastDue_def markActiveFromPastDue_def
  invalidate_account_def repo_findAllByAccount_def updateBillingStatus_def sync_account_def
  subscriptionStatusToAccountStatus_def mapStripeStatus_def applyStripeUpdate_def update_of_def Let_def

lemma mem_payment_failed:
  "mem_accs (w_db (mem_webhook 100 ''failed'' (mem_billing_world ''ACTIVE'' None SubACTIVE))) ''a'' =
     Some ((mem_account ''PAST_DUE'' (Some (100 + GRACE_PERIOD_MS)))\<lparr>ac_updatedAt := 100\<rparr>)"
  by (simp add: mem_billing_simps webhook_simps)

lemma mem_payment_recovered:
  "mem_accs (w_db (mem_webhook 500 ''paid'' (mem_billing_world ''PAST_DUE'' (Some 400) SubPAST_DUE))) ''a'' =
     Some ((mem_account ''ACTIVE'' None)\<lparr>ac_updatedAt := 500\<rparr>)"
  by (simp add: mem_billing_simps webhook_simps)

lemma mem_deleted:
  "mem_accs (w_db (mem_webhook 500 ''deleted'' (mem_billing_world ''ACTIVE'' None SubACTIVE))) ''a'' =
     Some ((mem_account ''CANCELED'' None)\<lparr>ac_updatedAt := 500\<rparr>)"
  by (simp add: mem_billing_simps webhook_simps)

lemma mem_step:
  "billing_step mem_billing_env mem_stripe (\<lambda>_ _. Some []) mem_events (s, p) (mem_webhook now payload s, p)"
  unfolding mem_webhook_def by (rule billing_step.webhook)

lemma mem_steps:
  "(billing_step mem_billing_env mem_stripe (\<lambda>_ _. Some []) mem_events)\<^sup>*\<^sup>* (s, p) (mem_webhook now payload s, p)"
  using mem_step by (rule r_into_rtranclp)

section \<open>Properties\<close>

text \<open>
  C6: The billing state machine is implemented. Whatever event the webhook receives, whatever the
  subscription and invoice tables hold, and whether or not a statement in the middle fails, each
  account moves by at most one step of \<open>billing_move\<close>: nothing, ACTIVE to PAST_DUE with a deadline
  seven days away, a missing deadline set, PAST_DUE back to ACTIVE, or CANCELED.
\<close>

theorem webhook_refines:
  assumes "account_db_spec (be_db env) accs"
  shows "rel_option (billing_move now) (accs (w_db s) accountId)
     (accs (w_db (snd (HandleStripeWebhook_execute env st fmt constructEvent now uuid payload sig s))) accountId)"
  using moves_webhook [OF assms] unfolding moves_once_def by blast

theorem webhook_refines_witness:
  "billing_move 100 (mem_account ''ACTIVE'' None)
     ((mem_account ''PAST_DUE'' (Some (100 + GRACE_PERIOD_MS)))\<lparr>ac_updatedAt := 100\<rparr>)"
  using webhook_refines [OF mem_billing_spec, of 100 "mem_billing_world ''ACTIVE'' None SubACTIVE" "''a''"
      mem_stripe "\<lambda>_ _. Some []" mem_events "''n''" "''failed''" "[]", folded mem_webhook_def]
  unfolding mem_payment_failed by (simp add: mem_accs_def mem_billing_world_def)

text \<open>
  C15: Billing never restores an account. Once an account may not connect (suspended, cancelled,
  restricted or deleted), no sequence of webhook events and steps of the grace-period worker, however
  they interleave, makes it one that may: a late payment or a retried event does not resurrect it.
\<close>

theorem billing_never_restores:
  assumes "account_db_spec (be_db env) accs"
    and "(billing_step env st fmt constructEvent)\<^sup>*\<^sup>* (s, pending) (s', pending')"
    and "accs (w_db s) accountId = Some a" "\<not> isConnectableAccountStatus (ac_status a)"
  shows "\<exists>a'. accs (w_db s') accountId = Some a' \<and> \<not> isConnectableAccountStatus (ac_status a')"
  using assms(2)
proof (induction rule: rtranclp_induct2)
  case (step s1 p1 s2 p2)
  then show ?case using unconnectable_step [OF assms(1)] by blast
qed (use assms in blast)

theorem billing_never_restores_witness:
  "\<exists>a. mem_accs (w_db (mem_webhook 500 ''paid'' (mem_billing_world ''SUSPENDED'' None SubPAST_DUE))) ''a'' = Some a \<and>
     \<not> isConnectableAccountStatus (ac_status a)"
  by (rule billing_never_restores [OF mem_billing_spec mem_steps, where a = "mem_account ''SUSPENDED'' None"])
    (simp_all add: mem_billing_world_def mem_accs_def mem_account_def isConnectableAccountStatus_def
      CONNECTABLE_ACCOUNT_STATUSES_def)

text \<open>
  C28: Every account in arrears has a deadline, and it does not move. If every PAST_DUE account has a
  deadline at the start, then after any interleaving of webhook events and worker steps it still
  has one; and a step that finds the account PAST_DUE and leaves it PAST_DUE keeps the same deadline, so
  that failing payments, which Stripe retries, do not extend the grace period.
\<close>

theorem past_due_deadline:
  assumes "account_db_spec (be_db env) accs"
    and "\<And>i a. accs (w_db s0) i = Some a \<Longrightarrow> ac_status a = ''PAST_DUE'' \<Longrightarrow> ac_graceEndsAt a \<noteq> None"
    and "(billing_step env st fmt constructEvent)\<^sup>*\<^sup>* (s0, pending0) (s, pending)"
    and "billing_step env st fmt constructEvent (s, pending) (s', pending')"
    and "accs (w_db s') accountId = Some b" "ac_status b = ''PAST_DUE''"
  shows "\<exists>deadline. ac_graceEndsAt b = Some deadline \<and>
     (\<forall>a. accs (w_db s) accountId = Some a \<and> ac_status a = ''PAST_DUE'' \<longrightarrow> ac_graceEndsAt a = Some deadline)"
proof -
  have has: "accs (w_db s) i = Some a \<Longrightarrow> ac_status a = ''PAST_DUE'' \<Longrightarrow> ac_graceEndsAt a \<noteq> None" for i a
    using assms(3)
  proof (induction arbitrary: a rule: rtranclp_induct2)
    case refl
    then show ?case using assms(2) by blast
  next
    case (step s1 p1 s2 p2)
    then show ?case using deadline_step [OF assms(1) step(2,4,5)] by blast
  qed
  obtain a where a: "accs (w_db s) accountId = Some a" "ac_graceEndsAt b \<noteq> None \<or> a = b"
    "ac_status a = ''PAST_DUE'' \<and> ac_graceEndsAt a \<noteq> None \<longrightarrow> ac_graceEndsAt b = ac_graceEndsAt a"
    using deadline_step [OF assms(1,4,5,6)] by blast
  then have "ac_graceEndsAt b \<noteq> None" using has [OF a(1)] assms(6) by auto
  then show ?thesis using a has [OF a(1)] by auto
qed

theorem past_due_deadline_witness:
  "\<exists>deadline. ac_graceEndsAt ((mem_account ''PAST_DUE'' (Some (100 + GRACE_PERIOD_MS)))\<lparr>ac_updatedAt := 100\<rparr>) = Some deadline"
  using past_due_deadline [OF mem_billing_spec _ rtranclp.rtrancl_refl mem_step mem_payment_failed]
  by (force simp: mem_billing_world_def mem_accs_def mem_account_def split: if_splits)

text \<open>
  A tick of the grace-period worker that reads and writes without error suspends exactly the
  accounts that are PAST_DUE with a deadline that has passed, and changes no other account.
\<close>

theorem grace_worker_exact:
  assumes "account_db_spec (be_db env) accs" "accountUpdate_total (be_db env) accs"
    and "grace_find env now s = (Inr expired, s)"
  shows "accs (w_db (snd (GracePeriodWorker_tick env now s))) =
     (\<lambda>i. map_option (\<lambda>a. if grace_expired now a then suspended now a else a) (accs (w_db s) i))"
proof -
  note found = grace_find_exact [OF assms(1,3)]
  have "accs (w_db (fold (grace_suspend env now) expired s)) =
      (\<lambda>i. if i \<in> set expired then map_option (suspended now) (accs (w_db s) i) else accs (w_db s) i)"
    by (rule grace_fold_exact [OF assms(1,2) found(1)]) (use found(2) in auto)
  also have "\<dots> = (\<lambda>i. map_option (\<lambda>a. if grace_expired now a then suspended now a else a) (accs (w_db s) i))"
    (is "?f = ?g")
  proof
    fix i
    show "?f i = ?g i" by (cases "accs (w_db s) i") (simp_all add: found(2))
  qed
  finally show ?thesis by (simp add: GracePeriodWorker_tick_def act_bind_def assms(3))
qed

theorem grace_worker_exact_witness:
  "mem_accs (w_db (snd (GracePeriodWorker_tick mem_billing_env 500
     (mem_billing_world ''PAST_DUE'' (Some 400) SubPAST_DUE)))) ''a'' =
   Some (suspended 500 (mem_account ''PAST_DUE'' (Some 400)))"
proof -
  have "grace_find mem_billing_env 500 (mem_billing_world ''PAST_DUE'' (Some 400) SubPAST_DUE) =
      (Inr [''a''], mem_billing_world ''PAST_DUE'' (Some 400) SubPAST_DUE)"
    by (simp add: grace_find_def mem_billing_simps)
  from grace_worker_exact [OF mem_billing_spec mem_billing_total this]
  show ?thesis by (simp add: mem_billing_world_def mem_accs_def grace_expired_def mem_account_def)
qed

lemma backfill_write_exact:
  assumes "account_db_spec (be_db env) accs" "backfill_write env i g s = (Inr written, s')"
    and "accs (w_db s) i = Some a" "deadline_missing a"
  shows "written" "accs (w_db s') = (accs (w_db s))(i \<mapsto> a\<lparr>ac_graceEndsAt := Some g\<rparr>)"
proof -
  obtain n d where run: "bd_accountUpdateMany (be_db env) i (\<lambda>a. ac_status a = ''PAST_DUE'' \<and> ac_graceEndsAt a = None)
      (\<lambda>a. a\<lparr>ac_graceEndsAt := Some g\<rparr>) (w_db s) = Some (n, d)" "s' = s\<lparr>w_db := d\<rparr>" "written \<longleftrightarrow> n > 0"
    using assms(2) by (auto simp: backfill_write_def act_bind_def act_return_def db_count_def split: option.splits)
  from accountUpdateManyD [OF assms(1) run(1)] assms(3,4) run(2,3)
  show "written" "accs (w_db s') = (accs (w_db s))(i \<mapsto> a\<lparr>ac_graceEndsAt := Some g\<rparr>)"
    by (auto simp: deadline_missing_def)
qed

lemma backfill_rows_exact:
  assumes "account_db_spec (be_db env) accs"
  shows "backfill_rows env True now rs s = (Inr rows, s') \<Longrightarrow> distinct (map fst rs) \<Longrightarrow>
     (\<And>i a. (i, a) \<in> set rs \<Longrightarrow> accs (w_db s) i = Some a \<and> deadline_missing a) \<Longrightarrow>
     map bf_accountId rows = map fst rs \<and> list_all bf_written rows \<and>
     accs (w_db s') = (\<lambda>i. if i \<in> fst ` set rs then map_option backfilled (accs (w_db s) i) else accs (w_db s) i)"
proof (induction rs arbitrary: s rows)
  case Nil
  then show ?case by (simp add: act_return_def)
next
  case (Cons r rs)
  obtain i a where r: "r = (i, a)" by (cases r)
  obtain w s1 rows1 where wrote: "backfill_write env i (ac_updatedAt a + GRACE_PERIOD_MS) s = (Inr w, s1)"
    and rest: "backfill_rows env True now rs s1 = (Inr rows1, s')"
    and rows: "rows = \<lparr>bf_accountId = i, bf_graceEndsAt = ac_updatedAt a + GRACE_PERIOD_MS,
        bf_alreadyExpired = (ac_updatedAt a + GRACE_PERIOD_MS \<le> now), bf_written = w\<rparr> # rows1"
    using Cons.prems(1) r by (auto simp: act_bind_def act_return_def Let_def split: prod.splits sum.splits)
  have a: "accs (w_db s) i = Some a" "deadline_missing a" using Cons.prems(3) [of i a] r by auto
  note exact = backfill_write_exact [OF assms wrote a]
  have later: "accs (w_db s1) j = Some b \<and> deadline_missing b" if "(j, b) \<in> set rs" for j b
  proof -
    have "j \<noteq> i" using that Cons.prems(2) r by force
    then show ?thesis using Cons.prems(3) [of j b] that exact(2) by simp
  qed
  show ?case using Cons.IH [OF rest _ later] Cons.prems(2) exact rows r a
    by (auto simp: fun_eq_iff backfilled_def)
qed

text \<open>
  The backfill script gives exactly the accounts stuck in PAST_DUE without a deadline the one they
  should have had, seven days after their last change, reports each of them as written, and changes no
  other account.
\<close>

theorem backfill_exact:
  assumes "account_db_spec (be_db env) accs"
    and "backfillGraceEndsAt env True now s = (Inr rows, s')"
  shows "list_all bf_written rows \<and>
     set (map bf_accountId rows) = {i. \<exists>a. accs (w_db s) i = Some a \<and> deadline_missing a} \<and>
     accs (w_db s') = (\<lambda>i. map_option (\<lambda>a. if deadline_missing a then backfilled a else a) (accs (w_db s) i))"
proof -
  have missing: "(\<lambda>a. ac_status a = ''PAST_DUE'' \<and> ac_graceEndsAt a = None) = deadline_missing"
    by (auto simp: deadline_missing_def)
  obtain rs where find: "bd_accountFindMany (be_db env) deadline_missing (w_db s) = Some rs"
    and run: "backfill_rows env True now rs s = (Inr rows, s')"
    using assms(2) unfolding backfillGraceEndsAt_def backfill_find_def missing
    by (auto simp: act_bind_def db_read_def split: option.splits)
  note found = accountFindManyD [OF assms(1) find]
  have rowsD: "accs (w_db s) i = Some a \<and> deadline_missing a" if "(i, a) \<in> set rs" for i a
    using found that by blast
  have ids: "i \<in> fst ` set rs \<longleftrightarrow> (\<exists>a. accs (w_db s) i = Some a \<and> deadline_missing a)" for i
    using found by force
  note finished = backfill_rows_exact [OF assms(1) run conjunct1 [OF found] rowsD]
  have eq: "(if i \<in> fst ` set rs then map_option backfilled (accs (w_db s) i) else accs (w_db s) i) =
      map_option (\<lambda>a. if deadline_missing a then backfilled a else a) (accs (w_db s) i)" for i
    by (cases "accs (w_db s) i") (simp_all add: ids)
  have "set (map bf_accountId rows) = fst ` set rs" using finished by (metis set_map)
  also have "\<dots> = {i. \<exists>a. accs (w_db s) i = Some a \<and> deadline_missing a}" using ids by blast
  finally show ?thesis using finished unfolding eq by blast
qed

theorem backfill_exact_witness:
  "mem_accs (w_db (snd (backfillGraceEndsAt mem_billing_env True 500 (mem_billing_world ''PAST_DUE'' None SubPAST_DUE)))) ''a'' =
     Some (mem_account ''PAST_DUE'' (Some GRACE_PERIOD_MS))"
proof -
  let ?s = "mem_billing_world ''PAST_DUE'' None SubPAST_DUE"
  have "\<exists>rows s'. backfillGraceEndsAt mem_billing_env True 500 ?s = (Inr rows, s')"
    by (simp add: backfillGraceEndsAt_def backfill_find_def backfill_write_def Let_def mem_billing_simps)
  then obtain rows s' where run: "backfillGraceEndsAt mem_billing_env True 500 ?s = (Inr rows, s')" by blast
  from backfill_exact [OF mem_billing_spec run] run show ?thesis
    by (simp add: mem_billing_world_def mem_accs_def deadline_missing_def backfilled_def mem_account_def)
qed

text \<open>
  Subscribing again does not bring a cancelled account back. When a new subscription becomes
  active (or a trial starts) for a CANCELED account, the webhook records the subscription and leaves the account
  CANCELED, so that it can neither connect nor use the plan it pays for, although checkout accepts it
  and the cancellation mail offers it.
\<close>

theorem resubscription_stays_canceled:
  assumes "account_db_spec (be_db env) accs"
    and "constructEvent payload sig = Some (SubscriptionCreated sub)"
    and "mapStripeStatus (ss_status sub) \<in> {SubACTIVE, SubTRIALING}"
    and "accs (w_db s) accountId = Some a" "ac_status a = ''CANCELED''"
  shows "accs (w_db (snd (HandleStripeWebhook_execute env st fmt constructEvent now uuid payload sig s))) accountId
     = Some a"
proof -
  let ?R = "\<lambda>a b. ac_status a = ''CANCELED'' \<longrightarrow> b = a"
  have refl: "reflp ?R" by (simp add: reflp_def)
  have "moves_once accs ?R (sync_account env now i (mapStripeStatus (ss_status sub)))" for i
    using assms(3) unfolding sync_account_def
    by (auto simp: subscriptionStatusToAccountStatus_def markActiveFromPastDue_def
        intro!: moves_then_keeps moves_count assms(1) refl frame_intros)
  from moves_subscriptionUpsert_by [OF assms(1) refl this]
  have "rel_option ?R (accs (w_db s) accountId)
      (accs (w_db (snd (handleSubscriptionUpsert env st now uuid sub s))) accountId)"
    unfolding moves_once_def by blast
  then show ?thesis using assms(2,4,5)
    by (auto simp: HandleStripeWebhook_execute_def act_io_def act_bind_def act_return_def option_rel_Some1)
qed

theorem resubscription_stays_canceled_witness:
  "mem_accs (w_db (mem_webhook 500 ''active'' (mem_billing_world ''CANCELED'' None SubCANCELED))) ''a'' =
     Some (mem_account ''CANCELED'' None)"
  unfolding mem_webhook_def
  by (rule resubscription_stays_canceled [OF mem_billing_spec, where sub = "stripe_sub_event ''active''"])
    (simp_all add: mem_events_def stripe_sub_event_def mapStripeStatus_def mem_billing_world_def mem_accs_def
      mem_account_def)

text \<open>
  The worker suspends an account that has just paid. The worker reads the accounts to suspend and
  then updates each by its identifier alone; when the payment of one arrives in between and the
  webhook makes it ACTIVE, the worker suspends it all the same, and then no event restores it.
\<close>

theorem grace_race:
  "\<exists>s1 s2 s3 a2 a3.
     mem_accs (w_db (mem_billing_world ''PAST_DUE'' (Some 400) SubPAST_DUE)) ''a'' = Some (mem_account ''PAST_DUE'' (Some 400)) \<and>
     billing_step mem_billing_env mem_stripe (\<lambda>_ _. Some []) mem_events
       (mem_billing_world ''PAST_DUE'' (Some 400) SubPAST_DUE, []) (s1, [''a'']) \<and>
     billing_step mem_billing_env mem_stripe (\<lambda>_ _. Some []) mem_events (s1, [''a'']) (s2, [''a'']) \<and>
     mem_accs (w_db s2) ''a'' = Some a2 \<and> ac_status a2 = ''ACTIVE'' \<and>
     billing_step mem_billing_env mem_stripe (\<lambda>_ _. Some []) mem_events (s2, [''a'']) (s3, []) \<and>
     mem_accs (w_db s3) ''a'' = Some a3 \<and> ac_status a3 = ''SUSPENDED''"
proof -
  let ?s = "mem_billing_world ''PAST_DUE'' (Some 400) SubPAST_DUE"
  let ?s2 = "mem_webhook 500 ''paid'' ?s"
  have found: "grace_find mem_billing_env 500 ?s = (Inr [''a''], ?s)"
    by (simp add: grace_find_def mem_billing_simps)
  have start: "mem_accs (w_db ?s) ''a'' = Some (mem_account ''PAST_DUE'' (Some 400))"
    by (simp add: mem_billing_world_def mem_accs_def)
  have last: "mem_accs (w_db (grace_suspend mem_billing_env 500 ''a'' ?s2)) ''a'' =
      Some (suspended 500 ((mem_account ''ACTIVE'' None)\<lparr>ac_updatedAt := 500\<rparr>))"
    using grace_suspend_exact [OF mem_billing_spec mem_billing_total mem_payment_recovered] by simp
  have final: "ac_status (suspended 500 ((mem_account ''ACTIVE'' None)\<lparr>ac_updatedAt := 500\<rparr>)) = ''SUSPENDED''"
    by (simp add: suspended_def)
  have paid: "ac_status ((mem_account ''ACTIVE'' None)\<lparr>ac_updatedAt := 500\<rparr>) = ''ACTIVE''"
    by (simp add: mem_account_def)
  show ?thesis
    by (intro exI conjI, rule start, rule billing_step.tick [OF found], rule mem_step,
        rule mem_payment_recovered, rule paid, rule billing_step.suspend, rule last, rule final)
qed

end
