(* ===== verification/Tables.thy ===== *)
theory Tables
  imports KeyStore
begin

text \<open>
  The statements Prisma offers on one table, as the code of \<^verbatim>\<open>modules/identity\<close> uses them, over an
  abstract database \<open>'d\<close>. \<open>table_spec\<close> states what Prisma documents of each: which rows a query
  returns, and what a write does to the tables. The tables are the fields of a record \<open>'v\<close> of partial functions
  that \<open>view\<close> reads off the database; \<open>get\<close> and \<open>put\<close> are the selector and the update of one field, so that a
  write to one table leaves the others as they are. At the end, tables in memory that satisfy it.
\<close>

section \<open>Statements\<close>

record ('d, 'k, 'row) table =
  tb_find :: "('row \<Rightarrow> bool) \<Rightarrow> 'd \<Rightarrow> 'row option io"
  tb_findOldest :: "('row \<Rightarrow> bool) \<Rightarrow> ('row \<Rightarrow> int) \<Rightarrow> 'd \<Rightarrow> 'row option io"
  tb_findMany :: "('row \<Rightarrow> bool) \<Rightarrow> 'd \<Rightarrow> 'row list io"
  tb_count :: "('row \<Rightarrow> bool) \<Rightarrow> 'd \<Rightarrow> nat io"
  tb_upsert :: "'k \<Rightarrow> ('row \<Rightarrow> 'row) \<Rightarrow> 'row \<Rightarrow> 'd \<Rightarrow> 'd io"
  tb_update :: "'k \<Rightarrow> ('row \<Rightarrow> 'row) \<Rightarrow> 'd \<Rightarrow> 'd io"
  tb_updateMany :: "('row \<Rightarrow> bool) \<Rightarrow> ('row \<Rightarrow> 'row) \<Rightarrow> 'd \<Rightarrow> (nat \<times> 'd) io"
  tb_delete :: "'k \<Rightarrow> 'd \<Rightarrow> 'd io"
  tb_deleteMany :: "('row \<Rightarrow> bool) \<Rightarrow> 'd \<Rightarrow> 'd io"
  tb_createMany :: "'row list \<Rightarrow> 'd \<Rightarrow> 'd io"

section \<open>What a write does to a table\<close>

definition matching :: "('row \<Rightarrow> bool) \<Rightarrow> ('k \<Rightarrow> 'row option) \<Rightarrow> 'k set" where
  "matching P m = {k. \<exists>r. m k = Some r \<and> P r}"

definition put_row :: "'k \<Rightarrow> ('row \<Rightarrow> 'row) \<Rightarrow> 'row \<Rightarrow> ('k \<Rightarrow> 'row option) \<Rightarrow> 'k \<Rightarrow> 'row option" where
  "put_row k u c m = m(k \<mapsto> (case m k of Some r \<Rightarrow> u r | None \<Rightarrow> c))"

definition change_row :: "'k \<Rightarrow> ('row \<Rightarrow> 'row) \<Rightarrow> ('k \<Rightarrow> 'row option) \<Rightarrow> 'k \<Rightarrow> 'row option" where
  "change_row k u m = m(k := map_option u (m k))"

definition change_rows :: "('row \<Rightarrow> bool) \<Rightarrow> ('row \<Rightarrow> 'row) \<Rightarrow> ('k \<Rightarrow> 'row option) \<Rightarrow> 'k \<Rightarrow> 'row option" where
  "change_rows P u m = (\<lambda>k. map_option (\<lambda>r. if P r then u r else r) (m k))"

definition drop_rows :: "('row \<Rightarrow> bool) \<Rightarrow> ('k \<Rightarrow> 'row option) \<Rightarrow> 'k \<Rightarrow> 'row option" where
  "drop_rows P m = (\<lambda>k. case m k of Some r \<Rightarrow> if P r then None else Some r | None \<Rightarrow> None)"

text \<open>\<^verbatim>\<open>skipDuplicates\<close>: a row whose key is taken is left out.\<close>

definition add_rows :: "('row \<Rightarrow> 'k) \<Rightarrow> 'row list \<Rightarrow> ('k \<Rightarrow> 'row option) \<Rightarrow> 'k \<Rightarrow> 'row option" where
  "add_rows key rs m = fold (\<lambda>r m. if m (key r) = None then m(key r \<mapsto> r) else m) rs m"

section \<open>Specification\<close>

definition first_of :: "('row \<Rightarrow> 'k) \<Rightarrow> ('row \<Rightarrow> bool) \<Rightarrow> ('k \<Rightarrow> 'row option) \<Rightarrow> 'row option \<Rightarrow> bool" where
  "first_of key P m x \<longleftrightarrow>
     (case x of Some r \<Rightarrow> m (key r) = Some r \<and> P r | None \<Rightarrow> matching P m = {})"

definition reads_spec ::
  "('d, 'k, 'row) table \<Rightarrow> ('row \<Rightarrow> 'k) \<Rightarrow> ('v \<Rightarrow> 'k \<Rightarrow> 'row option) \<Rightarrow> ('d \<Rightarrow> 'v) \<Rightarrow> bool" where
  "reads_spec T key get view \<longleftrightarrow>
     (\<forall>d P x. tb_find T P d = Some x \<longrightarrow> first_of key P (get (view d)) x) \<and>
     (\<forall>d P f x. tb_findOldest T P f d = Some x \<longrightarrow> first_of key P (get (view d)) x \<and>
        (\<forall>r r'. x = Some r \<and> get (view d) (key r') = Some r' \<and> P r' \<longrightarrow> f r \<le> f r')) \<and>
     (\<forall>d P rs. tb_findMany T P d = Some rs \<longrightarrow> distinct (map key rs) \<and>
        set rs = {r. get (view d) (key r) = Some r \<and> P r}) \<and>
     (\<forall>d P n. tb_count T P d = Some n \<longrightarrow> n = card (matching P (get (view d))))"

definition upserts_spec ::
  "('d, 'k, 'row) table \<Rightarrow> ('row \<Rightarrow> 'k) \<Rightarrow> ((('k \<Rightarrow> 'row option) \<Rightarrow> 'k \<Rightarrow> 'row option) \<Rightarrow> 'v \<Rightarrow> 'v) \<Rightarrow>
   ('d \<Rightarrow> 'v) \<Rightarrow> bool" where
  "upserts_spec T key put view \<longleftrightarrow>
     (\<forall>d k u c d'. key c = k \<and> (\<forall>r. key (u r) = key r) \<and> tb_upsert T k u c d = Some d' \<longrightarrow>
        view d' = put (put_row k u c) (view d))"

definition updates_spec ::
  "('d, 'k, 'row) table \<Rightarrow> ('row \<Rightarrow> 'k) \<Rightarrow> ('v \<Rightarrow> 'k \<Rightarrow> 'row option) \<Rightarrow>
   ((('k \<Rightarrow> 'row option) \<Rightarrow> 'k \<Rightarrow> 'row option) \<Rightarrow> 'v \<Rightarrow> 'v) \<Rightarrow> ('d \<Rightarrow> 'v) \<Rightarrow> bool" where
  "updates_spec T key get put view \<longleftrightarrow>
     (\<forall>d k u d'. (\<forall>r. key (u r) = key r) \<and> tb_update T k u d = Some d' \<longrightarrow>
        get (view d) k \<noteq> None \<and> view d' = put (change_row k u) (view d)) \<and>
     (\<forall>d P u n d'. (\<forall>r. key (u r) = key r) \<and> tb_updateMany T P u d = Some (n, d') \<longrightarrow>
        n = card (matching P (get (view d))) \<and> view d' = put (change_rows P u) (view d))"

definition deletes_spec ::
  "('d, 'k, 'row) table \<Rightarrow> ('row \<Rightarrow> 'k) \<Rightarrow> ('v \<Rightarrow> 'k \<Rightarrow> 'row option) \<Rightarrow>
   ((('k \<Rightarrow> 'row option) \<Rightarrow> 'k \<Rightarrow> 'row option) \<Rightarrow> 'v \<Rightarrow> 'v) \<Rightarrow> ('d \<Rightarrow> 'v) \<Rightarrow> bool" where
  "deletes_spec T key get put view \<longleftrightarrow>
     (\<forall>d k d'. tb_delete T k d = Some d' \<longrightarrow>
        get (view d) k \<noteq> None \<and> view d' = put (\<lambda>m. m(k := None)) (view d)) \<and>
     (\<forall>d P d'. tb_deleteMany T P d = Some d' \<longrightarrow> view d' = put (drop_rows P) (view d)) \<and>
     (\<forall>d rs d'. tb_createMany T rs d = Some d' \<longrightarrow> view d' = put (add_rows key rs) (view d))"

definition table_spec ::
  "('d, 'k, 'row) table \<Rightarrow> ('row \<Rightarrow> 'k) \<Rightarrow> ('v \<Rightarrow> 'k \<Rightarrow> 'row option) \<Rightarrow>
   ((('k \<Rightarrow> 'row option) \<Rightarrow> 'k \<Rightarrow> 'row option) \<Rightarrow> 'v \<Rightarrow> 'v) \<Rightarrow> ('d \<Rightarrow> 'v) \<Rightarrow> bool" where
  "table_spec T key get put view \<longleftrightarrow>
     (\<forall>d. finite (dom (get (view d)))) \<and> (\<forall>d k r. get (view d) k = Some r \<longrightarrow> key r = k) \<and>
     reads_spec T key get view \<and> upserts_spec T key put view \<and> updates_spec T key get put view \<and>
     deletes_spec T key get put view"

lemma table_finite: "table_spec T key get put view \<Longrightarrow> finite (dom (get (view d)))"
  by (simp add: table_spec_def)

lemma table_key: "table_spec T key get put view \<Longrightarrow> get (view d) k = Some r \<Longrightarrow> key r = k"
  by (simp add: table_spec_def)

lemma table_find:
  "table_spec T key get put view \<Longrightarrow> tb_find T P d = Some x \<Longrightarrow> first_of key P (get (view d)) x"
  by (simp add: table_spec_def reads_spec_def)

lemma table_reads: "table_spec T key get put view \<Longrightarrow> reads_spec T key get view"
  by (simp add: table_spec_def)

lemma table_findOldest:
  assumes "table_spec T key get put view" "tb_findOldest T P f d = Some x"
  shows "first_of key P (get (view d)) x"
    and "x = Some r \<Longrightarrow> get (view d) (key r') = Some r' \<Longrightarrow> P r' \<Longrightarrow> f r \<le> f r'"
proof -
  note oldest = table_reads [OF assms(1), unfolded reads_spec_def, THEN conjunct2, THEN conjunct1,
    rule_format, OF assms(2)]
  show "first_of key P (get (view d)) x" using oldest by (rule conjunct1)
  show "x = Some r \<Longrightarrow> get (view d) (key r') = Some r' \<Longrightarrow> P r' \<Longrightarrow> f r \<le> f r'"
    using oldest [THEN conjunct2] by simp
qed

lemma table_findMany:
  assumes "table_spec T key get put view" "tb_findMany T P d = Some rs"
  shows "distinct (map key rs)" "r \<in> set rs \<longleftrightarrow> get (view d) (key r) = Some r \<and> P r"
proof -
  have "distinct (map key rs) \<and> set rs = {r. get (view d) (key r) = Some r \<and> P r}"
    by (rule table_reads [OF assms(1), unfolded reads_spec_def, THEN conjunct2, THEN conjunct2, THEN conjunct1,
          rule_format, OF assms(2)])
  then show "distinct (map key rs)" "r \<in> set rs \<longleftrightarrow> get (view d) (key r) = Some r \<and> P r" by auto
qed

lemma table_count:
  "table_spec T key get put view \<Longrightarrow> tb_count T P d = Some n \<Longrightarrow> n = card (matching P (get (view d)))"
  by (simp add: table_spec_def reads_spec_def)

lemma table_upsert:
  assumes "table_spec T key get put view" "key c = k" "\<And>r. key (u r) = key r" "tb_upsert T k u c d = Some d'"
  shows "view d' = put (put_row k u c) (view d)"
  using assms(1) [unfolded table_spec_def upserts_spec_def] assms(2-4) by blast

lemma table_update:
  assumes "table_spec T key get put view" "\<And>r. key (u r) = key r" "tb_update T k u d = Some d'"
  shows "get (view d) k \<noteq> None" "view d' = put (change_row k u) (view d)"
  using assms(1) [unfolded table_spec_def updates_spec_def] assms(2,3) by blast+

lemma table_updateMany:
  assumes "table_spec T key get put view" "\<And>r. key (u r) = key r" "tb_updateMany T P u d = Some (n, d')"
  shows "n = card (matching P (get (view d)))" "view d' = put (change_rows P u) (view d)"
  using assms(1) [unfolded table_spec_def updates_spec_def] assms(2,3) by blast+

lemma table_delete:
  assumes "table_spec T key get put view" "tb_delete T k d = Some d'"
  shows "get (view d) k \<noteq> None" "view d' = put (\<lambda>m. m(k := None)) (view d)"
  using assms(1) [unfolded table_spec_def deletes_spec_def] assms(2) by blast+

lemma table_deleteMany:
  assumes "table_spec T key get put view" "tb_deleteMany T P d = Some d'"
  shows "view d' = put (drop_rows P) (view d)"
  using assms(1) [unfolded table_spec_def deletes_spec_def] assms(2) by blast

lemma table_createMany:
  assumes "table_spec T key get put view" "tb_createMany T rs d = Some d'"
  shows "view d' = put (add_rows key rs) (view d)"
  using assms(1) [unfolded table_spec_def deletes_spec_def] assms(2) by blast

section \<open>Invariants of the database\<close>

text \<open>An action keeps what holds of the database, whether it returns or fails.\<close>

definition db_keeps :: "('d \<Rightarrow> bool) \<Rightarrow> ('d, 'r, 'a) action \<Rightarrow> bool" where
  "db_keeps I m \<longleftrightarrow> (\<forall>s. I (w_db s) \<longrightarrow> I (w_db (snd (m s))))"

named_theorems keeps_intros "actions that keep an invariant of the database"

lemma db_keepsD: "db_keeps I m \<Longrightarrow> m s = (r, s') \<Longrightarrow> I (w_db s) \<Longrightarrow> I (w_db s')"
  unfolding db_keeps_def by (metis snd_conv)

lemma db_keeps_bind_from:
  fixes m :: "('d, 'r, 'a) action"
  assumes "db_keeps I m" "\<And>x s s'. m s = (Inr x, s') \<Longrightarrow> I (w_db s) \<Longrightarrow> I (w_db s') \<Longrightarrow> I (w_db (snd (f x s')))"
  shows "db_keeps I (act_bind m f)"
  unfolding db_keeps_def
proof (intro allI impI)
  fix s :: "('d, 'r) world"
  assume I: "I (w_db s)"
  show "I (w_db (snd (act_bind m f s)))"
  proof (cases "m s")
    case (Pair x s')
    then have "I (w_db s')" using db_keepsD [OF assms(1) _ I] by blast
    then show ?thesis using Pair assms(2) [of s] I by (cases x) (simp_all add: act_bind_def)
  qed
qed

lemma db_keeps_bind [keeps_intros]: "db_keeps I m \<Longrightarrow> (\<And>x. db_keeps I (f x)) \<Longrightarrow> db_keeps I (act_bind m f)"
  by (rule db_keeps_bind_from) (simp_all add: db_keeps_def)

lemma keeps_same: "(\<And>s. w_db (snd (m s)) = w_db s) \<Longrightarrow> db_keeps I m"
  by (simp add: db_keeps_def)

lemma keeps_basic [keeps_intros]:
  "db_keeps I (act_return x)" "db_keeps I (act_throw e)" "db_keeps I (db_read f)" "db_keeps I (act_io y)"
  "db_keeps I (act_require b e)"
  by (rule keeps_same; simp add: act_return_def act_throw_def db_read_def act_io_def act_require_def split: option.split)+

lemma keeps_tx [keeps_intros]:
  fixes m :: "('d, 'r, 'a) action"
  shows "db_keeps I m \<Longrightarrow> db_keeps I (act_tx m)"
  unfolding db_keeps_def
proof (intro allI impI)
  fix s :: "('d, 'r) world"
  assume "\<forall>s. I (w_db (s :: ('d, 'r) world)) \<longrightarrow> I (w_db (snd (m s)))" "I (w_db s)"
  then show "I (w_db (snd (act_tx m s)))" by (cases "m s"; cases "fst (m s)") (simp_all add: act_tx_def, metis snd_conv)
qed

lemma db_keeps_if [keeps_intros]: "db_keeps I m \<Longrightarrow> db_keeps I n \<Longrightarrow> db_keeps I (if b then m else n)"
  by simp

lemma db_keeps_option [keeps_intros]:
  "db_keeps I n \<Longrightarrow> (\<And>y. db_keeps I (m y)) \<Longrightarrow> db_keeps I (case x of None \<Rightarrow> n | Some y \<Rightarrow> m y)"
  by (cases x) auto

lemma keeps_pair [keeps_intros]: "(\<And>a b. db_keeps I (m a b)) \<Longrightarrow> db_keeps I (case p of (a, b) \<Rightarrow> m a b)"
  by (cases p) auto

lemma keeps_let [keeps_intros]: "db_keeps I (m x) \<Longrightarrow> db_keeps I (let y = x in m y)"
  by (simp add: Let_def)

lemma keeps_for [keeps_intros]: "(\<And>x. db_keeps I (f x)) \<Longrightarrow> db_keeps I (act_for f xs)"
  by (induction xs) (auto intro: keeps_intros)

lemma keeps_write: "(\<And>d d'. f d = Some d' \<Longrightarrow> I d \<Longrightarrow> I d') \<Longrightarrow> db_keeps I (db_write f)"
  by (auto simp: db_keeps_def db_write_def split: option.split)

lemma keeps_count: "(\<And>d n d'. f d = Some (n, d') \<Longrightarrow> I d \<Longrightarrow> I d') \<Longrightarrow> db_keeps I (db_count f)"
  by (auto simp: db_keeps_def db_count_def split: option.split)

section \<open>Tables in memory\<close>

text \<open>
  A table as an association list; an entry under another key than its row's does not count. \<open>get\<close> and
  \<open>put\<close> are the selector and the update of one list in the database.
\<close>

definition rows_of :: "('row \<Rightarrow> 'k) \<Rightarrow> ('k \<times> 'row) list \<Rightarrow> 'k \<Rightarrow> 'row option" where
  "rows_of key l k = (case map_of l k of Some r \<Rightarrow> if key r = k then Some r else None | None \<Rightarrow> None)"

definition row_list :: "('row \<Rightarrow> 'k) \<Rightarrow> ('k \<times> 'row) list \<Rightarrow> 'row list" where
  "row_list key l = map (\<lambda>k. the (rows_of key l k)) (filter (\<lambda>k. rows_of key l k \<noteq> None) (remdups (map fst l)))"

definition memory_table ::
  "('row \<Rightarrow> 'k) \<Rightarrow> ('d \<Rightarrow> ('k \<times> 'row) list) \<Rightarrow> ((('k \<times> 'row) list \<Rightarrow> ('k \<times> 'row) list) \<Rightarrow> 'd \<Rightarrow> 'd) \<Rightarrow>
   ('d, 'k, 'row) table" where
  "memory_table key get put = \<lparr>
     tb_find = (\<lambda>P d. Some (List.find P (row_list key (get d)))),
     tb_findOldest = (\<lambda>P f d. Some (List.find P (sort_key f (row_list key (get d))))),
     tb_findMany = (\<lambda>P d. Some (filter P (row_list key (get d)))),
     tb_count = (\<lambda>P d. Some (length (filter P (row_list key (get d))))),
     tb_upsert = (\<lambda>k u c d. Some (put (\<lambda>l. (k, case rows_of key l k of Some r \<Rightarrow> u r | None \<Rightarrow> c) # l) d)),
     tb_update = (\<lambda>k u d. case rows_of key (get d) k of Some r \<Rightarrow> Some (put (\<lambda>l. (k, u r) # l) d) | None \<Rightarrow> None),
     tb_updateMany = (\<lambda>P u d. Some (length (filter P (row_list key (get d))),
        put (map (\<lambda>(k, r). (k, if P r then u r else r))) d)),
     tb_delete = (\<lambda>k d. if rows_of key (get d) k = None then None else Some (put (filter (\<lambda>(k', r). k' \<noteq> k)) d)),
     tb_deleteMany = (\<lambda>P d. Some (put (filter (\<lambda>(k, r). case rows_of key (get d) k of Some r' \<Rightarrow> \<not> P r' | None \<Rightarrow> False)) d)),
     tb_createMany = (\<lambda>rs d. Some (put (\<lambda>l. fold (\<lambda>r l. if rows_of key l (key r) = None then (key r, r) # l else l) rs l) d))\<rparr>"

lemma rows_of_key: "rows_of key l k = Some r \<Longrightarrow> key r = k"
  by (auto simp: rows_of_def split: option.splits if_splits)

lemma rows_of_Nil [simp]: "rows_of key [] k = None"
  by (simp add: rows_of_def)

lemma rows_of_Cons [simp]: "key r = k \<Longrightarrow> rows_of key ((k, r) # l) = (rows_of key l)(k \<mapsto> r)"
  by (auto simp: rows_of_def fun_eq_iff)

lemma row_list_iff: "r \<in> set (row_list key l) \<longleftrightarrow> rows_of key l (key r) = Some r"
proof
  assume "rows_of key l (key r) = Some r"
  moreover from this have "key r \<in> fst ` set l"
    by (simp add: rows_of_def split: option.splits) (metis domI dom_map_of_conv_image_fst)
  ultimately show "r \<in> set (row_list key l)" unfolding row_list_def by force
next
  assume "r \<in> set (row_list key l)"
  then obtain k where "rows_of key l k = Some r" by (auto simp: row_list_def)
  then show "rows_of key l (key r) = Some r" using rows_of_key by metis
qed

lemma row_list_distinct: "distinct (map key (row_list key l))"
proof -
  have "map key (row_list key l) = filter (\<lambda>k. rows_of key l k \<noteq> None) (remdups (map fst l))"
    unfolding row_list_def map_map by (rule map_idI) (auto dest: rows_of_key)
  then show ?thesis by simp
qed

lemma matching_rows: "matching P (rows_of key l) = key ` set (filter P (row_list key l))"
proof
  show "matching P (rows_of key l) \<subseteq> key ` set (filter P (row_list key l))"
  proof
    fix k assume "k \<in> matching P (rows_of key l)"
    then obtain r where "rows_of key l k = Some r" "P r" by (auto simp: matching_def)
    moreover from this have "key r = k" using rows_of_key by metis
    ultimately show "k \<in> key ` set (filter P (row_list key l))" by (auto simp: row_list_iff image_iff)
  qed
  show "key ` set (filter P (row_list key l)) \<subseteq> matching P (rows_of key l)"
    by (auto simp: matching_def row_list_iff)
qed

lemma card_matching: "card (matching P (rows_of key l)) = length (filter P (row_list key l))"
proof -
  have "distinct (map key (filter P (row_list key l)))"
    using row_list_distinct by (rule distinct_map_filter)
  then show ?thesis unfolding matching_rows
    by (metis distinct_card length_map list.set_map)
qed

lemma first_of_find:
  assumes "set rs = set (row_list key l)"
  shows "first_of key P (rows_of key l) (List.find P rs)"
proof (cases "List.find P rs")
  case None
  then have "\<forall>r \<in> set (row_list key l). \<not> P r" using assms by (simp add: find_None_iff)
  then show ?thesis using None by (simp add: first_of_def matching_rows filter_empty_conv)
next
  case (Some r)
  then have "r \<in> set rs" "P r" by (auto simp: find_Some_iff)
  then show ?thesis using assms Some by (simp add: first_of_def row_list_iff)
qed

lemma find_sorted:
  assumes "sorted (map f rs)" "List.find P rs = Some r" "r' \<in> set rs" "P r'"
  shows "f r \<le> (f r' :: int)"
  using assms by (induction rs) (auto split: if_splits)

lemma rows_of_finite: "finite (dom (rows_of key l))"
proof (rule finite_subset)
  show "dom (rows_of key l) \<subseteq> fst ` set l"
    by (auto simp: rows_of_def split: option.splits if_splits dest: map_of_SomeD) (force dest: map_of_SomeD)
qed simp

lemma rows_of_map:
  assumes "\<And>r. key (u r) = key r"
  shows "rows_of key (map (\<lambda>(k, r). (k, if P r then u r else r)) l) = change_rows P u (rows_of key l)"
proof
  fix k
  have "map_of (map (\<lambda>(k, r). (k, if P r then u r else r)) l) k = map_option (\<lambda>r. if P r then u r else r) (map_of l k)"
    by (induction l) auto
  then show "rows_of key (map (\<lambda>(k, r). (k, if P r then u r else r)) l) k = change_rows P u (rows_of key l) k"
    using assms by (auto simp: rows_of_def change_rows_def split: option.split)
qed

lemma rows_of_put:
  assumes "key c = k" "\<forall>r. key (u r) = key r"
  shows "rows_of key ((k, case rows_of key l k of Some r \<Rightarrow> u r | None \<Rightarrow> c) # l) = put_row k u c (rows_of key l)"
proof (cases "rows_of key l k")
  case (Some r)
  then show ?thesis using assms rows_of_key [OF Some] by (simp add: put_row_def)
qed (use assms in \<open>simp add: put_row_def\<close>)

lemma map_of_filter_key: "map_of (filter (\<lambda>(k, r). Q k) l) k = (if Q k then map_of l k else None)"
  by (induction l) auto

lemma rows_of_filter: "rows_of key (filter (\<lambda>(k, r). Q k) l) k = (if Q k then rows_of key l k else None)"
  by (simp add: rows_of_def map_of_filter_key)

lemma rows_of_add:
  "rows_of key (fold (\<lambda>r l. if rows_of key l (key r) = None then (key r, r) # l else l) rs l) =
     add_rows key rs (rows_of key l)"
  by (induction rs arbitrary: l) (simp_all add: add_rows_def)

lemma memory_table_spec:
  assumes view: "\<And>d. vget (view d) = rows_of key (get d)"
    and write_at: "\<And>F f d. rows_of key (f (get d)) = F (rows_of key (get d)) \<Longrightarrow> view (put f d) = vput F (view d)"
  shows "table_spec (memory_table key get put) key vget vput view"
proof -
  let ?T = "memory_table key get put"
  have reads: "reads_spec ?T key vget view"
    unfolding reads_spec_def memory_table_def view
    by (auto simp: row_list_iff card_matching distinct_map_filter row_list_distinct intro!: first_of_find)
      (metis (no_types, lifting) find_sorted row_list_iff set_sort sorted_sort_key)
  have upserts: "upserts_spec ?T key vput view"
    unfolding upserts_spec_def memory_table_def
    by (auto intro!: write_at rows_of_put)
  have updates: "updates_spec ?T key vget vput view"
    unfolding updates_spec_def memory_table_def view
    by (auto intro!: write_at rows_of_map rows_of_Cons simp: change_row_def card_matching split: option.splits)
      (metis rows_of_key)+
  have deletes: "deletes_spec ?T key vget vput view"
    unfolding deletes_spec_def memory_table_def view
    by (auto intro!: write_at rows_of_add simp: rows_of_filter drop_rows_def fun_eq_iff split: option.splits if_splits)
  show ?thesis
    using reads upserts updates deletes rows_of_key
    by (auto simp: table_spec_def view rows_of_finite dest: rows_of_key)
qed

end
