(* ===== verification/UserEntity.thy ===== *)
theory UserEntity
  imports Tables
begin

text \<open>
  \<^verbatim>\<open>apps/api/src/modules/identity\<close>: users, login sessions and one-time tokens, with their
  repositories over the tables of the database. \<^verbatim>\<open>crypto.randomUUID()\<close> and \<^verbatim>\<open>new Date()\<close> inside a factory
  are arguments; an \<open>ensure\<close> that throws returns the error. \<^verbatim>\<open>toPersistence\<close> and \<^verbatim>\<open>rehydrate\<close> are the
  record itself.
\<close>

section \<open>Text\<close>

definition trim :: "string \<Rightarrow> string" where
  "trim s = rev (dropWhile is_space (rev (dropWhile is_space s)))"

definition normal_email :: "string \<Rightarrow> string" where
  "normal_email email = trim (toLowerCase email)"

section \<open>User\<close>

record UserProps =
  us_id :: string
  us_email :: string
  us_passwordHash :: string
  us_firstName :: string
  us_lastName :: string
  us_isEmailVerified :: bool
  us_failedLoginAttempts :: nat
  us_lockedUntil :: "time option"
  us_status :: bool
  us_createdAt :: time
  us_updatedAt :: time
  us_deletedAt :: "time option"
  us_tokenVersion :: nat

definition User_register ::
  "string \<Rightarrow> time \<Rightarrow> string \<Rightarrow> string \<Rightarrow> string option \<Rightarrow> string option \<Rightarrow> UserProps" where
  "User_register uuid now email passwordHash firstName lastName = \<lparr>
     us_id = uuid, us_email = normal_email email, us_passwordHash = passwordHash,
     us_firstName = (case firstName of Some n \<Rightarrow> trim n | None \<Rightarrow> []),
     us_lastName = (case lastName of Some n \<Rightarrow> trim n | None \<Rightarrow> []),
     us_isEmailVerified = False, us_failedLoginAttempts = 0, us_lockedUntil = None, us_status = True,
     us_createdAt = now, us_updatedAt = now, us_deletedAt = None, us_tokenVersion = 0\<rparr>"

definition User_fullName :: "UserProps \<Rightarrow> string" where
  "User_fullName u = trim (us_firstName u @ '' '' @ us_lastName u)"

definition minutes_left :: "time \<Rightarrow> time \<Rightarrow> int" where
  "minutes_left lockedUntil now = (lockedUntil - now + 59999) div 60000"

definition User_ensureCanLogin :: "time \<Rightarrow> UserProps \<Rightarrow> app_error option" where
  "User_ensureCanLogin now u =
     (if us_deletedAt u \<noteq> None then Some (UnauthorizedError ''Account has been deleted'')
      else if \<not> us_status u then Some (UnauthorizedError ''Account is disabled'')
      else (case us_lockedUntil u of
              Some l \<Rightarrow>
                if l > now then Some (UnauthorizedError (''Account is temporarily locked. Try again in '' @
                  show_int (minutes_left l now) @ '' minute(s).''))
                else None
            | None \<Rightarrow> None))"

definition User_verifyEmail :: "time \<Rightarrow> UserProps \<Rightarrow> UserProps" where
  "User_verifyEmail now u = u\<lparr>us_isEmailVerified := True, us_updatedAt := now\<rparr>"

definition LOCK_MS :: time where "LOCK_MS = 15 * 60 * 1000"

definition User_recordFailedLoginAttempt :: "time \<Rightarrow> UserProps \<Rightarrow> UserProps" where
  "User_recordFailedLoginAttempt now u =
     (let n = us_failedLoginAttempts u + 1 in
      u\<lparr>us_failedLoginAttempts := n,
        us_lockedUntil := (if n \<ge> 5 then Some (now + LOCK_MS) else us_lockedUntil u), us_updatedAt := now\<rparr>)"

definition User_resetLoginAttempts :: "time \<Rightarrow> UserProps \<Rightarrow> UserProps" where
  "User_resetLoginAttempts now u = u\<lparr>us_failedLoginAttempts := 0, us_lockedUntil := None, us_updatedAt := now\<rparr>"

definition User_updateProfile :: "time \<Rightarrow> string option \<Rightarrow> string option \<Rightarrow> UserProps \<Rightarrow> UserProps" where
  "User_updateProfile now firstName lastName u =
     u\<lparr>us_firstName := (case firstName of Some n \<Rightarrow> if trim n \<noteq> [] then trim n else us_firstName u | None \<Rightarrow> us_firstName u),
       us_lastName := (case lastName of Some n \<Rightarrow> if trim n \<noteq> [] then trim n else us_lastName u | None \<Rightarrow> us_lastName u),
       us_updatedAt := now\<rparr>"

definition User_resetPassword :: "string \<Rightarrow> time \<Rightarrow> UserProps \<Rightarrow> UserProps" where
  "User_resetPassword newHash now u =
     u\<lparr>us_passwordHash := newHash, us_failedLoginAttempts := 0, us_lockedUntil := None,
       us_tokenVersion := us_tokenVersion u + 1, us_updatedAt := now\<rparr>"

definition User_incrementTokenVersion :: "time \<Rightarrow> UserProps \<Rightarrow> UserProps" where
  "User_incrementTokenVersion now u = u\<lparr>us_tokenVersion := us_tokenVersion u + 1, us_updatedAt := now\<rparr>"

definition User_disable :: "time \<Rightarrow> UserProps \<Rightarrow> UserProps" where
  "User_disable now u = u\<lparr>us_status := False, us_updatedAt := now\<rparr>"

definition User_enable :: "time \<Rightarrow> UserProps \<Rightarrow> UserProps" where
  "User_enable now u = u\<lparr>us_status := True, us_updatedAt := now\<rparr>"

definition User_softDelete :: "time \<Rightarrow> UserProps \<Rightarrow> UserProps" where
  "User_softDelete now u = u\<lparr>us_deletedAt := Some now, us_status := False, us_updatedAt := now\<rparr>"

section \<open>Session\<close>

record SessionProps =
  se_id :: string
  se_userId :: string
  se_tokenHash :: string
  se_expiresAt :: time
  se_revokedAt :: "time option"
  se_createdAt :: time
  se_ipAddress :: string
  se_userAgent :: string
  se_replacedById :: "string option"
  se_replacementTokenCipher :: "string option"

definition ttl_valid :: "time \<Rightarrow> bool" where
  "ttl_valid ttl \<longleftrightarrow> \<not> (ttl < 60000 \<or> ttl > 365 * 24 * 60 * 60 * 1000)"

definition Session_create ::
  "string \<Rightarrow> time \<Rightarrow> string \<Rightarrow> string \<Rightarrow> time \<Rightarrow> string \<Rightarrow> string \<Rightarrow> app_error + SessionProps" where
  "Session_create uuid now userId tokenHash ttl ipAddress userAgent =
     (if \<not> ttl_valid ttl then
        Inl (PlainError (''Invalid ttlMs: '' @ show_int ttl @
          ''. Must be between 1 minute and 1 year in milliseconds.''))
      else Inr \<lparr>se_id = uuid, se_userId = userId, se_tokenHash = tokenHash, se_expiresAt = now + ttl,
        se_revokedAt = None, se_createdAt = now, se_ipAddress = ipAddress, se_userAgent = userAgent,
        se_replacedById = None, se_replacementTokenCipher = None\<rparr>)"

definition Session_isExpired :: "time \<Rightarrow> SessionProps \<Rightarrow> bool" where
  "Session_isExpired now s \<longleftrightarrow> se_expiresAt s \<le> now"

definition Session_isRevoked :: "SessionProps \<Rightarrow> bool" where
  "Session_isRevoked s \<longleftrightarrow> se_revokedAt s \<noteq> None"

definition Session_isValid :: "time \<Rightarrow> SessionProps \<Rightarrow> bool" where
  "Session_isValid now s \<longleftrightarrow> \<not> Session_isRevoked s \<and> \<not> Session_isExpired now s"

definition Session_ensureActive :: "time \<Rightarrow> SessionProps \<Rightarrow> app_error option" where
  "Session_ensureActive now s =
     (if Session_isRevoked s then Some (UnauthorizedError ''Session has been revoked'')
      else if Session_isExpired now s then Some (UnauthorizedError ''Session has expired'') else None)"

text \<open>An absent and an empty identifier or cipher text are both falsy.\<close>

definition truthy :: "string option \<Rightarrow> bool" where
  "truthy x \<longleftrightarrow> (case x of Some s \<Rightarrow> s \<noteq> [] | None \<Rightarrow> False)"

definition Session_wasRotatedWithin :: "time \<Rightarrow> time \<Rightarrow> SessionProps \<Rightarrow> bool" where
  "Session_wasRotatedWithin now graceMs s \<longleftrightarrow>
     (case se_revokedAt s of
        None \<Rightarrow> False
      | Some r \<Rightarrow> truthy (se_replacedById s) \<and> truthy (se_replacementTokenCipher s) \<and> now - r \<le> graceMs)"

definition Session_revoke :: "time \<Rightarrow> SessionProps \<Rightarrow> SessionProps" where
  "Session_revoke now s = (if se_revokedAt s = None then s\<lparr>se_revokedAt := Some now\<rparr> else s)"

text \<open>\<^verbatim>\<open>rotate\<close>: the old session and its successor.\<close>

definition Session_rotate ::
  "string \<Rightarrow> time \<Rightarrow> string \<Rightarrow> time \<Rightarrow> time \<Rightarrow> string \<Rightarrow> SessionProps \<Rightarrow>
   app_error + (SessionProps \<times> SessionProps)" where
  "Session_rotate uuid created newTokenHash ttl now cipher s =
     (case Session_create uuid created (se_userId s) newTokenHash ttl (se_ipAddress s) (se_userAgent s) of
        Inl e \<Rightarrow> Inl e
      | Inr successor \<Rightarrow>
          Inr ((Session_revoke now s)\<lparr>se_replacedById := Some (se_id successor),
                 se_replacementTokenCipher := Some cipher\<rparr>, successor))"

section \<open>One-time tokens\<close>

record TokenProps =
  tk_id :: string
  tk_userId :: string
  tk_tokenHash :: string
  tk_expiresAt :: time
  tk_usedAt :: "time option"

definition Token_create :: "string \<Rightarrow> time \<Rightarrow> string \<Rightarrow> string \<Rightarrow> time \<Rightarrow> TokenProps" where
  "Token_create uuid now userId tokenHash ttl =
     \<lparr>tk_id = uuid, tk_userId = userId, tk_tokenHash = tokenHash, tk_expiresAt = now + ttl, tk_usedAt = None\<rparr>"

definition PasswordResetToken_ensureValid :: "time \<Rightarrow> TokenProps \<Rightarrow> app_error option" where
  "PasswordResetToken_ensureValid now t =
     (if tk_usedAt t \<noteq> None then Some (PlainError ''Password reset token has already been used'')
      else if tk_expiresAt t \<le> now then Some (PlainError ''Password reset token has expired'') else None)"

definition EmailVerificationToken_ensureValid :: "time \<Rightarrow> TokenProps \<Rightarrow> app_error option" where
  "EmailVerificationToken_ensureValid now t =
     (if tk_usedAt t \<noteq> None then Some (PlainError ''Token has already been used'')
      else if tk_expiresAt t \<le> now then Some (PlainError ''Token has expired'') else None)"

definition Token_markUsed :: "time \<Rightarrow> TokenProps \<Rightarrow> TokenProps" where
  "Token_markUsed now t = t\<lparr>tk_usedAt := Some now\<rparr>"

section \<open>Repositories\<close>

text \<open>An entry of the audit log; its metadata and the client's address are left out.\<close>

record AuditLogEntry =
  al_accountId :: "string option"
  al_userId :: string
  al_targetUserId :: "string option"
  al_action :: string
  al_resourceType :: string
  al_resourceId :: string

record 'd auth_db =
  ad_users :: "('d, string, UserProps) table"
  ad_sessions :: "('d, string, SessionProps) table"
  ad_resets :: "('d, string, TokenProps) table"
  ad_emails :: "('d, string, TokenProps) table"
  ad_audit :: "AuditLogEntry \<Rightarrow> 'd \<Rightarrow> 'd io"

text \<open>What the tables hold.\<close>

record auth_view =
  av_users :: "string \<Rightarrow> UserProps option"
  av_sessions :: "string \<Rightarrow> SessionProps option"
  av_resets :: "string \<Rightarrow> TokenProps option"
  av_emails :: "string \<Rightarrow> TokenProps option"

definition auth_db_spec :: "'d auth_db \<Rightarrow> ('d \<Rightarrow> 'a auth_view_scheme) \<Rightarrow> bool" where
  "auth_db_spec db view \<longleftrightarrow>
     table_spec (ad_users db) us_id av_users av_users_update view \<and>
     table_spec (ad_sessions db) se_id av_sessions av_sessions_update view \<and>
     table_spec (ad_resets db) tk_id av_resets av_resets_update view \<and>
     table_spec (ad_emails db) tk_id av_emails av_emails_update view \<and>
     (\<forall>e d d'. ad_audit db e d = Some d' \<longrightarrow> view d' = view d)"

definition audit_create :: "'d auth_db \<Rightarrow> AuditLogEntry \<Rightarrow> ('d, 'r, unit) action" where
  "audit_create db e = db_write (ad_audit db e)"

definition user_audit :: "string \<Rightarrow> string \<Rightarrow> AuditLogEntry" where
  "user_audit userId act = \<lparr>al_accountId = None, al_userId = userId, al_targetUserId = None,
     al_action = act, al_resourceType = ''User'', al_resourceId = userId\<rparr>"

definition user_save :: "'d auth_db \<Rightarrow> UserProps \<Rightarrow> ('d, 'r, unit) action" where
  "user_save db u = db_write (tb_upsert (ad_users db) (us_id u)
     (\<lambda>row. row\<lparr>us_email := us_email u, us_passwordHash := us_passwordHash u, us_firstName := us_firstName u,
        us_lastName := us_lastName u, us_isEmailVerified := us_isEmailVerified u,
        us_failedLoginAttempts := us_failedLoginAttempts u, us_lockedUntil := us_lockedUntil u,
        us_status := us_status u, us_deletedAt := us_deletedAt u, us_tokenVersion := us_tokenVersion u,
        us_updatedAt := us_updatedAt u\<rparr>) u)"

definition user_findByEmail :: "'d auth_db \<Rightarrow> string \<Rightarrow> ('d, 'r, UserProps option) action" where
  "user_findByEmail db email = db_read (tb_find (ad_users db) (\<lambda>u. us_email u = normal_email email))"

definition user_findById :: "'d auth_db \<Rightarrow> string \<Rightarrow> ('d, 'r, UserProps option) action" where
  "user_findById db i = db_read (tb_find (ad_users db) (\<lambda>u. us_id u = i))"

definition session_save :: "'d auth_db \<Rightarrow> SessionProps \<Rightarrow> ('d, 'r, unit) action" where
  "session_save db p = db_write (tb_upsert (ad_sessions db) (se_id p)
     (\<lambda>row. row\<lparr>se_tokenHash := se_tokenHash p, se_expiresAt := se_expiresAt p, se_revokedAt := se_revokedAt p,
        se_replacedById := se_replacedById p, se_replacementTokenCipher := se_replacementTokenCipher p\<rparr>)
     (p\<lparr>se_replacedById := None, se_replacementTokenCipher := None\<rparr>))"

definition session_findByTokenHash :: "'d auth_db \<Rightarrow> string \<Rightarrow> ('d, 'r, SessionProps option) action" where
  "session_findByTokenHash db h = db_read (tb_find (ad_sessions db) (\<lambda>s. se_tokenHash s = h))"

definition session_findById :: "'d auth_db \<Rightarrow> string \<Rightarrow> ('d, 'r, SessionProps option) action" where
  "session_findById db i = db_read (tb_find (ad_sessions db) (\<lambda>s. se_id s = i))"

definition session_purgeRotationCiphers :: "'d auth_db \<Rightarrow> string \<Rightarrow> time \<Rightarrow> ('d, 'r, nat) action" where
  "session_purgeRotationCiphers db userId olderThan =
     db_count (tb_updateMany (ad_sessions db)
       (\<lambda>s. se_userId s = userId \<and> se_replacementTokenCipher s \<noteq> None \<and>
          (case se_revokedAt s of Some r \<Rightarrow> r < olderThan | None \<Rightarrow> False))
       (\<lambda>s. s\<lparr>se_replacementTokenCipher := None\<rparr>))"

definition session_revokeAllByUserId :: "'d auth_db \<Rightarrow> string \<Rightarrow> time \<Rightarrow> ('d, 'r, unit) action" where
  "session_revokeAllByUserId db userId now =
     act_bind (db_count (tb_updateMany (ad_sessions db) (\<lambda>s. se_userId s = userId \<and> se_revokedAt s = None)
        (\<lambda>s. s\<lparr>se_revokedAt := Some now\<rparr>))) (\<lambda>_.
     act_bind (db_count (tb_updateMany (ad_sessions db)
        (\<lambda>s. se_userId s = userId \<and> se_replacementTokenCipher s \<noteq> None)
        (\<lambda>s. s\<lparr>se_replacementTokenCipher := None\<rparr>))) (\<lambda>_. act_return ()))"

definition session_active :: "string \<Rightarrow> time \<Rightarrow> SessionProps \<Rightarrow> bool" where
  "session_active userId now s \<longleftrightarrow> se_userId s = userId \<and> se_revokedAt s = None \<and> se_expiresAt s > now"

definition session_countActiveByUserId :: "'d auth_db \<Rightarrow> string \<Rightarrow> time \<Rightarrow> ('d, 'r, nat) action" where
  "session_countActiveByUserId db userId now = db_read (tb_count (ad_sessions db) (session_active userId now))"

definition session_revokeOldestActiveSession :: "'d auth_db \<Rightarrow> string \<Rightarrow> time \<Rightarrow> ('d, 'r, unit) action" where
  "session_revokeOldestActiveSession db userId now =
     act_bind (db_read (tb_findOldest (ad_sessions db) (session_active userId now) se_createdAt)) (\<lambda>oldest.
     case oldest of
       Some s \<Rightarrow> db_write (tb_update (ad_sessions db) (se_id s) (\<lambda>s. s\<lparr>se_revokedAt := Some now\<rparr>))
     | None \<Rightarrow> act_return ())"

definition reset_save :: "'d auth_db \<Rightarrow> TokenProps \<Rightarrow> ('d, 'r, unit) action" where
  "reset_save db t = db_write (tb_upsert (ad_resets db) (tk_id t) (\<lambda>row. row\<lparr>tk_usedAt := tk_usedAt t\<rparr>) t)"

definition reset_findByHash :: "'d auth_db \<Rightarrow> string \<Rightarrow> ('d, 'r, TokenProps option) action" where
  "reset_findByHash db h = db_read (tb_find (ad_resets db) (\<lambda>t. tk_tokenHash t = h))"

definition reset_deleteAllByUserId :: "'d auth_db \<Rightarrow> string \<Rightarrow> ('d, 'r, unit) action" where
  "reset_deleteAllByUserId db userId = db_write (tb_deleteMany (ad_resets db) (\<lambda>t. tk_userId t = userId))"

definition email_save :: "'d auth_db \<Rightarrow> TokenProps \<Rightarrow> ('d, 'r, unit) action" where
  "email_save db t = db_write (tb_upsert (ad_emails db) (tk_id t)
     (\<lambda>row. row\<lparr>tk_tokenHash := tk_tokenHash t, tk_expiresAt := tk_expiresAt t, tk_usedAt := tk_usedAt t\<rparr>) t)"

definition email_findByHash :: "'d auth_db \<Rightarrow> string \<Rightarrow> ('d, 'r, TokenProps option) action" where
  "email_findByHash db h = db_read (tb_find (ad_emails db) (\<lambda>t. tk_tokenHash t = h))"

definition email_deleteAllByUserId :: "'d auth_db \<Rightarrow> string \<Rightarrow> ('d, 'r, unit) action" where
  "email_deleteAllByUserId db userId = db_write (tb_deleteMany (ad_emails db) (\<lambda>t. tk_userId t = userId))"

end
