(* ===== verification/AuthUseCases.thy ===== *)
theory AuthUseCases
  imports UserEntity
begin

text \<open>
  The use cases of \<^verbatim>\<open>modules/identity/application/use-cases/user\<close>, the cache of auth states and the
  guard of the user routes. A use case that reads before its transaction is cut there (\<open>login_begin\<close>,
  \<open>change_begin\<close>), so that others can run in between. Hashing, JWTs, the cipher of successor tokens
  and random values are parameters. Callbacks queued with \<^verbatim>\<open>afterCommit\<close> are part of the value a
  use case returns: they are dropped when the transaction is rolled back.
\<close>

section \<open>Environment\<close>

record JwtPayload =
  jp_sub :: "string option"
  jp_email :: "string option"
  jp_tokenVersion :: "nat option"
  jp_type :: "string option"

record UserAuthState =
  ua_tokenVersion :: nat
  ua_active :: bool

record 'r auth_redis =
  ar_get :: "string \<Rightarrow> 'r \<Rightarrow> UserAuthState option io"
  ar_set :: "string \<Rightarrow> UserAuthState \<Rightarrow> int \<Rightarrow> 'r \<Rightarrow> 'r io"
  ar_del :: "string \<Rightarrow> 'r \<Rightarrow> 'r io"

record ('d, 'r) auth_env =
  ae_db :: "'d auth_db"
  ae_redis :: "'r auth_redis option"
  ae_tokenHash :: "string \<Rightarrow> string"
  ae_hashPassword :: "string \<Rightarrow> string io"
  ae_comparePassword :: "string \<Rightarrow> string \<Rightarrow> bool io"
  ae_encrypt :: "string \<Rightarrow> string io"
  ae_decrypt :: "string \<Rightarrow> string option"
  ae_sign :: "JwtPayload \<Rightarrow> int \<Rightarrow> string io"
  ae_verify :: "string \<Rightarrow> JwtPayload option"
  ae_refreshTTL :: time

datatype AuthMail =
  VerificationMail string string string
| PasswordResetMail string string string
| PasswordResetSuccessMail string string

definition ACCESS_TOKEN_SEC :: int where "ACCESS_TOKEN_SEC = 15 * 60"
definition REFRESH_ROTATION_GRACE_MS :: time where "REFRESH_ROTATION_GRACE_MS = 30 * 1000"
definition MAX_SESSIONS :: nat where "MAX_SESSIONS = 5"
definition AUTH_STATE_TTL_SEC :: int where "AUTH_STATE_TTL_SEC = 30"

definition ensure :: "app_error option \<Rightarrow> ('d, 'r, unit) action" where
  "ensure e = (case e of Some err \<Rightarrow> act_throw err | None \<Rightarrow> act_return ())"

definition found_or :: "app_error \<Rightarrow> 'a option \<Rightarrow> ('d, 'r, 'a) action" where
  "found_or e x = (case x of Some y \<Rightarrow> act_return y | None \<Rightarrow> act_throw e)"

section \<open>Cache of auth states\<close>

definition auth_key :: "string \<Rightarrow> string" where "auth_key userId = ''auth:user:'' @ userId"

definition loadUser :: "('d, 'r) auth_env \<Rightarrow> string \<Rightarrow> ('d, 'r, UserAuthState option) action" where
  "loadUser env userId =
     act_bind (user_findById (ae_db env) userId) (\<lambda>u.
     act_return (map_option (\<lambda>u. \<lparr>ua_tokenVersion = us_tokenVersion u,
        ua_active = (us_status u \<and> us_deletedAt u = None)\<rparr>) u))"

text \<open>A Redis error is logged; the state is then loaded, or not cached.\<close>

definition cached_state :: "('d, 'r) auth_env \<Rightarrow> string \<Rightarrow> 'r \<Rightarrow> UserAuthState option" where
  "cached_state env userId r =
     (case ae_redis env of
        Some rd \<Rightarrow> (case ar_get rd (auth_key userId) r of Some hit \<Rightarrow> hit | None \<Rightarrow> None)
      | None \<Rightarrow> None)"

definition store_state :: "('d, 'r) auth_env \<Rightarrow> string \<Rightarrow> UserAuthState option \<Rightarrow> ('d, 'r, unit) action" where
  "store_state env userId state s =
     (case (ae_redis env, state) of
        (Some rd, Some st) \<Rightarrow>
          (case ar_set rd (auth_key userId) st AUTH_STATE_TTL_SEC (w_redis s) of
             Some r \<Rightarrow> (Inr (), s\<lparr>w_redis := r\<rparr>) | None \<Rightarrow> (Inr (), s))
      | _ \<Rightarrow> (Inr (), s))"

definition getUser :: "('d, 'r) auth_env \<Rightarrow> string \<Rightarrow> ('d, 'r, UserAuthState option) action" where
  "getUser env userId s =
     (case cached_state env userId (w_redis s) of
        Some st \<Rightarrow> (Inr (Some st), s)
      | None \<Rightarrow>
          act_bind (loadUser env userId) (\<lambda>state.
          act_bind (store_state env userId state) (\<lambda>_. act_return state)) s)"

definition invalidateUser :: "('d, 'r) auth_env \<Rightarrow> string \<Rightarrow> ('d, 'r, unit) action" where
  "invalidateUser env userId s =
     (case ae_redis env of
        Some rd \<Rightarrow> (case ar_del rd (auth_key userId) (w_redis s) of
             Some r \<Rightarrow> (Inr (), s\<lparr>w_redis := r\<rparr>) | None \<Rightarrow> (Inr (), s))
      | None \<Rightarrow> (Inr (), s))"

section \<open>Guard\<close>

record RequestUser =
  ru_userId :: string
  ru_email :: string
  ru_tokenVersion :: "nat option"

definition bearer_token :: "string option \<Rightarrow> app_error + string" where
  "bearer_token authHeader =
     (case authHeader of
        None \<Rightarrow> Inl (UnauthorizedError ''Missing authorization header'')
      | Some h \<Rightarrow>
          if h = [] then Inl (UnauthorizedError ''Missing authorization header'')
          else (case str_split (CHR '' '') h of
             [scheme, token] \<Rightarrow>
               if toLowerCase scheme \<noteq> ''bearer'' then
                 Inl (UnauthorizedError ''Invalid authorization format. Use: Bearer <token>'')
               else if trim token = [] then Inl (UnauthorizedError ''Missing token in authorization header'')
               else Inr token
           | _ \<Rightarrow> Inl (UnauthorizedError ''Invalid authorization format. Use: Bearer <token>'')))"

definition userAuthGuard :: "('d, 'r) auth_env \<Rightarrow> string option \<Rightarrow> ('d, 'r, RequestUser) action" where
  "userAuthGuard env authHeader =
     (case bearer_token authHeader of
        Inl e \<Rightarrow> act_throw e
      | Inr token \<Rightarrow>
          act_bind (found_or (UnauthorizedError ''Invalid or expired access token'') (ae_verify env token)) (\<lambda>payload.
          act_bind (act_require (truthy (jp_sub payload) \<and> truthy (jp_email payload))
             (UnauthorizedError ''Malformed token payload'')) (\<lambda>_.
          act_bind (act_require (jp_type payload = Some ''user'') (UnauthorizedError ''Not a user access token'')) (\<lambda>_.
          act_bind (getUser env (the (jp_sub payload))) (\<lambda>state.
          act_bind (act_require (case state of Some st \<Rightarrow> ua_active st \<and> jp_tokenVersion payload = Some (ua_tokenVersion st)
                | None \<Rightarrow> False)
             (UnauthorizedError ''Access token has been revoked'')) (\<lambda>_.
          act_return \<lparr>ru_userId = the (jp_sub payload), ru_email = the (jp_email payload),
            ru_tokenVersion = jp_tokenVersion payload\<rparr>))))))"

section \<open>Login\<close>

record LoginResult =
  lr_accessToken :: string
  lr_refreshToken :: string
  lr_expiresIn :: int
  lr_id :: string
  lr_email :: string
  lr_firstName :: string
  lr_lastName :: string

definition access_payload :: "UserProps \<Rightarrow> JwtPayload" where
  "access_payload u = \<lparr>jp_sub = Some (us_id u), jp_email = Some (us_email u),
     jp_tokenVersion = Some (us_tokenVersion u), jp_type = Some ''user''\<rparr>"

definition login_result :: "('d, 'r) auth_env \<Rightarrow> UserProps \<Rightarrow> string \<Rightarrow> ('d, 'r, LoginResult) action" where
  "login_result env u refreshToken =
     act_bind (act_io (ae_sign env (access_payload u) ACCESS_TOKEN_SEC)) (\<lambda>accessToken.
     act_return \<lparr>lr_accessToken = accessToken, lr_refreshToken = refreshToken, lr_expiresIn = ACCESS_TOKEN_SEC,
       lr_id = us_id u, lr_email = us_email u, lr_firstName = us_firstName u, lr_lastName = us_lastName u\<rparr>)"

definition sum_action :: "app_error + 'a \<Rightarrow> ('d, 'r, 'a) action" where
  "sum_action x = (case x of Inl e \<Rightarrow> act_throw e | Inr y \<Rightarrow> act_return y)"

definition login_begin :: "('d, 'r) auth_env \<Rightarrow> time \<Rightarrow> string \<Rightarrow> string \<Rightarrow> ('d, 'r, UserProps \<times> bool) action" where
  "login_begin env now email password =
     act_bind (user_findByEmail (ae_db env) email) (\<lambda>found.
     act_bind (found_or (UnauthorizedError ''Invalid credentials'') found) (\<lambda>user.
     act_bind (ensure (User_ensureCanLogin now user)) (\<lambda>_.
     act_bind (act_io (ae_comparePassword env password (us_passwordHash user))) (\<lambda>isValid.
     act_return (user, isValid)))))"

definition login_failed :: "('d, 'r) auth_env \<Rightarrow> time \<Rightarrow> UserProps \<Rightarrow> ('d, 'r, 'a) action" where
  "login_failed env now user =
     act_bind (user_save (ae_db env) (User_recordFailedLoginAttempt now user)) (\<lambda>_.
     act_throw (UnauthorizedError ''Invalid credentials''))"

text \<open>\<open>uuid\<close>, \<open>created\<close> and \<open>raw\<close> are what the session's factory and the token generator draw.\<close>

definition login_success ::
  "('d, 'r) auth_env \<Rightarrow> time \<Rightarrow> time \<Rightarrow> string \<Rightarrow> string \<Rightarrow> string \<Rightarrow> string \<Rightarrow> UserProps \<Rightarrow>
   ('d, 'r, LoginResult) action" where
  "login_success env now created uuid raw ipAddress userAgent user =
     act_tx (
       (let user' = User_resetLoginAttempts now user in
        act_bind (user_save (ae_db env) user') (\<lambda>_.
        act_bind (session_countActiveByUserId (ae_db env) (us_id user') now) (\<lambda>activeSessions.
        act_bind (if activeSessions \<ge> MAX_SESSIONS
                  then session_revokeOldestActiveSession (ae_db env) (us_id user') now else act_return ()) (\<lambda>_.
        act_bind (sum_action (Session_create uuid created (us_id user') (ae_tokenHash env raw) (ae_refreshTTL env)
            ipAddress userAgent)) (\<lambda>session.
        act_bind (session_save (ae_db env) session) (\<lambda>_.
        login_result env user' raw)))))))"

definition login_commit ::
  "('d, 'r) auth_env \<Rightarrow> time \<Rightarrow> time \<Rightarrow> string \<Rightarrow> string \<Rightarrow> string \<Rightarrow> string \<Rightarrow> UserProps \<times> bool \<Rightarrow>
   ('d, 'r, LoginResult) action" where
  "login_commit env now created uuid raw ipAddress userAgent checked =
     (if snd checked then login_success env now created uuid raw ipAddress userAgent (fst checked)
      else login_failed env now (fst checked))"

definition Login_execute ::
  "('d, 'r) auth_env \<Rightarrow> time \<Rightarrow> time \<Rightarrow> string \<Rightarrow> string \<Rightarrow> string \<Rightarrow> string \<Rightarrow> string \<Rightarrow> string \<Rightarrow>
   ('d, 'r, LoginResult) action" where
  "Login_execute env now created uuid raw email password ipAddress userAgent =
     act_bind (login_begin env now email password) (login_commit env now created uuid raw ipAddress userAgent)"

section \<open>Refresh\<close>

datatype RefreshOutcome = RefreshOk UserProps string | RefreshReuse string | RefreshInvalid | RefreshExpired

definition refresh_user :: "('d, 'r) auth_env \<Rightarrow> time \<Rightarrow> string \<Rightarrow> ('d, 'r, UserProps option) action" where
  "refresh_user env now userId =
     act_bind (user_findById (ae_db env) userId) (\<lambda>user.
     case user of
       None \<Rightarrow> act_return None
     | Some u \<Rightarrow> act_bind (ensure (User_ensureCanLogin now u)) (\<lambda>_. act_return (Some u)))"

definition refresh_again :: "('d, 'r) auth_env \<Rightarrow> time \<Rightarrow> SessionProps \<Rightarrow> ('d, 'r, RefreshOutcome) action" where
  "refresh_again env now session =
     (if Session_wasRotatedWithin now REFRESH_ROTATION_GRACE_MS session then
        act_bind (session_findById (ae_db env) (the (se_replacedById session))) (\<lambda>successor.
        case (successor, ae_decrypt env (the (se_replacementTokenCipher session))) of
          (Some s, Some raw) \<Rightarrow>
            if Session_isValid now s \<and> raw \<noteq> [] \<and> ae_tokenHash env raw = se_tokenHash s then
              act_bind (refresh_user env now (se_userId session)) (\<lambda>user.
              act_return (case user of Some u \<Rightarrow> RefreshOk u raw | None \<Rightarrow> RefreshInvalid))
            else act_return (RefreshReuse (se_userId session))
        | _ \<Rightarrow> act_return (RefreshReuse (se_userId session)))
      else act_return (RefreshReuse (se_userId session)))"

definition refresh_rotate ::
  "('d, 'r) auth_env \<Rightarrow> time \<Rightarrow> time \<Rightarrow> string \<Rightarrow> string \<Rightarrow> SessionProps \<Rightarrow> ('d, 'r, RefreshOutcome) action" where
  "refresh_rotate env now created uuid newRaw session =
     act_bind (refresh_user env now (se_userId session)) (\<lambda>user.
     case user of
       None \<Rightarrow> act_return RefreshInvalid
     | Some u \<Rightarrow>
         act_bind (act_io (ae_encrypt env newRaw)) (\<lambda>cipher.
         act_bind (sum_action (Session_rotate uuid created (ae_tokenHash env newRaw) (ae_refreshTTL env) now cipher session))
           (\<lambda>(old, successor).
         act_bind (session_save (ae_db env) old) (\<lambda>_.
         act_bind (session_save (ae_db env) successor) (\<lambda>_.
         act_bind (session_purgeRotationCiphers (ae_db env) (us_id u) (now - REFRESH_ROTATION_GRACE_MS)) (\<lambda>_.
         act_return (RefreshOk u newRaw)))))))"

text \<open>\<^verbatim>\<open>SELECT ... FOR UPDATE\<close> makes refreshes of one token run one after the other.\<close>

definition refresh_tx ::
  "('d, 'r) auth_env \<Rightarrow> time \<Rightarrow> time \<Rightarrow> string \<Rightarrow> string \<Rightarrow> string \<Rightarrow> ('d, 'r, RefreshOutcome) action" where
  "refresh_tx env now created uuid newRaw rawRefreshToken =
     act_tx (
       act_bind (session_findByTokenHash (ae_db env) (ae_tokenHash env rawRefreshToken)) (\<lambda>found.
       case found of
         None \<Rightarrow> act_return RefreshInvalid
       | Some session \<Rightarrow>
           if Session_isExpired now session then act_return RefreshExpired
           else if Session_isRevoked session then refresh_again env now session
           else refresh_rotate env now created uuid newRaw session))"

definition refresh_finish :: "('d, 'r) auth_env \<Rightarrow> time \<Rightarrow> RefreshOutcome \<Rightarrow> ('d, 'r, LoginResult) action" where
  "refresh_finish env now outcome =
     (case outcome of
        RefreshInvalid \<Rightarrow> act_throw (UnauthorizedError ''Invalid refresh token'')
      | RefreshExpired \<Rightarrow> act_throw (UnauthorizedError ''Refresh token expired'')
      | RefreshReuse userId \<Rightarrow>
          act_bind (session_revokeAllByUserId (ae_db env) userId now) (\<lambda>_.
          act_throw (UnauthorizedError ''Refresh token reuse detected. All sessions revoked.''))
      | RefreshOk user refreshToken \<Rightarrow> login_result env user refreshToken)"

definition Refresh_execute ::
  "('d, 'r) auth_env \<Rightarrow> time \<Rightarrow> time \<Rightarrow> string \<Rightarrow> string \<Rightarrow> string \<Rightarrow> ('d, 'r, LoginResult) action" where
  "Refresh_execute env now created uuid newRaw rawRefreshToken =
     act_bind (refresh_tx env now created uuid newRaw rawRefreshToken) (refresh_finish env now)"

section \<open>Logout\<close>

definition bump_version :: "('d, 'r) auth_env \<Rightarrow> time \<Rightarrow> string \<Rightarrow> ('d, 'r, unit) action" where
  "bump_version env now userId =
     act_bind (user_findById (ae_db env) userId) (\<lambda>user.
     case user of
       Some u \<Rightarrow> user_save (ae_db env) (User_incrementTokenVersion now u)
     | None \<Rightarrow> act_return ())"

definition Logout_execute :: "('d, 'r) auth_env \<Rightarrow> time \<Rightarrow> string \<Rightarrow> ('d, 'r, unit) action" where
  "Logout_execute env now rawRefreshToken =
     act_bind (act_tx (
       act_bind (session_findByTokenHash (ae_db env) (ae_tokenHash env rawRefreshToken)) (\<lambda>found.
       case found of
         None \<Rightarrow> act_return None
       | Some session \<Rightarrow>
           if Session_isRevoked session then act_return None
           else
             act_bind (session_save (ae_db env) (Session_revoke now session)) (\<lambda>_.
             act_bind (bump_version env now (se_userId session)) (\<lambda>_.
             act_return (Some (se_userId session))))))) (\<lambda>userId.
     if truthy userId then invalidateUser env (the userId) else act_return ())"

definition LogoutAll_execute :: "('d, 'r) auth_env \<Rightarrow> time \<Rightarrow> string \<Rightarrow> ('d, 'r, unit) action" where
  "LogoutAll_execute env now userId =
     act_bind (act_tx (
       act_bind (session_revokeAllByUserId (ae_db env) userId now) (\<lambda>_. bump_version env now userId))) (\<lambda>_.
     invalidateUser env userId)"

section \<open>Registration\<close>

text \<open>\<open>valid\<close> is the regular expression of \<^verbatim>\<open>Email.create\<close>.\<close>

definition EMAIL_TOKEN_TTL :: time where "EMAIL_TOKEN_TTL = 1000 * 60 * 60 * 24"

definition send_verification ::
  "('d, 'r) auth_env \<Rightarrow> time \<Rightarrow> string \<Rightarrow> string \<Rightarrow> UserProps \<Rightarrow> ('d, 'r, AuthMail list) action" where
  "send_verification env created tokenId raw user =
     act_bind (email_save (ae_db env) (Token_create tokenId created (us_id user) (ae_tokenHash env raw) EMAIL_TOKEN_TTL)) (\<lambda>_.
     act_return [VerificationMail (us_email user) (us_firstName user) raw])"

definition Register_execute ::
  "('d, 'r) auth_env \<Rightarrow> (string \<Rightarrow> bool) \<Rightarrow> time \<Rightarrow> string \<Rightarrow> string \<Rightarrow> string \<Rightarrow> string \<Rightarrow> string \<Rightarrow>
   string option \<Rightarrow> string option \<Rightarrow> ('d, 'r, string \<times> AuthMail list) action" where
  "Register_execute env valid created uuid tokenId raw email password firstName lastName =
     act_bind (act_require (valid email) (PlainError ''Invalid email'')) (\<lambda>_.
     act_tx (
       act_bind (user_findByEmail (ae_db env) (normal_email email)) (\<lambda>existing.
       case existing of
         Some u \<Rightarrow>
           act_bind (act_require (\<not> us_isEmailVerified u) (ConflictError ''Email already registered'')) (\<lambda>_.
           act_bind (email_deleteAllByUserId (ae_db env) (us_id u)) (\<lambda>_.
           act_bind (send_verification env created tokenId raw u) (\<lambda>mails.
           act_return (us_email u, mails))))
       | None \<Rightarrow>
           act_bind (act_io (ae_hashPassword env password)) (\<lambda>passwordHash.
           (let user = User_register uuid created (normal_email email) passwordHash firstName lastName in
            act_bind (user_save (ae_db env) user) (\<lambda>_.
            act_bind (send_verification env created tokenId raw user) (\<lambda>mails.
            act_return (us_email user, mails))))))))"

definition resend_verification ::
  "('d, 'r) auth_env \<Rightarrow> time \<Rightarrow> string \<Rightarrow> string \<Rightarrow> string \<Rightarrow> ('d, 'r, AuthMail list) action" where
  "resend_verification env created tokenId raw email =
     act_bind (user_findByEmail (ae_db env) (normal_email email)) (\<lambda>found.
     case found of
       None \<Rightarrow> act_return []
     | Some u \<Rightarrow>
         if us_isEmailVerified u then act_return []
         else act_tx (
           act_bind (email_deleteAllByUserId (ae_db env) (us_id u)) (\<lambda>_.
           send_verification env created tokenId raw u)))"

section \<open>Passwords\<close>

definition RESET_TOKEN_TTL :: time where "RESET_TOKEN_TTL = 1000 * 60 * 60"

definition RequestPasswordReset_execute ::
  "('d, 'r) auth_env \<Rightarrow> time \<Rightarrow> string \<Rightarrow> string \<Rightarrow> string \<Rightarrow> ('d, 'r, AuthMail list) action" where
  "RequestPasswordReset_execute env created tokenId raw email =
     act_bind (user_findByEmail (ae_db env) (normal_email email)) (\<lambda>found.
     case found of
       None \<Rightarrow> act_return []
     | Some u \<Rightarrow>
         if \<not> us_status u then act_return []
         else act_tx (
           act_bind (reset_deleteAllByUserId (ae_db env) (us_id u)) (\<lambda>_.
           act_bind (reset_save (ae_db env)
             (Token_create tokenId created (us_id u) (ae_tokenHash env raw) RESET_TOKEN_TTL)) (\<lambda>_.
           act_bind (audit_create (ae_db env) (user_audit (us_id u) ''PASSWORD_RESET_REQUESTED'')) (\<lambda>_.
           act_return [PasswordResetMail (us_email u) (us_firstName u) raw])))))"

definition ResetPassword_execute ::
  "('d, 'r) auth_env \<Rightarrow> time \<Rightarrow> string \<Rightarrow> string \<Rightarrow> ('d, 'r, AuthMail list) action" where
  "ResetPassword_execute env now rawToken newPassword =
     act_bind (act_tx (
       act_bind (reset_findByHash (ae_db env) (ae_tokenHash env rawToken)) (\<lambda>foundToken.
       act_bind (found_or (NotFoundError ''Invalid or expired reset token'') foundToken) (\<lambda>token.
       act_bind (ensure (PasswordResetToken_ensureValid now token)) (\<lambda>_.
       act_bind (user_findById (ae_db env) (tk_userId token)) (\<lambda>foundUser.
       act_bind (found_or (NotFoundError ''User not found'') foundUser) (\<lambda>user.
       act_bind (act_io (ae_hashPassword env newPassword)) (\<lambda>passwordHash.
       act_bind (session_revokeAllByUserId (ae_db env) (us_id user) now) (\<lambda>_.
       act_bind (user_save (ae_db env) (User_resetPassword passwordHash now user)) (\<lambda>_.
       act_bind (reset_save (ae_db env) (Token_markUsed now token)) (\<lambda>_.
       act_bind (audit_create (ae_db env) (user_audit (us_id user) ''PASSWORD_RESET_COMPLETED'')) (\<lambda>_.
       act_return (us_id user, [PasswordResetSuccessMail (us_email user) (us_firstName user)]))))))))))))) (\<lambda>(userId, mails).
     act_bind (invalidateUser env userId) (\<lambda>_. act_return mails))"

text \<open>The route \<^verbatim>\<open>POST /me/password\<close>: the checks, then the transaction.\<close>

definition change_begin ::
  "('d, 'r) auth_env \<Rightarrow> string \<Rightarrow> string \<Rightarrow> string \<Rightarrow> ('d, 'r, UserProps \<times> string) action" where
  "change_begin env userId currentPassword newPassword =
     act_bind (user_findById (ae_db env) userId) (\<lambda>found.
     act_bind (found_or (NotFoundError ''User not found'') found) (\<lambda>user.
     act_bind (act_io (ae_comparePassword env currentPassword (us_passwordHash user))) (\<lambda>isValid.
     act_bind (act_require isValid (ValidationError ''Current password is incorrect'')) (\<lambda>_.
     act_bind (act_io (ae_comparePassword env newPassword (us_passwordHash user))) (\<lambda>isSame.
     act_bind (act_require (\<not> isSame) (ValidationError ''New password must be different from current password'')) (\<lambda>_.
     act_bind (act_io (ae_hashPassword env newPassword)) (\<lambda>newHash.
     act_return (user, newHash))))))))"

definition change_commit ::
  "('d, 'r) auth_env \<Rightarrow> time \<Rightarrow> UserProps \<times> string \<Rightarrow> ('d, 'r, unit) action" where
  "change_commit env now checked =
     act_bind (act_tx (
       act_bind (user_save (ae_db env) (User_resetPassword (snd checked) now (fst checked))) (\<lambda>_.
       act_bind (session_revokeAllByUserId (ae_db env) (us_id (fst checked)) now) (\<lambda>_.
       audit_create (ae_db env) (user_audit (us_id (fst checked)) ''PASSWORD_CHANGED''))))) (\<lambda>_.
     invalidateUser env (us_id (fst checked)))"

definition ChangePassword_route ::
  "('d, 'r) auth_env \<Rightarrow> time \<Rightarrow> string \<Rightarrow> string \<Rightarrow> string \<Rightarrow> ('d, 'r, unit) action" where
  "ChangePassword_route env now userId currentPassword newPassword =
     act_bind (change_begin env userId currentPassword newPassword) (change_commit env now)"

definition UpdateProfile_route ::
  "('d, 'r) auth_env \<Rightarrow> time \<Rightarrow> string \<Rightarrow> string option \<Rightarrow> string option \<Rightarrow> ('d, 'r, UserProps) action" where
  "UpdateProfile_route env now userId firstName lastName =
     act_bind (act_require (truthy firstName \<or> truthy lastName)
        (ValidationError ''Please provide at least one field to update'')) (\<lambda>_.
     act_bind (user_findById (ae_db env) userId) (\<lambda>found.
     act_bind (found_or (NotFoundError ''User not found'') found) (\<lambda>user.
     (let user' = User_updateProfile now firstName lastName user in
      act_bind (user_save (ae_db env) user') (\<lambda>_. act_return user')))))"

end
