(* ===== verification/AuthMemory.thy ===== *)
theory AuthMemory
  imports AuthUseCases
begin

text \<open>
  Tables of users, sessions and tokens held in memory that satisfy \<open>auth_db_spec\<close>, and a world with
  one user in it: the instance on which the theorems about authentication are applied.
\<close>

record auth_mem =
  am_users :: "(string \<times> UserProps) list"
  am_sessions :: "(string \<times> SessionProps) list"
  am_resets :: "(string \<times> TokenProps) list"
  am_emails :: "(string \<times> TokenProps) list"

definition mem_view :: "auth_mem \<Rightarrow> auth_view" where
  "mem_view d = \<lparr>av_users = rows_of us_id (am_users d), av_sessions = rows_of se_id (am_sessions d),
     av_resets = rows_of tk_id (am_resets d), av_emails = rows_of tk_id (am_emails d)\<rparr>"

definition mem_auth_db :: "auth_mem auth_db" where
  "mem_auth_db = \<lparr>
     ad_users = memory_table us_id am_users am_users_update,
     ad_sessions = memory_table se_id am_sessions am_sessions_update,
     ad_resets = memory_table tk_id am_resets am_resets_update,
     ad_emails = memory_table tk_id am_emails am_emails_update,
     ad_audit = (\<lambda>e d. Some d)\<rparr>"

lemma mem_auth_db_spec: "auth_db_spec mem_auth_db mem_view"
  unfolding auth_db_spec_def
  by (simp add: mem_auth_db_def) (intro conjI memory_table_spec; simp add: mem_view_def)

text \<open>Hashing and encryption that can be inverted, tokens that carry the version of their user.\<close>

definition mem_auth_env :: "(auth_mem, unit) auth_env" where
  "mem_auth_env = \<lparr>
     ae_db = mem_auth_db,
     ae_redis = None,
     ae_tokenHash = (\<lambda>t. CHR ''#'' # t),
     ae_hashPassword = (\<lambda>p. Some (CHR ''$'' # p)),
     ae_comparePassword = (\<lambda>p h. Some (h = CHR ''$'' # p)),
     ae_encrypt = (\<lambda>t. Some (CHR ''!'' # t)),
     ae_decrypt = (\<lambda>c. case c of [] \<Rightarrow> None | x # t \<Rightarrow> Some t),
     ae_sign = (\<lambda>p ttl. Some (replicate (the (jp_tokenVersion p)) CHR ''v'' @ ''.'' @ the (jp_sub p))),
     ae_verify = (\<lambda>t. Some \<lparr>jp_sub = Some (tl (dropWhile (\<lambda>c. c \<noteq> CHR ''.'') t)), jp_email = Some ''a@b.c'',
       jp_tokenVersion = Some (length (takeWhile (\<lambda>c. c = CHR ''v'') t)), jp_type = Some ''user''\<rparr>),
     ae_refreshTTL = 100000\<rparr>"

lemma mem_auth_env_spec: "auth_db_spec (ae_db mem_auth_env) mem_view"
  by (simp add: mem_auth_env_def mem_auth_db_spec)

definition mem_user :: UserProps where
  "mem_user = \<lparr>us_id = ''u'', us_email = ''a@b.c'', us_passwordHash = ''$old'', us_firstName = ''A'',
     us_lastName = ''B'', us_isEmailVerified = True, us_failedLoginAttempts = 0, us_lockedUntil = None,
     us_status = True, us_createdAt = 0, us_updatedAt = 0, us_deletedAt = None, us_tokenVersion = 0\<rparr>"

definition mem_session :: "string \<Rightarrow> time \<Rightarrow> SessionProps" where
  "mem_session i created = \<lparr>se_id = i, se_userId = ''u'', se_tokenHash = CHR ''#'' # i, se_expiresAt = created + 100000,
     se_revokedAt = None, se_createdAt = created, se_ipAddress = [], se_userAgent = [],
     se_replacedById = None, se_replacementTokenCipher = None\<rparr>"

definition mem_reset :: TokenProps where
  "mem_reset = \<lparr>tk_id = ''t'', tk_userId = ''u'', tk_tokenHash = ''#tok'', tk_expiresAt = 3600000, tk_usedAt = None\<rparr>"

definition mem_auth_world :: "(auth_mem, unit) world" where
  "mem_auth_world = \<lparr>w_db = \<lparr>am_users = [(''u'', mem_user)], am_sessions = [(''s1'', mem_session ''s1'' 0)],
     am_resets = [(''t'', mem_reset)], am_emails = []\<rparr>, w_redis = ()\<rparr>"

lemmas mem_auth_simps = mem_auth_env_def mem_auth_db_def mem_auth_world_def mem_view_def mem_user_def
  mem_session_def mem_reset_def memory_table_def row_list_def rows_of_def

end
