(* ===== verification/AuthSafety.thy ===== *)
theory AuthSafety
  imports AuthMemory
begin

text \<open>
  What the authentication use cases guarantee: rotation of refresh tokens, detection of reuse, the
  bound on sessions, password reset, revocation of access tokens; and what overlapping calls do to
  each other.
\<close>

section \<open>Statements on the tables\<close>

lemma auth_tables:
  assumes "auth_db_spec db view"
  shows "table_spec (ad_users db) us_id av_users av_users_update view"
    and "table_spec (ad_sessions db) se_id av_sessions av_sessions_update view"
    and "table_spec (ad_resets db) tk_id av_resets av_resets_update view"
    and "table_spec (ad_emails db) tk_id av_emails av_emails_update view"
  using assms by (simp_all add: auth_db_spec_def)

definition saved_user :: "UserProps \<Rightarrow> UserProps option \<Rightarrow> UserProps" where
  "saved_user u row = (case row of Some r \<Rightarrow> u\<lparr>us_createdAt := us_createdAt r\<rparr> | None \<Rightarrow> u)"

definition saved_session :: "SessionProps \<Rightarrow> SessionProps option \<Rightarrow> SessionProps" where
  "saved_session p row =
     (case row of
        Some r \<Rightarrow> r\<lparr>se_tokenHash := se_tokenHash p, se_expiresAt := se_expiresAt p, se_revokedAt := se_revokedAt p,
          se_replacedById := se_replacedById p, se_replacementTokenCipher := se_replacementTokenCipher p\<rparr>
      | None \<Rightarrow> p\<lparr>se_replacedById := None, se_replacementTokenCipher := None\<rparr>)"

definition revoked_all :: "string \<Rightarrow> time \<Rightarrow> (string \<Rightarrow> SessionProps option) \<Rightarrow> string \<Rightarrow> SessionProps option" where
  "revoked_all userId now m = (\<lambda>k. map_option (\<lambda>s.
     if se_userId s = userId then (Session_revoke now s)\<lparr>se_replacementTokenCipher := None\<rparr> else s) (m k))"

named_theorems view_writes "what an action that returns leaves in the tables"

lemma users_update_cong: "f (av_users v) = g (av_users v) \<Longrightarrow> av_users_update f v = av_users_update g v"
  by (cases v) simp

lemma saved_user_row:
  fixes r u :: UserProps
  assumes "us_id r = us_id u"
  shows "r\<lparr>us_email := us_email u, us_passwordHash := us_passwordHash u, us_firstName := us_firstName u,
        us_lastName := us_lastName u, us_isEmailVerified := us_isEmailVerified u,
        us_failedLoginAttempts := us_failedLoginAttempts u, us_lockedUntil := us_lockedUntil u,
        us_status := us_status u, us_deletedAt := us_deletedAt u, us_tokenVersion := us_tokenVersion u,
        us_updatedAt := us_updatedAt u\<rparr> = u\<lparr>us_createdAt := us_createdAt r\<rparr>"
  using assms by (cases r; cases u) simp

lemma put_user_row:
  fixes u :: UserProps
  assumes "\<And>r. m (us_id u) = Some r \<Longrightarrow> us_id r = us_id u"
  shows "put_row (us_id u)
     (\<lambda>row. row\<lparr>us_email := us_email u, us_passwordHash := us_passwordHash u, us_firstName := us_firstName u,
        us_lastName := us_lastName u, us_isEmailVerified := us_isEmailVerified u,
        us_failedLoginAttempts := us_failedLoginAttempts u, us_lockedUntil := us_lockedUntil u,
        us_status := us_status u, us_deletedAt := us_deletedAt u, us_tokenVersion := us_tokenVersion u,
        us_updatedAt := us_updatedAt u\<rparr>) u m = m(us_id u \<mapsto> saved_user u (m (us_id u)))"
proof (cases "m (us_id u)")
  case None
  then show ?thesis by (simp only: put_row_def saved_user_def option.case)
next
  case (Some r)
  show ?thesis by (simp only: put_row_def saved_user_def option.case Some saved_user_row [OF assms [OF Some]])
qed

lemma user_save_view [view_writes]:
  assumes "auth_db_spec db view" "user_save db u s = (Inr x, s')"
  shows "view (w_db s') = av_users_update (\<lambda>m. m(us_id u \<mapsto> saved_user u (m (us_id u)))) (view (w_db s))"
proof -
  obtain d where d: "tb_upsert (ad_users db) (us_id u)
     (\<lambda>row. row\<lparr>us_email := us_email u, us_passwordHash := us_passwordHash u, us_firstName := us_firstName u,
        us_lastName := us_lastName u, us_isEmailVerified := us_isEmailVerified u,
        us_failedLoginAttempts := us_failedLoginAttempts u, us_lockedUntil := us_lockedUntil u,
        us_status := us_status u, us_deletedAt := us_deletedAt u, us_tokenVersion := us_tokenVersion u,
        us_updatedAt := us_updatedAt u\<rparr>) u (w_db s) = Some d" "s' = s\<lparr>w_db := d\<rparr>"
    using assms(2) by (auto simp: user_save_def action_simps)
  note T = auth_tables(1) [OF assms(1)]
  have row: "us_id r = us_id u" if "av_users (view (w_db s)) (us_id u) = Some r" for r
    by (rule table_key [OF T that])
  have written: "view d = av_users_update (put_row (us_id u)
     (\<lambda>row. row\<lparr>us_email := us_email u, us_passwordHash := us_passwordHash u, us_firstName := us_firstName u,
        us_lastName := us_lastName u, us_isEmailVerified := us_isEmailVerified u,
        us_failedLoginAttempts := us_failedLoginAttempts u, us_lockedUntil := us_lockedUntil u,
        us_status := us_status u, us_deletedAt := us_deletedAt u, us_tokenVersion := us_tokenVersion u,
        us_updatedAt := us_updatedAt u\<rparr>) u) (view (w_db s))"
    by (rule table_upsert [OF T _ _ d(1)]) simp_all
  have "view (w_db s') = view d" using d(2) by simp
  also have "\<dots> = av_users_update (\<lambda>m. m(us_id u \<mapsto> saved_user u (m (us_id u)))) (view (w_db s))"
    unfolding written by (rule users_update_cong, rule put_user_row, rule row)
  finally show ?thesis .
qed

lemma session_save_view [view_writes]:
  assumes "auth_db_spec db view" "session_save db p s = (Inr x, s')"
  shows "view (w_db s') = av_sessions_update (\<lambda>m. m(se_id p \<mapsto> saved_session p (m (se_id p)))) (view (w_db s))"
proof -
  obtain d where d: "tb_upsert (ad_sessions db) (se_id p)
     (\<lambda>row. row\<lparr>se_tokenHash := se_tokenHash p, se_expiresAt := se_expiresAt p, se_revokedAt := se_revokedAt p,
        se_replacedById := se_replacedById p, se_replacementTokenCipher := se_replacementTokenCipher p\<rparr>)
     (p\<lparr>se_replacedById := None, se_replacementTokenCipher := None\<rparr>) (w_db s) = Some d" "s' = s\<lparr>w_db := d\<rparr>"
    using assms(2) by (auto simp: session_save_def action_simps)
  show ?thesis unfolding d(2)
    using table_upsert [OF auth_tables(2) [OF assms(1)] _ _ d(1)]
    by (simp add: put_row_def saved_session_def)
qed

lemma sessions_update_cong: "f (av_sessions v) = g (av_sessions v) \<Longrightarrow> av_sessions_update f v = av_sessions_update g v"
  by (cases v) simp

lemma updates_compose: "av_sessions_update f (av_sessions_update g v) = av_sessions_update (\<lambda>m. f (g m)) v"
  by (simp add: comp_def)

lemma revoke_all_view [view_writes]:
  assumes "auth_db_spec db view" "session_revokeAllByUserId db userId now s = (Inr x, s')"
  shows "view (w_db s') = av_sessions_update (revoked_all userId now) (view (w_db s))"
proof -
  obtain n d n' d' where runs:
    "tb_updateMany (ad_sessions db) (\<lambda>s. se_userId s = userId \<and> se_revokedAt s = None)
        (\<lambda>s. s\<lparr>se_revokedAt := Some now\<rparr>) (w_db s) = Some (n, d)"
    "tb_updateMany (ad_sessions db) (\<lambda>s. se_userId s = userId \<and> se_replacementTokenCipher s \<noteq> None)
        (\<lambda>s. s\<lparr>se_replacementTokenCipher := None\<rparr>) d = Some (n', d')" "s' = s\<lparr>w_db := d'\<rparr>"
    using assms(2) by (auto simp: session_revokeAllByUserId_def action_simps)
  note T = auth_tables(2) [OF assms(1)]
  have "view d' = av_sessions_update (\<lambda>m. change_rows (\<lambda>s. se_userId s = userId \<and> se_replacementTokenCipher s \<noteq> None)
      (\<lambda>s. s\<lparr>se_replacementTokenCipher := None\<rparr>)
      (change_rows (\<lambda>s. se_userId s = userId \<and> se_revokedAt s = None) (\<lambda>s. s\<lparr>se_revokedAt := Some now\<rparr>) m)) (view (w_db s))"
    using table_updateMany(2) [OF T _ runs(1)] table_updateMany(2) [OF T _ runs(2)] by (simp add: comp_def)
  also have "(\<lambda>m. change_rows (\<lambda>s. se_userId s = userId \<and> se_replacementTokenCipher s \<noteq> None)
      (\<lambda>s. s\<lparr>se_replacementTokenCipher := None\<rparr>)
      (change_rows (\<lambda>s. se_userId s = userId \<and> se_revokedAt s = None) (\<lambda>s. s\<lparr>se_revokedAt := Some now\<rparr>) m)) =
      revoked_all userId now"
    by (auto simp: fun_eq_iff change_rows_def revoked_all_def Session_revoke_def option.map_comp comp_def
        intro!: option.map_cong)
  finally show ?thesis using runs(3) by simp
qed

definition purged :: "string \<Rightarrow> time \<Rightarrow> (string \<Rightarrow> SessionProps option) \<Rightarrow> string \<Rightarrow> SessionProps option" where
  "purged userId olderThan = change_rows
     (\<lambda>s. se_userId s = userId \<and> se_replacementTokenCipher s \<noteq> None \<and>
        (case se_revokedAt s of Some r \<Rightarrow> r < olderThan | None \<Rightarrow> False))
     (\<lambda>s. s\<lparr>se_replacementTokenCipher := None\<rparr>)"

lemma purge_view:
  assumes "auth_db_spec db view" "session_purgeRotationCiphers db userId olderThan s = (Inr n, s')"
  shows "view (w_db s') = av_sessions_update (purged userId olderThan) (view (w_db s))"
proof -
  obtain d where d: "tb_updateMany (ad_sessions db)
     (\<lambda>s. se_userId s = userId \<and> se_replacementTokenCipher s \<noteq> None \<and>
        (case se_revokedAt s of Some r \<Rightarrow> r < olderThan | None \<Rightarrow> False))
     (\<lambda>s. s\<lparr>se_replacementTokenCipher := None\<rparr>) (w_db s) = Some (n, d)" "s' = s\<lparr>w_db := d\<rparr>"
    using assms(2) by (auto simp: session_purgeRotationCiphers_def action_simps)
  show ?thesis using table_updateMany(2) [OF auth_tables(2) [OF assms(1)] _ d(1)] d(2)
    by (simp add: purged_def)
qed

lemma session_found:
  assumes "auth_db_spec db view" "session_findByTokenHash db h s = (Inr x, s')"
  shows "s' = s" "x = Some p \<Longrightarrow> av_sessions (view (w_db s)) (se_id p) = Some p \<and> se_tokenHash p = h"
    and "x = None \<Longrightarrow> av_sessions (view (w_db s)) k = Some p \<Longrightarrow> se_tokenHash p \<noteq> h"
  using assms(2) table_find [OF auth_tables(2) [OF assms(1)], of "\<lambda>s. se_tokenHash s = h" "w_db s" x]
  by (auto simp: session_findByTokenHash_def action_simps first_of_def matching_def split: option.splits)

lemma session_by_id:
  assumes "auth_db_spec db view" "session_findById db i s = (Inr x, s')"
  shows "s' = s" "x = av_sessions (view (w_db s)) i"
proof -
  note T = auth_tables(2) [OF assms(1)]
  have find: "tb_find (ad_sessions db) (\<lambda>s. se_id s = i) (w_db s) = Some x" "s' = s"
    using assms(2) by (auto simp: session_findById_def action_simps)
  have "first_of se_id (\<lambda>s. se_id s = i) (av_sessions (view (w_db s))) x" by (rule table_find [OF T find(1)])
  then show "x = av_sessions (view (w_db s)) i"
    using table_key [OF T, of "w_db s" i]
    by (cases "av_sessions (view (w_db s)) i") (auto simp: first_of_def matching_def split: option.splits)
  show "s' = s" by (rule find(2))
qed

lemma user_by_id:
  assumes "auth_db_spec db view" "user_findById db i s = (Inr x, s')"
  shows "s' = s" "x = av_users (view (w_db s)) i"
proof -
  note T = auth_tables(1) [OF assms(1)]
  have find: "tb_find (ad_users db) (\<lambda>s. us_id s = i) (w_db s) = Some x" "s' = s"
    using assms(2) by (auto simp: user_findById_def action_simps)
  have "first_of us_id (\<lambda>s. us_id s = i) (av_users (view (w_db s))) x" by (rule table_find [OF T find(1)])
  then show "x = av_users (view (w_db s)) i"
    using table_key [OF T, of "w_db s" i]
    by (cases "av_users (view (w_db s)) i") (auto simp: first_of_def matching_def split: option.splits)
  show "s' = s" by (rule find(2))
qed

lemma user_by_email:
  assumes "auth_db_spec db view" "user_findByEmail db email s = (Inr x, s')"
  shows "s' = s" "x = Some u \<Longrightarrow> av_users (view (w_db s)) (us_id u) = Some u \<and> us_email u = normal_email email"
    and "x = None \<Longrightarrow> av_users (view (w_db s)) k = Some u \<Longrightarrow> us_email u \<noteq> normal_email email"
  using assms(2) table_find [OF auth_tables(1) [OF assms(1)], of "\<lambda>u. us_email u = normal_email email" "w_db s" x]
  by (auto simp: user_findByEmail_def action_simps first_of_def matching_def split: option.splits)

lemma user_id_key:
  "auth_db_spec db view \<Longrightarrow> av_users (view d) i = Some u \<Longrightarrow> us_id u = i"
  using table_key [OF auth_tables(1)] .

lemma session_id_key:
  "auth_db_spec db view \<Longrightarrow> av_sessions (view d) i = Some p \<Longrightarrow> se_id p = i"
  using table_key [OF auth_tables(2)] .

lemma ensure_Inr [action_simps]: "ensure e s = (Inr x, s') \<longleftrightarrow> e = None \<and> s' = s"
  by (cases e) (auto simp: ensure_def action_simps)

lemma found_or_Inr [action_simps]: "found_or e x s = (Inr y, s') \<longleftrightarrow> x = Some y \<and> s' = s"
  by (cases x) (auto simp: found_or_def action_simps)

lemma sum_action_Inr [action_simps]: "sum_action x s = (Inr y, s') \<longleftrightarrow> x = Inr y \<and> s' = s"
  by (cases x) (auto simp: sum_action_def action_simps)

lemma keeps_checks [keeps_intros]: "db_keeps I (ensure err)" "db_keeps I (found_or e z)" "db_keeps I (sum_action w)"
  by (rule keeps_same; simp add: ensure_def found_or_def sum_action_def act_return_def act_throw_def split: option.split sum.split)+

lemma keeps_invalidate [keeps_intros]: "db_keeps I (invalidateUser env userId)"
  by (rule keeps_same) (simp add: invalidateUser_def split: option.split)

lemma login_result_Inr:
  "login_result env u tok s = (Inr res, s') \<Longrightarrow>
     s' = s \<and> lr_refreshToken res = tok \<and> lr_id res = us_id u \<and> ae_sign env (access_payload u) ACCESS_TOKEN_SEC = Some (lr_accessToken res)"
  by (auto simp: login_result_def action_simps)

section \<open>Refresh\<close>

lemma refresh_user_Inr:
  assumes "auth_db_spec (ae_db env) view" "refresh_user env now i s = (Inr x, s')"
  shows "s' = s" "x = av_users (view (w_db s)) i" "x = Some u \<Longrightarrow> User_ensureCanLogin now u = None"
  using assms(2) user_by_id [OF assms(1)]
  by (auto simp: refresh_user_def action_simps split: option.splits)

definition successor_of ::
  "('d, 'r) auth_env \<Rightarrow> time \<Rightarrow> string \<Rightarrow> string \<Rightarrow> SessionProps \<Rightarrow> SessionProps" where
  "successor_of env created uuid newRaw old = \<lparr>se_id = uuid, se_userId = se_userId old,
     se_tokenHash = ae_tokenHash env newRaw, se_expiresAt = created + ae_refreshTTL env, se_revokedAt = None,
     se_createdAt = created, se_ipAddress = se_ipAddress old, se_userAgent = se_userAgent old,
     se_replacedById = None, se_replacementTokenCipher = None\<rparr>"

definition rotated :: "time \<Rightarrow> string \<Rightarrow> string \<Rightarrow> SessionProps \<Rightarrow> SessionProps" where
  "rotated now uuid cipher old =
     old\<lparr>se_revokedAt := Some now, se_replacedById := Some uuid, se_replacementTokenCipher := Some cipher\<rparr>"

lemma refresh_rotate_Inr:
  assumes spec: "auth_db_spec (ae_db env) view"
    and run: "refresh_rotate env now created uuid newRaw old s = (Inr outcome, s')"
    and old: "av_sessions (view (w_db s)) (se_id old) = Some old" "\<not> Session_isRevoked old"
    and fresh: "av_sessions (view (w_db s)) uuid = None"
  shows "(outcome = RefreshInvalid \<and> view (w_db s') = view (w_db s)) \<or>
    (\<exists>u cipher. outcome = RefreshOk u newRaw \<and> av_users (view (w_db s)) (se_userId old) = Some u \<and>
       User_ensureCanLogin now u = None \<and> ttl_valid (ae_refreshTTL env) \<and> ae_encrypt env newRaw = Some cipher \<and>
       view (w_db s') = av_sessions_update (\<lambda>m. purged (se_userId old) (now - REFRESH_ROTATION_GRACE_MS)
         (m(se_id old \<mapsto> rotated now uuid cipher old, uuid \<mapsto> successor_of env created uuid newRaw old))) (view (w_db s)))"
proof -
  obtain x s1 where user: "refresh_user env now (se_userId old) s = (Inr x, s1)"
    and rest: "(case x of None \<Rightarrow> act_return RefreshInvalid
     | Some u \<Rightarrow>
         act_bind (act_io (ae_encrypt env newRaw)) (\<lambda>cipher.
         act_bind (sum_action (Session_rotate uuid created (ae_tokenHash env newRaw) (ae_refreshTTL env) now cipher old))
           (\<lambda>(first, successor).
         act_bind (session_save (ae_db env) first) (\<lambda>_.
         act_bind (session_save (ae_db env) successor) (\<lambda>_.
         act_bind (session_purgeRotationCiphers (ae_db env) (us_id u) (now - REFRESH_ROTATION_GRACE_MS)) (\<lambda>_.
         act_return (RefreshOk u newRaw))))))) s1 = (Inr outcome, s')"
    using run unfolding refresh_rotate_def act_bind_Inr by blast
  note u = refresh_user_Inr [OF spec user]
  show ?thesis
  proof (cases x)
    case None
    then show ?thesis using rest u by (auto simp: action_simps)
  next
    case (Some w)
    then obtain cipher o' succ s2 s3 s4 n where c: "ae_encrypt env newRaw = Some cipher"
      and rot: "Session_rotate uuid created (ae_tokenHash env newRaw) (ae_refreshTTL env) now cipher old = Inr (o', succ)"
      and s2: "session_save (ae_db env) o' s = (Inr (), s2)"
      and s3: "session_save (ae_db env) succ s2 = (Inr (), s3)"
      and s4: "session_purgeRotationCiphers (ae_db env) (us_id w) (now - REFRESH_ROTATION_GRACE_MS) s3 = (Inr n, s')"
      and out: "outcome = RefreshOk w newRaw"
      using rest u(1) by (auto simp: action_simps split: prod.splits)
    have ids: "o' = rotated now uuid cipher old" "succ = successor_of env created uuid newRaw old"
        "ttl_valid (ae_refreshTTL env)"
      using rot old(2) by (auto simp: Session_rotate_def Session_create_def Session_revoke_def rotated_def
          successor_of_def Session_isRevoked_def split: if_splits)
    have w: "av_users (view (w_db s)) (se_userId old) = Some w" using u(2) Some by simp
    have ne: "uuid \<noteq> se_id old" using fresh old(1) by auto
    have "view (w_db s') = av_sessions_update (\<lambda>m. purged (se_userId old) (now - REFRESH_ROTATION_GRACE_MS)
        (m(se_id o' \<mapsto> saved_session o' (m (se_id o')),
           se_id succ \<mapsto> saved_session succ ((m(se_id o' \<mapsto> saved_session o' (m (se_id o')))) (se_id succ)))))
        (view (w_db s))"
      using purge_view [OF spec s4] session_save_view [OF spec s3] session_save_view [OF spec s2]
        user_id_key [OF spec w]
      by (simp add: comp_def)
    also have "\<dots> = av_sessions_update (\<lambda>m. purged (se_userId old) (now - REFRESH_ROTATION_GRACE_MS)
         (m(se_id old \<mapsto> rotated now uuid cipher old, uuid \<mapsto> successor_of env created uuid newRaw old))) (view (w_db s))"
      by (rule sessions_update_cong)
        (simp add: ids rotated_def successor_of_def saved_session_def old fresh ne)
    finally show ?thesis using out w u(3) Some c ids(3) by simp
  qed
qed

lemma refresh_again_Inr:
  assumes spec: "auth_db_spec (ae_db env) view"
    and run: "refresh_again env now old s = (Inr outcome, s')"
  shows "s' = s \<and> (outcome = RefreshReuse (se_userId old) \<or> outcome = RefreshInvalid \<or>
      (\<exists>u raw succ. outcome = RefreshOk u raw \<and> Session_wasRotatedWithin now REFRESH_ROTATION_GRACE_MS old \<and>
         av_sessions (view (w_db s)) (the (se_replacedById old)) = Some succ \<and> Session_isValid now succ \<and>
         ae_decrypt env (the (se_replacementTokenCipher old)) = Some raw \<and> ae_tokenHash env raw = se_tokenHash succ \<and>
         av_users (view (w_db s)) (se_userId old) = Some u \<and> User_ensureCanLogin now u = None))"
proof -
  show ?thesis
  proof (cases "Session_wasRotatedWithin now REFRESH_ROTATION_GRACE_MS old")
    case False
    then show ?thesis using run by (simp add: refresh_again_def action_simps)
  next
    case True
    then obtain x s1 where found: "session_findById (ae_db env) (the (se_replacedById old)) s = (Inr x, s1)"
      and rest: "(case (x, ae_decrypt env (the (se_replacementTokenCipher old))) of
          (Some s, Some raw) \<Rightarrow>
            if Session_isValid now s \<and> raw \<noteq> [] \<and> ae_tokenHash env raw = se_tokenHash s then
              act_bind (refresh_user env now (se_userId old)) (\<lambda>user.
              act_return (case user of Some u \<Rightarrow> RefreshOk u raw | None \<Rightarrow> RefreshInvalid))
            else act_return (RefreshReuse (se_userId old))
        | _ \<Rightarrow> act_return (RefreshReuse (se_userId old))) s1 = (Inr outcome, s')"
      using run unfolding refresh_again_def if_P [OF True] act_bind_Inr by blast
    note x = session_by_id [OF spec found]
    show ?thesis
    proof (cases "\<exists>p raw. x = Some p \<and> ae_decrypt env (the (se_replacementTokenCipher old)) = Some raw \<and>
        Session_isValid now p \<and> raw \<noteq> [] \<and> ae_tokenHash env raw = se_tokenHash p")
      case False
      then have "outcome = RefreshReuse (se_userId old) \<and> s' = s" using rest x(1)
        by (cases x; cases "ae_decrypt env (the (se_replacementTokenCipher old))")
          (auto simp: action_simps split: if_splits)
      then show ?thesis by simp
    next
      case good: True
      then obtain p raw where p: "x = Some p" "ae_decrypt env (the (se_replacementTokenCipher old)) = Some raw"
        "Session_isValid now p" "raw \<noteq> []" "ae_tokenHash env raw = se_tokenHash p" by blast
      then obtain user s2 where user: "refresh_user env now (se_userId old) s = (Inr user, s2)"
        and out: "outcome = (case user of Some u \<Rightarrow> RefreshOk u raw | None \<Rightarrow> RefreshInvalid)" "s' = s2"
        using rest x(1) by (auto simp: action_simps)
      note u = refresh_user_Inr [OF spec user]
      show ?thesis
      proof (cases user)
        case None
        then show ?thesis using u(1) out by simp
      next
        case (Some w)
        then have "av_users (view (w_db s)) (se_userId old) = Some w" using u(2) by simp
        then show ?thesis using u(1) u(3) [OF Some] Some out p x(2) True by simp
      qed
    qed
  qed
qed

lemma refresh_tx_Inr:
  assumes spec: "auth_db_spec (ae_db env) view"
    and run: "refresh_tx env now created uuid newRaw raw s = (Inr outcome, s')"
  obtains "outcome = RefreshInvalid" "s' = s"
  | old where "outcome = RefreshExpired" "s' = s"
  | old where "av_sessions (view (w_db s)) (se_id old) = Some old" "se_tokenHash old = ae_tokenHash env raw"
      "\<not> Session_isExpired now old" "Session_isRevoked old" "refresh_again env now old s = (Inr outcome, s')"
  | old where "av_sessions (view (w_db s)) (se_id old) = Some old" "se_tokenHash old = ae_tokenHash env raw"
      "\<not> Session_isExpired now old" "\<not> Session_isRevoked old"
      "refresh_rotate env now created uuid newRaw old s = (Inr outcome, s')"
proof -
  obtain x s1 where found: "session_findByTokenHash (ae_db env) (ae_tokenHash env raw) s = (Inr x, s1)"
    and rest: "(case x of
         None \<Rightarrow> act_return RefreshInvalid
       | Some session \<Rightarrow>
           if Session_isExpired now session then act_return RefreshExpired
           else if Session_isRevoked session then refresh_again env now session
           else refresh_rotate env now created uuid newRaw session) s1 = (Inr outcome, s')"
    using run unfolding refresh_tx_def act_tx_Inr act_bind_Inr by blast
  note x = session_found [OF spec found]
  show ?thesis
  proof (cases x)
    case None
    then show ?thesis using rest x(1) that(1) by (simp add: action_simps)
  next
    case (Some old)
    note old = x(2) [OF Some]
    show ?thesis using rest x(1) Some that(2) that(3) [of old] that(4) [of old] old
      by (auto simp: action_simps split: if_splits)
  qed
qed

text \<open>
  C12: What a successful refresh does. The token presented belongs to a session that has not expired,
  of a user who may log in. If the session was active, it is revoked and points at its successor, the
  successor is a new active session of the same user for the new token, and no other session
  changes (old cipher texts of the user may be dropped). If it was revoked, it was rotated
  at most thirty seconds ago, the token returned is that of its still active successor, and nothing is
  written.
\<close>

theorem refresh_exact:
  assumes "auth_db_spec (ae_db env) view"
    and "Refresh_execute env now created uuid newRaw raw s = (Inr res, s')"
    and "av_sessions (view (w_db s)) uuid = None"
  shows "\<exists>old u. av_sessions (view (w_db s)) (se_id old) = Some old \<and> se_tokenHash old = ae_tokenHash env raw \<and>
    \<not> Session_isExpired now old \<and> av_users (view (w_db s)) (se_userId old) = Some u \<and>
    User_ensureCanLogin now u = None \<and> lr_id res = us_id u \<and>
    (if Session_isRevoked old then
       view (w_db s') = view (w_db s) \<and> Session_wasRotatedWithin now REFRESH_ROTATION_GRACE_MS old \<and>
       (\<exists>succ. av_sessions (view (w_db s)) (the (se_replacedById old)) = Some succ \<and> Session_isValid now succ \<and>
          se_tokenHash succ = ae_tokenHash env (lr_refreshToken res))
     else
       lr_refreshToken res = newRaw \<and>
       av_sessions (view (w_db s')) uuid = Some (successor_of env created uuid newRaw old) \<and>
       (\<exists>cipher. av_sessions (view (w_db s')) (se_id old) = Some (rotated now uuid cipher old)) \<and>
       (\<forall>k. k \<noteq> uuid \<and> k \<noteq> se_id old \<longrightarrow>
          rel_option (\<lambda>a b. b = a \<or> b = a\<lparr>se_replacementTokenCipher := None\<rparr>)
            (av_sessions (view (w_db s)) k) (av_sessions (view (w_db s')) k)) \<and>
       av_users (view (w_db s')) = av_users (view (w_db s)))"
proof -
  obtain outcome s1 where tx: "refresh_tx env now created uuid newRaw raw s = (Inr outcome, s1)"
    and fin: "refresh_finish env now outcome s1 = (Inr res, s')"
    using assms(2) unfolding Refresh_execute_def act_bind_Inr by blast
  from fin obtain w tok where out: "outcome = RefreshOk w tok" and res: "login_result env w tok s1 = (Inr res, s')"
    by (auto simp: refresh_finish_def action_simps split: RefreshOutcome.splits)
  note res = login_result_Inr [OF res]
  show ?thesis
  proof (rule refresh_tx_Inr [OF assms(1) tx], goal_cases)
    case (3 old)
    note again = refresh_again_Inr [OF assms(1) 3(5)]
    show ?case using 3 again out res by (intro exI [of _ old]) auto
  next
    case (4 old)
    from refresh_rotate_Inr [OF assms(1) 4(5,1,4) assms(3)] out
    obtain cipher where u: "tok = newRaw" "av_users (view (w_db s)) (se_userId old) = Some w"
      "User_ensureCanLogin now w = None"
      and view: "view (w_db s1) = av_sessions_update (\<lambda>m. purged (se_userId old) (now - REFRESH_ROTATION_GRACE_MS)
         (m(se_id old \<mapsto> rotated now uuid cipher old, uuid \<mapsto> successor_of env created uuid newRaw old))) (view (w_db s))"
      by auto
    have ne: "uuid \<noteq> se_id old" using assms(3) 4(1) by auto
    have "av_sessions (view (w_db s')) uuid = Some (successor_of env created uuid newRaw old)"
      using res view by (simp add: purged_def change_rows_def successor_of_def)
    moreover have "av_sessions (view (w_db s')) (se_id old) = Some (rotated now uuid cipher old)"
      using res view ne by (simp add: purged_def change_rows_def rotated_def REFRESH_ROTATION_GRACE_MS_def)
    moreover have "rel_option (\<lambda>a b. b = a \<or> b = a\<lparr>se_replacementTokenCipher := None\<rparr>)
            (av_sessions (view (w_db s)) k) (av_sessions (view (w_db s')) k)" if "k \<noteq> uuid" "k \<noteq> se_id old" for k
      using res view that by (cases "av_sessions (view (w_db s)) k") (auto simp: purged_def change_rows_def)
    ultimately show ?case using 4 u res view by (intro exI [of _ old] exI [of _ w]) auto
  qed (use out in simp_all)
qed

lemma ran_Inr: "\<not> isl (fst r) \<Longrightarrow> \<exists>x s'. r = (Inr x, s')"
  by (cases r; cases "fst r") auto

theorem refresh_exact_witness:
  "\<exists>res s' (old :: SessionProps). Refresh_execute mem_auth_env 1000 1000 ''s2'' ''n'' ''s1'' mem_auth_world = (Inr res, s') \<and>
     se_tokenHash old = ''#s1'' \<and> \<not> Session_isExpired 1000 old"
proof -
  have "\<not> isl (fst (Refresh_execute mem_auth_env 1000 1000 ''s2'' ''n'' ''s1'' mem_auth_world))" by code_simp
  then obtain res s' where run: "Refresh_execute mem_auth_env 1000 1000 ''s2'' ''n'' ''s1'' mem_auth_world = (Inr res, s')"
    using ran_Inr by blast
  have "av_sessions (mem_view (w_db mem_auth_world)) ''s2'' = None" by code_simp
  from refresh_exact [OF mem_auth_env_spec run this] run
  show ?thesis by (auto simp: mem_auth_env_def)
qed

section \<open>Reuse of a refresh token\<close>

definition reuse_error :: app_error where
  "reuse_error = UnauthorizedError ''Refresh token reuse detected. All sessions revoked.''"

text \<open>An action that does not report reuse.\<close>

definition no_reuse :: "('d, 'r, 'a) action \<Rightarrow> bool" where
  "no_reuse m \<longleftrightarrow> (\<forall>s. fst (m s) \<noteq> Inl reuse_error)"

named_theorems no_reuse_intros "actions that do not report reuse"

lemma no_reuse_bind [no_reuse_intros]:
  "no_reuse m \<Longrightarrow> (\<And>x. no_reuse (f x)) \<Longrightarrow> no_reuse (act_bind m f)"
  by (auto simp: no_reuse_def act_bind_def split: prod.split sum.split) (metis fst_conv)+

lemma no_reuse_basic [no_reuse_intros]:
  "no_reuse (act_return x)" "no_reuse (db_read f)" "no_reuse (db_write g)" "no_reuse (db_count c)" "no_reuse (act_io y)"
  by (auto simp: no_reuse_def act_return_def db_read_def db_write_def db_count_def act_io_def act_throw_def
      reuse_error_def split: option.split)

lemma no_reuse_tx [no_reuse_intros]: "no_reuse m \<Longrightarrow> no_reuse (act_tx m)"
  by (auto simp: no_reuse_def act_tx_def split: prod.split sum.split) (metis fst_conv)

lemma no_reuse_throw [no_reuse_intros]: "e \<noteq> reuse_error \<Longrightarrow> no_reuse (act_throw e)"
  by (simp add: no_reuse_def act_throw_def)

lemma no_reuse_if [no_reuse_intros]: "no_reuse m \<Longrightarrow> no_reuse n \<Longrightarrow> no_reuse (if b then m else n)"
  by simp

lemma no_reuse_option [no_reuse_intros]:
  "no_reuse n \<Longrightarrow> (\<And>y. no_reuse (m y)) \<Longrightarrow> no_reuse (case x of None \<Rightarrow> n | Some y \<Rightarrow> m y)"
  by (cases x) auto

lemma no_reuse_pair [no_reuse_intros]: "(\<And>a b. no_reuse (m a b)) \<Longrightarrow> no_reuse (case p of (a, b) \<Rightarrow> m a b)"
  by (cases p) auto

lemma no_reuse_ensure [no_reuse_intros]: "no_reuse (ensure (User_ensureCanLogin now u))"
  by (auto simp: no_reuse_def ensure_def act_throw_def act_return_def User_ensureCanLogin_def reuse_error_def
      split: option.split)

lemma no_reuse_create [no_reuse_intros]: "no_reuse (sum_action (Session_rotate a b c d e f g))"
  by (auto simp: no_reuse_def sum_action_def act_throw_def act_return_def Session_rotate_def Session_create_def
      reuse_error_def split: sum.split)

lemmas auth_repo_defs = user_findById_def user_save_def session_findByTokenHash_def session_findById_def
  session_save_def session_purgeRotationCiphers_def session_revokeAllByUserId_def

lemma no_reuse_refresh_tx: "no_reuse (refresh_tx env now created uuid newRaw raw)"
  unfolding refresh_tx_def refresh_again_def refresh_rotate_def refresh_user_def auth_repo_defs
  by (intro no_reuse_intros)

lemma act_bind_Inl:
  "act_bind m f s = (Inl e, s') \<longleftrightarrow> m s = (Inl e, s') \<or> (\<exists>x s1. m s = (Inr x, s1) \<and> f x s1 = (Inl e, s'))"
  by (auto simp: act_bind_def split: prod.splits sum.splits)

lemma no_reuseD: "no_reuse m \<Longrightarrow> m s \<noteq> (Inl reuse_error, s')"
  unfolding no_reuse_def by (metis fst_conv)

lemma revoke_revokes [simp]: "se_revokedAt (Session_revoke now p) \<noteq> None" "se_userId (Session_revoke now p) = se_userId p"
  by (simp_all add: Session_revoke_def)

lemma revoked_all_revoked:
  assumes "revoked_all userId now m k = Some p" "se_userId p = userId"
  shows "Session_isRevoked p"
proof -
  obtain q where q: "p = (if se_userId q = userId then (Session_revoke now q)\<lparr>se_replacementTokenCipher := None\<rparr> else q)"
    using assms(1) [symmetric] unfolding revoked_all_def by (cases "m k") simp_all
  show ?thesis
  proof (cases "se_userId q = userId")
    case True
    then have "se_revokedAt p = se_revokedAt (Session_revoke now q)" using q by simp
    then show ?thesis unfolding Session_isRevoked_def by simp
  next
    case False
    then show ?thesis using q assms(2) by simp
  qed
qed

lemma refresh_reuse_outcome:
  assumes spec: "auth_db_spec (ae_db env) view"
    and tx: "refresh_tx env now created uuid newRaw raw s = (Inr (RefreshReuse userId), s1)"
  obtains old where "av_sessions (view (w_db s)) (se_id old) = Some old" "se_tokenHash old = ae_tokenHash env raw"
    "Session_isRevoked old" "userId = se_userId old" "s1 = s"
proof (rule refresh_tx_Inr [OF spec tx], goal_cases)
  case (3 old)
  then show ?case using refresh_again_Inr [OF spec 3(6)] 3(1) [of old] by auto
next
  case (4 old)
  have "RefreshReuse userId \<noteq> x" if "refresh_rotate env now created uuid newRaw old s = (Inr x, s1)" for x
    using that by (auto simp: refresh_rotate_def action_simps split: option.splits)
  then show ?case using 4(6) by blast
qed simp_all

text \<open>
  C13: Reuse is answered by revoking everything. When a refresh reports reuse, the token presented was
  that of a revoked session, and the report comes with every session of that user revoked: the
  revocation is not undone by the error, whatever happened in the transaction.
\<close>

theorem reuse_revokes_all:
  assumes "auth_db_spec (ae_db env) view"
    and "Refresh_execute env now created uuid newRaw raw s = (Inl reuse_error, s')"
  shows "\<exists>old. av_sessions (view (w_db s)) (se_id old) = Some old \<and> se_tokenHash old = ae_tokenHash env raw \<and>
    Session_isRevoked old \<and>
    (\<forall>k p. av_sessions (view (w_db s')) k = Some p \<longrightarrow> se_userId p = se_userId old \<longrightarrow> Session_isRevoked p) \<and>
    av_users (view (w_db s')) = av_users (view (w_db s))"
proof -
  obtain outcome s1 where tx: "refresh_tx env now created uuid newRaw raw s = (Inr outcome, s1)"
    and fin: "refresh_finish env now outcome s1 = (Inl reuse_error, s')"
    using assms(2) no_reuseD [OF no_reuse_refresh_tx] unfolding Refresh_execute_def act_bind_Inl by blast
  have other: "no_reuse (login_result env u tok)" for u tok
    unfolding login_result_def by (intro no_reuse_intros)
  have "\<exists>userId. outcome = RefreshReuse userId"
    using fin no_reuseD [OF other, of _ _ s1 s']
    by (cases outcome) (simp_all add: refresh_finish_def act_throw_def reuse_error_def)
  then obtain userId where out: "outcome = RefreshReuse userId" by blast
  from refresh_reuse_outcome [OF assms(1) tx [unfolded out]] obtain old where
    old: "av_sessions (view (w_db s)) (se_id old) = Some old" "se_tokenHash old = ae_tokenHash env raw"
      "Session_isRevoked old" "userId = se_userId old" "s1 = s" by blast
  have revoke: "no_reuse (session_revokeAllByUserId (ae_db env) userId now)"
    unfolding auth_repo_defs by (intro no_reuse_intros)
  obtain x where "session_revokeAllByUserId (ae_db env) userId now s = (Inr x, s')"
    using fin no_reuseD [OF revoke] old(5) unfolding out refresh_finish_def RefreshOutcome.case act_bind_Inl act_throw_def
    by blast
  from revoke_all_view [OF assms(1) this]
  have "view (w_db s') = av_sessions_update (revoked_all (se_userId old) now) (view (w_db s))" using old(4) by simp
  then show ?thesis using old(1-3) revoked_all_revoked by (intro exI [of _ old]) auto
qed

definition mem_reused :: "(auth_mem, unit) world" where
  "mem_reused = mem_auth_world\<lparr>w_db := (w_db mem_auth_world)\<lparr>am_sessions :=
     [(''s1'', (mem_session ''s1'' 0)\<lparr>se_revokedAt := Some 10\<rparr>), (''s3'', mem_session ''s3'' 20)]\<rparr>\<rparr>"

theorem reuse_revokes_all_witness:
  "\<exists>s' (old :: SessionProps). Refresh_execute mem_auth_env 1000 1000 ''s2'' ''n'' ''s1'' mem_reused = (Inl reuse_error, s') \<and>
     Session_isRevoked old \<and>
     (\<exists>p. av_sessions (mem_view (w_db mem_reused)) ''s3'' = Some p \<and> \<not> Session_isRevoked p)"
proof -
  have "fst (Refresh_execute mem_auth_env 1000 1000 ''s2'' ''n'' ''s1'' mem_reused) = Inl reuse_error" by code_simp
  then obtain s' where run: "Refresh_execute mem_auth_env 1000 1000 ''s2'' ''n'' ''s1'' mem_reused = (Inl reuse_error, s')"
    by (metis prod.collapse)
  have "map_option Session_isRevoked (av_sessions (mem_view (w_db mem_reused)) ''s3'') = Some False" by code_simp
  with reuse_revokes_all [OF mem_auth_env_spec run] run show ?thesis by auto
qed

end
