(* ===== verification/AuthSessions.thy ===== *)
theory AuthSessions
  imports AuthSafety
begin

text \<open>
  What each authentication call does to the active sessions of a user: most open none, a login makes
  room for the one it opens, and a refresh replaces one. \<^verbatim>\<open>SessionOverlap\<close> bounds their number over runs.
\<close>

section \<open>Calls that open no session\<close>

definition active_ids :: "string \<Rightarrow> time \<Rightarrow> 'a auth_view_scheme \<Rightarrow> string set" where
  "active_ids userId now v = matching (session_active userId now) (av_sessions v)"

definition shrinks :: "time \<Rightarrow> ('d \<Rightarrow> 'v auth_view_scheme) \<Rightarrow> ('d, 'r, 'a) action \<Rightarrow> bool" where
  "shrinks now view m \<longleftrightarrow> (\<forall>userId X. db_keeps (\<lambda>d. active_ids userId now (view d) \<subseteq> X) m)"

lemma shrinksD:
  assumes "shrinks now view m"
  shows "active_ids userId now (view (w_db (snd (m s)))) \<subseteq> active_ids userId now (view (w_db s))"
  using assms unfolding shrinks_def db_keeps_def by blast

named_theorems shrinks_intros "actions that open no session"

lemma shrinks_bind [shrinks_intros]:
  "shrinks now view m \<Longrightarrow> (\<And>x. shrinks now view (f x)) \<Longrightarrow> shrinks now view (act_bind m f)"
  unfolding shrinks_def by (blast intro: db_keeps_bind)

lemma shrinks_basic [shrinks_intros]:
  "shrinks now view (act_return x)" "shrinks now view (act_throw e)" "shrinks now view (db_read f)"
  "shrinks now view (act_io y)" "shrinks now view (act_require b e)" "shrinks now view (ensure err)"
  "shrinks now view (found_or e' z)" "shrinks now view (sum_action w)" "shrinks now view (invalidateUser env userId)"
  unfolding shrinks_def by (intro allI keeps_intros)+

lemma shrinks_tx [shrinks_intros]: "shrinks now view m \<Longrightarrow> shrinks now view (act_tx m)"
  unfolding shrinks_def by (blast intro: keeps_tx)

lemma shrinks_if [shrinks_intros]: "shrinks now view m \<Longrightarrow> shrinks now view n \<Longrightarrow> shrinks now view (if b then m else n)"
  by simp

lemma shrinks_option [shrinks_intros]:
  "shrinks now view n \<Longrightarrow> (\<And>y. shrinks now view (m y)) \<Longrightarrow> shrinks now view (case x of None \<Rightarrow> n | Some y \<Rightarrow> m y)"
  by (cases x) auto

lemma shrinks_pair [shrinks_intros]:
  "(\<And>a b. shrinks now view (m a b)) \<Longrightarrow> shrinks now view (case p of (a, b) \<Rightarrow> m a b)"
  by (cases p) auto

lemma shrinks_let [shrinks_intros]: "shrinks now view (m x) \<Longrightarrow> shrinks now view (let y = x in m y)"
  by (simp add: Let_def)

text \<open>A write: it is enough to look at what it does when it succeeds.\<close>

lemma shrinks_write:
  fixes m :: "('d, 'r, unit) action"
  assumes "m = db_write f"
    and "\<And>s s' userId. m s = (Inr (), s') \<Longrightarrow> active_ids userId now (view (w_db s')) \<subseteq> active_ids userId now (view (w_db s))"
  shows "shrinks now view m"
proof -
  have "active_ids userId now (view d') \<subseteq> active_ids userId now (view d)" if "f d = Some d'" for d d' userId
    using assms(2) [of "\<lparr>w_db = d, w_redis = undefined\<rparr>" "\<lparr>w_db = d', w_redis = undefined\<rparr>" userId] that
    by (simp add: assms(1) db_write_def)
  then show ?thesis unfolding shrinks_def assms(1) by (intro allI keeps_write) blast
qed

lemma shrinks_count:
  assumes "\<And>d n d' userId. f d = Some (n, d') \<Longrightarrow> active_ids userId now (view d') \<subseteq> active_ids userId now (view d)"
  shows "shrinks now view (db_count f)"
  unfolding shrinks_def using assms by (intro allI keeps_count) blast

lemma active_sessions_update:
  "active_ids userId now (av_sessions_update f v) = matching (session_active userId now) (f (av_sessions v))"
  by (simp add: active_ids_def)

lemma active_other [simp]:
  "active_ids userId now (av_users_update f v) = active_ids userId now v"
  "active_ids userId now (av_resets_update g v) = active_ids userId now v"
  "active_ids userId now (av_emails_update g v) = active_ids userId now v"
  by (simp_all add: active_ids_def)

lemma shrinks_user_save [shrinks_intros]:
  "auth_db_spec db view \<Longrightarrow> shrinks now view (user_save db u)"
  by (rule shrinks_write, rule user_save_def) (simp add: user_save_view)

lemma token_writes_view:
  assumes "auth_db_spec db view"
  shows "reset_save db t s = (Inr (), s') \<Longrightarrow> \<exists>f. view (w_db s') = av_resets_update f (view (w_db s))"
    and "reset_deleteAllByUserId db u s = (Inr (), s') \<Longrightarrow> \<exists>f. view (w_db s') = av_resets_update f (view (w_db s))"
    and "email_save db t s = (Inr (), s') \<Longrightarrow> \<exists>f. view (w_db s') = av_emails_update f (view (w_db s))"
    and "email_deleteAllByUserId db u s = (Inr (), s') \<Longrightarrow> \<exists>f. view (w_db s') = av_emails_update f (view (w_db s))"
proof -
  note R = auth_tables(3) [OF assms] and E = auth_tables(4) [OF assms]
  show "\<exists>f. view (w_db s') = av_resets_update f (view (w_db s))" if "reset_save db t s = (Inr (), s')"
    using that table_upsert [OF R, of t "tk_id t" "\<lambda>row. row\<lparr>tk_usedAt := tk_usedAt t\<rparr>" "w_db s" "w_db s'"]
    by (auto simp: reset_save_def action_simps)
  show "\<exists>f. view (w_db s') = av_resets_update f (view (w_db s))" if "reset_deleteAllByUserId db u s = (Inr (), s')"
    using that table_deleteMany [OF R, of "\<lambda>t. tk_userId t = u" "w_db s" "w_db s'"]
    by (auto simp: reset_deleteAllByUserId_def action_simps)
  show "\<exists>f. view (w_db s') = av_emails_update f (view (w_db s))" if "email_save db t s = (Inr (), s')"
    using that table_upsert [OF E, of t "tk_id t" "\<lambda>row. row\<lparr>tk_tokenHash := tk_tokenHash t,
      tk_expiresAt := tk_expiresAt t, tk_usedAt := tk_usedAt t\<rparr>" "w_db s" "w_db s'"]
    by (auto simp: email_save_def action_simps)
  show "\<exists>f. view (w_db s') = av_emails_update f (view (w_db s))" if "email_deleteAllByUserId db u s = (Inr (), s')"
    using that table_deleteMany [OF E, of "\<lambda>t. tk_userId t = u" "w_db s" "w_db s'"]
    by (auto simp: email_deleteAllByUserId_def action_simps)
qed

lemma shrinks_tokens [shrinks_intros]:
  assumes "auth_db_spec db view"
  shows "shrinks now view (reset_save db t)" "shrinks now view (reset_deleteAllByUserId db u)"
    "shrinks now view (email_save db t)" "shrinks now view (email_deleteAllByUserId db u)"
  by (rule shrinks_write, rule reset_save_def reset_deleteAllByUserId_def email_save_def email_deleteAllByUserId_def,
      fastforce dest: token_writes_view [OF assms])+

lemma shrinks_audit [shrinks_intros]: "auth_db_spec db view \<Longrightarrow> shrinks now view (audit_create db e)"
  unfolding shrinks_def audit_create_def
  by (intro allI keeps_write) (metis auth_db_spec_def)

lemma shrinks_updateMany:
  assumes T: "table_spec T se_id av_sessions av_sessions_update view"
    and "\<And>r. se_id (u r) = se_id r" "\<And>r userId. session_active userId now (u r) \<Longrightarrow> session_active userId now r"
  shows "shrinks now view (db_count (tb_updateMany T P u))"
proof (rule shrinks_count)
  fix d n d' userId
  assume "tb_updateMany T P u d = Some (n, d')"
  from table_updateMany(2) [OF T assms(2) this] show "active_ids userId now (view d') \<subseteq> active_ids userId now (view d)"
    using assms(3) by (auto simp: active_ids_def matching_def change_rows_def split: if_splits)
qed

lemma shrinks_revokeAll [shrinks_intros]:
  "auth_db_spec db view \<Longrightarrow> shrinks now view (session_revokeAllByUserId db userId ts)"
  unfolding session_revokeAllByUserId_def
  by (intro shrinks_intros shrinks_updateMany auth_tables(2); simp add: session_active_def)

lemma shrinks_purge [shrinks_intros]:
  "auth_db_spec db view \<Longrightarrow> shrinks now view (session_purgeRotationCiphers db userId ts)"
  unfolding session_purgeRotationCiphers_def
  by (intro shrinks_updateMany auth_tables(2); simp add: session_active_def)

lemma shrinks_save_revoked:
  assumes "auth_db_spec db view" "se_revokedAt p \<noteq> None"
  shows "shrinks now view (session_save db p)"
proof (rule shrinks_write, rule session_save_def)
  fix userId s s'
  assume "session_save db p s = (Inr (), s')"
  from session_save_view [OF assms(1) this] show "active_ids userId now (view (w_db s')) \<subseteq> active_ids userId now (view (w_db s))"
    using assms(2) by (auto simp: active_sessions_update active_ids_def [of _ _ "view _"] matching_def session_active_def saved_session_def
        split: if_splits option.splits)
qed

text \<open>What a revocation is: an action that may run between any two others.\<close>

lemma shrinks_bump [shrinks_intros]:
  "auth_db_spec (ae_db env) view \<Longrightarrow> shrinks now view (bump_version env ts userId)"
  unfolding bump_version_def user_findById_def by (intro shrinks_intros)

lemma shrinks_logout:
  "auth_db_spec (ae_db env) view \<Longrightarrow> shrinks now view (Logout_execute env ts raw)"
  unfolding Logout_execute_def session_findByTokenHash_def
  by (intro shrinks_intros shrinks_save_revoked; simp add: Session_revoke_def)

lemma shrinks_logoutAll:
  "auth_db_spec (ae_db env) view \<Longrightarrow> shrinks now view (LogoutAll_execute env ts userId)"
  unfolding LogoutAll_execute_def by (intro shrinks_intros)

lemma shrinks_register:
  "auth_db_spec (ae_db env) view \<Longrightarrow>
     shrinks now view (Register_execute env valid created uuid tokenId raw email password firstName lastName)"
  unfolding Register_execute_def send_verification_def user_findByEmail_def
  by (intro shrinks_intros)

lemma shrinks_resend:
  "auth_db_spec (ae_db env) view \<Longrightarrow> shrinks now view (resend_verification env created tokenId raw email)"
  unfolding resend_verification_def send_verification_def user_findByEmail_def by (intro shrinks_intros)

lemma shrinks_request_reset:
  "auth_db_spec (ae_db env) view \<Longrightarrow> shrinks now view (RequestPasswordReset_execute env created tokenId raw email)"
  unfolding RequestPasswordReset_execute_def user_findByEmail_def by (intro shrinks_intros)

lemma shrinks_reset:
  "auth_db_spec (ae_db env) view \<Longrightarrow> shrinks now view (ResetPassword_execute env ts rawToken newPassword)"
  unfolding ResetPassword_execute_def reset_findByHash_def user_findById_def by (intro shrinks_intros)

lemma shrinks_change:
  "auth_db_spec (ae_db env) view \<Longrightarrow> shrinks now view (change_commit env ts checked)"
  unfolding change_commit_def by (intro shrinks_intros)

lemma shrinks_profile:
  "auth_db_spec (ae_db env) view \<Longrightarrow> shrinks now view (UpdateProfile_route env ts userId firstName lastName)"
  unfolding UpdateProfile_route_def user_findById_def by (intro shrinks_intros)

lemma shrinks_refresh_finish:
  "auth_db_spec (ae_db env) view \<Longrightarrow> shrinks now view (refresh_finish env ts outcome)"
  unfolding refresh_finish_def login_result_def
  by (cases outcome) (simp_all, (intro shrinks_intros; assumption)+)

lemma shrinks_login_failed:
  "auth_db_spec (ae_db env) view \<Longrightarrow> shrinks now view (login_failed env ts user)"
  unfolding login_failed_def by (intro shrinks_intros)

section \<open>Calls that open one\<close>

lemma finite_active: "auth_db_spec db view \<Longrightarrow> finite (active_ids userId now (view d))"
  unfolding active_ids_def matching_def
  by (rule finite_subset [OF _ table_finite [OF auth_tables(2)]]) auto

lemma active_later: "now \<le> now' \<Longrightarrow> active_ids userId now' v \<subseteq> active_ids userId now v"
  by (auto simp: active_ids_def matching_def session_active_def)

lemma count_active_Inr:
  assumes "auth_db_spec db view" "session_countActiveByUserId db userId now s = (Inr n, s')"
  shows "s' = s" "n = card (active_ids userId now (view (w_db s)))"
  using assms(2) table_count [OF auth_tables(2) [OF assms(1)], of "session_active userId now" "w_db s" n]
  by (auto simp: session_countActiveByUserId_def active_ids_def action_simps)

lemma revoke_oldest_Inr:
  assumes "auth_db_spec db view" "session_revokeOldestActiveSession db userId now s = (Inr (), s')"
  obtains "s' = s" "active_ids userId now (view (w_db s)) = {}"
  | p where "av_sessions (view (w_db s)) (se_id p) = Some p" "session_active userId now p"
      "\<And>q. av_sessions (view (w_db s)) (se_id q) = Some q \<Longrightarrow> session_active userId now q \<Longrightarrow> se_createdAt p \<le> se_createdAt q"
      "view (w_db s') = av_sessions_update (\<lambda>m. m(se_id p \<mapsto> p\<lparr>se_revokedAt := Some now\<rparr>)) (view (w_db s))"
proof -
  note T = auth_tables(2) [OF assms(1)]
  obtain x where found: "tb_findOldest (ad_sessions db) (session_active userId now) se_createdAt (w_db s) = Some x"
    and rest: "(case x of Some s \<Rightarrow> db_write (tb_update (ad_sessions db) (se_id s) (\<lambda>s. s\<lparr>se_revokedAt := Some now\<rparr>))
       | None \<Rightarrow> act_return ()) s = (Inr (), s')"
    using assms(2) by (auto simp: session_revokeOldestActiveSession_def action_simps)
  note x = table_findOldest [OF T found]
  show ?thesis
  proof (cases x)
    case None
    then show ?thesis using rest x(1) that(1) by (simp add: first_of_def active_ids_def action_simps)
  next
    case (Some p)
    then obtain d where d: "tb_update (ad_sessions db) (se_id p) (\<lambda>s. s\<lparr>se_revokedAt := Some now\<rparr>) (w_db s) = Some d"
      "s' = s\<lparr>w_db := d\<rparr>"
      using rest by (auto simp: action_simps)
    have p: "av_sessions (view (w_db s)) (se_id p) = Some p" "session_active userId now p"
      using x(1) Some by (simp_all add: first_of_def)
    have "view d = av_sessions_update (change_row (se_id p) (\<lambda>s. s\<lparr>se_revokedAt := Some now\<rparr>)) (view (w_db s))"
      by (rule table_update(2) [OF T _ d(1)]) simp
    also have "\<dots> = av_sessions_update (\<lambda>m. m(se_id p \<mapsto> p\<lparr>se_revokedAt := Some now\<rparr>)) (view (w_db s))"
      by (rule sessions_update_cong) (simp add: change_row_def p)
    finally show ?thesis using that(2) [OF p] x(2) [OF Some] d(2) by simp
  qed
qed

lemma login_success_Inr:
  assumes "login_success env now created uuid raw ipAddress userAgent user s = (Inr res, s')"
  obtains s1 n s2 s3 p where "user_save (ae_db env) (User_resetLoginAttempts now user) s = (Inr (), s1)"
    "session_countActiveByUserId (ae_db env) (us_id user) now s1 = (Inr n, s2)"
    "(if n \<ge> MAX_SESSIONS then session_revokeOldestActiveSession (ae_db env) (us_id user) now else act_return ()) s2 = (Inr (), s3)"
    "Session_create uuid created (us_id user) (ae_tokenHash env raw) (ae_refreshTTL env) ipAddress userAgent = Inr p"
    "session_save (ae_db env) p s3 = (Inr (), s')"
    "lr_refreshToken res = raw" "lr_id res = us_id user"
proof -
  have id: "us_id (User_resetLoginAttempts now user) = us_id user" by (simp add: User_resetLoginAttempts_def)
  obtain x1 s1 n s2 x3 s3 p x5 s4 where runs: "user_save (ae_db env) (User_resetLoginAttempts now user) s = (Inr x1, s1)"
    "session_countActiveByUserId (ae_db env) (us_id user) now s1 = (Inr n, s2)"
    "(if n \<ge> MAX_SESSIONS then session_revokeOldestActiveSession (ae_db env) (us_id user) now else act_return ()) s2 = (Inr x3, s3)"
    "Session_create uuid created (us_id user) (ae_tokenHash env raw) (ae_refreshTTL env) ipAddress userAgent = Inr p"
    "session_save (ae_db env) p s3 = (Inr x5, s4)"
    "login_result env (User_resetLoginAttempts now user) raw s4 = (Inr res, s')"
    using assms unfolding login_success_def Let_def act_tx_Inr act_bind_Inr sum_action_Inr id by blast
  from login_result_Inr [OF runs(6)] show ?thesis using that [of s1 n s2 s3 p] runs(1-5) id by simp
qed

lemma add_session:
  assumes spec: "auth_db_spec db view"
    and "Session_create uuid created userId h ttl ip ua = Inr p" "session_save db p s = (Inr (), s')"
    and "uuid \<notin> dom (av_sessions (view (w_db s)))"
  shows "active_ids U now (view (w_db s')) \<subseteq>
    (if U = userId then insert uuid (active_ids U now (view (w_db s))) else active_ids U now (view (w_db s)))"
proof -
  have p: "se_id p = uuid" "se_userId p = userId" using assms(2) by (auto simp: Session_create_def split: if_splits)
  show ?thesis
    using session_save_view [OF spec assms(3)] p assms(4)
    by (auto simp: active_sessions_update active_ids_def [of _ _ "view (w_db s)"] matching_def session_active_def
        saved_session_def domIff split: if_splits option.splits)
qed

lemma purged_row:
  assumes "purged userId olderThan m k = Some p"
  obtains q where "m k = Some q" "\<And>U now. session_active U now p \<longleftrightarrow> session_active U now q"
proof (cases "m k")
  case (Some q)
  then have "p = q \<or> p = q\<lparr>se_replacementTokenCipher := None\<rparr>"
    using assms by (auto simp: purged_def change_rows_def split: if_splits)
  then have "session_active U now p \<longleftrightarrow> session_active U now q" for U now by (auto simp: session_active_def)
  then show ?thesis using that Some by blast
qed (use assms in \<open>simp add: purged_def change_rows_def\<close>)

lemma tx_error_rolls_back: "act_tx m s = (Inl e, s') \<Longrightarrow> w_db s' = w_db s"
  by (auto simp: act_tx_def split: prod.splits sum.splits)

end
