(* ===== verification/AuthRotation.thy ===== *)
theory AuthRotation
  imports AuthSessions
begin

text \<open>
  A refresh that repeats another (two tabs, a lost answer) and a refresh with the token of a session
  that was revoked without a successor.
\<close>

section \<open>Actions that only fail with the database\<close>

definition only_rejects :: "('d, 'r, 'a) action \<Rightarrow> bool" where
  "only_rejects m \<longleftrightarrow> (\<forall>s e s'. m s = (Inl e, s') \<longrightarrow> e = Rejected)"

named_theorems rejects_intros "actions that fail only when the database or a library call fails"

lemma rejects_basic [rejects_intros]:
  "only_rejects (act_return x)" "only_rejects (db_read f)" "only_rejects (db_write g)" "only_rejects (db_count h)"
  "only_rejects (act_io y)"
  by (auto simp: only_rejects_def act_return_def db_read_def db_write_def db_count_def act_io_def act_throw_def split: option.splits)

lemma rejects_bind [rejects_intros]: "only_rejects m \<Longrightarrow> (\<And>x. only_rejects (f x)) \<Longrightarrow> only_rejects (act_bind m f)"
  unfolding only_rejects_def act_bind_Inl by blast

lemma rejects_login_result: "only_rejects (login_result env u tok)"
  unfolding login_result_def by (intro rejects_intros)

lemma rejects_revoke: "only_rejects (session_revokeAllByUserId db userId now)"
  unfolding session_revokeAllByUserId_def by (intro rejects_intros)

text \<open>A value with a property, the same tables, or a rejected statement.\<close>

definition yields :: "('d \<Rightarrow> 'v) \<Rightarrow> 'v \<Rightarrow> ('a \<Rightarrow> bool) \<Rightarrow> ('d, 'r, 'a) action \<Rightarrow> bool" where
  "yields view v P m \<longleftrightarrow> (\<forall>s. view (w_db s) = v \<longrightarrow>
     (case m s of (Inl e, s') \<Rightarrow> e = Rejected | (Inr x, s') \<Rightarrow> P x \<and> view (w_db s') = v))"

lemma yields_bind:
  fixes m :: "('d, 'r, 'a) action"
  assumes "yields view v P m" "\<And>x. P x \<Longrightarrow> yields view v Q (f x)"
  shows "yields view v Q (act_bind m f)"
  unfolding yields_def
proof (intro allI impI)
  fix s :: "('d, 'r) world"
  assume v: "view (w_db s) = v"
  show "case act_bind m f s of (Inl e, s') \<Rightarrow> e = Rejected | (Inr x, s') \<Rightarrow> Q x \<and> view (w_db s') = v"
  proof (cases "m s")
    case (Pair x s1)
    show ?thesis
    proof (cases x)
      case (Inl e)
      then show ?thesis using Pair assms(1) v by (auto simp: act_bind_def yields_def split: prod.splits sum.splits)
    next
      case (Inr y)
      then have "P y" "view (w_db s1) = v"
        using Pair assms(1) v by (auto simp: yields_def split: prod.splits sum.splits dest!: spec [of _ s])
      then show ?thesis using assms(2) [of y] Pair Inr by (auto simp: act_bind_def yields_def)
    qed
  qed
qed

lemma yields_return: "P x \<Longrightarrow> yields view v P (act_return x)"
  by (simp add: yields_def act_return_def)

lemma yields_io: "(\<And>z. y = Some z \<Longrightarrow> P z) \<Longrightarrow> yields view v P (act_io y)"
  by (cases y) (auto simp: yields_def act_return_def act_throw_def act_io_def)

lemma yields_read: "(\<And>d x. view d = v \<Longrightarrow> f d = Some x \<Longrightarrow> P x) \<Longrightarrow> yields view v P (db_read f)"
  by (auto simp: yields_def db_read_def split: option.split)

lemma yields_tx: "yields view v P m \<Longrightarrow> yields view v P (act_tx m)"
  by (auto simp: yields_def act_tx_def split: prod.split sum.split)

text \<open>No two sessions have the same token.\<close>

definition unique_tokens :: "'a auth_view_scheme \<Rightarrow> bool" where
  "unique_tokens v \<longleftrightarrow> (\<forall>i j a b. av_sessions v i = Some a \<and> av_sessions v j = Some b \<and> se_tokenHash a = se_tokenHash b \<longrightarrow> i = j)"

lemma yields_session:
  assumes spec: "auth_db_spec db view" and "unique_tokens v" "av_sessions v i = Some p"
  shows "yields view v (\<lambda>x. x = Some p) (session_findByTokenHash db (se_tokenHash p))"
  unfolding session_findByTokenHash_def
proof (rule yields_read)
  fix d x
  assume d: "view d = v" and found: "tb_find (ad_sessions db) (\<lambda>s. se_tokenHash s = se_tokenHash p) d = Some x"
  have "first_of se_id (\<lambda>s. se_tokenHash s = se_tokenHash p) (av_sessions v) x"
    using table_find [OF auth_tables(2) [OF spec] found] d by simp
  then show "x = Some p"
    using assms(2,3) by (cases x) (auto simp: first_of_def matching_def unique_tokens_def, metis option.inject)
qed

lemma yields_by_id:
  assumes spec: "auth_db_spec db view" and "av_sessions v i = Some p"
  shows "yields view v (\<lambda>x. x = Some p) (session_findById db i)"
  unfolding session_findById_def
proof (rule yields_read)
  fix d x
  assume d: "view d = v" and found: "tb_find (ad_sessions db) (\<lambda>s. se_id s = i) d = Some x"
  have "session_findById db i \<lparr>w_db = d, w_redis = ()\<rparr> = (Inr x, \<lparr>w_db = d, w_redis = ()\<rparr>)"
    by (simp add: session_findById_def db_read_def found)
  from session_by_id(2) [OF spec this] show "x = Some p" using d assms(2) by simp
qed

lemma yields_user:
  assumes spec: "auth_db_spec (ae_db env) view" and "av_users v i = Some u" "User_ensureCanLogin now u = None"
  shows "yields view v (\<lambda>x. x = Some u) (refresh_user env now i)"
  unfolding refresh_user_def
proof (rule yields_bind)
  show "yields view v (\<lambda>x. x = Some u) (user_findById (ae_db env) i)" unfolding user_findById_def
  proof (rule yields_read)
    fix d x
    assume d: "view d = v" and found: "tb_find (ad_users (ae_db env)) (\<lambda>u. us_id u = i) d = Some x"
    have "user_findById (ae_db env) i \<lparr>w_db = d, w_redis = ()\<rparr> = (Inr x, \<lparr>w_db = d, w_redis = ()\<rparr>)"
      by (simp add: user_findById_def db_read_def found)
    from user_by_id(2) [OF spec this] show "x = Some u" using d assms(2) by simp
  qed
  fix x assume "x = Some u"
  then show "yields view v (\<lambda>x. x = Some u) (case x of None \<Rightarrow> act_return None
     | Some u \<Rightarrow> act_bind (ensure (User_ensureCanLogin now u)) (\<lambda>_. act_return (Some u)))"
    using assms(3) by (auto simp: ensure_def intro!: yields_bind [where P = "\<lambda>_. True"] yields_return)
qed

section \<open>The token of a rotated session\<close>

lemma again_yields:
  assumes spec: "auth_db_spec (ae_db env) view"
    and rotated: "Session_wasRotatedWithin now REFRESH_ROTATION_GRACE_MS old"
    and succ: "av_sessions v (the (se_replacedById old)) = Some p" "Session_isValid now p" "ae_tokenHash env raw = se_tokenHash p"
    and raw: "ae_decrypt env (the (se_replacementTokenCipher old)) = Some raw" "raw \<noteq> []"
    and user: "av_users v (se_userId old) = Some u" "User_ensureCanLogin now u = None"
  shows "yields view v (\<lambda>x. x = RefreshOk u raw) (refresh_again env now old)"
  unfolding refresh_again_def if_P [OF rotated]
  by (rule yields_bind [OF yields_by_id [OF spec succ(1)]])
    (auto simp: raw succ intro!: yields_bind [OF yields_user [OF spec user]] yields_return)

lemma ensureCanLogin_later:
  "User_ensureCanLogin now u = None \<Longrightarrow> now \<le> now' \<Longrightarrow> User_ensureCanLogin now' u = None"
  by (auto simp: User_ensureCanLogin_def split: if_splits option.splits)

lemma refresh_rotation:
  assumes spec: "auth_db_spec (ae_db env) view" and unique: "unique_tokens (view (w_db s))"
    and old: "av_sessions (view (w_db s)) i = Some old" "se_tokenHash old = ae_tokenHash env raw" "\<not> Session_isRevoked old"
    and run: "Refresh_execute env now created uuid newRaw raw s = (Inr res, s')"
    and fresh: "av_sessions (view (w_db s)) uuid = None"
  obtains u cipher where "lr_refreshToken res = newRaw" "av_users (view (w_db s)) (se_userId old) = Some u"
    "User_ensureCanLogin now u = None" "ae_encrypt env newRaw = Some cipher"
    "view (w_db s') = av_sessions_update (\<lambda>m. purged (se_userId old) (now - REFRESH_ROTATION_GRACE_MS)
         (m(se_id old \<mapsto> rotated now uuid cipher old, uuid \<mapsto> successor_of env created uuid newRaw old))) (view (w_db s))"
proof -
  obtain outcome s1 where tx: "refresh_tx env now created uuid newRaw raw s = (Inr outcome, s1)"
    and fin: "refresh_finish env now outcome s1 = (Inr res, s')"
    using run unfolding Refresh_execute_def act_bind_Inr by blast
  from fin obtain w tok where out: "outcome = RefreshOk w tok" and res: "login_result env w tok s1 = (Inr res, s')"
    by (auto simp: refresh_finish_def action_simps split: RefreshOutcome.splits)
  note res = login_result_Inr [OF res]
  have same: "p = old" if "av_sessions (view (w_db s)) (se_id p) = Some p" "se_tokenHash p = ae_tokenHash env raw" for p
    using that old unique unfolding unique_tokens_def by (metis option.inject)
  show ?thesis
  proof (rule refresh_tx_Inr [OF spec tx], goal_cases)
    case (3 p)
    then show ?case using same old(3) by blast
  next
    case (4 p)
    have p: "p = old" by (rule same [OF 4(1,2)])
    from refresh_rotate_Inr [OF spec 4(5,1,4) fresh] out res show ?case unfolding p by (auto intro: that)
  qed (use out in simp_all)
qed

text \<open>
  C27: Two refreshes with the same token within thirty seconds end in the same session: the second one gives the
  refresh token of the first and leaves the tables as they are, it is never taken for reuse. A
  refresh in between the two with the new token would end that (the successor must still be active).
\<close>

theorem refresh_twice_same:
  assumes "auth_db_spec (ae_db env) view" and "unique_tokens (view (w_db s))" and "unique_tokens (view (w_db s'))"
    and "av_sessions (view (w_db s)) i = Some old" "se_tokenHash old = ae_tokenHash env raw" "\<not> Session_isRevoked old"
    and "av_sessions (view (w_db s)) uuid = None"
    and "Refresh_execute env now created uuid newRaw raw s = (Inr res, s')"
    and "\<And>c. ae_encrypt env newRaw = Some c \<Longrightarrow> c \<noteq> [] \<and> ae_decrypt env c = Some newRaw" "newRaw \<noteq> []" "uuid \<noteq> []"
    and "now \<le> now'" "now' - now \<le> REFRESH_ROTATION_GRACE_MS" "now' < se_expiresAt old" "now' < created + ae_refreshTTL env"
    and "Refresh_execute env now' created' uuid' newRaw' raw s' = (r, s'')"
  shows "r = Inl Rejected \<or>
    (\<exists>res'. r = Inr res' \<and> lr_refreshToken res' = lr_refreshToken res \<and> view (w_db s'') = view (w_db s'))"
proof (rule refresh_rotation [OF assms(1,2,4,5,6,8,7)])
  fix u cipher
  let ?old = "rotated now uuid cipher old"
  let ?succ = "successor_of env created uuid newRaw old"
  let ?v = "view (w_db s')"
  assume res: "lr_refreshToken res = newRaw" and u: "av_users (view (w_db s)) (se_userId old) = Some u"
    "User_ensureCanLogin now u = None" and c: "ae_encrypt env newRaw = Some cipher"
    and v: "?v = av_sessions_update (\<lambda>m. purged (se_userId old) (now - REFRESH_ROTATION_GRACE_MS)
         (m(se_id old \<mapsto> ?old, uuid \<mapsto> ?succ))) (view (w_db s))"
  have i: "se_id old = i" by (rule session_id_key [OF assms(1,4)])
  have ne: "uuid \<noteq> i" using assms(4,7) by auto
  have rows: "av_sessions ?v i = Some ?old" "av_sessions ?v uuid = Some ?succ"
    using ne by (auto simp: v i purged_def change_rows_def rotated_def successor_of_def REFRESH_ROTATION_GRACE_MS_def)
  have h: "se_tokenHash ?old = ae_tokenHash env raw" using assms(5) by (simp add: rotated_def)
  have again: "yields view ?v (\<lambda>x. x = RefreshOk u newRaw) (refresh_again env now' ?old)"
  proof (rule again_yields [OF assms(1)])
    show "Session_wasRotatedWithin now' REFRESH_ROTATION_GRACE_MS ?old"
      using assms(9) [OF c] assms(11,13) by (simp add: Session_wasRotatedWithin_def rotated_def truthy_def)
    show "av_sessions ?v (the (se_replacedById ?old)) = Some ?succ" using rows(2) by (simp add: rotated_def)
    show "Session_isValid now' ?succ" using assms(15)
      by (simp add: Session_isValid_def Session_isRevoked_def Session_isExpired_def successor_of_def)
    show "ae_tokenHash env newRaw = se_tokenHash ?succ" by (simp add: successor_of_def)
    show "ae_decrypt env (the (se_replacementTokenCipher ?old)) = Some newRaw" using assms(9) [OF c] by (simp add: rotated_def)
    show "newRaw \<noteq> []" by (rule assms(10))
    show "av_users ?v (se_userId ?old) = Some u" using u(1) by (simp add: v rotated_def)
    show "User_ensureCanLogin now' u = None" by (rule ensureCanLogin_later [OF u(2) assms(12)])
  qed
  have state: "\<not> Session_isExpired now' ?old" "Session_isRevoked ?old"
    using assms(14) by (simp_all add: Session_isExpired_def Session_isRevoked_def rotated_def)
  have "yields view ?v (\<lambda>x. x = RefreshOk u newRaw) (refresh_tx env now' created' uuid' newRaw' raw)"
    unfolding refresh_tx_def
    by (rule yields_tx, rule yields_bind [OF yields_session [OF assms(1,3) rows(1), unfolded h]])
      (simp add: state again)
  moreover have "yields view ?v (\<lambda>x. lr_refreshToken x = newRaw) (refresh_finish env now' x)" if "x = RefreshOk u newRaw" for x
    unfolding that refresh_finish_def RefreshOutcome.case login_result_def
    by (rule yields_bind [where P = "\<lambda>_. True"]) (auto intro: yields_io yields_return)
  ultimately have "yields view ?v (\<lambda>x. lr_refreshToken x = newRaw) (Refresh_execute env now' created' uuid' newRaw' raw)"
    unfolding Refresh_execute_def by (rule yields_bind)
  from this [unfolded yields_def, rule_format, OF refl] show ?thesis
    unfolding assms(16) using res by (cases r) simp_all
qed

lemma purged_token:
  "purged userId olderThan m k = Some p \<Longrightarrow> \<exists>q. m k = Some q \<and> se_tokenHash p = se_tokenHash q"
  by (auto simp: purged_def change_rows_def)

lemma mem_sessions_row:
  "av_sessions (mem_view (w_db mem_auth_world)) k = Some p \<longleftrightarrow> k = ''s1'' \<and> p = mem_session ''s1'' 0"
  by (auto simp: mem_auth_world_def mem_view_def rows_of_def mem_session_def)

theorem refresh_twice_same_witness:
  "\<exists>res s' res' s''. Refresh_execute mem_auth_env 1000 1000 ''s2'' ''n'' ''s1'' mem_auth_world = (Inr res, s') \<and>
     Refresh_execute mem_auth_env 20000 20000 ''s3'' ''m'' ''s1'' s' = (Inr res', s'') \<and>
     lr_refreshToken res' = lr_refreshToken res"
proof -
  have "\<not> isl (fst (Refresh_execute mem_auth_env 1000 1000 ''s2'' ''n'' ''s1'' mem_auth_world))" by code_simp
  from ran_Inr [OF this] obtain res s' where
    run: "Refresh_execute mem_auth_env 1000 1000 ''s2'' ''n'' ''s1'' mem_auth_world = (Inr res, s')" by blast
  obtain r s'' where again: "Refresh_execute mem_auth_env 20000 20000 ''s3'' ''m'' ''s1'' s' = (r, s'')" by fastforce
  have "\<not> isl (fst (Refresh_execute mem_auth_env 20000 20000 ''s3'' ''m'' ''s1''
    (snd (Refresh_execute mem_auth_env 1000 1000 ''s2'' ''n'' ''s1'' mem_auth_world))))" by code_simp
  then obtain res' where ok: "r = Inr res'" using run again by (cases r) auto
  have unique: "unique_tokens (mem_view (w_db mem_auth_world))" by (simp add: unique_tokens_def mem_sessions_row)
  have old: "av_sessions (mem_view (w_db mem_auth_world)) ''s1'' = Some (mem_session ''s1'' 0)" by (simp add: mem_sessions_row)
  have fresh: "av_sessions (mem_view (w_db mem_auth_world)) ''s2'' = None"
    using mem_sessions_row [of "''s2''"] by (cases "av_sessions (mem_view (w_db mem_auth_world)) ''s2''") auto
  have unique': "unique_tokens (mem_view (w_db s'))"
  proof (rule refresh_rotation [OF mem_auth_env_spec unique old _ _ run fresh])
    fix u cipher
    assume v: "mem_view (w_db s') = av_sessions_update (\<lambda>m. purged (se_userId (mem_session ''s1'' 0)) (1000 - REFRESH_ROTATION_GRACE_MS)
      (m(se_id (mem_session ''s1'' 0) \<mapsto> rotated 1000 ''s2'' cipher (mem_session ''s1'' 0),
         ''s2'' \<mapsto> successor_of mem_auth_env 1000 ''s2'' ''n'' (mem_session ''s1'' 0)))) (mem_view (w_db mem_auth_world))"
    have rows: "se_tokenHash p = (if k = ''s1'' then ''#s1'' else ''#n'') \<and> k \<in> {''s1'', ''s2''}"
      if "av_sessions (mem_view (w_db s')) k = Some p" for k p
    proof -
      from that purged_token obtain q where q: "((av_sessions (mem_view (w_db mem_auth_world)))(''s1'' \<mapsto>
          rotated 1000 ''s2'' cipher (mem_session ''s1'' 0),
         ''s2'' \<mapsto> successor_of mem_auth_env 1000 ''s2'' ''n'' (mem_session ''s1'' 0))) k = Some q"
        "se_tokenHash p = se_tokenHash q" unfolding v by (fastforce simp: mem_session_def)
      consider "k = ''s1''" | "k = ''s2''" | "k \<noteq> ''s1''" "k \<noteq> ''s2''" by blast
      then show ?thesis
      proof cases
        case 1
        then have "q = rotated 1000 ''s2'' cipher (mem_session ''s1'' 0)" using q(1) by simp
        then show ?thesis using 1 q(2) by (simp add: rotated_def mem_session_def)
      next
        case 2
        then have "q = successor_of mem_auth_env 1000 ''s2'' ''n'' (mem_session ''s1'' 0)" using q(1) by simp
        then show ?thesis using 2 q(2) by (simp add: successor_of_def mem_auth_env_def)
      next
        case 3
        then show ?thesis using q(1) mem_sessions_row [of k q] by simp
      qed
    qed
    show ?thesis unfolding unique_tokens_def
    proof (intro allI impI)
      fix i j a b
      assume same: "av_sessions (mem_view (w_db s')) i = Some a \<and> av_sessions (mem_view (w_db s')) j = Some b \<and>
        se_tokenHash a = se_tokenHash b"
      show "i = j" using same rows [of i a] rows [of j b] by (auto split: if_splits)
    qed
  qed (simp_all add: mem_session_def mem_auth_env_def Session_isRevoked_def)
  have "r = Inl Rejected \<or> (\<exists>res'. r = Inr res' \<and> lr_refreshToken res' = lr_refreshToken res \<and>
      mem_view (w_db s'') = mem_view (w_db s'))"
    by (rule refresh_twice_same [OF mem_auth_env_spec unique unique' old _ _ fresh run _ _ _ _ _ _ _ again])
      (auto simp: mem_session_def mem_auth_env_def Session_isRevoked_def REFRESH_ROTATION_GRACE_MS_def)
  then show ?thesis using run again ok by auto
qed

section \<open>The token of a session revoked without a successor\<close>

lemma finish_reuse:
  assumes spec: "auth_db_spec (ae_db env) view"
    and run: "refresh_finish env now (RefreshReuse userId) s = (r, s')" and ok: "r \<noteq> Inl Rejected"
  shows "r = Inl reuse_error \<and> view (w_db s') = av_sessions_update (revoked_all userId now) (view (w_db s))"
proof (cases "session_revokeAllByUserId (ae_db env) userId now s")
  case (Pair x s1)
  show ?thesis
  proof (cases x)
    case (Inl e)
    then have "e = Rejected" using Pair rejects_revoke [of "ae_db env" userId now] unfolding only_rejects_def by blast
    then show ?thesis using run ok Pair Inl by (simp add: refresh_finish_def act_bind_def)
  next
    case (Inr y)
    then show ?thesis using run revoke_all_view [OF spec, of userId now s y s1] Pair
      by (simp add: refresh_finish_def act_bind_def act_throw_def reuse_error_def)
  qed
qed

lemma revoked_session_reuse:
  assumes spec: "auth_db_spec (ae_db env) view" and unique: "unique_tokens (view (w_db s))"
    and old: "av_sessions (view (w_db s)) i = Some old" "se_tokenHash old = ae_tokenHash env raw" "now < se_expiresAt old"
      "Session_isRevoked old" "se_replacedById old = None"
    and run: "Refresh_execute env now created uuid newRaw raw s = (r, s')" and ok: "r \<noteq> Inl Rejected"
  shows "r = Inl reuse_error \<and> view (w_db s') = av_sessions_update (revoked_all (se_userId old) now) (view (w_db s))"
proof -
  have "\<not> Session_wasRotatedWithin now REFRESH_ROTATION_GRACE_MS old"
    using old(5) by (simp add: Session_wasRotatedWithin_def truthy_def split: option.split)
  moreover have "\<not> Session_isExpired now old" using old(3) by (simp add: Session_isExpired_def)
  ultimately have yields: "yields view (view (w_db s)) (\<lambda>x. x = RefreshReuse (se_userId old)) (refresh_tx env now created uuid newRaw raw)"
    unfolding refresh_tx_def
    by (intro yields_tx, intro yields_bind [OF yields_session [OF spec unique old(1), unfolded old(2)]])
      (simp add: old(4) refresh_again_def yields_return)
  note ends = yields [unfolded yields_def, rule_format, OF refl]
  show ?thesis
  proof (cases "refresh_tx env now created uuid newRaw raw s")
    case (Pair x s1)
    show ?thesis
    proof (cases x)
      case (Inl e)
      then show ?thesis using ends Pair run ok by (simp add: Refresh_execute_def act_bind_def)
    next
      case (Inr outcome)
      then have "outcome = RefreshReuse (se_userId old)" "view (w_db s1) = view (w_db s)" using ends Pair by simp_all
      then show ?thesis using finish_reuse [OF spec, of now "se_userId old" s1 r s'] run ok Pair Inr
        by (simp add: Refresh_execute_def act_bind_def)
    qed
  qed
qed

lemma login_evicts:
  assumes spec: "auth_db_spec (ae_db env) view"
    and run: "login_success env now created uuid raw ipAddress userAgent u s = (Inr res, s')"
    and fresh: "av_sessions (view (w_db s)) uuid = None"
    and full: "MAX_SESSIONS \<le> card (active_ids (us_id u) now (view (w_db s)))"
  obtains old where "av_sessions (view (w_db s)) (se_id old) = Some old" "session_active (us_id u) now old"
    "\<And>q. av_sessions (view (w_db s)) (se_id q) = Some q \<Longrightarrow> session_active (us_id u) now q \<Longrightarrow> se_createdAt old \<le> se_createdAt q"
    "av_sessions (view (w_db s')) (se_id old) = Some (old\<lparr>se_revokedAt := Some now\<rparr>)"
proof (rule login_success_Inr [OF run])
  fix s1 n s2 s3 p
  assume save: "user_save (ae_db env) (User_resetLoginAttempts now u) s = (Inr (), s1)"
    and cnt: "session_countActiveByUserId (ae_db env) (us_id u) now s1 = (Inr n, s2)"
    and room: "(if n \<ge> MAX_SESSIONS then session_revokeOldestActiveSession (ae_db env) (us_id u) now else act_return ()) s2 = (Inr (), s3)"
    and created: "Session_create uuid created (us_id u) (ae_tokenHash env raw) (ae_refreshTTL env) ipAddress userAgent = Inr p"
    and opened: "session_save (ae_db env) p s3 = (Inr (), s')"
  have sess: "av_sessions (view (w_db s1)) = av_sessions (view (w_db s))" using user_save_view [OF spec save] by simp
  then have same: "active_ids (us_id u) now (view (w_db s1)) = active_ids (us_id u) now (view (w_db s))"
    by (simp add: active_ids_def)
  note n = count_active_Inr [OF spec cnt]
  have "session_revokeOldestActiveSession (ae_db env) (us_id u) now s1 = (Inr (), s3)"
    using room n full same by simp
  then show ?thesis
  proof (rule revoke_oldest_Inr [OF spec], goal_cases)
    case 1
    then show ?case using full same by (simp add: MAX_SESSIONS_def)
  next
    case (2 old)
    have "se_id p = uuid" using created by (auto simp: Session_create_def split: if_splits)
    moreover have "se_id old \<noteq> uuid" using 2(1) fresh sess by auto
    ultimately have "av_sessions (view (w_db s')) (se_id old) = Some (old\<lparr>se_revokedAt := Some now\<rparr>)"
      using session_save_view [OF spec opened] 2(4) by simp
    then show ?case using 2 sess that by metis
  qed
qed

text \<open>
  The sixth device. A login with five sessions open revokes the oldest of them, and leaves no successor
  on it; when that device next refreshes, its token counts as stolen: all sessions of the
  user are revoked, the one just opened included. The same happens with the token of a session logged out.
\<close>

theorem evicted_device_revokes_all:
  assumes "auth_db_spec (ae_db env) view"
    and "login_success env now created uuid raw ipAddress userAgent u s = (Inr res, s')"
    and "av_sessions (view (w_db s)) uuid = None" and "unique_tokens (view (w_db s'))"
    and "MAX_SESSIONS \<le> card {i. \<exists>p. av_sessions (view (w_db s)) i = Some p \<and> session_active (us_id u) now p}"
    and "\<forall>i p. av_sessions (view (w_db s)) i = Some p \<and> se_revokedAt p = None \<longrightarrow> se_replacedById p = None"
  shows "\<exists>old. av_sessions (view (w_db s)) (se_id old) = Some old \<and> session_active (us_id u) now old \<and>
    (\<forall>q. av_sessions (view (w_db s)) (se_id q) = Some q \<and> session_active (us_id u) now q \<longrightarrow> se_createdAt old \<le> se_createdAt q) \<and>
    (\<forall>t created' uuid' newRaw raw' r s''.
       se_tokenHash old = ae_tokenHash env raw' \<and> t < se_expiresAt old \<and>
       Refresh_execute env t created' uuid' newRaw raw' s' = (r, s'') \<and> r \<noteq> Inl Rejected \<longrightarrow>
       r = Inl reuse_error \<and>
       (\<forall>k p. av_sessions (view (w_db s'')) k = Some p \<and> se_userId p = us_id u \<longrightarrow> Session_isRevoked p))"
proof (rule login_evicts [OF assms(1,2,3)])
  show "MAX_SESSIONS \<le> card (active_ids (us_id u) now (view (w_db s)))"
    using assms(5) by (simp add: active_ids_def matching_def)
  fix old
  assume old: "av_sessions (view (w_db s)) (se_id old) = Some old" "session_active (us_id u) now old"
    "\<And>q. av_sessions (view (w_db s)) (se_id q) = Some q \<Longrightarrow> session_active (us_id u) now q \<Longrightarrow> se_createdAt old \<le> se_createdAt q"
    "av_sessions (view (w_db s')) (se_id old) = Some (old\<lparr>se_revokedAt := Some now\<rparr>)"
  have "r = Inl reuse_error \<and> (\<forall>k p. av_sessions (view (w_db s'')) k = Some p \<and> se_userId p = us_id u \<longrightarrow> Session_isRevoked p)"
    if "se_tokenHash old = ae_tokenHash env raw'" "t < se_expiresAt old"
      "Refresh_execute env t created' uuid' newRaw raw' s' = (r, s'')" "r \<noteq> Inl Rejected" for t created' uuid' newRaw raw' r s''
  proof -
    have user: "se_userId old = us_id u" using old(2) by (simp add: session_active_def)
    have none: "se_replacedById old = None" using assms(6) [rule_format, of "se_id old" old] old(1,2) by (simp add: session_active_def)
    have "r = Inl reuse_error \<and> view (w_db s'') =
        av_sessions_update (revoked_all (se_userId (old\<lparr>se_revokedAt := Some now\<rparr>)) t) (view (w_db s'))"
      by (rule revoked_session_reuse [OF assms(1,4) old(4) _ _ _ _ that(3,4)])
        (simp_all add: that(1,2) none Session_isRevoked_def)
    then show ?thesis using user revoked_all_revoked by auto
  qed
  then show ?thesis using old by blast
qed

definition mem_five :: "(auth_mem, unit) world" where
  "mem_five = mem_auth_world\<lparr>w_db := (w_db mem_auth_world)\<lparr>am_sessions := map (\<lambda>(i, t). (i, mem_session i t))
     [(''a'', 1), (''b'', 2), (''c'', 3), (''d'', 4), (''e'', 5)]\<rparr>\<rparr>"

lemma mem_row: "av_sessions (mem_view d) i = Some p \<Longrightarrow> p \<in> set (row_list se_id (am_sessions d)) \<and> se_id p = i"
  using rows_of_key [of se_id "am_sessions d" i p] by (auto simp: mem_view_def row_list_iff)

lemma mem_unique_tokens:
  assumes "distinct (map se_tokenHash (row_list se_id (am_sessions d)))"
  shows "unique_tokens (mem_view d)"
  unfolding unique_tokens_def
proof (intro allI impI)
  fix i j a b
  assume *: "av_sessions (mem_view d) i = Some a \<and> av_sessions (mem_view d) j = Some b \<and> se_tokenHash a = se_tokenHash b"
  then have "a = b" using assms mem_row unfolding distinct_map inj_on_def by blast
  then show "i = j" using * mem_row by blast
qed

lemma mem_card:
  "card {i. \<exists>p. av_sessions (mem_view d) i = Some p \<and> P p} = length (filter P (row_list se_id (am_sessions d)))"
  using card_matching [of P se_id "am_sessions d"] by (simp add: matching_def mem_view_def)

theorem evicted_device_revokes_all_witness:
  "\<exists>res s' old. login_success mem_auth_env 10 10 ''f'' ''f'' [] [] mem_user mem_five = (Inr res, s') \<and>
     av_sessions (mem_view (w_db mem_five)) ''a'' = Some old \<and> session_active ''u'' 10 old \<and>
     (\<exists>s''. Refresh_execute mem_auth_env 20 20 ''g'' ''g'' ''a'' s' = (Inl reuse_error, s'') \<and>
        map_option Session_isRevoked (av_sessions (mem_view (w_db s')) ''f'') = Some False \<and>
        map_option Session_isRevoked (av_sessions (mem_view (w_db s'')) ''f'') = Some True)"
proof -
  let ?run = "login_success mem_auth_env 10 10 ''f'' ''f'' [] [] mem_user mem_five"
  have "\<not> isl (fst ?run)" by code_simp
  from ran_Inr [OF this] obtain res s' where run: "?run = (Inr res, s')" by blast
  have s': "s' = snd ?run" using run by simp
  have fresh: "av_sessions (mem_view (w_db mem_five)) ''f'' = None" by code_simp
  have "distinct (map se_tokenHash (row_list se_id (am_sessions (w_db (snd ?run)))))" by code_simp
  then have unique: "unique_tokens (mem_view (w_db s'))" unfolding s' by (rule mem_unique_tokens)
  have user: "us_id mem_user = ''u''" by (simp add: mem_user_def)
  have "MAX_SESSIONS \<le> length (filter (session_active ''u'' 10) (row_list se_id (am_sessions (w_db mem_five))))" by code_simp
  then have full: "MAX_SESSIONS \<le> card {i. \<exists>p. av_sessions (mem_view (w_db mem_five)) i = Some p \<and> session_active (us_id mem_user) 10 p}"
    unfolding mem_card user .
  have "list_all (\<lambda>p. se_replacedById p = None) (row_list se_id (am_sessions (w_db mem_five)))" by code_simp
  then have open_rows: "\<forall>i p. av_sessions (mem_view (w_db mem_five)) i = Some p \<and> se_revokedAt p = None \<longrightarrow> se_replacedById p = None"
    using mem_row [of "w_db mem_five"] by (auto simp: list_all_iff)
  from evicted_device_revokes_all [OF mem_auth_env_spec run fresh unique full open_rows] obtain old where
    old: "av_sessions (mem_view (w_db mem_five)) (se_id old) = Some old" "session_active ''u'' 10 old"
    "\<forall>q. av_sessions (mem_view (w_db mem_five)) (se_id q) = Some q \<and> session_active ''u'' 10 q \<longrightarrow> se_createdAt old \<le> se_createdAt q"
    and reuse: "\<forall>t created' uuid' newRaw raw' r s''. se_tokenHash old = ae_tokenHash mem_auth_env raw' \<and> t < se_expiresAt old \<and>
       Refresh_execute mem_auth_env t created' uuid' newRaw raw' s' = (r, s'') \<and> r \<noteq> Inl Rejected \<longrightarrow>
       r = Inl reuse_error \<and>
       (\<forall>k p. av_sessions (mem_view (w_db s'')) k = Some p \<and> se_userId p = ''u'' \<longrightarrow> Session_isRevoked p)"
    unfolding user by blast
  have first: "av_sessions (mem_view (w_db mem_five)) ''a'' = Some (mem_session ''a'' 1)"
    by (simp add: mem_five_def mem_auth_world_def mem_view_def rows_of_def mem_session_def)
  have "se_createdAt old \<le> 1" using old(3) [rule_format, of "mem_session ''a'' 1"] first
    by (simp add: mem_session_def session_active_def)
  moreover have "list_all (\<lambda>p. se_createdAt p \<le> 1 \<longrightarrow> se_id p = ''a'') (row_list se_id (am_sessions (w_db mem_five)))" by code_simp
  ultimately have "se_id old = ''a''" using mem_row [OF old(1)] by (simp add: list_all_iff)
  then have is_a: "old = mem_session ''a'' 1" using old(1) first by simp
  let ?again = "Refresh_execute mem_auth_env 20 20 ''g'' ''g'' ''a'' (snd ?run)"
  obtain r s'' where again: "Refresh_execute mem_auth_env 20 20 ''g'' ''g'' ''a'' s' = (r, s'')" by fastforce
  have "fst ?again = Inl reuse_error" by code_simp
  then have "r \<noteq> Inl Rejected" using again s' by (simp add: reuse_error_def)
  moreover have "se_tokenHash old = ae_tokenHash mem_auth_env ''a''" "(20::int) < se_expiresAt old"
    by (simp_all add: is_a mem_session_def mem_auth_env_def)
  ultimately have ends: "r = Inl reuse_error \<and>
    (\<forall>k p. av_sessions (mem_view (w_db s'')) k = Some p \<and> se_userId p = ''u'' \<longrightarrow> Session_isRevoked p)"
    using again by (intro reuse [THEN spec, THEN spec, THEN spec, THEN spec, THEN spec, THEN spec, THEN spec, THEN mp]) blast
  have s'': "s'' = snd ?again" using again s' by simp
  have "map_option Session_isRevoked (av_sessions (mem_view (w_db (snd ?run))) ''f'') = Some False" by code_simp
  then have before: "map_option Session_isRevoked (av_sessions (mem_view (w_db s')) ''f'') = Some False" unfolding s' .
  have "map_option se_userId (av_sessions (mem_view (w_db (snd ?again))) ''f'') = Some ''u''" by code_simp
  then obtain q where "av_sessions (mem_view (w_db s'')) ''f'' = Some q" "se_userId q = ''u''" unfolding s'' by auto
  then have after: "map_option Session_isRevoked (av_sessions (mem_view (w_db s'')) ''f'') = Some True"
    using ends by simp
  have "Refresh_execute mem_auth_env 20 20 ''g'' ''g'' ''a'' s' = (Inl reuse_error, s'')" using again ends by simp
  then show ?thesis using run first old(2) [unfolded is_a] before after by blast
qed

end
