(* ===== verification/AuthPasswords.thy ===== *)
theory AuthPasswords
  imports AuthSessions
begin

text \<open>
  Registration, password reset and the revocation of access tokens; and what a login does to an
  account that changed after its password was checked.
\<close>

section \<open>Users and tokens\<close>

lemma reset_found:
  assumes "auth_db_spec db view" "reset_findByHash db h s = (Inr x, s')"
  shows "s' = s" "x = Some t \<Longrightarrow> av_resets (view (w_db s)) (tk_id t) = Some t \<and> tk_tokenHash t = h"
  using assms(2) table_find [OF auth_tables(3) [OF assms(1)], of "\<lambda>t. tk_tokenHash t = h" "w_db s" x]
  by (auto simp: reset_findByHash_def action_simps first_of_def)

lemma reset_save_view [view_writes]:
  assumes "auth_db_spec db view" "reset_save db t s = (Inr x, s')"
  shows "view (w_db s') = av_resets_update (\<lambda>m. m(tk_id t \<mapsto> (case m (tk_id t) of
    Some r \<Rightarrow> r\<lparr>tk_usedAt := tk_usedAt t\<rparr> | None \<Rightarrow> t))) (view (w_db s))"
  using assms(2) table_upsert [OF auth_tables(3) [OF assms(1)], of t "tk_id t" "\<lambda>row. row\<lparr>tk_usedAt := tk_usedAt t\<rparr>" "w_db s" "w_db s'"]
  by (auto simp: reset_save_def action_simps put_row_def)

lemma email_delete_view:
  assumes "auth_db_spec db view" "email_deleteAllByUserId db u s = (Inr x, s')"
  shows "view (w_db s') = av_emails_update (drop_rows (\<lambda>t. tk_userId t = u)) (view (w_db s))"
  using assms(2) table_deleteMany [OF auth_tables(4) [OF assms(1)], of "\<lambda>t. tk_userId t = u" "w_db s" "w_db s'"]
  by (auto simp: email_deleteAllByUserId_def action_simps)

lemma email_save_view:
  assumes "auth_db_spec db view" "email_save db t s = (Inr x, s')"
  shows "view (w_db s') = av_emails_update (\<lambda>m. m(tk_id t \<mapsto> (case m (tk_id t) of
    Some r \<Rightarrow> r\<lparr>tk_tokenHash := tk_tokenHash t, tk_expiresAt := tk_expiresAt t, tk_usedAt := tk_usedAt t\<rparr>
    | None \<Rightarrow> t))) (view (w_db s))"
  using assms(2) table_upsert [OF auth_tables(4) [OF assms(1)], of t "tk_id t" "\<lambda>row. row\<lparr>tk_tokenHash := tk_tokenHash t,
      tk_expiresAt := tk_expiresAt t, tk_usedAt := tk_usedAt t\<rparr>" "w_db s" "w_db s'"]
  by (auto simp: email_save_def action_simps put_row_def)

lemma audit_view:
  "auth_db_spec db view \<Longrightarrow> audit_create db e s = (Inr x, s') \<Longrightarrow> view (w_db s') = view (w_db s)"
  by (auto simp: audit_create_def auth_db_spec_def action_simps)

lemma invalidate_user_db: "invalidateUser env userId s = (r, s') \<Longrightarrow> w_db s' = w_db s \<and> r = Inr ()"
  by (auto simp: invalidateUser_def split: option.splits)

section \<open>Password reset\<close>

lemma reset_run:
  assumes spec: "auth_db_spec (ae_db env) view"
    and run: "ResetPassword_execute env now raw newPassword s = (Inr mails, s')"
  obtains t u h where "av_resets (view (w_db s)) (tk_id t) = Some t" "tk_tokenHash t = ae_tokenHash env raw"
    "PasswordResetToken_ensureValid now t = None" "av_users (view (w_db s)) (tk_userId t) = Some u"
    "ae_hashPassword env newPassword = Some h" "mails = [PasswordResetSuccessMail (us_email u) (us_firstName u)]"
    "view (w_db s') = (view (w_db s))\<lparr>
       av_users := (av_users (view (w_db s)))(tk_userId t \<mapsto> User_resetPassword h now u),
       av_sessions := revoked_all (tk_userId t) now (av_sessions (view (w_db s))),
       av_resets := (av_resets (view (w_db s)))(tk_id t \<mapsto> Token_markUsed now t)\<rparr>"
proof -
  obtain x s1 y s2 h x3 s3 x4 s4 x5 s5 x6 s6 t u where
    found: "reset_findByHash (ae_db env) (ae_tokenHash env raw) s = (Inr x, s1)" "x = Some t"
    and valid: "PasswordResetToken_ensureValid now t = None"
    and user: "user_findById (ae_db env) (tk_userId t) s1 = (Inr y, s2)" "y = Some u"
    and hash: "ae_hashPassword env newPassword = Some h"
    and revoke: "session_revokeAllByUserId (ae_db env) (us_id u) now s2 = (Inr x3, s3)"
    and save: "user_save (ae_db env) (User_resetPassword h now u) s3 = (Inr x4, s4)"
    and mark: "reset_save (ae_db env) (Token_markUsed now t) s4 = (Inr x5, s5)"
    and audit: "audit_create (ae_db env) (user_audit (us_id u) ''PASSWORD_RESET_COMPLETED'') s5 = (Inr x6, s6)"
    and fin: "act_bind (invalidateUser env (us_id u))
      (\<lambda>_. act_return [PasswordResetSuccessMail (us_email u) (us_firstName u)]) s6 = (Inr mails, s')"
    using run unfolding ResetPassword_execute_def
    by (auto simp: act_bind_Inr act_tx_Inr found_or_Inr ensure_Inr act_return_def act_io_Inr)
  note t = reset_found [OF spec found(1)] and u = user_by_id [OF spec user(1)]
  have row: "av_users (view (w_db s)) (tk_userId t) = Some u" "us_id u = tk_userId t"
    using u user(2) t(1) user_id_key [OF spec] by metis+
  have "view (w_db s') = view (w_db s6)" using fin by (auto simp: act_bind_Inr act_return_def dest: invalidate_user_db)
  also have "\<dots> = view (w_db s5)" by (rule audit_view [OF spec audit])
  also have "\<dots> = av_resets_update (\<lambda>m. m(tk_id t \<mapsto> Token_markUsed now t)) (view (w_db s4))"
  proof -
    have same: "av_resets (view (w_db s4)) (tk_id t) = Some t"
      using user_save_view [OF spec save] revoke_all_view [OF spec revoke] t u(1) found(2) by simp
    show ?thesis using reset_save_view [OF spec mark] same by (cases "view (w_db s4)") (simp add: Token_markUsed_def)
  qed
  also have "view (w_db s4) = av_users_update (\<lambda>m. m(tk_userId t \<mapsto> User_resetPassword h now u)) (view (w_db s3))"
  proof -
    have same: "av_users (view (w_db s3)) (tk_userId t) = Some u"
      using revoke_all_view [OF spec revoke] row t u(1) by simp
    have id: "us_id (User_resetPassword h now u) = tk_userId t"
      and kept: "saved_user (User_resetPassword h now u) (Some u) = User_resetPassword h now u"
      using row by (simp_all add: User_resetPassword_def saved_user_def)
    show ?thesis using user_save_view [OF spec save] unfolding id
      by (rule trans) (rule users_update_cong, simp only: same kept)
  qed
  also have "view (w_db s3) = av_sessions_update (revoked_all (tk_userId t) now) (view (w_db s))"
    using revoke_all_view [OF spec revoke] row t(1) u(1) by simp
  finally have "view (w_db s') = (view (w_db s))\<lparr>
       av_users := (av_users (view (w_db s)))(tk_userId t \<mapsto> User_resetPassword h now u),
       av_sessions := revoked_all (tk_userId t) now (av_sessions (view (w_db s))),
       av_resets := (av_resets (view (w_db s)))(tk_id t \<mapsto> Token_markUsed now t)\<rparr>"
    by (cases "view (w_db s)") (simp add: fun_upd_def)
  moreover have "mails = [PasswordResetSuccessMail (us_email u) (us_firstName u)]"
    using fin by (auto simp: act_bind_Inr act_return_def)
  ultimately show ?thesis using that t(2) [OF found(2)] valid row(1) hash by blast
qed

lemma tx_then_ok:
  assumes "act_bind (act_tx m) f s = (Inl e, s')" "\<And>x s1. \<not> isl (fst (f x s1))"
  shows "w_db s' = w_db s"
proof -
  have "act_tx m s = (Inl e, s')"
    using assms(1) assms(2) unfolding act_bind_Inl by (metis fst_conv sum.disc(1))
  then show ?thesis by (auto simp: act_tx_def split: prod.splits sum.splits)
qed

lemma reset_error: "ResetPassword_execute env now raw newPassword s = (Inl e, s') \<Longrightarrow> w_db s' = w_db s"
  unfolding ResetPassword_execute_def
  by (erule tx_then_ok) (auto simp: act_bind_def act_return_def invalidateUser_def split: prod.splits option.splits sum.splits)

text \<open>
  C18: What a password reset does. The token exists, has not been used and has not expired; its user's
  row gets the hash of the new password, a cleared lock and the next token version, all sessions of the user
  are revoked, the token is marked used, and nothing else in the tables changes.
\<close>

theorem reset_password_exact:
  assumes "auth_db_spec (ae_db env) view"
    and "ResetPassword_execute env now raw newPassword s = (Inr mails, s')"
  shows "\<exists>t u h. av_resets (view (w_db s)) (tk_id t) = Some t \<and> tk_tokenHash t = ae_tokenHash env raw \<and>
    tk_usedAt t = None \<and> now < tk_expiresAt t \<and> av_users (view (w_db s)) (tk_userId t) = Some u \<and>
    ae_hashPassword env newPassword = Some h \<and>
    mails = [PasswordResetSuccessMail (us_email u) (us_firstName u)] \<and>
    view (w_db s') = (view (w_db s))\<lparr>
      av_users := (av_users (view (w_db s)))(tk_userId t \<mapsto> u\<lparr>us_passwordHash := h, us_failedLoginAttempts := 0,
        us_lockedUntil := None, us_tokenVersion := us_tokenVersion u + 1, us_updatedAt := now\<rparr>),
      av_sessions := revoked_all (tk_userId t) now (av_sessions (view (w_db s))),
      av_resets := (av_resets (view (w_db s)))(tk_id t \<mapsto> t\<lparr>tk_usedAt := Some now\<rparr>)\<rparr>"
  by (rule reset_run [OF assms])
    (auto simp: User_resetPassword_def Token_markUsed_def PasswordResetToken_ensureValid_def split: if_splits)

lemma mem_reset_runs:
  "\<exists>mails s'. ResetPassword_execute mem_auth_env 1000 ''tok'' ''new'' mem_auth_world = (Inr mails, s')"
proof -
  have "\<not> isl (fst (ResetPassword_execute mem_auth_env 1000 ''tok'' ''new'' mem_auth_world))" by code_simp
  then show ?thesis by (rule ran_Inr)
qed

theorem reset_password_exact_witness:
  "\<exists>mails s' (t :: TokenProps) u. ResetPassword_execute mem_auth_env 1000 ''tok'' ''new'' mem_auth_world = (Inr mails, s') \<and>
     tk_tokenHash t = ''#tok'' \<and> av_users (mem_view (w_db s')) (tk_userId t) = Some u \<and> us_passwordHash u = ''$new''"
proof -
  from mem_reset_runs obtain mails s' where
    run: "ResetPassword_execute mem_auth_env 1000 ''tok'' ''new'' mem_auth_world = (Inr mails, s')" by blast
  from reset_password_exact [OF mem_auth_env_spec run] obtain t u h where
    t: "tk_tokenHash t = ae_tokenHash mem_auth_env ''tok''" "ae_hashPassword mem_auth_env ''new'' = Some h"
    and v: "mem_view (w_db s') = (mem_view (w_db mem_auth_world))\<lparr>
      av_users := (av_users (mem_view (w_db mem_auth_world)))(tk_userId t \<mapsto> u\<lparr>us_passwordHash := h,
        us_failedLoginAttempts := 0, us_lockedUntil := None, us_tokenVersion := us_tokenVersion u + 1, us_updatedAt := 1000\<rparr>),
      av_sessions := revoked_all (tk_userId t) 1000 (av_sessions (mem_view (w_db mem_auth_world))),
      av_resets := (av_resets (mem_view (w_db mem_auth_world)))(tk_id t \<mapsto> t\<lparr>tk_usedAt := Some 1000\<rparr>)\<rparr>"
    by blast
  have user: "av_users (mem_view (w_db s')) (tk_userId t) = Some (u\<lparr>us_passwordHash := h, us_failedLoginAttempts := 0,
        us_lockedUntil := None, us_tokenVersion := us_tokenVersion u + 1, us_updatedAt := 1000\<rparr>)"
    unfolding v by simp
  have "tk_tokenHash t = ''#tok''" "h = ''$new''" using t by (simp_all add: mem_auth_env_def)
  moreover from this obtain w where "av_users (mem_view (w_db s')) (tk_userId t) = Some w" "us_passwordHash w = ''$new''"
    using user by simp
  ultimately show ?thesis using run
    by blast
qed

text \<open>
  A reset token works once. After a successful reset no second reset with that token succeeds, at any
  time and with any password, and the attempt leaves the tables as they are.
\<close>

theorem reset_token_single_use:
  assumes "auth_db_spec (ae_db env) view"
    and "\<And>i j a b. av_resets (view (w_db s)) i = Some a \<Longrightarrow> av_resets (view (w_db s)) j = Some b \<Longrightarrow>
      tk_tokenHash a = tk_tokenHash b \<Longrightarrow> i = j"
    and "ResetPassword_execute env now raw newPassword s = (Inr mails, s')"
    and "ResetPassword_execute env now' raw newPassword' s' = (r, s'')"
  shows "isl r \<and> view (w_db s'') = view (w_db s')"
proof -
  have "isl r"
  proof (rule ccontr)
    assume "\<not> isl r"
    then obtain mails' where again: "ResetPassword_execute env now' raw newPassword' s' = (Inr mails', s'')"
      using assms(4) by (cases r) auto
    obtain t u where t: "av_resets (view (w_db s)) (tk_id t) = Some t" "tk_tokenHash t = ae_tokenHash env raw"
      and after: "av_resets (view (w_db s')) = (av_resets (view (w_db s)))(tk_id t \<mapsto> Token_markUsed now t)"
      by (rule reset_run [OF assms(1,3)]) simp
    obtain t' where t': "av_resets (view (w_db s')) (tk_id t') = Some t'" "tk_tokenHash t' = ae_tokenHash env raw"
      and unused: "PasswordResetToken_ensureValid now' t' = None"
      by (rule reset_run [OF assms(1) again])
    have "tk_usedAt t' = None" using unused by (simp add: PasswordResetToken_ensureValid_def split: if_splits)
    show False
    proof (cases "tk_id t' = tk_id t")
      case True
      then have "t' = Token_markUsed now t" using t'(1) after by simp
      then show False using \<open>tk_usedAt t' = None\<close> by (simp add: Token_markUsed_def)
    next
      case False
      then have row: "av_resets (view (w_db s)) (tk_id t') = Some t'" using t'(1) after by simp
      show False using assms(2) [OF t(1) row] t(2) t'(2) False by simp
    qed
  qed
  then show ?thesis using assms(4) by (cases r) (auto dest: reset_error)
qed

theorem reset_token_single_use_witness:
  "\<exists>s'. \<not> isl (fst (ResetPassword_execute mem_auth_env 1000 ''tok'' ''new'' mem_auth_world)) \<and>
     s' = snd (ResetPassword_execute mem_auth_env 1000 ''tok'' ''new'' mem_auth_world) \<and>
     isl (fst (ResetPassword_execute mem_auth_env 2000 ''tok'' ''newer'' s'))"
proof -
  from mem_reset_runs obtain mails s' where
    run: "ResetPassword_execute mem_auth_env 1000 ''tok'' ''new'' mem_auth_world = (Inr mails, s')" by blast
  have "i = ''t''" if "av_resets (mem_view (w_db mem_auth_world)) i = Some a" for i a
    using that by (simp add: mem_auth_world_def mem_view_def rows_of_def split: if_splits)
  then have unique: "i = j" if "av_resets (mem_view (w_db mem_auth_world)) i = Some a"
    "av_resets (mem_view (w_db mem_auth_world)) j = Some b" for i j a b
    using that by blast
  obtain r s'' where again: "ResetPassword_execute mem_auth_env 2000 ''tok'' ''newer'' s' = (r, s'')" by fastforce
  have "isl r" using reset_token_single_use [OF mem_auth_env_spec unique run again] by simp
  then show ?thesis using run again by simp
qed

section \<open>A login that overlaps other calls\<close>

lemma login_begin_Inr:
  assumes "auth_db_spec (ae_db env) view" "login_begin env now email password s = (Inr (u, ok), s')"
  shows "s' = s" "av_users (view (w_db s)) (us_id u) = Some u" "us_email u = normal_email email"
    "User_ensureCanLogin now u = None" "ae_comparePassword env password (us_passwordHash u) = Some ok"
proof -
  obtain x s1 where found: "user_findByEmail (ae_db env) email s = (Inr x, s1)"
    and rest: "x = Some u" "User_ensureCanLogin now u = None"
      "ae_comparePassword env password (us_passwordHash u) = Some ok" "s' = s1"
    using assms(2) unfolding login_begin_def
    by (auto simp: act_bind_Inr found_or_Inr ensure_Inr act_io_Inr act_return_def)
  note f = user_by_email [OF assms(1) found]
  show "s' = s" "av_users (view (w_db s)) (us_id u) = Some u" "us_email u = normal_email email"
    "User_ensureCanLogin now u = None" "ae_comparePassword env password (us_passwordHash u) = Some ok"
    using rest f(1) f(2) [OF rest(1)] by simp_all
qed

lemma saved_row:
  assumes "auth_db_spec db view" "user_save db u s = (Inr x, s')"
  obtains w where "av_users (view (w_db s')) (us_id u) = Some w" "us_passwordHash w = us_passwordHash u"
    "us_tokenVersion w = us_tokenVersion u" "us_status w = us_status u" "us_deletedAt w = us_deletedAt u"
  using user_save_view [OF assms] that [of "saved_user u (av_users (view (w_db s)) (us_id u))"]
  by (simp add: saved_user_def split: option.splits)

lemma login_success_row:
  assumes spec: "auth_db_spec (ae_db env) view"
    and run: "login_success env now created uuid raw ipAddress userAgent u s = (Inr res, s')"
  obtains w where "av_users (view (w_db s')) (us_id u) = Some w" "us_passwordHash w = us_passwordHash u"
    "us_tokenVersion w = us_tokenVersion u" "us_status w = us_status u" "us_deletedAt w = us_deletedAt u"
proof (rule login_success_Inr [OF run])
  fix s1 n s2 s3 p
  assume save: "user_save (ae_db env) (User_resetLoginAttempts now u) s = (Inr (), s1)"
    and cnt: "session_countActiveByUserId (ae_db env) (us_id u) now s1 = (Inr n, s2)"
    and room: "(if n \<ge> MAX_SESSIONS then session_revokeOldestActiveSession (ae_db env) (us_id u) now else act_return ()) s2 = (Inr (), s3)"
    and opened: "session_save (ae_db env) p s3 = (Inr (), s')"
  have "av_users (view (w_db s')) = av_users (view (w_db s3))" using session_save_view [OF spec opened] by simp
  also have "\<dots> = av_users (view (w_db s1))"
    using count_active_Inr [OF spec cnt] room
    by (cases "n \<ge> MAX_SESSIONS") (auto simp: act_return_def elim!: revoke_oldest_Inr [OF spec])
  finally have kept: "av_users (view (w_db s')) = av_users (view (w_db s1))" .
  show ?thesis
  proof (rule saved_row [OF spec save])
    fix w
    assume "av_users (view (w_db s1)) (us_id (User_resetLoginAttempts now u)) = Some w"
      "us_passwordHash w = us_passwordHash (User_resetLoginAttempts now u)"
      "us_tokenVersion w = us_tokenVersion (User_resetLoginAttempts now u)"
      "us_status w = us_status (User_resetLoginAttempts now u)" "us_deletedAt w = us_deletedAt (User_resetLoginAttempts now u)"
    then show ?thesis using that [of w] by (simp add: kept User_resetLoginAttempts_def)
  qed
qed

text \<open>
  C38: A login writes back the whole user row it read before its transaction. Whatever happened
  to the account since the password was checked (a password reset, a logout from all devices, a suspension, a
  deletion), the completed login, and the failed one too, puts the old password hash, the old token
  version, the old status and deletion date back.
\<close>

theorem login_restores_row:
  assumes "auth_db_spec (ae_db env) view"
    and "login_begin env t email password s = (Inr (u, ok), s1)"
    and "login_commit env now created uuid raw ipAddress userAgent (u, ok) s2 = (r, s3)"
    and "if ok then \<not> isl r else r \<noteq> Inl Rejected"
  shows "av_users (view (w_db s)) (us_id u) = Some u \<and>
    (\<exists>w. av_users (view (w_db s3)) (us_id u) = Some w \<and> us_passwordHash w = us_passwordHash u \<and>
      us_tokenVersion w = us_tokenVersion u \<and> us_status w = us_status u \<and> us_deletedAt w = us_deletedAt u)"
proof -
  have "\<exists>w. av_users (view (w_db s3)) (us_id u) = Some w \<and> us_passwordHash w = us_passwordHash u \<and>
      us_tokenVersion w = us_tokenVersion u \<and> us_status w = us_status u \<and> us_deletedAt w = us_deletedAt u"
  proof (cases ok)
    case True
    then obtain res where "login_success env now created uuid raw ipAddress userAgent u s2 = (Inr res, s3)"
      using assms(3,4) by (cases r) (auto simp: login_commit_def)
    then show ?thesis by (rule login_success_row [OF assms(1)]) blast
  next
    case False
    let ?u = "User_recordFailedLoginAttempt now u"
    have id: "us_id ?u = us_id u" "us_passwordHash ?u = us_passwordHash u" "us_tokenVersion ?u = us_tokenVersion u"
      "us_status ?u = us_status u" "us_deletedAt ?u = us_deletedAt u"
      by (simp_all add: User_recordFailedLoginAttempt_def Let_def)
    have "login_failed env now u s2 = (r, s3)" using assms(3) False by (simp add: login_commit_def)
    then have "user_save (ae_db env) ?u s2 = (Inr (), s3)" using assms(4) False
      by (auto simp: login_failed_def act_bind_def act_throw_def user_save_def db_write_def split: option.splits)
    then show ?thesis by (rule saved_row [OF assms(1)]) (use id in auto)
  qed
  then show ?thesis using login_begin_Inr [OF assms(1,2)] by blast
qed

text \<open>A wrong password is checked, the password is reset, the failed attempt is recorded.\<close>

definition mem_reset_world :: "(auth_mem, unit) world" where
  "mem_reset_world = snd (ResetPassword_execute mem_auth_env 1000 ''tok'' ''new'' mem_auth_world)"

theorem login_restores_row_witness:
  "\<exists>r s3. login_begin mem_auth_env 900 ''a@b.c'' ''guess'' mem_auth_world = (Inr (mem_user, False), mem_auth_world) \<and>
     map_option us_passwordHash (av_users (mem_view (w_db mem_reset_world)) ''u'') = Some ''$new'' \<and>
     login_commit mem_auth_env 1100 1100 ''s9'' ''x'' [] [] (mem_user, False) mem_reset_world = (r, s3) \<and>
     map_option us_passwordHash (av_users (mem_view (w_db s3)) ''u'') = Some ''$old''"
proof -
  have email: "normal_email ''a@b.c'' = ''a@b.c''" by code_simp
  have start: "login_begin mem_auth_env 900 ''a@b.c'' ''guess'' mem_auth_world = (Inr (mem_user, False), mem_auth_world)"
    by (simp add: login_begin_def mem_auth_simps act_bind_def user_findByEmail_def db_read_def found_or_def ensure_def
        act_io_def act_return_def User_ensureCanLogin_def email)
  have new: "map_option us_passwordHash (av_users (mem_view (w_db mem_reset_world)) ''u'') = Some ''$new''" by code_simp
  obtain r s3 where commit: "login_commit mem_auth_env 1100 1100 ''s9'' ''x'' [] [] (mem_user, False) mem_reset_world = (r, s3)"
    by fastforce
  have "fst (login_commit mem_auth_env 1100 1100 ''s9'' ''x'' [] [] (mem_user, False) mem_reset_world) =
    Inl (UnauthorizedError ''Invalid credentials'')" by code_simp
  then have "if False then \<not> isl r else r \<noteq> Inl Rejected" using commit by simp
  from login_restores_row [OF mem_auth_env_spec start commit this]
  have "map_option us_passwordHash (av_users (mem_view (w_db s3)) ''u'') = Some ''$old''" by (auto simp: mem_user_def)
  then show ?thesis using start new commit by blast
qed

section \<open>Registration\<close>

text \<open>
  What a successful registration does. If the address is free, a user row with the hash of the
  given password is created, unverified, and a verification mail for a token that was stored goes out. If an unverified
  account has the address, its row stays as it is: the password sent with this registration is ignored, and the
  verification mail that goes out verifies the account with the password of whoever registered first.
\<close>

theorem register_exact:
  assumes "auth_db_spec (ae_db env) view"
    and "Register_execute env valid created uuid tokenId raw email password firstName lastName s = (Inr (address, mails), s')"
    and "normal_email (normal_email email) = normal_email email"
  shows "address = normal_email email \<and>
    (if \<exists>u. av_users (view (w_db s)) (us_id u) = Some u \<and> us_email u = normal_email email then
       av_users (view (w_db s')) = av_users (view (w_db s)) \<and>
       (\<exists>u. av_users (view (w_db s)) (us_id u) = Some u \<and> us_email u = normal_email email \<and> \<not> us_isEmailVerified u \<and>
          mails = [VerificationMail (us_email u) (us_firstName u) raw])
     else \<exists>h. ae_hashPassword env password = Some h \<and>
       av_users (view (w_db s')) = (av_users (view (w_db s)))(uuid \<mapsto>
         saved_user (User_register uuid created email h firstName lastName) (av_users (view (w_db s)) uuid)) \<and>
       mails = [VerificationMail (normal_email email) (us_firstName (User_register uuid created email h firstName lastName)) raw])"
proof -
  obtain x s1 where found: "user_findByEmail (ae_db env) (normal_email email) s = (Inr x, s1)"
    and rest: "(case x of
         Some u \<Rightarrow>
           act_bind (act_require (\<not> us_isEmailVerified u) (ConflictError ''Email already registered'')) (\<lambda>_.
           act_bind (email_deleteAllByUserId (ae_db env) (us_id u)) (\<lambda>_.
           act_bind (send_verification env created tokenId raw u) (\<lambda>mails.
           act_return (us_email u, mails))))
       | None \<Rightarrow>
           act_bind (act_io (ae_hashPassword env password)) (\<lambda>passwordHash.
           (let user = User_register uuid created (normal_email email) passwordHash firstName lastName in
            act_bind (user_save (ae_db env) user) (\<lambda>_.
            act_bind (send_verification env created tokenId raw user) (\<lambda>mails.
            act_return (us_email user, mails)))))) s1 = (Inr (address, mails), s')"
    using assms(2) unfolding Register_execute_def act_bind_Inr act_tx_Inr by (auto simp: act_require_Inr)
  note f = user_by_email [OF assms(1) found, unfolded assms(3)]
  show ?thesis
  proof (cases x)
    case (Some u)
    then obtain y s2 z s3 where del: "email_deleteAllByUserId (ae_db env) (us_id u) s = (Inr y, s2)"
      and mail: "email_save (ae_db env) (Token_create tokenId created (us_id u) (ae_tokenHash env raw) EMAIL_TOKEN_TTL) s2 = (Inr z, s')"
      and out: "address = us_email u" "mails = [VerificationMail (us_email u) (us_firstName u) raw]" "\<not> us_isEmailVerified u"
      using rest f(1) by (auto simp: act_bind_Inr act_require_Inr act_return_def send_verification_def)
    have "av_users (view (w_db s')) = av_users (view (w_db s))"
      using email_save_view [OF assms(1) mail] email_delete_view [OF assms(1) del] by simp
    then show ?thesis using f(2) [OF Some] out by auto
  next
    case None
    then obtain h y s2 z where h: "ae_hashPassword env password = Some h"
      and save: "user_save (ae_db env) (User_register uuid created email h firstName lastName) s = (Inr y, s2)"
      and mail: "email_save (ae_db env) (Token_create tokenId created uuid (ae_tokenHash env raw) EMAIL_TOKEN_TTL) s2 = (Inr z, s')"
      and out: "address = normal_email email"
        "mails = [VerificationMail (normal_email email) (us_firstName (User_register uuid created email h firstName lastName)) raw]"
      using rest f(1) by (auto simp: act_bind_Inr act_return_def act_io_Inr send_verification_def User_register_def assms(3) Let_def)
    have id: "us_id (User_register uuid created email h firstName lastName) = uuid" by (simp add: User_register_def)
    have "av_users (view (w_db s')) = (av_users (view (w_db s)))(uuid \<mapsto>
         saved_user (User_register uuid created email h firstName lastName) (av_users (view (w_db s)) uuid))"
      using email_save_view [OF assms(1) mail] user_save_view [OF assms(1) save] by (simp add: id)
    then show ?thesis using f(3) [OF None] out h by auto
  qed
qed

text \<open>Someone registers the address first and waits; its owner registers with a password of their own.\<close>

definition mem_taken :: "(auth_mem, unit) world" where
  "mem_taken = mem_auth_world\<lparr>w_db := (w_db mem_auth_world)\<lparr>am_users := [(''u'', mem_user\<lparr>us_isEmailVerified := False\<rparr>)]\<rparr>\<rparr>"

theorem register_exact_witness:
  "\<exists>address mails s'. Register_execute mem_auth_env (\<lambda>e. True) 10 ''u2'' ''e1'' ''r'' ''A@b.c'' ''mine'' None None mem_taken =
       (Inr (address, mails), s') \<and>
     mails = [VerificationMail ''a@b.c'' ''A'' ''r''] \<and>
     map_option us_passwordHash (av_users (mem_view (w_db s')) ''u'') = Some ''$old''"
proof -
  have "\<not> isl (fst (Register_execute mem_auth_env (\<lambda>e. True) 10 ''u2'' ''e1'' ''r'' ''A@b.c'' ''mine'' None None mem_taken))"
    by code_simp
  from ran_Inr [OF this] obtain address mails s' where
    run: "Register_execute mem_auth_env (\<lambda>e. True) 10 ''u2'' ''e1'' ''r'' ''A@b.c'' ''mine'' None None mem_taken =
       (Inr (address, mails), s')" by auto
  have email: "normal_email ''A@b.c'' = ''a@b.c''" "normal_email ''a@b.c'' = ''a@b.c''" by code_simp+
  have row: "av_users (mem_view (w_db mem_taken)) k = Some u \<longleftrightarrow> k = ''u'' \<and> u = mem_user\<lparr>us_isEmailVerified := False\<rparr>" for k u
    by (auto simp: mem_taken_def mem_auth_world_def mem_view_def rows_of_def mem_user_def)
  have "\<exists>u. av_users (mem_view (w_db mem_taken)) (us_id u) = Some u \<and> us_email u = normal_email ''A@b.c''"
    unfolding row by (auto simp: email mem_user_def)
  with register_exact [OF mem_auth_env_spec run] have
    "av_users (mem_view (w_db s')) = av_users (mem_view (w_db mem_taken))"
    "\<exists>u. av_users (mem_view (w_db mem_taken)) (us_id u) = Some u \<and> us_email u = ''a@b.c'' \<and> \<not> us_isEmailVerified u \<and>
       mails = [VerificationMail (us_email u) (us_firstName u) ''r'']"
    by (simp_all add: email split: if_splits)
  moreover from this(2) have "mails = [VerificationMail ''a@b.c'' ''A'' ''r'']" unfolding row by (auto simp: mem_user_def)
  moreover have "av_users (mem_view (w_db mem_taken)) ''u'' = Some (mem_user\<lparr>us_isEmailVerified := False\<rparr>)"
    by (simp add: row)
  ultimately show ?thesis using run by (auto simp: mem_user_def)
qed

section \<open>Revocation of access tokens\<close>

lemma bump_view:
  assumes "auth_db_spec (ae_db env) view" "bump_version env now userId s = (Inr (), s')"
  shows "av_sessions (view (w_db s')) = av_sessions (view (w_db s))"
    and "av_users (view (w_db s)) userId = Some u \<Longrightarrow>
      av_users (view (w_db s')) userId = Some (User_incrementTokenVersion now u)"
proof -
  obtain x where found: "user_findById (ae_db env) userId s = (Inr x, s)"
    and rest: "(case x of Some u \<Rightarrow> user_save (ae_db env) (User_incrementTokenVersion now u) | None \<Rightarrow> act_return ()) s = (Inr (), s')"
    using assms(2) user_by_id(1) [OF assms(1)] unfolding bump_version_def act_bind_Inr by blast
  note x = user_by_id(2) [OF assms(1) found]
  show "av_sessions (view (w_db s')) = av_sessions (view (w_db s))"
    using rest by (cases x) (auto simp: act_return_def dest: user_save_view [OF assms(1)])
  assume u: "av_users (view (w_db s)) userId = Some u"
  have id: "us_id (User_incrementTokenVersion now u) = userId"
    using user_id_key [OF assms(1) u] by (simp add: User_incrementTokenVersion_def)
  have "user_save (ae_db env) (User_incrementTokenVersion now u) s = (Inr (), s')" using rest x u by simp
  from user_save_view [OF assms(1) this] show "av_users (view (w_db s')) userId = Some (User_incrementTokenVersion now u)"
    unfolding id by (simp add: u saved_user_def User_incrementTokenVersion_def)
qed

text \<open>What the code relies on in Redis: a DEL is answered, and what it deleted is not found any more.\<close>

definition redis_deletes :: "('d, 'r) auth_env \<Rightarrow> bool" where
  "redis_deletes env \<longleftrightarrow> (\<forall>rd. ae_redis env = Some rd \<longrightarrow>
     (\<forall>k r. \<exists>r'. ar_del rd k r = Some r' \<and> (\<forall>st. ar_get rd k r' \<noteq> Some (Some st))))"

lemma invalidated_uncached:
  assumes "redis_deletes env" "invalidateUser env userId s = (x, s')"
  shows "cached_state env userId (w_redis s') = None"
proof (cases "ae_redis env")
  case (Some rd)
  then obtain r where "ar_del rd (auth_key userId) (w_redis s) = Some r" "\<forall>st. ar_get rd (auth_key userId) r \<noteq> Some (Some st)"
    using assms(1) unfolding redis_deletes_def by blast
  then show ?thesis using assms(2) Some by (auto simp: invalidateUser_def cached_state_def split: option.split)
qed (simp add: cached_state_def)

text \<open>
  C19: Logging out from all devices ends every access: afterwards every session of the user is revoked,
  and the guard turns away every token issued up to then, although its signature is valid and it has not
  expired, and whatever the cache of auth states held before. Needed is that Redis, if there is one, carries out the
  deletion (when it fails, the code only logs it and the cached state lasts for its thirty seconds), and that no guard
  that is running meanwhile puts the old state back.
\<close>

theorem logout_all_ends_access:
  assumes "auth_db_spec (ae_db env) view" "redis_deletes env"
    and "LogoutAll_execute env now userId s = (Inr (), s')"
    and "av_users (view (w_db s)) userId = Some u"
    and "bearer_token authHeader = Inr token" "ae_verify env token = Some p" "jp_sub p = Some userId"
    and "\<And>v. jp_tokenVersion p = Some v \<Longrightarrow> v \<le> us_tokenVersion u"
  shows "isl (fst (userAuthGuard env authHeader s')) \<and>
    (\<forall>k q. av_sessions (view (w_db s')) k = Some q \<and> se_userId q = userId \<longrightarrow> Session_isRevoked q)"
proof
  obtain x s1 s2 where revoke: "session_revokeAllByUserId (ae_db env) userId now s = (Inr x, s1)"
    and bump: "bump_version env now userId s1 = (Inr (), s2)"
    and inval: "invalidateUser env userId s2 = (Inr (), s')"
    using assms(3) unfolding LogoutAll_execute_def act_tx_Inr act_bind_Inr by auto
  have db: "w_db s' = w_db s2" using invalidate_user_db [OF inval] by simp
  have u1: "av_users (view (w_db s1)) userId = Some u" using revoke_all_view [OF assms(1) revoke] assms(4) by simp
  have u2: "av_users (view (w_db s')) userId = Some (User_incrementTokenVersion now u)"
    using bump_view(2) [OF assms(1) bump u1] db by simp
  show "\<forall>k q. av_sessions (view (w_db s')) k = Some q \<and> se_userId q = userId \<longrightarrow> Session_isRevoked q"
    using bump_view(1) [OF assms(1) bump] revoke_all_view [OF assms(1) revoke] db revoked_all_revoked by auto
  show "isl (fst (userAuthGuard env authHeader s'))"
  proof (rule ccontr)
    assume "\<not> isl (fst (userAuthGuard env authHeader s'))"
    from ran_Inr [OF this] obtain r s3 where "userAuthGuard env authHeader s' = (Inr r, s3)" by blast
    then obtain st s4 where got: "getUser env userId s' = (Inr (Some st), s4)"
      and version: "jp_tokenVersion p = Some (ua_tokenVersion st)"
      using assms(5-7) unfolding userAuthGuard_def
      by (auto simp: act_bind_Inr act_require_Inr found_or_Inr split: option.splits)
    then obtain y s5 where loaded: "user_findById (ae_db env) userId s' = (Inr y, s5)"
      and st: "Some st = map_option (\<lambda>u. \<lparr>ua_tokenVersion = us_tokenVersion u,
        ua_active = (us_status u \<and> us_deletedAt u = None)\<rparr>) y"
      using invalidated_uncached [OF assms(2) inval] by (auto simp: getUser_def loadUser_def act_bind_Inr act_return_def)
    have "ua_tokenVersion st = us_tokenVersion u + 1"
      using st user_by_id(2) [OF assms(1) loaded] u2 by (auto simp: User_incrementTokenVersion_def)
    then show False using assms(8) [OF version] by simp
  qed
qed

text \<open>A Redis that holds the auth state from before the logout.\<close>

definition mem_cached_env :: "(auth_mem, (string \<times> UserAuthState) list) auth_env" where
  "mem_cached_env = \<lparr>
     ae_db = mem_auth_db,
     ae_redis = Some \<lparr>ar_get = (\<lambda>k r. Some (map_of r k)), ar_set = (\<lambda>k st ttl r. Some ((k, st) # r)),
       ar_del = (\<lambda>k r. Some (filter (\<lambda>p. fst p \<noteq> k) r))\<rparr>,
     ae_tokenHash = ae_tokenHash mem_auth_env, ae_hashPassword = ae_hashPassword mem_auth_env,
     ae_comparePassword = ae_comparePassword mem_auth_env, ae_encrypt = ae_encrypt mem_auth_env,
     ae_decrypt = ae_decrypt mem_auth_env, ae_sign = ae_sign mem_auth_env, ae_verify = ae_verify mem_auth_env,
     ae_refreshTTL = 100000\<rparr>"

definition mem_cached_world :: "(auth_mem, (string \<times> UserAuthState) list) world" where
  "mem_cached_world = \<lparr>w_db = w_db mem_auth_world,
     w_redis = [(''auth:user:u'', \<lparr>ua_tokenVersion = 0, ua_active = True\<rparr>)]\<rparr>"

lemma mem_cached_deletes: "redis_deletes mem_cached_env"
proof -
  have "map_of (filter (\<lambda>p. fst p \<noteq> k) r) k = None" for k and r :: "(string \<times> UserAuthState) list"
    by (induction r) auto
  then show ?thesis by (simp add: redis_deletes_def mem_cached_env_def)
qed

theorem logout_all_ends_access_witness:
  "\<exists>s'. LogoutAll_execute mem_cached_env 50 ''u'' mem_cached_world = (Inr (), s') \<and>
     \<not> isl (fst (userAuthGuard mem_cached_env (Some ''Bearer .u'')
       (s'\<lparr>w_redis := w_redis mem_cached_world\<rparr>))) \<and>
     isl (fst (userAuthGuard mem_cached_env (Some ''Bearer .u'') s'))"
proof -
  have "fst (LogoutAll_execute mem_cached_env 50 ''u'' mem_cached_world) = Inr ()" by code_simp
  then obtain s' where run: "LogoutAll_execute mem_cached_env 50 ''u'' mem_cached_world = (Inr (), s')"
    by (metis prod.collapse)
  have spec: "auth_db_spec (ae_db mem_cached_env) mem_view" by (simp add: mem_cached_env_def mem_auth_db_spec)
  have user: "av_users (mem_view (w_db mem_cached_world)) ''u'' = Some mem_user"
    by (simp add: mem_cached_world_def mem_auth_world_def mem_view_def rows_of_def mem_user_def)
  have token: "bearer_token (Some ''Bearer .u'') = Inr ''.u''" by code_simp
  have verify: "ae_verify mem_cached_env ''.u'' = Some \<lparr>jp_sub = Some ''u'', jp_email = Some ''a@b.c'',
      jp_tokenVersion = Some 0, jp_type = Some ''user''\<rparr>" by (simp add: mem_cached_env_def mem_auth_env_def)
  have "\<not> isl (fst (userAuthGuard mem_cached_env (Some ''Bearer .u'')
      (snd (LogoutAll_execute mem_cached_env 50 ''u'' mem_cached_world)\<lparr>w_redis := w_redis mem_cached_world\<rparr>)))" by code_simp
  then have stale: "\<not> isl (fst (userAuthGuard mem_cached_env (Some ''Bearer .u'') (s'\<lparr>w_redis := w_redis mem_cached_world\<rparr>)))"
    by (simp add: run)
  have "isl (fst (userAuthGuard mem_cached_env (Some ''Bearer .u'') s'))"
    by (rule logout_all_ends_access [OF spec mem_cached_deletes run user token verify, THEN conjunct1]) simp_all
  then show ?thesis using run stale by blast
qed

end
