(* ===== verification/SessionOverlap.thy ===== *)
theory SessionOverlap
  imports AuthSessions
begin

text \<open>
  How many sessions a user can have. The transaction of a login is cut where other transactions can
  commit: after it has counted the sessions and picked the one to evict, and before it revokes that one
  and stores its own. The database runs at its default isolation, so what a login picked may have been
  refreshed, revoked or have expired by the time it is revoked. Two logins of one user do not overlap:
  the transaction starts by saving the user, and the row stays locked until it ends.
\<close>

section \<open>A login in two parts\<close>

definition login_open ::
  "('d, 'r) auth_env \<Rightarrow> time \<Rightarrow> UserProps \<Rightarrow> ('d, 'r, SessionProps option) action" where
  "login_open env now user =
     (let user' = User_resetLoginAttempts now user in
      act_bind (user_save (ae_db env) user') (\<lambda>_.
      act_bind (session_countActiveByUserId (ae_db env) (us_id user') now) (\<lambda>activeSessions.
      if activeSessions \<ge> MAX_SESSIONS
      then db_read (tb_findOldest (ad_sessions (ae_db env)) (session_active (us_id user') now) se_createdAt)
      else act_return None)))"

definition login_close ::
  "('d, 'r) auth_env \<Rightarrow> time \<Rightarrow> time \<Rightarrow> string \<Rightarrow> string \<Rightarrow> string \<Rightarrow> string \<Rightarrow> UserProps \<Rightarrow>
   SessionProps option \<Rightarrow> ('d, 'r, LoginResult) action" where
  "login_close env now created uuid raw ipAddress userAgent user oldest =
     (let user' = User_resetLoginAttempts now user in
      act_bind (case oldest of
         Some p \<Rightarrow> db_write (tb_update (ad_sessions (ae_db env)) (se_id p) (\<lambda>s. s\<lparr>se_revokedAt := Some now\<rparr>))
       | None \<Rightarrow> act_return ()) (\<lambda>_.
      act_bind (sum_action (Session_create uuid created (us_id user') (ae_tokenHash env raw) (ae_refreshTTL env)
          ipAddress userAgent)) (\<lambda>session.
      act_bind (session_save (ae_db env) session) (\<lambda>_.
      login_result env user' raw))))"

lemma act_bind_assoc: "act_bind (act_bind m f) g = act_bind m (\<lambda>x. act_bind (f x) g)"
  by (rule ext) (auto simp: act_bind_def split: sum.split prod.split)

lemma act_bind_return: "act_bind (act_return x) f = f x"
  by (rule ext) (simp add: act_bind_def act_return_def)

lemma room_cut:
  "act_bind (if b then session_revokeOldestActiveSession db userId now else act_return ()) k =
     act_bind (if b then db_read (tb_findOldest (ad_sessions db) (session_active userId now) se_createdAt)
               else act_return None)
       (\<lambda>oldest. act_bind (case oldest of
           Some p \<Rightarrow> db_write (tb_update (ad_sessions db) (se_id p) (\<lambda>s. s\<lparr>se_revokedAt := Some now\<rparr>))
         | None \<Rightarrow> act_return ()) k)"
  by (simp add: session_revokeOldestActiveSession_def act_bind_assoc act_bind_return)

text \<open>The two parts, one right after the other, are the transaction of the login.\<close>

lemma login_success_cut:
  "login_success env now created uuid raw ipAddress userAgent user =
     act_tx (act_bind (login_open env now user) (login_close env now created uuid raw ipAddress userAgent user))"
  unfolding login_success_def login_open_def login_close_def Let_def act_bind_assoc room_cut by (rule refl)

text \<open>
  What takes effect when the transaction commits. Nobody else sees the user it saved before that, and
  nobody else can change that row, so saving it again at the commit is what the database does.
\<close>

definition login_end ::
  "('d, 'r) auth_env \<Rightarrow> time \<Rightarrow> time \<Rightarrow> string \<Rightarrow> string \<Rightarrow> string \<Rightarrow> string \<Rightarrow> UserProps \<Rightarrow>
   SessionProps option \<Rightarrow> ('d, 'r, LoginResult) action" where
  "login_end env now created uuid raw ipAddress userAgent user oldest =
     act_tx (act_bind (user_save (ae_db env) (User_resetLoginAttempts now user)) (\<lambda>_.
       login_close env now created uuid raw ipAddress userAgent user oldest))"

section \<open>Active sessions over the calls\<close>

text \<open>A refresh replaces a session by its successor: there are not more of them.\<close>

lemma refresh_tx_card:
  assumes spec: "auth_db_spec (ae_db env) view"
    and fresh: "av_sessions (view (w_db s)) uuid = None"
    and run: "refresh_tx env now created uuid newRaw raw s = (Inr outcome, s')"
  shows "card (active_ids U now (view (w_db s'))) \<le> card (active_ids U now (view (w_db s)))"
proof (rule refresh_tx_Inr [OF spec run], goal_cases)
  case (3 old)
  then show ?case using refresh_again_Inr [OF spec 3(5)] by (simp add: active_ids_def)
next
  case (4 old)
  from refresh_rotate_Inr [OF spec 4(5,1,4) fresh] show ?case
  proof
    assume "outcome = RefreshInvalid \<and> view (w_db s') = view (w_db s)"
    then show ?thesis by (simp add: active_ids_def)
  next
    assume "\<exists>u cipher. outcome = RefreshOk u newRaw \<and> av_users (view (w_db s)) (se_userId old) = Some u \<and>
       User_ensureCanLogin now u = None \<and> ttl_valid (ae_refreshTTL env) \<and> ae_encrypt env newRaw = Some cipher \<and>
       view (w_db s') = av_sessions_update (\<lambda>m. purged (se_userId old) (now - REFRESH_ROTATION_GRACE_MS)
         (m(se_id old \<mapsto> rotated now uuid cipher old, uuid \<mapsto> successor_of env created uuid newRaw old))) (view (w_db s))"
    then obtain cipher where v: "view (w_db s') = av_sessions_update (\<lambda>m. purged (se_userId old) (now - REFRESH_ROTATION_GRACE_MS)
         (m(se_id old \<mapsto> rotated now uuid cipher old, uuid \<mapsto> successor_of env created uuid newRaw old))) (view (w_db s))"
      by blast
    have ids: "active_ids U now (view (w_db s')) \<subseteq> (if U = se_userId old
        then insert uuid (active_ids U now (view (w_db s)) - {se_id old}) else active_ids U now (view (w_db s)))" for U
    proof
      fix k assume "k \<in> active_ids U now (view (w_db s'))"
      then obtain p where p: "purged (se_userId old) (now - REFRESH_ROTATION_GRACE_MS)
         ((av_sessions (view (w_db s)))(se_id old \<mapsto> rotated now uuid cipher old,
            uuid \<mapsto> successor_of env created uuid newRaw old)) k = Some p" "session_active U now p"
        unfolding v active_sessions_update matching_def by blast
      obtain q where row: "((av_sessions (view (w_db s)))(se_id old \<mapsto> rotated now uuid cipher old,
            uuid \<mapsto> successor_of env created uuid newRaw old)) k = Some q"
        and same: "\<And>U now. session_active U now p \<longleftrightarrow> session_active U now q"
        by (rule purged_row [OF p(1)]) (rule that; assumption)
      note q = row p(2) [unfolded same]
      consider "k = uuid" | "k \<noteq> uuid" "k = se_id old" | "k \<noteq> uuid" "k \<noteq> se_id old" by blast
      then show "k \<in> (if U = se_userId old
        then insert uuid (active_ids U now (view (w_db s)) - {se_id old}) else active_ids U now (view (w_db s)))"
      proof cases
        case 1
        then have "q = successor_of env created uuid newRaw old" using q(1) by simp
        then show ?thesis using q(2) 1 by (simp add: session_active_def successor_of_def)
      next
        case 2
        then have "q = rotated now uuid cipher old" using q(1) by simp
        then show ?thesis using q(2) by (simp add: session_active_def rotated_def)
      next
        case 3
        then have "av_sessions (view (w_db s)) k = Some q" using q(1) by simp
        then have "k \<in> active_ids U now (view (w_db s))" using q(2) by (simp add: active_ids_def matching_def)
        then show ?thesis using 3(2) by (cases "U = se_userId old") simp_all
      qed
    qed
    have was: "se_id old \<in> active_ids (se_userId old) now (view (w_db s))"
      using 4(1-4) by (auto simp: active_ids_def matching_def session_active_def Session_isExpired_def Session_isRevoked_def)
    show ?thesis
    proof (cases "U = se_userId old")
      case True
      have "card (active_ids U now (view (w_db s'))) \<le> card (insert uuid (active_ids U now (view (w_db s)) - {se_id old}))"
        using ids [of U] True finite_active [OF spec] by (intro card_mono) auto
      also have "\<dots> \<le> Suc (card (active_ids U now (view (w_db s)) - {se_id old}))" by (rule card_insert_le_m1) auto
      also have "\<dots> = card (active_ids U now (view (w_db s)))"
        using was True finite_active [OF spec] by (intro card_Suc_Diff1) auto
      finally show ?thesis .
    next
      case False
      then show ?thesis using ids [of U] finite_active [OF spec] by (intro card_mono) auto
    qed
  qed
qed (simp_all add: active_ids_def)

lemma login_open_room:
  assumes spec: "auth_db_spec (ae_db env) view" and "login_open env now user s = (Inr None, s')"
  shows "card (active_ids (us_id user) now (view (w_db s))) < MAX_SESSIONS"
proof -
  have id: "us_id (User_resetLoginAttempts now user) = us_id user" by (simp add: User_resetLoginAttempts_def)
  obtain x s1 n s2 where run: "user_save (ae_db env) (User_resetLoginAttempts now user) s = (Inr x, s1)"
    "session_countActiveByUserId (ae_db env) (us_id user) now s1 = (Inr n, s2)"
    "(if n \<ge> MAX_SESSIONS
      then db_read (tb_findOldest (ad_sessions (ae_db env)) (session_active (us_id user) now) se_createdAt)
      else act_return None) s2 = (Inr None, s')"
    using assms(2) unfolding login_open_def Let_def act_bind_Inr id by blast
  have saved: "user_save (ae_db env) (User_resetLoginAttempts now user) s = (Inr (), s1)" using run(1) by simp
  note n = count_active_Inr [OF spec run(2)]
  have same: "active_ids (us_id user) now (view (w_db s1)) = active_ids (us_id user) now (view (w_db s))"
    using user_save_view [OF spec saved] by simp
  show ?thesis
  proof (cases "n \<ge> MAX_SESSIONS")
    case False
    then show ?thesis using n same by simp
  next
    case True
    then have "tb_findOldest (ad_sessions (ae_db env)) (session_active (us_id user) now) se_createdAt (w_db s1) = Some None"
      using run(3) n(1) by (auto simp: db_read_def split: option.splits)
    from table_findOldest(1) [OF auth_tables(2) [OF spec] this]
    have "active_ids (us_id user) now (view (w_db s1)) = {}" by (simp add: first_of_def active_ids_def)
    then show ?thesis using same by (simp add: MAX_SESSIONS_def)
  qed
qed

lemma login_end_active:
  assumes spec: "auth_db_spec (ae_db env) view"
    and run: "login_end env read created uuid raw ipAddress userAgent user oldest s = (Inr res, s')"
    and fresh: "av_sessions (view (w_db s)) uuid = None"
  shows "active_ids U now (view (w_db s')) \<subseteq>
    (let rest = active_ids U now (view (w_db s)) - (case oldest of Some p \<Rightarrow> {se_id p} | None \<Rightarrow> {})
     in if U = us_id user then insert uuid rest else rest)"
proof -
  have id: "us_id (User_resetLoginAttempts read user) = us_id user" by (simp add: User_resetLoginAttempts_def)
  obtain x s1 y s2 p z s3 where parts:
    "user_save (ae_db env) (User_resetLoginAttempts read user) s = (Inr x, s1)"
    "(case oldest of
       Some p \<Rightarrow> db_write (tb_update (ad_sessions (ae_db env)) (se_id p) (\<lambda>s. s\<lparr>se_revokedAt := Some read\<rparr>))
     | None \<Rightarrow> act_return ()) s1 = (Inr y, s2)"
    "Session_create uuid created (us_id user) (ae_tokenHash env raw) (ae_refreshTTL env) ipAddress userAgent = Inr p"
    "session_save (ae_db env) p s2 = (Inr z, s3)" "login_result env (User_resetLoginAttempts read user) raw s3 = (Inr res, s')"
    using run unfolding login_end_def login_close_def Let_def act_tx_Inr act_bind_Inr sum_action_Inr id by blast
  have saved: "user_save (ae_db env) (User_resetLoginAttempts read user) s = (Inr (), s1)"
    and stored: "session_save (ae_db env) p s2 = (Inr (), s3)" using parts(1,4) by simp_all
  have v1: "av_sessions (view (w_db s1)) = av_sessions (view (w_db s))"
    using user_save_view [OF spec saved] by simp
  have v2: "dom (av_sessions (view (w_db s2))) = dom (av_sessions (view (w_db s1)))"
    "active_ids U now (view (w_db s2)) \<subseteq> active_ids U now (view (w_db s)) - (case oldest of Some p \<Rightarrow> {se_id p} | None \<Rightarrow> {})"
  proof -
    have "dom (av_sessions (view (w_db s2))) = dom (av_sessions (view (w_db s1))) \<and>
      active_ids U now (view (w_db s2)) \<subseteq> active_ids U now (view (w_db s)) - (case oldest of Some p \<Rightarrow> {se_id p} | None \<Rightarrow> {})"
    proof (cases oldest)
      case None
      then show ?thesis using parts(2) v1 by (simp add: act_return_def active_ids_def)
    next
      case (Some p)
      then obtain d where d: "tb_update (ad_sessions (ae_db env)) (se_id p) (\<lambda>s. s\<lparr>se_revokedAt := Some read\<rparr>) (w_db s1) = Some d"
        "s2 = s1\<lparr>w_db := d\<rparr>"
        using parts(2) by (auto simp: action_simps)
      have "view d = av_sessions_update (change_row (se_id p) (\<lambda>s. s\<lparr>se_revokedAt := Some read\<rparr>)) (view (w_db s1))"
        by (rule table_update(2) [OF auth_tables(2) [OF spec] _ d(1)]) simp
      then show ?thesis
        using d(2) Some v1
        by (auto simp: active_ids_def matching_def session_active_def change_row_def split: option.splits if_splits)
    qed
    then show "dom (av_sessions (view (w_db s2))) = dom (av_sessions (view (w_db s1)))"
      "active_ids U now (view (w_db s2)) \<subseteq> active_ids U now (view (w_db s)) - (case oldest of Some p \<Rightarrow> {se_id p} | None \<Rightarrow> {})"
      by blast+
  qed
  have "uuid \<notin> dom (av_sessions (view (w_db s2)))" using v1 v2(1) fresh by (simp add: domIff)
  from add_session [OF spec parts(3) stored this, of U now] v2(2) login_result_Inr [OF parts(5)]
  show ?thesis by (auto simp: Let_def split: if_splits)
qed

section \<open>Steps\<close>

text \<open>
  The clock, the world, the open login of every user (the time it read, the user and its pick) and
  how many logins of \<open>userId\<close> evicted a session that was no longer active. A login's clock is read
  before its transaction. A refresh is its transaction, which locks the row of its session, and then
  what follows it; every other call is one step, and what a check read earlier is whatever it is. A
  new session has an identifier that is not in use.
\<close>

type_synonym logins = "string \<Rightarrow> (time \<times> UserProps \<times> SessionProps option) option"
type_synonym ('d, 'r) session_config = "time \<times> ('d, 'r) world \<times> logins \<times> nat"

definition stale_pick :: "string \<Rightarrow> time \<Rightarrow> 'a auth_view_scheme \<Rightarrow> UserProps \<Rightarrow> SessionProps option \<Rightarrow> bool" where
  "stale_pick userId now v user oldest \<longleftrightarrow>
     us_id user = userId \<and> (case oldest of None \<Rightarrow> False | Some p \<Rightarrow> se_id p \<notin> active_ids userId now v)"

inductive session_step ::
  "('d, 'r) auth_env \<Rightarrow> ('d \<Rightarrow> auth_view) \<Rightarrow> string \<Rightarrow> ('d, 'r) session_config \<Rightarrow> ('d, 'r) session_config \<Rightarrow> bool"
  for env view userId where
  login_opens: "t \<le> now \<Longrightarrow> read \<le> now \<Longrightarrow> open_logins (us_id user) = None \<Longrightarrow>
    login_open env read user s = (Inr oldest, s1) \<Longrightarrow>
    session_step env view userId (t, s, open_logins, n) (now, s, open_logins(us_id user \<mapsto> (read, user, oldest)), n)"
| login_commits: "t \<le> now \<Longrightarrow> open_logins (us_id user) = Some (read, user, oldest) \<Longrightarrow>
    av_sessions (view (w_db s)) uuid = None \<Longrightarrow>
    login_end env read created uuid raw ipAddress userAgent user oldest s = (Inr res, s') \<Longrightarrow>
    session_step env view userId (t, s, open_logins, n)
      (now, s', open_logins(us_id user := None), if stale_pick userId now (view (w_db s)) user oldest then Suc n else n)"
| login_rolls_back: "t \<le> now \<Longrightarrow>
    session_step env view userId (t, s, open_logins, n) (now, s, open_logins(u := None), n)"
| login_fails: "t \<le> now \<Longrightarrow>
    session_step env view userId (t, s, open_logins, n) (now, snd ((login_failed env now user :: ('d, 'r, LoginResult) action) s), open_logins, n)"
| refresh: "t \<le> now \<Longrightarrow> av_sessions (view (w_db s)) uuid = None \<Longrightarrow>
    session_step env view userId (t, s, open_logins, n)
      (now, snd (refresh_tx env now created uuid newRaw raw s), open_logins, n)"
| refreshed: "t \<le> now \<Longrightarrow>
    session_step env view userId (t, s, open_logins, n) (now, snd (refresh_finish env now outcome s), open_logins, n)"
| logout: "t \<le> now \<Longrightarrow>
    session_step env view userId (t, s, open_logins, n) (now, snd (Logout_execute env now raw s), open_logins, n)"
| logoutAll: "t \<le> now \<Longrightarrow>
    session_step env view userId (t, s, open_logins, n) (now, snd (LogoutAll_execute env now u s), open_logins, n)"
| register: "t \<le> now \<Longrightarrow> session_step env view userId (t, s, open_logins, n)
    (now, snd (Register_execute env valid now uuid tokenId raw email password firstName lastName s), open_logins, n)"
| resend: "t \<le> now \<Longrightarrow> session_step env view userId (t, s, open_logins, n)
    (now, snd (resend_verification env now tokenId raw email s), open_logins, n)"
| forgot: "t \<le> now \<Longrightarrow> session_step env view userId (t, s, open_logins, n)
    (now, snd (RequestPasswordReset_execute env now tokenId raw email s), open_logins, n)"
| reset: "t \<le> now \<Longrightarrow> session_step env view userId (t, s, open_logins, n)
    (now, snd (ResetPassword_execute env now raw newPassword s), open_logins, n)"
| change: "t \<le> now \<Longrightarrow> session_step env view userId (t, s, open_logins, n)
    (now, snd (change_commit env now checked s), open_logins, n)"
| profile: "t \<le> now \<Longrightarrow> session_step env view userId (t, s, open_logins, n)
    (now, snd (UpdateProfile_route env now u firstName lastName s), open_logins, n)"


section \<open>The bound\<close>

definition login_room :: "string \<Rightarrow> ('d \<Rightarrow> auth_view) \<Rightarrow> ('d, 'r) session_config \<Rightarrow> bool" where
  "login_room userId view c \<longleftrightarrow> (case c of (t, s, open_logins, n) \<Rightarrow>
     (\<forall>u read user oldest. open_logins u = Some (read, user, oldest) \<longrightarrow> us_id user = u) \<and>
     card (active_ids userId t (view (w_db s))) \<le> MAX_SESSIONS + n \<and>
     (\<forall>read user. open_logins userId = Some (read, user, None) \<longrightarrow>
        card (active_ids userId t (view (w_db s))) < MAX_SESSIONS + n))"

lemma login_room_card:
  assumes "login_room userId view (t, s, open_logins, n)"
    and "card (active_ids userId now (view (w_db s'))) \<le> card (active_ids userId t (view (w_db s)))"
  shows "login_room userId view (now, s', open_logins, n)" "login_room userId view (now, s', open_logins(u := None), n)"
  using assms by (auto simp: login_room_def)

lemma card_shrinks:
  assumes spec: "auth_db_spec db view" and "t \<le> now" and "shrinks now view m"
  shows "card (active_ids userId now (view (w_db (snd (m s))))) \<le> card (active_ids userId t (view (w_db s)))"
  using subset_trans [OF shrinksD [OF assms(3)] active_later [OF assms(2)]] by (rule card_mono [OF finite_active [OF spec]])

lemma card_later:
  assumes "auth_db_spec db view" "t \<le> now"
  shows "card (active_ids userId now (view d)) \<le> card (active_ids userId t (view d))"
  by (rule card_mono [OF finite_active [OF assms(1)] active_later [OF assms(2)]])

lemma card_refresh:
  assumes spec: "auth_db_spec (ae_db env) view" and "t \<le> now" and fresh: "av_sessions (view (w_db s)) uuid = None"
  shows "card (active_ids userId now (view (w_db (snd (refresh_tx env now created uuid newRaw raw s))))) \<le>
    card (active_ids userId t (view (w_db s)))"
proof (cases "refresh_tx env now created uuid newRaw raw s")
  case (Pair x s')
  have "card (active_ids userId now (view (w_db s'))) \<le> card (active_ids userId now (view (w_db s)))"
  proof (cases x)
    case (Inl e)
    then have "w_db s' = w_db s" using Pair tx_error_rolls_back unfolding refresh_tx_def by blast
    then show ?thesis by simp
  next
    case (Inr outcome)
    then show ?thesis using refresh_tx_card [OF spec fresh] Pair by blast
  qed
  then show ?thesis using Pair card_later [OF spec assms(2), of userId "w_db s"] by simp
qed

lemma login_room_opens:
  assumes spec: "auth_db_spec (ae_db env) view" and room: "login_room userId view (t, s, open_logins, n)"
    and "t \<le> now" "read \<le> now" and run: "login_open env read user s = (Inr oldest, s1)"
  shows "login_room userId view (now, s, open_logins(us_id user \<mapsto> (read, user, oldest)), n)"
proof -
  have "login_room userId view (now, s, open_logins, n)"
    by (rule login_room_card(1) [OF room card_later [OF spec assms(3)]])
  moreover have "card (active_ids userId now (view (w_db s))) < MAX_SESSIONS" if "oldest = None" "us_id user = userId"
    using login_open_room [OF spec run [unfolded that(1)]] card_later [OF spec assms(4), of userId "w_db s"] that(2) by simp
  ultimately show ?thesis by (auto simp: login_room_def)
qed

lemma login_room_commits:
  assumes spec: "auth_db_spec (ae_db env) view" and room: "login_room userId view (t, s, open_logins, n)"
    and now: "t \<le> now" and opened: "open_logins (us_id user) = Some (read, user, oldest)"
    and fresh: "av_sessions (view (w_db s)) uuid = None"
    and run: "login_end env read created uuid raw ipAddress userAgent user oldest s = (Inr res, s')"
  shows "login_room userId view (now, s', open_logins(us_id user := None),
    if stale_pick userId now (view (w_db s)) user oldest then Suc n else n)"
proof -
  let ?A = "active_ids userId now (view (w_db s))" and ?A' = "active_ids userId now (view (w_db s'))"
  have fin: "finite ?A" by (rule finite_active [OF spec])
  have here: "login_room userId view (now, s, open_logins, n)"
    by (rule login_room_card(1) [OF room card_later [OF spec now]])
  note active = login_end_active [OF spec run fresh, of userId now]
  show ?thesis
  proof (cases "us_id user = userId")
    case False
    then have "?A' \<subseteq> ?A" using active by (auto simp: Let_def)
    then have "card ?A' \<le> card ?A" by (rule card_mono [OF fin])
    then show ?thesis using login_room_card(2) [OF here, of now s' "us_id user"] False by (simp add: stale_pick_def)
  next
    case True
    let ?rest = "?A - (case oldest of Some p \<Rightarrow> {se_id p} | None \<Rightarrow> {})"
    have "?A' \<subseteq> insert uuid ?rest" using active True by (auto simp: Let_def split: if_splits)
    then have "card ?A' \<le> card (insert uuid ?rest)" using fin by (intro card_mono) auto
    also have "\<dots> \<le> Suc (card ?rest)" by (rule card_insert_le_m1) auto
    also have "\<dots> \<le> MAX_SESSIONS + (if stale_pick userId now (view (w_db s)) user oldest then Suc n else n)"
    proof (cases oldest)
      case None
      then have "card ?A < MAX_SESSIONS + n" using here opened True by (auto simp: login_room_def)
      then show ?thesis using None by (simp add: stale_pick_def)
    next
      case (Some p)
      have "card ?A \<le> MAX_SESSIONS + n" using here by (simp add: login_room_def)
      moreover have "se_id p \<in> ?A \<Longrightarrow> Suc (card ?rest) = card ?A"
        using Some card_Suc_Diff1 [OF fin] by simp
      moreover have "se_id p \<notin> ?A \<Longrightarrow> ?rest = ?A" using Some by simp
      ultimately show ?thesis using Some True by (cases "se_id p \<in> ?A") (auto simp: stale_pick_def)
    qed
    finally show ?thesis using here True by (auto simp: login_room_def)
  qed
qed

lemma session_step_room:
  assumes spec: "auth_db_spec (ae_db env) view"
    and "session_step env view userId c c'" "login_room userId view c"
  shows "login_room userId view c'"
  using assms(2,3)
proof (induction rule: session_step.induct)
  case (login_opens t now read open_logins user s oldest s1 n)
  then show ?case by (blast intro: login_room_opens [OF spec])
next
  case (login_commits t now open_logins user read oldest s uuid created raw ipAddress userAgent res s' n)
  then show ?case by (blast intro: login_room_commits [OF spec])
next
  case (login_rolls_back t now s open_logins n u)
  then show ?case by (blast intro: login_room_card(2) card_later [OF spec])
next
  case (refresh t now s uuid open_logins n created newRaw raw)
  then show ?case by (blast intro: login_room_card(1) card_refresh [OF spec])
qed (blast intro: login_room_card(1) card_shrinks [OF spec] shrinks_login_failed [OF spec]
      shrinks_refresh_finish [OF spec] shrinks_logout [OF spec] shrinks_logoutAll [OF spec] shrinks_register [OF spec]
      shrinks_resend [OF spec] shrinks_request_reset [OF spec] shrinks_reset [OF spec] shrinks_change [OF spec]
      shrinks_profile [OF spec])+

text \<open>
  C8: The bound on sessions. Starting without sessions and without open logins, whatever calls run in
  whatever order, and whatever other transactions commit while the transaction of a login is open, a
  user has at most five sessions that are neither revoked nor expired, and one more for each of the
  user's logins that evicted a session which was no longer active when the login committed: a refresh
  of that session that commits in between leaves its successor active and the eviction without effect.
  Where no login evicts a session that has just been refreshed or has just ended, the bound is five.
\<close>

theorem sessions_bounded:
  assumes "auth_db_spec (ae_db env) view"
    and "(session_step env view userId)\<^sup>*\<^sup>* (t, s, \<lambda>u. None, 0) (t', s', open_logins, n)"
    and "av_sessions (view (w_db s)) = Map.empty"
  shows "card {i. \<exists>p. av_sessions (view (w_db s')) i = Some p \<and> session_active userId t' p} \<le> MAX_SESSIONS + n"
proof -
  have keep: "login_room userId view c'" if "(session_step env view userId)\<^sup>*\<^sup>* c c'" "login_room userId view c" for c c'
    using that by (induction rule: rtranclp_induct) (auto intro: session_step_room [OF assms(1)])
  have "login_room userId view (t, s, \<lambda>u. None, 0)"
    using assms(3) by (simp add: login_room_def active_ids_def matching_def)
  from keep [OF assms(2) this] show ?thesis by (simp add: login_room_def active_ids_def matching_def)
qed

text \<open>
  Five logins, and a sixth whose transaction is open while the oldest session is refreshed: it evicts the
  session that the refresh has already replaced, and six are active.
\<close>

definition six_empty :: "(auth_mem, unit) world" where
  "six_empty = mem_auth_world\<lparr>w_db := (w_db mem_auth_world)\<lparr>am_sessions := []\<rparr>\<rparr>"

definition mem_pick :: "(auth_mem, unit) world \<Rightarrow> SessionProps option" where
  "mem_pick s = (case fst (login_open mem_auth_env 10 mem_user s) of Inl _ \<Rightarrow> None | Inr oldest \<Rightarrow> oldest)"

definition mem_commit :: "char \<Rightarrow> SessionProps option \<Rightarrow> (auth_mem, unit) world \<Rightarrow>
    (app_error + LoginResult) \<times> (auth_mem, unit) world" where
  "mem_commit c oldest s =
     login_end mem_auth_env 10 (int (length (am_sessions (w_db s)))) [c] [c] [] [] mem_user oldest s"

definition mem_ready :: "char \<Rightarrow> SessionProps option \<Rightarrow> (auth_mem, unit) world \<Rightarrow> bool" where
  "mem_ready c oldest s \<longleftrightarrow> av_sessions (mem_view (w_db s)) [c] = None \<and> \<not> isl (fst (mem_commit c oldest s))"

primrec six_logins :: "string \<Rightarrow> (auth_mem, unit) world \<Rightarrow> (auth_mem, unit) world" where
  "six_logins [] s = s"
| "six_logins (c # cs) s = six_logins cs (snd (mem_commit c (mem_pick s) s))"

primrec six_logins_ready :: "string \<Rightarrow> (auth_mem, unit) world \<Rightarrow> bool" where
  "six_logins_ready [] s \<longleftrightarrow> True"
| "six_logins_ready (c # cs) s \<longleftrightarrow> \<not> isl (fst (login_open mem_auth_env 10 mem_user s)) \<and> mem_pick s = None \<and>
     mem_ready c None s \<and> six_logins_ready cs (snd (mem_commit c None s))"

abbreviation mem_step :: "(auth_mem, unit) session_config \<Rightarrow> (auth_mem, unit) session_config \<Rightarrow> bool" where
  "mem_step \<equiv> session_step mem_auth_env mem_view ''u''"

lemma ended_Inr: "\<not> isl (fst r) \<Longrightarrow> \<exists>x s'. r = (Inr x, s')"
  by (cases r; cases "fst r") auto

lemma mem_opens:
  assumes "\<not> isl (fst (login_open mem_auth_env 10 mem_user s))"
  shows "mem_step (10, s, \<lambda>u. None, n) (10, s, [''u'' \<mapsto> (10, mem_user, mem_pick s)], n)"
proof -
  obtain oldest s1 where run: "login_open mem_auth_env 10 mem_user s = (Inr oldest, s1)"
    using ended_Inr [OF assms] by blast
  have "us_id mem_user = ''u''" by (simp add: mem_user_def)
  with session_step.login_opens [OF order_refl order_refl _ run, of "\<lambda>u. None" mem_view "''u''" n]
  show ?thesis by (simp add: mem_pick_def run)
qed

lemma mem_commits:
  assumes "mem_ready c oldest s"
  shows "mem_step (10, s, [''u'' \<mapsto> (10, mem_user, oldest)], n) (10, snd (mem_commit c oldest s), \<lambda>u. None,
    if stale_pick ''u'' 10 (mem_view (w_db s)) mem_user oldest then Suc n else n)"
proof -
  obtain res s' where run: "mem_commit c oldest s = (Inr res, s')"
    using ended_Inr [of "mem_commit c oldest s"] assms by (auto simp: mem_ready_def)
  have "us_id mem_user = ''u''" by (simp add: mem_user_def)
  moreover have "av_sessions (mem_view (w_db s)) [c] = None" using assms by (simp add: mem_ready_def)
  moreover have "[''u'' \<mapsto> (10, mem_user, oldest)](''u'' := None) = (\<lambda>u. None)" by (simp add: fun_eq_iff)
  ultimately show ?thesis
    using session_step.login_commits [OF order_refl [of 10] _ _ run [unfolded mem_commit_def],
        where open_logins = "[''u'' \<mapsto> (10, mem_user, oldest)]" and view = mem_view
          and userId = "''u''" and n = n] run
    by simp
qed

lemma six_logins_reach:
  "six_logins_ready cs s \<Longrightarrow> mem_step\<^sup>*\<^sup>* (10, s, \<lambda>u. None, 0) (10, six_logins cs s, \<lambda>u. None, 0)"
proof (induction cs arbitrary: s)
  case (Cons c cs)
  then have "mem_step\<^sup>*\<^sup>* (10, s, \<lambda>u. None, 0) (10, snd (mem_commit c None s), \<lambda>u. None, 0)"
    using mem_opens [of s 0] mem_commits [of c None s 0] by (auto simp: stale_pick_def)
  moreover have "mem_step\<^sup>*\<^sup>* (10, snd (mem_commit c None s), \<lambda>u. None, 0) (10, six_logins (c # cs) s, \<lambda>u. None, 0)"
    using Cons by simp
  ultimately show ?case by (rule rtranclp_trans)
qed simp

definition mem_five :: "(auth_mem, unit) world" where
  "mem_five = six_logins ''abcde'' six_empty"

definition mem_refreshed :: "(auth_mem, unit) world" where
  "mem_refreshed = snd (refresh_tx mem_auth_env 10 9 ''f'' ''f'' ''a'' mem_five)"

theorem sessions_bounded_witness:
  "card {i. \<exists>p. av_sessions (mem_view (w_db (snd (mem_commit CHR ''g'' (mem_pick mem_five) mem_refreshed)))) i = Some p \<and>
     session_active ''u'' 10 p} \<le> MAX_SESSIONS + 1 \<and>
   map (\<lambda>c. map_option (session_active ''u'' 10)
     (av_sessions (mem_view (w_db (snd (mem_commit CHR ''g'' (mem_pick mem_five) mem_refreshed)))) [c])) ''abcdefg'' =
     [Some False, Some True, Some True, Some True, Some True, Some True, Some True]"
proof
  let ?w = "[''u'' \<mapsto> (10, mem_user, mem_pick mem_five)]"
  have "six_logins_ready ''abcde'' six_empty" by code_simp
  note five = six_logins_reach [OF this, folded mem_five_def]
  have "\<not> isl (fst (login_open mem_auth_env 10 mem_user mem_five))" by code_simp
  note opened = mem_opens [OF this, of 0]
  have "av_sessions (mem_view (w_db mem_five)) ''f'' = None" by code_simp
  then have "mem_step (10, mem_five, ?w, 0) (10, mem_refreshed, ?w, 0)"
    unfolding mem_refreshed_def by (intro session_step.refresh) simp_all
  note refreshed = this
  have "mem_ready CHR ''g'' (mem_pick mem_five) mem_refreshed" by code_simp
  note committed = mem_commits [OF this, of 0]
  have pick: "map_option se_id (mem_pick mem_five) = Some ''a''"
    "map_option Session_isRevoked (av_sessions (mem_view (w_db mem_refreshed)) ''a'') = Some True" by code_simp+
  then have "stale_pick ''u'' 10 (mem_view (w_db mem_refreshed)) mem_user (mem_pick mem_five)"
    by (auto simp: stale_pick_def mem_user_def active_ids_def matching_def session_active_def Session_isRevoked_def)
  with five opened refreshed committed
  have reached: "mem_step\<^sup>*\<^sup>* (10, six_empty, \<lambda>u. None, 0)
      (10, snd (mem_commit CHR ''g'' (mem_pick mem_five) mem_refreshed), \<lambda>u. None, 1)"
    by simp
  have "av_sessions (mem_view (w_db six_empty)) = Map.empty"
    by (simp add: six_empty_def mem_view_def fun_eq_iff)
  from sessions_bounded [OF mem_auth_env_spec reached this]
  show "card {i. \<exists>p. av_sessions (mem_view (w_db (snd (mem_commit CHR ''g'' (mem_pick mem_five) mem_refreshed)))) i = Some p \<and>
     session_active ''u'' 10 p} \<le> MAX_SESSIONS + 1" .
  show "map (\<lambda>c. map_option (session_active ''u'' 10)
     (av_sessions (mem_view (w_db (snd (mem_commit CHR ''g'' (mem_pick mem_five) mem_refreshed)))) [c])) ''abcdefg'' =
     [Some False, Some True, Some True, Some True, Some True, Some True, Some True]"
    by code_simp
qed

end
