(* ===== verification/OrgEntity.thy ===== *)
theory OrgEntity
  imports AuthUseCases Billing
begin

text \<open>
  \<^verbatim>\<open>apps/api/src/modules/identity\<close>: accounts with their slugs, roles, memberships and invitations, and
  their repositories. A query over a relation (the account of a membership) is a statement of
  its own; \<open>org_db_spec\<close> states what Prisma documents of it.
\<close>

section \<open>Slugs\<close>

text \<open>
  \<^verbatim>\<open>toLowerCase\<close>, \<^verbatim>\<open>normalize("NFD")\<close> and the removal of combining marks take an accented letter to its base letter in
  lower case; of the letters below 256 those are the ones listed.
\<close>

definition strip_accent :: "char \<Rightarrow> char" where
  "strip_accent c = (let n = (of_char c :: nat); m = (if 0xC0 \<le> n \<and> n \<le> 0xDD then n + 32 else n) in
     if 0xE0 \<le> m \<and> m \<le> 0xE5 then CHR ''a'' else if m = 0xE7 then CHR ''c''
     else if 0xE8 \<le> m \<and> m \<le> 0xEB then CHR ''e'' else if 0xEC \<le> m \<and> m \<le> 0xEF then CHR ''i''
     else if m = 0xF1 then CHR ''n'' else if 0xF2 \<le> m \<and> m \<le> 0xF6 then CHR ''o''
     else if 0xF9 \<le> m \<and> m \<le> 0xFC then CHR ''u'' else if m = 0xFD \<or> m = 0xFF then CHR ''y'' else c)"

definition slug_letter :: "char \<Rightarrow> bool" where
  "slug_letter c = (let n = (of_char c :: nat) in (97 \<le> n \<and> n \<le> 122) \<or> (48 \<le> n \<and> n \<le> 57))"

text \<open>A run of characters that satisfy \<open>P\<close> becomes one hyphen.\<close>

primrec collapse_from :: "(char \<Rightarrow> bool) \<Rightarrow> bool \<Rightarrow> string \<Rightarrow> string" where
  "collapse_from P seen [] = []"
| "collapse_from P seen (c # cs) =
     (if P c then (if seen then [] else ''-'') @ collapse_from P True cs else c # collapse_from P False cs)"

definition collapse_runs :: "(char \<Rightarrow> bool) \<Rightarrow> string \<Rightarrow> string" where
  "collapse_runs P = collapse_from P False"

definition is_hyphen :: "char \<Rightarrow> bool" where "is_hyphen c \<longleftrightarrow> c = CHR ''-''"

definition strip_trailing :: "string \<Rightarrow> string" where
  "strip_trailing s = rev (dropWhile is_hyphen (rev s))"

definition strip_hyphens :: "string \<Rightarrow> string" where
  "strip_hyphens s = strip_trailing (dropWhile is_hyphen s)"

definition slugify :: "string \<Rightarrow> string" where
  "slugify input = take 32 (strip_hyphens (collapse_runs is_hyphen
     (collapse_runs (\<lambda>c. is_space c \<or> c = CHR ''_'') (trim
       (filter (\<lambda>c. slug_letter c \<or> is_space c \<or> c = CHR ''-'') (map strip_accent (toLowerCase input)))))))"

definition SLUG_SUFFIX_LENGTH :: nat where "SLUG_SUFFIX_LENGTH = 8"
definition SLUG_MAX_LENGTH :: nat where "SLUG_MAX_LENGTH = 32"

text \<open>\<open>drawn\<close> is what the random draws from \<^verbatim>\<open>SUFFIX_ALPHABET\<close> give.\<close>

definition slug_suffix :: "string \<Rightarrow> bool" where
  "slug_suffix s \<longleftrightarrow> length s = SLUG_SUFFIX_LENGTH \<and> list_all slug_letter s"

definition generateAccountSlug :: "string \<Rightarrow> string option \<Rightarrow> string" where
  "generateAccountSlug drawn name =
     (let prefix = strip_trailing (take (SLUG_MAX_LENGTH - 1 - SLUG_SUFFIX_LENGTH)
        (slugify (case name of Some n \<Rightarrow> n | None \<Rightarrow> []))) in
      (if prefix = [] then ''workspace'' else prefix) @ ''-'' @ drawn)"

definition isValidSlug :: "string \<Rightarrow> bool" where
  "isValidSlug s \<longleftrightarrow>
     (length s \<ge> 2 \<and> length s \<le> 32 \<and> slug_letter (hd s) \<and> slug_letter (last s) \<and>
        list_all (\<lambda>c. slug_letter c \<or> c = CHR ''-'') s) \<or>
     (length s = 1 \<and> slug_letter (hd s))"

section \<open>Account\<close>

datatype AccountType = PERSONAL | ORGANIZATION

record AccountProps =
  acc_id :: string
  acc_name :: "string option"
  acc_type :: AccountType
  acc_status :: string
  acc_createdById :: string
  acc_graceEndsAt :: "time option"
  acc_slug :: "string option"
  acc_createdAt :: time
  acc_updatedAt :: time
  acc_deletedAt :: "time option"

definition Account_createPersonal :: "string \<Rightarrow> time \<Rightarrow> string \<Rightarrow> string \<Rightarrow> string option \<Rightarrow> AccountProps" where
  "Account_createPersonal uuid now drawn ownerUserId firstName =
     (let name = (if truthy firstName then the firstName @ [CHR 0x27] @ ''s Workspace'' else ''Personal Workspace'') in
      \<lparr>acc_id = uuid, acc_name = Some name, acc_type = PERSONAL, acc_status = ''ACTIVE'', acc_createdById = ownerUserId,
       acc_graceEndsAt = None, acc_slug = Some (generateAccountSlug drawn (Some name)), acc_createdAt = now,
       acc_updatedAt = now, acc_deletedAt = None\<rparr>)"

definition Account_createOrganization :: "string \<Rightarrow> time \<Rightarrow> string \<Rightarrow> string \<Rightarrow> string \<Rightarrow> app_error + AccountProps" where
  "Account_createOrganization uuid now drawn name createdById =
     (if length (trim name) < 2 then Inl (PlainError ''Organization name must be at least 2 characters'')
      else Inr \<lparr>acc_id = uuid, acc_name = Some (trim name), acc_type = ORGANIZATION, acc_status = ''ACTIVE'',
        acc_createdById = createdById, acc_graceEndsAt = None,
        acc_slug = Some (generateAccountSlug drawn (Some (trim name))), acc_createdAt = now, acc_updatedAt = now,
        acc_deletedAt = None\<rparr>)"

definition Account_setSlug :: "string \<Rightarrow> time \<Rightarrow> AccountProps \<Rightarrow> AccountProps" where
  "Account_setSlug slug now a = a\<lparr>acc_slug := Some slug, acc_updatedAt := now\<rparr>"

definition Account_rename :: "string \<Rightarrow> time \<Rightarrow> AccountProps \<Rightarrow> app_error + AccountProps" where
  "Account_rename name now a =
     (if acc_type a = PERSONAL then Inl (PlainError ''Cannot rename a personal account'')
      else if length (trim name) < 2 then Inl (PlainError ''Name too short'')
      else Inr (a\<lparr>acc_name := Some (trim name), acc_updatedAt := now\<rparr>))"

definition Account_suspend :: "time \<Rightarrow> AccountProps \<Rightarrow> AccountProps" where
  "Account_suspend now a = a\<lparr>acc_status := ''SUSPENDED'', acc_updatedAt := now\<rparr>"

definition Account_activate :: "time \<Rightarrow> AccountProps \<Rightarrow> AccountProps" where
  "Account_activate now a = a\<lparr>acc_status := ''ACTIVE'', acc_graceEndsAt := None, acc_updatedAt := now\<rparr>"

definition Account_markPastDue :: "time \<Rightarrow> time \<Rightarrow> AccountProps \<Rightarrow> AccountProps" where
  "Account_markPastDue graceEndsAt now a =
     a\<lparr>acc_status := ''PAST_DUE'', acc_graceEndsAt := Some graceEndsAt, acc_updatedAt := now\<rparr>"

definition Account_cancel :: "time \<Rightarrow> AccountProps \<Rightarrow> AccountProps" where
  "Account_cancel now a = a\<lparr>acc_status := ''CANCELED'', acc_updatedAt := now\<rparr>"

definition Account_softDelete :: "time \<Rightarrow> AccountProps \<Rightarrow> AccountProps" where
  "Account_softDelete now a = a\<lparr>acc_status := ''DELETED'', acc_deletedAt := Some now, acc_updatedAt := now\<rparr>"

definition Account_ensureActive :: "AccountProps \<Rightarrow> app_error option" where
  "Account_ensureActive a =
     (if acc_deletedAt a \<noteq> None then Some (PlainError ''Account has been deleted'')
      else if acc_status a = ''SUSPENDED'' then Some (PlainError ''Account is suspended'')
      else if acc_status a = ''CANCELED'' then Some (PlainError ''Account is canceled'') else None)"

section \<open>Role\<close>

record RoleProps =
  ro_id :: string
  ro_accountId :: string
  ro_name :: string
  ro_description :: "string option"
  ro_level :: nat
  ro_isSystem :: bool
  ro_isActive :: bool
  ro_createdAt :: time
  ro_updatedAt :: time

definition system_role :: "string \<Rightarrow> time \<Rightarrow> string \<Rightarrow> string \<Rightarrow> nat \<Rightarrow> string \<Rightarrow> RoleProps" where
  "system_role accountId now uuid name level description =
     \<lparr>ro_id = uuid, ro_accountId = accountId, ro_name = name, ro_description = Some description, ro_level = level,
      ro_isSystem = True, ro_isActive = True, ro_createdAt = now, ro_updatedAt = now\<rparr>"

definition Role_seedSystemRoles :: "string \<Rightarrow> time \<Rightarrow> string \<Rightarrow> string \<Rightarrow> string \<Rightarrow> RoleProps list" where
  "Role_seedSystemRoles accountId now uuid1 uuid2 uuid3 =
     [system_role accountId now uuid1 ''Owner'' RoleLevel_OWNER ''Full control. Cannot be removed or demoted without transfer.'',
      system_role accountId now uuid2 ''Admin'' RoleLevel_ADMIN ''Manage members, invitations, and account settings.'',
      system_role accountId now uuid3 ''Member'' RoleLevel_MEMBER ''Standard access to account resources.'']"

definition Role_create :: "string \<Rightarrow> time \<Rightarrow> string \<Rightarrow> string \<Rightarrow> string option \<Rightarrow> nat \<Rightarrow> RoleProps" where
  "Role_create uuid now accountId name description level =
     \<lparr>ro_id = uuid, ro_accountId = accountId, ro_name = trim name, ro_description = description, ro_level = level,
      ro_isSystem = False, ro_isActive = True, ro_createdAt = now, ro_updatedAt = now\<rparr>"

definition Role_rename :: "string \<Rightarrow> time \<Rightarrow> RoleProps \<Rightarrow> app_error + RoleProps" where
  "Role_rename name now r =
     (if ro_isSystem r then Inl (PlainError ''System roles cannot be renamed'')
      else if length (trim name) < 2 then Inl (PlainError ''Role name too short'')
      else Inr (r\<lparr>ro_name := trim name, ro_updatedAt := now\<rparr>))"

definition Role_deactivate :: "time \<Rightarrow> RoleProps \<Rightarrow> app_error + RoleProps" where
  "Role_deactivate now r =
     (if ro_isSystem r then Inl (PlainError ''System roles cannot be deactivated'')
      else Inr (r\<lparr>ro_isActive := False, ro_updatedAt := now\<rparr>))"

definition Role_ensureNotSystem :: "RoleProps \<Rightarrow> app_error option" where
  "Role_ensureNotSystem r =
     (if ro_isSystem r then Some (PlainError ''This operation is not permitted on system roles'') else None)"

section \<open>Membership\<close>

record MembershipProps =
  mp_userId :: string
  mp_accountId :: string
  mp_roleId :: string
  mp_roleLevel :: nat
  mp_createdAt :: time

definition Membership_create :: "time \<Rightarrow> string \<Rightarrow> string \<Rightarrow> RoleProps \<Rightarrow> MembershipProps" where
  "Membership_create now accountId userId r =
     \<lparr>mp_userId = userId, mp_accountId = accountId, mp_roleId = ro_id r, mp_roleLevel = ro_level r, mp_createdAt = now\<rparr>"

definition isOwner :: "MembershipProps \<Rightarrow> bool" where "isOwner m \<longleftrightarrow> mp_roleLevel m = RoleLevel_OWNER"
definition isAdmin :: "MembershipProps \<Rightarrow> bool" where "isAdmin m \<longleftrightarrow> mp_roleLevel m \<ge> RoleLevel_ADMIN"
definition isMember :: "MembershipProps \<Rightarrow> bool" where "isMember m \<longleftrightarrow> mp_roleLevel m \<ge> RoleLevel_MEMBER"

definition Membership_changeRole :: "RoleProps \<Rightarrow> MembershipProps \<Rightarrow> MembershipProps" where
  "Membership_changeRole r m = m\<lparr>mp_roleId := ro_id r, mp_roleLevel := ro_level r\<rparr>"

definition canManage :: "MembershipProps \<Rightarrow> MembershipProps \<Rightarrow> bool" where
  "canManage actor target \<longleftrightarrow> mp_roleLevel actor > mp_roleLevel target"

definition canPromoteTo :: "MembershipProps \<Rightarrow> nat \<Rightarrow> bool" where
  "canPromoteTo actor targetLevel \<longleftrightarrow> targetLevel < mp_roleLevel actor"

section \<open>Invitation\<close>

datatype InvitationStatus = INV_PENDING | INV_ACCEPTED | INV_EXPIRED | INV_CANCELED

definition InvitationStatus_name :: "InvitationStatus \<Rightarrow> string" where
  "InvitationStatus_name st = (case st of INV_PENDING \<Rightarrow> ''PENDING'' | INV_ACCEPTED \<Rightarrow> ''ACCEPTED''
     | INV_EXPIRED \<Rightarrow> ''EXPIRED'' | INV_CANCELED \<Rightarrow> ''CANCELED'')"

record InvitationProps =
  nv_id :: string
  nv_accountId :: string
  nv_email :: string
  nv_roleId :: string
  nv_roleLevel :: nat
  nv_tokenHash :: string
  nv_status :: InvitationStatus
  nv_expiresAt :: time
  nv_acceptedAt :: "time option"
  nv_canceledAt :: "time option"
  nv_invitedById :: string
  nv_createdAt :: time

definition Invitation_create ::
  "string \<Rightarrow> time \<Rightarrow> string \<Rightarrow> string \<Rightarrow> RoleProps \<Rightarrow> string \<Rightarrow> time \<Rightarrow> string \<Rightarrow> InvitationProps" where
  "Invitation_create uuid now accountId email r invitedById ttl tokenHash = \<lparr>nv_id = uuid, nv_accountId = accountId,
     nv_email = normal_email email, nv_roleId = ro_id r, nv_roleLevel = ro_level r, nv_tokenHash = tokenHash,
     nv_status = INV_PENDING, nv_expiresAt = now + ttl, nv_acceptedAt = None, nv_canceledAt = None,
     nv_invitedById = invitedById, nv_createdAt = now\<rparr>"

definition Invitation_ensureValid :: "time \<Rightarrow> InvitationProps \<Rightarrow> app_error option" where
  "Invitation_ensureValid now i =
     (if nv_status i \<noteq> INV_PENDING then
        Some (PlainError (''Invitation is no longer valid (status: '' @ InvitationStatus_name (nv_status i) @ '')''))
      else if nv_expiresAt i \<le> now then Some (PlainError ''Invitation has expired'') else None)"

definition Invitation_markAccepted :: "time \<Rightarrow> InvitationProps \<Rightarrow> InvitationProps" where
  "Invitation_markAccepted now i = i\<lparr>nv_status := INV_ACCEPTED, nv_acceptedAt := Some now\<rparr>"

definition Invitation_cancel :: "time \<Rightarrow> InvitationProps \<Rightarrow> InvitationProps" where
  "Invitation_cancel now i = i\<lparr>nv_status := INV_CANCELED, nv_canceledAt := Some now\<rparr>"

section \<open>Database\<close>

text \<open>
  \<open>og_memberWith\<close> and \<open>og_accountsOf\<close> join memberships with their accounts; \<open>og_keys\<close> are the statements
  \<^verbatim>\<open>RemoveMember\<close> issues on the API keys.
\<close>

record 'd org_db =
  og_auth :: "'d auth_db"
  og_accounts :: "('d, string, AccountProps) table"
  og_roles :: "('d, string, RoleProps) table"
  og_members :: "('d, string \<times> string, MembershipProps) table"
  og_invitations :: "('d, string, InvitationProps) table"
  og_keys :: "('d, string, ApiKeyProps) table"
  og_memberWith :: "(MembershipProps \<Rightarrow> AccountProps \<Rightarrow> bool) \<Rightarrow> 'd \<Rightarrow> MembershipProps option io"
  og_accountsOf :: "(MembershipProps \<Rightarrow> bool) \<Rightarrow> 'd \<Rightarrow> AccountProps list io"

record org_view = auth_view +
  ov_accounts :: "string \<Rightarrow> AccountProps option"
  ov_roles :: "string \<Rightarrow> RoleProps option"
  ov_members :: "string \<times> string \<Rightarrow> MembershipProps option"
  ov_invitations :: "string \<Rightarrow> InvitationProps option"
  ov_keys :: "string \<Rightarrow> ApiKeyProps option"

definition member_key :: "MembershipProps \<Rightarrow> string \<times> string" where
  "member_key m = (mp_userId m, mp_accountId m)"

definition org_db_spec :: "'d org_db \<Rightarrow> ('d \<Rightarrow> org_view) \<Rightarrow> bool" where
  "org_db_spec db view \<longleftrightarrow>
     auth_db_spec (og_auth db) view \<and>
     table_spec (og_accounts db) acc_id ov_accounts ov_accounts_update view \<and>
     table_spec (og_roles db) ro_id ov_roles ov_roles_update view \<and>
     table_spec (og_members db) member_key ov_members ov_members_update view \<and>
     table_spec (og_invitations db) nv_id ov_invitations ov_invitations_update view \<and>
     table_spec (og_keys db) ak_id ov_keys ov_keys_update view \<and>
     (\<forall>d P x. og_memberWith db P d = Some x \<longrightarrow>
        (case x of
           Some m \<Rightarrow> ov_members (view d) (member_key m) = Some m \<and>
             (\<exists>a. ov_accounts (view d) (mp_accountId m) = Some a \<and> P m a)
         | None \<Rightarrow> \<forall>k m a. ov_members (view d) k = Some m \<and> ov_accounts (view d) (mp_accountId m) = Some a \<longrightarrow> \<not> P m a)) \<and>
     (\<forall>d P as. og_accountsOf db P d = Some as \<longrightarrow>
        set as = {a. \<exists>k m. ov_members (view d) k = Some m \<and> P m \<and> ov_accounts (view d) (mp_accountId m) = Some a})"

section \<open>Repositories\<close>

definition account_save :: "'d org_db \<Rightarrow> AccountProps \<Rightarrow> ('d, 'r, unit) action" where
  "account_save db p = db_write (tb_upsert (og_accounts db) (acc_id p)
     (\<lambda>row. row\<lparr>acc_name := (case acc_name p of Some n \<Rightarrow> Some n | None \<Rightarrow> acc_name row), acc_status := acc_status p,
        acc_slug := (case acc_slug p of Some n \<Rightarrow> Some n | None \<Rightarrow> acc_slug row), acc_graceEndsAt := acc_graceEndsAt p,
        acc_deletedAt := acc_deletedAt p, acc_updatedAt := acc_updatedAt p\<rparr>)
     (p\<lparr>acc_name := (case acc_name p of Some n \<Rightarrow> Some n | None \<Rightarrow> Some [])\<rparr>))"

definition account_findById :: "'d org_db \<Rightarrow> string \<Rightarrow> ('d, 'r, AccountProps option) action" where
  "account_findById db i = db_read (tb_find (og_accounts db) (\<lambda>a. acc_id a = i))"

definition account_findBySlug :: "'d org_db \<Rightarrow> string \<Rightarrow> ('d, 'r, AccountProps option) action" where
  "account_findBySlug db slug = db_read (tb_find (og_accounts db) (\<lambda>a. acc_slug a = Some slug))"

definition account_findByUserId :: "'d org_db \<Rightarrow> string \<Rightarrow> ('d, 'r, AccountProps list) action" where
  "account_findByUserId db userId = db_read (og_accountsOf db (\<lambda>m. mp_userId m = userId))"

definition role_saveBatch :: "'d org_db \<Rightarrow> RoleProps list \<Rightarrow> ('d, 'r, unit) action" where
  "role_saveBatch db rs = db_write (tb_createMany (og_roles db) rs)"

definition role_save :: "'d org_db \<Rightarrow> RoleProps \<Rightarrow> ('d, 'r, unit) action" where
  "role_save db p = db_write (tb_upsert (og_roles db) (ro_id p)
     (\<lambda>row. row\<lparr>ro_name := ro_name p, ro_description := ro_description p, ro_level := ro_level p,
        ro_isActive := ro_isActive p, ro_updatedAt := ro_updatedAt p\<rparr>) p)"

definition role_findByAccountId :: "'d org_db \<Rightarrow> string \<Rightarrow> ('d, 'r, RoleProps list) action" where
  "role_findByAccountId db accountId = db_read (tb_findMany (og_roles db) (\<lambda>r. ro_accountId r = accountId \<and> ro_isActive r))"

definition role_findById :: "'d org_db \<Rightarrow> string \<Rightarrow> ('d, 'r, RoleProps option) action" where
  "role_findById db i = db_read (tb_find (og_roles db) (\<lambda>r. ro_id r = i))"

definition role_findSystemRoleByLevel :: "'d org_db \<Rightarrow> string \<Rightarrow> nat \<Rightarrow> ('d, 'r, RoleProps option) action" where
  "role_findSystemRoleByLevel db accountId level = db_read (tb_find (og_roles db)
     (\<lambda>r. ro_accountId r = accountId \<and> ro_level r = level \<and> ro_isSystem r \<and> ro_isActive r))"

definition member_save :: "'d org_db \<Rightarrow> MembershipProps \<Rightarrow> ('d, 'r, unit) action" where
  "member_save db p = db_write (tb_upsert (og_members db) (member_key p)
     (\<lambda>row. row\<lparr>mp_roleId := mp_roleId p, mp_roleLevel := mp_roleLevel p\<rparr>) p)"

definition member_find :: "'d org_db \<Rightarrow> string \<Rightarrow> string \<Rightarrow> ('d, 'r, MembershipProps option) action" where
  "member_find db accountId userId =
     db_read (tb_find (og_members db) (\<lambda>m. mp_userId m = userId \<and> mp_accountId m = accountId))"

definition member_findOwnerPersonalAccount :: "'d org_db \<Rightarrow> string \<Rightarrow> ('d, 'r, string option) action" where
  "member_findOwnerPersonalAccount db userId =
     act_bind (db_read (og_memberWith db (\<lambda>m a. mp_userId m = userId \<and> mp_roleLevel m = RoleLevel_OWNER \<and>
        acc_type a = PERSONAL \<and> acc_status a = ''ACTIVE''))) (\<lambda>found.
     act_return (map_option mp_accountId found))"

definition member_findAllByAccount :: "'d org_db \<Rightarrow> string \<Rightarrow> ('d, 'r, MembershipProps list) action" where
  "member_findAllByAccount db accountId = db_read (tb_findMany (og_members db) (\<lambda>m. mp_accountId m = accountId))"

definition member_findAllByUser :: "'d org_db \<Rightarrow> string \<Rightarrow> ('d, 'r, MembershipProps list) action" where
  "member_findAllByUser db userId = db_read (tb_findMany (og_members db) (\<lambda>m. mp_userId m = userId))"

definition member_updateRole :: "'d org_db \<Rightarrow> string \<Rightarrow> string \<Rightarrow> string \<Rightarrow> nat \<Rightarrow> ('d, 'r, unit) action" where
  "member_updateRole db accountId userId roleId roleLevel = db_write (tb_update (og_members db) (userId, accountId)
     (\<lambda>row. row\<lparr>mp_roleId := roleId, mp_roleLevel := roleLevel\<rparr>))"

definition member_countOwners :: "'d org_db \<Rightarrow> string \<Rightarrow> ('d, 'r, nat) action" where
  "member_countOwners db accountId =
     db_read (tb_count (og_members db) (\<lambda>m. mp_accountId m = accountId \<and> mp_roleLevel m = RoleLevel_OWNER))"

definition member_count :: "'d org_db \<Rightarrow> string \<Rightarrow> ('d, 'r, nat) action" where
  "member_count db accountId = db_read (tb_count (og_members db) (\<lambda>m. mp_accountId m = accountId))"

definition member_delete :: "'d org_db \<Rightarrow> string \<Rightarrow> string \<Rightarrow> ('d, 'r, unit) action" where
  "member_delete db accountId userId = db_write (tb_delete (og_members db) (userId, accountId))"

definition invitation_save :: "'d org_db \<Rightarrow> InvitationProps \<Rightarrow> ('d, 'r, unit) action" where
  "invitation_save db p = db_write (tb_upsert (og_invitations db) (nv_id p)
     (\<lambda>row. row\<lparr>nv_status := nv_status p, nv_acceptedAt := nv_acceptedAt p, nv_canceledAt := nv_canceledAt p\<rparr>) p)"

definition invitation_findById :: "'d org_db \<Rightarrow> string \<Rightarrow> ('d, 'r, InvitationProps option) action" where
  "invitation_findById db i = db_read (tb_find (og_invitations db) (\<lambda>v. nv_id v = i))"

definition invitation_findByTokenHash :: "'d org_db \<Rightarrow> string \<Rightarrow> ('d, 'r, InvitationProps option) action" where
  "invitation_findByTokenHash db h = db_read (tb_find (og_invitations db) (\<lambda>v. nv_tokenHash v = h))"

definition invitation_findPendingByEmail :: "'d org_db \<Rightarrow> string \<Rightarrow> string \<Rightarrow> ('d, 'r, InvitationProps option) action" where
  "invitation_findPendingByEmail db accountId email = db_read (tb_find (og_invitations db)
     (\<lambda>v. nv_accountId v = accountId \<and> nv_email v = normal_email email \<and> nv_status v = INV_PENDING))"

text \<open>\<^verbatim>\<open>findByAccountId\<close> with \<^verbatim>\<open>take: 100\<close>: how many pending invitations it sees.\<close>

definition invitation_pendingCount :: "'d org_db \<Rightarrow> string \<Rightarrow> ('d, 'r, nat) action" where
  "invitation_pendingCount db accountId =
     act_bind (db_read (tb_findMany (og_invitations db) (\<lambda>v. nv_accountId v = accountId \<and> nv_status v = INV_PENDING))) (\<lambda>rows.
     act_return (min 100 (length rows)))"

end
