(* ===== verification/OrgSlug.thy ===== *)
theory OrgSlug
  imports OrgEntity Subdomain
begin

text \<open>
  The slug of an account is what the hub parses out of the host name: whatever the account is called,
  the slug it gets is a valid label and is read back from the tunnel host.
\<close>

definition slug_char :: "char \<Rightarrow> bool" where
  "slug_char c \<longleftrightarrow> slug_letter c \<or> c = CHR ''-''"

fun double_hyphen :: "string \<Rightarrow> bool" where
  "double_hyphen (a # b # cs) \<longleftrightarrow> (a = CHR ''-'' \<and> b = CHR ''-'') \<or> double_hyphen (b # cs)"
| "double_hyphen _ \<longleftrightarrow> False"

lemma double_hyphen_sublist: "sublist ''--'' s \<longleftrightarrow> double_hyphen s"
  by (induction s rule: double_hyphen.induct) (auto simp: sublist_Cons_right)

lemma double_hyphen_Cons:
  "double_hyphen (c # s) \<longleftrightarrow> double_hyphen s \<or> (c = CHR ''-'' \<and> s \<noteq> [] \<and> hd s = CHR ''-'')"
  by (cases s) auto

lemma double_hyphen_append:
  "double_hyphen (xs @ ys) \<longleftrightarrow> double_hyphen xs \<or> double_hyphen ys \<or>
     (xs \<noteq> [] \<and> ys \<noteq> [] \<and> last xs = CHR ''-'' \<and> hd ys = CHR ''-'')"
proof (induction xs rule: double_hyphen.induct, goal_cases)
  case (3 a)
  then show ?case by (cases ys) auto
qed auto

lemma double_hyphen_parts:
  "\<not> double_hyphen s \<Longrightarrow> \<not> double_hyphen (take n s)"
  "\<not> double_hyphen s \<Longrightarrow> \<not> double_hyphen (dropWhile P s)"
  by (metis append_take_drop_id double_hyphen_append) (metis takeWhile_dropWhile_id double_hyphen_append)

lemma collapse_hyphens:
  "\<not> double_hyphen (collapse_from is_hyphen seen s)"
  "seen \<Longrightarrow> collapse_from is_hyphen seen s \<noteq> [] \<Longrightarrow> hd (collapse_from is_hyphen seen s) \<noteq> CHR ''-''"
proof (induction s arbitrary: seen)
  case (Cons c cs)
  note dd = Cons(1) and start = Cons(2) [OF TrueI]
  {
    case 1
    show ?case
    proof (cases "is_hyphen c")
      case True
      then show ?thesis using dd [of True] start by (auto simp: double_hyphen_Cons)
    next
      case False
      then have "c \<noteq> CHR ''-''" by (simp add: is_hyphen_def)
      then show ?thesis using dd [of False] False by (simp add: double_hyphen_Cons)
    qed
  next
    case 2
    then show ?case using start is_hyphen_def [of c] by (cases "is_hyphen c") auto
  }
qed simp_all

lemma collapse_chars:
  "set (collapse_from P seen s) \<subseteq> insert (CHR ''-'') {c \<in> set s. \<not> P c}"
  by (induction s arbitrary: seen) (auto split: if_splits)

lemma strip_trailing_prefix: "\<exists>n. strip_trailing s = take n s"
proof -
  have "s = strip_trailing s @ rev (takeWhile is_hyphen (rev s))"
    unfolding strip_trailing_def by (metis rev_append rev_rev_ident takeWhile_dropWhile_id)
  then have "strip_trailing s = take (length (strip_trailing s)) s" by (metis append_eq_conv_conj)
  then show ?thesis by blast
qed

lemma strip_trailing_last: "strip_trailing s \<noteq> [] \<Longrightarrow> last (strip_trailing s) \<noteq> CHR ''-''"
  unfolding strip_trailing_def using hd_dropWhile [of is_hyphen "rev s"]
  by (simp add: last_rev is_hyphen_def)

definition slug_prefix :: "string \<Rightarrow> bool" where
  "slug_prefix s \<longleftrightarrow> list_all slug_char s \<and> \<not> double_hyphen s \<and> (s \<noteq> [] \<longrightarrow> hd s \<noteq> CHR ''-'')"

lemma slug_prefix_take: "slug_prefix s \<Longrightarrow> slug_prefix (take n s)"
  using double_hyphen_parts(1) [of s n] set_take_subset [of n s]
  by (cases s; cases n) (auto simp: slug_prefix_def list_all_iff)

lemma slug_prefix_strip: "slug_prefix s \<Longrightarrow> slug_prefix (strip_trailing s)"
  using strip_trailing_prefix [of s] slug_prefix_take by metis

lemma slugify_prefix: "slug_prefix (slugify name)"
proof -
  let ?s = "trim (filter (\<lambda>c. slug_letter c \<or> is_space c \<or> c = CHR ''-'') (map strip_accent (toLowerCase name)))"
  let ?t = "collapse_runs (\<lambda>c. is_space c \<or> c = CHR ''_'') ?s"
  let ?u = "collapse_runs is_hyphen ?t"
  have trimmed: "set (trim s) \<subseteq> set s" for s
    unfolding trim_def by (auto dest!: set_dropWhileD)
  have "set ?t \<subseteq> {c. slug_char c}"
    using collapse_chars [of "\<lambda>c. is_space c \<or> c = CHR ''_''" False ?s] trimmed
    by (fastforce simp: collapse_runs_def slug_char_def)
  then have chars: "set ?u \<subseteq> {c. slug_char c}"
    using collapse_chars [of is_hyphen False ?t] by (fastforce simp: collapse_runs_def slug_char_def)
  let ?v = "dropWhile is_hyphen ?u"
  have "\<not> double_hyphen ?v" unfolding collapse_runs_def [of is_hyphen]
    by (intro double_hyphen_parts(2) collapse_hyphens(1))
  moreover have "?v \<noteq> [] \<Longrightarrow> hd ?v \<noteq> CHR ''-''" using hd_dropWhile [of is_hyphen ?u] by (simp add: is_hyphen_def)
  moreover have "list_all slug_char ?v" using chars by (auto simp: list_all_iff dest: set_dropWhileD)
  ultimately have "slug_prefix ?v" by (simp add: slug_prefix_def)
  then show ?thesis unfolding slugify_def strip_hyphens_def by (intro slug_prefix_take slug_prefix_strip)
qed

lemma slug_char_colon: "slug_char c \<Longrightarrow> c \<noteq> CHR '':''"
  by (auto simp: slug_char_def slug_letter_def)

lemma hyphen_no_letter: "\<not> slug_letter CHR ''-''"
  by (simp add: slug_letter_def)

text \<open>The prefix of an account slug: never empty, between letters, without a double hyphen.\<close>

lemma account_prefix:
  obtains p where "generateAccountSlug drawn name = p @ ''-'' @ drawn" "p \<noteq> []" "length p \<le> 23"
    "list_all slug_char p" "\<not> double_hyphen p" "slug_letter (hd p)" "last p \<noteq> CHR ''-''"
proof -
  let ?q = "strip_trailing (take (SLUG_MAX_LENGTH - 1 - SLUG_SUFFIX_LENGTH) (slugify (case name of Some n \<Rightarrow> n | None \<Rightarrow> [])))"
  have q: "slug_prefix ?q" by (intro slug_prefix_strip slug_prefix_take slugify_prefix)
  obtain n where n: "?q = take n (take (SLUG_MAX_LENGTH - 1 - SLUG_SUFFIX_LENGTH) (slugify (case name of Some n \<Rightarrow> n | None \<Rightarrow> [])))"
    using strip_trailing_prefix by blast
  have len: "length ?q \<le> 23" unfolding n by (simp add: SLUG_MAX_LENGTH_def SLUG_SUFFIX_LENGTH_def)
  show ?thesis
  proof (cases "?q = []")
    case True
    have "generateAccountSlug drawn name = ''workspace'' @ ''-'' @ drawn" using True by (simp add: generateAccountSlug_def)
    then show ?thesis by (rule that) (simp_all add: slug_char_def slug_letter_def)
  next
    case False
    have "slug_letter (hd ?q)" using q False by (cases ?q) (auto simp: slug_prefix_def slug_char_def)
    then show ?thesis using that [of ?q] q False len strip_trailing_last
      by (simp add: generateAccountSlug_def slug_prefix_def Let_def)
  qed
qed

text \<open>
  C39: Every slug works as a host name. For any account name, the generated slug is a valid label of at
  most 32 characters, and the hub reads the slug and the tunnel's label back from the host
  name \<^verbatim>\<open>slug--label.domain\<close>, with or without a port: the double hyphen never occurs inside a slug.
\<close>

theorem account_slug_routes:
  assumes "slug_suffix drawn" "label \<noteq> []" "CHR '':'' \<notin> set (label @ domain)" "port = [] \<or> hd port = CHR '':''"
  shows "isValidSlug (generateAccountSlug drawn name) \<and>
    isTunnelRequest domain (Some (generateAccountSlug drawn name @ ''--'' @ label @ ''.'' @ domain @ port)) \<and>
    parseSubdomain (host_subdomain domain (Some (generateAccountSlug drawn name @ ''--'' @ label @ ''.'' @ domain @ port))) =
      Some (label, generateAccountSlug drawn name)"
proof -
  obtain p where p: "generateAccountSlug drawn name = p @ ''-'' @ drawn" "p \<noteq> []" "length p \<le> 23"
    "list_all slug_char p" "\<not> double_hyphen p" "slug_letter (hd p)" "last p \<noteq> CHR ''-''"
    by (rule account_prefix)
  have d: "length drawn = 8" "list_all slug_letter drawn"
    using assms(1) by (simp_all add: slug_suffix_def SLUG_SUFFIX_LENGTH_def)
  have ne: "drawn \<noteq> []" using d(1) by auto
  have nodash: "CHR ''-'' \<notin> set drawn" using d(2) hyphen_no_letter by (auto simp: list_all_iff)
  have single: "\<not> double_hyphen drawn" if "CHR ''-'' \<notin> set drawn" for drawn
    using that by (induction drawn rule: double_hyphen.induct) auto
  have "slug_letter (last drawn)" "hd drawn \<noteq> CHR ''-''" "last drawn \<noteq> CHR ''-''"
    using d(2) ne nodash by (auto simp: list_all_iff dest: hd_in_set last_in_set)
  then have valid: "isValidSlug (p @ ''-'' @ drawn)"
    using p d ne by (auto simp: isValidSlug_def slug_char_def list_all_iff)
  have "\<not> double_hyphen ((p @ ''-'' @ drawn) @ ''-'')"
    using p single [OF nodash] ne \<open>hd drawn \<noteq> CHR ''-''\<close> \<open>last drawn \<noteq> CHR ''-''\<close>
    by (simp add: double_hyphen_append double_hyphen_Cons)
  then have once: "\<not> sublist ''--'' ((p @ ''-'' @ drawn) @ ''-'')" by (simp add: double_hyphen_sublist)
  have "CHR '':'' \<notin> set ((p @ ''-'' @ drawn) @ label @ domain)"
    using p(4) d(2) assms(3) slug_char_colon by (auto simp: list_all_iff slug_char_def)
  from tunnel_url_roundtrip [OF _ assms(2) once this assms(4)] valid show ?thesis unfolding p(1) by simp
qed

theorem account_slug_routes_witness:
  "generateAccountSlug ''k3x9p2qa'' (Some ''--Acme  Corp__2!'') = ''acme-corp2-k3x9p2qa'' \<and>
   parseSubdomain (host_subdomain ''vhyxvoid.com'' (Some (''acme-corp2-k3x9p2qa--api.vhyxvoid.com:443''))) =
     Some (''api'', ''acme-corp2-k3x9p2qa'')"
proof -
  have slug: "generateAccountSlug ''k3x9p2qa'' (Some ''--Acme  Corp__2!'') = ''acme-corp2-k3x9p2qa''" by code_simp
  have "slug_suffix ''k3x9p2qa''" by code_simp
  from account_slug_routes [OF this, of "''api''" "''vhyxvoid.com''" "'':443''" "Some ''--Acme  Corp__2!''"]
  show ?thesis unfolding slug by simp
qed

end
