(* ===== verification/OrgUseCases.thy ===== *)
theory OrgUseCases
  imports OrgEntity
begin

text \<open>
  The use cases of \<^verbatim>\<open>modules/identity/application/use-cases/account\<close>, the verification of an address (which
  creates the personal account), and the route that cancels an invitation. Random values, dates of a factory and
  digests are arguments. What is queued with \<^verbatim>\<open>afterCommit\<close> is part of the value a use case returns.
  The removal of a member is cut between its checks and its writes, both in one transaction.
\<close>

record ('d, 'r) org_env =
  oe_db :: "'d org_db"
  oe_keys :: "('d, 'r) key_env"
  oe_tokenHash :: "string \<Rightarrow> string"

datatype OrgNotice =
  InvitationMail string string nat string string
| MemberJoined string string string

definition org_audit :: "string \<Rightarrow> string \<Rightarrow> string option \<Rightarrow> string \<Rightarrow> string \<Rightarrow> string \<Rightarrow> AuditLogEntry" where
  "org_audit accountId userId target act type resource = \<lparr>al_accountId = Some accountId, al_userId = userId,
     al_targetUserId = target, al_action = act, al_resourceType = type, al_resourceId = resource\<rparr>"

definition audit_org :: "('d, 'r) org_env \<Rightarrow> AuditLogEntry \<Rightarrow> ('d, 'r, unit) action" where
  "audit_org env e = audit_create (og_auth (oe_db env)) e"

definition MAX_SLUG_ATTEMPTS :: nat where "MAX_SLUG_ATTEMPTS = 5"

text \<open>\<open>n\<close> is how many redraws are left; \<open>draw n\<close> the random part of the slug drawn then.\<close>

primrec pick_slug ::
  "('d, 'r) org_env \<Rightarrow> time \<Rightarrow> (nat \<Rightarrow> string) \<Rightarrow> string option \<Rightarrow> nat \<Rightarrow> AccountProps \<Rightarrow> ('d, 'r, AccountProps) action" where
  "pick_slug env now draw name 0 a =
     act_bind (account_findBySlug (oe_db env) (the (acc_slug a))) (\<lambda>taken.
     if taken = None then act_return a
     else act_throw (PlainError ''Could not allocate a unique account slug''))"
| "pick_slug env now draw name (Suc n) a =
     act_bind (account_findBySlug (oe_db env) (the (acc_slug a))) (\<lambda>taken.
     if taken = None then act_return a
     else pick_slug env now draw name n (Account_setSlug (generateAccountSlug (draw n) name) now a))"

text \<open>The identifiers a use case draws for the account and its three roles.\<close>

record account_ids =
  fi_account :: string
  fi_owner :: string
  fi_admin :: string
  fi_member :: string

definition found_account ::
  "('d, 'r) org_env \<Rightarrow> time \<Rightarrow> account_ids \<Rightarrow> string \<Rightarrow> AccountProps \<Rightarrow> ('d, 'r, unit) action" where
  "found_account env now ids userId account =
     (let roles = Role_seedSystemRoles (acc_id account) now (fi_owner ids) (fi_admin ids) (fi_member ids) in
      act_bind (account_save (oe_db env) account) (\<lambda>_.
      act_bind (role_saveBatch (oe_db env) roles) (\<lambda>_.
      member_save (oe_db env) (Membership_create now (acc_id account) userId (hd roles)))))"

definition VerifyEmail_execute ::
  "('d, 'r) org_env \<Rightarrow> time \<Rightarrow> account_ids \<Rightarrow> (nat \<Rightarrow> string) \<Rightarrow> string \<Rightarrow> ('d, 'r, string) action" where
  "VerifyEmail_execute env now ids draw rawToken =
     act_tx (
       act_bind (email_findByHash (og_auth (oe_db env)) (oe_tokenHash env rawToken)) (\<lambda>foundToken.
       act_bind (found_or (PlainError ''Invalid token'') foundToken) (\<lambda>token.
       act_bind (ensure (EmailVerificationToken_ensureValid now token)) (\<lambda>_.
       act_bind (user_findById (og_auth (oe_db env)) (tk_userId token)) (\<lambda>foundUser.
       act_bind (found_or (NotFoundError ''User not found'') foundUser) (\<lambda>user.
       act_bind (user_save (og_auth (oe_db env)) (User_verifyEmail now user)) (\<lambda>_.
       act_bind (email_save (og_auth (oe_db env)) (Token_markUsed now token)) (\<lambda>_.
       act_bind (account_findByUserId (oe_db env) (us_id user)) (\<lambda>existing.
       act_bind (if existing = [] then
           (let personal = Account_createPersonal (fi_account ids) now (draw MAX_SLUG_ATTEMPTS) (us_id user) (Some (us_firstName user)) in
            act_bind (pick_slug env now draw (acc_name personal) (MAX_SLUG_ATTEMPTS - 1) personal) (\<lambda>account.
            found_account env now ids (us_id user) account))
         else act_return ()) (\<lambda>_.
       act_return (us_email user)))))))))))"

definition CreateOrganization_execute ::
  "('d, 'r) org_env \<Rightarrow> time \<Rightarrow> account_ids \<Rightarrow> (nat \<Rightarrow> string) \<Rightarrow> string \<Rightarrow> string \<Rightarrow> ('d, 'r, string) action" where
  "CreateOrganization_execute env now ids draw userId name =
     act_tx (
       act_bind (member_findOwnerPersonalAccount (oe_db env) userId) (\<lambda>personal.
       act_bind (act_require (truthy personal) (ForbiddenError ''User not allowed to create organization'')) (\<lambda>_.
       act_bind (sum_action (Account_createOrganization (fi_account ids) now (draw MAX_SLUG_ATTEMPTS) name userId)) (\<lambda>org.
       act_bind (pick_slug env now draw (Some name) (MAX_SLUG_ATTEMPTS - 1) org) (\<lambda>account.
       act_bind (found_account env now ids userId account) (\<lambda>_.
       act_bind (audit_org env (org_audit (acc_id account) userId None ''ORGANIZATION_CREATED'' ''Account'' (acc_id account))) (\<lambda>_.
       act_return (acc_id account))))))))"

section \<open>Invitations\<close>

definition INVITATION_TTL :: time where "INVITATION_TTL = 1000 * 60 * 60 * 24 * 3"

definition check_member_limit :: "('d, 'r) org_env \<Rightarrow> string \<Rightarrow> nat \<Rightarrow> ('d, 'r, unit) action" where
  "check_member_limit env accountId current =
     act_bind (canAdd (oe_keys env) LimitMembers accountId current) (\<lambda>ok.
     if ok then act_return ()
     else act_bind (CheckPlanLimits_getLimits (oe_keys env) accountId) (\<lambda>(limits, plan).
       act_throw (PlanLimitExceededError (maxMembers limits) current ''maxMembers'' plan)))"

definition InviteMember_execute ::
  "('d, 'r) org_env \<Rightarrow> time \<Rightarrow> string \<Rightarrow> string \<Rightarrow> string \<Rightarrow> string \<Rightarrow> string \<Rightarrow> nat \<Rightarrow>
   ('d, 'r, string \<times> OrgNotice list) action" where
  "InviteMember_execute env now uuid raw accountId inviterId email roleLevel =
     act_tx (
       act_bind (member_find (oe_db env) accountId inviterId) (\<lambda>foundInviter.
       act_bind (act_require (case foundInviter of Some m \<Rightarrow> isAdmin m | None \<Rightarrow> False)
         (ForbiddenError ''Only admins and owners can invite members'')) (\<lambda>_.
       (let membership = the foundInviter in
        act_bind (act_require (\<not> (mp_roleLevel membership \<noteq> RoleLevel_OWNER \<and> roleLevel \<ge> mp_roleLevel membership))
          (ForbiddenError ''Cannot invite someone to a role equal or higher than your own'')) (\<lambda>_.
        act_bind (account_findById (oe_db env) accountId) (\<lambda>_.
        act_bind (member_count (oe_db env) accountId) (\<lambda>members.
        act_bind (invitation_pendingCount (oe_db env) accountId) (\<lambda>pending.
        act_bind (check_member_limit env accountId (members + pending)) (\<lambda>_.
        act_bind (invitation_findPendingByEmail (oe_db env) accountId (toLowerCase email)) (\<lambda>existing.
        act_bind (act_require (existing = None)
          (ConflictError ''A pending invitation already exists for this email'')) (\<lambda>_.
        act_bind (role_findSystemRoleByLevel (oe_db env) accountId roleLevel) (\<lambda>foundRole.
        act_bind (found_or (NotFoundError ''Role not found for this account'') foundRole) (\<lambda>r.
        (let invitation = Invitation_create uuid now accountId email r inviterId INVITATION_TTL (oe_tokenHash env raw) in
         act_bind (invitation_save (oe_db env) invitation) (\<lambda>_.
         act_bind (audit_org env (org_audit accountId inviterId None ''ACCOUNT_INVITATION_SENT'' ''AccountInvitation'' uuid)) (\<lambda>_.
         act_return (uuid, [InvitationMail email raw roleLevel inviterId accountId])))))))))))))))))"

definition joined_body :: "string \<Rightarrow> AccountProps option \<Rightarrow> string" where
  "joined_body who account = who @ '' accepted your invitation to '' @
     (case account of Some a \<Rightarrow> (case acc_name a of Some n \<Rightarrow> n | None \<Rightarrow> ''null'') | None \<Rightarrow> ''undefined'')"

definition AcceptInvitation_execute ::
  "('d, 'r) org_env \<Rightarrow> time \<Rightarrow> string \<Rightarrow> string \<Rightarrow> string \<Rightarrow> ('d, 'r, (string \<times> nat) \<times> OrgNotice list) action" where
  "AcceptInvitation_execute env now userId userEmail rawToken =
     act_tx (
       act_bind (invitation_findByTokenHash (oe_db env) (oe_tokenHash env rawToken)) (\<lambda>found.
       act_bind (found_or (NotFoundError ''Invalid invitation token'') found) (\<lambda>invitation.
       act_bind (ensure (Invitation_ensureValid now invitation)) (\<lambda>_.
       act_bind (act_require (nv_email invitation = normal_email userEmail)
         (ForbiddenError ''Invitation email does not match user'')) (\<lambda>_.
       act_bind (member_find (oe_db env) (nv_accountId invitation) userId) (\<lambda>existing.
       act_bind (act_require (existing = None) (ConflictError ''You are already a member of this account'')) (\<lambda>_.
       act_bind (member_count (oe_db env) (nv_accountId invitation)) (\<lambda>members.
       act_bind (check_member_limit env (nv_accountId invitation) members) (\<lambda>_.
       act_bind (role_findById (oe_db env) (nv_roleId invitation)) (\<lambda>foundRole.
       act_bind (found_or (NotFoundError ''Role no longer exists'') foundRole) (\<lambda>r.
       act_bind (member_save (oe_db env) (Membership_create now (nv_accountId invitation) userId r)) (\<lambda>_.
       act_bind (invitation_save (oe_db env) (Invitation_markAccepted now invitation)) (\<lambda>_.
       act_bind (member_findOwnerPersonalAccount (oe_db env) (nv_invitedById invitation)) (\<lambda>owner.
       act_bind (if truthy owner then user_findById (og_auth (oe_db env)) (the owner) else act_return None) (\<lambda>ownerUser.
       act_bind (account_findById (oe_db env) (nv_accountId invitation)) (\<lambda>account.
       act_bind (user_findByEmail (og_auth (oe_db env)) (nv_email invitation)) (\<lambda>newMember.
       act_bind (audit_org env (org_audit (nv_accountId invitation) userId (Some userId) ''ACCOUNT_INVITATION_ACCEPTED''
         ''AccountInvitation'' (nv_id invitation))) (\<lambda>_.
       act_return ((nv_accountId invitation, nv_roleLevel invitation),
         (if ownerUser = None then []
          else [MemberJoined (nv_invitedById invitation) (nv_accountId invitation)
            (joined_body (case newMember of Some u \<Rightarrow> us_firstName u | None \<Rightarrow> nv_email invitation) account)]))))))))))))))))))))"

definition CancelInvitation_route ::
  "('d, 'r) org_env \<Rightarrow> time \<Rightarrow> string \<Rightarrow> string \<Rightarrow> string \<Rightarrow> ('d, 'r, unit) action" where
  "CancelInvitation_route env now accountId invitationId userId =
     act_bind (member_find (oe_db env) accountId userId) (\<lambda>membership.
     act_bind (act_require (case membership of Some m \<Rightarrow> isAdmin m | None \<Rightarrow> False)
       (ForbiddenError ''Only admins and owners can cancel invitations'')) (\<lambda>_.
     act_bind (invitation_findById (oe_db env) invitationId) (\<lambda>found.
     act_bind (found_or (NotFoundError ''Invitation not found'') found) (\<lambda>invitation.
     act_bind (act_require (nv_accountId invitation = accountId) (NotFoundError ''Invitation not found'')) (\<lambda>_.
     act_bind (act_require (nv_status invitation = INV_PENDING)
       (ConflictError (''Cannot cancel an invitation with status: '' @ InvitationStatus_name (nv_status invitation)))) (\<lambda>_.
     act_bind (invitation_save (oe_db env) (Invitation_cancel now invitation)) (\<lambda>_.
     audit_org env (org_audit accountId userId None ''ACCOUNT_INVITATION_CANCELED'' ''AccountInvitation'' invitationId))))))))"

section \<open>Members\<close>

text \<open>Two memberships, or the error for the one that is missing.\<close>

definition both_members ::
  "('d, 'r) org_env \<Rightarrow> string \<Rightarrow> string \<Rightarrow> string \<Rightarrow> app_error \<Rightarrow> app_error \<Rightarrow>
   ('d, 'r, MembershipProps \<times> MembershipProps) action" where
  "both_members env accountId actorUserId targetUserId noActor noTarget =
     act_bind (member_find (oe_db env) accountId actorUserId) (\<lambda>foundActor.
     act_bind (member_find (oe_db env) accountId targetUserId) (\<lambda>foundTarget.
     act_bind (found_or noActor foundActor) (\<lambda>actor.
     act_bind (found_or noTarget foundTarget) (\<lambda>target.
     act_return (actor, target)))))"

definition keeps_owner :: "('d, 'r) org_env \<Rightarrow> string \<Rightarrow> bool \<Rightarrow> app_error \<Rightarrow> ('d, 'r, unit) action" where
  "keeps_owner env accountId losesOwner e =
     (if losesOwner then
        act_bind (member_countOwners (oe_db env) accountId) (\<lambda>ownerCount. act_require (\<not> ownerCount \<le> 1) e)
      else act_return ())"

definition ChangeMemberRole_execute ::
  "('d, 'r) org_env \<Rightarrow> string \<Rightarrow> string \<Rightarrow> string \<Rightarrow> nat \<Rightarrow> ('d, 'r, unit) action" where
  "ChangeMemberRole_execute env accountId actorUserId targetUserId newRoleLevel =
     act_tx (
       act_bind (both_members env accountId actorUserId targetUserId (NotFoundError ''Actor is not a member of this account'')
         (NotFoundError ''Target is not a member of this account'')) (\<lambda>(actor, target).
       act_bind (act_require (isAdmin actor) (ForbiddenError ''Only admins and owners can change roles'')) (\<lambda>_.
       act_bind (act_require (canManage actor target)
         (ForbiddenError ''Cannot modify a member with equal or higher role than yours'')) (\<lambda>_.
       act_bind (act_require (canPromoteTo actor newRoleLevel)
         (ForbiddenError ''Cannot assign a role equal or higher than your own'')) (\<lambda>_.
       act_bind (keeps_owner env accountId (isOwner target \<and> newRoleLevel \<noteq> RoleLevel_OWNER)
         (ForbiddenError ''Cannot demote the last owner'')) (\<lambda>_.
       act_bind (role_findSystemRoleByLevel (oe_db env) accountId newRoleLevel) (\<lambda>foundRole.
       act_bind (found_or (NotFoundError ''Target role not found for this account'') foundRole) (\<lambda>newRole.
       act_bind (act_require (\<not> mp_roleLevel actor < RoleLevel_ADMIN) (PlainError ''Not allowed to change roles'')) (\<lambda>_.
       act_bind (act_require (\<not> mp_roleLevel actor \<le> mp_roleLevel target)
         (PlainError ''Cannot modify equal or higher role'')) (\<lambda>_.
       act_bind (act_require (\<not> (mp_roleLevel actor = RoleLevel_ADMIN \<and> newRoleLevel = RoleLevel_OWNER))
         (PlainError ''Admin cannot promote to owner'')) (\<lambda>_.
       act_bind (keeps_owner env accountId (mp_roleLevel target = RoleLevel_OWNER \<and> newRoleLevel \<noteq> RoleLevel_OWNER)
         (PlainError ''Cannot demote last owner'')) (\<lambda>_.
       act_bind (member_updateRole (oe_db env) accountId targetUserId (ro_id newRole) (ro_level newRole)) (\<lambda>_.
       act_bind (member_save (oe_db env) (Membership_changeRole newRole target)) (\<lambda>_.
       audit_org env (org_audit accountId actorUserId (Some targetUserId) ''ACCOUNT_MEMBER_ROLE_CHANGED''
         ''AccountMembership'' targetUserId)))))))))))))))"

definition TransferOwnership_execute ::
  "('d, 'r) org_env \<Rightarrow> string \<Rightarrow> string \<Rightarrow> string \<Rightarrow> ('d, 'r, unit) action" where
  "TransferOwnership_execute env accountId actorUserId targetUserId =
     act_tx (
       act_bind (both_members env accountId actorUserId targetUserId (NotFoundError ''Actor is not a member'')
         (NotFoundError ''Target is not a member'')) (\<lambda>(actor, target).
       act_bind (act_require (isOwner actor) (ForbiddenError ''Only owners can transfer ownership'')) (\<lambda>_.
       act_bind (act_require (actorUserId \<noteq> targetUserId) (ForbiddenError ''Cannot transfer ownership to yourself'')) (\<lambda>_.
       act_bind (role_findSystemRoleByLevel (oe_db env) accountId RoleLevel_OWNER) (\<lambda>ownerRole.
       act_bind (role_findSystemRoleByLevel (oe_db env) accountId RoleLevel_ADMIN) (\<lambda>adminRole.
       act_bind (act_require (ownerRole \<noteq> None \<and> adminRole \<noteq> None)
         (NotFoundError ''System roles not found for this account'')) (\<lambda>_.
       act_bind (member_save (oe_db env) (Membership_changeRole (the ownerRole) target)) (\<lambda>_.
       act_bind (member_save (oe_db env) (Membership_changeRole (the adminRole) actor)) (\<lambda>_.
       audit_org env (org_audit accountId actorUserId (Some targetUserId) ''ACCOUNT_OWNERSHIP_TRANSFERRED''
         ''AccountMembership'' targetUserId))))))))))"

section \<open>Removal\<close>

record RemovedAccess =
  ra_revokedApiKeys :: nat
  ra_canceledInvitations :: nat
  ra_invalidated :: "string list"

definition held_key :: "string \<Rightarrow> string \<Rightarrow> ApiKeyProps \<Rightarrow> bool" where
  "held_key accountId userId k \<longleftrightarrow>
     ak_accountId k = accountId \<and> ak_createdById k = userId \<and> ak_status k = ACTIVE"

definition sent_invitation :: "string \<Rightarrow> string \<Rightarrow> InvitationProps \<Rightarrow> bool" where
  "sent_invitation accountId userId v \<longleftrightarrow>
     nv_accountId v = accountId \<and> nv_invitedById v = userId \<and> nv_status v = INV_PENDING"

definition revoke_access ::
  "('d, 'r) org_env \<Rightarrow> time \<Rightarrow> string \<Rightarrow> string \<Rightarrow> string \<Rightarrow> ('d, 'r, RemovedAccess) action" where
  "revoke_access env now accountId actorUserId targetUserId =
     act_bind (db_read (tb_findMany (og_keys (oe_db env)) (held_key accountId targetUserId))) (\<lambda>keys.
     act_bind (if keys = [] then act_return () else
       act_bind (db_count (tb_updateMany (og_keys (oe_db env)) (\<lambda>k. ak_id k \<in> set (map ak_id keys) \<and> ak_status k = ACTIVE)
         (\<lambda>k. k\<lparr>ak_status := REVOKED, ak_revokedAt := Some now, ak_revokedById := Some actorUserId, ak_updatedAt := now\<rparr>))) (\<lambda>_.
       act_for (\<lambda>k. audit_org env (org_audit accountId actorUserId (Some targetUserId) ''API_KEY_REVOKED'' ''ApiKey'' (ak_id k))) keys)) (\<lambda>_.
     act_bind (db_count (tb_updateMany (og_invitations (oe_db env)) (sent_invitation accountId targetUserId)
       (\<lambda>v. v\<lparr>nv_status := INV_CANCELED, nv_canceledAt := Some now\<rparr>))) (\<lambda>canceled.
     act_return \<lparr>ra_revokedApiKeys = length keys, ra_canceledInvitations = canceled, ra_invalidated = map ak_keyId keys\<rparr>)))"

definition remove_check :: "('d, 'r) org_env \<Rightarrow> string \<Rightarrow> string \<Rightarrow> string \<Rightarrow> ('d, 'r, unit) action" where
  "remove_check env accountId actorUserId targetUserId =
     act_bind (both_members env accountId actorUserId targetUserId (NotFoundError ''Actor not member'')
       (NotFoundError ''Target not member'')) (\<lambda>(actor, target).
     if actorUserId = targetUserId then
       keeps_owner env accountId (isOwner target) (ForbiddenError ''Cannot leave as last owner. Transfer ownership first.'')
     else
       act_bind (act_require (isAdmin actor) (ForbiddenError ''Only admins and owners can remove members'')) (\<lambda>_.
       act_bind (act_require (canManage actor target)
         (ForbiddenError ''Cannot remove a member with equal or higher role than yours'')) (\<lambda>_.
       keeps_owner env accountId (isOwner target) (ForbiddenError ''Cannot remove the last owner''))))"

definition remove_commit ::
  "('d, 'r) org_env \<Rightarrow> time \<Rightarrow> string \<Rightarrow> string \<Rightarrow> string \<Rightarrow> ('d, 'r, RemovedAccess) action" where
  "remove_commit env now accountId actorUserId targetUserId =
     act_bind (revoke_access env now accountId actorUserId targetUserId) (\<lambda>revoked.
     act_bind (member_delete (oe_db env) accountId targetUserId) (\<lambda>_.
     act_bind (audit_org env (org_audit accountId actorUserId (Some targetUserId)
       (if actorUserId = targetUserId then ''ACCOUNT_MEMBER_LEFT'' else ''ACCOUNT_MEMBER_REMOVED'')
       ''AccountMembership'' targetUserId)) (\<lambda>_.
     act_return revoked)))"

definition RemoveMember_execute ::
  "('d, 'r) org_env \<Rightarrow> time \<Rightarrow> string \<Rightarrow> string \<Rightarrow> string \<Rightarrow> ('d, 'r, RemovedAccess) action" where
  "RemoveMember_execute env now accountId actorUserId targetUserId =
     act_tx (act_bind (remove_check env accountId actorUserId targetUserId) (\<lambda>_.
       remove_commit env now accountId actorUserId targetUserId))"

end
