(* ===== verification/OrgMemory.thy ===== *)
theory OrgMemory
  imports OrgUseCases AuthMemory KeyMemory
begin

text \<open>
  Tables of accounts, roles, members, invitations and keys held in memory that satisfy \<open>org_db_spec\<close>, and
  a world with one organisation: the instance on which the theorems about accounts are applied.
\<close>

section \<open>A database in memory\<close>

record org_mem = auth_mem +
  om_accounts :: "(string \<times> AccountProps) list"
  om_roles :: "(string \<times> RoleProps) list"
  om_members :: "((string \<times> string) \<times> MembershipProps) list"
  om_invitations :: "(string \<times> InvitationProps) list"
  om_keys :: "(string \<times> ApiKeyProps) list"

definition mem_org_view :: "org_mem \<Rightarrow> org_view" where
  "mem_org_view d = \<lparr>av_users = rows_of us_id (am_users d), av_sessions = rows_of se_id (am_sessions d),
     av_resets = rows_of tk_id (am_resets d), av_emails = rows_of tk_id (am_emails d),
     ov_accounts = rows_of acc_id (om_accounts d), ov_roles = rows_of ro_id (om_roles d),
     ov_members = rows_of member_key (om_members d), ov_invitations = rows_of nv_id (om_invitations d),
     ov_keys = rows_of ak_id (om_keys d)\<rparr>"

definition mem_account_of :: "org_mem \<Rightarrow> MembershipProps \<Rightarrow> AccountProps option" where
  "mem_account_of d m = rows_of acc_id (om_accounts d) (mp_accountId m)"

definition mem_org_db :: "org_mem org_db" where
  "mem_org_db = \<lparr>
     og_auth = \<lparr>ad_users = memory_table us_id am_users am_users_update,
       ad_sessions = memory_table se_id am_sessions am_sessions_update,
       ad_resets = memory_table tk_id am_resets am_resets_update,
       ad_emails = memory_table tk_id am_emails am_emails_update,
       ad_audit = (\<lambda>e d. Some d)\<rparr>,
     og_accounts = memory_table acc_id om_accounts om_accounts_update,
     og_roles = memory_table ro_id om_roles om_roles_update,
     og_members = memory_table member_key om_members om_members_update,
     og_invitations = memory_table nv_id om_invitations om_invitations_update,
     og_keys = memory_table ak_id om_keys om_keys_update,
     og_memberWith = (\<lambda>P d. Some (List.find (\<lambda>m. case mem_account_of d m of Some a \<Rightarrow> P m a | None \<Rightarrow> False)
       (row_list member_key (om_members d)))),
     og_accountsOf = (\<lambda>P d. Some (List.map_filter (mem_account_of d) (filter P (row_list member_key (om_members d)))))\<rparr>"

lemma mem_members: "m \<in> set (row_list member_key (om_members d)) \<longleftrightarrow> ov_members (mem_org_view d) (member_key m) = Some m"
  by (simp add: row_list_iff mem_org_view_def)

lemma mem_member_key: "ov_members (mem_org_view d) k = Some m \<Longrightarrow> member_key m = k"
  using rows_of_key [of member_key "om_members d" k m] by (simp add: mem_org_view_def)

lemma mem_account_row: "mem_account_of d m = ov_accounts (mem_org_view d) (mp_accountId m)"
  by (simp add: mem_account_of_def mem_org_view_def)

lemma mem_org_db_spec: "org_db_spec mem_org_db mem_org_view"
proof -
  have tables: "auth_db_spec (og_auth mem_org_db) mem_org_view \<and>
     table_spec (og_accounts mem_org_db) acc_id ov_accounts ov_accounts_update mem_org_view \<and>
     table_spec (og_roles mem_org_db) ro_id ov_roles ov_roles_update mem_org_view \<and>
     table_spec (og_members mem_org_db) member_key ov_members ov_members_update mem_org_view \<and>
     table_spec (og_invitations mem_org_db) nv_id ov_invitations ov_invitations_update mem_org_view \<and>
     table_spec (og_keys mem_org_db) ak_id ov_keys ov_keys_update mem_org_view"
    unfolding auth_db_spec_def
    by (simp add: mem_org_db_def) (intro conjI memory_table_spec; simp add: mem_org_view_def)
  have with_account: "case x of
       Some m \<Rightarrow> ov_members (mem_org_view d) (member_key m) = Some m \<and>
         (\<exists>a. ov_accounts (mem_org_view d) (mp_accountId m) = Some a \<and> P m a)
     | None \<Rightarrow> \<forall>k m a. ov_members (mem_org_view d) k = Some m \<and> ov_accounts (mem_org_view d) (mp_accountId m) = Some a \<longrightarrow> \<not> P m a"
    if "og_memberWith mem_org_db P d = Some x" for P d x
  proof (cases x)
    case None
    then have "\<not> (case mem_account_of d m of Some a \<Rightarrow> P m a | None \<Rightarrow> False)"
      if "m \<in> set (row_list member_key (om_members d))" for m
      using \<open>og_memberWith mem_org_db P d = Some x\<close> that by (simp add: mem_org_db_def find_None_iff)
    then have none: "\<not> (case mem_account_of d m of Some a \<Rightarrow> P m a | None \<Rightarrow> False)"
      if "m \<in> set (row_list member_key (om_members d))" for m using that by blast
    have "\<not> P m a" if row: "ov_members (mem_org_view d) k = Some m" and acc: "ov_accounts (mem_org_view d) (mp_accountId m) = Some a" for k m a
    proof -
      have "m \<in> set (row_list member_key (om_members d))" using row mem_member_key [OF row] by (simp add: mem_members)
      then show ?thesis using none [of m] acc by (simp add: mem_account_row)
    qed
    then show ?thesis using None by auto
  next
    case (Some m)
    then have "List.find (\<lambda>m. case mem_account_of d m of Some a \<Rightarrow> P m a | None \<Rightarrow> False)
       (row_list member_key (om_members d)) = Some m" using that by (simp add: mem_org_db_def)
    then have "m \<in> set (row_list member_key (om_members d))" "case mem_account_of d m of Some a \<Rightarrow> P m a | None \<Rightarrow> False"
      by (auto simp: find_Some_iff)
    then show ?thesis using Some by (auto simp: mem_members mem_account_row split: option.splits)
  qed
  have accounts: "set as = {a. \<exists>k m. ov_members (mem_org_view d) k = Some m \<and> P m \<and>
      ov_accounts (mem_org_view d) (mp_accountId m) = Some a}" if "og_accountsOf mem_org_db P d = Some as" for P d as
  proof -
    have "as = List.map_filter (mem_account_of d) (filter P (row_list member_key (om_members d)))"
      using that by (simp add: mem_org_db_def)
    then have "a \<in> set as \<longleftrightarrow> (\<exists>m. m \<in> set (row_list member_key (om_members d)) \<and> P m \<and> mem_account_of d m = Some a)" for a
      by (auto simp: List.map_filter_def image_iff)
    then have "a \<in> set as \<longleftrightarrow> (\<exists>k m. ov_members (mem_org_view d) k = Some m \<and> P m \<and>
        ov_accounts (mem_org_view d) (mp_accountId m) = Some a)" for a
      unfolding mem_members mem_account_row using mem_member_key by blast
    then show ?thesis by blast
  qed
  show ?thesis unfolding org_db_spec_def using tables with_account accounts by blast
qed

section \<open>One organisation\<close>

definition mem_org_keys :: "(org_mem, (string, time) jsmap) key_env" where
  "mem_org_keys = \<lparr>
     ke_db = \<lparr>
       kd_findById = (\<lambda>i d. Some (rows_of ak_id (om_keys d) i)),
       kd_findByKeyId = (\<lambda>keyId d. Some (List.find (\<lambda>k. ak_keyId k = keyId) (row_list ak_id (om_keys d)))),
       kd_findMany = (\<lambda>P d. Some (filter P (row_list ak_id (om_keys d)))),
       kd_findManyOrdered = (\<lambda>P f d. Some (sort_key f (filter P (row_list ak_id (om_keys d))))),
       kd_count = (\<lambda>P d. Some (length (filter P (row_list ak_id (om_keys d))))),
       kd_upsert = (\<lambda>i u c d. Some d),
       kd_updateMany = (\<lambda>P u d. Some d),
       kd_memberLevel = (\<lambda>a u d. Some (map_option mp_roleLevel (rows_of member_key (om_members d) (u, a)))),
       kd_accountStatus = (\<lambda>a d. Some (map_option acc_status (rows_of acc_id (om_accounts d) a))),
       kd_subscriptionPlan = (\<lambda>a d. Some (Some ''ENTERPRISE'')),
       kd_auditCreate = (\<lambda>e d. Some d)\<rparr>,
     ke_platform = mem_platform, ke_pepper = [], ke_redis = mem_redis, ke_del = (\<lambda>k r. Some (jm_delete k r)),
     ke_localeCompare = (\<lambda>a b. 0)\<rparr>"

definition mem_org_env :: "(org_mem, (string, time) jsmap) org_env" where
  "mem_org_env = \<lparr>oe_db = mem_org_db, oe_keys = mem_org_keys, oe_tokenHash = (\<lambda>t. CHR ''#'' # t)\<rparr>"

lemma mem_org_env_spec: "org_db_spec (oe_db mem_org_env) mem_org_view"
  by (simp add: mem_org_env_def mem_org_db_spec)

definition mem_org_account :: "string \<Rightarrow> AccountType \<Rightarrow> AccountProps" where
  "mem_org_account i t = \<lparr>acc_id = i, acc_name = Some ''org'', acc_type = t, acc_status = ''ACTIVE'', acc_createdById = ''u'',
     acc_graceEndsAt = None, acc_slug = Some (''org-'' @ i), acc_createdAt = 0, acc_updatedAt = 0, acc_deletedAt = None\<rparr>"

definition mem_member :: "string \<Rightarrow> string \<Rightarrow> string \<Rightarrow> nat \<Rightarrow> (string \<times> string) \<times> MembershipProps" where
  "mem_member u a r level = ((u, a), \<lparr>mp_userId = u, mp_accountId = a, mp_roleId = r, mp_roleLevel = level, mp_createdAt = 0\<rparr>)"

definition mem_invitation :: InvitationProps where
  "mem_invitation = \<lparr>nv_id = ''i'', nv_accountId = ''a'', nv_email = ''x@y.z'', nv_roleId = ''r3'', nv_roleLevel = RoleLevel_MEMBER,
     nv_tokenHash = ''#tok'', nv_status = INV_PENDING, nv_expiresAt = 1000, nv_acceptedAt = None, nv_canceledAt = None,
     nv_invitedById = ''w'', nv_createdAt = 0\<rparr>"

text \<open>Two owners, \<open>u\<close> and \<open>v\<close>, and an administrator \<open>w\<close> who holds a key and has invited somebody.\<close>

definition mem_org_world :: "(org_mem, (string, time) jsmap) world" where
  "mem_org_world = \<lparr>w_db = \<lparr>am_users = [(''u'', mem_user)], am_sessions = [], am_resets = [], am_emails = [],
     om_accounts = [(''a'', mem_org_account ''a'' ORGANIZATION), (''p'', mem_org_account ''p'' PERSONAL)],
     om_roles = map (\<lambda>r. (ro_id r, r)) (Role_seedSystemRoles ''a'' 0 ''r1'' ''r2'' ''r3''),
     om_members = [mem_member ''u'' ''a'' ''r1'' RoleLevel_OWNER, mem_member ''v'' ''a'' ''r1'' RoleLevel_OWNER,
       mem_member ''w'' ''a'' ''r2'' RoleLevel_ADMIN, mem_member ''u'' ''p'' ''r4'' RoleLevel_OWNER],
     om_invitations = [(''i'', mem_invitation)],
     om_keys = [(''k1'', mem_key\<lparr>ak_createdById := ''w''\<rparr>)]\<rparr>, w_redis = []\<rparr>"

end
