(* ===== verification/OrgSafety.thy ===== *)
theory OrgSafety
  imports OrgMemory AuthSafety
begin

text \<open>
  What the use cases of accounts guarantee: an account is never left without an owner, who may change or remove
  whom, and what a removal takes away; and what two of them do to each other.
\<close>

section \<open>Statements on the tables\<close>

lemma org_tables:
  assumes "org_db_spec db view"
  shows "auth_db_spec (og_auth db) view"
    and "table_spec (og_accounts db) acc_id ov_accounts ov_accounts_update view"
    and "table_spec (og_roles db) ro_id ov_roles ov_roles_update view"
    and "table_spec (og_members db) member_key ov_members ov_members_update view"
    and "table_spec (og_invitations db) nv_id ov_invitations ov_invitations_update view"
    and "table_spec (og_keys db) ak_id ov_keys ov_keys_update view"
  using assms by (simp_all add: org_db_spec_def)

lemma member_row:
  "org_db_spec db view \<Longrightarrow> ov_members (view d) k = Some m \<Longrightarrow> member_key m = k"
  using table_key [OF org_tables(4)] .

lemma member_find_Inr:
  assumes "org_db_spec db view" "member_find db accountId userId s = (Inr x, s')"
  shows "s' = s" "x = ov_members (view (w_db s)) (userId, accountId)"
proof -
  note T = org_tables(4) [OF assms(1)]
  have find: "tb_find (og_members db) (\<lambda>m. mp_userId m = userId \<and> mp_accountId m = accountId) (w_db s) = Some x" "s' = s"
    using assms(2) by (auto simp: member_find_def action_simps)
  have first: "first_of member_key (\<lambda>m. mp_userId m = userId \<and> mp_accountId m = accountId) (ov_members (view (w_db s))) x"
    by (rule table_find [OF T find(1)])
  show "s' = s" by (rule find(2))
  show "x = ov_members (view (w_db s)) (userId, accountId)"
  proof (cases x)
    case None
    have "\<not> (mp_userId m = userId \<and> mp_accountId m = accountId)" if "ov_members (view (w_db s)) (userId, accountId) = Some m" for m
      using first None that by (auto simp: first_of_def matching_def)
    then show ?thesis using None member_row [OF assms(1), of "w_db s" "(userId, accountId)"]
      by (cases "ov_members (view (w_db s)) (userId, accountId)") (auto simp: member_key_def)
  next
    case (Some m)
    then show ?thesis using first by (auto simp: first_of_def member_key_def)
  qed
qed

lemma role_system_Inr:
  assumes "org_db_spec db view" "role_findSystemRoleByLevel db accountId level s = (Inr x, s')"
  shows "s' = s" "x = Some r \<Longrightarrow> ov_roles (view (w_db s)) (ro_id r) = Some r \<and> ro_accountId r = accountId \<and> ro_level r = level"
  using assms(2) table_find [OF org_tables(3) [OF assms(1)], of
      "\<lambda>r. ro_accountId r = accountId \<and> ro_level r = level \<and> ro_isSystem r \<and> ro_isActive r" "w_db s" x]
  by (auto simp: role_findSystemRoleByLevel_def action_simps first_of_def)

lemma count_owners_Inr:
  assumes "org_db_spec db view" "member_countOwners db accountId s = (Inr n, s')"
  shows "s' = s" "n = card {k. \<exists>m. ov_members (view (w_db s)) k = Some m \<and> mp_accountId m = accountId \<and> isOwner m}"
  using assms(2) table_count [OF org_tables(4) [OF assms(1)], of
      "\<lambda>m. mp_accountId m = accountId \<and> mp_roleLevel m = RoleLevel_OWNER" "w_db s" n]
  by (auto simp: member_countOwners_def action_simps matching_def isOwner_def)

lemma members_update_cong: "f (ov_members v) = g (ov_members v) \<Longrightarrow> ov_members_update f v = ov_members_update g v"
  by (cases v) simp

lemma member_save_view [view_writes]:
  assumes "org_db_spec db view" "member_save db p s = (Inr x, s')"
  shows "view (w_db s') = ov_members_update (\<lambda>m. m(member_key p \<mapsto> (case m (member_key p) of
    Some r \<Rightarrow> r\<lparr>mp_roleId := mp_roleId p, mp_roleLevel := mp_roleLevel p\<rparr> | None \<Rightarrow> p))) (view (w_db s))"
  using assms(2) table_upsert [OF org_tables(4) [OF assms(1)], of p "member_key p"
      "\<lambda>row. row\<lparr>mp_roleId := mp_roleId p, mp_roleLevel := mp_roleLevel p\<rparr>" "w_db s" "w_db s'"]
  by (auto simp: member_save_def action_simps put_row_def member_key_def)

lemma member_update_view [view_writes]:
  assumes "org_db_spec db view" "member_updateRole db accountId userId roleId roleLevel s = (Inr x, s')"
  shows "view (w_db s') = ov_members_update (\<lambda>m. m((userId, accountId) :=
    map_option (\<lambda>r. r\<lparr>mp_roleId := roleId, mp_roleLevel := roleLevel\<rparr>) (m (userId, accountId)))) (view (w_db s))"
  using assms(2) table_update(2) [OF org_tables(4) [OF assms(1)], of
      "\<lambda>row. row\<lparr>mp_roleId := roleId, mp_roleLevel := roleLevel\<rparr>" "(userId, accountId)" "w_db s" "w_db s'"]
  by (auto simp: member_updateRole_def action_simps change_row_def member_key_def)

lemma member_delete_view [view_writes]:
  assumes "org_db_spec db view" "member_delete db accountId userId s = (Inr x, s')"
  shows "view (w_db s') = ov_members_update (\<lambda>m. m((userId, accountId) := None)) (view (w_db s))"
  using assms(2) table_delete(2) [OF org_tables(4) [OF assms(1)], of "(userId, accountId)" "w_db s" "w_db s'"]
  by (auto simp: member_delete_def action_simps)

lemma audit_org_view [view_writes]:
  "org_db_spec (oe_db env) view \<Longrightarrow> audit_org env e s = (Inr x, s') \<Longrightarrow> view (w_db s') = view (w_db s)"
  by (auto simp: audit_org_def audit_create_def org_db_spec_def auth_db_spec_def action_simps)

lemma both_members_Inr:
  assumes "org_db_spec (oe_db env) view" "both_members env accountId a t e1 e2 s = (Inr (actor, target), s')"
  shows "s' = s" "ov_members (view (w_db s)) (a, accountId) = Some actor" "ov_members (view (w_db s)) (t, accountId) = Some target"
    and "mp_userId actor = a" "mp_accountId actor = accountId" "mp_userId target = t" "mp_accountId target = accountId"
proof -
  obtain x s1 y s2 where runs: "member_find (oe_db env) accountId a s = (Inr x, s1)"
    "member_find (oe_db env) accountId t s1 = (Inr y, s2)" "x = Some actor" "y = Some target" "s' = s2"
    using assms(2) unfolding both_members_def by (auto simp: act_bind_Inr found_or_Inr act_return_def)
  note f = member_find_Inr [OF assms(1) runs(1)] and g = member_find_Inr [OF assms(1) runs(2)]
  show "s' = s" using runs(5) f(1) g(1) by simp
  show rows: "ov_members (view (w_db s)) (a, accountId) = Some actor" "ov_members (view (w_db s)) (t, accountId) = Some target"
    using f g runs(3,4) by simp_all
  show "mp_userId actor = a" "mp_accountId actor = accountId" "mp_userId target = t" "mp_accountId target = accountId"
    using member_row [OF assms(1) rows(1)] member_row [OF assms(1) rows(2)] by (simp_all add: member_key_def)
qed

section \<open>Every account keeps an owner\<close>

definition owner_ids :: "string \<Rightarrow> org_view \<Rightarrow> (string \<times> string) set" where
  "owner_ids accountId v = {k. \<exists>m. ov_members v k = Some m \<and> mp_accountId m = accountId \<and> isOwner m}"

definition owned :: "string \<Rightarrow> org_view \<Rightarrow> bool" where
  "owned accountId v \<longleftrightarrow> owner_ids accountId v \<noteq> {}"

lemma finite_owners: "org_db_spec db view \<Longrightarrow> finite (owner_ids accountId (view d))"
  unfolding owner_ids_def by (rule finite_subset [OF _ table_finite [OF org_tables(4)]]) auto

lemma keeps_owner_Inr:
  assumes "org_db_spec (oe_db env) view" "keeps_owner env accountId loses e s = (Inr x, s')"
  shows "s' = s" "loses \<Longrightarrow> 2 \<le> card (owner_ids accountId (view (w_db s)))"
proof -
  have "s' = s \<and> (loses \<longrightarrow> 2 \<le> card (owner_ids accountId (view (w_db s))))"
  proof (cases loses)
    case True
    then obtain n where n: "member_countOwners (oe_db env) accountId s = (Inr n, s')" "\<not> n \<le> 1"
      using assms(2) by (auto simp: keeps_owner_def act_bind_Inr act_require_Inr)
    then show ?thesis using count_owners_Inr [OF assms(1) n(1)] by (simp add: owner_ids_def)
  next
    case False
    then show ?thesis using assms(2) by (simp add: keeps_owner_def act_return_def)
  qed
  then show "s' = s" "loses \<Longrightarrow> 2 \<le> card (owner_ids accountId (view (w_db s)))" by blast+
qed

text \<open>With two owners, losing one member leaves an owner.\<close>

lemma another_owner:
  assumes "2 \<le> card (owner_ids accountId v)"
  shows "owner_ids accountId v - {k} \<noteq> {}"
proof
  assume "owner_ids accountId v - {k} = {}"
  then have "owner_ids accountId v \<subseteq> {k}" by blast
  then have "card (owner_ids accountId v) \<le> card {k}" by (rule card_mono [rotated]) simp
  then show False using assms by simp
qed

lemma owned_update:
  assumes "owner_ids a v - {k} \<subseteq> owner_ids a v'" "k \<in> owner_ids a v \<Longrightarrow> k \<in> owner_ids a v' \<or> 2 \<le> card (owner_ids a v)" "owned a v"
  shows "owned a v'"
  using assms another_owner [of a v k] unfolding owned_def by blast

section \<open>Changing a role\<close>

lemma change_role_run:
  assumes spec: "org_db_spec (oe_db env) view"
    and run: "ChangeMemberRole_execute env accountId actorId targetId newLevel s = (Inr x, s')"
  obtains actor target r where "ov_members (view (w_db s)) (actorId, accountId) = Some actor"
    "ov_members (view (w_db s)) (targetId, accountId) = Some target" "isAdmin actor"
    "mp_roleLevel target < mp_roleLevel actor" "newLevel < mp_roleLevel actor"
    "isOwner target \<Longrightarrow> newLevel \<noteq> RoleLevel_OWNER \<Longrightarrow> 2 \<le> card (owner_ids accountId (view (w_db s)))"
    "ov_roles (view (w_db s)) (ro_id r) = Some r" "ro_accountId r = accountId" "ro_level r = newLevel"
    "view (w_db s') = ov_members_update (\<lambda>m. m((targetId, accountId) \<mapsto> Membership_changeRole r target)) (view (w_db s))"
proof -
  obtain actor target s1 where both: "both_members env accountId actorId targetId (NotFoundError ''Actor is not a member of this account'')
         (NotFoundError ''Target is not a member of this account'') s = (Inr (actor, target), s1)"
    and rest: "act_bind (act_require (isAdmin actor) (ForbiddenError ''Only admins and owners can change roles'')) (\<lambda>_.
       act_bind (act_require (canManage actor target)
         (ForbiddenError ''Cannot modify a member with equal or higher role than yours'')) (\<lambda>_.
       act_bind (act_require (canPromoteTo actor newLevel)
         (ForbiddenError ''Cannot assign a role equal or higher than your own'')) (\<lambda>_.
       act_bind (keeps_owner env accountId (isOwner target \<and> newLevel \<noteq> RoleLevel_OWNER)
         (ForbiddenError ''Cannot demote the last owner'')) (\<lambda>_.
       act_bind (role_findSystemRoleByLevel (oe_db env) accountId newLevel) (\<lambda>foundRole.
       act_bind (found_or (NotFoundError ''Target role not found for this account'') foundRole) (\<lambda>newRole.
       act_bind (act_require (\<not> mp_roleLevel actor < RoleLevel_ADMIN) (PlainError ''Not allowed to change roles'')) (\<lambda>_.
       act_bind (act_require (\<not> mp_roleLevel actor \<le> mp_roleLevel target)
         (PlainError ''Cannot modify equal or higher role'')) (\<lambda>_.
       act_bind (act_require (\<not> (mp_roleLevel actor = RoleLevel_ADMIN \<and> newLevel = RoleLevel_OWNER))
         (PlainError ''Admin cannot promote to owner'')) (\<lambda>_.
       act_bind (keeps_owner env accountId (mp_roleLevel target = RoleLevel_OWNER \<and> newLevel \<noteq> RoleLevel_OWNER)
         (PlainError ''Cannot demote last owner'')) (\<lambda>_.
       act_bind (member_updateRole (oe_db env) accountId targetId (ro_id newRole) (ro_level newRole)) (\<lambda>_.
       act_bind (member_save (oe_db env) (Membership_changeRole newRole target)) (\<lambda>_.
       audit_org env (org_audit accountId actorId (Some targetId) ''ACCOUNT_MEMBER_ROLE_CHANGED''
         ''AccountMembership'' targetId))))))))))))) s1 = (Inr x, s')"
    using run unfolding ChangeMemberRole_execute_def act_tx_Inr by (auto simp: act_bind_Inr [of "both_members _ _ _ _ _ _"])
  note b = both_members_Inr [OF spec both]
  from rest obtain u1 s2 y s3 u2 s4 u3 s5 u4 s6 r where
    guards: "isAdmin actor" "canManage actor target" "canPromoteTo actor newLevel"
    and k1: "keeps_owner env accountId (isOwner target \<and> newLevel \<noteq> RoleLevel_OWNER)
         (ForbiddenError ''Cannot demote the last owner'') s1 = (Inr u1, s2)"
    and role: "role_findSystemRoleByLevel (oe_db env) accountId newLevel s2 = (Inr y, s3)" "y = Some r"
    and k2: "keeps_owner env accountId (mp_roleLevel target = RoleLevel_OWNER \<and> newLevel \<noteq> RoleLevel_OWNER)
         (PlainError ''Cannot demote last owner'') s3 = (Inr u2, s4)"
    and upd: "member_updateRole (oe_db env) accountId targetId (ro_id r) (ro_level r) s4 = (Inr u3, s5)"
    and save: "member_save (oe_db env) (Membership_changeRole r target) s5 = (Inr u4, s6)"
    and audit: "audit_org env (org_audit accountId actorId (Some targetId) ''ACCOUNT_MEMBER_ROLE_CHANGED''
         ''AccountMembership'' targetId) s6 = (Inr x, s')"
    unfolding act_bind_Inr act_require_Inr found_or_Inr by blast
  note o1 = keeps_owner_Inr [OF spec k1] and o2 = keeps_owner_Inr [OF spec k2] and r = role_system_Inr [OF spec role(1)]
  have same: "s2 = s" "s3 = s" "s4 = s" using b(1) o1(1) o2(1) r(1) by simp_all
  have key: "member_key (Membership_changeRole r target) = (targetId, accountId)"
    using b(6,7) by (simp add: member_key_def Membership_changeRole_def)
  have "view (w_db s') = view (w_db s6)" by (rule audit_org_view [OF spec audit])
  also have "\<dots> = ov_members_update (\<lambda>m. m((targetId, accountId) \<mapsto> Membership_changeRole r target)) (view (w_db s))"
    using member_save_view [OF spec save] member_update_view [OF spec upd] b(3) unfolding key same
    by (auto simp: comp_def Membership_changeRole_def intro!: members_update_cong)
  finally have after: "view (w_db s') = ov_members_update (\<lambda>m. m((targetId, accountId) \<mapsto> Membership_changeRole r target)) (view (w_db s))" .
  show ?thesis
    by (rule that [OF b(2,3) guards(1) _ _ _ _ _ _ after])
      (use guards o1(2) b(1) r(2) [OF role(2)] same in \<open>simp_all add: canManage_def canPromoteTo_def\<close>)
qed

text \<open>
  C31: Nobody rises above the one who promotes them. A change of role needs an admin or owner whose level is
  above both the target's old and its new level, never demotes the last owner, gives the target a
  role of the same account at the requested level (role and level stay in step), and changes nothing else.
\<close>

theorem change_role_exact:
  assumes "org_db_spec (oe_db env) view"
    and "ChangeMemberRole_execute env accountId actorId targetId newLevel s = (Inr x, s')"
  shows "\<exists>actor target r. ov_members (view (w_db s)) (actorId, accountId) = Some actor \<and>
    ov_members (view (w_db s)) (targetId, accountId) = Some target \<and> RoleLevel_ADMIN \<le> mp_roleLevel actor \<and>
    mp_roleLevel target < mp_roleLevel actor \<and> newLevel < mp_roleLevel actor \<and>
    (isOwner target \<and> newLevel \<noteq> RoleLevel_OWNER \<longrightarrow>
       2 \<le> card {k. \<exists>m. ov_members (view (w_db s)) k = Some m \<and> mp_accountId m = accountId \<and> isOwner m}) \<and>
    ov_roles (view (w_db s)) (ro_id r) = Some r \<and> ro_accountId r = accountId \<and> ro_level r = newLevel \<and>
    view (w_db s') = (view (w_db s))\<lparr>ov_members := (ov_members (view (w_db s)))((targetId, accountId) \<mapsto>
      target\<lparr>mp_roleId := ro_id r, mp_roleLevel := newLevel\<rparr>)\<rparr>"
proof (rule change_role_run [OF assms])
  fix actor target r
  assume rows: "ov_members (view (w_db s)) (actorId, accountId) = Some actor"
    "ov_members (view (w_db s)) (targetId, accountId) = Some target" "isAdmin actor"
    "mp_roleLevel target < mp_roleLevel actor" "newLevel < mp_roleLevel actor"
    and owners: "isOwner target \<Longrightarrow> newLevel \<noteq> RoleLevel_OWNER \<Longrightarrow> 2 \<le> card (owner_ids accountId (view (w_db s)))"
    and role: "ov_roles (view (w_db s)) (ro_id r) = Some r" "ro_accountId r = accountId" "ro_level r = newLevel"
    and after: "view (w_db s') = ov_members_update (\<lambda>m. m((targetId, accountId) \<mapsto> Membership_changeRole r target)) (view (w_db s))"
  have "view (w_db s') = (view (w_db s))\<lparr>ov_members := (ov_members (view (w_db s)))((targetId, accountId) \<mapsto>
      target\<lparr>mp_roleId := ro_id r, mp_roleLevel := newLevel\<rparr>)\<rparr>"
    unfolding after by (cases "view (w_db s)") (simp add: Membership_changeRole_def role)
  then show ?thesis using rows role owners unfolding owner_ids_def isAdmin_def by blast
qed

theorem change_role_exact_witness:
  "\<exists>s' target. ChangeMemberRole_execute mem_org_env ''a'' ''u'' ''w'' RoleLevel_MEMBER mem_org_world = (Inr (), s') \<and>
     ov_members (mem_org_view (w_db mem_org_world)) (''w'', ''a'') = Some target \<and> mp_roleLevel target < RoleLevel_OWNER"
proof -
  have "fst (ChangeMemberRole_execute mem_org_env ''a'' ''u'' ''w'' RoleLevel_MEMBER mem_org_world) = Inr ()" by code_simp
  then obtain s' where run: "ChangeMemberRole_execute mem_org_env ''a'' ''u'' ''w'' RoleLevel_MEMBER mem_org_world = (Inr (), s')"
    by (metis prod.collapse)
  have "map_option mp_roleLevel (ov_members (mem_org_view (w_db mem_org_world)) (''u'', ''a'')) = Some RoleLevel_OWNER" by code_simp
  with change_role_exact [OF mem_org_env_spec run] run show ?thesis by fastforce
qed

section \<open>Transferring ownership\<close>

lemma transfer_run:
  assumes spec: "org_db_spec (oe_db env) view"
    and run: "TransferOwnership_execute env accountId actorId targetId s = (Inr x, s')"
  obtains actor target owner admin where "ov_members (view (w_db s)) (actorId, accountId) = Some actor"
    "ov_members (view (w_db s)) (targetId, accountId) = Some target" "isOwner actor" "actorId \<noteq> targetId"
    "ro_level owner = RoleLevel_OWNER" "ro_level admin = RoleLevel_ADMIN"
    "view (w_db s') = ov_members_update (\<lambda>m. m((targetId, accountId) \<mapsto> Membership_changeRole owner target,
       (actorId, accountId) \<mapsto> Membership_changeRole admin actor)) (view (w_db s))"
proof -
  obtain actor target s1 where
    both: "both_members env accountId actorId targetId (NotFoundError ''Actor is not a member'')
         (NotFoundError ''Target is not a member'') s = (Inr (actor, target), s1)"
    and rest: "act_bind (act_require (isOwner actor) (ForbiddenError ''Only owners can transfer ownership'')) (\<lambda>_.
       act_bind (act_require (actorId \<noteq> targetId) (ForbiddenError ''Cannot transfer ownership to yourself'')) (\<lambda>_.
       act_bind (role_findSystemRoleByLevel (oe_db env) accountId RoleLevel_OWNER) (\<lambda>ownerRole.
       act_bind (role_findSystemRoleByLevel (oe_db env) accountId RoleLevel_ADMIN) (\<lambda>adminRole.
       act_bind (act_require (ownerRole \<noteq> None \<and> adminRole \<noteq> None)
         (NotFoundError ''System roles not found for this account'')) (\<lambda>_.
       act_bind (member_save (oe_db env) (Membership_changeRole (the ownerRole) target)) (\<lambda>_.
       act_bind (member_save (oe_db env) (Membership_changeRole (the adminRole) actor)) (\<lambda>_.
       audit_org env (org_audit accountId actorId (Some targetId) ''ACCOUNT_OWNERSHIP_TRANSFERRED''
         ''AccountMembership'' targetId)))))))) s1 = (Inr x, s')"
    using run unfolding TransferOwnership_execute_def act_tx_Inr by (auto simp: act_bind_Inr [of "both_members _ _ _ _ _ _"])
  from rest obtain y s2 z s3 u4 s4 u5 s5 where
    guards: "isOwner actor" "actorId \<noteq> targetId" "y \<noteq> None \<and> z \<noteq> None"
    and r1: "role_findSystemRoleByLevel (oe_db env) accountId RoleLevel_OWNER s1 = (Inr y, s2)"
    and r2: "role_findSystemRoleByLevel (oe_db env) accountId RoleLevel_ADMIN s2 = (Inr z, s3)"
    and save1: "member_save (oe_db env) (Membership_changeRole (the y) target) s3 = (Inr u4, s4)"
    and save2: "member_save (oe_db env) (Membership_changeRole (the z) actor) s4 = (Inr u5, s5)"
    and audit: "audit_org env (org_audit accountId actorId (Some targetId) ''ACCOUNT_OWNERSHIP_TRANSFERRED''
         ''AccountMembership'' targetId) s5 = (Inr x, s')"
    unfolding act_bind_Inr act_require_Inr by blast
  obtain owner admin where roles: "y = Some owner" "z = Some admin" using guards(3) by auto
  note b = both_members_Inr [OF spec both] and o = role_system_Inr [OF spec r1] and a = role_system_Inr [OF spec r2]
  have same: "s3 = s" using b(1) o(1) a(1) by simp
  have keys: "member_key (Membership_changeRole r target) = (targetId, accountId)"
    "member_key (Membership_changeRole r actor) = (actorId, accountId)" for r
    using b(4-7) by (simp_all add: member_key_def Membership_changeRole_def)
  have "view (w_db s') = view (w_db s5)" by (rule audit_org_view [OF spec audit])
  also have "\<dots> = ov_members_update (\<lambda>m. m((targetId, accountId) \<mapsto> Membership_changeRole owner target,
       (actorId, accountId) \<mapsto> Membership_changeRole admin actor)) (view (w_db s))"
    using member_save_view [OF spec save1] member_save_view [OF spec save2] b(2,3) guards(2) roles
    unfolding keys same
    by (auto simp: comp_def Membership_changeRole_def intro!: members_update_cong)
  finally show ?thesis using that [OF b(2,3) guards(1,2)] o(2) [OF roles(1)] a(2) [OF roles(2)] by blast
qed

end
