(* ===== verification/OrgMembers.thy ===== *)
theory OrgMembers
  imports OrgSafety
begin

text \<open>
  Joining and leaving an account: what accepting an invitation needs and writes, what a removal takes
  away.
\<close>

section \<open>Removal\<close>

definition revoked_key :: "time \<Rightarrow> string \<Rightarrow> ApiKeyProps \<Rightarrow> ApiKeyProps" where
  "revoked_key now actorId k =
     k\<lparr>ak_status := REVOKED, ak_revokedAt := Some now, ak_revokedById := Some actorId, ak_updatedAt := now\<rparr>"

definition canceled_invitation :: "time \<Rightarrow> InvitationProps \<Rightarrow> InvitationProps" where
  "canceled_invitation now v = v\<lparr>nv_status := INV_CANCELED, nv_canceledAt := Some now\<rparr>"

lemma audits_view:
  assumes "org_db_spec (oe_db env) view" "act_for (\<lambda>k. audit_org env (e k)) xs s = (Inr x, s')"
  shows "view (w_db s') = view (w_db s)"
  using assms(2)
proof (induction xs arbitrary: s)
  case (Cons y ys)
  then obtain u s1 where "audit_org env (e y) s = (Inr u, s1)" "act_for (\<lambda>k. audit_org env (e k)) ys s1 = (Inr x, s')"
    by (auto simp: act_bind_Inr)
  then show ?case using Cons.IH audit_org_view [OF assms(1)] by metis
qed (simp add: act_return_def)

lemma keys_update_cong: "f (ov_keys v) = g (ov_keys v) \<Longrightarrow> ov_keys_update f v = ov_keys_update g v"
  by (cases v) simp

lemma invitations_update_cong:
  "f (ov_invitations v) = g (ov_invitations v) \<Longrightarrow> ov_invitations_update f v = ov_invitations_update g v"
  by (cases v) simp

lemma change_no_rows: "(\<And>k r. m k = Some r \<Longrightarrow> \<not> P r) \<Longrightarrow> change_rows P u m = m"
proof
  fix k assume "\<And>k r. m k = Some r \<Longrightarrow> \<not> P r"
  then show "change_rows P u m k = m k" by (cases "m k") (auto simp: change_rows_def)
qed

lemma change_rows_cong: "(\<And>k r. m k = Some r \<Longrightarrow> P r = Q r) \<Longrightarrow> change_rows P u m = change_rows Q u m"
proof
  fix k assume "\<And>k r. m k = Some r \<Longrightarrow> P r = Q r"
  then show "change_rows P u m k = change_rows Q u m k" by (cases "m k") (auto simp: change_rows_def)
qed

lemma revoke_access_run:
  assumes spec: "org_db_spec (oe_db env) view"
    and run: "revoke_access env now accountId actorId targetId s = (Inr ra, s')"
  shows "view (w_db s') = ov_invitations_update (change_rows (sent_invitation accountId targetId) (canceled_invitation now))
      (ov_keys_update (change_rows (held_key accountId targetId) (revoked_key now actorId)) (view (w_db s)))"
    and "set (ra_invalidated ra) = {ak_keyId k |k i. ov_keys (view (w_db s)) i = Some k \<and> held_key accountId targetId k}"
    and "ra_canceledInvitations ra = card {i. \<exists>v. ov_invitations (view (w_db s)) i = Some v \<and> sent_invitation accountId targetId v}"
proof -
  note K = org_tables(6) [OF spec] and N = org_tables(5) [OF spec]
  obtain keys n s1 d where find: "tb_findMany (og_keys (oe_db env)) (held_key accountId targetId) (w_db s) = Some keys"
    and revoke: "(if keys = [] then act_return () else
       act_bind (db_count (tb_updateMany (og_keys (oe_db env)) (\<lambda>k. ak_id k \<in> set (map ak_id keys) \<and> ak_status k = ACTIVE)
         (revoked_key now actorId))) (\<lambda>_.
       act_for (\<lambda>k. audit_org env (org_audit accountId actorId (Some targetId) ''API_KEY_REVOKED'' ''ApiKey'' (ak_id k))) keys)) s =
       (Inr (), s1)"
    and cancel: "tb_updateMany (og_invitations (oe_db env)) (sent_invitation accountId targetId) (canceled_invitation now) (w_db s1) = Some (n, d)"
    and out: "s' = s1\<lparr>w_db := d\<rparr>" "ra = \<lparr>ra_revokedApiKeys = length keys, ra_canceledInvitations = n, ra_invalidated = map ak_keyId keys\<rparr>"
    using run unfolding revoke_access_def revoked_key_def canceled_invitation_def
    by (auto simp: act_bind_Inr [of "db_read _"] act_bind_Inr [of "if _ then _ else _"] act_bind_Inr [of "db_count (tb_updateMany (og_invitations _) _ _)"]
        db_read_Inr db_count_Inr act_return_Inr)
  note rows = table_findMany(2) [OF K find]
  have held: "r \<in> set keys \<longleftrightarrow> held_key accountId targetId r" if "ov_keys (view (w_db s)) i = Some r" for i r
    using rows [of r] table_key [OF K that] that by simp
  have v1: "view (w_db s1) = ov_keys_update (change_rows (held_key accountId targetId) (revoked_key now actorId)) (view (w_db s))"
  proof (cases "keys = []")
    case True
    have "ov_keys_update (change_rows (held_key accountId targetId) (revoked_key now actorId)) (view (w_db s)) =
      ov_keys_update id (view (w_db s))"
      using held True by (intro keys_update_cong) (simp add: change_no_rows)
    then show ?thesis using revoke True by (simp add: act_return_def)
  next
    case False
    then obtain m d1 where upd: "tb_updateMany (og_keys (oe_db env)) (\<lambda>k. ak_id k \<in> set (map ak_id keys) \<and> ak_status k = ACTIVE)
         (revoked_key now actorId) (w_db s) = Some (m, d1)"
      and audits: "act_for (\<lambda>k. audit_org env (org_audit accountId actorId (Some targetId) ''API_KEY_REVOKED'' ''ApiKey'' (ak_id k))) keys (s\<lparr>w_db := d1\<rparr>) =
        (Inr (), s1)"
      using revoke by (auto simp: act_bind_Inr db_count_Inr)
    have "view (w_db s1) = view d1" using audits_view [OF spec audits] by simp
    also have "\<dots> = ov_keys_update (change_rows (\<lambda>k. ak_id k \<in> set (map ak_id keys) \<and> ak_status k = ACTIVE) (revoked_key now actorId)) (view (w_db s))"
      by (rule table_updateMany(2) [OF K _ upd]) (simp add: revoked_key_def)
    also have "\<dots> = ov_keys_update (change_rows (held_key accountId targetId) (revoked_key now actorId)) (view (w_db s))"
    proof (rule keys_update_cong, rule change_rows_cong)
      fix i r assume r: "ov_keys (view (w_db s)) i = Some r"
      have id: "ak_id r = i" by (rule table_key [OF K r])
      have "ak_id r \<in> set (map ak_id keys) \<longleftrightarrow> r \<in> set keys"
      proof
        assume "ak_id r \<in> set (map ak_id keys)"
        then obtain q where "q \<in> set keys" "ak_id q = ak_id r" by auto
        then show "r \<in> set keys" using rows [of q] id r by simp
      qed simp
      then show "(ak_id r \<in> set (map ak_id keys) \<and> ak_status r = ACTIVE) = held_key accountId targetId r"
        using held [OF r] by (auto simp: held_key_def)
    qed
    finally show ?thesis .
  qed
  have "view d = ov_invitations_update (change_rows (sent_invitation accountId targetId) (canceled_invitation now)) (view (w_db s1))"
    by (rule table_updateMany(2) [OF N _ cancel]) (simp add: canceled_invitation_def)
  then show "view (w_db s') = ov_invitations_update (change_rows (sent_invitation accountId targetId) (canceled_invitation now))
      (ov_keys_update (change_rows (held_key accountId targetId) (revoked_key now actorId)) (view (w_db s)))"
    using v1 out(1) by simp
  have "n = card (matching (sent_invitation accountId targetId) (ov_invitations (view (w_db s1))))"
    by (rule table_updateMany(1) [OF N _ cancel]) (simp add: canceled_invitation_def)
  then show "ra_canceledInvitations ra = card {i. \<exists>v. ov_invitations (view (w_db s)) i = Some v \<and> sent_invitation accountId targetId v}"
    using v1 out(2) by (simp add: matching_def)
  show "set (ra_invalidated ra) = {ak_keyId k |k i. ov_keys (view (w_db s)) i = Some k \<and> held_key accountId targetId k}"
    using rows held out(2) by auto
qed

lemma remove_check_run:
  assumes spec: "org_db_spec (oe_db env) view"
    and run: "remove_check env accountId actorId targetId s = (Inr u, s')"
  obtains actor target where "s' = s" "ov_members (view (w_db s)) (actorId, accountId) = Some actor"
    "ov_members (view (w_db s)) (targetId, accountId) = Some target"
    "actorId = targetId \<or> isAdmin actor \<and> mp_roleLevel target < mp_roleLevel actor"
    "isOwner target \<Longrightarrow> 2 \<le> card (owner_ids accountId (view (w_db s)))"
proof -
  obtain actor target s1 where
    both: "both_members env accountId actorId targetId (NotFoundError ''Actor not member'')
       (NotFoundError ''Target not member'') s = (Inr (actor, target), s1)"
    and rest: "(if actorId = targetId then
       keeps_owner env accountId (isOwner target) (ForbiddenError ''Cannot leave as last owner. Transfer ownership first.'')
     else
       act_bind (act_require (isAdmin actor) (ForbiddenError ''Only admins and owners can remove members'')) (\<lambda>_.
       act_bind (act_require (canManage actor target)
         (ForbiddenError ''Cannot remove a member with equal or higher role than yours'')) (\<lambda>_.
       keeps_owner env accountId (isOwner target) (ForbiddenError ''Cannot remove the last owner'')))) s1 = (Inr u, s')"
    using run unfolding remove_check_def by (auto simp: act_bind_Inr [of "both_members _ _ _ _ _ _"])
  note b = both_members_Inr [OF spec both]
  show ?thesis
  proof (cases "actorId = targetId")
    case True
    then have k: "keeps_owner env accountId (isOwner target)
        (ForbiddenError ''Cannot leave as last owner. Transfer ownership first.'') s1 = (Inr u, s')" using rest by simp
    show ?thesis using that [OF _ b(2,3)] keeps_owner_Inr [OF spec k] b(1) True by simp
  next
    case False
    then have k: "keeps_owner env accountId (isOwner target) (ForbiddenError ''Cannot remove the last owner'') s1 = (Inr u, s')"
      and guards: "isAdmin actor" "canManage actor target"
      using rest by (auto simp: act_bind_Inr act_require_Inr)
    show ?thesis using that [OF _ b(2,3)] keeps_owner_Inr [OF spec k] b(1) guards by (simp add: canManage_def)
  qed
qed

lemma remove_commit_run:
  assumes spec: "org_db_spec (oe_db env) view"
    and run: "remove_commit env now accountId actorId targetId s = (Inr ra, s')"
  shows "view (w_db s') = (view (w_db s))\<lparr>ov_members := (ov_members (view (w_db s)))((targetId, accountId) := None),
      ov_invitations := change_rows (sent_invitation accountId targetId) (canceled_invitation now) (ov_invitations (view (w_db s))),
      ov_keys := change_rows (held_key accountId targetId) (revoked_key now actorId) (ov_keys (view (w_db s)))\<rparr>"
    and "set (ra_invalidated ra) = {ak_keyId k |k i. ov_keys (view (w_db s)) i = Some k \<and> held_key accountId targetId k}"
    and "ra_canceledInvitations ra = card {i. \<exists>v. ov_invitations (view (w_db s)) i = Some v \<and> sent_invitation accountId targetId v}"
proof -
  obtain s1 u2 s2 u3 where revoke: "revoke_access env now accountId actorId targetId s = (Inr ra, s1)"
    and del: "member_delete (oe_db env) accountId targetId s1 = (Inr u2, s2)"
    and audit: "audit_org env (org_audit accountId actorId (Some targetId)
       (if actorId = targetId then ''ACCOUNT_MEMBER_LEFT'' else ''ACCOUNT_MEMBER_REMOVED'')
       ''AccountMembership'' targetId) s2 = (Inr u3, s')"
    using run unfolding remove_commit_def by (auto simp: act_bind_Inr act_return_def)
  note r = revoke_access_run [OF spec revoke]
  show "view (w_db s') = (view (w_db s))\<lparr>ov_members := (ov_members (view (w_db s)))((targetId, accountId) := None),
      ov_invitations := change_rows (sent_invitation accountId targetId) (canceled_invitation now) (ov_invitations (view (w_db s))),
      ov_keys := change_rows (held_key accountId targetId) (revoked_key now actorId) (ov_keys (view (w_db s)))\<rparr>"
    using audit_org_view [OF spec audit] member_delete_view [OF spec del] r(1)
    by (cases "view (w_db s)") (simp add: fun_upd_def)
  show "set (ra_invalidated ra) = {ak_keyId k |k i. ov_keys (view (w_db s)) i = Some k \<and> held_key accountId targetId k}"
    "ra_canceledInvitations ra = card {i. \<exists>v. ov_invitations (view (w_db s)) i = Some v \<and> sent_invitation accountId targetId v}"
    by (rule r(2), rule r(3))
qed

text \<open>
  C32: What a removal takes away. A member leaves by themselves or is removed by an admin or owner of a higher level, the
  last owner neither way. Together with the membership every active API key the member created in the account
  is revoked and every pending invitation they sent is cancelled, and nothing else changes; the keys
  reported for invalidation in the gateway's cache are exactly the revoked ones.
\<close>

theorem remove_member_exact:
  assumes "org_db_spec (oe_db env) view"
    and "RemoveMember_execute env now accountId actorId targetId s = (Inr ra, s')"
  shows "(\<exists>actor target. ov_members (view (w_db s)) (actorId, accountId) = Some actor \<and>
      ov_members (view (w_db s)) (targetId, accountId) = Some target \<and>
      (actorId = targetId \<or> RoleLevel_ADMIN \<le> mp_roleLevel actor \<and> mp_roleLevel target < mp_roleLevel actor) \<and>
      (isOwner target \<longrightarrow> 2 \<le> card {k. \<exists>m. ov_members (view (w_db s)) k = Some m \<and> mp_accountId m = accountId \<and> isOwner m})) \<and>
    view (w_db s') = (view (w_db s))\<lparr>ov_members := (ov_members (view (w_db s)))((targetId, accountId) := None),
      ov_invitations := change_rows (sent_invitation accountId targetId)
        (\<lambda>v. v\<lparr>nv_status := INV_CANCELED, nv_canceledAt := Some now\<rparr>) (ov_invitations (view (w_db s))),
      ov_keys := change_rows (held_key accountId targetId)
        (\<lambda>k. k\<lparr>ak_status := REVOKED, ak_revokedAt := Some now, ak_revokedById := Some actorId, ak_updatedAt := now\<rparr>)
        (ov_keys (view (w_db s)))\<rparr> \<and>
    set (ra_invalidated ra) = {ak_keyId k |k i. ov_keys (view (w_db s)) i = Some k \<and> held_key accountId targetId k}"
proof -
  obtain u s1 where check: "remove_check env accountId actorId targetId s = (Inr u, s1)"
    and commit: "remove_commit env now accountId actorId targetId s1 = (Inr ra, s')"
    using assms(2) unfolding RemoveMember_execute_def by (auto simp: act_tx_Inr act_bind_Inr)
  show ?thesis
  proof (rule remove_check_run [OF assms(1) check])
    fix actor target
    assume rows: "s1 = s" "ov_members (view (w_db s)) (actorId, accountId) = Some actor"
      "ov_members (view (w_db s)) (targetId, accountId) = Some target"
      "actorId = targetId \<or> isAdmin actor \<and> mp_roleLevel target < mp_roleLevel actor"
      "isOwner target \<Longrightarrow> 2 \<le> card (owner_ids accountId (view (w_db s)))"
    note after = remove_commit_run [OF assms(1) commit]
    show ?thesis
      using rows(2-5) after [unfolded rows(1) revoked_key_def [abs_def] canceled_invitation_def [abs_def]]
      unfolding owner_ids_def isAdmin_def by blast
  qed
qed

theorem remove_member_exact_witness:
  "\<exists>ra s'. RemoveMember_execute mem_org_env 20 ''a'' ''u'' ''w'' mem_org_world = (Inr ra, s') \<and>
     ''vhyxvoid_dev_1'' \<in> set (ra_invalidated ra) \<and> ov_members (mem_org_view (w_db s')) (''w'', ''a'') = None"
proof -
  have "map_sum id ra_invalidated (fst (RemoveMember_execute mem_org_env 20 ''a'' ''u'' ''w'' mem_org_world)) = Inr [''vhyxvoid_dev_1'']"
    by code_simp
  then obtain ra s' where run: "RemoveMember_execute mem_org_env 20 ''a'' ''u'' ''w'' mem_org_world = (Inr ra, s')"
    "ra_invalidated ra = [''vhyxvoid_dev_1'']"
    by (cases "RemoveMember_execute mem_org_env 20 ''a'' ''u'' ''w'' mem_org_world"; cases "fst (RemoveMember_execute mem_org_env 20 ''a'' ''u'' ''w'' mem_org_world)") auto
  have "ov_members (mem_org_view (w_db s')) (''w'', ''a'') = None"
    using remove_member_exact [OF mem_org_env_spec run(1), THEN conjunct2, THEN conjunct1] by simp
  then show ?thesis using run by simp
qed

section \<open>Joining\<close>

lemma check_limit_Inr:
  assumes "check_member_limit env accountId n s = (Inr u, s')"
  shows "s' = s" "\<exists>plan. resolvePlanForAccount (\<lambda>a. kd_accountStatus (ke_db (oe_keys env)) a (w_db s))
      (\<lambda>a. kd_subscriptionPlan (ke_db (oe_keys env)) a (w_db s)) accountId = Some plan \<and> enat n < maxMembers (PLAN_LIMITS plan)"
proof -
  obtain ok s1 where can: "canAdd (oe_keys env) LimitMembers accountId n s = (Inr ok, s1)"
    and rest: "(if ok then act_return () else act_bind (CheckPlanLimits_getLimits (oe_keys env) accountId) (\<lambda>(limits, plan).
       act_throw (PlanLimitExceededError (maxMembers limits) n ''maxMembers'' plan))) s1 = (Inr u, s')"
    using assms unfolding check_member_limit_def by (auto simp: act_bind_Inr [of "canAdd _ _ _ _"])
  have ok: "ok" "s' = s1" using rest by (auto simp: act_bind_Inr act_throw_Inr act_return_Inr split: if_splits prod.splits)
  show "s' = s" "\<exists>plan. resolvePlanForAccount (\<lambda>a. kd_accountStatus (ke_db (oe_keys env)) a (w_db s))
      (\<lambda>a. kd_subscriptionPlan (ke_db (oe_keys env)) a (w_db s)) accountId = Some plan \<and> enat n < maxMembers (PLAN_LIMITS plan)"
    using can ok by (auto simp: canAdd_def CheckPlanLimits_getLimits_def act_bind_Inr db_read_Inr act_return_Inr limit_for_def)
qed

lemma invitation_found:
  assumes "org_db_spec db view" "invitation_findByTokenHash db h s = (Inr x, s')"
  shows "s' = s" "x = Some v \<Longrightarrow> ov_invitations (view (w_db s)) (nv_id v) = Some v \<and> nv_tokenHash v = h"
  using assms(2) table_find [OF org_tables(5) [OF assms(1)], of "\<lambda>v. nv_tokenHash v = h" "w_db s" x]
  by (auto simp: invitation_findByTokenHash_def action_simps first_of_def)

lemma member_count_Inr:
  assumes "org_db_spec db view" "member_count db accountId s = (Inr n, s')"
  shows "s' = s" "n = card {k. \<exists>m. ov_members (view (w_db s)) k = Some m \<and> mp_accountId m = accountId}"
  using assms(2) table_count [OF org_tables(4) [OF assms(1)], of "\<lambda>m. mp_accountId m = accountId" "w_db s" n]
  by (auto simp: member_count_def action_simps matching_def)

lemma role_by_id_Inr:
  assumes "org_db_spec db view" "role_findById db i s = (Inr x, s')"
  shows "s' = s" "x = Some r \<Longrightarrow> ov_roles (view (w_db s)) i = Some r"
  using assms(2) table_find [OF org_tables(3) [OF assms(1)], of "\<lambda>r. ro_id r = i" "w_db s" x]
  by (auto simp: role_findById_def action_simps first_of_def)

lemma invitation_save_view [view_writes]:
  assumes "org_db_spec db view" "invitation_save db p s = (Inr x, s')"
  shows "view (w_db s') = ov_invitations_update (\<lambda>m. m(nv_id p \<mapsto> (case m (nv_id p) of
    Some r \<Rightarrow> r\<lparr>nv_status := nv_status p, nv_acceptedAt := nv_acceptedAt p, nv_canceledAt := nv_canceledAt p\<rparr>
    | None \<Rightarrow> p))) (view (w_db s))"
  using assms(2) table_upsert [OF org_tables(5) [OF assms(1)], of p "nv_id p"
      "\<lambda>row. row\<lparr>nv_status := nv_status p, nv_acceptedAt := nv_acceptedAt p, nv_canceledAt := nv_canceledAt p\<rparr>" "w_db s" "w_db s'"]
  by (auto simp: invitation_save_def action_simps put_row_def)

lemma personal_account_Inr:
  assumes "org_db_spec db view" "member_findOwnerPersonalAccount db userId s = (Inr x, s')"
  shows "s' = s" "x = Some i \<Longrightarrow> \<exists>a. ov_accounts (view (w_db s)) i = Some a"
proof -
  obtain y where y: "og_memberWith db (\<lambda>m a. mp_userId m = userId \<and> mp_roleLevel m = RoleLevel_OWNER \<and>
        acc_type a = PERSONAL \<and> acc_status a = ''ACTIVE'') (w_db s) = Some y" "s' = s" "x = map_option mp_accountId y"
    using assms(2) by (auto simp: member_findOwnerPersonalAccount_def action_simps)
  show "s' = s" by (rule y(2))
  assume "x = Some i"
  then obtain m where "y = Some m" "i = mp_accountId m" using y(3) by auto
  then show "\<exists>a. ov_accounts (view (w_db s)) i = Some a"
    using assms(1) y(1) unfolding org_db_spec_def by (auto split: option.splits) blast
qed

lemma accept_run:
  assumes spec: "org_db_spec (oe_db env) view"
    and run: "AcceptInvitation_execute env now userId userEmail raw s = (Inr (res, notices), s')"
  obtains v r plan where "ov_invitations (view (w_db s)) (nv_id v) = Some v" "nv_tokenHash v = oe_tokenHash env raw"
    "nv_status v = INV_PENDING" "now < nv_expiresAt v" "nv_email v = normal_email userEmail"
    "ov_members (view (w_db s)) (userId, nv_accountId v) = None" "ov_roles (view (w_db s)) (nv_roleId v) = Some r"
    "resolvePlanForAccount (\<lambda>a. kd_accountStatus (ke_db (oe_keys env)) a (w_db s))
      (\<lambda>a. kd_subscriptionPlan (ke_db (oe_keys env)) a (w_db s)) (nv_accountId v) = Some plan"
    "enat (card {k. \<exists>m. ov_members (view (w_db s)) k = Some m \<and> mp_accountId m = nv_accountId v}) < maxMembers (PLAN_LIMITS plan)"
    "res = (nv_accountId v, nv_roleLevel v)"
    "notices = [] \<or> (\<exists>i a u. ov_accounts (view (w_db s)) i = Some a \<and> av_users (view (w_db s)) i = Some u)"
    "view (w_db s') = ov_invitations_update (\<lambda>m. m(nv_id v \<mapsto> Invitation_markAccepted now v))
      (ov_members_update (\<lambda>m. m((userId, nv_accountId v) \<mapsto> Membership_create now (nv_accountId v) userId r)) (view (w_db s)))"
proof -
  obtain x1 s1 v where found: "invitation_findByTokenHash (oe_db env) (oe_tokenHash env raw) s = (Inr x1, s1)" "x1 = Some v"
    and valid: "Invitation_ensureValid now v = None" "nv_email v = normal_email userEmail"
    and rest: "act_bind (member_find (oe_db env) (nv_accountId v) userId) (\<lambda>existing.
       act_bind (act_require (existing = None) (ConflictError ''You are already a member of this account'')) (\<lambda>_.
       act_bind (member_count (oe_db env) (nv_accountId v)) (\<lambda>members.
       act_bind (check_member_limit env (nv_accountId v) members) (\<lambda>_.
       act_bind (role_findById (oe_db env) (nv_roleId v)) (\<lambda>foundRole.
       act_bind (found_or (NotFoundError ''Role no longer exists'') foundRole) (\<lambda>r.
       act_bind (member_save (oe_db env) (Membership_create now (nv_accountId v) userId r)) (\<lambda>_.
       act_bind (invitation_save (oe_db env) (Invitation_markAccepted now v)) (\<lambda>_.
       act_bind (member_findOwnerPersonalAccount (oe_db env) (nv_invitedById v)) (\<lambda>owner.
       act_bind (if truthy owner then user_findById (og_auth (oe_db env)) (the owner) else act_return None) (\<lambda>ownerUser.
       act_bind (account_findById (oe_db env) (nv_accountId v)) (\<lambda>account.
       act_bind (user_findByEmail (og_auth (oe_db env)) (nv_email v)) (\<lambda>newMember.
       act_bind (audit_org env (org_audit (nv_accountId v) userId (Some userId) ''ACCOUNT_INVITATION_ACCEPTED''
         ''AccountInvitation'' (nv_id v))) (\<lambda>_.
       act_return ((nv_accountId v, nv_roleLevel v),
         (if ownerUser = None then []
          else [MemberJoined (nv_invitedById v) (nv_accountId v)
            (joined_body (case newMember of Some u \<Rightarrow> us_firstName u | None \<Rightarrow> nv_email v) account)]))))))))))))))) s1 = (Inr (res, notices), s')"
    using run unfolding AcceptInvitation_execute_def act_tx_Inr
    by (auto simp: act_bind_Inr [of "invitation_findByTokenHash _ _"] act_bind_Inr [of "found_or _ (_ :: InvitationProps option)"]
        act_bind_Inr [of "ensure _"] act_bind_Inr [of "act_require (_ = normal_email _) _"] found_or_Inr ensure_Inr act_require_Inr)
  from rest obtain x2 s2 n s3 u4 s4 x5 s5 r u6 s6 u7 s7 owner s8 ownerUser s9 x10 s10 x11 s11 u12 where
    member: "member_find (oe_db env) (nv_accountId v) userId s1 = (Inr x2, s2)" "x2 = None"
    and cnt: "member_count (oe_db env) (nv_accountId v) s2 = (Inr n, s3)"
    and limit: "check_member_limit env (nv_accountId v) n s3 = (Inr u4, s4)"
    and role: "role_findById (oe_db env) (nv_roleId v) s4 = (Inr x5, s5)" "x5 = Some r"
    and join: "member_save (oe_db env) (Membership_create now (nv_accountId v) userId r) s5 = (Inr u6, s6)"
    and accept: "invitation_save (oe_db env) (Invitation_markAccepted now v) s6 = (Inr u7, s7)"
    and owner: "member_findOwnerPersonalAccount (oe_db env) (nv_invitedById v) s7 = (Inr owner, s8)"
    and ownerUser: "(if truthy owner then user_findById (og_auth (oe_db env)) (the owner) else act_return None) s8 = (Inr ownerUser, s9)"
    and reads: "account_findById (oe_db env) (nv_accountId v) s9 = (Inr x10, s10)"
      "user_findByEmail (og_auth (oe_db env)) (nv_email v) s10 = (Inr x11, s11)"
    and audit: "audit_org env (org_audit (nv_accountId v) userId (Some userId) ''ACCOUNT_INVITATION_ACCEPTED''
         ''AccountInvitation'' (nv_id v)) s11 = (Inr u12, s')"
    and out: "res = (nv_accountId v, nv_roleLevel v)" "ownerUser = None \<Longrightarrow> notices = []"
    unfolding act_bind_Inr act_require_Inr found_or_Inr act_return_Inr by (elim exE conjE) (simp split: if_splits)
  note f = invitation_found [OF spec found(1)] and m = member_find_Inr [OF spec member(1)] and c = member_count_Inr [OF spec cnt]
    and l = check_limit_Inr [OF limit] and ro = role_by_id_Inr [OF spec role(1)]
  have same: "s5 = s" using f(1) m(1) c(1) l(1) ro(1) by simp
  have key: "member_key (Membership_create now (nv_accountId v) userId r) = (userId, nv_accountId v)"
    "nv_id (Invitation_markAccepted now v) = nv_id v"
    by (simp_all add: member_key_def Membership_create_def Invitation_markAccepted_def)
  have free: "ov_members (view (w_db s)) (userId, nv_accountId v) = None" using m member(2) f(1) by simp
  have v: "ov_invitations (view (w_db s)) (nv_id v) = Some v" using f(2) [OF found(2)] by simp
  have v7: "view (w_db s7) = ov_invitations_update (\<lambda>m. m(nv_id v \<mapsto> Invitation_markAccepted now v))
      (ov_members_update (\<lambda>m. m((userId, nv_accountId v) \<mapsto> Membership_create now (nv_accountId v) userId r)) (view (w_db s)))"
  proof -
    have v6: "view (w_db s6) = ov_members_update (\<lambda>m. m((userId, nv_accountId v) \<mapsto>
        Membership_create now (nv_accountId v) userId r)) (view (w_db s))"
      using member_save_view [OF spec join] unfolding key same by (rule trans) (rule members_update_cong, simp add: free)
    have "ov_invitations (view (w_db s6)) (nv_id v) = Some v" using v6 v by simp
    then show ?thesis using invitation_save_view [OF spec accept] unfolding key v6
      by - (erule trans, rule invitations_update_cong, simp add: v Invitation_markAccepted_def)
  qed
  note p = personal_account_Inr [OF spec owner]
  have s9: "s9 = s7 \<and> (ownerUser = None \<or> (\<exists>i a u. ov_accounts (view (w_db s7)) i = Some a \<and> av_users (view (w_db s7)) i = Some u))"
  proof (cases "truthy owner")
    case True
    then obtain i where i: "owner = Some i" by (cases owner) (auto simp: truthy_def)
    then have "user_findById (og_auth (oe_db env)) i s7 = (Inr ownerUser, s9)" using ownerUser True p(1) by simp
    note u = user_by_id [OF org_tables(1) [OF spec] this]
    show ?thesis using u p(2) [OF i] by (cases ownerUser) auto
  qed (use ownerUser p(1) in \<open>simp add: act_return_def\<close>)
  have "s11 = s9" using reads user_by_email(1) [OF org_tables(1) [OF spec] reads(2)]
    by (auto simp: account_findById_def action_simps)
  then have after: "view (w_db s') = view (w_db s7)" using audit_org_view [OF spec audit] s9 by simp
  have "nv_status v = INV_PENDING" "now < nv_expiresAt v" using valid(1) by (simp_all add: Invitation_ensureValid_def split: if_splits)
  moreover obtain plan where "resolvePlanForAccount (\<lambda>a. kd_accountStatus (ke_db (oe_keys env)) a (w_db s))
      (\<lambda>a. kd_subscriptionPlan (ke_db (oe_keys env)) a (w_db s)) (nv_accountId v) = Some plan"
    "enat (card {k. \<exists>m. ov_members (view (w_db s)) k = Some m \<and> mp_accountId m = nv_accountId v}) < maxMembers (PLAN_LIMITS plan)"
    using l(2) c f(1) m(1) by auto
  moreover have "ov_roles (view (w_db s)) (nv_roleId v) = Some r" using ro(2) [OF role(2)] l(1) c(1) m(1) f(1) by simp
  moreover have "notices = [] \<or> (\<exists>i a u. ov_accounts (view (w_db s)) i = Some a \<and> av_users (view (w_db s)) i = Some u)"
    using s9 out(2) v7 by auto
  ultimately show ?thesis
    using that [of v r plan] v f(2) [OF found(2)] valid(2) free out(1) after v7 by simp
qed

end
