(* ===== verification/OrgOwners.thy ===== *)
theory OrgOwners
  imports OrgMembers
begin

text \<open>
  No run of the use cases leaves an account without an owner, unless two owners leave at once; what
  accepting an invitation needs, and the notice about a new member.
\<close>

section \<open>Ownership is kept\<close>

lemma keeps_success:
  fixes X :: "('d, 'r, 'a) action"
  assumes "X = act_tx m" "\<And>s x s'. X s = (Inr x, s') \<Longrightarrow> I (w_db s) \<Longrightarrow> I (w_db s')"
  shows "db_keeps I X"
  unfolding db_keeps_def
proof (intro allI impI)
  fix s :: "('d, 'r) world"
  assume I: "I (w_db s)"
  show "I (w_db (snd (X s)))"
  proof (cases "X s")
    case (Pair x s')
    show ?thesis
    proof (cases x)
      case (Inl e)
      then have "w_db s' = w_db s" using Pair by (auto simp: assms(1) act_tx_def split: prod.splits sum.splits)
      then show ?thesis using Pair I by simp
    next
      case (Inr y)
      then show ?thesis using Pair I assms(2) [of s y s'] by simp
    qed
  qed
qed

lemma owned_other [simp]:
  "owned a (av_users_update f v) = owned a v" "owned a (av_emails_update g v) = owned a v"
  "owned a (ov_accounts_update h v) = owned a v" "owned a (ov_roles_update i v) = owned a v"
  "owned a (ov_invitations_update j v) = owned a v" "owned a (ov_keys_update k v) = owned a v"
  by (simp_all add: owned_def owner_ids_def)

lemma owner_ids_update:
  "k \<in> owner_ids a (ov_members_update f v) \<longleftrightarrow> (\<exists>m. f (ov_members v) k = Some m \<and> mp_accountId m = a \<and> isOwner m)"
  by (simp add: owner_ids_def)

lemma owned_change_role:
  assumes spec: "org_db_spec (oe_db env) view"
  shows "db_keeps (\<lambda>d. owned a (view d)) (ChangeMemberRole_execute env accountId actorId targetId newLevel)"
proof (rule keeps_success, rule ChangeMemberRole_execute_def)
  fix s x s'
  assume run: "ChangeMemberRole_execute env accountId actorId targetId newLevel s = (Inr x, s')"
    and owned: "owned a (view (w_db s))"
  show "owned a (view (w_db s'))"
  proof (rule change_role_run [OF spec run])
    fix actor target r
    assume t: "ov_members (view (w_db s)) (targetId, accountId) = Some target"
      and owners: "isOwner target \<Longrightarrow> newLevel \<noteq> RoleLevel_OWNER \<Longrightarrow> 2 \<le> card (owner_ids accountId (view (w_db s)))"
      and r: "ro_level r = newLevel"
      and v: "view (w_db s') = ov_members_update (\<lambda>m. m((targetId, accountId) \<mapsto> Membership_changeRole r target)) (view (w_db s))"
    have acc: "mp_accountId target = accountId" using member_row [OF spec t] by (simp add: member_key_def)
    show ?thesis
    proof (rule owned_update [of a _ "(targetId, accountId)"])
      show "owner_ids a (view (w_db s)) - {(targetId, accountId)} \<subseteq> owner_ids a (view (w_db s'))"
        unfolding v owner_ids_def by auto
      show "(targetId, accountId) \<in> owner_ids a (view (w_db s')) \<or> 2 \<le> card (owner_ids a (view (w_db s)))"
        if "(targetId, accountId) \<in> owner_ids a (view (w_db s))"
        using that t acc owners r by (auto simp: v owner_ids_def Membership_changeRole_def isOwner_def)
    qed (rule owned)
  qed
qed

lemma owned_transfer:
  assumes spec: "org_db_spec (oe_db env) view"
  shows "db_keeps (\<lambda>d. owned a (view d)) (TransferOwnership_execute env accountId actorId targetId)"
proof (rule keeps_success, rule TransferOwnership_execute_def)
  fix s x s'
  assume run: "TransferOwnership_execute env accountId actorId targetId s = (Inr x, s')"
    and owned: "owned a (view (w_db s))"
  show "owned a (view (w_db s'))"
  proof (rule transfer_run [OF spec run])
    fix actor target owner admin
    assume rows: "ov_members (view (w_db s)) (actorId, accountId) = Some actor"
      "ov_members (view (w_db s)) (targetId, accountId) = Some target" "actorId \<noteq> targetId" "ro_level owner = RoleLevel_OWNER"
      and v: "view (w_db s') = ov_members_update (\<lambda>m. m((targetId, accountId) \<mapsto> Membership_changeRole owner target,
       (actorId, accountId) \<mapsto> Membership_changeRole admin actor)) (view (w_db s))"
    have acc: "mp_accountId target = accountId" "mp_accountId actor = accountId"
      using member_row [OF spec rows(1)] member_row [OF spec rows(2)] by (simp_all add: member_key_def)
    show ?thesis
    proof (cases "a = accountId")
      case True
      then have "(targetId, accountId) \<in> owner_ids a (view (w_db s'))"
        using rows acc by (simp add: v owner_ids_def Membership_changeRole_def isOwner_def)
      then show ?thesis unfolding owned_def by blast
    next
      case False
      then have "owner_ids a (view (w_db s)) \<subseteq> owner_ids a (view (w_db s'))"
        using rows acc unfolding v owner_ids_def by auto
      then show ?thesis using owned unfolding owned_def by blast
    qed
  qed
qed

lemma owned_remove:
  assumes spec: "org_db_spec (oe_db env) view"
  shows "db_keeps (\<lambda>d. owned a (view d)) (RemoveMember_execute env now accountId actorId targetId)"
proof (rule keeps_success, rule RemoveMember_execute_def)
  fix s x s'
  assume "RemoveMember_execute env now accountId actorId targetId s = (Inr x, s')" and owned: "owned a (view (w_db s))"
  then obtain u s1 where check: "remove_check env accountId actorId targetId s = (Inr u, s1)"
    and commit: "remove_commit env now accountId actorId targetId s1 = (Inr x, s')"
    unfolding RemoveMember_execute_def by (auto simp: act_tx_Inr act_bind_Inr)
  show "owned a (view (w_db s'))"
  proof (rule remove_check_run [OF spec check])
    fix actor target
    assume rows: "s1 = s" "ov_members (view (w_db s)) (targetId, accountId) = Some target"
      and owners: "isOwner target \<Longrightarrow> 2 \<le> card (owner_ids accountId (view (w_db s)))"
    note v = remove_commit_run(1) [OF spec commit, unfolded rows(1)]
    have acc: "mp_accountId target = accountId" using member_row [OF spec rows(2)] by (simp add: member_key_def)
    show ?thesis
    proof (rule owned_update [of a _ "(targetId, accountId)"])
      show "owner_ids a (view (w_db s)) - {(targetId, accountId)} \<subseteq> owner_ids a (view (w_db s'))"
        unfolding v owner_ids_def by auto
      show "(targetId, accountId) \<in> owner_ids a (view (w_db s')) \<or> 2 \<le> card (owner_ids a (view (w_db s)))"
        if "(targetId, accountId) \<in> owner_ids a (view (w_db s))"
        using that rows acc owners by (auto simp: owner_ids_def)
    qed (rule owned)
  qed
qed

lemma owned_accept:
  assumes spec: "org_db_spec (oe_db env) view"
  shows "db_keeps (\<lambda>d. owned a (view d)) (AcceptInvitation_execute env now userId userEmail raw)"
proof (rule keeps_success, rule AcceptInvitation_execute_def)
  fix s x s'
  assume run: "AcceptInvitation_execute env now userId userEmail raw s = (Inr x, s')" and owned: "owned a (view (w_db s))"
  obtain res notices where x: "x = (res, notices)" by fastforce
  show "owned a (view (w_db s'))"
  proof (rule accept_run [OF spec run [unfolded x]])
    fix v r
    assume free: "ov_members (view (w_db s)) (userId, nv_accountId v) = None"
      and after: "view (w_db s') = ov_invitations_update (\<lambda>m. m(nv_id v \<mapsto> Invitation_markAccepted now v))
      (ov_members_update (\<lambda>m. m((userId, nv_accountId v) \<mapsto> Membership_create now (nv_accountId v) userId r)) (view (w_db s)))"
    have "owner_ids a (view (w_db s)) \<subseteq> owner_ids a (view (w_db s'))"
      using free unfolding after owner_ids_def by auto
    then show ?thesis using owned unfolding owned_def by blast
  qed
qed

section \<open>Use cases that touch no owner\<close>

lemma owned_writes [keeps_intros]:
  assumes "org_db_spec db view"
  shows "db_keeps (\<lambda>d. owned a (view d)) (account_save db p)"
    and "db_keeps (\<lambda>d. owned a (view d)) (role_saveBatch db rs)"
    and "db_keeps (\<lambda>d. owned a (view d)) (invitation_save db v)"
proof -
  show "db_keeps (\<lambda>d. owned a (view d)) (account_save db p)"
    unfolding account_save_def
    by (rule keeps_write, drule table_upsert [OF org_tables(2) [OF assms], rotated 2]) simp_all
  show "db_keeps (\<lambda>d. owned a (view d)) (role_saveBatch db rs)"
    unfolding role_saveBatch_def by (rule keeps_write, drule table_createMany [OF org_tables(3) [OF assms]]) simp
  show "db_keeps (\<lambda>d. owned a (view d)) (invitation_save db v)"
    unfolding invitation_save_def
    by (rule keeps_write, drule table_upsert [OF org_tables(5) [OF assms], rotated 2]) simp_all
qed

lemma owned_user_writes [keeps_intros]:
  assumes "org_db_spec db view"
  shows "db_keeps (\<lambda>d. owned a (view d)) (user_save (og_auth db) u)"
    and "db_keeps (\<lambda>d. owned a (view d)) (email_save (og_auth db) t)"
    and "db_keeps (\<lambda>d. owned a (view d)) (audit_create (og_auth db) e)"
proof -
  have users: "table_spec (ad_users (og_auth db)) us_id av_users av_users_update view"
    and emails: "table_spec (ad_emails (og_auth db)) tk_id av_emails av_emails_update view"
    and audit: "\<And>e d d'. ad_audit (og_auth db) e d = Some d' \<Longrightarrow> view d' = view d"
    using org_tables(1) [OF assms] unfolding auth_db_spec_def by blast+
  show "db_keeps (\<lambda>d. owned a (view d)) (user_save (og_auth db) u)"
    unfolding user_save_def by (rule keeps_write, drule table_upsert [OF users, rotated 2]) simp_all
  show "db_keeps (\<lambda>d. owned a (view d)) (email_save (og_auth db) t)"
    unfolding email_save_def by (rule keeps_write, drule table_upsert [OF emails, rotated 2]) simp_all
  show "db_keeps (\<lambda>d. owned a (view d)) (audit_create (og_auth db) e)"
    unfolding audit_create_def by (rule keeps_write) (simp add: audit)
qed

lemma owned_owner_save:
  assumes "org_db_spec db view" "mp_roleLevel p = RoleLevel_OWNER"
  shows "db_keeps (\<lambda>d. owned a (view d)) (member_save db p)"
  unfolding member_save_def
proof (rule keeps_write)
  fix d d'
  let ?u = "\<lambda>row :: MembershipProps. row\<lparr>mp_roleId := mp_roleId p, mp_roleLevel := mp_roleLevel p\<rparr>"
  assume run: "tb_upsert (og_members db) (member_key p) ?u p d = Some d'" and owned: "owned a (view d)"
  have v: "view d' = ov_members_update (put_row (member_key p) ?u p) (view d)"
    by (rule table_upsert [OF org_tables(4) [OF assms(1)] _ _ run]) (simp_all add: member_key_def)
  have "owner_ids a (view d) \<subseteq> owner_ids a (view d')"
    unfolding v owner_ids_def by (auto simp: put_row_def isOwner_def assms(2))
  then show "owned a (view d')" using owned unfolding owned_def by blast
qed

lemma owned_pick_slug: "db_keeps I (pick_slug env now draw name n a)"
  by (induction n arbitrary: a) (auto simp: account_findBySlug_def intro!: keeps_intros)

lemma owned_found:
  assumes "org_db_spec (oe_db env) view"
  shows "db_keeps (\<lambda>d. owned a (view d)) (found_account env now ids userId account)"
  unfolding found_account_def
  by (intro keeps_intros owned_writes [OF assms] owned_owner_save [OF assms])
    (simp add: Membership_create_def Role_seedSystemRoles_def system_role_def)

lemmas reads_defs = member_find_def member_count_def member_findOwnerPersonalAccount_def account_findById_def
  account_findByUserId_def role_findSystemRoleByLevel_def invitation_findPendingByEmail_def invitation_pendingCount_def
  invitation_findById_def check_member_limit_def canAdd_def CheckPlanLimits_getLimits_def audit_org_def
  email_findByHash_def user_findById_def

lemma owned_create:
  assumes "org_db_spec (oe_db env) view"
  shows "db_keeps (\<lambda>d. owned a (view d)) (CreateOrganization_execute env now ids draw userId name)"
  unfolding CreateOrganization_execute_def reads_defs
  by (intro keeps_intros owned_pick_slug owned_found owned_user_writes assms)

lemma owned_verify:
  assumes "org_db_spec (oe_db env) view"
  shows "db_keeps (\<lambda>d. owned a (view d)) (VerifyEmail_execute env now ids draw raw)"
  unfolding VerifyEmail_execute_def reads_defs
  by (intro keeps_intros owned_pick_slug owned_found owned_user_writes assms)

lemma owned_invite:
  assumes "org_db_spec (oe_db env) view"
  shows "db_keeps (\<lambda>d. owned a (view d)) (InviteMember_execute env now uuid raw accountId inviterId email level)"
  unfolding InviteMember_execute_def reads_defs
  by (intro keeps_intros owned_writes owned_user_writes assms)

lemma owned_cancel:
  assumes "org_db_spec (oe_db env) view"
  shows "db_keeps (\<lambda>d. owned a (view d)) (CancelInvitation_route env now accountId i userId)"
  unfolding CancelInvitation_route_def reads_defs
  by (intro keeps_intros owned_writes owned_user_writes assms)

section \<open>Runs\<close>

text \<open>One call of a use case, whatever its arguments and whether it succeeds or fails.\<close>

inductive org_step :: "('d, 'r) org_env \<Rightarrow> ('d, 'r) world \<Rightarrow> ('d, 'r) world \<Rightarrow> bool" for env where
  verify: "org_step env s (snd (VerifyEmail_execute env now ids draw raw s))"
| organization: "org_step env s (snd (CreateOrganization_execute env now ids draw userId name s))"
| invite: "org_step env s (snd (InviteMember_execute env now uuid raw accountId inviterId email level s))"
| accept: "org_step env s (snd (AcceptInvitation_execute env now userId email raw s))"
| cancel: "org_step env s (snd (CancelInvitation_route env now accountId i userId s))"
| role: "org_step env s (snd (ChangeMemberRole_execute env accountId actorId targetId level s))"
| transfer: "org_step env s (snd (TransferOwnership_execute env accountId actorId targetId s))"
| remove: "org_step env s (snd (RemoveMember_execute env now accountId actorId targetId s))"

lemmas owned_use_cases = owned_verify owned_create owned_invite owned_accept owned_cancel owned_change_role
  owned_transfer owned_remove

lemma owned_step:
  assumes "org_db_spec (oe_db env) view" "org_step env s s'" "owned a (view (w_db s))"
  shows "owned a (view (w_db s'))"
  using assms(2,3) owned_use_cases [OF assms(1), unfolded db_keeps_def, of a]
  by (induction rule: org_step.induct) simp_all

lemma owned_run:
  assumes "org_db_spec (oe_db env) view" "(org_step env)\<^sup>*\<^sup>* s s'" "owned a (view (w_db s))"
  shows "owned a (view (w_db s'))"
  using assms(2,3) by (induction rule: rtranclp_induct) (simp_all add: owned_step [OF assms(1)])

lemma create_owned:
  assumes spec: "org_db_spec (oe_db env) view"
    and run: "CreateOrganization_execute env now ids draw userId name s = (Inr accountId, s')"
  shows "owned accountId (view (w_db s'))"
proof -
  obtain account u5 s5 u6 where found: "found_account env now ids userId account s5 = (Inr u5, u6)"
    and audit: "\<exists>e u. audit_org env e u6 = (Inr u, s')" and id: "accountId = acc_id account"
    using run unfolding CreateOrganization_execute_def act_tx_Inr act_bind_Inr act_return_Inr by blast
  define p where "p = Membership_create now (acc_id account) userId
    (hd (Role_seedSystemRoles (acc_id account) now (fi_owner ids) (fi_admin ids) (fi_member ids)))"
  have p: "mp_roleLevel p = RoleLevel_OWNER" "mp_accountId p = acc_id account" "member_key p = (userId, acc_id account)"
    by (simp_all add: p_def Membership_create_def Role_seedSystemRoles_def system_role_def member_key_def)
  obtain u7 s7 where save: "member_save (oe_db env) p s7 = (Inr u7, u6)"
    using found unfolding found_account_def Let_def act_bind_Inr p_def by blast
  have row: "mp_accountId m = acc_id account" if "ov_members (view (w_db s7)) (userId, acc_id account) = Some m" for m
    using member_row [OF spec that] by (simp add: member_key_def)
  have "(userId, acc_id account) \<in> owner_ids accountId (view (w_db u6))"
    using member_save_view [OF spec save] row p id
    by (auto simp: owner_ids_def isOwner_def split: option.split)
  then show ?thesis using audit audit_org_view [OF spec] unfolding owned_def by fastforce
qed

text \<open>
  C9: An organisation never loses its last owner. Once \<^verbatim>\<open>CreateOrganization\<close> has returned, an owner is among the
  members of the account after any sequence of calls, by anybody and with any outcome, of the use cases that touch
  accounts: inviting, accepting, cancelling, changing roles, transferring, removing and leaving.
\<close>

theorem org_always_owned:
  assumes "org_db_spec (oe_db env) view"
    and "CreateOrganization_execute env now ids draw userId name s = (Inr accountId, s1)"
    and "(org_step env)\<^sup>*\<^sup>* s1 s2"
  shows "\<exists>k m. ov_members (view (w_db s2)) k = Some m \<and> mp_accountId m = accountId \<and> isOwner m"
  using owned_run [OF assms(1,3) create_owned [OF assms(1,2)]] unfolding owned_def owner_ids_def by blast

definition mem_ids :: account_ids where
  "mem_ids = \<lparr>fi_account = ''b'', fi_owner = ''b1'', fi_admin = ''b2'', fi_member = ''b3''\<rparr>"

theorem org_always_owned_witness:
  "\<exists>s1 s2. CreateOrganization_execute mem_org_env 10 mem_ids (\<lambda>n. ''abcdef'') ''u'' ''Acme'' mem_org_world = (Inr ''b'', s1) \<and>
     s2 = snd (RemoveMember_execute mem_org_env 20 ''b'' ''u'' ''u'' s1) \<and>
     (\<exists>k m. ov_members (mem_org_view (w_db s2)) k = Some m \<and> mp_accountId m = ''b'' \<and> isOwner m)"
proof -
  have "fst (CreateOrganization_execute mem_org_env 10 mem_ids (\<lambda>n. ''abcdef'') ''u'' ''Acme'' mem_org_world) = Inr ''b''"
    by code_simp
  then obtain s1 where run:
    "CreateOrganization_execute mem_org_env 10 mem_ids (\<lambda>n. ''abcdef'') ''u'' ''Acme'' mem_org_world = (Inr ''b'', s1)"
    by (metis prod.collapse)
  have "(org_step mem_org_env)\<^sup>*\<^sup>* s1 (snd (RemoveMember_execute mem_org_env 20 ''b'' ''u'' ''u'' s1))"
    by (rule r_into_rtranclp, rule org_step.remove)
  from org_always_owned [OF mem_org_env_spec run this] run show ?thesis by blast
qed

section \<open>Two removals at once\<close>

text \<open>
  C37: Two owners can both leave. The removal counts the owners in its transaction but locks nothing, and the isolation
  level is the database's default. When the two owners of an account leave at the same time, both
  checks see two owners, both deletions succeed, and the account is left without any owner.
\<close>

theorem last_owner_race:
  assumes "org_db_spec (oe_db env) view" "u \<noteq> v"
    and "{k. \<exists>m. ov_members (view (w_db s)) k = Some m \<and> mp_accountId m = accountId \<and> isOwner m} = {(u, accountId), (v, accountId)}"
    and "remove_check env accountId u u s = (Inr (), s1)"
    and "remove_check env accountId v v s1 = (Inr (), s2)"
    and "remove_commit env now accountId u u s2 = (Inr ra, s3)"
    and "remove_commit env now accountId v v s3 = (Inr rb, s4)"
  shows "\<not> (\<exists>k m. ov_members (view (w_db s4)) k = Some m \<and> mp_accountId m = accountId \<and> isOwner m) \<and>
    isl (fst (RemoveMember_execute env now accountId v v s3))"
proof -
  have "s1 = s" by (rule remove_check_run [OF assms(1,4)])
  moreover have "s2 = s1" by (rule remove_check_run [OF assms(1,5)])
  ultimately have m3: "ov_members (view (w_db s3)) = (ov_members (view (w_db s)))((u, accountId) := None)"
    using remove_commit_run(1) [OF assms(1,6)] by simp
  have m4: "ov_members (view (w_db s4)) = (ov_members (view (w_db s)))((u, accountId) := None, (v, accountId) := None)"
    using m3 remove_commit_run(1) [OF assms(1,7)] by simp
  have owners: "k = (u, accountId) \<or> k = (v, accountId)"
    if "ov_members (view (w_db s)) k = Some m" "mp_accountId m = accountId" "isOwner m" for k m
    using assms(3) that by blast
  obtain w where w: "ov_members (view (w_db s)) (v, accountId) = Some w" "isOwner w" using assms(3) by blast
  have "isl (fst (RemoveMember_execute env now accountId v v s3))"
  proof (rule ccontr)
    assume "\<not> isl (fst (RemoveMember_execute env now accountId v v s3))"
    then obtain rc s5 where "RemoveMember_execute env now accountId v v s3 = (Inr rc, s5)" using ran_Inr by blast
    then obtain s6 where check: "remove_check env accountId v v s3 = (Inr (), s6)"
      unfolding RemoveMember_execute_def act_tx_Inr act_bind_Inr by auto
    have "owner_ids accountId (view (w_db s3)) \<subseteq> {(v, accountId)}"
      using owners unfolding owner_ids_def m3 by (auto split: if_splits)
    then have few: "card (owner_ids accountId (view (w_db s3))) \<le> 1"
      using card_mono [of "{(v, accountId)}"] by simp
    show False
    proof (rule remove_check_run [OF assms(1) check])
      fix target
      assume "ov_members (view (w_db s3)) (v, accountId) = Some target"
        "isOwner target \<Longrightarrow> 2 \<le> card (owner_ids accountId (view (w_db s3)))"
      then show False using w assms(2) m3 few by simp
    qed
  qed
  moreover have "\<not> (\<exists>k m. ov_members (view (w_db s4)) k = Some m \<and> mp_accountId m = accountId \<and> isOwner m)"
    using owners unfolding m4 by (auto split: if_splits)
  ultimately show ?thesis by blast
qed

theorem last_owner_race_witness:
  "\<exists>s3 s4. fst (remove_check mem_org_env ''a'' ''u'' ''u'' mem_org_world) = Inr () \<and>
     fst (remove_check mem_org_env ''a'' ''v'' ''v'' mem_org_world) = Inr () \<and>
     s3 = snd (remove_commit mem_org_env 20 ''a'' ''u'' ''u'' mem_org_world) \<and>
     s4 = snd (remove_commit mem_org_env 20 ''a'' ''v'' ''v'' s3) \<and>
     \<not> (\<exists>k m. ov_members (mem_org_view (w_db s4)) k = Some m \<and> mp_accountId m = ''a'' \<and> isOwner m)"
proof -
  let ?s3 = "snd (remove_commit mem_org_env 20 ''a'' ''u'' ''u'' mem_org_world)"
  have cu: "remove_check mem_org_env ''a'' ''u'' ''u'' mem_org_world = (Inr (), mem_org_world)" by code_simp
  have cv: "remove_check mem_org_env ''a'' ''v'' ''v'' mem_org_world = (Inr (), mem_org_world)" by code_simp
  have "\<not> isl (fst (remove_commit mem_org_env 20 ''a'' ''u'' ''u'' mem_org_world))" by code_simp
  then obtain ra where ru: "remove_commit mem_org_env 20 ''a'' ''u'' ''u'' mem_org_world = (Inr ra, ?s3)"
    using ran_Inr by fastforce
  have "\<not> isl (fst (remove_commit mem_org_env 20 ''a'' ''v'' ''v'' ?s3))" by code_simp
  then obtain rb where rv: "remove_commit mem_org_env 20 ''a'' ''v'' ''v'' ?s3 = (Inr rb, snd (remove_commit mem_org_env 20 ''a'' ''v'' ''v'' ?s3))"
    using ran_Inr by fastforce
  have owners: "{k. \<exists>m. ov_members (mem_org_view (w_db mem_org_world)) k = Some m \<and> mp_accountId m = ''a'' \<and> isOwner m} =
      {(''u'', ''a''), (''v'', ''a'')}"
    by (auto simp: mem_org_view_def mem_org_world_def mem_member_def member_key_def isOwner_def RoleLevel_OWNER_def
        RoleLevel_ADMIN_def split: if_splits)
  show ?thesis using last_owner_race [OF mem_org_env_spec _ owners cu cv ru rv] cu cv by auto
qed

section \<open>Accepting an invitation\<close>

text \<open>
  C29: Nobody joins past the plan. Accepting an invitation needs the token of a pending, unexpired one
  addressed to the accepting user's own address, in an account whose plan has room for another member; the new member
  gets the role of the invitation, the invitation is used up, and nothing else changes.
\<close>

theorem accept_within_plan:
  assumes "org_db_spec (oe_db env) view"
    and "AcceptInvitation_execute env now userId userEmail raw s = (Inr (res, notices), s')"
  shows "\<exists>(v :: InvitationProps) r plan. ov_invitations (view (w_db s)) (nv_id v) = Some v \<and> nv_tokenHash v = oe_tokenHash env raw \<and>
    nv_status v = INV_PENDING \<and> now < nv_expiresAt v \<and> nv_email v = normal_email userEmail \<and>
    ov_roles (view (w_db s)) (nv_roleId v) = Some r \<and>
    resolvePlanForAccount (\<lambda>a. kd_accountStatus (ke_db (oe_keys env)) a (w_db s))
      (\<lambda>a. kd_subscriptionPlan (ke_db (oe_keys env)) a (w_db s)) (nv_accountId v) = Some plan \<and>
    enat (card {k. \<exists>m. ov_members (view (w_db s')) k = Some m \<and> mp_accountId m = nv_accountId v}) \<le> maxMembers (PLAN_LIMITS plan) \<and>
    view (w_db s') = ov_invitations_update (\<lambda>m. m(nv_id v \<mapsto> v\<lparr>nv_status := INV_ACCEPTED, nv_acceptedAt := Some now\<rparr>))
      (ov_members_update (\<lambda>m. m((userId, nv_accountId v) \<mapsto> \<lparr>mp_userId = userId, mp_accountId = nv_accountId v,
        mp_roleId = ro_id r, mp_roleLevel = ro_level r, mp_createdAt = now\<rparr>)) (view (w_db s)))"
proof (rule accept_run [OF assms])
  fix v :: InvitationProps and r plan
  let ?members = "\<lambda>d. {k. \<exists>m. ov_members (view d) k = Some m \<and> mp_accountId m = nv_accountId v}"
  assume v: "ov_invitations (view (w_db s)) (nv_id v) = Some v" "nv_tokenHash v = oe_tokenHash env raw"
    "nv_status v = INV_PENDING" "now < nv_expiresAt v" "nv_email v = normal_email userEmail"
    "ov_roles (view (w_db s)) (nv_roleId v) = Some r"
    and free: "ov_members (view (w_db s)) (userId, nv_accountId v) = None"
    and plan: "resolvePlanForAccount (\<lambda>a. kd_accountStatus (ke_db (oe_keys env)) a (w_db s))
      (\<lambda>a. kd_subscriptionPlan (ke_db (oe_keys env)) a (w_db s)) (nv_accountId v) = Some plan"
    and room: "enat (card (?members (w_db s))) < maxMembers (PLAN_LIMITS plan)"
    and after: "view (w_db s') = ov_invitations_update (\<lambda>m. m(nv_id v \<mapsto> Invitation_markAccepted now v))
      (ov_members_update (\<lambda>m. m((userId, nv_accountId v) \<mapsto> Membership_create now (nv_accountId v) userId r)) (view (w_db s)))"
  have "?members (w_db s') = insert (userId, nv_accountId v) (?members (w_db s))"
    using after by (auto simp: Membership_create_def)
  then have "enat (card (?members (w_db s'))) \<le> maxMembers (PLAN_LIMITS plan)"
    using room by (cases "maxMembers (PLAN_LIMITS plan)") (auto intro: order_trans [OF card_insert_le_m1])
  then show ?thesis using v plan after unfolding Invitation_markAccepted_def Membership_create_def by blast
qed

theorem accept_within_plan_witness:
  "\<exists>res notices s' (v :: InvitationProps). AcceptInvitation_execute mem_org_env 20 ''x'' ''X@y.z'' ''tok'' mem_org_world = (Inr (res, notices), s') \<and>
     ov_invitations (mem_org_view (w_db mem_org_world)) (nv_id v) = Some v \<and> nv_status v = INV_PENDING"
proof -
  have "\<not> isl (fst (AcceptInvitation_execute mem_org_env 20 ''x'' ''X@y.z'' ''tok'' mem_org_world))" by code_simp
  then obtain x s' where "AcceptInvitation_execute mem_org_env 20 ''x'' ''X@y.z'' ''tok'' mem_org_world = (Inr x, s')"
    using ran_Inr by blast
  then have run: "AcceptInvitation_execute mem_org_env 20 ''x'' ''X@y.z'' ''tok'' mem_org_world = (Inr (fst x, snd x), s')" by simp
  from accept_within_plan [OF mem_org_env_spec run] run show ?thesis by blast
qed

text \<open>
  The inviter never hears of it. To tell the inviter that somebody joined, the code looks for their personal account
  and then for a user with that account's identifier. As long as no user and no account share an identifier, the
  notice is never queued.
\<close>

theorem member_joined_never_sent:
  assumes "org_db_spec (oe_db env) view"
    and "AcceptInvitation_execute env now userId userEmail raw s = (Inr (res, notices), s')"
    and "dom (av_users (view (w_db s))) \<inter> dom (ov_accounts (view (w_db s))) = {}"
  shows "notices = []"
proof (rule accept_run [OF assms(1,2)])
  assume "notices = [] \<or> (\<exists>i a u. ov_accounts (view (w_db s)) i = Some a \<and> av_users (view (w_db s)) i = Some u)"
  then show "notices = []" using assms(3) by blast
qed

theorem member_joined_never_sent_witness:
  "\<exists>res s'. AcceptInvitation_execute mem_org_env 20 ''x'' ''X@y.z'' ''tok'' mem_org_world = (Inr (res, []), s')"
proof -
  have "\<not> isl (fst (AcceptInvitation_execute mem_org_env 20 ''x'' ''X@y.z'' ''tok'' mem_org_world))" by code_simp
  then obtain x s' where "AcceptInvitation_execute mem_org_env 20 ''x'' ''X@y.z'' ''tok'' mem_org_world = (Inr x, s')"
    using ran_Inr by blast
  then have run: "AcceptInvitation_execute mem_org_env 20 ''x'' ''X@y.z'' ''tok'' mem_org_world = (Inr (fst x, snd x), s')" by simp
  have "dom (av_users (mem_org_view (w_db mem_org_world))) \<inter> dom (ov_accounts (mem_org_view (w_db mem_org_world))) = {}"
    by (auto simp: mem_org_view_def mem_org_world_def mem_user_def mem_org_account_def split: if_splits)
  from member_joined_never_sent [OF mem_org_env_spec run this] run show ?thesis by auto
qed

end
